(* ===== verification/HSB_Prelude.thy ===== *)
theory HSB_Prelude
  imports Main "HOL-Library.Word"
begin

text \<open>
  What the components share: the names of the machine types, the errors the C++ code
  throws, the error-and-state functions in which the methods are written, and the lemmas
  on bytes, lists and words that carry the component proofs.

  A method of the code is a function \<open>'s \<Rightarrow> (hsb_error + 'a) \<times> 's\<close>: it reads and writes the
  state \<open>'s\<close> and either returns a value (\<open>Inr\<close>) or throws (\<open>Inl\<close>). The state a method had
  reached when it threw is kept, as in the code.
\<close>

unbundle bit_operations_syntax

subsection \<open>Types\<close>

type_synonym u8 = "8 word"
type_synonym u16 = "16 word"
type_synonym u32 = "32 word"
type_synonym u64 = "64 word"

type_synonym bytes = "u8 list"

text \<open>
  The exception classes of \<open>hololink.hpp\<close> (with the constant part of the message), the
  standard ones the code throws, and \<open>Blocked\<close>: a system call that never returns.
\<close>

datatype hsb_error =
    Runtime_error string
  | Invalid_argument string
  | Out_of_range string
  | Transaction_error string
  | Timeout_error string
  | Unsupported_version string
  | Bad_optional_access
  | Blocked

subsection \<open>Methods as functions on the state\<close>

type_synonym ('s, 'a) hm = "'s \<Rightarrow> (hsb_error + 'a) \<times> 's"

definition hret :: "'a \<Rightarrow> ('s, 'a) hm" where
  "hret x = (\<lambda>s. (Inr x, s))"

definition hthrow :: "hsb_error \<Rightarrow> ('s, 'a) hm" where
  "hthrow e = (\<lambda>s. (Inl e, s))"

definition hbind :: "('s, 'a) hm \<Rightarrow> ('a \<Rightarrow> ('s, 'b) hm) \<Rightarrow> ('s, 'b) hm" where
  "hbind m f = (\<lambda>s. case m s of (r, s') \<Rightarrow> (case r of Inl e \<Rightarrow> (Inl e, s') | Inr x \<Rightarrow> f x s'))"

definition hthen :: "('s, 'a) hm \<Rightarrow> ('s, 'b) hm \<Rightarrow> ('s, 'b) hm" where
  "hthen m k = hbind m (\<lambda>_. k)"

definition hgets :: "('s \<Rightarrow> 'a) \<Rightarrow> ('s, 'a) hm" where
  "hgets f = (\<lambda>s. (Inr (f s), s))"

definition hmodify :: "('s \<Rightarrow> 's) \<Rightarrow> ('s, unit) hm" where
  "hmodify f = (\<lambda>s. (Inr (), f s))"

text \<open>A computed result, or the exception it threw.\<close>

definition hlift :: "hsb_error + 'a \<Rightarrow> ('s, 'a) hm" where
  "hlift r = (\<lambda>s. (r, s))"

text \<open>\<open>if (b) throw e;\<close>\<close>

definition hthrow_if :: "bool \<Rightarrow> hsb_error \<Rightarrow> ('s, unit) hm" where
  "hthrow_if b e = (if b then hthrow e else hret ())"

text \<open>\<open>if (b) m;\<close>\<close>

definition hwhen :: "bool \<Rightarrow> ('s, unit) hm \<Rightarrow> ('s, unit) hm" where
  "hwhen b m = (if b then m else hret ())"

text \<open>The statements of a straight-line block, in order.\<close>

fun hseq :: "('s, unit) hm list \<Rightarrow> ('s, unit) hm" where
  "hseq [] = hret ()"
| "hseq (m # ms) = hthen m (hseq ms)"

named_theorems hm_run \<open>running a method: one equation per primitive\<close>

lemma hret_run [hm_run, simp]: "hret x s = (Inr x, s)"
  by (simp add: hret_def)

lemma hthrow_run [hm_run, simp]: "hthrow e s = (Inl e, s)"
  by (simp add: hthrow_def)

lemma hgets_run [hm_run, simp]: "hgets f s = (Inr (f s), s)"
  by (simp add: hgets_def)

lemma hmodify_run [hm_run, simp]: "hmodify f s = (Inr (), f s)"
  by (simp add: hmodify_def)

lemma hlift_run [hm_run, simp]: "hlift r s = (r, s)"
  by (simp add: hlift_def)

lemma hthrow_if_run [hm_run, simp]: "hthrow_if b e s = (if b then (Inl e, s) else (Inr (), s))"
  by (simp add: hthrow_if_def)

lemma hwhen_run [hm_run, simp]: "hwhen b m s = (if b then m s else (Inr (), s))"
  by (simp add: hwhen_def)

lemma hbind_Inr [hm_run, simp]: "m s = (Inr x, s') \<Longrightarrow> hbind m f s = f x s'"
  by (simp add: hbind_def)

lemma hbind_Inl [hm_run, simp]: "m s = (Inl e, s') \<Longrightarrow> hbind m f s = (Inl e, s')"
  by (simp add: hbind_def)

lemma hthen_Inr [hm_run, simp]: "m s = (Inr x, s') \<Longrightarrow> hthen m k s = k s'"
  by (simp add: hthen_def)

lemma hthen_Inl [hm_run, simp]: "m s = (Inl e, s') \<Longrightarrow> hthen m k s = (Inl e, s')"
  by (simp add: hthen_def)

lemma hbind_cases:
  assumes "hbind m f s = (r, s')"
  obtains (throws) e where "m s = (Inl e, s')" "r = Inl e"
    | (returns) x t where "m s = (Inr x, t)" "f x t = (r, s')"
  using assms by (auto simp: hbind_def split: prod.splits sum.splits)

lemma hthen_cases:
  assumes "hthen m k s = (r, s')"
  obtains (throws) e where "m s = (Inl e, s')" "r = Inl e"
    | (returns) x t where "m s = (Inr x, t)" "k t = (r, s')"
  using assms by (auto simp: hthen_def elim: hbind_cases)

text \<open>
  A relation between the states before and after that is reflexive and transitive holds of
  a method as soon as it holds of its parts.
\<close>

definition hrel :: "('s \<Rightarrow> 's \<Rightarrow> bool) \<Rightarrow> ('s, 'a) hm \<Rightarrow> bool" where
  "hrel R m \<longleftrightarrow> (\<forall>s. R s (snd (m s)))"

lemma hrelD: "hrel R m \<Longrightarrow> m s = (r, s') \<Longrightarrow> R s s'"
  by (metis hrel_def snd_conv)

lemma hrelI: "(\<And>s r s'. m s = (r, s') \<Longrightarrow> R s s') \<Longrightarrow> hrel R m"
  by (metis hrel_def prod.collapse)

named_theorems hrel_intro \<open>state relations kept by the primitives\<close>

lemma hrel_hret [hrel_intro]: "reflp R \<Longrightarrow> hrel R (hret x)"
  by (simp add: hrel_def reflpD)

lemma hrel_hthrow [hrel_intro]: "reflp R \<Longrightarrow> hrel R (hthrow e)"
  by (simp add: hrel_def reflpD)

lemma hrel_hgets [hrel_intro]: "reflp R \<Longrightarrow> hrel R (hgets f)"
  by (simp add: hrel_def reflpD)

lemma hrel_hlift [hrel_intro]: "reflp R \<Longrightarrow> hrel R (hlift r)"
  by (simp add: hrel_def reflpD)

lemma hrel_hthrow_if [hrel_intro]: "reflp R \<Longrightarrow> hrel R (hthrow_if b e)"
  by (simp add: hrel_def reflpD)

lemma hrel_hbind [hrel_intro]:
  "transp R \<Longrightarrow> hrel R m \<Longrightarrow> (\<And>x. hrel R (f x)) \<Longrightarrow> hrel R (hbind m f)"
  by (rule hrelI, erule hbind_cases) (auto dest!: hrelD dest: transpD)

lemma hrel_hthen [hrel_intro]:
  "transp R \<Longrightarrow> hrel R m \<Longrightarrow> hrel R k \<Longrightarrow> hrel R (hthen m k)"
  by (simp add: hthen_def hrel_hbind)

lemma hrel_hwhen [hrel_intro]: "reflp R \<Longrightarrow> hrel R m \<Longrightarrow> hrel R (hwhen b m)"
  by (simp add: hwhen_def hrel_hret)

lemma hrel_hseq [hrel_intro]:
  "reflp R \<Longrightarrow> transp R \<Longrightarrow> (\<And>m. m \<in> set ms \<Longrightarrow> hrel R m) \<Longrightarrow> hrel R (hseq ms)"
  by (induction ms) (simp_all add: hrel_hret hrel_hthen)

lemma hseq_append: "hseq (ms @ ns) = hthen (hseq ms) (hseq ns)"
  by (induction ms) (auto simp: hthen_def hbind_def fun_eq_iff split: prod.splits sum.splits)

subsection \<open>Bytes of a word\<close>

text \<open>\<open>(value >> n) & 0xFF\<close>, stored in a \<open>uint8_t\<close>.\<close>

definition byte_at :: "nat \<Rightarrow> 'a::len word \<Rightarrow> u8" where
  "byte_at n v = ucast (drop_bit n v AND 0xFF)"

lemma and_ff_take_bit: "(w :: 'a::len word) AND 0xFF = take_bit 8 w"
  by (simp add: take_bit_eq_mask mask_eq_exp_minus_1)

lemma byte_at_ucast: "byte_at n v = ucast (drop_bit n v)"
  by (rule bit_word_eqI) (simp add: byte_at_def and_ff_take_bit bit_simps)

lemma bit_byte_at: "bit (byte_at n v) k \<longleftrightarrow> k < 8 \<and> bit v (n + k)"
  by (auto simp: byte_at_ucast bit_simps dest: bit_imp_le_length)

lemma push_byte_at:
  "push_bit 8 (drop_bit (n + 8) v) OR ucast (byte_at n v) = drop_bit n (v :: 'a::len word)"
proof (rule bit_word_eqI)
  fix k
  assume "k < LENGTH('a)"
  then show "bit (push_bit 8 (drop_bit (n + 8) v) OR ucast (byte_at n v)) k = bit (drop_bit n v) k"
    by (cases "k < 8") (auto simp: bit_simps bit_byte_at)
qed

text \<open>Big-endian: the bytes of the low \<open>8 n\<close> bits, most significant first.\<close>

fun be_bytes :: "nat \<Rightarrow> 'a::len word \<Rightarrow> bytes" where
  "be_bytes 0 v = []"
| "be_bytes (Suc n) v = byte_at (8 * n) v # be_bytes n v"

fun le_bytes_from :: "nat \<Rightarrow> nat \<Rightarrow> 'a::len word \<Rightarrow> bytes" where
  "le_bytes_from i 0 v = []"
| "le_bytes_from i (Suc n) v = byte_at (8 * i) v # le_bytes_from (Suc i) n v"

definition le_bytes :: "nat \<Rightarrow> 'a::len word \<Rightarrow> bytes" where
  "le_bytes n v = le_bytes_from 0 n v"

text \<open>\<open>result = (result << 8) | b\<close>, over the bytes in order.\<close>

definition be_word :: "bytes \<Rightarrow> 'a::len word" where
  "be_word bs = foldl (\<lambda>r b. push_bit 8 r OR ucast b) 0 bs"

text \<open>\<open>result |= b << (8 * i)\<close>, over the bytes in order.\<close>

fun le_word_from :: "nat \<Rightarrow> bytes \<Rightarrow> 'a::len word" where
  "le_word_from i [] = 0"
| "le_word_from i (b # bs) = push_bit (8 * i) (ucast b) OR le_word_from (Suc i) bs"

definition le_word :: "bytes \<Rightarrow> 'a::len word" where
  "le_word bs = le_word_from 0 bs"

lemma length_be_bytes [simp]: "length (be_bytes n v) = n"
  by (induction n) auto

lemma length_le_bytes_from [simp]: "length (le_bytes_from i n v) = n"
  by (induction n arbitrary: i) auto

lemma length_le_bytes [simp]: "length (le_bytes n v) = n"
  by (simp add: le_bytes_def)

lemma be_word_be_bytes_aux:
  "foldl (\<lambda>r b. push_bit 8 r OR ucast b) (drop_bit (8 * n) v) (be_bytes n v) = (v :: 'a::len word)"
proof (induction n)
  case 0
  show ?case by simp
next
  case (Suc n)
  have "push_bit 8 (drop_bit (8 * Suc n) v) OR ucast (byte_at (8 * n) v) = drop_bit (8 * n) v"
    using push_byte_at [of "8 * n" v] by (simp add: add.commute)
  with Suc show ?case by simp
qed

lemma be_word_be_bytes:
  assumes "LENGTH('a) \<le> 8 * n"
  shows "be_word (be_bytes n v) = (v :: 'a::len word)"
proof -
  have "drop_bit (8 * n) v = 0"
    using assms by (intro bit_word_eqI) (simp add: bit_simps)
  then show ?thesis
    using be_word_be_bytes_aux [of n v] by (simp add: be_word_def)
qed

lemma bit_le_word_from:
  "bit (le_word_from i (le_bytes_from i n v) :: 'a::len word) k \<longleftrightarrow>
     8 * i \<le> k \<and> k < 8 * (i + n) \<and> bit (v :: 'a word) k"
proof (induction n arbitrary: i)
  case 0
  show ?case by simp
next
  case (Suc n)
  show ?case
    by (auto simp: bit_simps bit_byte_at Suc.IH dest: bit_imp_le_length)
qed

lemma le_word_le_bytes:
  assumes "LENGTH('a) \<le> 8 * n"
  shows "le_word (le_bytes n v) = (v :: 'a::len word)"
  using assms by (intro bit_word_eqI) (simp add: le_word_def le_bytes_def bit_le_word_from)

lemma bit_be_word:
  "bit (be_word bs :: 'a::len word) k \<longleftrightarrow>
     k < LENGTH('a) \<and> k < 8 * length bs \<and> bit (bs ! (length bs - Suc (k div 8))) (k mod 8)"
proof (induction bs arbitrary: k rule: rev_induct)
  case Nil
  show ?case by (simp add: be_word_def)
next
  case (snoc b bs)
  have step: "be_word (bs @ [b]) = (push_bit 8 (be_word bs) OR ucast b :: 'a word)"
    by (simp add: be_word_def)
  show ?case
  proof (cases "k < 8")
    case True
    then show ?thesis by (auto simp: step bit_simps nth_append)
  next
    case False
    then obtain j where j: "k = j + 8" by (metis add.commute le_iff_add not_less)
    then have "\<not> bit b k" by (auto dest: bit_imp_le_length)
    moreover from j have "k div 8 = Suc (j div 8)" "k mod 8 = j mod 8" by simp_all
    ultimately show ?thesis using j
      by (auto simp: step bit_simps snoc.IH nth_append dest: bit_imp_le_length)
  qed
qed

lemma nth_be_bytes: "i < n \<Longrightarrow> be_bytes n v ! i = byte_at (8 * (n - Suc i)) v"
proof (induction n arbitrary: i)
  case 0
  then show ?case by simp
next
  case (Suc n)
  then show ?case by (cases i) auto
qed

lemma be_bytes_be_word:
  assumes "8 * n \<le> LENGTH('a)" and "length bs = n"
  shows "be_bytes n (be_word bs :: 'a::len word) = bs"
proof (rule nth_equalityI)
  show "length (be_bytes n (be_word bs :: 'a word)) = length bs" using assms by simp
next
  fix i
  assume "i < length (be_bytes n (be_word bs :: 'a word))"
  then have i: "i < n" by simp
  have "bit (byte_at (8 * (n - Suc i)) (be_word bs :: 'a word)) k = bit (bs ! i) k" if "k < 8" for k
  proof -
    have "n - Suc ((8 * (n - Suc i) + k) div 8) = i" "8 * (n - Suc i) + k < 8 * n"
      using i that by simp_all
    with that assms show ?thesis by (simp add: bit_byte_at bit_be_word)
  qed
  then have "byte_at (8 * (n - Suc i)) (be_word bs :: 'a word) = bs ! i"
    by (intro bit_word_eqI) simp
  with i show "be_bytes n (be_word bs :: 'a word) ! i = bs ! i" by (simp add: nth_be_bytes)
qed

lemma bit_le_word_from_bytes:
  "bit (le_word_from i bs :: 'a::len word) k \<longleftrightarrow>
     k < LENGTH('a) \<and> 8 * i \<le> k \<and> k < 8 * (i + length bs) \<and> bit (bs ! (k div 8 - i)) (k mod 8)"
proof (induction bs arbitrary: i)
  case Nil
  show ?case by simp
next
  case (Cons b bs)
  show ?case
  proof (cases "8 * i \<le> k \<and> k < 8 * Suc i")
    case True
    then have q: "k div 8 = i" by (auto intro: div_nat_eqI)
    then have "k - 8 * i = k mod 8" by (metis minus_mult_div_eq_mod)
    with True q show ?thesis by (auto simp: bit_simps Cons.IH)
  next
    case False
    then have "\<not> (8 * i \<le> k \<and> bit b (k - 8 * i))" by (auto dest: bit_imp_le_length)
    moreover have "8 * Suc i \<le> k \<Longrightarrow> (b # bs) ! (k div 8 - i) = bs ! (k div 8 - Suc i)"
    proof -
      assume "8 * Suc i \<le> k"
      then have "Suc i \<le> k div 8" by arith
      then have "k div 8 - i = Suc (k div 8 - Suc i)" by simp
      then show ?thesis by simp
    qed
    ultimately show ?thesis using False by (auto simp: bit_simps Cons.IH)
  qed
qed

lemma nth_le_bytes_from: "j < n \<Longrightarrow> le_bytes_from i n v ! j = byte_at (8 * (i + j)) v"
proof (induction n arbitrary: i j)
  case 0
  then show ?case by simp
next
  case (Suc n)
  then show ?case by (cases j) (auto simp: algebra_simps)
qed

lemma le_bytes_le_word:
  assumes "8 * n \<le> LENGTH('a)" and "length bs = n"
  shows "le_bytes n (le_word bs :: 'a::len word) = bs"
proof (rule nth_equalityI)
  show "length (le_bytes n (le_word bs :: 'a word)) = length bs" using assms by simp
next
  fix i
  assume "i < length (le_bytes n (le_word bs :: 'a word))"
  then have i: "i < n" by simp
  have "bit (byte_at (8 * i) (le_word bs :: 'a word)) k = bit (bs ! i) k" if "k < 8" for k
    using that i assms by (simp add: bit_byte_at le_word_def bit_le_word_from_bytes)
  then have "byte_at (8 * i) (le_word bs :: 'a word) = bs ! i"
    by (intro bit_word_eqI) simp
  with i show "le_bytes n (le_word bs :: 'a word) ! i = bs ! i"
    by (simp add: le_bytes_def nth_le_bytes_from)
qed

subsection \<open>Bit fields of a register\<close>

text \<open>\<open>v &= ~(mask << n); v |= x << n;\<close> and what reads it back.\<close>

definition put_field :: "nat \<Rightarrow> nat \<Rightarrow> u32 \<Rightarrow> u32 \<Rightarrow> u32" where
  "put_field n w x v = (v AND NOT (push_bit n (mask w))) OR push_bit n x"

definition get_field :: "nat \<Rightarrow> nat \<Rightarrow> u32 \<Rightarrow> u32" where
  "get_field n w v = take_bit w (drop_bit n v)"

lemma bit_small: "x < 2 ^ w \<Longrightarrow> bit (x :: 'a::len word) k \<Longrightarrow> k < w"
  by (metis less_mask_eq bit_and_iff bit_mask_iff)

lemma bit_put_field:
  assumes "x < 2 ^ w" "n + w \<le> 32"
  shows "bit (put_field n w x v) k \<longleftrightarrow> (if n \<le> k \<and> k < n + w then bit x (k - n) else bit v k)"
  using bit_small [OF assms(1), of "k - n"] assms(2)
  by (auto simp: put_field_def bit_simps dest: bit_imp_le_length)

lemma get_put_field:
  assumes "x < 2 ^ w" "n + w \<le> 32"
  shows "get_field n w (put_field n w x v) = x"
  by (rule bit_word_eqI) (auto simp: get_field_def bit_simps bit_put_field [OF assms] dest: bit_small [OF assms(1)])

lemma get_put_other:
  assumes "x < 2 ^ w" "n + w \<le> 32" "m + u \<le> n \<or> n + w \<le> m"
  shows "get_field m u (put_field n w x v) = get_field m u v"
  using assms(3) by (intro bit_word_eqI) (auto simp: get_field_def bit_simps bit_put_field [OF assms(1,2)])

subsection \<open>Overwriting a part of a list\<close>

fun put_bytes :: "nat \<Rightarrow> 'a list \<Rightarrow> 'a list \<Rightarrow> 'a list" where
  "put_bytes p [] buf = buf"
| "put_bytes p (b # bs) buf = put_bytes (Suc p) bs (buf[p := b])"

lemma length_put_bytes [simp]: "length (put_bytes p bs buf) = length buf"
  by (induction bs arbitrary: p buf) auto

lemma put_bytes_split:
  "p + length bs \<le> length buf \<Longrightarrow>
   put_bytes p bs buf = take p buf @ bs @ drop (p + length bs) buf"
proof (induction bs arbitrary: p buf)
  case Nil
  then show ?case by simp
next
  case (Cons b bs)
  from Cons.prems have "p < length buf" by simp
  then have "take (Suc p) (buf[p := b]) = take p buf @ [b]"
    by (simp add: take_Suc_conv_app_nth)
  with Cons show ?case by simp
qed

lemma take_put_bytes:
  "p + length bs \<le> length buf \<Longrightarrow> take (p + length bs) (put_bytes p bs buf) = take p buf @ bs"
  by (simp add: put_bytes_split)

lemma take_put_bytes_before:
  "n \<le> p \<Longrightarrow> take n (put_bytes p bs buf) = take n buf"
  by (induction bs arbitrary: p buf) auto

lemma unat_of_nat_u32: "n < 2 ^ 32 \<Longrightarrow> unat (of_nat n :: u32) = n"
  by (simp only: unat_of_nat) simp

subsection \<open>Bytes as words\<close>

fun bytes_of_words :: "u32 list \<Rightarrow> bytes" where
  "bytes_of_words [] = []"
| "bytes_of_words (w # ws) = le_bytes 4 w @ bytes_of_words ws"

text \<open>\<open>memcpy\<close> from bytes into zeroed words, on a little-endian host.\<close>

fun words_of_bytes :: "bytes \<Rightarrow> u32 list" where
  "words_of_bytes [] = []"
| "words_of_bytes [a] = [le_word [a, 0, 0, 0]]"
| "words_of_bytes [a, b] = [le_word [a, b, 0, 0]]"
| "words_of_bytes [a, b, c] = [le_word [a, b, c, 0]]"
| "words_of_bytes (a # b # c # d # bs) = le_word [a, b, c, d] # words_of_bytes bs"

lemma length_bytes_of_words [simp]: "length (bytes_of_words ws) = 4 * length ws"
  by (induction ws) auto

lemma length_words_of_bytes [simp]: "length (words_of_bytes bs) = (length bs + 3) div 4"
  by (induction bs rule: words_of_bytes.induct) auto

text \<open>The bytes of the words are the bytes, filled up with zeros.\<close>

lemma le_bytes_word_4: "length bs = 4 \<Longrightarrow> le_bytes 4 (le_word bs :: u32) = bs"
  by (rule le_bytes_le_word) simp_all

lemma replicate_2_3: "replicate 2 x = [x, x]" "replicate 3 x = [x, x, x]"
  by (simp_all add: numeral_eq_Suc)

lemma bytes_of_words_of_bytes:
  "bytes_of_words (words_of_bytes bs) = bs @ replicate (4 * ((length bs + 3) div 4) - length bs) 0"
proof (induction bs rule: words_of_bytes.induct)
  case (5 a b c d bs)
  have "(7 + length bs) div 4 = Suc ((length bs + 3) div 4)" by simp
  with 5 show ?case by (simp add: le_bytes_word_4)
qed (simp_all add: le_bytes_word_4 replicate_2_3)

lemma bytes_of_words_append: "bytes_of_words (vs @ ws) = bytes_of_words vs @ bytes_of_words ws"
  by (induction vs) auto

lemma bytes_of_words_take: "bytes_of_words (take k ws) = take (4 * k) (bytes_of_words ws)"
proof (induction ws arbitrary: k)
  case Nil
  then show ?case by simp
next
  case (Cons w ws)
  then show ?case by (cases k) auto
qed

text \<open>The first \<open>n\<close> bytes, when only the words that hold them are kept.\<close>

lemma take_bytes_of_words:
  assumes "n \<le> length bs"
  shows "take n (bytes_of_words (take ((n + 3) div 4) (words_of_bytes bs))) = take n bs"
proof -
  have "n \<le> 4 * ((n + 3) div 4)" by simp
  with assms show ?thesis by (simp add: bytes_of_words_take bytes_of_words_of_bytes)
qed

end
