(* ===== verification/Hsb_Addresses.thy ===== *)
theory Hsb_Addresses
  imports HSB_Prelude
begin

text \<open>
  The register addresses and the event numbers that the host
  (src/src/hololink/core/hololink.hpp) and the emulated board
  (src/src/hololink/emulation/hsb_config.hpp) agree on, and register files as functions. The
  constants are abbreviations: they are numerals to the prover.
\<close>

subsection \<open>Registers\<close>

abbreviation (input) SPI_CTRL :: u32 where "SPI_CTRL \<equiv> 0x3000000"
abbreviation (input) I2C_CTRL :: u32 where "I2C_CTRL \<equiv> 0x3000200"
abbreviation (input) I2C_REG_CONTROL :: u32 where "I2C_REG_CONTROL \<equiv> 0x0"
abbreviation (input) I2C_REG_BUS_EN :: u32 where "I2C_REG_BUS_EN \<equiv> 0x4"
abbreviation (input) I2C_REG_NUM_BYTES :: u32 where "I2C_REG_NUM_BYTES \<equiv> 0x8"
abbreviation (input) I2C_REG_CLK_CNT :: u32 where "I2C_REG_CLK_CNT \<equiv> 0xc"
abbreviation (input) I2C_REG_STATUS :: u32 where "I2C_REG_STATUS \<equiv> 0x80"
abbreviation (input) I2C_REG_DATA_BUFFER :: u32 where "I2C_REG_DATA_BUFFER \<equiv> 0x100"
abbreviation (input) I2C_START :: u32 where "I2C_START \<equiv> 0x1"
abbreviation (input) I2C_10B_ADDRESS :: u32 where "I2C_10B_ADDRESS \<equiv> 0x2"
abbreviation (input) I2C_BUSY :: u32 where "I2C_BUSY \<equiv> 0x1"
abbreviation (input) I2C_FSM_ERR :: u32 where "I2C_FSM_ERR \<equiv> 0x2"
abbreviation (input) I2C_I2C_ERR :: u32 where "I2C_I2C_ERR \<equiv> 0x4"
abbreviation (input) I2C_I2C_NAK :: u32 where "I2C_I2C_NAK \<equiv> 0x8"
abbreviation (input) I2C_DONE :: u32 where "I2C_DONE \<equiv> 0x10"
abbreviation (input) HSB_IP_VERSION :: u32 where "HSB_IP_VERSION \<equiv> 0x80"
abbreviation (input) FPGA_DATE :: u32 where "FPGA_DATE \<equiv> 0x84"
abbreviation (input) FPGA_PTP_CTRL :: u32 where "FPGA_PTP_CTRL \<equiv> 0x104"
abbreviation (input) FPGA_PTP_DELAY_ASYMMETRY :: u32 where "FPGA_PTP_DELAY_ASYMMETRY \<equiv> 0x10c"
abbreviation (input) FPGA_PTP_CTRL_DPLL_CFG1 :: u32 where "FPGA_PTP_CTRL_DPLL_CFG1 \<equiv> 0x110"
abbreviation (input) FPGA_PTP_CTRL_DPLL_CFG2 :: u32 where "FPGA_PTP_CTRL_DPLL_CFG2 \<equiv> 0x114"
abbreviation (input) FPGA_PTP_CTRL_DELAY_AVG_FACTOR :: u32 where "FPGA_PTP_CTRL_DELAY_AVG_FACTOR \<equiv> 0x118"
abbreviation (input) FPGA_PTP_SYNC_TS_0 :: u32 where "FPGA_PTP_SYNC_TS_0 \<equiv> 0x180"
abbreviation (input) FPGA_PTP_SYNC_STAT :: u32 where "FPGA_PTP_SYNC_STAT \<equiv> 0x188"
abbreviation (input) FPGA_PTP_OFM :: u32 where "FPGA_PTP_OFM \<equiv> 0x18c"
abbreviation (input) VSYNC_CONTROL :: u32 where "VSYNC_CONTROL \<equiv> 0x70000000"
abbreviation (input) VSYNC_FREQUENCY :: u32 where "VSYNC_FREQUENCY \<equiv> 0x70000004"
abbreviation (input) VSYNC_DELAY :: u32 where "VSYNC_DELAY \<equiv> 0x70000008"
abbreviation (input) VSYNC_START :: u32 where "VSYNC_START \<equiv> 0x7000000c"
abbreviation (input) VSYNC_EXPOSURE :: u32 where "VSYNC_EXPOSURE \<equiv> 0x70000010"
abbreviation (input) VSYNC_GPIO :: u32 where "VSYNC_GPIO \<equiv> 0x70000014"
abbreviation (input) CTRL_EVENT :: u32 where "CTRL_EVENT \<equiv> 0x200"
abbreviation (input) CTRL_EVT_RISING :: u32 where "CTRL_EVT_RISING \<equiv> 0x204"
abbreviation (input) CTRL_EVT_FALLING :: u32 where "CTRL_EVT_FALLING \<equiv> 0x208"
abbreviation (input) CTRL_EVT_CLEAR :: u32 where "CTRL_EVT_CLEAR \<equiv> 0x20c"
abbreviation (input) CTRL_EVT_HOST_MAC_ADDR_LO :: u32 where "CTRL_EVT_HOST_MAC_ADDR_LO \<equiv> 0x210"
abbreviation (input) CTRL_EVT_HOST_MAC_ADDR_HI :: u32 where "CTRL_EVT_HOST_MAC_ADDR_HI \<equiv> 0x214"
abbreviation (input) CTRL_EVT_HOST_IP_ADDR :: u32 where "CTRL_EVT_HOST_IP_ADDR \<equiv> 0x218"
abbreviation (input) CTRL_EVT_HOST_UDP_PORT :: u32 where "CTRL_EVT_HOST_UDP_PORT \<equiv> 0x21c"
abbreviation (input) CTRL_EVT_FPGA_UDP_PORT :: u32 where "CTRL_EVT_FPGA_UDP_PORT \<equiv> 0x220"
abbreviation (input) CTRL_EVT_APB_INTERRUPT_EN :: u32 where "CTRL_EVT_APB_INTERRUPT_EN \<equiv> 0x224"
abbreviation (input) CTRL_EVT_APB_TIMEOUT :: u32 where "CTRL_EVT_APB_TIMEOUT \<equiv> 0x228"
abbreviation (input) CTRL_EVT_SW_EVENT :: u32 where "CTRL_EVT_SW_EVENT \<equiv> 0x22c"
abbreviation (input) CTRL_EVT_STAT :: u32 where "CTRL_EVT_STAT \<equiv> 0x280"
abbreviation (input) APB_RAM :: u32 where "APB_RAM \<equiv> 0x2000"

abbreviation (input) SPI_REG_STATUS :: u32 where "SPI_REG_STATUS \<equiv> 0x80"
abbreviation (input) SPI_START :: u32 where "SPI_START \<equiv> 1"
abbreviation (input) SPI_IDLE :: u32 where "SPI_IDLE \<equiv> 0"
abbreviation (input) SPI_DONE :: u32 where "SPI_DONE \<equiv> 0x10"
abbreviation (input) I2C_IDLE :: u32 where "I2C_IDLE \<equiv> 0"

text \<open>The registers of the data plane: of the host interface, and of a virtual port.\<close>

abbreviation (input) DP_PACKET_SIZE :: u32 where "DP_PACKET_SIZE \<equiv> 0x04"
abbreviation (input) DP_PACKET_UDP_PORT :: u32 where "DP_PACKET_UDP_PORT \<equiv> 0x08"
abbreviation (input) DP_VP_MASK :: u32 where "DP_VP_MASK \<equiv> 0x0C"
abbreviation (input) DP_QP :: u32 where "DP_QP \<equiv> 0x00"
abbreviation (input) DP_RKEY :: u32 where "DP_RKEY \<equiv> 0x04"
abbreviation (input) DP_PAGE_LSB :: u32 where "DP_PAGE_LSB \<equiv> 0x08"
abbreviation (input) DP_PAGE_MSB :: u32 where "DP_PAGE_MSB \<equiv> 0x0C"
abbreviation (input) DP_PAGE_INC :: u32 where "DP_PAGE_INC \<equiv> 0x10"
abbreviation (input) DP_MAX_BUFF :: u32 where "DP_MAX_BUFF \<equiv> 0x14"
abbreviation (input) DP_BUFFER_LENGTH :: u32 where "DP_BUFFER_LENGTH \<equiv> 0x18"
abbreviation (input) DP_HOST_MAC_LOW :: u32 where "DP_HOST_MAC_LOW \<equiv> 0x20"
abbreviation (input) DP_HOST_MAC_HIGH :: u32 where "DP_HOST_MAC_HIGH \<equiv> 0x24"
abbreviation (input) DP_HOST_IP :: u32 where "DP_HOST_IP \<equiv> 0x28"
abbreviation (input) DP_HOST_UDP_PORT :: u32 where "DP_HOST_UDP_PORT \<equiv> 0x2C"

subsection \<open>Register files\<close>

definition upds :: "(u32 \<Rightarrow> u32) \<Rightarrow> (u32 \<times> u32) list \<Rightarrow> u32 \<Rightarrow> u32" where
  "upds R avs = foldl (\<lambda>R av. R(fst av := snd av)) R avs"

lemma upds_simps [simp]:
  "upds R [] = R"
  "upds R ((a, v) # avs) = upds (R(a := v)) avs"
  "upds R (avs @ bvs) = upds (upds R avs) bvs"
  by (simp_all add: upds_def)

lemma upds_map_of: "upds R avs a = (case map_of (rev avs) a of Some v \<Rightarrow> v | None \<Rightarrow> R a)"
  by (induction avs rule: rev_induct) (auto simp: upds_def)

lemma upds_other: "a \<notin> fst ` set avs \<Longrightarrow> upds R avs a = R a"
  by (simp add: upds_map_of map_of_eq_None_iff option.case_eq_if image_image)

subsection \<open>Words in memory\<close>

lemma word_add_4_mult:
  "i < 2 ^ 30 \<Longrightarrow> j < 2 ^ 30 \<Longrightarrow> of_nat i * 4 = (of_nat j * 4 :: u32) \<longleftrightarrow> i = j"
proof -
  assume ij: "i < 2 ^ 30" "j < 2 ^ 30"
  have "unat (of_nat (i * 4) :: u32) = i * 4" "unat (of_nat (j * 4) :: u32) = j * 4"
    using ij by (simp_all only: unat_of_nat, simp_all)
  moreover have "of_nat i * 4 = (of_nat (i * 4) :: u32)" "of_nat j * 4 = (of_nat (j * 4) :: u32)"
    by simp_all
  ultimately show ?thesis by (metis mult_right_cancel zero_neq_numeral)
qed


text \<open>The words of memory from an address on.\<close>

definition words_at :: "(u32 \<Rightarrow> u32) \<Rightarrow> u32 \<Rightarrow> u32 list \<Rightarrow> bool" where
  "words_at R a ws \<longleftrightarrow> (\<forall>i < length ws. R (a + of_nat i * 4) = ws ! i)"

definition region :: "u32 \<Rightarrow> nat \<Rightarrow> u32 set" where
  "region a n = (\<lambda>i. a + of_nat i * 4) ` {..<n}"

lemma words_at_Nil [simp]: "words_at R a []"
  by (simp add: words_at_def)

lemma words_at_Cons [simp]: "words_at R a (w # ws) \<longleftrightarrow> R a = w \<and> words_at R (a + 4) ws"
proof
  assume l: "words_at R a (w # ws)"
  have "R (a + 4 + of_nat i * 4) = ws ! i" if "i < length ws" for i
    using l that unfolding words_at_def by (auto dest!: spec [of _ "Suc i"] simp: algebra_simps)
  moreover have "R a = w" using l unfolding words_at_def by (auto dest!: spec [of _ 0])
  ultimately show "R a = w \<and> words_at R (a + 4) ws" by (simp add: words_at_def)
next
  assume r: "R a = w \<and> words_at R (a + 4) ws"
  show "words_at R a (w # ws)"
    unfolding words_at_def
  proof (intro allI impI)
    fix i
    assume "i < length (w # ws)"
    with r show "R (a + of_nat i * 4) = (w # ws) ! i"
      by (cases i) (auto simp: words_at_def algebra_simps)
  qed
qed

lemma region_Suc: "region a (Suc n) = insert a (region (a + 4) n)"
proof -
  have "{..<Suc n} = insert 0 (Suc ` {..<n})" by (auto simp: image_iff less_Suc_eq_0_disj)
  then show ?thesis by (simp add: region_def image_image algebra_simps)
qed

lemma region_append: "region a (m + n) = region a m \<union> region (a + of_nat m * 4) n"
proof (induction m arbitrary: a)
  case 0
  then show ?case by (simp add: region_def)
next
  case (Suc m)
  from Suc.IH [of "a + 4"] show ?case by (simp add: region_Suc algebra_simps)
qed

lemma not_in_region_after: "n < 2 ^ 30 - 1 \<Longrightarrow> a \<notin> region (a + 4) n"
proof
  assume n: "n < 2 ^ 30 - 1" and "a \<in> region (a + 4) n"
  then obtain i where "i < n" "a = a + 4 + of_nat i * 4" by (auto simp: region_def)
  with n word_add_4_mult [of "Suc i" 0] show False by (simp add: algebra_simps)
qed

lemma words_at_upd: "a \<notin> region b (length ws) \<Longrightarrow> words_at (R(a := v)) b ws = words_at R b ws"
  by (auto simp: words_at_def region_def)

lemma words_at_cong:
  "(\<And>a. a \<in> region b (length ws) \<Longrightarrow> R a = R' a) \<Longrightarrow> words_at R b ws = words_at R' b ws"
  by (auto simp: words_at_def region_def)

lemma words_at_append:
  "words_at R a (xs @ ys) \<longleftrightarrow> words_at R a xs \<and> words_at R (a + of_nat (length xs) * 4) ys"
  by (induction xs arbitrary: a) (auto simp: algebra_simps)

text \<open>The pairs that put a buffer into memory: its words at consecutive addresses.\<close>

definition program_data :: "u32 \<Rightarrow> u32 list \<Rightarrow> (u32 \<times> u32) list" where
  "program_data address buffer = zip (map (\<lambda>i. address + of_nat i * 4) [0..<length buffer]) buffer"

text \<open>They put the words into memory.\<close>

lemma program_data_Cons:
  "program_data a (w # ws) = (a, w) # program_data (a + 4) ws"
  by (simp add: program_data_def map_upt_Suc algebra_simps del: upt_Suc)

lemma fst_program_data: "fst ` set (program_data a ws) = region a (length ws)"
  by (induction ws arbitrary: a) (simp_all add: program_data_Cons region_Suc, simp_all add: program_data_def region_def)

lemma words_at_program_data: "length ws < 2 ^ 30 \<Longrightarrow> words_at (upds R (program_data a ws)) a ws"
proof (induction ws arbitrary: R a)
  case Nil
  then show ?case by simp
next
  case (Cons w ws)
  have "a \<notin> fst ` set (program_data (a + 4) ws)"
    unfolding fst_program_data by (rule not_in_region_after) (use Cons.prems in simp)
  then have "upds (R(a := w)) (program_data (a + 4) ws) a = w" by (simp add: upds_other)
  moreover have "words_at (upds (R(a := w)) (program_data (a + 4) ws)) (a + 4) ws"
    by (rule Cons.IH) (use Cons.prems in simp)
  ultimately show ?case by (simp add: program_data_Cons)
qed

subsection \<open>Events\<close>

text \<open>The enumeration \<open>Event\<close>; its members by their numbers.\<close>

datatype hsb_event =
    I2C_BUSY_EVENT | SW_EVENT | SIF_0_FRAME_END | SIF_1_FRAME_END | GPIO0 | GPIO1
  | SIF_0_FRAME_START | SIF_1_FRAME_START

fun event_code :: "hsb_event \<Rightarrow> nat" where
  "event_code I2C_BUSY_EVENT = 0"
| "event_code SW_EVENT = 2"
| "event_code SIF_0_FRAME_END = 16"
| "event_code SIF_1_FRAME_END = 17"
| "event_code GPIO0 = 18"
| "event_code GPIO1 = 19"
| "event_code SIF_0_FRAME_START = 20"
| "event_code SIF_1_FRAME_START = 21"

lemma event_code_inj [simp]: "event_code e = event_code e' \<longleftrightarrow> e = e'"
  by (cases e; cases e') simp_all

lemma event_code_bound: "event_code e < 22"
  by (cases e) simp_all

text \<open>Events are ordered by their numbers, as the C++ enumeration is.\<close>

instantiation hsb_event :: linorder
begin

definition less_eq_hsb_event :: "hsb_event \<Rightarrow> hsb_event \<Rightarrow> bool" where
  "less_eq_hsb_event e e' \<longleftrightarrow> event_code e \<le> event_code e'"

definition less_hsb_event :: "hsb_event \<Rightarrow> hsb_event \<Rightarrow> bool" where
  "less_hsb_event e e' \<longleftrightarrow> event_code e < event_code e'"

instance
  by standard (auto simp: less_eq_hsb_event_def less_hsb_event_def)

end

text \<open>\<open>1 << event\<close>, the bit of an event in the event registers.\<close>

definition event_bit :: "hsb_event \<Rightarrow> u32" where
  "event_bit e = push_bit (event_code e) 1"

lemma bit_event_bit: "bit (event_bit e) k \<longleftrightarrow> k = event_code e"
  using event_code_bound [of e] by (auto simp: event_bit_def bit_simps)

end
