(* ===== verification/Register_Memory.thy ===== *)
theory Register_Memory
  imports Hsb_Addresses
begin

text \<open>
  The register file of the emulated board: the abstract class \<open>AddressMemory\<close>
  (src/src/hololink/emulation/address_memory.hpp) as a locale, and \<open>RegisterMemory\<close>
  (src/src/hololink/emulation/src/linux/register_memory.cpp), a hash map under a lock, which
  interprets it. A register that was never written reads as zero. The out-parameters of the
  C++ functions are results here; a null pointer or a negative count is refused with 1.
\<close>

type_synonym registers = "u32 \<Rightarrow> u32 option"

definition rm_new :: "u32 \<Rightarrow> u32 \<Rightarrow> u32 \<Rightarrow> u32 \<Rightarrow> registers" where
  "rm_new version_address version date_address date =
     (Map.empty(version_address \<mapsto> version))(date_address \<mapsto> date)"

definition rm_write :: "registers \<Rightarrow> u32 \<times> u32 \<Rightarrow> registers" where
  "rm_write regs av = regs(fst av \<mapsto> snd av)"

definition rm_read :: "registers \<Rightarrow> u32 \<Rightarrow> u32" where
  "rm_read regs address = (case regs address of Some v \<Rightarrow> v | None \<Rightarrow> 0)"

text \<open>The loops over \<open>num_addresses\<close> entries of an array that holds at least as many.\<close>

definition rm_write_many :: "registers \<Rightarrow> (u32 \<times> u32) list option \<Rightarrow> int \<Rightarrow> int \<times> registers" where
  "rm_write_many regs address_values num =
     (case address_values of
        None \<Rightarrow> (1, regs)
      | Some avs \<Rightarrow> if num < 0 then (1, regs) else (0, foldl rm_write regs (take (nat num) avs)))"

definition rm_read_many :: "registers \<Rightarrow> (u32 \<times> u32) list option \<Rightarrow> int \<Rightarrow> int \<times> (u32 \<times> u32) list option" where
  "rm_read_many regs address_values num =
     (case address_values of
        None \<Rightarrow> (1, None)
      | Some avs \<Rightarrow>
          if num < 0 then (1, Some avs)
          else (0, Some (map (\<lambda>(a, _). (a, rm_read regs a)) (take (nat num) avs) @ drop (nat num) avs)))"

fun rm_write_range_loop :: "registers \<Rightarrow> u32 \<Rightarrow> u32 list \<Rightarrow> nat \<Rightarrow> nat \<Rightarrow> nat \<Rightarrow> registers" where
  "rm_write_range_loop regs start vals i 0 stride = regs"
| "rm_write_range_loop regs start vals i (Suc n) stride =
     rm_write_range_loop (regs(start \<mapsto> vals ! (i * stride))) (start + 4) vals (Suc i) n stride"

definition rm_write_range :: "registers \<Rightarrow> u32 \<Rightarrow> u32 list option \<Rightarrow> int \<Rightarrow> nat \<Rightarrow> int \<times> registers" where
  "rm_write_range regs start vals num stride =
     (case vals of
        None \<Rightarrow> (1, regs)
      | Some vs \<Rightarrow>
          if num < 0 then (1, regs) else (0, rm_write_range_loop regs start vs 0 (nat num) stride))"

fun rm_read_range_loop :: "registers \<Rightarrow> u32 \<Rightarrow> u32 list \<Rightarrow> nat \<Rightarrow> nat \<Rightarrow> nat \<Rightarrow> u32 list" where
  "rm_read_range_loop regs start vals i 0 stride = vals"
| "rm_read_range_loop regs start vals i (Suc n) stride =
     rm_read_range_loop regs (start + 4) (vals[i * stride := rm_read regs start]) (Suc i) n stride"

definition rm_read_range :: "registers \<Rightarrow> u32 \<Rightarrow> u32 list option \<Rightarrow> int \<Rightarrow> nat \<Rightarrow> int \<times> u32 list option" where
  "rm_read_range regs start vals num stride =
     (case vals of
        None \<Rightarrow> (1, None)
      | Some vs \<Rightarrow>
          if num < 0 then (1, Some vs)
          else (0, Some (rm_read_range_loop regs start vs 0 (nat num) stride)))"

subsection \<open>The interface of \<open>AddressMemory\<close>\<close>

locale address_memory =
  fixes write_reg :: "'m \<Rightarrow> u32 \<times> u32 \<Rightarrow> 'm"
    and read_reg :: "'m \<Rightarrow> u32 \<Rightarrow> u32"
    and write_regs :: "'m \<Rightarrow> (u32 \<times> u32) list option \<Rightarrow> int \<Rightarrow> int \<times> 'm"
    and read_regs :: "'m \<Rightarrow> (u32 \<times> u32) list option \<Rightarrow> int \<Rightarrow> int \<times> (u32 \<times> u32) list option"
  assumes read_write: "read_reg (write_reg m av) a = (if a = fst av then snd av else read_reg m a)"
    and write_regs_fold: "write_regs m (Some avs) (int (length avs)) = (0, foldl write_reg m avs)"
    and read_regs_map: "read_regs m (Some avs) (int (length avs)) =
          (0, Some (map (\<lambda>(a, _). (a, read_reg m a)) avs))"
    and write_regs_refused: "num < 0 \<or> null = None \<Longrightarrow> write_regs m null num = (1, m)"
begin

lemma read_foldl_write:
  "read_reg (foldl write_reg m avs) a =
     (case map_of (rev avs) a of Some v \<Rightarrow> v | None \<Rightarrow> read_reg m a)"
  by (induction avs rule: rev_induct) (auto simp: read_write)

text \<open>What is written in one call with distinct addresses is read back in one call.\<close>

lemma write_then_read:
  assumes "distinct (map fst avs)" and "write_regs m (Some avs) (int (length avs)) = (c, m')"
    and "map fst queries = map fst avs"
  shows "c = 0 \<and> read_regs m' (Some queries) (int (length queries)) = (0, Some avs)"
proof -
  from assms(2) have m': "c = 0" "m' = foldl write_reg m avs" by (simp_all add: write_regs_fold)
  have at: "read_reg m' a = v" if "(a, v) \<in> set avs" for a v
    using that assms(1) by (simp add: m' read_foldl_write rev_map [symmetric])
  have "map (\<lambda>(a, _). (a, read_reg m' a)) queries = map (\<lambda>a. (a, read_reg m' a)) (map fst queries)"
    by (simp add: case_prod_unfold)
  also have "\<dots> = map (\<lambda>(a, _). (a, read_reg m' a)) avs"
    by (simp add: assms(3) case_prod_unfold)
  also have "\<dots> = avs" using at by (auto intro!: map_idI)
  finally show ?thesis by (simp add: m'(1) read_regs_map)
qed

end

interpretation rm: address_memory rm_write rm_read rm_write_many rm_read_many
  by unfold_locales (auto simp: rm_read_def rm_write_def rm_write_many_def rm_read_many_def split: option.splits)

lemma rm_read_update [simp]: "rm_read (regs(a \<mapsto> v)) = (rm_read regs)(a := v)"
  by (simp add: rm_read_def fun_eq_iff)

lemma rm_write_upd: "rm_write regs (a, v) = regs(a \<mapsto> v)"
  by (simp add: rm_write_def)

subsection \<open>Ranges\<close>

text \<open>
  A range of fewer than \<open>2^30\<close> words (with stride 1, as the emulator calls it) does not lap
  itself in the 32-bit address space: it reads back what was written.
\<close>

lemma rm_write_range_loop_other:
  "\<forall>k<n. a \<noteq> start + of_nat k * 4 \<Longrightarrow>
   rm_read (rm_write_range_loop regs start vals i n stride) a = rm_read regs a"
proof (induction n arbitrary: regs start i)
  case 0
  then show ?case by simp
next
  case (Suc n)
  have "a \<noteq> start + 4 + of_nat k * 4" if "k < n" for k
    using Suc.prems [rule_format, of "Suc k"] that by (simp add: algebra_simps)
  then have "rm_read (rm_write_range_loop (regs(start \<mapsto> vals ! (i * stride))) (start + 4) vals
      (Suc i) n stride) a = rm_read (regs(start \<mapsto> vals ! (i * stride))) a"
    by (intro Suc.IH) blast
  moreover have "a \<noteq> start" using Suc.prems [rule_format, of 0] by simp
  ultimately show ?case by simp
qed

lemma rm_write_range_loop_read:
  "n < 2 ^ 30 \<Longrightarrow> k < n \<Longrightarrow>
   rm_read (rm_write_range_loop regs start vals i n 1) (start + of_nat k * 4) = vals ! (i + k)"
proof (induction n arbitrary: regs start i k)
  case 0
  then show ?case by simp
next
  case (Suc n)
  show ?case
  proof (cases k)
    case 0
    have "start \<noteq> start + 4 + of_nat j * 4" if "j < n" for j
      using word_add_4_mult [of "Suc j" 0] that Suc.prems(1) by (simp add: algebra_simps)
    then show ?thesis by (simp add: 0 rm_write_range_loop_other)
  next
    case (Suc k')
    then have "start + of_nat k * 4 = start + 4 + of_nat k' * 4" by (simp add: algebra_simps)
    moreover have "rm_read (rm_write_range_loop (regs(start \<mapsto> vals ! i)) (start + 4) vals
        (Suc i) n 1) (start + 4 + of_nat k' * 4) = vals ! (Suc i + k')"
      using Suc Suc.prems by (intro Suc.IH) simp_all
    ultimately show ?thesis using Suc by (simp add: add.assoc)
  qed
qed

lemma length_rm_read_range_loop [simp]:
  "length (rm_read_range_loop regs start vals i n stride) = length vals"
  by (induction n arbitrary: start vals i) auto

lemma rm_read_range_loop_nth:
  "i + n \<le> length vals \<Longrightarrow> j < length vals \<Longrightarrow>
   rm_read_range_loop regs start vals i n 1 ! j =
     (if i \<le> j \<and> j < i + n then rm_read regs (start + of_nat (j - i) * 4) else vals ! j)"
proof (induction n arbitrary: start vals i)
  case 0
  then show ?case by auto
next
  case (Suc n)
  have shift: "start + 4 + of_nat (j - Suc i) * 4 = start + of_nat (j - i) * 4" if "Suc i \<le> j"
  proof -
    from that have "j - i = Suc (j - Suc i)" by simp
    then show ?thesis by (simp add: algebra_simps)
  qed
  have "rm_read_range_loop regs (start + 4) (vals[i := rm_read regs start]) (Suc i) n 1 ! j =
     (if Suc i \<le> j \<and> j < Suc i + n then rm_read regs (start + 4 + of_nat (j - Suc i) * 4)
      else vals[i := rm_read regs start] ! j)"
    using Suc.prems by (intro Suc.IH) simp_all
  then show ?case using Suc.prems
    by (cases "j = i") (auto simp: shift)
qed

end
