(* ===== verification/Wire_Codec.thy ===== *)
theory Wire_Codec
  imports HSB_Prelude
begin

text \<open>
  The byte-level codec of the control plane: \<open>Serializer\<close> (src/src/hololink/core/serializer.hpp)
  and \<open>Deserializer\<close> (src/src/hololink/core/deserializer.hpp). Both keep a buffer, its limit
  and a position of type \<open>size_t\<close>; the guards add to the position modulo \<open>2^64\<close>, as the
  code does. An operation that returns \<open>false\<close> and changes nothing is \<open>None\<close>.
  The locale \<open>wire_field\<close> states what the two classes promise each other, for one kind of
  field; it is interpreted for every width and byte order that both of them offer.
\<close>

subsection \<open>Serializer\<close>

text \<open>The addition of \<open>size_t\<close> values.\<close>

definition size_add :: "nat \<Rightarrow> nat \<Rightarrow> nat" where
  "size_add a b = (a + b) mod 2 ^ 64"

record serializer =
  s_buffer :: bytes
  s_limit :: nat
  s_position :: nat

definition new_serializer :: "bytes \<Rightarrow> nat \<Rightarrow> serializer" where
  "new_serializer buffer sz = \<lparr>s_buffer = buffer, s_limit = sz, s_position = 0\<rparr>"

text \<open>\<open>unsigned length()\<close> narrows the position to 32 bits.\<close>

definition s_length :: "serializer \<Rightarrow> nat" where
  "s_length s = s_position s mod 2 ^ 32"

text \<open>
  The common shape of the append functions: refuse when the position would pass the limit,
  else store the bytes at the position and advance it.
\<close>

definition append_bytes :: "serializer \<Rightarrow> bytes \<Rightarrow> serializer option" where
  "append_bytes s bs =
     (if s_limit s < size_add (s_position s) (length bs) then None
      else Some (s\<lparr>s_buffer := put_bytes (s_position s) bs (s_buffer s),
                   s_position := size_add (s_position s) (length bs)\<rparr>))"

definition append_uint32_le :: "serializer \<Rightarrow> u32 \<Rightarrow> serializer option" where
  "append_uint32_le s value =
     append_bytes s [byte_at 0 value, byte_at 8 value, byte_at 16 value, byte_at 24 value]"

definition append_uint32_be :: "serializer \<Rightarrow> u32 \<Rightarrow> serializer option" where
  "append_uint32_be s value =
     append_bytes s [byte_at 24 value, byte_at 16 value, byte_at 8 value, byte_at 0 value]"

definition append_uint16_le :: "serializer \<Rightarrow> u16 \<Rightarrow> serializer option" where
  "append_uint16_le s value = append_bytes s [byte_at 0 value, byte_at 8 value]"

definition append_uint16_be :: "serializer \<Rightarrow> u16 \<Rightarrow> serializer option" where
  "append_uint16_be s value = append_bytes s [byte_at 8 value, byte_at 0 value]"

definition append_uint8 :: "serializer \<Rightarrow> u8 \<Rightarrow> serializer option" where
  "append_uint8 s value = append_bytes s [byte_at 0 value]"

definition append_buffer :: "serializer \<Rightarrow> bytes \<Rightarrow> serializer option" where
  "append_buffer s b = append_bytes s b"

definition append_uint64_be :: "serializer \<Rightarrow> u64 \<Rightarrow> serializer option" where
  "append_uint64_be s value =
     append_bytes s [byte_at 56 value, byte_at 48 value, byte_at 40 value, byte_at 32 value,
                     byte_at 24 value, byte_at 16 value, byte_at 8 value, byte_at 0 value]"

text \<open>What a caller has written so far, and when the object is in a proper state.\<close>

definition s_ok :: "serializer \<Rightarrow> bool" where
  "s_ok s \<longleftrightarrow> s_position s \<le> s_limit s \<and> s_limit s \<le> length (s_buffer s) \<and> s_limit s < 2 ^ 32"

definition written :: "serializer \<Rightarrow> bytes" where
  "written s = take (s_position s) (s_buffer s)"

definition room :: "serializer \<Rightarrow> nat" where
  "room s = s_limit s - s_position s"

subsection \<open>Deserializer\<close>

record deserializer =
  d_buffer :: bytes
  d_limit :: nat
  d_position :: nat

definition new_deserializer :: "bytes \<Rightarrow> nat \<Rightarrow> deserializer" where
  "new_deserializer buffer sz = \<lparr>d_buffer = buffer, d_limit = sz, d_position = 0\<rparr>"

text \<open>
  The common shape of the fetch functions: refuse when the position would pass the limit,
  else read the \<open>n\<close> bytes at the position and advance it.
\<close>

definition next_bytes :: "deserializer \<Rightarrow> nat \<Rightarrow> (bytes \<times> deserializer) option" where
  "next_bytes d n =
     (if d_limit d < size_add (d_position d) n then None
      else Some (map (\<lambda>i. d_buffer d ! (d_position d + i)) [0..<n],
                 d\<lparr>d_position := size_add (d_position d) n\<rparr>))"

definition next_uint32_le :: "deserializer \<Rightarrow> (u32 \<times> deserializer) option" where
  "next_uint32_le d = map_option (apfst le_word) (next_bytes d 4)"

definition next_uint8 :: "deserializer \<Rightarrow> (u8 \<times> deserializer) option" where
  "next_uint8 d = map_option (apfst be_word) (next_bytes d 1)"

definition next_uint16_be :: "deserializer \<Rightarrow> (u16 \<times> deserializer) option" where
  "next_uint16_be d = map_option (apfst be_word) (next_bytes d 2)"

definition next_uint16_le :: "deserializer \<Rightarrow> (u16 \<times> deserializer) option" where
  "next_uint16_le d = map_option (apfst le_word) (next_bytes d 2)"

definition next_uint24_be :: "deserializer \<Rightarrow> (u32 \<times> deserializer) option" where
  "next_uint24_be d = map_option (apfst be_word) (next_bytes d 3)"

definition next_uint32_be :: "deserializer \<Rightarrow> (u32 \<times> deserializer) option" where
  "next_uint32_be d = map_option (apfst be_word) (next_bytes d 4)"

definition next_uint48_be :: "deserializer \<Rightarrow> (u64 \<times> deserializer) option" where
  "next_uint48_be d = map_option (apfst be_word) (next_bytes d 6)"

definition next_uint64_be :: "deserializer \<Rightarrow> (u64 \<times> deserializer) option" where
  "next_uint64_be d = map_option (apfst be_word) (next_bytes d 8)"

definition next_uint64_le :: "deserializer \<Rightarrow> (u64 \<times> deserializer) option" where
  "next_uint64_le d = map_option (apfst le_word) (next_bytes d 8)"

text \<open>\<open>pointer(p, n)\<close> hands out the address of the next \<open>n\<close> bytes; the model hands out the bytes.\<close>

definition next_pointer :: "deserializer \<Rightarrow> nat \<Rightarrow> (bytes \<times> deserializer) option" where
  "next_pointer d n = next_bytes d n"

definition next_buffer :: "deserializer \<Rightarrow> bytes \<Rightarrow> (bytes \<times> deserializer) option" where
  "next_buffer d buffer = next_pointer d (length buffer mod 2 ^ 32)"

definition d_reset :: "deserializer \<Rightarrow> nat \<Rightarrow> deserializer" where
  "d_reset d position = d\<lparr>d_position := position\<rparr>"

definition d_remaining :: "deserializer \<Rightarrow> nat" where
  "d_remaining d = (if d_position d \<le> d_limit d then d_limit d - d_position d else 0)"

text \<open>The bytes that are left to read.\<close>

definition d_ok :: "deserializer \<Rightarrow> bool" where
  "d_ok d \<longleftrightarrow> d_position d \<le> d_limit d \<and> d_limit d \<le> length (d_buffer d) \<and> d_limit d < 2 ^ 32"

definition unread :: "deserializer \<Rightarrow> bytes" where
  "unread d = drop (d_position d) (take (d_limit d) (d_buffer d))"

subsection \<open>The two classes against their byte streams\<close>

named_theorems codec \<open>what appending and fetching do to the byte streams\<close>

lemma new_serializer_ok [codec, simp]:
  "sz \<le> length buffer \<Longrightarrow> sz < 2 ^ 32 \<Longrightarrow> s_ok (new_serializer buffer sz)"
  "written (new_serializer buffer sz) = []"
  "room (new_serializer buffer sz) = sz"
  by (simp_all add: new_serializer_def s_ok_def written_def room_def)

lemma new_deserializer_ok [codec, simp]:
  "sz \<le> length buffer \<Longrightarrow> sz < 2 ^ 32 \<Longrightarrow> d_ok (new_deserializer buffer sz)"
  "unread (new_deserializer buffer sz) = take sz buffer"
  by (simp_all add: new_deserializer_def d_ok_def unread_def)

lemma size_add_small: "a < 2 ^ 32 \<Longrightarrow> b < 2 ^ 32 \<Longrightarrow> size_add a b = a + b"
  by (simp add: size_add_def)

lemma append_bytes_room:
  assumes "s_ok s" and "length bs \<le> room s"
  obtains s' where "append_bytes s bs = Some s'" "s_ok s'" "written s' = written s @ bs"
    "room s' = room s - length bs" "s_length s' = s_position s + length bs"
proof
  let ?s = "s\<lparr>s_buffer := put_bytes (s_position s) bs (s_buffer s),
              s_position := s_position s + length bs\<rparr>"
  have le: "s_position s + length bs \<le> s_limit s"
    using assms by (auto simp: s_ok_def room_def)
  then have "size_add (s_position s) (length bs) = s_position s + length bs"
    using assms(1) by (simp add: s_ok_def size_add_def)
  with le show "append_bytes s bs = Some ?s" by (simp add: append_bytes_def)
  show "s_ok ?s" using le assms(1) by (simp add: s_ok_def)
  show "written ?s = written s @ bs"
    using le assms(1) by (simp add: written_def s_ok_def take_put_bytes)
  show "room ?s = room s - length bs" by (simp add: room_def)
  show "s_length ?s = s_position s + length bs"
    using le assms(1) by (simp add: s_length_def s_ok_def)
qed

lemma append_bytes_full:
  "s_ok s \<Longrightarrow> room s < length bs \<Longrightarrow> length bs < 2 ^ 32 \<Longrightarrow> append_bytes s bs = None"
  by (simp add: append_bytes_def s_ok_def room_def size_add_def)

lemma length_unread: "d_ok d \<Longrightarrow> length (unread d) = d_limit d - d_position d"
  by (simp add: unread_def d_ok_def)

lemma next_bytes_unread:
  assumes "d_ok d" and "unread d = bs @ rest" and "length bs = n"
  obtains d' where "next_bytes d n = Some (bs, d')" "d_ok d'" "unread d' = rest"
proof
  let ?d = "d\<lparr>d_position := d_position d + n\<rparr>"
  from assms have len: "d_limit d - d_position d = n + length rest"
    by (metis length_append length_unread)
  with assms(1) have le: "d_position d + n \<le> d_limit d" by (auto simp: d_ok_def)
  have add: "size_add (d_position d) n = d_position d + n"
    using le assms(1) by (simp add: d_ok_def size_add_def)
  have "map (\<lambda>i. d_buffer d ! (d_position d + i)) [0..<n] = take n (unread d)"
    using le assms(1) by (intro nth_equalityI) (auto simp: unread_def d_ok_def)
  with assms have "map (\<lambda>i. d_buffer d ! (d_position d + i)) [0..<n] = bs" by simp
  with le add show "next_bytes d n = Some (bs, ?d)" by (simp add: next_bytes_def)
  show "d_ok ?d" using le assms(1) by (simp add: d_ok_def)
  have "unread ?d = drop n (unread d)"
    by (simp add: unread_def add.commute)
  with assms show "unread ?d = rest" by simp
qed

lemma next_bytes_short:
  "d_ok d \<Longrightarrow> length (unread d) < n \<Longrightarrow> n < 2 ^ 32 \<Longrightarrow> next_bytes d n = None"
  by (auto simp: next_bytes_def length_unread size_add_def d_ok_def)

text \<open>
  A fetch that succeeds reads inside the buffer, as long as the position has not been moved
  past the limit by \<open>reset\<close>.
\<close>

lemma next_bytes_in_bounds:
  assumes "d_ok d" and "next_bytes d n = Some (bs, d')" and "n < 2 ^ 32"
  shows "d_position d + n \<le> length (d_buffer d) \<and> d_ok d' \<and> unread d = bs @ unread d'"
proof -
  from assms have le: "d_position d + n \<le> d_limit d"
    by (auto simp: next_bytes_def d_ok_def size_add_def split: if_splits)
  have "unread d = take n (unread d) @ drop n (unread d)" by simp
  moreover have "length (take n (unread d)) = n"
    using le assms(1) by (simp add: length_unread)
  ultimately obtain d'' where "next_bytes d n = Some (take n (unread d), d'')" "d_ok d''"
      "unread d'' = drop n (unread d)"
    using next_bytes_unread [OF assms(1)] by metis
  with assms(2) le assms(1) show ?thesis by (auto simp: d_ok_def)
qed

subsection \<open>The contract between the two classes\<close>

text \<open>
  One kind of field: the serializer's operation \<open>put\<close>, the deserializer's operation \<open>get\<close>,
  the bytes \<open>enc v\<close> that stand for a value and their number.
\<close>

locale wire_field =
  fixes put :: "serializer \<Rightarrow> 'a \<Rightarrow> serializer option"
    and get :: "deserializer \<Rightarrow> ('a \<times> deserializer) option"
    and enc :: "'a \<Rightarrow> bytes"
    and width :: nat
  assumes enc_length: "length (enc v) = width"
    and put_room: "s_ok s \<Longrightarrow> width \<le> room s \<Longrightarrow>
      \<exists>s'. put s v = Some s' \<and> s_ok s' \<and> written s' = written s @ enc v \<and>
           room s' = room s - width"
    and put_full: "s_ok s \<Longrightarrow> room s < width \<Longrightarrow> put s v = None"
    and get_enc: "d_ok d \<Longrightarrow> unread d = enc v @ rest \<Longrightarrow>
      \<exists>d'. get d = Some (v, d') \<and> d_ok d' \<and> unread d' = rest"
    and get_sound: "d_ok d \<Longrightarrow> get d = Some (v, d') \<Longrightarrow> d_ok d' \<and> unread d = enc v @ unread d'"
begin

lemma get_short: "d_ok d \<Longrightarrow> length (unread d) < width \<Longrightarrow> get d = None"
  using get_sound [of d] by (cases "get d") (fastforce simp: enc_length)+

lemma put_iff_room: "s_ok s \<Longrightarrow> put s v \<noteq> None \<longleftrightarrow> width \<le> room s"
  using put_room [of s v] put_full [of s v] by (cases "width \<le> room s") auto

text \<open>One step of a chain of reads: forwards, and backwards from its success.\<close>

lemma bind_get:
  assumes "d_ok d" and "unread d = enc v @ rest" and "\<And>d'. d_ok d' \<Longrightarrow> unread d' = rest \<Longrightarrow> f (v, d') = r"
  shows "Option.bind (get d) f = r"
  using get_enc [OF assms(1,2)] assms(3) by auto

lemma bind_getE:
  assumes "Option.bind (get d) f = Some r" and "d_ok d"
  obtains v d' where "f (v, d') = Some r" "d_ok d'" "length (unread d) = width + length (unread d')"
proof -
  obtain v d' where g: "get d = Some (v, d')" "f (v, d') = Some r" using assms(1) by (cases "get d") auto
  with get_sound [OF assms(2) g(1)] show thesis by (intro that [of v d']) (simp_all add: enc_length)
qed

text \<open>What was put into a buffer is what is got from it.\<close>

lemma put_get:
  assumes "put (new_serializer buffer sz) v = Some s'" and "sz \<le> length buffer" and "sz < 2 ^ 32"
  shows "\<exists>d'. get (new_deserializer (take (s_position s') (s_buffer s')) width) = Some (v, d') \<and>
              unread d' = []"
proof -
  have ok: "s_ok (new_serializer buffer sz)" using assms(2,3) by simp
  then have fits: "width \<le> sz" using assms put_iff_room [OF ok, of v] by simp
  then obtain t where "put (new_serializer buffer sz) v = Some t" "written t = enc v"
    using put_room [OF ok, of v] by auto
  with assms(1) have "take (s_position s') (s_buffer s') = enc v" by (simp add: written_def)
  moreover have "d_ok (new_deserializer (enc v) width)"
    using fits assms(3) by (simp add: enc_length)
  ultimately show ?thesis
    using get_enc [of "new_deserializer (enc v) width" v "[]"] by (auto simp: enc_length)
qed

end

text \<open>A list of fields, one after the other, stopping at the first that does not fit.\<close>

fun put_all :: "(serializer \<Rightarrow> 'a \<Rightarrow> serializer option) \<Rightarrow> serializer \<Rightarrow> 'a list \<Rightarrow> serializer option" where
  "put_all put s [] = Some s"
| "put_all put s (v # vs) = Option.bind (put s v) (\<lambda>s'. put_all put s' vs)"

fun get_all :: "(deserializer \<Rightarrow> ('a \<times> deserializer) option) \<Rightarrow> nat \<Rightarrow> deserializer \<Rightarrow> ('a list \<times> deserializer) option" where
  "get_all get 0 d = Some ([], d)"
| "get_all get (Suc n) d =
     Option.bind (get d) (\<lambda>(v, d'). map_option (apfst ((#) v)) (get_all get n d'))"

context wire_field
begin

lemma put_all_room:
  "s_ok s \<Longrightarrow> width * length vs \<le> room s \<Longrightarrow>
   \<exists>s'. put_all put s vs = Some s' \<and> s_ok s' \<and> written s' = written s @ concat (map enc vs) \<and>
        room s' = room s - width * length vs"
proof (induction vs arbitrary: s)
  case Nil
  then show ?case by simp
next
  case (Cons v vs)
  then obtain t where t: "put s v = Some t" "s_ok t" "written t = written s @ enc v"
      "room t = room s - width"
    using put_room [of s v] by auto
  with Cons show ?case by fastforce
qed

lemma put_all_full:
  "s_ok s \<Longrightarrow> room s < width * length vs \<Longrightarrow> put_all put s vs = None"
proof (induction vs arbitrary: s)
  case Nil
  then show ?case by simp
next
  case (Cons v vs)
  show ?case
  proof (cases "width \<le> room s")
    case True
    then obtain t where t: "put s v = Some t" "s_ok t" "room t = room s - width"
      using put_room [OF Cons.prems(1)] by blast
    with True Cons show ?thesis by simp
  next
    case False
    with Cons.prems show ?thesis by (simp add: put_full)
  qed
qed

lemma length_concat_enc: "length (concat (map enc vs)) = width * length vs"
  by (induction vs) (simp_all add: enc_length)

lemma get_all_enc:
  "d_ok d \<Longrightarrow> unread d = concat (map enc vs) @ rest \<Longrightarrow>
   \<exists>d'. get_all get (length vs) d = Some (vs, d') \<and> d_ok d' \<and> unread d' = rest"
proof (induction vs arbitrary: d)
  case Nil
  then show ?case by simp
next
  case (Cons v vs)
  then obtain t where t: "get d = Some (v, t)" "d_ok t" "unread t = concat (map enc vs) @ rest"
    using get_enc [of d v] by auto
  with Cons.IH [OF t(2,3)] show ?case by auto
qed

end

text \<open>Two fields in a row are a field again.\<close>

definition put_pair where
  "put_pair put1 put2 s v = Option.bind (put1 s (fst v)) (\<lambda>s'. put2 s' (snd v))"

definition get_pair where
  "get_pair get1 get2 d =
     Option.bind (get1 d) (\<lambda>(a, d1). map_option (apfst (Pair a)) (get2 d1))"

locale wire_pair =
  a: wire_field put1 get1 enc1 width1 + b: wire_field put2 get2 enc2 width2
  for put1 :: "serializer \<Rightarrow> 'a \<Rightarrow> serializer option" and get1 enc1 width1
    and put2 :: "serializer \<Rightarrow> 'b \<Rightarrow> serializer option" and get2 enc2 width2

sublocale wire_pair \<subseteq> pair: wire_field "put_pair put1 put2" "get_pair get1 get2"
    "\<lambda>v. enc1 (fst v) @ enc2 (snd v)" "width1 + width2"
proof (unfold_locales, goal_cases)
  case (1 v)
  show ?case by (simp add: a.enc_length b.enc_length)
next
  case (2 s v)
  then obtain t where "put1 s (fst v) = Some t" "s_ok t" "written t = written s @ enc1 (fst v)"
      "room t = room s - width1"
    using a.put_room [of s "fst v"] by auto
  with 2 b.put_room [of t "snd v"] show ?case by (fastforce simp: put_pair_def)
next
  case (3 s v)
  show ?case
  proof (cases "width1 \<le> room s")
    case True
    then obtain t where "put1 s (fst v) = Some t" "s_ok t" "room t = room s - width1"
      using a.put_room [OF 3(1)] by blast
    with True 3 show ?thesis by (simp add: put_pair_def b.put_full)
  next
    case False
    with 3 show ?thesis by (simp add: put_pair_def a.put_full)
  qed
next
  case (4 d v rest)
  then obtain t where "get1 d = Some (fst v, t)" "d_ok t" "unread t = enc2 (snd v) @ rest"
    using a.get_enc [of d "fst v" "enc2 (snd v) @ rest"] by auto
  with b.get_enc [of t "snd v" rest] show ?case by (auto simp: get_pair_def)
next
  case (5 d v d')
  then obtain t where "get1 d = Some (fst v, t)" "get2 t = Some (snd v, d')"
    by (cases v) (auto simp: get_pair_def split: Option.bind_splits)
  with 5(1) a.get_sound [of d "fst v" t] b.get_sound [of t "snd v" d'] show ?case by simp
qed

subsection \<open>The fields both classes offer\<close>

lemma enc_be:
  "be_bytes 1 v = [byte_at 0 v]"
  "be_bytes 2 v = [byte_at 8 v, byte_at 0 v]"
  "be_bytes 4 v = [byte_at 24 v, byte_at 16 v, byte_at 8 v, byte_at 0 v]"
  "be_bytes 8 v =
     [byte_at 56 v, byte_at 48 v, byte_at 40 v, byte_at 32 v,
      byte_at 24 v, byte_at 16 v, byte_at 8 v, byte_at 0 v]"
  by (simp_all add: eval_nat_numeral)

lemma enc_le:
  "le_bytes 2 v = [byte_at 0 v, byte_at 8 v]"
  "le_bytes 4 v = [byte_at 0 v, byte_at 8 v, byte_at 16 v, byte_at 24 v]"
  by (simp_all add: le_bytes_def eval_nat_numeral)

text \<open>Every field of \<open>n\<close> bytes is an instance of these two facts.\<close>

lemma wire_field_be:
  assumes n: "LENGTH('a::len) = 8 * n" "n < 2 ^ 32"
    and put: "\<And>s v. put s v = append_bytes s (be_bytes n (v :: 'a word))"
    and get: "\<And>d. get d = map_option (apfst be_word) (next_bytes d n)"
  shows "wire_field put get (be_bytes n) n"
proof (unfold_locales, goal_cases)
  case (1 v)
  show ?case by simp
next
  case (2 s v)
  then show ?case using append_bytes_room [of s "be_bytes n v"] by (fastforce simp: put)
next
  case (3 s v)
  with n show ?case by (simp add: put append_bytes_full)
next
  case (4 d v rest)
  with n next_bytes_unread [of d "be_bytes n v" rest n] show ?case
    by (fastforce simp: get be_word_be_bytes)
next
  case (5 d v d')
  then obtain bs where bs: "next_bytes d n = Some (bs, d')" "v = be_word bs"
    by (auto simp: get)
  then have "length bs = n" by (auto simp: next_bytes_def split: if_splits)
  with bs n next_bytes_in_bounds [OF 5(1) bs(1)] show ?case
    by (simp add: be_bytes_be_word)
qed

lemma wire_field_le:
  assumes n: "LENGTH('a::len) = 8 * n" "n < 2 ^ 32"
    and put: "\<And>s v. put s v = append_bytes s (le_bytes n (v :: 'a word))"
    and get: "\<And>d. get d = map_option (apfst le_word) (next_bytes d n)"
  shows "wire_field put get (le_bytes n) n"
proof (unfold_locales, goal_cases)
  case (1 v)
  show ?case by simp
next
  case (2 s v)
  then show ?case using append_bytes_room [of s "le_bytes n v"] by (fastforce simp: put)
next
  case (3 s v)
  with n show ?case by (simp add: put append_bytes_full)
next
  case (4 d v rest)
  with n next_bytes_unread [of d "le_bytes n v" rest n] show ?case
    by (fastforce simp: get le_word_le_bytes)
next
  case (5 d v d')
  then obtain bs where bs: "next_bytes d n = Some (bs, d')" "v = le_word bs"
    by (auto simp: get)
  then have "length bs = n" by (auto simp: next_bytes_def split: if_splits)
  with bs n next_bytes_in_bounds [OF 5(1) bs(1)] show ?case
    by (simp add: le_bytes_le_word)
qed

interpretation w8: wire_field append_uint8 next_uint8 "be_bytes 1" 1
  by (rule wire_field_be) (simp_all only: append_uint8_def next_uint8_def enc_be, simp_all)

interpretation w16be: wire_field append_uint16_be next_uint16_be "be_bytes 2" 2
  by (rule wire_field_be) (simp_all only: append_uint16_be_def next_uint16_be_def enc_be, simp_all)

interpretation w32be: wire_field append_uint32_be next_uint32_be "be_bytes 4" 4
  by (rule wire_field_be) (simp_all only: append_uint32_be_def next_uint32_be_def enc_be, simp_all)

interpretation w64be: wire_field append_uint64_be next_uint64_be "be_bytes 8" 8
  by (rule wire_field_be) (simp_all only: append_uint64_be_def next_uint64_be_def enc_be, simp_all)

interpretation w16le: wire_field append_uint16_le next_uint16_le "le_bytes 2" 2
  by (rule wire_field_le) (simp_all only: append_uint16_le_def next_uint16_le_def enc_le, simp_all)

interpretation w32le: wire_field append_uint32_le next_uint32_le "le_bytes 4" 4
  by (rule wire_field_le) (simp_all only: append_uint32_le_def next_uint32_le_def enc_le, simp_all)

text \<open>An address and a value, as both ends of the control plane exchange them.\<close>

interpretation addr_value: wire_pair append_uint32_be next_uint32_be "be_bytes 4" 4
    append_uint32_be next_uint32_be "be_bytes 4" 4
  by unfold_locales

end
