(* ===== verification/Emulator.thy ===== *)
theory Emulator
  imports Register_Memory Wire_Codec
begin

text \<open>
  The emulated board, \<open>HSBEmulator\<close> of src/src/hololink/emulation/src/linux/hsb_emulator.cpp:
  the control thread with its sequence check and its poll detection, the register writes that
  trigger something, the queue of APB events and the I2C controller. Each operation is one
  step of the thread that runs it; an exception that no handler catches ends its thread, and
  with it the process (\<open>std::terminate\<close>). Socket creation, thread start and logging are left
  out. The I2C peripherals are supplied by the user of the emulator: they are the field
  \<open>i2c_peripheral\<close> with a state of type \<open>'p\<close>.
\<close>

record 'p emulator =
  e_regs :: registers
  e_next_sequence :: u16
  e_last_read_address :: u32
  e_poll_count :: u16
  e_running :: bool                       \<comment> \<open>the control thread is alive\<close>
  apb_running :: bool
  apb_queue :: "(hsb_event \<times> u32) list"
  i2c_running :: bool
  i2c_cmd :: u16
  i2c_address :: u16
  i2c_attached :: "(u32 \<times> u16) list"
  i2c_env :: 'p
  i2c_peripheral :: "'p \<Rightarrow> u32 \<times> u16 \<Rightarrow> bytes \<Rightarrow> bytes \<Rightarrow> (bool \<times> bytes) \<times> 'p"

definition HSB_EMULATOR_DATE :: u32 where "HSB_EMULATOR_DATE = 20260219"
definition POLL_COUNT_TRIGGER :: u16 where "POLL_COUNT_TRIGGER = 30"
definition POLL_COUNT_EXIT :: u16 where "POLL_COUNT_EXIT = 300"
definition MIN_VALID_CONTROL_LENGTH :: nat where "MIN_VALID_CONTROL_LENGTH = 10"
definition EMU_PACKET_SIZE :: nat where "EMU_PACKET_SIZE = 1472"

text \<open>The emulator as \<open>start()\<close> leaves it, with the built-in peripheral attached.\<close>

definition new_emulator :: "u32 \<Rightarrow> 'p \<Rightarrow> ('p \<Rightarrow> u32 \<times> u16 \<Rightarrow> bytes \<Rightarrow> bytes \<Rightarrow> (bool \<times> bytes) \<times> 'p) \<Rightarrow> 'p emulator" where
  "new_emulator version env peripheral =
     \<lparr>e_regs = rm_new HSB_IP_VERSION version FPGA_DATE HSB_EMULATOR_DATE,
      e_next_sequence = 0x100, e_last_read_address = 0, e_poll_count = 0, e_running = True,
      apb_running = True, apb_queue = [], i2c_running = True, i2c_cmd = 0, i2c_address = 0,
      i2c_attached = [(0, 9)], i2c_env = env, i2c_peripheral = peripheral\<rparr>"

subsection \<open>The APB event queue\<close>

definition event_start_address :: "hsb_event \<Rightarrow> u32 option" where
  "event_start_address event =
     (case event of
        SW_EVENT \<Rightarrow> Some (APB_RAM + 0x800)
      | I2C_BUSY_EVENT \<Rightarrow> Some 0
      | SIF_0_FRAME_END \<Rightarrow> Some (APB_RAM + 0x100)
      | SIF_1_FRAME_END \<Rightarrow> Some (APB_RAM + 0x200)
      | _ \<Rightarrow> None)"

definition queue_event :: "hsb_event \<Rightarrow> ('p emulator, unit) hm" where
  "queue_event event e =
     (case event_start_address event of
        None \<Rightarrow> (Inl (Runtime_error ''APBEventHandler: invalid event''), e)
      | Some start_address \<Rightarrow>
          if \<not> apb_running e then
            (Inl (Runtime_error ''APBEventHandler is not running. cannot queue event''), e)
          else (Inr (), e\<lparr>apb_queue := apb_queue e @ [(event, start_address)]\<rparr>))"

subsection \<open>The I2C controller\<close>

definition set_reg :: "u32 \<Rightarrow> u32 \<Rightarrow> 'p emulator \<Rightarrow> 'p emulator" where
  "set_reg a v e = e\<lparr>e_regs := rm_write (e_regs e) (a, v)\<rparr>"

definition get_reg :: "'p emulator \<Rightarrow> u32 \<Rightarrow> u32" where
  "get_reg e a = rm_read (e_regs e) a"

text \<open>
  \<open>I2CController::execute\<close>: called for every write to the control register. The command is the
  low half, the peripheral address the high half; a zero command makes the controller idle,
  any other is left for the I2C thread.
\<close>

definition i2c_control :: "u32 \<Rightarrow> ('p emulator, unit) hm" where
  "i2c_control value e =
     (if \<not> i2c_running e then (Inl (Runtime_error ''I2CController: not running''), e)
      else if get_reg e (I2C_CTRL + I2C_REG_STATUS) = I2C_BUSY then
        (Inl (Runtime_error ''I2CController: busy''), e)
      else
        (let e1 = e\<lparr>i2c_cmd := ucast (value AND 0xFFFF), i2c_address := ucast (drop_bit 16 value)\<rparr> in
         (Inr (), if i2c_cmd e1 = 0 then set_reg (I2C_CTRL + I2C_REG_STATUS) I2C_IDLE e1 else e1)))"

definition words_of :: "nat \<Rightarrow> nat" where
  "words_of num_bytes = (num_bytes + 3) div 4"

text \<open>
  \<open>I2CController::i2c_execute\<close>, run by the I2C thread: hand the buffer to the peripheral that
  is attached at the bus and address (none: succeed with zeros), store what it read, report.
  A peripheral writes into the \<open>read_size\<close> bytes it is given, so its result has that length.
\<close>

definition i2c_execute :: "'p emulator \<Rightarrow> 'p emulator" where
  "i2c_execute e =
     (let status = I2C_CTRL + I2C_REG_STATUS;
          e1 = set_reg status I2C_BUSY e;
          num_bytes = get_reg e1 (I2C_CTRL + I2C_REG_NUM_BYTES);
          num_write = unat (num_bytes AND 0xFFFF);
          num_read = unat (drop_bit 16 num_bytes AND 0xFFFF);
          bus = get_reg e1 (I2C_CTRL + I2C_REG_BUS_EN);
          buffer = I2C_CTRL + I2C_REG_DATA_BUFFER;
          write_words = map (\<lambda>i. get_reg e1 (buffer + of_nat i * 4)) [0..<words_of num_write];
          write_bytes = take num_write (bytes_of_words write_words);
          read_bytes = replicate num_read 0;
          key = (bus, i2c_address e1);
          ((ok, read_back), env) =
            (if key \<in> set (i2c_attached e1)
             then i2c_peripheral e1 (i2c_env e1) key write_bytes read_bytes
             else ((True, read_bytes), i2c_env e1));
          e2 = e1\<lparr>i2c_env := env\<rparr>
      in if \<not> ok then set_reg status I2C_I2C_ERR e2
         else
           (let e3 = (if num_read = 0 then e2
                      else e2\<lparr>e_regs := snd (rm_write_range (e_regs e2) buffer
                             (Some (words_of_bytes read_back)) (int (words_of num_read)) 1)\<rparr>);
                e4 = set_reg status I2C_DONE e3
            in e4\<lparr>i2c_cmd := 0, i2c_address := 0\<rparr>))"

text \<open>The wait of the I2C thread ends, and a transaction is executed, when a command is there.\<close>

definition i2c_enabled :: "'p emulator \<Rightarrow> bool" where
  "i2c_enabled e \<longleftrightarrow> i2c_running e \<and> i2c_cmd e \<noteq> 0"

definition attach_i2c :: "u32 \<Rightarrow> u16 \<Rightarrow> ('p emulator, unit) hm" where
  "attach_i2c bus address e =
     (if i2c_running e then
        (Inl (Runtime_error ''I2CController: cannot attach peripherals while running''), e)
      else if (bus, address) \<in> set (i2c_attached e) then
        (Inl (Runtime_error ''I2CController: peripheral address is already in use''), e)
      else (Inr (), e\<lparr>i2c_attached := (bus, address) # i2c_attached e\<rparr>))"

subsection \<open>Register reads and writes\<close>

definition emu_read :: "u32 \<Rightarrow> ('p emulator, u32) hm" where
  "emu_read address = hgets (\<lambda>e. get_reg e address)"

text \<open>
  \<open>HSBEmulator::write\<close>: store, then the side effect of the address. The writes it makes in
  turn go to status registers, which have none.
\<close>

function emu_write :: "u32 \<Rightarrow> u32 \<Rightarrow> ('p emulator, unit) hm" where
  "emu_write address value =
     hthen (hmodify (set_reg address value))
       (if address = CTRL_EVT_SW_EVENT then hwhen (value = 1) (queue_event SW_EVENT)
        else if address = SPI_CTRL then
          (if value = SPI_START then emu_write (SPI_CTRL + SPI_REG_STATUS) SPI_DONE
           else if value = 0 then emu_write (SPI_CTRL + SPI_REG_STATUS) SPI_IDLE
           else hret ())
        else if address = I2C_CTRL then i2c_control value
        else if address = FPGA_PTP_CTRL then
          (if value = 0 then emu_write FPGA_PTP_SYNC_STAT 0
           else if value = 0x3 then emu_write FPGA_PTP_SYNC_STAT 0xF
           else hret ())
        else hret ())"
  by pat_completeness auto
termination
  by (relation "measure (\<lambda>(a, _). if a = SPI_CTRL \<or> a = FPGA_PTP_CTRL then 1 else 0)") simp_all

declare emu_write.simps [simp del]

subsection \<open>Control messages\<close>

record control_message =
  m_cmd :: u8
  m_flags :: u8
  m_sequence :: u16
  m_status :: u8
  m_reserved :: u8
  m_pairs :: "(u32 \<times> u32) list"    \<comment> \<open>\<open>addresses\<close> and \<open>values\<close>, up to \<open>num_addresses\<close>\<close>

text \<open>The loop reads at most \<open>n\<close> addresses; a missing last value is zero.\<close>

fun deserialize_pairs :: "nat \<Rightarrow> deserializer \<Rightarrow> (u32 \<times> u32) list" where
  "deserialize_pairs 0 d = []"
| "deserialize_pairs (Suc n) d =
     (case next_uint32_be d of
        None \<Rightarrow> []
      | Some (address, d1) \<Rightarrow>
          (case next_uint32_be d1 of
             None \<Rightarrow> (address, 0) # deserialize_pairs n d1
           | Some (value, d2) \<Rightarrow> (address, value) # deserialize_pairs n d2))"

definition deserialize_control_message :: "deserializer \<Rightarrow> control_message option" where
  "deserialize_control_message d =
     Option.bind (next_uint8 d) (\<lambda>(cmd, d).
     Option.bind (next_uint8 d) (\<lambda>(flags, d).
     Option.bind (next_uint16_be d) (\<lambda>(seq, d).
     Option.bind (next_uint8 d) (\<lambda>(status, d).
     map_option (\<lambda>(reserved, d).
        \<lparr>m_cmd = cmd, m_flags = flags, m_sequence = seq, m_status = status,
         m_reserved = reserved, m_pairs = deserialize_pairs (EMU_PACKET_SIZE div 4) d\<rparr>)
       (next_uint8 d)))))"

text \<open>
  The result of \<open>serialize_reply_message\<close> is the bytes to send, \<open>[]\<close> for the failure value 0.
  What \<open>append_uint32_be\<close> returns for the latched sequence is ignored.
\<close>

definition serialize_reply_message :: "control_message \<Rightarrow> bytes" where
  "serialize_reply_message m =
     (case Option.bind (append_uint8 (new_serializer (replicate EMU_PACKET_SIZE 0) EMU_PACKET_SIZE) (m_cmd m)) (\<lambda>s.
           Option.bind (append_uint8 s (m_flags m)) (\<lambda>s.
           Option.bind (append_uint16_be s (m_sequence m)) (\<lambda>s.
           Option.bind (append_uint8 s (m_status m)) (\<lambda>s.
           Option.bind (append_uint8 s (m_reserved m)) (\<lambda>s.
           put_all (put_pair append_uint32_be append_uint32_be) s (m_pairs m)))))) of
        None \<Rightarrow> []
      | Some s \<Rightarrow>
          (let s' = (case append_uint32_be s 0 of None \<Rightarrow> s | Some t \<Rightarrow> t) in
           take (s_length s') (s_buffer s')))"

text \<open>The datagram sent, if any: \<open>sendto\<close> is called even when the reply did not serialize.\<close>

definition handle_reply_message :: "control_message \<Rightarrow> bytes option" where
  "handle_reply_message m =
     (if m_flags m AND 1 \<noteq> 0 then Some (serialize_reply_message m) else None)"

subsection \<open>Poll detection\<close>

definition detect_poll :: "u32 \<Rightarrow> ('p emulator, bool) hm" where
  "detect_poll address e =
     (if address \<noteq> e_last_read_address e then
        (Inr False, e\<lparr>e_poll_count := 0, e_last_read_address := address\<rparr>)
      else
        (let n = e_poll_count e + 1 in
         (Inr (POLL_COUNT_TRIGGER \<le> n), e\<lparr>e_poll_count := n\<rparr>)))"

definition handle_poll :: "('p emulator, unit) hm" where
  "handle_poll =
     hbind (hgets (\<lambda>e. (e_poll_count e, e_last_read_address e))) (\<lambda>(n, address).
       hthen (hthrow_if (POLL_COUNT_EXIT \<le> n) (Runtime_error ''exceeded maximum polling''))
         (if address = SPI_CTRL then emu_write (SPI_CTRL + SPI_REG_STATUS) SPI_DONE
          else if address = FPGA_PTP_SYNC_STAT then emu_write FPGA_PTP_SYNC_STAT 0xF
          else hret ()))"

subsection \<open>Handling a message\<close>

fun handle_reads :: "(u32 \<times> u32) list \<Rightarrow> ('p emulator, (u32 \<times> u32) list) hm" where
  "handle_reads [] = hret []"
| "handle_reads ((address, _) # rest) =
     hbind (detect_poll address) (\<lambda>polled.
       hthen (hwhen polled handle_poll)
         (hbind (emu_read address) (\<lambda>value.
           hbind (handle_reads rest) (\<lambda>more. hret ((address, value) # more)))))"

fun handle_writes :: "(u32 \<times> u32) list \<Rightarrow> ('p emulator, unit) hm" where
  "handle_writes [] = hret ()"
| "handle_writes ((address, value) # rest) = hthen (emu_write address value) (handle_writes rest)"

definition done_message :: "control_message \<Rightarrow> control_message" where
  "done_message m = m\<lparr>m_cmd := 0x80 OR m_cmd m, m_status := 0\<rparr>"

definition handle_read_message :: "control_message \<Rightarrow> ('p emulator, control_message) hm" where
  "handle_read_message m =
     hbind (handle_reads (m_pairs m)) (\<lambda>pairs. hret (done_message (m\<lparr>m_pairs := pairs\<rparr>)))"

definition handle_write_message :: "control_message \<Rightarrow> ('p emulator, control_message) hm" where
  "handle_write_message m =
     hthen (handle_writes (m_pairs m))
       (hthen (hmodify (\<lambda>e. e\<lparr>e_last_read_address := fst (last (m_pairs m))\<rparr>))
         (hret (done_message m)))"

definition ECB_COMMAND_ERROR :: u8 where "ECB_COMMAND_ERROR = 4"
definition ECB_SEQUENCE_ERROR :: u8 where "ECB_SEQUENCE_ERROR = 0x0B"

definition read_commands :: "u8 list" where "read_commands = [0x11, 0x12, 0x14, 0x19]"
definition write_commands :: "u8 list" where "write_commands = [0x01, 0x02, 0x04, 0x09]"

definition dispatch_message :: "control_message \<Rightarrow> ('p emulator, control_message) hm" where
  "dispatch_message m =
     (if m_cmd m \<in> set read_commands then handle_read_message m
      else if m_cmd m \<in> set write_commands then handle_write_message m
      else hret (m\<lparr>m_status := ECB_COMMAND_ERROR\<rparr>))"

text \<open>One iteration of \<open>control_listen\<close> on a datagram; the result is what is sent back.\<close>

definition control_message_step :: "bytes \<Rightarrow> ('p emulator, bytes option) hm" where
  "control_message_step datagram e =
     (let buffer = take EMU_PACKET_SIZE datagram in
      if length buffer < MIN_VALID_CONTROL_LENGTH then (Inr None, e)
      else
        (case deserialize_control_message (new_deserializer buffer (length buffer)) of
           None \<Rightarrow> (Inr None, e)
         | Some m \<Rightarrow>
             if m_sequence m \<noteq> e_next_sequence e \<and> m_flags m AND 2 \<noteq> 0 then
               (Inr (handle_reply_message (m\<lparr>m_status := ECB_SEQUENCE_ERROR\<rparr>)), e)
             else
               hbind (dispatch_message m) (\<lambda>m'. hret (handle_reply_message m'))
                 (e\<lparr>e_next_sequence := m_sequence m + 1\<rparr>)))"

text \<open>The emulator as a device on the link: after an uncaught exception it is gone.\<close>

definition terminate :: "'p emulator \<Rightarrow> 'p emulator" where
  "terminate e = e\<lparr>e_running := False, apb_running := False, i2c_running := False\<rparr>"

definition control_listen :: "bytes \<Rightarrow> 'p emulator \<Rightarrow> 'p emulator \<times> bytes option" where
  "control_listen datagram e =
     (if \<not> e_running e then (e, None)
      else
        (case control_message_step datagram e of
           (Inl _, e') \<Rightarrow> (terminate e', None)
         | (Inr reply, e') \<Rightarrow> (e', reply)))"

end
