(* ===== verification/Timeout.thy ===== *)
theory Timeout
  imports HSB_Prelude
begin

text \<open>
  The class \<open>Timeout\<close> (src/src/hololink/core/timeout.hpp and timeout.cpp): a total time
  (\<open>expiry\<close>) and, inside it, the deadline of the current attempt, which \<open>retry\<close> moves.
  Time points and durations are whole nanoseconds of the steady clock; the
  constructor's \<open>float\<close> seconds are given as nanoseconds. The clock is not read here: each
  operation is given the value the code reads.
\<close>

record timeout =
  start :: int
  timeout_ns :: int
  expiry :: int
  retry_ns :: int
  deadline :: int

definition DEFAULT_TIMEOUT_NS :: int where
  "DEFAULT_TIMEOUT_NS = 500000000"

definition DEFAULT_RETRY_NS :: int where
  "DEFAULT_RETRY_NS = 100000000"

text \<open>\<open>Timeout(float timeout_s, float retry_s)\<close>\<close>

definition make_timeout :: "int \<Rightarrow> int \<Rightarrow> int \<Rightarrow> timeout" where
  "make_timeout now timeout_dur retry_dur =
     \<lparr>start = now, timeout_ns = timeout_dur, expiry = now + timeout_dur, retry_ns = retry_dur,
      deadline = now + (if retry_dur = 0 then timeout_dur else retry_dur)\<rparr>"

text \<open>\<open>Timeout(const Timeout& source)\<close>: the same durations, started now.\<close>

definition copy_timeout :: "int \<Rightarrow> timeout \<Rightarrow> timeout" where
  "copy_timeout now source =
     \<lparr>start = now, timeout_ns = timeout_ns source, expiry = now + timeout_ns source,
      retry_ns = retry_ns source,
      deadline = now + (if retry_ns source = 0 then timeout_ns source else retry_ns source)\<rparr>"

definition expired :: "int \<Rightarrow> timeout \<Rightarrow> bool" where
  "expired now t \<longleftrightarrow> deadline t < now"

definition trigger_ns :: "int \<Rightarrow> timeout \<Rightarrow> int" where
  "trigger_ns now t = deadline t - now"

text \<open>\<open>bool retry()\<close>, after the test of \<open>retry_\<close> for which no clock is read.\<close>

definition can_retry :: "timeout \<Rightarrow> bool" where
  "can_retry t \<longleftrightarrow> retry_ns t \<noteq> 0"

definition timeout_retry :: "int \<Rightarrow> timeout \<Rightarrow> bool \<times> timeout" where
  "timeout_retry now t =
     (if retry_ns t = 0 then (False, t)
      else if expiry t \<le> now then (False, t)
      else (True, if deadline t \<le> now then t\<lparr>deadline := deadline t + retry_ns t\<rparr> else t))"

subsection \<open>A retry stays within the total time\<close>

definition timeout_wf :: "timeout \<Rightarrow> bool" where
  "timeout_wf t \<longleftrightarrow>
     0 \<le> retry_ns t \<and> expiry t = start t + timeout_ns t \<and>
     (retry_ns t = 0 \<longrightarrow> deadline t = expiry t) \<and>
     (0 < retry_ns t \<longrightarrow> deadline t \<le> max (start t) (expiry t) + retry_ns t)"

lemma make_timeout_wf: "0 \<le> r \<Longrightarrow> timeout_wf (make_timeout now t r)"
  by (simp add: timeout_wf_def make_timeout_def)

lemma copy_timeout_wf: "timeout_wf t \<Longrightarrow> timeout_wf (copy_timeout now t)"
  by (simp add: timeout_wf_def copy_timeout_def)

lemma timeout_retry_wf:
  assumes "timeout_wf t" and "timeout_retry now t = (b, t')"
  shows "timeout_wf t'"
  using assms by (auto simp: timeout_wf_def timeout_retry_def split: if_splits)

lemma timeout_retry_fields:
  assumes "timeout_retry now t = (b, t')"
  shows "start t' = start t" "timeout_ns t' = timeout_ns t" "expiry t' = expiry t"
    "retry_ns t' = retry_ns t"
  using assms by (auto simp: timeout_retry_def split: if_splits)

lemma timeout_retry_True:
  assumes "timeout_retry now t = (True, t')"
  shows "now < expiry t" "retry_ns t \<noteq> 0"
  using assms by (auto simp: timeout_retry_def split: if_splits)

text \<open>
  The deadline moves by exactly one retry interval, and only when it has passed: an attempt
  that failed early does not use up the next one.
\<close>

lemma timeout_retry_deadline:
  assumes "timeout_retry now t = (True, t')"
  shows "deadline t' = deadline t + (if deadline t \<le> now then retry_ns t else 0)"
  using assms by (auto simp: timeout_retry_def split: if_splits)

end
