(* ===== verification/Control_Link.thy ===== *)
theory Control_Link
  imports Timeout Wire_Codec
begin

text \<open>
  The control socket and the clock, as \<open>Hololink::send_control\<close>, \<open>receive_control\<close> and
  \<open>execute\<close> (src/src/hololink/core/hololink.cpp) see them.

  The state \<open>'d link\<close> holds the time, what is on its way to the host, and the device at the
  far end. The device's behaviour is the field \<open>respond\<close>: what it does with a datagram, and
  what then arrives at the socket, each after a delay. Nothing is assumed of it here: it may
  drop, delay, duplicate, reorder or make up datagrams, and the socket calls may fail or be
  interrupted. Reading the clock takes at least one nanosecond, and as much longer as \<open>lags\<close>
  says (the thread may be suspended between any two statements).
\<close>

subsection \<open>The environment\<close>

datatype net_event =
    Datagram bytes
  | Recv_failed        \<comment> \<open>\<open>recvfrom\<close> gives -1\<close>
  | Select_failed      \<comment> \<open>\<open>select\<close> gives -1 with an \<open>errno\<close> other than \<open>EINTR\<close>\<close>
  | Interrupted        \<comment> \<open>\<open>select\<close> gives -1 with \<open>EINTR\<close>\<close>
  | Socket_exception   \<comment> \<open>the socket is in the exception set\<close>

record 'd link =
  clock :: int
  lags :: "nat list"
  inflight :: "(int \<times> net_event) list"
  device :: 'd
  respond :: "'d \<Rightarrow> bytes \<Rightarrow> 'd \<times> (nat \<times> net_event) list"
  peer_valid :: bool      \<comment> \<open>\<open>inet_pton\<close> accepts the peer's address\<close>
  send_faults :: "bool list"   \<comment> \<open>which of the next \<open>sendto\<close> calls fail\<close>

definition first_or :: "'a \<Rightarrow> 'a list \<Rightarrow> 'a" where
  "first_or a xs = (case xs of [] \<Rightarrow> a | x # _ \<Rightarrow> x)"

text \<open>\<open>Clock::now()\<close>\<close>

definition clock_tick :: "'d link \<Rightarrow> 'd link" where
  "clock_tick l = l\<lparr>clock := clock l + 1 + int (first_or 0 (lags l)), lags := tl (lags l)\<rparr>"

definition read_clock :: "('d link, int) hm" where
  "read_clock l = (Inr (clock (clock_tick l)), clock_tick l)"

text \<open>Arrivals are kept in the order of their times; equal times keep the order of sending.\<close>

fun add_arrival :: "int \<times> net_event \<Rightarrow> (int \<times> net_event) list \<Rightarrow> (int \<times> net_event) list" where
  "add_arrival a [] = [a]"
| "add_arrival a (b # bs) = (if fst a < fst b then a # b # bs else b # add_arrival a bs)"

definition deliver :: "bytes \<Rightarrow> 'd link \<Rightarrow> 'd link" where
  "deliver request l =
     (let (d', evs) = respond l (device l) request in
      l\<lparr>device := d',
        inflight := fold (\<lambda>(delay, ev). add_arrival (clock l + int delay, ev)) evs (inflight l)\<rparr>)"

subsection \<open>\<open>send_control\<close>\<close>

definition send_control :: "bytes \<Rightarrow> ('d link, unit) hm" where
  "send_control request l =
     (if \<not> peer_valid l then (Inl (Runtime_error ''Failed to convert address''), l)
      else if first_or False (send_faults l) then
        (Inl (Runtime_error ''sendto failed''), l\<lparr>send_faults := tl (send_faults l)\<rparr>)
      else (Inr (), deliver request (l\<lparr>send_faults := tl (send_faults l)\<rparr>)))"

subsection \<open>\<open>receive_control\<close>\<close>

definition UDP_PACKET_SIZE :: nat where
  "UDP_PACKET_SIZE = 10240"

text \<open>
  The remaining time as \<open>select\<close> gets it: whole microseconds, truncated towards zero. (The
  code goes through a \<open>float\<close>; the model is exact.)
\<close>

definition select_us :: "int \<Rightarrow> int" where
  "select_us ns = (if 0 \<le> ns then ns div 1000 else - ((- ns) div 1000))"

datatype select_result =
    Sel_ready | Sel_timeout | Sel_interrupted | Sel_failed | Sel_exception | Sel_blocked

text \<open>\<open>select\<close> on the control socket; \<open>None\<close> is a null timeout; a negative time is \<open>EINVAL\<close>.\<close>

definition select_event :: "'d link \<Rightarrow> int \<times> net_event \<Rightarrow> select_result \<times> 'd link" where
  "select_event l a =
     (let l1 = l\<lparr>clock := max (clock l) (fst a)\<rparr>; l2 = l1\<lparr>inflight := tl (inflight l1)\<rparr> in
      case snd a of
        Datagram _ \<Rightarrow> (Sel_ready, l1)
      | Recv_failed \<Rightarrow> (Sel_ready, l1)
      | Select_failed \<Rightarrow> (Sel_failed, l2)
      | Interrupted \<Rightarrow> (Sel_interrupted, l2)
      | Socket_exception \<Rightarrow> (Sel_exception, l2))"

definition sel_wait :: "int option \<Rightarrow> 'd link \<Rightarrow> select_result \<times> 'd link" where
  "sel_wait tv l =
     (case tv of
        None \<Rightarrow>
          (case inflight l of [] \<Rightarrow> (Sel_blocked, l) | a # _ \<Rightarrow> select_event l a)
      | Some us \<Rightarrow>
          if us < 0 then (Sel_failed, l)
          else (case inflight l of
                  [] \<Rightarrow> (Sel_timeout, l\<lparr>clock := clock l + 1000 * us\<rparr>)
                | a # _ \<Rightarrow>
                    if fst a \<le> clock l + 1000 * us then select_event l a
                    else (Sel_timeout, l\<lparr>clock := clock l + 1000 * us\<rparr>)))"

text \<open>
  The loop \<open>do recvfrom while (received_bytes <= 0)\<close>, over what arrives: an empty datagram is
  skipped, and with nothing left to arrive the call blocks.
\<close>

fun recv_loop :: "(int \<times> net_event) list \<Rightarrow> int \<Rightarrow> (hsb_error + bytes) \<times> int \<times> (int \<times> net_event) list" where
  "recv_loop [] now = (Inl Blocked, now, [])"
| "recv_loop ((at, ev) # rest) now =
     (case ev of
        Datagram bs \<Rightarrow>
          if bs = [] then recv_loop rest (max now at)
          else (Inr (take UDP_PACKET_SIZE bs), max now at, rest)
      | Recv_failed \<Rightarrow> (Inl (Runtime_error ''recvfrom failed''), max now at, rest)
      | _ \<Rightarrow> recv_loop rest (max now at))"

definition recv_datagram :: "('d link, bytes) hm" where
  "recv_datagram l =
     (let (r, now, rest) = recv_loop (inflight l) (clock l) in
      (r, l\<lparr>clock := now, inflight := rest\<rparr>))"

text \<open>
  The start of an iteration: give up when the timeout has expired, else the argument of
  \<open>select\<close>. \<open>expired\<close> and \<open>trigger_s\<close> read the clock separately.
\<close>

definition arm_select :: "timeout option \<Rightarrow> 'd link \<Rightarrow> int option option \<times> 'd link" where
  "arm_select to l =
     (case to of
        None \<Rightarrow> (Some None, l)
      | Some t \<Rightarrow>
          let l1 = clock_tick l in
          if expired (clock l1) t then (None, l1)
          else let l2 = clock_tick l1 in (Some (Some (select_us (trigger_ns (clock l2) t))), l2))"

lemma clock_tick_grows [simp]: "clock l < clock (clock_tick l)"
  by (simp add: clock_tick_def)

lemma clock_tick_fields [simp]:
  "inflight (clock_tick l) = inflight l" "device (clock_tick l) = device l"
  "respond (clock_tick l) = respond l" "peer_valid (clock_tick l) = peer_valid l"
  "send_faults (clock_tick l) = send_faults l"
  by (simp_all add: clock_tick_def)

lemma arm_select_clock:
  "arm_select (Some t) l = (Some tv, l') \<Longrightarrow> clock l < clock l' \<and> clock l < deadline t \<and> tv \<noteq> None"
  using clock_tick_grows [of l] clock_tick_grows [of "clock_tick l"]
  by (auto simp: arm_select_def Let_def expired_def split: if_splits
      simp del: clock_tick_grows)

lemma arm_select_None: "arm_select None l = (Some None, l)"
  by (simp add: arm_select_def)

lemma sel_wait_clock: "sel_wait tv l = (r, l') \<Longrightarrow> clock l \<le> clock l'"
  by (auto simp: sel_wait_def select_event_def Let_def
      split: option.splits list.splits if_splits net_event.splits)

lemma sel_wait_None:
  "sel_wait None l = (r, l') \<Longrightarrow> r \<noteq> Sel_timeout \<and>
   (r = Sel_interrupted \<longrightarrow> length (inflight l') < length (inflight l))"
  by (auto simp: sel_wait_def select_event_def Let_def split: list.splits net_event.splits)

function receive_control :: "timeout option \<Rightarrow> 'd link \<Rightarrow> (hsb_error + bytes) \<times> 'd link" where
  "receive_control to l =
     (case arm_select to l of
        (None, l1) \<Rightarrow> (Inr [], l1)
      | (Some tv, l1) \<Rightarrow>
          (case sel_wait tv l1 of
             (Sel_interrupted, l2) \<Rightarrow> receive_control to l2
           | (Sel_failed, l2) \<Rightarrow> (Inl (Runtime_error ''select failed''), l2)
           | (Sel_exception, l2) \<Rightarrow> (Inr [], l2)
           | (Sel_timeout, l2) \<Rightarrow> receive_control to l2
           | (Sel_blocked, l2) \<Rightarrow> (Inl Blocked, l2)
           | (Sel_ready, l2) \<Rightarrow> recv_datagram l2))"
  by pat_completeness auto

definition receive_measure :: "timeout option \<Rightarrow> 'd link \<Rightarrow> nat" where
  "receive_measure to l =
     (case to of None \<Rightarrow> length (inflight l) | Some t \<Rightarrow> nat (deadline t + 1 - clock l))"

lemma receive_measure_less:
  assumes "arm_select to l = (Some tv, l1)" and "sel_wait tv l1 = (r, l2)"
    and "r = Sel_interrupted \<or> r = Sel_timeout"
  shows "receive_measure to l2 < receive_measure to l"
proof (cases to)
  case None
  with assms sel_wait_None [of l1 r l2] show ?thesis
    by (auto simp: arm_select_None receive_measure_def)
next
  case (Some t)
  with assms arm_select_clock [of t l tv l1] sel_wait_clock [of tv l1 r l2] show ?thesis
    by (auto simp: receive_measure_def)
qed

termination receive_control
  by (relation "measure (\<lambda>(to, l). receive_measure to l)")
    (auto intro: receive_measure_less dest!: sym [where t = "arm_select _ _"] sym [where t = "sel_wait _ _"])

declare receive_control.simps [simp del]

text \<open>What a reception leaves alone, and that a datagram returned was in flight.\<close>

lemma arm_select_fields:
  "arm_select to l = (x, l') \<Longrightarrow>
   inflight l' = inflight l \<and> device l' = device l \<and> respond l' = respond l \<and>
   peer_valid l' = peer_valid l \<and> send_faults l' = send_faults l \<and> clock l \<le> clock l'"
  using clock_tick_grows [of l] clock_tick_grows [of "clock_tick l"]
  by (auto simp: arm_select_def Let_def split: option.splits if_splits simp del: clock_tick_grows)

lemma sel_wait_fields:
  "sel_wait tv l = (r, l') \<Longrightarrow>
   (inflight l' = inflight l \<or> r \<noteq> Sel_ready \<and> inflight l' = tl (inflight l) \<and> inflight l \<noteq> [] \<and>
      (\<forall>bs. snd (hd (inflight l)) \<noteq> Datagram bs)) \<and>
   device l' = device l \<and> respond l' = respond l \<and>
   peer_valid l' = peer_valid l \<and> send_faults l' = send_faults l"
  by (auto simp: sel_wait_def select_event_def Let_def
      split: option.splits list.splits if_splits net_event.splits)

text \<open>The datagrams in flight, as what can still be received.\<close>

definition datagrams :: "(int \<times> net_event) list \<Rightarrow> bytes set" where
  "datagrams evs = {bs. Datagram bs \<in> snd ` set evs}"

lemma datagrams_simps [simp]:
  "datagrams [] = {}"
  "datagrams ((at, ev) # rest) = (case ev of Datagram bs \<Rightarrow> insert bs (datagrams rest) | _ \<Rightarrow> datagrams rest)"
  by (auto simp: datagrams_def split: net_event.splits)

lemma recv_loop_sound:
  "recv_loop evs now = (r, now', rest) \<Longrightarrow>
   now \<le> now' \<and> length rest \<le> length evs \<and> datagrams rest \<subseteq> datagrams evs \<and>
   (\<forall>bs. r = Inr bs \<longrightarrow> bs \<noteq> [] \<and> length rest < length evs \<and>
      (\<exists>full \<in> datagrams evs. bs = take UDP_PACKET_SIZE full))"
proof (induction evs arbitrary: now)
  case Nil
  then show ?case by auto
next
  case (Cons a evs)
  obtain at ev where a: "a = (at, ev)" by force
  note ih = Cons.IH [of "max now at"]
  show ?case
  proof (cases ev)
    case (Datagram bs)
    show ?thesis using Cons.prems ih by (auto simp: a Datagram UDP_PACKET_SIZE_def split: if_splits)
  qed (use Cons.prems ih in \<open>auto simp: a\<close>)
qed

text \<open>The whole effect of a reception on the link, however it ends.\<close>

definition received_from :: "'d link \<Rightarrow> 'd link \<Rightarrow> bool" where
  "received_from l l' \<longleftrightarrow>
     device l' = device l \<and> respond l' = respond l \<and> peer_valid l' = peer_valid l \<and>
     send_faults l' = send_faults l \<and> clock l \<le> clock l' \<and>
     length (inflight l') \<le> length (inflight l) \<and>
     datagrams (inflight l') \<subseteq> datagrams (inflight l)"

lemma received_from_refl [simp]: "received_from l l"
  by (simp add: received_from_def)

lemma received_from_trans: "received_from a b \<Longrightarrow> received_from b c \<Longrightarrow> received_from a c"
  by (auto simp: received_from_def)

lemma arm_select_received: "arm_select to l = (x, l') \<Longrightarrow> received_from l l'"
  using arm_select_fields [of to l x l'] by (simp add: received_from_def)

lemma datagrams_tl: "datagrams (tl evs) \<subseteq> datagrams evs"
  by (cases evs) (auto simp: datagrams_def)

lemma sel_wait_received: "sel_wait tv l = (r, l') \<Longrightarrow> received_from l l'"
  using sel_wait_fields [of tv l r l'] sel_wait_clock [of tv l r l'] datagrams_tl [of "inflight l"]
  by (auto simp: received_from_def)

lemma clock_tick_received [simp]: "received_from l (clock_tick l)"
  using clock_tick_grows [of l] by (simp add: received_from_def less_imp_le)

lemma recv_datagram_received:
  "recv_datagram l = (r, l') \<Longrightarrow>
   received_from l l' \<and>
   (\<forall>bs. r = Inr bs \<longrightarrow> bs \<noteq> [] \<and> length (inflight l') < length (inflight l) \<and>
      (\<exists>full \<in> datagrams (inflight l). bs = take UDP_PACKET_SIZE full))"
  by (auto simp: recv_datagram_def received_from_def split: prod.splits
      dest!: recv_loop_sound)

lemma receive_control_received:
  "receive_control to l = (r, l') \<Longrightarrow>
   received_from l l' \<and>
   (\<forall>bs. r = Inr bs \<longrightarrow> bs \<noteq> [] \<longrightarrow> length (inflight l') < length (inflight l) \<and>
      (\<exists>full \<in> datagrams (inflight l). bs = take UDP_PACKET_SIZE full))"
proof (induction to l arbitrary: r l' rule: receive_control.induct)
  case (1 to l)
  obtain a l1 where arm: "arm_select to l = (a, l1)" by force
  note r1 = arm_select_received [OF arm]
  show ?case
  proof (cases a)
    case None
    with "1.prems" arm r1 show ?thesis by (auto simp: receive_control.simps [of to l])
  next
    case (Some tv)
    obtain sel l2 where sel: "sel_wait tv l1 = (sel, l2)" by force
    note r2 = sel_wait_received [OF sel]
    note r12 = received_from_trans [OF r1 r2]
    have rec: "received_from l l' \<and>
       (\<forall>bs. r = Inr bs \<longrightarrow> bs \<noteq> [] \<longrightarrow> length (inflight l') < length (inflight l) \<and>
         (\<exists>full \<in> datagrams (inflight l). bs = take UDP_PACKET_SIZE full))"
      if "received_from l2 l' \<and>
       (\<forall>bs. r = Inr bs \<longrightarrow> bs \<noteq> [] \<longrightarrow> length (inflight l') < length (inflight l2) \<and>
         (\<exists>full \<in> datagrams (inflight l2). bs = take UDP_PACKET_SIZE full))"
      using that r12 by (fastforce simp: received_from_def)
    have step: "receive_control to l =
        (case sel of
             Sel_interrupted \<Rightarrow> receive_control to l2
           | Sel_failed \<Rightarrow> (Inl (Runtime_error ''select failed''), l2)
           | Sel_exception \<Rightarrow> (Inr [], l2)
           | Sel_timeout \<Rightarrow> receive_control to l2
           | Sel_blocked \<Rightarrow> (Inl Blocked, l2)
           | Sel_ready \<Rightarrow> recv_datagram l2)"
      using arm Some sel by (simp add: receive_control.simps [of to l])
    note ih = "1.IH" [OF arm [symmetric] Some sel [symmetric]]
    show ?thesis
    proof (cases sel)
      case Sel_ready
      with step "1.prems" recv_datagram_received [of l2 r l'] show ?thesis by (intro rec) simp
    next
      case Sel_timeout
      with step "1.prems" have "receive_control to l2 = (r, l')" by simp
      with ih Sel_timeout show ?thesis by (intro rec) simp
    next
      case Sel_interrupted
      with step "1.prems" have "receive_control to l2 = (r, l')" by simp
      with ih Sel_interrupted show ?thesis by (intro rec) simp
    qed (use step "1.prems" r12 in auto)
  qed
qed

text \<open>
  A datagram that arrives a microsecond before the deadline is received by an attempt that
  is not held up.
\<close>

lemma select_us_nonneg: "0 \<le> ns \<Longrightarrow> 0 \<le> select_us ns \<and> ns < 1000 * select_us ns + 1000"
  using pos_mod_bound [of 1000 ns] mult_div_mod_eq [of 1000 ns]
  by (simp add: select_us_def pos_imp_zdiv_nonneg_iff)

lemma receive_control_ready:
  assumes lags: "lags l = []"
    and head: "inflight l = (at, Datagram bs) # rest" and ne: "bs \<noteq> []"
    and time: "clock l + 1002 \<le> deadline t" "at + 1000 \<le> deadline t"
  shows "receive_control (Some t) l =
    (Inr (take UDP_PACKET_SIZE bs), l\<lparr>clock := max (clock l + 2) at, inflight := rest\<rparr>)"
proof -
  define l2 where "l2 = clock_tick (clock_tick l)"
  have l2: "l2 = l\<lparr>clock := clock l + 2\<rparr>"
    using lags by (simp add: l2_def clock_tick_def first_or_def)
  let ?us = "select_us (deadline t - (clock l + 2))"
  have us: "0 \<le> ?us" "deadline t - (clock l + 2) < 1000 * ?us + 1000"
    using select_us_nonneg [of "deadline t - (clock l + 2)"] time by simp_all
  have arm: "arm_select (Some t) l = (Some (Some ?us), l2)"
    using time lags l2
    by (simp add: arm_select_def expired_def trigger_ns_def l2_def clock_tick_def first_or_def
        add.commute)
  have "sel_wait (Some ?us) l2 = (Sel_ready, l2\<lparr>clock := max (clock l + 2) at\<rparr>)"
    using us time head by (simp add: sel_wait_def select_event_def l2)
  with arm show ?thesis using ne head
    by (simp add: receive_control.simps [of "Some t" l] recv_datagram_def l2)
qed

text \<open>
  An attempt for which nothing arrives ends, with nothing received, after the deadline. It
  waits once for the remaining time and then until the clock has passed the deadline.
\<close>

lemma receive_control_expired:
  assumes "deadline t < clock (clock_tick l)"
  shows "receive_control (Some t) l = (Inr [], clock_tick l)"
  using assms by (simp add: receive_control.simps [of "Some t" l] arm_select_def expired_def)

subsection \<open>\<open>execute\<close>\<close>

text \<open>The header of a reply: command, flags, sequence and response code.\<close>

definition parse_reply_header :: "bytes \<Rightarrow> (u16 \<times> u8 \<times> deserializer) option" where
  "parse_reply_header reply =
     Option.bind (next_uint8 (new_deserializer reply (length reply))) (\<lambda>(_, d1).
     Option.bind (next_uint8 d1) (\<lambda>(_, d2).
     Option.bind (next_uint16_be d2) (\<lambda>(reply_sequence, d3).
     map_option (\<lambda>(response_code, d4). (reply_sequence, response_code, d4)) (next_uint8 d3))))"

text \<open>
  The loop of \<open>execute\<close> after the request is sent: \<open>None\<close> is the status \<open>false\<close> (timed out),
  else the response code and the deserializer at the reply's payload. A reply with another
  sequence is dropped.
\<close>

function await_reply :: "u16 \<Rightarrow> timeout option \<Rightarrow> 'd link \<Rightarrow> (hsb_error + (u8 \<times> deserializer) option) \<times> 'd link" where
  "await_reply sequence to l =
     (case receive_control to l of
        (Inl e, l1) \<Rightarrow> (Inl e, l1)
      | (Inr reply, l1) \<Rightarrow>
          let l2 = clock_tick l1 in
          if reply = [] then (Inr None, l2)
          else (case parse_reply_header reply of
                  None \<Rightarrow> (Inl (Transaction_error ''malformed response''), l2)
                | Some (reply_sequence, response_code, d) \<Rightarrow>
                    if sequence = reply_sequence then (Inr (Some (response_code, d)), l2)
                    else await_reply sequence to l2))"
  by pat_completeness auto

termination await_reply
proof (relation "measure (\<lambda>(_, _, l). length (inflight l))", goal_cases)
  case 1
  show ?case by simp
next
  case (2 sequence to l r l1 reply l2 p rs q code d)
  then show ?case using receive_control_received [of to l r l1] by auto
qed

declare await_reply.simps [simp del]

text \<open>\<open>request_time\<close> is read before the request is sent, \<open>reply_time\<close> after each reception.\<close>

definition execute :: "u16 \<Rightarrow> bytes \<Rightarrow> timeout option \<Rightarrow> 'd link \<Rightarrow> (hsb_error + (u8 \<times> deserializer) option) \<times> 'd link" where
  "execute sequence request to =
     hthen (hmodify clock_tick) (hthen (send_control request) (await_reply sequence to))"

text \<open>
  A reply is accepted only when it carries the sequence of the request, whatever else is in
  flight, and it is one of the datagrams that were in flight.
\<close>

lemma await_reply_sound:
  "await_reply sequence to l = (r, l') \<Longrightarrow>
   received_from l l' \<and>
   (\<forall>code d. r = Inr (Some (code, d)) \<longrightarrow>
      (\<exists>full \<in> datagrams (inflight l).
         parse_reply_header (take UDP_PACKET_SIZE full) = Some (sequence, code, d)))"
proof (induction sequence to l arbitrary: r l' rule: await_reply.induct)
  case (1 sequence to l)
  obtain x l1 where rc: "receive_control to l = (x, l1)" by force
  note recv = receive_control_received [OF rc]
  have r2: "received_from l (clock_tick l1)"
    using recv received_from_trans clock_tick_received by blast
  show ?case
  proof (cases x)
    case (Inl e)
    with 1 rc recv show ?thesis by (auto simp: await_reply.simps [of sequence to l])
  next
    case (Inr reply)
    note unfold = await_reply.simps [of sequence to l]
    show ?thesis
    proof (cases "reply = [] \<or> parse_reply_header reply = None")
      case True
      with 1(2) rc Inr r2 show ?thesis by (cases "reply = []") (auto simp: unfold Let_def)
    next
      case False
      then obtain rs code d where p: "parse_reply_header reply = Some (rs, code, d)" by auto
      show ?thesis
      proof (cases "sequence = rs")
        case True
        with rc Inr p False have "await_reply sequence to l = (Inr (Some (code, d)), clock_tick l1)"
          by (simp add: await_reply.simps [of rs to l] Let_def)
        with 1(2) r2 p False recv Inr True show ?thesis by auto
      next
        case no: False
        with 1(2) rc Inr p False have "await_reply sequence to (clock_tick l1) = (r, l')"
          by (simp add: unfold Let_def)
        with 1(1) [OF rc [symmetric] Inr refl] False p no
        have "received_from (clock_tick l1) l' \<and>
          (\<forall>code d. r = Inr (Some (code, d)) \<longrightarrow>
            (\<exists>full \<in> datagrams (inflight (clock_tick l1)).
               parse_reply_header (take UDP_PACKET_SIZE full) = Some (sequence, code, d)))"
          by auto
        with r2 show ?thesis by (fastforce simp: received_from_def)
      qed
    qed
  qed
qed

end
