(* ===== verification/Hololink_Control.thy ===== *)
theory Hololink_Control
  imports Control_Link Hsb_Addresses
begin

text \<open>
  The control plane of the class \<open>Hololink\<close> (src/src/hololink/core/hololink.cpp): register
  writes and reads over the control socket, with their requests, replies, retries and
  sequence numbers. One method is one atomic step (the code holds \<open>execute_mutex_\<close>). The
  hooks that only log or count (\<open>executed\<close>, \<open>add_read_retries\<close>, \<open>add_write_retries\<close>) are left
  out, error messages are reduced to their constant parts, and the \<open>assert\<close> of
  \<open>read_uint32_\<close> is compiled out, as in a release build.
\<close>

subsection \<open>Constants\<close>

definition CONTROL_PACKET_SIZE :: nat where "CONTROL_PACKET_SIZE = 1472"

definition WR_DWORD :: u8 where "WR_DWORD = 0x04"
definition WR_BLOCK :: u8 where "WR_BLOCK = 0x09"
definition RD_DWORD :: u8 where "RD_DWORD = 0x14"
definition RD_BLOCK :: u8 where "RD_BLOCK = 0x19"

definition REQUEST_FLAGS_ACK_REQUEST :: u8 where "REQUEST_FLAGS_ACK_REQUEST = 0b01"
definition REQUEST_FLAGS_SEQUENCE_CHECK :: u8 where "REQUEST_FLAGS_SEQUENCE_CHECK = 0b10"

definition RESPONSE_SUCCESS :: u8 where "RESPONSE_SUCCESS = 0"

subsection \<open>State\<close>

text \<open>The members of \<open>Hololink\<close> that its methods change or branch on.\<close>

record hololink =
  hl_sequence :: u16
  sequence_number_checking :: bool
  block_enable :: bool
  ptp_enable :: bool
  skip_sequence_initialization :: bool
  started :: bool
  hsb_ip_version :: u32
  datecode :: u32
  apb_interrupt_enable_cache :: u32
  rising_cache :: u32
  falling_cache :: u32
  null_sequence_location :: u32
  async_event_socket_port :: u16
  ptp_sync_stat :: u32

record 'd hsb =
  host :: hololink
  link :: "'d link"

text \<open>The constructor; the members it does not set are read only after \<open>configure_hsb\<close> has.\<close>

definition new_hololink :: "bool \<Rightarrow> bool \<Rightarrow> bool \<Rightarrow> bool \<Rightarrow> hololink" where
  "new_hololink checking skip_init ptp block =
     \<lparr>hl_sequence = 0x100, sequence_number_checking = checking, block_enable = block,
      ptp_enable = ptp, skip_sequence_initialization = skip_init, started = False,
      hsb_ip_version = 0, datecode = 0, apb_interrupt_enable_cache = 0, rising_cache = 0,
      falling_cache = 0, null_sequence_location = 0, async_event_socket_port = 0,
      ptp_sync_stat = 0\<rparr>"

definition on_link :: "('d link, 'a) hm \<Rightarrow> ('d hsb, 'a) hm" where
  "on_link m s = (let (r, l) = m (link s) in (r, s\<lparr>link := l\<rparr>))"

definition next_sequence :: "('d hsb, u16) hm" where
  "next_sequence s =
     (Inr (hl_sequence (host s)), s\<lparr>host := (host s)\<lparr>hl_sequence := hl_sequence (host s) + 1\<rparr>\<rparr>)"

subsection \<open>Timeouts of a method\<close>

text \<open>\<open>Timeout::default_timeout\<close>: a fresh timeout when the caller gave none.\<close>

definition default_timeout :: "timeout option \<Rightarrow> ('d hsb, timeout) hm" where
  "default_timeout to =
     (case to of
        Some t \<Rightarrow> hret t
      | None \<Rightarrow> hbind (on_link read_clock)
                  (\<lambda>now. hret (make_timeout now DEFAULT_TIMEOUT_NS DEFAULT_RETRY_NS)))"

text \<open>\<open>timeout->retry()\<close>: the clock is read only when there is a retry interval.\<close>

definition do_retry :: "timeout \<Rightarrow> 'd hsb \<Rightarrow> (bool \<times> timeout) \<times> 'd hsb" where
  "do_retry to s =
     (if can_retry to then
        (let l = clock_tick (link s) in (timeout_retry (clock l) to, s\<lparr>link := l\<rparr>))
      else ((False, to), s))"

subsection \<open>Requests\<close>

definition request_flags :: "bool \<Rightarrow> u8" where
  "request_flags sequence_check =
     REQUEST_FLAGS_ACK_REQUEST OR (if sequence_check then REQUEST_FLAGS_SEQUENCE_CHECK else 0)"

definition serialize_header :: "u8 \<Rightarrow> u8 \<Rightarrow> u16 \<Rightarrow> serializer option" where
  "serialize_header cmd flags sequence =
     Option.bind (append_uint8 (new_serializer (replicate CONTROL_PACKET_SIZE 0) CONTROL_PACKET_SIZE) cmd) (\<lambda>s.
     Option.bind (append_uint8 s flags) (\<lambda>s.
     Option.bind (append_uint16_be s sequence) (\<lambda>s.
     Option.bind (append_uint8 s 0) (\<lambda>s. append_uint8 s 0))))"

definition serialize_error :: hsb_error where
  "serialize_error = Runtime_error ''Unable to serialize''"

definition misaligned :: "u32 \<Rightarrow> bool" where
  "misaligned address \<longleftrightarrow> address AND 3 \<noteq> 0"

definition alignment_error :: hsb_error where
  "alignment_error = Runtime_error ''Invalid address, has to be a multiple of four''"

text \<open>\<open>request.resize(serializer.length())\<close>\<close>

definition finish_request :: "serializer option \<Rightarrow> hsb_error + bytes" where
  "finish_request so =
     (case so of None \<Rightarrow> Inl serialize_error | Some s \<Rightarrow> Inr (take (s_length s) (s_buffer s)))"

fun append_write_data :: "serializer \<Rightarrow> (u32 \<times> u32) list \<Rightarrow> hsb_error + serializer" where
  "append_write_data s [] = Inr s"
| "append_write_data s ((address, value) # rest) =
     (if misaligned address then Inl alignment_error
      else case Option.bind (append_uint32_be s address) (\<lambda>s. append_uint32_be s value) of
             None \<Rightarrow> Inl serialize_error
           | Some s' \<Rightarrow> append_write_data s' rest)"

definition write_block_request :: "(u32 \<times> u32) list \<Rightarrow> u16 \<Rightarrow> bool \<Rightarrow> hsb_error + bytes" where
  "write_block_request data sequence check =
     (case serialize_header WR_BLOCK (request_flags check) sequence of
        None \<Rightarrow> Inl serialize_error
      | Some s \<Rightarrow>
          (case append_write_data s data of
             Inl e \<Rightarrow> Inl e
           | Inr s' \<Rightarrow> finish_request (Some s')))"

definition write_dword_request :: "u32 \<Rightarrow> u32 \<Rightarrow> u16 \<Rightarrow> bool \<Rightarrow> hsb_error + bytes" where
  "write_dword_request address value sequence check =
     (if misaligned address then Inl alignment_error
      else finish_request
        (Option.bind (serialize_header WR_DWORD (request_flags check) sequence) (\<lambda>s.
         Option.bind (append_uint32_be s address) (\<lambda>s. append_uint32_be s value))))"

definition read_dword_request :: "u32 \<Rightarrow> u16 \<Rightarrow> bool \<Rightarrow> hsb_error + bytes" where
  "read_dword_request address sequence check =
     (if misaligned address then Inl alignment_error
      else finish_request
        (Option.bind (serialize_header RD_DWORD (request_flags check) sequence) (\<lambda>s.
         append_uint32_be s address)))"

text \<open>The addresses of a block read, each with a zero where a write has its value.\<close>

definition block_addresses :: "u32 \<Rightarrow> nat \<Rightarrow> u32 list" where
  "block_addresses address count = map (\<lambda>i. address + of_nat i * 4) [0..<count]"

definition read_block_request :: "u32 \<Rightarrow> nat \<Rightarrow> u16 \<Rightarrow> bool \<Rightarrow> hsb_error + bytes" where
  "read_block_request address count sequence check =
     finish_request
       (Option.bind (serialize_header RD_BLOCK (request_flags check) sequence) (\<lambda>s.
        put_all (put_pair append_uint32_be append_uint32_be) s
          (map (\<lambda>a. (a, 0)) (block_addresses address count))))"

subsection \<open>Replies\<close>

text \<open>
  What a method makes of a reply that \<open>execute\<close> accepted. \<open>execute\<close> always gives a response
  code with the status \<open>true\<close>, so the tests for a missing one are not reached.
\<close>

definition interpret_write :: "u8 \<Rightarrow> deserializer \<Rightarrow> hsb_error + unit" where
  "interpret_write response_code d =
     (if response_code \<noteq> RESPONSE_SUCCESS then Inl (Transaction_error ''bad write response'')
      else Inr ())"

definition interpret_read :: "u8 \<Rightarrow> deserializer \<Rightarrow> hsb_error + u32" where
  "interpret_read response_code d =
     (if response_code \<noteq> RESPONSE_SUCCESS then Inl (Transaction_error ''bad read response'')
      else case Option.bind (next_uint8 d) (\<lambda>(_, d).
                Option.bind (next_uint32_be d) (\<lambda>(_, d).
                Option.bind (next_uint32_be d) (\<lambda>(value, d).
                map_option (\<lambda>_. value) (next_uint16_be d)))) of
             None \<Rightarrow> Inl (Transaction_error ''malformed response'')
           | Some value \<Rightarrow> Inr value)"

fun interpret_block_values :: "u32 list \<Rightarrow> deserializer \<Rightarrow> hsb_error + (u32 list \<times> deserializer)" where
  "interpret_block_values [] d = Inr ([], d)"
| "interpret_block_values (address # rest) d =
     (case get_pair next_uint32_be next_uint32_be d of
        None \<Rightarrow> Inl (Transaction_error ''malformed response'')
      | Some ((response_address, value), d') \<Rightarrow>
          if response_address \<noteq> address then Inl (Transaction_error ''malformed response'')
          else map_sum id (apfst ((#) value)) (interpret_block_values rest d'))"

definition interpret_block :: "u32 list \<Rightarrow> u8 \<Rightarrow> deserializer \<Rightarrow> hsb_error + u32 list" where
  "interpret_block addresses response_code d =
     (if response_code \<noteq> RESPONSE_SUCCESS then Inl (Transaction_error ''bad read response'')
      else case next_uint8 d of
             None \<Rightarrow> Inl (Transaction_error ''malformed response'')
           | Some (_, d1) \<Rightarrow>
               (case interpret_block_values addresses d1 of
                  Inl e \<Rightarrow> Inl e
                | Inr (result, d2) \<Rightarrow>
                    (case next_uint16_be d2 of
                       None \<Rightarrow> Inl (Transaction_error ''malformed response'')
                     | Some _ \<Rightarrow> Inr result)))"

subsection \<open>One attempt\<close>

text \<open>
  \<open>write_uint32_block_\<close>, \<open>write_uint32_\<close>, \<open>read_uint32_\<close> and the loop body of
  \<open>read_uint32_block_\<close>: serialize (or throw), execute, interpret. \<open>None\<close> is the status
  \<open>false\<close>: the attempt timed out.
\<close>

definition attempt ::
  "(hsb_error + bytes) \<Rightarrow> (u8 \<Rightarrow> deserializer \<Rightarrow> hsb_error + 'a) \<Rightarrow> u16 \<Rightarrow> timeout \<Rightarrow> ('d hsb, 'a option) hm"
where
  "attempt request interpret seq to =
     (case request of
        Inl e \<Rightarrow> hthrow e
      | Inr bytes \<Rightarrow>
          hbind (on_link (execute seq bytes (Some to))) (\<lambda>r.
            case r of
              None \<Rightarrow> hret None
            | Some (response_code, d) \<Rightarrow>
                (case interpret response_code d of
                   Inl e \<Rightarrow> hthrow e
                 | Inr x \<Rightarrow> hret (Some x))))"

lemma on_link_run: "m (link s) = (r, l) \<Longrightarrow> on_link m s = (r, s\<lparr>link := l\<rparr>)"
  by (simp add: on_link_def)

lemma on_link_fields:
  "on_link m s = (r, s') \<Longrightarrow> m (link s) = (r, link s') \<and> host s' = host s \<and> s' = s\<lparr>link := link s'\<rparr>"
  by (auto simp: on_link_def split: prod.splits)

text \<open>Time never runs backwards, whatever the link does.\<close>

definition later :: "'d link \<Rightarrow> 'd link \<Rightarrow> bool" where
  "later l l' \<longleftrightarrow> clock l \<le> clock l' \<and> respond l' = respond l \<and> peer_valid l' = peer_valid l"

lemma later_refl [simp]: "later l l"
  by (simp add: later_def)

lemma later_trans: "later a b \<Longrightarrow> later b c \<Longrightarrow> later a c"
  by (simp add: later_def)

lemma later_clock_tick [simp]: "later l (clock_tick l)"
  using clock_tick_grows [of l] by (simp add: later_def less_imp_le)

lemma later_received: "received_from l l' \<Longrightarrow> later l l'"
  by (simp add: received_from_def later_def)

lemma later_send: "send_control request l = (r, l') \<Longrightarrow> later l l'"
  by (auto simp: send_control_def deliver_def later_def split: if_splits prod.splits)

lemma later_execute: "execute seq request to l = (r, l') \<Longrightarrow> later l l'"
  unfolding execute_def
  by (elim hthen_cases)
    (auto dest!: later_send await_reply_sound later_received,
      (meson later_clock_tick later_trans)+)

lemma attempt_later: "attempt request interpret seq to s = (r, s') \<Longrightarrow> later (link s) (link s')"
  by (auto simp: attempt_def split: sum.splits option.splits prod.splits
      elim!: hbind_cases dest!: on_link_fields later_execute)

lemma attempt_host: "attempt request interpret seq to s = (r, s') \<Longrightarrow> host s' = host s"
  by (auto simp: attempt_def split: sum.splits option.splits prod.splits
      elim!: hbind_cases dest!: on_link_fields)

lemma do_retry_True:
  "do_retry to s = ((True, to'), s') \<Longrightarrow>
   expiry to' = expiry to \<and> clock (link s) < clock (link s') \<and> clock (link s') < expiry to \<and>
   later (link s) (link s') \<and> host s' = host s \<and> inflight (link s') = inflight (link s) \<and>
   device (link s') = device (link s)"
  by (auto simp: do_retry_def Let_def split: if_splits prod.splits
      dest: timeout_retry_fields timeout_retry_True)

text \<open>
  The loop of every register access: attempt; stop when there is an answer, or when the
  caller wants no retries, or when the time is over; else try again with the same sequence
  number. \<open>request\<close> builds the datagram from the current setting of the sequence check, which
  is off for every retransmission.
\<close>

datatype 'a outcome = Done 'a | No_reply | Out_of_time

function retry_loop ::
  "(bool \<Rightarrow> hsb_error + bytes) \<Rightarrow> (u8 \<Rightarrow> deserializer \<Rightarrow> hsb_error + 'a) \<Rightarrow> bool \<Rightarrow> u16 \<Rightarrow>
   timeout \<Rightarrow> bool \<Rightarrow> 'd hsb \<Rightarrow> (hsb_error + 'a outcome \<times> timeout \<times> bool) \<times> 'd hsb"
where
  "retry_loop request interpret retry seq to check s =
     (case attempt (request check) interpret seq to s of
        (Inl e, s1) \<Rightarrow> (Inl e, s1)
      | (Inr (Some x), s1) \<Rightarrow> (Inr (Done x, to, check), s1)
      | (Inr None, s1) \<Rightarrow>
          if \<not> retry then (Inr (No_reply, to, check), s1)
          else (case do_retry to s1 of
                  ((False, to'), s2) \<Rightarrow> (Inr (Out_of_time, to', check), s2)
                | ((True, to'), s2) \<Rightarrow> retry_loop request interpret retry seq to' False s2))"
  by pat_completeness auto

lemma do_retry_measure:
  assumes "attempt request interpret seq to s = (r, s1)" and "do_retry to s1 = ((True, to'), s2)"
  shows "clock (link s) < expiry to \<and> expiry to' - clock (link s2) < expiry to - clock (link s)"
  using attempt_later [OF assms(1)] do_retry_True [OF assms(2)] by (auto simp: later_def)

termination retry_loop
  by (relation "measure (\<lambda>(_, _, _, _, to, _, s). nat (expiry to - clock (link s)))")
    (auto dest: do_retry_measure dest!: sym [where s = "(_, _)" and t = "attempt _ _ _ _ _"]
       sym [where s = "(_, _)" and t = "do_retry _ _"])

declare retry_loop.simps [simp del]

subsection \<open>Writing registers\<close>

text \<open>
  \<open>write_uint32(WriteData&, in_timeout, retry, sequence_check)\<close>. The timeout is an object
  that the caller may go on using, so the methods that are given one hand it back. With
  \<open>block_enable_\<close> all pairs go in one datagram; without it, one by one.
\<close>

definition write_block :: "(u32 \<times> u32) list \<Rightarrow> timeout \<Rightarrow> bool \<Rightarrow> bool \<Rightarrow> ('d hsb, bool \<times> timeout) hm" where
  "write_block data to retry check =
     hbind next_sequence (\<lambda>seq.
       if data = [] then hret (True, to)
       else hbind (retry_loop (write_block_request data seq) interpret_write retry seq to check) (\<lambda>(out, to', _).
         case out of
           Done _ \<Rightarrow> hret (True, to')
         | No_reply \<Rightarrow> hret (False, to')
         | Out_of_time \<Rightarrow> hthrow (Timeout_error ''write_uint32'')))"

fun write_singly :: "(u32 \<times> u32) list \<Rightarrow> timeout \<Rightarrow> bool \<Rightarrow> bool \<Rightarrow> ('d hsb, bool \<times> timeout) hm" where
  "write_singly [] to retry check = hret (True, to)"
| "write_singly ((address, value) # rest) to retry check =
     hbind next_sequence (\<lambda>seq.
       hbind (retry_loop (write_dword_request address value seq) interpret_write retry seq to check)
         (\<lambda>(out, to', check').
           case out of
             Done _ \<Rightarrow> write_singly rest to' retry check'
           | No_reply \<Rightarrow> hret (False, to')
           | Out_of_time \<Rightarrow> hthrow (Timeout_error ''write_uint32'')))"

definition write_data :: "(u32 \<times> u32) list \<Rightarrow> timeout option \<Rightarrow> bool \<Rightarrow> bool \<Rightarrow> ('d hsb, bool \<times> timeout) hm" where
  "write_data data in_timeout retry check =
     hbind (default_timeout in_timeout) (\<lambda>to.
       hbind (hgets (block_enable \<circ> host)) (\<lambda>block.
         if block then write_block data to retry check else write_singly data to retry check))"

text \<open>The overloads without a sequence check take the setting of the object.\<close>

definition write_data_default :: "(u32 \<times> u32) list \<Rightarrow> timeout option \<Rightarrow> bool \<Rightarrow> ('d hsb, bool \<times> timeout) hm" where
  "write_data_default data in_timeout retry =
     hbind (hgets (sequence_number_checking \<circ> host)) (write_data data in_timeout retry)"

definition write_uint32_full :: "u32 \<Rightarrow> u32 \<Rightarrow> timeout option \<Rightarrow> bool \<Rightarrow> bool \<Rightarrow> ('d hsb, bool \<times> timeout) hm" where
  "write_uint32_full address value in_timeout retry check =
     write_data [(address, value)] in_timeout retry check"

definition write_uint32_to :: "u32 \<Rightarrow> u32 \<Rightarrow> timeout option \<Rightarrow> bool \<Rightarrow> ('d hsb, bool \<times> timeout) hm" where
  "write_uint32_to address value in_timeout retry =
     hbind (hgets (sequence_number_checking \<circ> host)) (write_uint32_full address value in_timeout retry)"

definition write_uint32 :: "u32 \<Rightarrow> u32 \<Rightarrow> ('d hsb, bool) hm" where
  "write_uint32 address value =
     hbind (write_uint32_to address value None True) (\<lambda>(b, _). hret b)"

subsection \<open>Reading registers\<close>

definition read_uint32_full :: "u32 \<Rightarrow> timeout option \<Rightarrow> bool \<Rightarrow> ('d hsb, u32 \<times> timeout) hm" where
  "read_uint32_full address in_timeout check =
     hbind (default_timeout in_timeout) (\<lambda>to.
       hbind next_sequence (\<lambda>seq.
         hbind (retry_loop (read_dword_request address seq) interpret_read True seq to check)
           (\<lambda>(out, to', _).
             case out of
               Done value \<Rightarrow> hret (value, to')
             | _ \<Rightarrow> hthrow (Timeout_error ''read_uint32''))))"

definition read_uint32_to :: "u32 \<Rightarrow> timeout option \<Rightarrow> ('d hsb, u32 \<times> timeout) hm" where
  "read_uint32_to address in_timeout =
     hbind (hgets (sequence_number_checking \<circ> host)) (read_uint32_full address in_timeout)"

definition read_uint32 :: "u32 \<Rightarrow> ('d hsb, u32) hm" where
  "read_uint32 address = hbind (read_uint32_to address None) (\<lambda>(v, _). hret v)"

text \<open>
  \<open>read_uint32_singly_\<close>: every word has a copy of the timeout, started anew. The result is
  whether all words came, and those that did.
\<close>

fun read_singly :: "u32 list \<Rightarrow> timeout \<Rightarrow> bool \<Rightarrow> ('d hsb, bool \<times> u32 list) hm" where
  "read_singly [] in_timeout check = hret (True, [])"
| "read_singly (address # rest) in_timeout check =
     hbind (on_link read_clock) (\<lambda>now.
       hbind next_sequence (\<lambda>seq.
         hbind (retry_loop (read_dword_request address seq) interpret_read True seq
                  (copy_timeout now in_timeout) check) (\<lambda>(out, _, check').
           case out of
             Done value \<Rightarrow>
               hbind (read_singly rest in_timeout check') (\<lambda>(ok, values). hret (ok, value # values))
           | _ \<Rightarrow> hret (False, []))))"

text \<open>
  \<open>read_uint32_block_\<close>: the request is serialized once, before the loop, so the flags of a
  retransmission are those of the first transmission.
\<close>

definition read_block :: "u32 \<Rightarrow> u32 \<Rightarrow> timeout \<Rightarrow> bool \<Rightarrow> ('d hsb, (bool \<times> u32 list) \<times> timeout) hm" where
  "read_block address count to check =
     hthen (hthrow_if (misaligned address) alignment_error)
       (hbind next_sequence (\<lambda>seq.
         hbind (retry_loop (\<lambda>_. read_block_request address (unat count) seq check)
                  (interpret_block (block_addresses address (unat count))) True seq to check)
           (\<lambda>(out, to', _).
             case out of
               Done values \<Rightarrow> hret ((True, values), to')
             | _ \<Rightarrow> hret ((False, []), to'))))"

definition read_uint32_count_to :: "u32 \<Rightarrow> u32 \<Rightarrow> timeout option \<Rightarrow> bool \<Rightarrow> ('d hsb, (bool \<times> u32 list) \<times> timeout) hm" where
  "read_uint32_count_to address count in_timeout check =
     hbind (default_timeout in_timeout) (\<lambda>to.
       hbind (hgets (block_enable \<circ> host)) (\<lambda>block.
         if block then read_block address count to check
         else hbind (read_singly (block_addresses address (unat count)) to check) (\<lambda>r. hret (r, to))))"

definition read_uint32_count :: "u32 \<Rightarrow> u32 \<Rightarrow> timeout option \<Rightarrow> bool \<Rightarrow> ('d hsb, bool \<times> u32 list) hm" where
  "read_uint32_count address count in_timeout check =
     hbind (read_uint32_count_to address count in_timeout check) (\<lambda>(r, _). hret r)"

subsection \<open>Built on them\<close>

definition and_uint32 :: "u32 \<Rightarrow> u32 \<Rightarrow> ('d hsb, bool) hm" where
  "and_uint32 address bits =
     hbind (read_uint32 address) (\<lambda>value. write_uint32 address (value AND bits))"

definition or_uint32 :: "u32 \<Rightarrow> u32 \<Rightarrow> ('d hsb, bool) hm" where
  "or_uint32 address bits =
     hbind (read_uint32 address) (\<lambda>value. write_uint32 address (value OR bits))"

definition get_hsb_ip_version :: "timeout option \<Rightarrow> bool \<Rightarrow> ('d hsb, u32) hm" where
  "get_hsb_ip_version in_timeout check =
     hbind (read_uint32_full HSB_IP_VERSION in_timeout check) (\<lambda>(v, _). hret (v AND 0xFFFF))"

definition get_fpga_date :: "('d hsb, u32) hm" where
  "get_fpga_date = read_uint32 FPGA_DATE"

text \<open>Statements whose result the code drops, and assignments to members.\<close>

definition write_reg :: "u32 \<Rightarrow> u32 \<Rightarrow> ('d hsb, unit) hm" where
  "write_reg address value = hbind (write_uint32 address value) (\<lambda>_. hret ())"

definition set_host :: "(hololink \<Rightarrow> hololink) \<Rightarrow> ('d hsb, unit) hm" where
  "set_host f = hmodify (\<lambda>s. s\<lparr>host := f (host s)\<rparr>)"

subsection \<open>Objects that work on the board\<close>

text \<open>Methods of an object that holds a reference to the board have both as their state.\<close>

definition on_hsb :: "('b, 'a) hm \<Rightarrow> ('b \<times> 'q, 'a) hm" where
  "on_hsb m s = (let (r, b) = m (fst s) in (r, (b, snd s)))"

definition on_obj :: "('q, 'a) hm \<Rightarrow> ('b \<times> 'q, 'a) hm" where
  "on_obj m s = (let (r, q) = m (snd s) in (r, (fst s, q)))"

text \<open>A method that makes an object, works with it and drops it.\<close>

definition with_object :: "'q \<Rightarrow> ('b \<times> 'q, 'a) hm \<Rightarrow> ('b, 'a) hm" where
  "with_object q m s = (let (r, s') = m (s, q) in (r, fst s'))"

subsection \<open>Time and timeouts across a method\<close>

text \<open>
  No method of the control plane moves time backwards, changes the device's behaviour or the
  total time of a timeout it was given.
\<close>

definition hsb_later :: "'d hsb \<Rightarrow> 'd hsb \<Rightarrow> bool" where
  "hsb_later s s' \<longleftrightarrow> later (link s) (link s')"

lemma hsb_later_refl: "reflp hsb_later"
  by (simp add: reflp_def hsb_later_def)

lemma hsb_later_trans: "transp hsb_later"
  by (auto simp: transp_def hsb_later_def intro: later_trans)

lemmas hsb_later_order = hsb_later_refl hsb_later_trans

lemma retry_loop_later:
  "retry_loop request check_reply retry seq to check s = (r, s') \<Longrightarrow>
   hsb_later s s' \<and> (\<forall>out to' check'. r = Inr (out, to', check') \<longrightarrow> expiry to' = expiry to)"
proof (induction request check_reply retry seq to check s arbitrary: r s' rule: retry_loop.induct)
  case (1 request check_reply retry seq to check s)
  obtain a s1 where a: "attempt (request check) check_reply seq to s = (a, s1)" by force
  note l1 = attempt_later [OF a]
  show ?case
  proof (cases "a = Inr None \<and> retry")
    case False
    with "1.prems" a l1 show ?thesis
      by (cases a) (auto simp: retry_loop.simps [of request] hsb_later_def split: option.splits)
  next
    case True
    obtain b to1 s2 where d: "do_retry to s1 = ((b, to1), s2)" by (metis surj_pair)
    have l2: "later (link s1) (link s2)" "expiry to1 = expiry to"
      using d by (auto simp: do_retry_def Let_def split: if_splits dest: timeout_retry_fields)
    show ?thesis
    proof (cases b)
      case False
      with "1.prems" a d True l1 l2 show ?thesis
        by (auto simp: retry_loop.simps [of request] hsb_later_def intro: later_trans)
    next
      case b: True
      with "1.prems" a d True have "retry_loop request check_reply retry seq to1 False s2 = (r, s')"
        by (simp add: retry_loop.simps [of request _ _ _ _ check])
      moreover have "\<not> \<not> retry" using True by simp
      ultimately have "hsb_later s2 s' \<and>
          (\<forall>out to' check'. r = Inr (out, to', check') \<longrightarrow> expiry to' = expiry to1)"
        using True b by (intro "1.IH" [OF a [symmetric] _ _ _ d [symmetric] refl]) simp_all
      with l1 l2 show ?thesis by (auto simp: hsb_later_def intro: later_trans)
    qed
  qed
qed

lemma hrel_retry_loop [hrel_intro]: "hrel hsb_later (retry_loop request check_reply retry seq to check)"
  by (rule hrelI) (simp add: retry_loop_later)

lemma hrel_next_sequence [hrel_intro]: "hrel hsb_later next_sequence"
  by (rule hrelI) (auto simp: next_sequence_def hsb_later_def)

lemma hrel_read_clock [hrel_intro]: "hrel hsb_later (on_link read_clock)"
  by (rule hrelI) (auto simp: on_link_def read_clock_def hsb_later_def)

lemma hrel_default_timeout [hrel_intro]: "hrel hsb_later (default_timeout to)"
  unfolding default_timeout_def
  by (cases to) (auto intro!: hrel_intro hsb_later_order)

lemma hrel_read_uint32_full [hrel_intro]: "hrel hsb_later (read_uint32_full address to check)"
  unfolding read_uint32_full_def
  by (intro hrel_intro hsb_later_order) (auto split: prod.splits outcome.splits intro!: hrel_intro hsb_later_order)

lemma hrel_read_uint32_to [hrel_intro]: "hrel hsb_later (read_uint32_to address to)"
  unfolding read_uint32_to_def by (intro hrel_intro hsb_later_order)

lemma read_uint32_to_expiry:
  assumes "read_uint32_to address (Some t) s = (Inr (v, t'), s')"
  shows "expiry t' = expiry t"
  using assms unfolding read_uint32_to_def read_uint32_full_def default_timeout_def
  by (auto elim!: hbind_cases simp: hret_def split: prod.splits outcome.splits dest!: retry_loop_later)

subsection \<open>Polling a register\<close>

text \<open>
  The loop with which the SPI and I2C drivers wait: read the register, stop when one of the bits
  is set, else ask the timeout whether to go on. (The inner read has retries of its own, from
  the same timeout.)
\<close>

function poll_register :: "u32 \<Rightarrow> u32 \<Rightarrow> timeout \<Rightarrow> 'd hsb \<Rightarrow> (hsb_error + u32 \<times> timeout) \<times> 'd hsb" where
  "poll_register address bits to s =
     (case read_uint32_to address (Some to) s of
        (Inl e, s1) \<Rightarrow> (Inl e, s1)
      | (Inr (value, to1), s1) \<Rightarrow>
          if value AND bits \<noteq> 0 then (Inr (value, to1), s1)
          else (case do_retry to1 s1 of
                  ((False, to2), s2) \<Rightarrow> (Inl (Transaction_error ''bad read response''), s2)
                | ((True, to2), s2) \<Rightarrow> poll_register address bits to2 s2))"
  by pat_completeness auto

lemma poll_register_measure:
  assumes "read_uint32_to address (Some to) s = (Inr (v, to1), s1)" and "do_retry to1 s1 = ((True, to2), s2)"
  shows "clock (link s) < expiry to \<and> expiry to2 - clock (link s2) < expiry to - clock (link s)"
  using read_uint32_to_expiry [OF assms(1)] do_retry_True [OF assms(2)]
    hrelD [OF hrel_read_uint32_to assms(1)]
  by (auto simp: hsb_later_def later_def)

termination poll_register
  by (relation "measure (\<lambda>(_, _, to, s). nat (expiry to - clock (link s)))")
    (auto dest: poll_register_measure dest!: sym [where s = "(_, _)" and t = "read_uint32_to _ _ _"]
       sym [where s = "(_, _)" and t = "do_retry _ _"])

declare poll_register.simps [simp del]

end
