(* ===== verification/Control_Requests.thy ===== *)
theory Control_Requests
  imports Hololink_Control
begin

text \<open>
  What goes over the wire: the requests of \<open>Hololink_Control\<close> as exact byte strings, with the
  limits of the control packet, and what the host makes of a reply, as byte strings too. The
  proofs of the end-to-end properties use these facts and not the serializer any more.
\<close>

subsection \<open>The layout of requests and replies\<close>

definition header_bytes :: "u8 \<Rightarrow> u8 \<Rightarrow> u16 \<Rightarrow> bytes" where
  "header_bytes cmd flags seq = [cmd, flags] @ be_bytes 2 seq @ [0, 0]"

definition pair_bytes :: "u32 \<times> u32 \<Rightarrow> bytes" where
  "pair_bytes av = be_bytes 4 (fst av) @ be_bytes 4 (snd av)"

definition pairs_bytes :: "(u32 \<times> u32) list \<Rightarrow> bytes" where
  "pairs_bytes avs = concat (map pair_bytes avs)"

text \<open>A reply with this sequence number and response code, and then \<open>rest\<close>.\<close>

definition reply_head :: "bytes \<Rightarrow> u16 \<Rightarrow> u8 \<Rightarrow> bytes \<Rightarrow> bool" where
  "reply_head reply seq code rest \<longleftrightarrow>
     (\<exists>b1 b2. reply = [b1, b2] @ be_bytes 2 seq @ [code] @ rest \<and> length reply \<le> CONTROL_PACKET_SIZE)"

text \<open>A reply with a payload, and at least the two bytes of the latched sequence after it.\<close>

definition reply_to :: "bytes \<Rightarrow> u16 \<Rightarrow> u8 \<Rightarrow> bytes \<Rightarrow> bool" where
  "reply_to reply seq code payload \<longleftrightarrow>
     (\<exists>b tail. reply_head reply seq code ([b] @ payload @ tail) \<and> 2 \<le> length tail)"

lemma length_header_bytes [simp]: "length (header_bytes cmd flags seq) = 6"
  by (simp add: header_bytes_def)

lemma length_pair_bytes [simp]: "length (pair_bytes av) = 8"
  by (simp add: pair_bytes_def)

lemma length_pairs_bytes [simp]: "length (pairs_bytes avs) = 8 * length avs"
  by (induction avs) (simp_all add: pairs_bytes_def)

lemma pairs_bytes_simps [simp]:
  "pairs_bytes [] = []"
  "pairs_bytes (av # avs) = pair_bytes av @ pairs_bytes avs"
  by (simp_all add: pairs_bytes_def)

lemma be_bytes_1: "be_bytes 1 v = [byte_at 0 v]"
  by (simp add: enc_be)

lemma byte_at_0_u8 [simp]: "byte_at 0 (b :: u8) = b"
  by (intro bit_word_eqI) (simp add: bit_byte_at)

lemma be_bytes_1_u8 [simp]: "be_bytes 1 (b :: u8) = [b]" "be_bytes (Suc 0) (b :: u8) = [b]"
  by simp_all

subsection \<open>Requests are these bytes\<close>

lemma serialize_header_written:
  obtains s where "serialize_header cmd flags seq = Some s" "s_ok s"
    "written s = header_bytes cmd flags seq" "room s = 1466"
proof -
  let ?s0 = "new_serializer (replicate CONTROL_PACKET_SIZE 0) CONTROL_PACKET_SIZE"
  have s0: "s_ok ?s0" "room ?s0 = 1472" by (simp_all add: CONTROL_PACKET_SIZE_def)
  obtain s1 where s1: "append_uint8 ?s0 cmd = Some s1" "s_ok s1" "written s1 = [cmd]" "room s1 = 1471"
    using w8.put_room [OF s0(1), of cmd] s0(2) by auto
  obtain s2 where s2: "append_uint8 s1 flags = Some s2" "s_ok s2" "written s2 = [cmd, flags]" "room s2 = 1470"
    using w8.put_room [OF s1(2), of flags] s1 by auto
  obtain s3 where s3: "append_uint16_be s2 seq = Some s3" "s_ok s3"
      "written s3 = [cmd, flags] @ be_bytes 2 seq" "room s3 = 1468"
    using w16be.put_room [OF s2(2), of seq] s2 by auto
  obtain s4 where s4: "append_uint8 s3 0 = Some s4" "s_ok s4"
      "written s4 = [cmd, flags] @ be_bytes 2 seq @ [0]" "room s4 = 1467"
    using w8.put_room [OF s3(2), of 0] s3 by auto
  obtain s5 where s5: "append_uint8 s4 0 = Some s5" "s_ok s5"
      "written s5 = header_bytes cmd flags seq" "room s5 = 1466"
    using w8.put_room [OF s4(2), of 0] s4 by (auto simp: header_bytes_def)
  show thesis
    by (rule that [of s5]) (simp_all add: serialize_header_def s1 s2 s3 s4 s5)
qed

lemma finish_written: "s_ok s \<Longrightarrow> finish_request (Some s) = Inr (written s)"
  by (simp add: finish_request_def written_def s_length_def s_ok_def)

lemma put_pair_room:
  assumes "s_ok s" and "8 \<le> room s"
  obtains s' where "put_pair append_uint32_be append_uint32_be s av = Some s'" "s_ok s'"
    "written s' = written s @ pair_bytes av" "room s' = room s - 8"
  using addr_value.pair.put_room [of s av] assms by (auto simp: pair_bytes_def)

lemma append_write_data_room:
  "s_ok s \<Longrightarrow> 8 * length avs \<le> room s \<Longrightarrow> \<forall>a \<in> fst ` set avs. \<not> misaligned a \<Longrightarrow>
   \<exists>s'. append_write_data s avs = Inr s' \<and> s_ok s' \<and> written s' = written s @ pairs_bytes avs"
proof (induction avs arbitrary: s)
  case Nil
  then show ?case by simp
next
  case (Cons av avs)
  from Cons.prems have "8 \<le> room s" by simp
  with Cons.prems obtain t where t: "put_pair append_uint32_be append_uint32_be s av = Some t"
      "s_ok t" "written t = written s @ pair_bytes av" "room t = room s - 8"
    using put_pair_room by metis
  with Cons.IH [OF t(2)] Cons.prems show ?case
    by (cases av) (auto simp: put_pair_def)
qed

lemma append_write_data_full:
  "s_ok s \<Longrightarrow> room s < 8 * length avs \<Longrightarrow> \<exists>e. append_write_data s avs = Inl e"
proof (induction avs arbitrary: s)
  case Nil
  then show ?case by simp
next
  case (Cons av avs)
  show ?case
  proof (cases "8 \<le> room s")
    case True
    with Cons.prems obtain t where t: "put_pair append_uint32_be append_uint32_be s av = Some t"
        "s_ok t" "room t = room s - 8"
      using put_pair_room by metis
    with True Cons show ?thesis by (cases av) (auto simp: put_pair_def)
  next
    case False
    with Cons.prems addr_value.pair.put_full [of s av] show ?thesis
      by (cases av) (auto simp: put_pair_def)
  qed
qed

lemma append_write_data_misaligned:
  "\<exists>a \<in> fst ` set avs. misaligned a \<Longrightarrow> \<exists>e. append_write_data s avs = Inl e"
proof (induction avs arbitrary: s)
  case Nil
  then show ?case by simp
next
  case (Cons av avs)
  then show ?case by (cases av) (auto split: option.splits)
qed

text \<open>A block write is a datagram of \<open>6 + 8 n\<close> bytes, for at most 183 aligned addresses.\<close>

lemma write_block_request_ok:
  assumes "length avs \<le> 183" and "\<forall>a \<in> fst ` set avs. \<not> misaligned a"
  shows "write_block_request avs seq check =
    Inr (header_bytes WR_BLOCK (request_flags check) seq @ pairs_bytes avs)"
proof -
  obtain s where s: "serialize_header WR_BLOCK (request_flags check) seq = Some s" "s_ok s"
      "written s = header_bytes WR_BLOCK (request_flags check) seq" "room s = 1466"
    by (rule serialize_header_written)
  with append_write_data_room [of s avs] assms show ?thesis
    by (auto simp: write_block_request_def finish_written)
qed

lemma write_block_request_bad:
  assumes "183 < length avs \<or> (\<exists>a \<in> fst ` set avs. misaligned a)"
  shows "\<exists>e. write_block_request avs seq check = Inl e"
proof -
  obtain s where s: "serialize_header WR_BLOCK (request_flags check) seq = Some s" "s_ok s"
      "room s = 1466"
    by (rule serialize_header_written)
  with append_write_data_full [of s avs] append_write_data_misaligned [of avs s] assms
  have "\<exists>e. append_write_data s avs = Inl e" by auto
  with s show ?thesis by (auto simp: write_block_request_def)
qed

lemma write_dword_request_ok:
  assumes "\<not> misaligned address"
  shows "write_dword_request address value seq check =
    Inr (header_bytes WR_DWORD (request_flags check) seq @ pairs_bytes [(address, value)])"
proof -
  obtain s where s: "serialize_header WR_DWORD (request_flags check) seq = Some s" "s_ok s"
      "written s = header_bytes WR_DWORD (request_flags check) seq" "room s = 1466"
    by (rule serialize_header_written)
  obtain t where "put_pair append_uint32_be append_uint32_be s (address, value) = Some t" "s_ok t"
      "written t = written s @ pair_bytes (address, value)"
    using put_pair_room [of s "(address, value)"] s by auto
  with s assms show ?thesis
    by (simp add: write_dword_request_def put_pair_def finish_written)
qed

lemma read_dword_request_ok:
  assumes "\<not> misaligned address"
  shows "read_dword_request address seq check =
    Inr (header_bytes RD_DWORD (request_flags check) seq @ be_bytes 4 address)"
proof -
  obtain s where s: "serialize_header RD_DWORD (request_flags check) seq = Some s" "s_ok s"
      "written s = header_bytes RD_DWORD (request_flags check) seq" "room s = 1466"
    by (rule serialize_header_written)
  obtain t where "append_uint32_be s address = Some t" "s_ok t"
      "written t = written s @ be_bytes 4 address"
    using w32be.put_room [of s address] s by auto
  with s assms show ?thesis by (simp add: read_dword_request_def finish_written)
qed

lemma length_block_addresses [simp]: "length (block_addresses address count) = count"
  by (simp add: block_addresses_def)

lemma read_block_request_ok:
  assumes "count \<le> 183"
  shows "read_block_request address count seq check =
    Inr (header_bytes RD_BLOCK (request_flags check) seq @
         pairs_bytes (map (\<lambda>a. (a, 0)) (block_addresses address count)))"
proof -
  obtain s where s: "serialize_header RD_BLOCK (request_flags check) seq = Some s" "s_ok s"
      "written s = header_bytes RD_BLOCK (request_flags check) seq" "room s = 1466"
    by (rule serialize_header_written)
  let ?avs = "map (\<lambda>a. (a, 0 :: u32)) (block_addresses address count)"
  obtain t where "put_all (put_pair append_uint32_be append_uint32_be) s ?avs = Some t" "s_ok t"
      "written t = written s @ pairs_bytes ?avs"
    using addr_value.pair.put_all_room [of s ?avs] s assms
    by (auto simp: pairs_bytes_def pair_bytes_def [abs_def])
  with s show ?thesis by (simp add: read_block_request_def finish_written)
qed

lemma read_block_request_bad:
  assumes "183 < count"
  shows "read_block_request address count seq check = Inl serialize_error"
proof -
  obtain s where s: "serialize_header RD_BLOCK (request_flags check) seq = Some s" "s_ok s"
      "room s = 1466"
    by (rule serialize_header_written)
  with addr_value.pair.put_all_full [of s "map (\<lambda>a. (a, 0)) (block_addresses address count)"] assms
  show ?thesis by (simp add: read_block_request_def finish_request_def)
qed

subsection \<open>Replies as the host reads them\<close>

lemma parse_header_bytes:
  assumes "reply = [b1, b2] @ be_bytes 2 seq @ [code] @ rest" and "length reply < 2 ^ 32"
  obtains d where "parse_reply_header reply = Some (seq, code, d)" "d_ok d" "unread d = rest"
proof -
  let ?d0 = "new_deserializer reply (length reply)"
  have d0: "d_ok ?d0" "unread ?d0 = be_bytes 1 b1 @ b2 # be_bytes 2 seq @ code # rest"
    using assms by simp_all
  obtain d1 where d1: "next_uint8 ?d0 = Some (b1, d1)" "d_ok d1"
      "unread d1 = be_bytes 1 b2 @ be_bytes 2 seq @ code # rest"
    using w8.get_enc [OF d0] by auto
  obtain d2 where d2: "next_uint8 d1 = Some (b2, d2)" "d_ok d2"
      "unread d2 = be_bytes 2 seq @ code # rest"
    using w8.get_enc [OF d1(2,3)] by auto
  obtain d3 where d3: "next_uint16_be d2 = Some (seq, d3)" "d_ok d3"
      "unread d3 = be_bytes 1 code @ rest"
    using w16be.get_enc [OF d2(2,3)] by auto
  obtain d4 where d4: "next_uint8 d3 = Some (code, d4)" "d_ok d4" "unread d4 = rest"
    using w8.get_enc [OF d3(2,3)] by auto
  show thesis
    by (rule that [of d4]) (simp_all add: parse_reply_header_def d1 d2 d3 d4)
qed

lemma interpret_read_ok:
  assumes "d_ok d" and "unread d = [b] @ pair_bytes (address, value) @ tail" and "2 \<le> length tail"
  shows "interpret_read RESPONSE_SUCCESS d = Inr value"
proof -
  obtain d1 where d1: "next_uint8 d = Some (b, d1)" "d_ok d1"
      "unread d1 = be_bytes 4 address @ be_bytes 4 value @ tail"
    using w8.get_enc [of d b] assms by (auto simp: pair_bytes_def)
  obtain d2 where d2: "next_uint32_be d1 = Some (address, d2)" "d_ok d2"
      "unread d2 = be_bytes 4 value @ tail"
    using w32be.get_enc [OF d1(2,3)] by auto
  obtain d3 where d3: "next_uint32_be d2 = Some (value, d3)" "d_ok d3" "unread d3 = tail"
    using w32be.get_enc [OF d2(2,3)] by auto
  have "be_bytes 2 (be_word (take 2 tail) :: u16) = take 2 tail"
    using assms(3) by (intro be_bytes_be_word) simp_all
  then have "unread d3 = be_bytes 2 (be_word (take 2 tail) :: u16) @ drop 2 tail"
    using d3(3) by simp
  then obtain d4 q where "next_uint16_be d3 = Some (q, d4)"
    using w16be.get_enc [OF d3(2)] by blast
  with d1 d2 d3 show ?thesis by (simp add: interpret_read_def)
qed

lemma interpret_block_values_ok:
  "d_ok d \<Longrightarrow> unread d = pairs_bytes avs @ tail \<Longrightarrow>
   \<exists>d'. interpret_block_values (map fst avs) d = Inr (map snd avs, d') \<and> d_ok d' \<and> unread d' = tail"
proof (induction avs arbitrary: d)
  case Nil
  then show ?case by simp
next
  case (Cons av avs)
  then obtain d1 where d1: "get_pair next_uint32_be next_uint32_be d = Some (av, d1)" "d_ok d1"
      "unread d1 = pairs_bytes avs @ tail"
    using addr_value.pair.get_enc [of d av "pairs_bytes avs @ tail"] by (auto simp: pair_bytes_def)
  with Cons.IH [OF d1(2,3)] show ?case by (cases av) auto
qed

lemma interpret_block_ok:
  assumes "d_ok d" and "unread d = [b] @ pairs_bytes avs @ tail" and "2 \<le> length tail"
  shows "interpret_block (map fst avs) RESPONSE_SUCCESS d = Inr (map snd avs)"
proof -
  obtain d1 where d1: "next_uint8 d = Some (b, d1)" "d_ok d1" "unread d1 = pairs_bytes avs @ tail"
    using w8.get_enc [of d b] assms by auto
  obtain d2 where d2: "interpret_block_values (map fst avs) d1 = Inr (map snd avs, d2)" "d_ok d2"
      "unread d2 = tail"
    using interpret_block_values_ok [OF d1(2,3)] by auto
  have "be_bytes 2 (be_word (take 2 tail) :: u16) = take 2 tail"
    using assms(3) by (intro be_bytes_be_word) simp_all
  then have "unread d2 = be_bytes 2 (be_word (take 2 tail) :: u16) @ drop 2 tail"
    using d2(3) by simp
  then obtain d3 q where "next_uint16_be d2 = Some (q, d3)"
    using w16be.get_enc [OF d2(2)] by blast
  with d1 d2 show ?thesis by (simp add: interpret_block_def)
qed

text \<open>Without room for the latched sequence a block reply is malformed.\<close>

lemma interpret_block_short:
  assumes "d_ok d" and "unread d = [b] @ pairs_bytes avs @ tail" and "length tail < 2"
  shows "interpret_block (map fst avs) RESPONSE_SUCCESS d = Inl (Transaction_error ''malformed response'')"
proof -
  obtain d1 where d1: "next_uint8 d = Some (b, d1)" "d_ok d1" "unread d1 = pairs_bytes avs @ tail"
    using w8.get_enc [of d b] assms by auto
  obtain d2 where d2: "interpret_block_values (map fst avs) d1 = Inr (map snd avs, d2)" "d_ok d2"
      "unread d2 = tail"
    using interpret_block_values_ok [OF d1(2,3)] by auto
  have "next_uint16_be d2 = None"
    using w16be.get_short [OF d2(2)] d2(3) assms(3) by simp
  with d1 d2 show ?thesis by (simp add: interpret_block_def)
qed

text \<open>More than 183 pairs in one packet throw, and nothing is sent.\<close>

lemma write_data_default_full:
  assumes "183 < length avs" and "block_enable (host s)"
  shows "\<exists>e s'. write_data_default avs None retry s = (Inl e, s') \<and> device (link s') = device (link s)"
proof -
  obtain e where "write_block_request avs (hl_sequence (host s)) (sequence_number_checking (host s)) = Inl e"
    using assms(1) write_block_request_bad by blast
  moreover have "avs \<noteq> []" using assms(1) by auto
  ultimately show ?thesis using assms(2)
    by (auto simp: write_data_default_def write_data_def write_block_def default_timeout_def on_link_def
        read_clock_def clock_tick_def next_sequence_def retry_loop.simps [of "write_block_request _ _"]
        attempt_def hbind_def)
qed

end
