(* ===== verification/Device_Contract.thy ===== *)
theory Device_Contract
  imports Control_Requests
begin

text \<open>
  What the host relies on in a board at the other end of the control socket, as the locale
  \<open>register_device\<close>, and what the methods of \<open>Hololink\<close> then do, proved once: on a link at
  rest, a write changes exactly the registers it names and a read returns them. The drivers
  (GPIO, UART, SPI, I2C, events) rest on the rules of this theory, which speak of registers
  and not of datagrams any more. The locale is interpreted on the emulator in
  \<open>Emulator_Link\<close>.
\<close>

subsection \<open>Total-correctness triples for methods\<close>

definition runs :: "('s \<Rightarrow> bool) \<Rightarrow> ('s, 'a) hm \<Rightarrow> ('a \<Rightarrow> 's \<Rightarrow> bool) \<Rightarrow> bool" where
  "runs P m Q \<longleftrightarrow> (\<forall>s. P s \<longrightarrow> (\<exists>x s'. m s = (Inr x, s') \<and> Q x s'))"

lemma runsD: "runs P m Q \<Longrightarrow> P s \<Longrightarrow> \<exists>x s'. m s = (Inr x, s') \<and> Q x s'"
  by (simp add: runs_def)

lemma runsI: "(\<And>s. P s \<Longrightarrow> \<exists>x s'. m s = (Inr x, s') \<and> Q x s') \<Longrightarrow> runs P m Q"
  by (simp add: runs_def)

lemma runs_hbind: "runs P m R \<Longrightarrow> (\<And>x. runs (R x) (f x) Q) \<Longrightarrow> runs P (hbind m f) Q"
  unfolding runs_def by (metis hbind_Inr)

lemma runs_hthen: "runs P m (\<lambda>_. R) \<Longrightarrow> runs R k Q \<Longrightarrow> runs P (hthen m k) Q"
  unfolding hthen_def by (rule runs_hbind)

lemma runs_hret: "runs (Q x) (hret x) Q"
  by (simp add: runs_def)

lemma runs_pre: "runs P' m Q \<Longrightarrow> (\<And>s. P s \<Longrightarrow> P' s) \<Longrightarrow> runs P m Q"
  by (simp add: runs_def)

lemma runs_post: "runs P m Q' \<Longrightarrow> (\<And>x s. Q' x s \<Longrightarrow> Q x s) \<Longrightarrow> runs P m Q"
  unfolding runs_def by blast

lemma runs_conseq:
  "runs P' m Q' \<Longrightarrow> (\<And>s. P s \<Longrightarrow> P' s) \<Longrightarrow> (\<And>x s. Q' x s \<Longrightarrow> Q x s) \<Longrightarrow> runs P m Q"
  unfolding runs_def by blast

lemma runs_hbind_val: "runs P m (\<lambda>v s. v = x \<and> P' s) \<Longrightarrow> runs P' (f x) Q \<Longrightarrow> runs P (hbind m f) Q"
  unfolding runs_def by (metis hbind_Inr)

lemma runs_hret_conseq: "(\<And>s. P s \<Longrightarrow> Q x s) \<Longrightarrow> runs P (hret x) Q"
  by (simp add: runs_def)

lemma runs_assume: "(b \<Longrightarrow> runs P m Q) \<Longrightarrow> runs (\<lambda>s. b \<and> P s) m Q"
  by (simp add: runs_def)

subsection \<open>Effects of writes\<close>

text \<open>The updates that a list of writes makes, given those that each of them makes.\<close>

definition effects :: "(u32 \<times> u32 \<Rightarrow> (u32 \<times> u32) list option) \<Rightarrow> (u32 \<times> u32) list \<Rightarrow> (u32 \<times> u32) list" where
  "effects eff avs = concat (map (\<lambda>av. the (eff av)) avs)"

lemma effects_simps [simp]:
  "effects eff [] = []"
  "effects eff (av # avs) = the (eff av) @ effects eff avs"
  "effects eff (avs @ bvs) = effects eff avs @ effects eff bvs"
  by (simp_all add: effects_def)

text \<open>Writes that are plain stores have themselves as their effects.\<close>

lemma effects_plain: "\<forall>av \<in> set avs. eff av = Some [av] \<Longrightarrow> effects eff avs = avs"
  by (induction avs) auto

subsection \<open>The contract\<close>

text \<open>
  \<open>dev_ok\<close> is the device's invariant, \<open>regs\<close> what its registers read as, \<open>readable\<close> the addresses
  whose reads change nothing, \<open>effect\<close> the registers that a write changes (\<open>None\<close> where the
  contract says nothing of it), \<open>expected\<close> the sequence number the device expects next,
  \<open>budget\<close> how many more words it lets the host read, \<open>latency\<close> the delay of its replies in
  nanoseconds.
\<close>

locale register_device =
  fixes step :: "'d \<Rightarrow> bytes \<Rightarrow> 'd \<times> (nat \<times> net_event) list"
    and dev_ok :: "'d \<Rightarrow> bool"
    and regs :: "'d \<Rightarrow> u32 \<Rightarrow> u32"
    and readable :: "u32 \<Rightarrow> bool"
    and effect :: "u32 \<times> u32 \<Rightarrow> (u32 \<times> u32) list option"
    and expected :: "'d \<Rightarrow> u16"
    and budget :: "'d \<Rightarrow> nat"
    and latency :: nat
  assumes latency_bound: "latency \<le> 90000000"
    and readable_aligned: "readable a \<Longrightarrow> \<not> misaligned a"
    and effect_aligned: "effect (a, v) \<noteq> None \<Longrightarrow> \<not> misaligned a"
    and write_law:
      "dev_ok d \<Longrightarrow> cmd = WR_DWORD \<or> cmd = WR_BLOCK \<Longrightarrow> avs \<noteq> [] \<Longrightarrow> length avs \<le> 183 \<Longrightarrow>
       \<forall>av \<in> set avs. effect av \<noteq> None \<Longrightarrow> (check \<Longrightarrow> seq = expected d) \<Longrightarrow>
       \<exists>d' reply. step d (header_bytes cmd (request_flags check) seq @ pairs_bytes avs) =
           (d', [(latency, Datagram reply)]) \<and>
         dev_ok d' \<and> regs d' = upds (regs d) (effects effect avs) \<and> expected d' = seq + 1 \<and> budget d \<le> budget d' \<and>
         (\<exists>rest. reply_head reply seq RESPONSE_SUCCESS rest)"
    and read_law:
      "dev_ok d \<Longrightarrow> readable a \<Longrightarrow> 1 \<le> budget d \<Longrightarrow> (check \<Longrightarrow> seq = expected d) \<Longrightarrow>
       \<exists>d' reply. step d (header_bytes RD_DWORD (request_flags check) seq @ be_bytes 4 a) =
           (d', [(latency, Datagram reply)]) \<and>
         dev_ok d' \<and> regs d' = regs d \<and> expected d' = seq + 1 \<and> budget d \<le> budget d' + 1 \<and>
         reply_to reply seq RESPONSE_SUCCESS (pair_bytes (a, regs d a))"
    and read_block_law:
      "dev_ok d \<Longrightarrow> as \<noteq> [] \<Longrightarrow> length as \<le> 182 \<Longrightarrow> length as \<le> budget d \<Longrightarrow>
       \<forall>a \<in> set as. readable a \<Longrightarrow> (check \<Longrightarrow> seq = expected d) \<Longrightarrow>
       \<exists>d' reply. step d (header_bytes RD_BLOCK (request_flags check) seq @
             pairs_bytes (map (\<lambda>a. (a, 0)) as)) = (d', [(latency, Datagram reply)]) \<and>
         dev_ok d' \<and> regs d' = regs d \<and> expected d' = seq + 1 \<and> budget d \<le> budget d' + length as \<and>
         reply_to reply seq RESPONSE_SUCCESS (pairs_bytes (map (\<lambda>a. (a, regs d a)) as))"
    and sequence_law:
      "dev_ok d \<Longrightarrow> seq \<noteq> expected d \<Longrightarrow>
       request = header_bytes cmd (request_flags True) seq @ rest \<Longrightarrow> 4 \<le> length rest \<Longrightarrow>
       length request \<le> CONTROL_PACKET_SIZE \<Longrightarrow>
       \<exists>reply code. step d request = (d, [(latency, Datagram reply)]) \<and>
         code \<noteq> RESPONSE_SUCCESS \<and> (\<exists>rest. reply_head reply seq code rest)"

text \<open>A link on which nothing is under way and nothing goes wrong.\<close>

definition at_rest :: "'d link \<Rightarrow> bool" where
  "at_rest l \<longleftrightarrow> lags l = [] \<and> inflight l = [] \<and> peer_valid l \<and> send_faults l = []"

text \<open>
  The host with its registers \<open>R\<close> on the board: the link is at rest, the sequence numbers of
  both ends agree, at least \<open>n\<close> more words may be read, and the host's members are those of
  \<open>h\<close> (up to the sequence number).
\<close>

definition connected ::
  "('d \<Rightarrow> bytes \<Rightarrow> 'd \<times> (nat \<times> net_event) list) \<Rightarrow> ('d \<Rightarrow> bool) \<Rightarrow> ('d \<Rightarrow> u32 \<Rightarrow> u32) \<Rightarrow> ('d \<Rightarrow> u16) \<Rightarrow>
   ('d \<Rightarrow> nat) \<Rightarrow> (u32 \<Rightarrow> u32) \<Rightarrow> nat \<Rightarrow> hololink \<Rightarrow> 'd hsb \<Rightarrow> bool"
where
  "connected step dev_ok regs expected budget R n h s \<longleftrightarrow>
     at_rest (link s) \<and> respond (link s) = step \<and> dev_ok (device (link s)) \<and>
     regs (device (link s)) = R \<and> expected (device (link s)) = hl_sequence (host s) \<and>
     n \<le> budget (device (link s)) \<and> host s = h\<lparr>hl_sequence := hl_sequence (host s)\<rparr>"

text \<open>One exchange with a device that answers at once.\<close>

lemma execute_answered:
  assumes "at_rest l" and "respond l (device l) request = (d', [(delay, Datagram reply)])"
    and "parse_reply_header reply = Some (seq, code, d)" and "length reply \<le> CONTROL_PACKET_SIZE"
    and "clock l + int delay + 2000 \<le> deadline t"
  shows "\<exists>c. execute seq request (Some t) l =
      (Inr (Some (code, d)), l\<lparr>clock := c, device := d', inflight := []\<rparr>) \<and>
      clock l \<le> c \<and> c \<le> clock l + int delay + 4"
proof -
  have ne: "reply \<noteq> []"
  proof
    assume "reply = []"
    then have "parse_reply_header reply = None"
      by (simp add: parse_reply_header_def w8.get_short)
    with assms(3) show False by simp
  qed
  let ?l1 = "l\<lparr>clock := clock l + 1, device := d',
      inflight := [(clock l + 1 + int delay, Datagram reply)]\<rparr>"
  let ?c = "max (clock l + 3) (clock l + 1 + int delay)"
  have send: "send_control request (clock_tick l) = (Inr (), ?l1)"
    using assms(1,2) by (simp add: send_control_def at_rest_def deliver_def clock_tick_def first_or_def)
  have recv: "receive_control (Some t) ?l1 =
      (Inr (take UDP_PACKET_SIZE reply), ?l1\<lparr>clock := ?c, inflight := []\<rparr>)"
    using assms ne
    by (subst receive_control_ready [where at = "clock l + 1 + int delay" and bs = reply and rest = "[]"])
      (simp_all add: at_rest_def)
  have small: "take UDP_PACKET_SIZE reply = reply"
    using assms(4) by (simp add: UDP_PACKET_SIZE_def CONTROL_PACKET_SIZE_def)
  have "await_reply seq (Some t) ?l1 =
      (Inr (Some (code, d)), clock_tick (?l1\<lparr>clock := ?c, inflight := []\<rparr>))"
    using recv small ne assms(3) by (simp add: await_reply.simps [of seq "Some t" ?l1] Let_def)
  moreover have "clock_tick (?l1\<lparr>clock := ?c, inflight := []\<rparr>) =
      l\<lparr>clock := ?c + 1, device := d', inflight := []\<rparr>"
    using assms(1) by (simp add: clock_tick_def at_rest_def first_or_def)
  ultimately show ?thesis using send
    by (intro exI [of _ "?c + 1"]) (simp add: execute_def)
qed

context register_device
begin

abbreviation "st \<equiv> connected step dev_ok regs expected budget"

lemma reply_parsed:
  assumes "reply_head reply seq code rest"
  obtains d where "parse_reply_header reply = Some (seq, code, d)" "d_ok d" "unread d = rest"
    "length reply \<le> CONTROL_PACKET_SIZE"
proof -
  from assms obtain b1 b2 where r: "reply = [b1, b2] @ be_bytes 2 seq @ [code] @ rest"
      "length reply \<le> CONTROL_PACKET_SIZE"
    by (auto simp: reply_head_def)
  then have "length reply < 2 ^ 32" by (simp add: CONTROL_PACKET_SIZE_def)
  with r show thesis by (rule_tac parse_header_bytes [of reply]) (auto intro: that)
qed

lemma retry_loop_answered:
  assumes "attempt (request check) interpret seq t s = (Inr (Some x), s')"
  shows "retry_loop request interpret retry seq t check s = (Inr (Done x, t, check), s')"
  by (simp add: retry_loop.simps assms)

text \<open>There is time enough for \<open>k\<close> exchanges before the deadline.\<close>

definition in_time :: "timeout option \<Rightarrow> nat \<Rightarrow> int \<Rightarrow> bool" where
  "in_time to k c \<longleftrightarrow>
     (case to of
        None \<Rightarrow> int k * (int latency + 10) + 3000 \<le> DEFAULT_RETRY_NS
      | Some t \<Rightarrow> c + int k * (int latency + 10) + 3000 \<le> deadline t)"

lemma in_time_1: "in_time None 1 c"
  using latency_bound by (simp add: in_time_def DEFAULT_RETRY_NS_def)

lemma st_clock: "st R n h s \<Longrightarrow> link s' = (link s)\<lparr>clock := c\<rparr> \<Longrightarrow> host s' = host s \<Longrightarrow> st R n h s'"
  by (simp add: connected_def at_rest_def)

lemma read_clock_run:
  assumes "st R n h s"
  shows "on_link read_clock s = (Inr (clock (link s) + 1), s\<lparr>link := (link s)\<lparr>clock := clock (link s) + 1\<rparr>\<rparr>)"
  using assms
  by (simp add: on_link_def read_clock_def clock_tick_def connected_def at_rest_def first_or_def)

lemma default_timeout_run:
  assumes "st R n h s" and "in_time to k (clock (link s))"
  obtains t s' where "default_timeout to s = (Inr t, s')" "st R n h s'" "host s' = host s"
    "in_time (Some t) k (clock (link s'))" "clock (link s') \<le> clock (link s) + 1"
    "to \<noteq> None \<Longrightarrow> to = Some t"
proof (cases to)
  case (Some t)
  with assms show ?thesis
    by (intro that [of t s]) (auto simp: default_timeout_def)
next
  case None
  let ?s = "s\<lparr>link := (link s)\<lparr>clock := clock (link s) + 1\<rparr>\<rparr>"
  have "st R n h ?s" by (rule st_clock [OF assms(1)]) simp_all
  then show ?thesis using None assms(2)
    by (intro that [of "make_timeout (clock (link s) + 1) DEFAULT_TIMEOUT_NS DEFAULT_RETRY_NS" ?s])
      (auto simp: default_timeout_def read_clock_run [OF assms(1)] make_timeout_def in_time_def
        DEFAULT_RETRY_NS_def)
qed

lemma st_host:
  assumes "st R n h s"
  obtains q where "host s = h\<lparr>hl_sequence := q\<rparr>" "expected (device (link s)) = q"
  using assms unfolding connected_def by metis

text \<open>The members of \<open>Hololink\<close> other than the sequence number are those of \<open>h\<close>.\<close>

lemma st_members:
  assumes "st R n h s"
  shows "block_enable (host s) = block_enable h" "ptp_enable (host s) = ptp_enable h"
    "skip_sequence_initialization (host s) = skip_sequence_initialization h"
    "sequence_number_checking (host s) = sequence_number_checking h"
    "rising_cache (host s) = rising_cache h" "falling_cache (host s) = falling_cache h"
    "apb_interrupt_enable_cache (host s) = apb_interrupt_enable_cache h"
    "null_sequence_location (host s) = null_sequence_location h"
    "async_event_socket_port (host s) = async_event_socket_port h"
    "hsb_ip_version (host s) = hsb_ip_version h" "ptp_sync_stat (host s) = ptp_sync_stat h"
    "datecode (host s) = datecode h" "started (host s) = started h"
  by (rule st_host [OF assms], simp)+

lemma next_sequence_run:
  assumes "st R n h s"
  shows "next_sequence s =
     (Inr (expected (device (link s))), s\<lparr>host := h\<lparr>hl_sequence := expected (device (link s)) + 1\<rparr>\<rparr>)"
  by (rule st_host [OF assms]) (simp add: next_sequence_def)

lemma in_time_step:
  "in_time (Some t) (Suc k) c \<Longrightarrow> c' \<le> c + int latency + 4 \<Longrightarrow> in_time (Some t) k c'"
  by (simp add: in_time_def algebra_simps)

text \<open>
  An exchange after the sequence number was taken: the device does what \<open>step\<close> says, and the
  two ends agree again.
\<close>

lemma exchange_to:
  assumes s: "st R n h s" and time: "in_time (Some t) (Suc k) (clock (link s))"
    and req: "request check = Inr req"
    and dev: "step (device (link s)) req = (d', [(latency, Datagram reply)])"
    and post: "ok' d'" "regs d' = R'" "expected d' = expected (device (link s)) + 1"
      "n' \<le> budget d'"
    and reply: "reply_head reply (expected (device (link s))) RESPONSE_SUCCESS rest"
    and int: "\<And>d. d_ok d \<Longrightarrow> unread d = rest \<Longrightarrow> interp RESPONSE_SUCCESS d = Inr x"
  shows "\<exists>s'. retry_loop request interp retry (expected (device (link s))) t check
      (s\<lparr>host := h\<lparr>hl_sequence := expected (device (link s)) + 1\<rparr>\<rparr>) = (Inr (Done x, t, check), s') \<and>
    connected step ok' regs expected budget R' n' h s' \<and> device (link s') = d' \<and> in_time (Some t) k (clock (link s')) \<and>
    clock (link s') \<le> clock (link s) + int latency + 4"
proof -
  let ?seq = "expected (device (link s))"
  let ?s = "s\<lparr>host := h\<lparr>hl_sequence := ?seq + 1\<rparr>\<rparr>"
  obtain d where d: "parse_reply_header reply = Some (?seq, RESPONSE_SUCCESS, d)" "d_ok d"
      "unread d = rest" "length reply \<le> CONTROL_PACKET_SIZE"
    by (rule reply_parsed [OF reply])
  have rest: "at_rest (link s)" "respond (link s) = step" using s by (simp_all add: connected_def)
  have now: "clock (link s) + int latency + 2000 \<le> deadline t"
    using time by (simp add: in_time_def algebra_simps) (smt (verit) mult_nonneg_nonneg of_nat_0_le_iff)
  obtain c where c: "execute ?seq req (Some t) (link s) =
        (Inr (Some (RESPONSE_SUCCESS, d)), (link s)\<lparr>clock := c, device := d', inflight := []\<rparr>)"
      "c \<le> clock (link s) + int latency + 4"
    using execute_answered [of "link s" req d' latency reply ?seq RESPONSE_SUCCESS d t] rest dev d now by auto
  let ?l = "(link s)\<lparr>clock := c, device := d', inflight := []\<rparr>"
  have "attempt (request check) interp ?seq t ?s = (Inr (Some x), ?s\<lparr>link := ?l\<rparr>)"
    using c(1) int [OF d(2,3)] by (simp add: attempt_def on_link_def req)
  then have "retry_loop request interp retry ?seq t check ?s = (Inr (Done x, t, check), ?s\<lparr>link := ?l\<rparr>)"
    by (rule retry_loop_answered)
  moreover have "connected step ok' regs expected budget R' n' h (?s\<lparr>link := ?l\<rparr>)" "device (link (?s\<lparr>link := ?l\<rparr>)) = d'"
    using rest post by (simp_all add: connected_def at_rest_def)
  moreover have "in_time (Some t) k c"
    by (rule in_time_step [OF time c(2)])
  ultimately show ?thesis using c(2) by auto
qed

lemma exchange:
  assumes s: "st R n h s" and time: "in_time (Some t) (Suc k) (clock (link s))"
    and req: "request check = Inr req"
    and dev: "step (device (link s)) req = (d', [(latency, Datagram reply)])"
    and post: "dev_ok d'" "regs d' = R'" "expected d' = expected (device (link s)) + 1"
      "n' \<le> budget d'"
    and reply: "reply_head reply (expected (device (link s))) RESPONSE_SUCCESS rest"
    and int: "\<And>d. d_ok d \<Longrightarrow> unread d = rest \<Longrightarrow> interpret RESPONSE_SUCCESS d = Inr x"
  shows "\<exists>s'. retry_loop request interpret retry (expected (device (link s))) t check
      (s\<lparr>host := h\<lparr>hl_sequence := expected (device (link s)) + 1\<rparr>\<rparr>) = (Inr (Done x, t, check), s') \<and>
    st R' n' h s' \<and> in_time (Some t) k (clock (link s')) \<and>
    clock (link s') \<le> clock (link s) + int latency + 4"
  using exchange_to [where request = request and check = check and ok' = dev_ok and
      interp = "interpret" and x = x, OF s time req dev post reply int] by blast

subsection \<open>Writes\<close>

lemma write_block_run:
  assumes s: "st R n h s" and time: "in_time (Some t) (Suc k) (clock (link s))"
    and avs: "avs \<noteq> []" "length avs \<le> 183" "\<forall>av \<in> set avs. effect av \<noteq> None"
  shows "\<exists>s'. write_block avs t retry check s = (Inr (True, t), s') \<and> st (upds R (effects effect avs)) n h s' \<and>
    in_time (Some t) k (clock (link s')) \<and> clock (link s') \<le> clock (link s) + int latency + 4"
proof -
  let ?seq = "expected (device (link s))"
  have al: "\<forall>a \<in> fst ` set avs. \<not> misaligned a" using avs effect_aligned by fastforce
  have ok: "dev_ok (device (link s))" "regs (device (link s)) = R" "n \<le> budget (device (link s))"
    using s by (simp_all add: connected_def)
  obtain d' reply rest where d: "step (device (link s))
        (header_bytes WR_BLOCK (request_flags check) ?seq @ pairs_bytes avs) = (d', [(latency, Datagram reply)])"
      "dev_ok d'" "regs d' = upds R (effects effect avs)" "expected d' = ?seq + 1" "n \<le> budget d'"
      "reply_head reply ?seq RESPONSE_SUCCESS rest"
    using write_law [OF ok(1) _ avs, of WR_BLOCK check ?seq] ok by auto
  obtain s' where "retry_loop (write_block_request avs ?seq) interpret_write retry ?seq t check
        (s\<lparr>host := h\<lparr>hl_sequence := ?seq + 1\<rparr>\<rparr>) = (Inr (Done (), t, check), s')"
      "st (upds R (effects effect avs)) n h s'" "in_time (Some t) k (clock (link s'))"
      "clock (link s') \<le> clock (link s) + int latency + 4"
    using exchange [OF s time _ d(1-6), of "write_block_request avs ?seq" check interpret_write "()" retry]
      write_block_request_ok [OF avs(2) al]
    by (auto simp: interpret_write_def)
  then show ?thesis using avs(1)
    by (simp add: write_block_def next_sequence_run [OF s] hbind_def)
qed

lemma write_singly_run:
  "st R n h s \<Longrightarrow> in_time (Some t) (length avs + k) (clock (link s)) \<Longrightarrow>
   \<forall>av \<in> set avs. effect av \<noteq> None \<Longrightarrow>
   \<exists>s'. write_singly avs t retry check s = (Inr (True, t), s') \<and> st (upds R (effects effect avs)) n h s' \<and>
     in_time (Some t) k (clock (link s'))"
proof (induction avs arbitrary: R s)
  case Nil
  then show ?case by simp
next
  case (Cons av avs)
  obtain a v where av: "av = (a, v)" by force
  let ?seq = "expected (device (link s))"
  obtain us where us: "effect (a, v) = Some us" using Cons.prems by (auto simp: av)
  then have al: "\<not> misaligned a" using effect_aligned [of a v] by simp
  have ok: "dev_ok (device (link s))" "regs (device (link s)) = R" "n \<le> budget (device (link s))"
    using Cons.prems by (simp_all add: connected_def)
  obtain d' reply rest where d: "step (device (link s))
        (header_bytes WR_DWORD (request_flags check) ?seq @ pairs_bytes [(a, v)]) = (d', [(latency, Datagram reply)])"
      "dev_ok d'" "regs d' = upds R us" "expected d' = ?seq + 1" "n \<le> budget d'"
      "reply_head reply ?seq RESPONSE_SUCCESS rest"
    using write_law [OF ok(1), of WR_DWORD "[(a, v)]" check ?seq] ok us by fastforce
  have time: "in_time (Some t) (Suc (length avs + k)) (clock (link s))" using Cons.prems by simp
  obtain s' where s': "retry_loop (write_dword_request a v ?seq) interpret_write retry ?seq t check
        (s\<lparr>host := h\<lparr>hl_sequence := ?seq + 1\<rparr>\<rparr>) = (Inr (Done (), t, check), s')"
      "st (upds R us) n h s'" "in_time (Some t) (length avs + k) (clock (link s'))"
    using exchange [OF Cons.prems(1) time _ d(1-6), of "write_dword_request a v ?seq" check interpret_write "()" retry]
      write_dword_request_ok [OF al]
    by (auto simp: interpret_write_def)
  have "\<exists>s''. write_singly avs t retry check s' = (Inr (True, t), s'') \<and>
      st (upds (upds R us) (effects effect avs)) n h s'' \<and> in_time (Some t) k (clock (link s''))"
    using Cons.prems by (intro Cons.IH [OF s'(2,3)]) simp
  with s'(1) show ?case
    by (simp add: av us next_sequence_run [OF Cons.prems(1)] hbind_def)
qed

text \<open>\<open>write_data\<close> in either mode: every pair is written, in order.\<close>

lemma write_data_run:
  assumes s: "st R n h s"
    and time: "in_time to (if block_enable h then 1 else length avs) (clock (link s))"
    and avs: "avs \<noteq> []" "block_enable h \<Longrightarrow> length avs \<le> 183" "\<forall>av \<in> set avs. effect av \<noteq> None"
  shows "\<exists>t s'. write_data avs to retry check s = (Inr (True, t), s') \<and> st (upds R (effects effect avs)) n h s'"
proof -
  obtain t s1 where t: "default_timeout to s = (Inr t, s1)" "st R n h s1"
      "in_time (Some t) (if block_enable h then 1 else length avs) (clock (link s1))"
    using default_timeout_run [OF s time] by metis
  have block: "block_enable (host s1) = block_enable h"
    by (rule st_members [OF t(2)])
  show ?thesis
  proof (cases "block_enable h")
    case True
    with t(3) have "in_time (Some t) (Suc 0) (clock (link s1))" by simp
    from write_block_run [OF t(2) this avs(1) avs(2) [OF True] avs(3)] True block t(1)
    show ?thesis by (fastforce simp: write_data_def)
  next
    case False
    with t(3) have "in_time (Some t) (length avs + 0) (clock (link s1))" by simp
    from write_singly_run [OF t(2) this avs(3)] False block t(1)
    show ?thesis by (fastforce simp: write_data_def)
  qed
qed

text \<open>The rules the drivers use.\<close>

lemma write_data_default_rule:
  assumes "block_enable h" and "avs \<noteq> []" and "length avs \<le> 183" and "\<forall>av \<in> set avs. effect av \<noteq> None"
  shows "runs (st R n h) (write_data_default avs None retry)
    (\<lambda>r s. fst r \<and> st (upds R (effects effect avs)) n h s)"
proof (rule runsI)
  fix s
  assume "st R n h s"
  from write_data_run [OF this, of None avs] in_time_1 assms
  show "\<exists>x s'. write_data_default avs None retry s = (Inr x, s') \<and> fst x \<and>
      st (upds R (effects effect avs)) n h s'"
    by (fastforce simp: write_data_default_def)
qed

lemma write_uint32_rule:
  assumes "effect (a, v) = Some us"
  shows "runs (st R n h) (write_uint32 a v) (\<lambda>b s. b \<and> st (upds R us) n h s)"
proof (rule runsI)
  fix s
  assume s: "st R n h s"
  have "in_time None (if block_enable h then 1 else length [(a, v)]) (clock (link s))"
    using in_time_1 [of "clock (link s)"] by simp
  from write_data_run [OF s this, of True "sequence_number_checking (host s)"] assms
  obtain t s' where "write_data [(a, v)] None True (sequence_number_checking (host s)) s = (Inr (True, t), s')"
      "st (upds R us) n h s'"
    by auto
  then show "\<exists>x s'. write_uint32 a v s = (Inr x, s') \<and> x \<and> st (upds R us) n h s'"
    by (intro exI [of _ True] exI [of _ s'])
      (simp add: write_uint32_def write_uint32_to_def write_uint32_full_def hbind_def)
qed

subsection \<open>Reads\<close>

lemma read_exchange:
  assumes s: "st R (Suc n) h s" and time: "in_time (Some t) (Suc k) (clock (link s))" and a: "readable a"
  shows "\<exists>s'. retry_loop (read_dword_request a (expected (device (link s)))) interpret_read True
      (expected (device (link s))) t check
      (s\<lparr>host := h\<lparr>hl_sequence := expected (device (link s)) + 1\<rparr>\<rparr>) = (Inr (Done (R a), t, check), s') \<and>
    st R n h s' \<and> in_time (Some t) k (clock (link s')) \<and>
    clock (link s') \<le> clock (link s) + int latency + 4"
proof -
  let ?seq = "expected (device (link s))"
  have ok: "dev_ok (device (link s))" "regs (device (link s)) = R" "Suc n \<le> budget (device (link s))"
    using s by (simp_all add: connected_def)
  obtain d' reply b tail where d: "step (device (link s))
        (header_bytes RD_DWORD (request_flags check) ?seq @ be_bytes 4 a) = (d', [(latency, Datagram reply)])"
      "dev_ok d'" "regs d' = R" "expected d' = ?seq + 1" "n \<le> budget d'"
      "reply_head reply ?seq RESPONSE_SUCCESS ([b] @ pair_bytes (a, R a) @ tail)" "2 \<le> length tail"
    using read_law [OF ok(1) a, of check ?seq] ok by (fastforce simp: reply_to_def)
  show ?thesis
    by (rule exchange [OF s time _ d(1-6)])
      (use d(7) in \<open>auto simp: read_dword_request_ok [OF readable_aligned [OF a]] intro!: interpret_read_ok\<close>)
qed

lemma read_uint32_rule:
  assumes a: "readable a"
  shows "runs (st R (Suc n) h) (read_uint32 a) (\<lambda>v s. v = R a \<and> st R n h s)"
proof (rule runsI)
  fix s
  assume s: "st R (Suc n) h s"
  obtain t s1 where t: "default_timeout None s = (Inr t, s1)" "st R (Suc n) h s1"
      "in_time (Some t) (Suc 0) (clock (link s1))"
    using default_timeout_run [OF s in_time_1] by (metis One_nat_def)
  from read_exchange [OF t(2,3) a, of "sequence_number_checking (host s)"] t(1)
  show "\<exists>x s'. read_uint32 a s = (Inr x, s') \<and> x = R a \<and> st R n h s'"
    by (fastforce simp: read_uint32_def read_uint32_to_def read_uint32_full_def
        next_sequence_run [OF t(2)] hbind_def)
qed

text \<open>A block read returns the words at consecutive addresses, in order.\<close>

lemma read_block_run:
  assumes s: "st R (unat count + n) h s" and time: "in_time (Some t) (Suc k) (clock (link s))"
    and as: "\<forall>a \<in> set (block_addresses address (unat count)). readable a"
    and count: "0 < unat count" "unat count \<le> 182" and aligned: "\<not> misaligned address"
  shows "\<exists>s'. read_block address count t check s =
      (Inr ((True, map R (block_addresses address (unat count))), t), s') \<and> st R n h s' \<and>
      in_time (Some t) k (clock (link s'))"
proof -
  let ?seq = "expected (device (link s))" and ?as = "block_addresses address (unat count)"
  have ok: "dev_ok (device (link s))" "regs (device (link s)) = R" "unat count + n \<le> budget (device (link s))"
    using s by (simp_all add: connected_def)
  have "?as \<noteq> []" using count(1) length_block_addresses [of address "unat count"] by fastforce
  then obtain d' reply b tail where d: "step (device (link s)) (header_bytes RD_BLOCK (request_flags check) ?seq @
        pairs_bytes (map (\<lambda>a. (a, 0)) ?as)) = (d', [(latency, Datagram reply)])"
      "dev_ok d'" "regs d' = R" "expected d' = ?seq + 1" "n \<le> budget d'"
      "reply_head reply ?seq RESPONSE_SUCCESS ([b] @ pairs_bytes (map (\<lambda>a. (a, R a)) ?as) @ tail)"
      "2 \<le> length tail"
    using read_block_law [OF ok(1), of ?as check ?seq] ok as count by (fastforce simp: reply_to_def)
  have fst: "map fst (map (\<lambda>a. (a, R a)) ?as) = ?as" and snd: "map snd (map (\<lambda>a. (a, R a)) ?as) = map R ?as"
    by (simp_all add: comp_def)
  obtain s' where "retry_loop (\<lambda>_. read_block_request address (unat count) ?seq check) (interpret_block ?as) True
        ?seq t check (s\<lparr>host := h\<lparr>hl_sequence := ?seq + 1\<rparr>\<rparr>) = (Inr (Done (map R ?as), t, check), s')"
      "st R n h s'" "in_time (Some t) k (clock (link s'))"
    using exchange [OF s time _ d(1-6), of "\<lambda>_. read_block_request address (unat count) ?seq check" check
        "interpret_block ?as" "map R ?as" True]
      read_block_request_ok [of "unat count" address ?seq check] count(2)
      interpret_block_ok [where avs = "map (\<lambda>a. (a, R a)) ?as" and tail = tail, unfolded fst snd] d(7)
    by auto
  then show ?thesis
    by (simp add: read_block_def next_sequence_run [OF s] aligned hbind_def)
qed

lemma read_singly_run:
  "st R (length as + n) h s \<Longrightarrow> \<forall>a \<in> set as. readable a \<Longrightarrow> 0 \<le> retry_ns to \<Longrightarrow>
   int latency + 4000 \<le> (if retry_ns to = 0 then timeout_ns to else retry_ns to) \<Longrightarrow>
   \<exists>s'. read_singly as to check s = (Inr (True, map R as), s') \<and> st R n h s'"
proof (induction as arbitrary: s)
  case Nil
  then show ?case by simp
next
  case (Cons a as)
  let ?s = "s\<lparr>link := (link s)\<lparr>clock := clock (link s) + 1\<rparr>\<rparr>"
  let ?t = "copy_timeout (clock (link s) + 1) to"
  have s: "st R (Suc (length as + n)) h ?s"
    by (rule st_clock [OF Cons.prems(1) [simplified]]) simp_all
  have time: "in_time (Some ?t) (Suc 0) (clock (link ?s))"
    using Cons.prems by (simp add: in_time_def copy_timeout_def)
  obtain s' where s': "retry_loop (read_dword_request a (expected (device (link ?s)))) interpret_read True
      (expected (device (link ?s))) ?t check
      (?s\<lparr>host := h\<lparr>hl_sequence := expected (device (link ?s)) + 1\<rparr>\<rparr>) = (Inr (Done (R a), ?t, check), s')"
      "st R (length as + n) h s'"
    using read_exchange [OF s time, of a check] Cons.prems by auto
  obtain s'' where "read_singly as to check s' = (Inr (True, map R as), s'')" "st R n h s''"
    using Cons.prems Cons.IH [OF s'(2)] by auto
  with s'(1) show ?case
    by (simp add: read_clock_run [OF Cons.prems(1)] next_sequence_run [OF s] hbind_def)
qed

subsection \<open>Read-modify-write\<close>

lemma and_uint32_rule:
  assumes "readable a" and "effect (a, R a AND m) = Some us"
  shows "runs (st R (Suc n) h) (and_uint32 a m) (\<lambda>b s. b \<and> st (upds R us) n h s)"
  unfolding and_uint32_def
  by (rule runs_hbind [OF read_uint32_rule [OF assms(1)]])
    (rule runs_assume, simp add: write_uint32_rule [OF assms(2)])

lemma or_uint32_rule:
  assumes "readable a" and "effect (a, R a OR m) = Some us"
  shows "runs (st R (Suc n) h) (or_uint32 a m) (\<lambda>b s. b \<and> st (upds R us) n h s)"
  unfolding or_uint32_def
  by (rule runs_hbind [OF read_uint32_rule [OF assms(1)]])
    (rule runs_assume, simp add: write_uint32_rule [OF assms(2)])

lemma write_reg_rule:
  assumes "effect (a, v) = Some us"
  shows "runs (st R n h) (write_reg a v) (\<lambda>_. st (upds R us) n h)"
  unfolding write_reg_def
  by (rule runs_hbind [OF write_uint32_rule [OF assms]]) (rule runs_assume, rule runs_hret)

text \<open>Read one register, write another with what was read.\<close>

lemma read_write_reg_rule:
  assumes "readable a" and "\<And>v. effect (b, v) = Some [(b, v)]"
  shows "runs (st R (Suc n) h) (hbind (read_uint32 a) (\<lambda>v. write_reg b (f v))) (\<lambda>_. st (R(b := f (R a))) n h)"
proof (rule runs_hbind_val [OF read_uint32_rule [OF assms(1)]])
  show "runs (st R n h) (write_reg b (f (R a))) (\<lambda>_. st (R(b := f (R a))) n h)"
    using write_reg_rule [OF assms(2), of R n h "f (R a)"] by simp
qed

subsection \<open>Several accesses under one timeout\<close>

text \<open>There is time for \<open>k\<close> more exchanges.\<close>

definition timed :: "(u32 \<Rightarrow> u32) \<Rightarrow> nat \<Rightarrow> hololink \<Rightarrow> timeout \<Rightarrow> nat \<Rightarrow> 'd hsb \<Rightarrow> bool" where
  "timed R n h t k s \<longleftrightarrow> st R n h s \<and> in_time (Some t) k (clock (link s))"

lemma default_timeout_rule:
  "runs (\<lambda>s. st R n h s \<and> in_time to k (clock (link s))) (default_timeout to)
    (\<lambda>t s. timed R n h t k s)"
  by (rule runsI) (metis default_timeout_run timed_def)

lemma read_uint32_to_rule:
  assumes "readable a"
  shows "runs (timed R (Suc n) h t (Suc k)) (read_uint32_to a (Some t)) (\<lambda>r s. r = (R a, t) \<and> timed R n h t k s)"
proof (rule runsI)
  fix s
  assume s: "timed R (Suc n) h t (Suc k) s"
  from read_exchange [OF _ _ assms, of R n h s t k "sequence_number_checking (host s)"] s
  show "\<exists>x s'. read_uint32_to a (Some t) s = (Inr x, s') \<and> x = (R a, t) \<and> timed R n h t k s'"
    by (auto simp: timed_def read_uint32_to_def read_uint32_full_def default_timeout_def
        next_sequence_run hbind_def)
qed

lemma write_data_to_rule:
  assumes "block_enable h" and "avs \<noteq> []" and "length avs \<le> 183" and "\<forall>av \<in> set avs. effect av \<noteq> None"
  shows "runs (timed R n h t (Suc k)) (write_data_default avs (Some t) True)
    (\<lambda>r s. r = (True, t) \<and> timed (upds R (effects effect avs)) n h t k s)"
proof (rule runsI)
  fix s
  assume s: "timed R n h t (Suc k) s"
  then have "block_enable (host s)" using assms(1) st_members(1) by (auto simp: timed_def)
  with write_block_run [OF _ _ assms(2-4), of R n h s t k True "sequence_number_checking (host s)"] s
  show "\<exists>x s'. write_data_default avs (Some t) True s = (Inr x, s') \<and> x = (True, t) \<and>
      timed (upds R (effects effect avs)) n h t k s'"
    by (auto simp: timed_def write_data_default_def write_data_def default_timeout_def hbind_def)
qed

lemma write_uint32_to_rule:
  assumes "block_enable h" and "effect (a, v) = Some us"
  shows "runs (timed R n h t (Suc k)) (write_uint32_to a v (Some t) True)
    (\<lambda>r s. r = (True, t) \<and> timed (upds R us) n h t k s)"
  using write_data_to_rule [OF assms(1), of "[(a, v)]"] assms(2)
  by (simp add: write_data_default_def write_uint32_to_def write_uint32_full_def [abs_def])

text \<open>A write with a timeout of its own, in the middle.\<close>

lemma in_time_own: "in_time (Some (make_timeout c DEFAULT_TIMEOUT_NS DEFAULT_RETRY_NS)) (Suc 0) c"
  using latency_bound by (simp add: in_time_def make_timeout_def DEFAULT_RETRY_NS_def)

lemma in_time_write: "in_time (Some t) (Suc k) c \<Longrightarrow> c' \<le> c + int latency + 5 \<Longrightarrow> in_time (Some t) k c'"
  by (simp add: in_time_def algebra_simps)

lemma write_reg_timed_rule:
  assumes "block_enable h" and "effect (a, v) = Some us"
  shows "runs (timed R n h t (Suc k)) (write_reg a v) (\<lambda>_. timed (upds R us) n h t k)"
proof (rule runsI)
  fix s
  assume s: "timed R n h t (Suc k) s"
  let ?c = "clock (link s) + 1"
  let ?s = "s\<lparr>link := (link s)\<lparr>clock := ?c\<rparr>\<rparr>" and ?t = "make_timeout ?c DEFAULT_TIMEOUT_NS DEFAULT_RETRY_NS"
  have st: "st R n h s" using s by (simp add: timed_def)
  have st': "st R n h ?s" by (rule st_clock [OF st]) simp_all
  have "in_time (Some ?t) (Suc 0) (clock (link ?s))" using in_time_own by simp
  from write_block_run [OF st' this, of "[(a, v)]" True "sequence_number_checking (host s)"] assms(2)
  obtain s' where s': "write_block [(a, v)] ?t True (sequence_number_checking (host s)) ?s = (Inr (True, ?t), s')"
      "st (upds R us) n h s'" "clock (link s') \<le> ?c + int latency + 4" by auto
  then have "timed (upds R us) n h t k s'"
    using s in_time_write [of t k "clock (link s)" "clock (link s')"] by (simp add: timed_def)
  moreover have "write_reg a v s = (Inr (), s')"
    using s'(1) assms(1) st_members(1) [OF st]
    by (simp add: write_reg_def write_uint32_def write_uint32_to_def write_uint32_full_def write_data_def
        default_timeout_def read_clock_run [OF st] hbind_def)
  ultimately show "\<exists>x s'. write_reg a v s = (Inr x, s') \<and> timed (upds R us) n h t k s'" by blast
qed

lemma read_uint32_count_to_rule:
  assumes "block_enable h" and "\<forall>a \<in> set (block_addresses address (unat count)). readable a"
    and "0 < unat count" and "unat count \<le> 182" and "\<not> misaligned address"
  shows "runs (timed R (unat count + n) h t (Suc k)) (read_uint32_count_to address count (Some t) check)
    (\<lambda>r s. r = ((True, map R (block_addresses address (unat count))), t) \<and> timed R n h t k s)"
proof (rule runsI)
  fix s
  assume s: "timed R (unat count + n) h t (Suc k) s"
  then have "block_enable (host s)" using assms(1) st_members(1) by (auto simp: timed_def)
  with read_block_run [OF _ _ assms(2-5), of R n h s t k check] s
  show "\<exists>x s'. read_uint32_count_to address count (Some t) check s = (Inr x, s') \<and>
      x = ((True, map R (block_addresses address (unat count))), t) \<and> timed R n h t k s'"
    by (auto simp: timed_def read_uint32_count_to_def default_timeout_def hbind_def)
qed

lemma poll_register_rule:
  assumes "readable a" and "R a AND bits \<noteq> 0"
  shows "runs (timed R (Suc n) h t (Suc k)) (poll_register a bits t)
    (\<lambda>r s. r = (R a, t) \<and> timed R n h t k s)"
  using read_uint32_to_rule [OF assms(1), of R n h t k] assms(2)
  by (fastforce simp: runs_def poll_register.simps [of a])

subsection \<open>Exchanges given by the device's step\<close>

text \<open>
  A block of writes, or a read, whose effect on the device is known from its step and not from
  the contract.
\<close>

lemma write_data_step:
  assumes s: "timed R n h t (Suc k) s" and block: "block_enable h"
    and avs: "avs \<noteq> []" "length avs \<le> 183" "\<forall>a \<in> fst ` set avs. \<not> misaligned a"
    and dev: "step (device (link s)) (header_bytes WR_BLOCK (request_flags (sequence_number_checking (host s)))
        (expected (device (link s))) @ pairs_bytes avs) = (d', [(latency, Datagram reply)])"
    and post: "ok' d'" "regs d' = R'" "expected d' = expected (device (link s)) + 1" "n' \<le> budget d'"
    and reply: "reply_head reply (expected (device (link s))) RESPONSE_SUCCESS rest"
  shows "\<exists>x s'. write_data_default avs None True s = (Inr (True, x), s') \<and>
    connected step ok' regs expected budget R' n' h s' \<and> device (link s') = d' \<and> in_time (Some t) k (clock (link s'))"
proof -
  let ?c = "clock (link s) + 1" and ?seq = "expected (device (link s))" and ?check = "sequence_number_checking (host s)"
  let ?s = "s\<lparr>link := (link s)\<lparr>clock := ?c\<rparr>\<rparr>" and ?t = "make_timeout ?c DEFAULT_TIMEOUT_NS DEFAULT_RETRY_NS"
  have st: "st R n h s" using s by (simp add: timed_def)
  have st': "st R n h ?s" by (rule st_clock [OF st]) simp_all
  have time: "in_time (Some ?t) (Suc 0) (clock (link ?s))" using in_time_own by simp
  have req: "write_block_request avs ?seq ?check =
      Inr (header_bytes WR_BLOCK (request_flags ?check) ?seq @ pairs_bytes avs)"
    by (rule write_block_request_ok [OF avs(2,3)])
  obtain s' where s': "retry_loop (write_block_request avs ?seq) interpret_write True ?seq ?t ?check
        (?s\<lparr>host := h\<lparr>hl_sequence := ?seq + 1\<rparr>\<rparr>) = (Inr (Done (), ?t, ?check), s')"
      "connected step ok' regs expected budget R' n' h s'" "device (link s') = d'"
      "clock (link s') \<le> ?c + int latency + 4"
    using exchange_to [where request = "write_block_request avs ?seq" and check = ?check and ok' = ok' and
        interp = interpret_write and x = "()" and retry = True, OF st' time req _ post(1,2) _ post(4)] dev post(3) reply
    by (auto simp: interpret_write_def)
  have "write_data_default avs None True s = (Inr (True, ?t), s')"
    using s'(1) block avs(1) st_members(1) [OF st] next_sequence_run [OF st']
    by (simp add: write_data_default_def write_data_def default_timeout_def read_clock_run [OF st] write_block_def hbind_def)
  moreover have "in_time (Some t) k (clock (link s'))"
    using s in_time_write [of t k "clock (link s)" "clock (link s')"] s'(4) by (simp add: timed_def)
  ultimately show ?thesis using s'(2,3) by blast
qed

lemma read_step:
  assumes s: "timed R n h t (Suc k) s" and a: "\<not> misaligned a"
    and dev: "step (device (link s)) (header_bytes RD_DWORD (request_flags (sequence_number_checking (host s)))
        (expected (device (link s))) @ be_bytes 4 a) = (d', [(latency, Datagram reply)])"
    and post: "ok' d'" "regs d' = R'" "expected d' = expected (device (link s)) + 1" "n' \<le> budget d'"
    and reply: "reply_to reply (expected (device (link s))) RESPONSE_SUCCESS (pair_bytes (a, v))"
  shows "\<exists>s'. read_uint32_to a (Some t) s = (Inr (v, t), s') \<and>
    connected step ok' regs expected budget R' n' h s' \<and> in_time (Some t) k (clock (link s'))"
proof -
  let ?seq = "expected (device (link s))" and ?check = "sequence_number_checking (host s)"
  have st: "st R n h s" and time: "in_time (Some t) (Suc k) (clock (link s))" using s by (simp_all add: timed_def)
  obtain b tail where r: "reply_head reply ?seq RESPONSE_SUCCESS ([b] @ pair_bytes (a, v) @ tail)" "2 \<le> length tail"
    using reply by (auto simp: reply_to_def)
  have req: "read_dword_request a ?seq ?check = Inr (header_bytes RD_DWORD (request_flags ?check) ?seq @ be_bytes 4 a)"
    by (rule read_dword_request_ok [OF a])
  have int: "interpret_read RESPONSE_SUCCESS d = Inr v" if "d_ok d" "unread d = [b] @ pair_bytes (a, v) @ tail" for d
    using that r(2) by (auto intro!: interpret_read_ok)
  obtain s' where "retry_loop (read_dword_request a ?seq) interpret_read True ?seq t ?check
        (s\<lparr>host := h\<lparr>hl_sequence := ?seq + 1\<rparr>\<rparr>) = (Inr (Done v, t, ?check), s')"
      "connected step ok' regs expected budget R' n' h s'" "in_time (Some t) k (clock (link s'))"
    using exchange_to [where request = "read_dword_request a ?seq" and check = ?check and ok' = ok' and
        interp = interpret_read and x = v and retry = True, OF st time req dev post r(1) int] by blast
  then show ?thesis
    by (auto simp: read_uint32_to_def read_uint32_full_def default_timeout_def next_sequence_run [OF st] hbind_def)
qed

lemma read_clock_timed: "runs (timed R n h t (Suc k)) (on_link read_clock) (\<lambda>_. timed R n h t k)"
proof (rule runsI)
  fix s
  assume s: "timed R n h t (Suc k) s"
  let ?s = "s\<lparr>link := (link s)\<lparr>clock := clock (link s) + 1\<rparr>\<rparr>"
  have st: "st R n h s" using s by (simp add: timed_def)
  have "st R n h ?s" by (rule st_clock [OF st]) simp_all
  moreover have "in_time (Some t) k (clock (link ?s))"
    using s in_time_step [of t k "clock (link s)" "clock (link ?s)"] by (simp add: timed_def)
  ultimately show "\<exists>x s'. on_link read_clock s = (Inr x, s') \<and> timed R n h t k s'"
    using read_clock_run [OF st] by (auto simp: timed_def)
qed

end

end
