(* ===== verification/Emulator_Link.thy ===== *)
theory Emulator_Link
  imports Emulator Device_Contract
begin

text \<open>
  The emulator at the other end of the control socket: what it makes of the host's requests,
  as byte strings, and the interpretation of the contract \<open>register_device\<close> on it.
\<close>

subsection \<open>Messages as byte strings\<close>

lemma deserialize_pairs_ok:
  "d_ok d \<Longrightarrow> unread d = pairs_bytes avs \<Longrightarrow> length avs \<le> n \<Longrightarrow> deserialize_pairs n d = avs"
proof (induction avs arbitrary: n d)
  case Nil
  then have "next_uint32_be d = None" by (intro w32be.get_short) simp_all
  then show ?case by (cases n) simp_all
next
  case (Cons av avs)
  then obtain m where n: "n = Suc m" by (cases n) simp_all
  obtain a v where av: "av = (a, v)" by force
  from Cons.prems obtain d1 where d1: "next_uint32_be d = Some (a, d1)" "d_ok d1"
      "unread d1 = be_bytes 4 v @ pairs_bytes avs"
    using w32be.get_enc [of d a "be_bytes 4 v @ pairs_bytes avs"] by (auto simp: av pair_bytes_def)
  obtain d2 where "next_uint32_be d1 = Some (v, d2)" "d_ok d2" "unread d2 = pairs_bytes avs"
    using w32be.get_enc [OF d1(2,3)] by auto
  with d1(1) Cons.IH Cons.prems(3) show ?case by (simp add: n av)
qed

lemma deserialize_pairs_address:
  assumes "d_ok d" and "unread d = be_bytes 4 a"
  shows "deserialize_pairs (Suc (Suc n)) d = [(a, 0)]"
proof -
  obtain d1 where "next_uint32_be d = Some (a, d1)" "d_ok d1" "unread d1 = []"
    using w32be.get_enc [of d a "[]"] assms by auto
  moreover from this have "next_uint32_be d1 = None" by (intro w32be.get_short) simp_all
  ultimately show ?thesis by simp
qed

lemma deserialize_control_ok:
  assumes "length (header_bytes cmd flags seq @ rest) < 2 ^ 32"
  obtains d where "d_ok d" "unread d = rest"
    "deserialize_control_message (new_deserializer (header_bytes cmd flags seq @ rest)
        (length (header_bytes cmd flags seq @ rest))) =
     Some \<lparr>m_cmd = cmd, m_flags = flags, m_sequence = seq, m_status = 0, m_reserved = 0,
       m_pairs = deserialize_pairs 368 d\<rparr>"
proof -
  let ?b = "header_bytes cmd flags seq @ rest"
  let ?d0 = "new_deserializer ?b (length ?b)"
  have d0: "d_ok ?d0" "unread ?d0 = be_bytes 1 cmd @ flags # be_bytes 2 seq @ 0 # 0 # rest"
    using assms by (simp_all add: header_bytes_def)
  obtain d1 where d1: "next_uint8 ?d0 = Some (cmd, d1)" "d_ok d1"
      "unread d1 = be_bytes 1 flags @ be_bytes 2 seq @ 0 # 0 # rest"
    using w8.get_enc [OF d0] by auto
  obtain d2 where d2: "next_uint8 d1 = Some (flags, d2)" "d_ok d2"
      "unread d2 = be_bytes 2 seq @ 0 # 0 # rest"
    using w8.get_enc [OF d1(2,3)] by auto
  obtain d3 where d3: "next_uint16_be d2 = Some (seq, d3)" "d_ok d3"
      "unread d3 = be_bytes 1 (0 :: u8) @ 0 # rest"
    using w16be.get_enc [OF d2(2,3)] by auto
  obtain d4 where d4: "next_uint8 d3 = Some (0, d4)" "d_ok d4" "unread d4 = be_bytes 1 (0 :: u8) @ rest"
    using w8.get_enc [OF d3(2,3)] by auto
  obtain d5 where d5: "next_uint8 d4 = Some (0, d5)" "d_ok d5" "unread d5 = rest"
    using w8.get_enc [OF d4(2,3)] by auto
  show thesis
    using d1 d2 d3 d4 d5
    by (intro that [of d5]) (simp_all add: deserialize_control_message_def EMU_PACKET_SIZE_def)
qed

text \<open>A reply of up to 182 pairs carries the latched sequence, one of 183 does not.\<close>

lemma serialize_reply_bytes:
  assumes "length (m_pairs m) \<le> 183"
  shows "serialize_reply_message m =
    [m_cmd m, m_flags m] @ be_bytes 2 (m_sequence m) @ [m_status m, m_reserved m] @
    pairs_bytes (m_pairs m) @ (if length (m_pairs m) \<le> 182 then [0, 0, 0, 0] else [])"
proof -
  let ?s0 = "new_serializer (replicate EMU_PACKET_SIZE 0) EMU_PACKET_SIZE"
  have s0: "s_ok ?s0" "room ?s0 = 1472" by (simp_all add: EMU_PACKET_SIZE_def)
  obtain s1 where s1: "append_uint8 ?s0 (m_cmd m) = Some s1" "s_ok s1" "written s1 = [m_cmd m]"
      "room s1 = 1471"
    using w8.put_room [OF s0(1), of "m_cmd m"] s0(2) by auto
  obtain s2 where s2: "append_uint8 s1 (m_flags m) = Some s2" "s_ok s2"
      "written s2 = [m_cmd m, m_flags m]" "room s2 = 1470"
    using w8.put_room [OF s1(2), of "m_flags m"] s1 by auto
  obtain s3 where s3: "append_uint16_be s2 (m_sequence m) = Some s3" "s_ok s3"
      "written s3 = [m_cmd m, m_flags m] @ be_bytes 2 (m_sequence m)" "room s3 = 1468"
    using w16be.put_room [OF s2(2), of "m_sequence m"] s2 by auto
  obtain s4 where s4: "append_uint8 s3 (m_status m) = Some s4" "s_ok s4"
      "written s4 = [m_cmd m, m_flags m] @ be_bytes 2 (m_sequence m) @ [m_status m]" "room s4 = 1467"
    using w8.put_room [OF s3(2), of "m_status m"] s3 by auto
  obtain s5 where s5: "append_uint8 s4 (m_reserved m) = Some s5" "s_ok s5" "written s5 =
      [m_cmd m, m_flags m] @ be_bytes 2 (m_sequence m) @ [m_status m, m_reserved m]" "room s5 = 1466"
    using w8.put_room [OF s4(2), of "m_reserved m"] s4 by auto
  obtain s6 where s6: "put_all (put_pair append_uint32_be append_uint32_be) s5 (m_pairs m) = Some s6"
      "s_ok s6" "written s6 = written s5 @ pairs_bytes (m_pairs m)"
      "room s6 = 1466 - 8 * length (m_pairs m)"
    using addr_value.pair.put_all_room [of s5 "m_pairs m"] s5 assms
    by (auto simp: pairs_bytes_def pair_bytes_def [abs_def])
  have fin: "take (s_length s) (s_buffer s) = written s" if "s_ok s" for s
    using that by (simp add: written_def s_length_def s_ok_def)
  show ?thesis
  proof (cases "length (m_pairs m) \<le> 182")
    case True
    then obtain s7 where "append_uint32_be s6 0 = Some s7" "s_ok s7"
        "written s7 = written s6 @ be_bytes 4 (0 :: u32)"
      using w32be.put_room [OF s6(2)] s6(4) by force
    moreover have "be_bytes 4 (0 :: u32) = [0, 0, 0, 0]" by (simp add: enc_be byte_at_def)
    ultimately show ?thesis using True s1 s2 s3 s4 s5 s6 fin
      by (simp add: serialize_reply_message_def)
  next
    case False
    then have "append_uint32_be s6 0 = None"
      using w32be.put_full [OF s6(2)] s6(4) assms by simp
    with False s1 s2 s3 s4 s5 s6 fin show ?thesis
      by (simp add: serialize_reply_message_def)
  qed
qed

text \<open>No message has more pairs than its bytes allow.\<close>

lemma deserialize_pairs_length:
  "d_ok d \<Longrightarrow> 8 * length (deserialize_pairs n d) \<le> length (unread d) + 4"
proof (induction n arbitrary: d)
  case 0
  then show ?case by simp
next
  case (Suc n)
  show ?case
  proof (cases "next_uint32_be d")
    case None
    then show ?thesis by simp
  next
    case (Some r)
    then obtain a d1 where d1: "next_uint32_be d = Some (a, d1)" by (cases r) auto
    have s1: "d_ok d1" "length (unread d) = 4 + length (unread d1)"
      using w32be.get_sound [OF Suc.prems d1] by auto
    show ?thesis
    proof (cases "next_uint32_be d1")
      case None
      have "length (unread d1) < 4"
      proof (rule ccontr)
        assume "\<not> length (unread d1) < 4"
        then have "unread d1 = be_bytes 4 (be_word (take 4 (unread d1)) :: u32) @ drop 4 (unread d1)"
          by (simp add: be_bytes_be_word)
        with w32be.get_enc [OF s1(1)] None show False by fastforce
      qed
      then have "deserialize_pairs n d1 = []"
        using w32be.get_short [OF s1(1)] by (cases n) simp_all
      with d1 None s1 show ?thesis by simp
    next
      case (Some r2)
      then obtain v d2 where d2: "next_uint32_be d1 = Some (v, d2)" by (cases r2) auto
      have "d_ok d2" "length (unread d1) = 4 + length (unread d2)"
        using w32be.get_sound [OF s1(1) d2] by auto
      with Suc.IH d1 d2 s1 show ?thesis by fastforce
    qed
  qed
qed

subsection \<open>What reads and writes of registers do\<close>

text \<open>A repeated read of these two addresses writes a status register.\<close>

definition emu_readable :: "u32 \<Rightarrow> bool" where
  "emu_readable a \<longleftrightarrow> \<not> misaligned a \<and> a \<noteq> SPI_CTRL \<and> a \<noteq> FPGA_PTP_SYNC_STAT"

text \<open>
  The registers that a write changes. The software event and the I2C controller, which start
  other threads, are left open.
\<close>

definition emu_effect :: "u32 \<times> u32 \<Rightarrow> (u32 \<times> u32) list option" where
  "emu_effect av =
     (let (a, v) = av in
      if misaligned a then None
      else if a = CTRL_EVT_SW_EVENT then (if v = 1 then None else Some [(a, v)])
      else if a = SPI_CTRL then
        (if v = SPI_START then Some [(a, v), (SPI_CTRL + SPI_REG_STATUS, SPI_DONE)]
         else if v = 0 then Some [(a, v), (SPI_CTRL + SPI_REG_STATUS, SPI_IDLE)]
         else Some [(a, v)])
      else if a = I2C_CTRL then None
      else if a = FPGA_PTP_CTRL then
        (if v = 0 then Some [(a, v), (FPGA_PTP_SYNC_STAT, 0)]
         else if v = 0x3 then Some [(a, v), (FPGA_PTP_SYNC_STAT, 0xF)]
         else Some [(a, v)])
      else Some [(a, v)])"

definition special_addresses :: "u32 list" where
  "special_addresses = [CTRL_EVT_SW_EVENT, SPI_CTRL, I2C_CTRL, FPGA_PTP_CTRL, FPGA_PTP_SYNC_STAT]"

text \<open>The addresses that are memory and nothing else.\<close>

definition emu_plain :: "u32 \<Rightarrow> bool" where
  "emu_plain a \<longleftrightarrow> \<not> misaligned a \<and> a \<notin> set special_addresses"

lemma emu_plain_effect: "emu_plain a \<Longrightarrow> emu_effect (a, v) = Some [(a, v)]"
  by (simp add: emu_plain_def emu_effect_def special_addresses_def)

lemma emu_plain_readable: "emu_plain a \<Longrightarrow> emu_readable a"
  by (simp add: emu_plain_def emu_readable_def special_addresses_def)

definition emu_budget :: "'p emulator \<Rightarrow> nat" where
  "emu_budget e = 299 - unat (e_poll_count e)"

definition emu_ok :: "'p emulator \<Rightarrow> bool" where
  "emu_ok e \<longleftrightarrow> e_running e \<and> unat (e_poll_count e) \<le> 299"

definition set_regs :: "(u32 \<times> u32) list \<Rightarrow> 'p emulator \<Rightarrow> 'p emulator" where
  "set_regs avs e = fold (\<lambda>(a, v). set_reg a v) avs e"

lemma set_regs_simps [simp]:
  "set_regs [] e = e"
  "set_regs ((a, v) # avs) e = set_regs avs (set_reg a v e)"
  "set_regs (avs @ bvs) e = set_regs bvs (set_regs avs e)"
  by (simp_all add: set_regs_def)

lemma emu_write_plain: "emu_plain a \<Longrightarrow> emu_write a v e = (Inr (), set_reg a v e)"
  by (simp add: emu_plain_def special_addresses_def emu_write.simps [of a v])

lemma emu_write_effect: "emu_effect (a, v) = Some us \<Longrightarrow> emu_write a v e = (Inr (), set_regs us e)"
  by (auto simp: emu_effect_def emu_write.simps [of a v] emu_write.simps [of FPGA_PTP_SYNC_STAT]
      emu_write.simps [of "SPI_CTRL + SPI_REG_STATUS", simplified] split: if_splits)

lemma get_set_reg: "get_reg (set_reg a v e) = (get_reg e)(a := v)"
  by (simp add: get_reg_def set_reg_def rm_write_upd fun_eq_iff)

lemma handle_writes_effects:
  "\<forall>av \<in> set avs. emu_effect av \<noteq> None \<Longrightarrow>
   handle_writes avs e = (Inr (), set_regs (effects emu_effect avs) e)"
proof (induction avs arbitrary: e)
  case Nil
  then show ?case by simp
next
  case (Cons av avs)
  obtain a v us where "av = (a, v)" "emu_effect (a, v) = Some us" using Cons.prems by (cases av) auto
  with Cons show ?case by (simp add: emu_write_effect hthen_def hbind_def)
qed

lemma set_regs_fields:
  "get_reg (set_regs avs e) = upds (get_reg e) avs"
  "e_poll_count (set_regs avs e) = e_poll_count e" "e_running (set_regs avs e) = e_running e"
  "e_next_sequence (set_regs avs e) = e_next_sequence e"
proof -
  have "get_reg (set_regs avs e) = upds (get_reg e) avs \<and> e_poll_count (set_regs avs e) = e_poll_count e \<and>
    e_running (set_regs avs e) = e_running e \<and> e_next_sequence (set_regs avs e) = e_next_sequence e"
  proof (induction avs arbitrary: e)
    case Nil
    then show ?case by simp
  next
    case (Cons av avs)
    obtain a v where "av = (a, v)" by force
    then show ?case using Cons.IH [of "set_reg a v e"]
      by (simp add: get_set_reg fun_upd_def) (simp add: set_reg_def)
  qed
  then show "get_reg (set_regs avs e) = upds (get_reg e) avs"
    "e_poll_count (set_regs avs e) = e_poll_count e" "e_running (set_regs avs e) = e_running e"
    "e_next_sequence (set_regs avs e) = e_next_sequence e" by simp_all
qed

text \<open>One read changes nothing but the poll detection, as long as the budget lasts.\<close>

definition same_but_polls :: "'p emulator \<Rightarrow> 'p emulator \<Rightarrow> bool" where
  "same_but_polls e e' \<longleftrightarrow>
     e_regs e' = e_regs e \<and> e_next_sequence e' = e_next_sequence e \<and> e_running e' = e_running e \<and>
     apb_running e' = apb_running e \<and> apb_queue e' = apb_queue e \<and> i2c_running e' = i2c_running e \<and>
     i2c_cmd e' = i2c_cmd e \<and> i2c_address e' = i2c_address e \<and> i2c_attached e' = i2c_attached e \<and>
     i2c_env e' = i2c_env e \<and> i2c_peripheral e' = i2c_peripheral e"

lemma same_but_polls_trans: "same_but_polls a b \<Longrightarrow> same_but_polls b c \<Longrightarrow> same_but_polls a c"
  by (simp add: same_but_polls_def)

lemma same_but_polls_refl: "same_but_polls e e"
  by (simp add: same_but_polls_def)

lemma same_but_polls_fields:
  assumes "same_but_polls e e'"
  shows "get_reg e' = get_reg e" "e_running e' = e_running e" "e_next_sequence e' = e_next_sequence e"
  using assms by (simp_all add: same_but_polls_def get_reg_def [abs_def])

lemma unat_suc_poll: "unat (n :: u16) < 299 \<Longrightarrow> unat (n + 1) = Suc (unat n)"
  using unat_word_ariths(1) [of n 1] by simp

lemma detect_poll_run:
  assumes "detect_poll a e = (r, e')" and "1 \<le> emu_budget e"
  shows "\<exists>b. r = Inr b \<and> same_but_polls e e' \<and> e_last_read_address e' = a \<and>
    unat (e_poll_count e') \<le> 299 \<and> emu_budget e \<le> emu_budget e' + 1"
proof (cases "a = e_last_read_address e")
  case True
  have "unat (e_poll_count e) < 299" using assms(2) by (simp add: emu_budget_def)
  then have "unat (e_poll_count e + 1) = Suc (unat (e_poll_count e))" by (rule unat_suc_poll)
  with True assms show ?thesis
    by (auto simp: detect_poll_def Let_def same_but_polls_def emu_budget_def)
next
  case False
  with assms show ?thesis
    by (auto simp: detect_poll_def same_but_polls_def emu_budget_def)
qed

lemma handle_poll_plain:
  assumes "unat (e_poll_count e) \<le> 299" and "emu_readable (e_last_read_address e)"
  shows "handle_poll e = (Inr (), e)"
proof -
  have "\<not> POLL_COUNT_EXIT \<le> e_poll_count e"
    using assms(1) by (simp add: POLL_COUNT_EXIT_def word_le_nat_alt)
  with assms(2) show ?thesis by (simp add: handle_poll_def emu_readable_def hbind_def)
qed

lemma handle_reads_plain:
  "length avs \<le> emu_budget e \<Longrightarrow> \<forall>a \<in> fst ` set avs. emu_readable a \<Longrightarrow> unat (e_poll_count e) \<le> 299 \<Longrightarrow>
   \<exists>e'. handle_reads avs e = (Inr (map (\<lambda>(a, _). (a, get_reg e a)) avs), e') \<and> same_but_polls e e' \<and>
     unat (e_poll_count e') \<le> 299 \<and> emu_budget e \<le> emu_budget e' + length avs"
proof (induction avs arbitrary: e)
  case Nil
  then show ?case by (simp add: same_but_polls_refl)
next
  case (Cons av avs)
  obtain a v where av: "av = (a, v)" by force
  obtain r e1 where det: "detect_poll a e = (r, e1)" by force
  obtain b where b: "r = Inr b" "same_but_polls e e1" "e_last_read_address e1 = a"
      "unat (e_poll_count e1) \<le> 299" "emu_budget e \<le> emu_budget e1 + 1"
    using detect_poll_run [OF det] Cons.prems by auto
  have "emu_readable (e_last_read_address e1)" using Cons.prems b(3) by (simp add: av)
  then have poll: "hwhen b handle_poll e1 = (Inr (), e1)"
    using handle_poll_plain [OF b(4)] by simp
  note regs = same_but_polls_fields(1) [OF b(2)]
  obtain e2 where e2: "handle_reads avs e1 = (Inr (map (\<lambda>(a, _). (a, get_reg e1 a)) avs), e2)"
      "same_but_polls e1 e2" "unat (e_poll_count e2) \<le> 299" "emu_budget e1 \<le> emu_budget e2 + length avs"
    using Cons.IH [of e1] Cons.prems b by auto
  show ?case
    using det b(1) poll e2 same_but_polls_trans [OF b(2) e2(2)] b(5)
    by (intro exI [of _ e2]) (simp add: av hbind_def hthen_def emu_read_def regs)
qed

subsection \<open>The emulator as a device on the link\<close>

definition emulator_respond :: "nat \<Rightarrow> 'p emulator \<Rightarrow> bytes \<Rightarrow> 'p emulator \<times> (nat \<times> net_event) list" where
  "emulator_respond latency e datagram =
     (let (e', reply) = control_listen datagram e in
      (e', case reply of None \<Rightarrow> [] | Some b \<Rightarrow> [(latency, Datagram b)]))"

lemma flags_ack [simp]: "request_flags check AND 1 \<noteq> 0"
  by (simp add: request_flags_def REQUEST_FLAGS_ACK_REQUEST_def REQUEST_FLAGS_SEQUENCE_CHECK_def)

lemma flags_check: "request_flags check AND 2 \<noteq> 0 \<longleftrightarrow> check"
  by (simp add: request_flags_def REQUEST_FLAGS_ACK_REQUEST_def REQUEST_FLAGS_SEQUENCE_CHECK_def)

text \<open>A request with an acceptable sequence number is dispatched.\<close>

lemma control_step_dispatch:
  assumes "length body \<le> 1466" and "4 \<le> length body"
    and "\<And>d. d_ok d \<Longrightarrow> unread d = body \<Longrightarrow> deserialize_pairs 368 d = avs"
    and "check \<Longrightarrow> seq = e_next_sequence e"
  shows "control_message_step (header_bytes cmd (request_flags check) seq @ body) e =
    hbind (dispatch_message \<lparr>m_cmd = cmd, m_flags = request_flags check, m_sequence = seq, m_status = 0,
        m_reserved = 0, m_pairs = avs\<rparr>) (\<lambda>m'. hret (handle_reply_message m'))
      (e\<lparr>e_next_sequence := seq + 1\<rparr>)"
proof -
  let ?b = "header_bytes cmd (request_flags check) seq @ body"
  have len: "length ?b < 2 ^ 32" "take EMU_PACKET_SIZE ?b = ?b" "\<not> length ?b < MIN_VALID_CONTROL_LENGTH"
    using assms(1,2) by (simp_all add: EMU_PACKET_SIZE_def MIN_VALID_CONTROL_LENGTH_def)
  obtain d where "d_ok d" "unread d = body"
      "deserialize_control_message (new_deserializer ?b (length ?b)) =
       Some \<lparr>m_cmd = cmd, m_flags = request_flags check, m_sequence = seq, m_status = 0, m_reserved = 0,
         m_pairs = deserialize_pairs 368 d\<rparr>"
    using deserialize_control_ok [OF len(1)] by blast
  with assms(3) [of d] have "deserialize_control_message (new_deserializer ?b (length ?b)) =
       Some \<lparr>m_cmd = cmd, m_flags = request_flags check, m_sequence = seq, m_status = 0, m_reserved = 0,
         m_pairs = avs\<rparr>"
    by simp
  with len assms(4) show ?thesis
    by (simp add: control_message_step_def Let_def flags_check del: length_append) auto
qed

lemma control_listen_reply:
  assumes "e_running e" and "control_message_step datagram e = (Inr (Some reply), e')"
  shows "emulator_respond latency e datagram = (e', [(latency, Datagram reply)])"
  using assms by (simp add: emulator_respond_def control_listen_def)

lemma handle_reply_done:
  assumes "length (m_pairs m) \<le> 183" and "m_flags m = request_flags check"
  shows "handle_reply_message (done_message m) =
    Some ([0x80 OR m_cmd m, m_flags m] @ be_bytes 2 (m_sequence m) @ [0] @ [m_reserved m] @
      pairs_bytes (m_pairs m) @ (if length (m_pairs m) \<le> 182 then [0, 0, 0, 0] else []))"
  using assms serialize_reply_bytes [of "done_message m"]
  by (simp add: handle_reply_message_def done_message_def)

lemma emulator_handled_write:
  assumes e: "emu_ok e" and cmd: "cmd = WR_DWORD \<or> cmd = WR_BLOCK"
    and avs: "avs \<noteq> []" "length avs \<le> 183"
    and seq: "check \<Longrightarrow> seq = e_next_sequence e"
    and handled: "handle_writes avs (e\<lparr>e_next_sequence := seq + 1\<rparr>) = (Inr (), e')"
  shows "\<exists>reply. emulator_respond latency e (header_bytes cmd (request_flags check) seq @ pairs_bytes avs) =
      (e'\<lparr>e_last_read_address := fst (last avs)\<rparr>, [(latency, Datagram reply)]) \<and>
      (\<exists>rest. reply_head reply seq RESPONSE_SUCCESS rest)"
proof -
  let ?m = "\<lparr>m_cmd = cmd, m_flags = request_flags check, m_sequence = seq, m_status = 0,
        m_reserved = 0, m_pairs = avs\<rparr>"
  let ?e1 = "e\<lparr>e_next_sequence := seq + 1\<rparr>" and ?e3 = "e'\<lparr>e_last_read_address := fst (last avs)\<rparr>"
  have cmds: "cmd \<in> set write_commands" "cmd \<notin> set read_commands"
    using cmd by (auto simp: write_commands_def read_commands_def WR_DWORD_def WR_BLOCK_def)
  have step: "control_message_step (header_bytes cmd (request_flags check) seq @ pairs_bytes avs) e =
      hbind (dispatch_message ?m) (\<lambda>m'. hret (handle_reply_message m')) ?e1"
    using avs(1,2) seq by (intro control_step_dispatch deserialize_pairs_ok) (auto simp: Suc_le_eq)
  have "dispatch_message ?m ?e1 = (Inr (done_message ?m), ?e3)"
    using cmds by (simp add: dispatch_message_def handle_write_message_def handled hthen_def hbind_def)
  with step have "control_message_step (header_bytes cmd (request_flags check) seq @ pairs_bytes avs) e =
      (Inr (handle_reply_message (done_message ?m)), ?e3)"
    by (simp add: hbind_def)
  then have "emulator_respond latency e (header_bytes cmd (request_flags check) seq @ pairs_bytes avs) =
      (?e3, [(latency, Datagram ([0x80 OR cmd, request_flags check] @ be_bytes 2 seq @ [0] @ [0] @
      pairs_bytes avs @ (if length avs \<le> 182 then [0, 0, 0, 0] else [])))])"
    using e avs(2) handle_reply_done [of ?m check] by (intro control_listen_reply) (simp_all add: emu_ok_def)
  moreover have "reply_head ([0x80 OR cmd, request_flags check] @ be_bytes 2 seq @ [0] @ [0] @
      pairs_bytes avs @ (if length avs \<le> 182 then [0, 0, 0, 0] else [])) seq RESPONSE_SUCCESS
      ([0] @ pairs_bytes avs @ (if length avs \<le> 182 then [0, 0, 0, 0] else []))"
    using avs(2) by (auto simp: reply_head_def RESPONSE_SUCCESS_def CONTROL_PACKET_SIZE_def)
  ultimately show ?thesis by blast
qed

text \<open>Writes whose effect is known: the registers are updated, nothing else.\<close>

lemma emulator_write_run:
  assumes "emu_ok e" and "cmd = WR_DWORD \<or> cmd = WR_BLOCK"
    and "avs \<noteq> []" "length avs \<le> 183" "\<forall>av \<in> set avs. emu_effect av \<noteq> None"
    and "check \<Longrightarrow> seq = e_next_sequence e"
  shows "\<exists>reply. emulator_respond latency e (header_bytes cmd (request_flags check) seq @ pairs_bytes avs) =
      ((set_regs (effects emu_effect avs) (e\<lparr>e_next_sequence := seq + 1\<rparr>))\<lparr>e_last_read_address := fst (last avs)\<rparr>,
       [(latency, Datagram reply)]) \<and> (\<exists>rest. reply_head reply seq RESPONSE_SUCCESS rest)"
  using emulator_handled_write [OF assms(1-4,6) handle_writes_effects [OF assms(5)]] by simp

lemma emulator_write:
  assumes e: "emu_ok e" and cmd: "cmd = WR_DWORD \<or> cmd = WR_BLOCK"
    and avs: "avs \<noteq> []" "length avs \<le> 183" "\<forall>av \<in> set avs. emu_effect av \<noteq> None"
    and seq: "check \<Longrightarrow> seq = e_next_sequence e"
  shows "\<exists>e' reply. emulator_respond latency e (header_bytes cmd (request_flags check) seq @ pairs_bytes avs) =
      (e', [(latency, Datagram reply)]) \<and> emu_ok e' \<and> get_reg e' = upds (get_reg e) (effects emu_effect avs) \<and>
      e_next_sequence e' = seq + 1 \<and> emu_budget e \<le> emu_budget e' \<and>
      (\<exists>rest. reply_head reply seq RESPONSE_SUCCESS rest)"
proof -
  let ?e1 = "e\<lparr>e_next_sequence := seq + 1\<rparr>"
  let ?e3 = "(set_regs (effects emu_effect avs) ?e1)\<lparr>e_last_read_address := fst (last avs)\<rparr>"
  have "emu_ok ?e3" "get_reg ?e3 = upds (get_reg e) (effects emu_effect avs)" "e_next_sequence ?e3 = seq + 1"
      "emu_budget e = emu_budget ?e3"
    using e set_regs_fields [of "effects emu_effect avs" ?e1] by (simp_all add: emu_ok_def emu_budget_def get_reg_def [abs_def])
  with emulator_write_run [OF e cmd avs seq] show ?thesis by (metis order_refl)
qed

lemma emulator_handled_reads:
  assumes e: "emu_ok e" and cmd: "cmd = RD_DWORD \<or> cmd = RD_BLOCK"
    and body: "length body \<le> 1466" "4 \<le> length body"
      "\<And>d. d_ok d \<Longrightarrow> unread d = body \<Longrightarrow> deserialize_pairs 368 d = map (\<lambda>a. (a, 0)) as"
    and as: "length as \<le> 182" and seq: "check \<Longrightarrow> seq = e_next_sequence e"
    and handled: "handle_reads (map (\<lambda>a. (a, 0)) as) (e\<lparr>e_next_sequence := seq + 1\<rparr>) = (Inr pairs, e')"
      "length pairs = length as"
  shows "\<exists>reply. emulator_respond latency e (header_bytes cmd (request_flags check) seq @ body) =
      (e', [(latency, Datagram reply)]) \<and> reply_to reply seq RESPONSE_SUCCESS (pairs_bytes pairs)"
proof -
  let ?m = "\<lparr>m_cmd = cmd, m_flags = request_flags check, m_sequence = seq, m_status = 0,
        m_reserved = 0, m_pairs = map (\<lambda>a. (a, 0)) as\<rparr>"
  have cmds: "cmd \<in> set read_commands"
    using cmd by (auto simp: read_commands_def RD_DWORD_def RD_BLOCK_def)
  have step: "control_message_step (header_bytes cmd (request_flags check) seq @ body) e =
      hbind (dispatch_message ?m) (\<lambda>m'. hret (handle_reply_message m')) (e\<lparr>e_next_sequence := seq + 1\<rparr>)"
    using body seq by (intro control_step_dispatch) auto
  have "dispatch_message ?m (e\<lparr>e_next_sequence := seq + 1\<rparr>) = (Inr (done_message (?m\<lparr>m_pairs := pairs\<rparr>)), e')"
    using cmds handled(1) by (simp add: dispatch_message_def handle_read_message_def hbind_def)
  with step have "control_message_step (header_bytes cmd (request_flags check) seq @ body) e =
      (Inr (handle_reply_message (done_message (?m\<lparr>m_pairs := pairs\<rparr>))), e')"
    by (simp add: hbind_def)
  then have res: "emulator_respond latency e (header_bytes cmd (request_flags check) seq @ body) =
      (e', [(latency, Datagram ([0x80 OR cmd, request_flags check] @ be_bytes 2 seq @ [0] @ [0] @
      pairs_bytes pairs @ [0, 0, 0, 0]))])"
    using e as handled(2) handle_reply_done [of "?m\<lparr>m_pairs := pairs\<rparr>" check]
    by (intro control_listen_reply) (simp_all add: emu_ok_def)
  have "reply_head ([0x80 OR cmd, request_flags check] @ be_bytes 2 seq @ [0] @ [0] @
      pairs_bytes pairs @ [0, 0, 0, 0]) seq RESPONSE_SUCCESS ([0] @ pairs_bytes pairs @ [0, 0, 0, 0])"
    using as handled(2) by (auto simp: reply_head_def RESPONSE_SUCCESS_def CONTROL_PACKET_SIZE_def)
  then have "reply_to ([0x80 OR cmd, request_flags check] @ be_bytes 2 seq @ [0] @ [0] @
      pairs_bytes pairs @ [0, 0, 0, 0]) seq RESPONSE_SUCCESS (pairs_bytes pairs)"
    unfolding reply_to_def by (intro exI [of _ 0] exI [of _ "[0, 0, 0, 0]"]) simp
  with res show ?thesis by blast
qed

lemma emulator_reads:
  assumes e: "emu_ok e" and cmd: "cmd = RD_DWORD \<or> cmd = RD_BLOCK"
    and body: "length body \<le> 1466" "4 \<le> length body"
      "\<And>d. d_ok d \<Longrightarrow> unread d = body \<Longrightarrow> deserialize_pairs 368 d = map (\<lambda>a. (a, 0)) as"
    and as: "length as \<le> 182" "length as \<le> emu_budget e" "\<forall>a \<in> set as. emu_readable a"
    and seq: "check \<Longrightarrow> seq = e_next_sequence e"
  shows "\<exists>e' reply. emulator_respond latency e (header_bytes cmd (request_flags check) seq @ body) =
      (e', [(latency, Datagram reply)]) \<and> same_but_polls (e\<lparr>e_next_sequence := seq + 1\<rparr>) e' \<and>
      unat (e_poll_count e') \<le> 299 \<and> emu_budget e \<le> emu_budget e' + length as \<and>
      reply_to reply seq RESPONSE_SUCCESS (pairs_bytes (map (\<lambda>a. (a, get_reg e a)) as))"
proof -
  let ?avs = "map (\<lambda>a. (a, 0 :: u32)) as" and ?e1 = "e\<lparr>e_next_sequence := seq + 1\<rparr>"
  have regs1: "get_reg ?e1 = get_reg e" by (simp add: get_reg_def fun_eq_iff)
  have "unat (e_poll_count ?e1) \<le> 299" "length ?avs \<le> emu_budget ?e1"
    using e as by (simp_all add: emu_ok_def emu_budget_def)
  then obtain e2 where e2: "handle_reads ?avs ?e1 = (Inr (map (\<lambda>(a, _). (a, get_reg ?e1 a)) ?avs), e2)"
      "same_but_polls ?e1 e2" "unat (e_poll_count e2) \<le> 299" "emu_budget ?e1 \<le> emu_budget e2 + length as"
    using handle_reads_plain [of ?avs ?e1] as(3) by (auto simp: image_image)
  have pairs: "map (\<lambda>(a, _). (a, get_reg ?e1 a)) ?avs = map (\<lambda>a. (a, get_reg e a)) as"
    by (simp add: regs1 comp_def)
  have len: "length (map (\<lambda>a. (a, get_reg e a)) as) = length as" by simp
  have "emu_budget e \<le> emu_budget e2 + length as" using e2(4) by (simp add: emu_budget_def)
  with emulator_handled_reads [OF e cmd body as(1) seq e2(1) [unfolded pairs] len] e2(2,3) show ?thesis by blast
qed

text \<open>The invariant after a read.\<close>

lemma same_but_polls_ok:
  assumes "emu_ok e" and "same_but_polls (e\<lparr>e_next_sequence := q\<rparr>) e'" and "unat (e_poll_count e') \<le> 299"
  shows "emu_ok e' \<and> get_reg e' = get_reg e \<and> e_next_sequence e' = q"
  using assms same_but_polls_fields [OF assms(2)] by (simp add: emu_ok_def get_reg_def [abs_def])

text \<open>A request out of sequence is refused; the emulator is as it was.\<close>

lemma emulator_refuses:
  assumes e: "emu_ok e" and seq: "seq \<noteq> e_next_sequence e"
    and req: "request = header_bytes cmd (request_flags True) seq @ rest"
    and len: "4 \<le> length rest" "length request \<le> CONTROL_PACKET_SIZE"
  shows "\<exists>reply code. emulator_respond latency e request = (e, [(latency, Datagram reply)]) \<and>
    code \<noteq> RESPONSE_SUCCESS \<and> (\<exists>rest. reply_head reply seq code rest)"
proof -
  have lens: "length (header_bytes cmd (request_flags True) seq @ rest) < 2 ^ 32"
      "take EMU_PACKET_SIZE request = request" "\<not> length request < MIN_VALID_CONTROL_LENGTH"
    using len req by (simp_all add: EMU_PACKET_SIZE_def CONTROL_PACKET_SIZE_def MIN_VALID_CONTROL_LENGTH_def)
  obtain d where d: "d_ok d" "unread d = rest"
      "deserialize_control_message (new_deserializer request (length request)) =
       Some \<lparr>m_cmd = cmd, m_flags = request_flags True, m_sequence = seq, m_status = 0, m_reserved = 0,
         m_pairs = deserialize_pairs 368 d\<rparr>"
    using deserialize_control_ok [OF lens(1)] req by metis
  let ?m = "\<lparr>m_cmd = cmd, m_flags = request_flags True, m_sequence = seq, m_status = ECB_SEQUENCE_ERROR,
      m_reserved = 0, m_pairs = deserialize_pairs 368 d\<rparr>"
  have pairs: "length (deserialize_pairs 368 d) \<le> 183"
    using deserialize_pairs_length [OF d(1), of 368] d(2) len req by (simp add: CONTROL_PACKET_SIZE_def)
  have "control_message_step request e = (Inr (handle_reply_message ?m), e)"
    using lens(2,3) d(3) seq by (simp add: control_message_step_def Let_def flags_check)
  moreover have "handle_reply_message ?m = Some (serialize_reply_message ?m)"
    by (simp add: handle_reply_message_def)
  ultimately have "emulator_respond latency e request = (e, [(latency, Datagram (serialize_reply_message ?m))])"
    using e by (intro control_listen_reply) (simp_all add: emu_ok_def)
  moreover have "reply_head (serialize_reply_message ?m) seq ECB_SEQUENCE_ERROR ([0] @
      pairs_bytes (deserialize_pairs 368 d) @
      (if length (deserialize_pairs 368 d) \<le> 182 then [0, 0, 0, 0] else []))"
    using serialize_reply_bytes [of ?m] pairs by (auto simp: reply_head_def CONTROL_PACKET_SIZE_def)
  moreover have "ECB_SEQUENCE_ERROR \<noteq> RESPONSE_SUCCESS"
    by (simp add: ECB_SEQUENCE_ERROR_def RESPONSE_SUCCESS_def)
  ultimately show ?thesis by blast
qed

lemma emulator_device:
  assumes "latency \<le> 90000000"
  shows "register_device (emulator_respond latency) emu_ok get_reg emu_readable emu_effect e_next_sequence emu_budget latency"
proof (unfold_locales, goal_cases)
  case 1
  show ?case by (rule assms)
next
  case (2 a)
  then show ?case by (simp add: emu_readable_def)
next
  case (3 a v)
  then show ?case by (auto simp: emu_effect_def)
next
  case (4 d cmd avs check seq)
  then show ?case by (intro emulator_write) auto
next
  case (5 d a check seq)
  have "deserialize_pairs 368 d' = map (\<lambda>a. (a, 0)) [a]" if "d_ok d'" "unread d' = be_bytes 4 a" for d'
    using deserialize_pairs_address [OF that, of 366] by (simp add: eval_nat_numeral)
  with 5 emulator_reads [of d RD_DWORD "be_bytes 4 a" "[a]" check seq latency] show ?case
    by (auto dest: same_but_polls_ok [OF 5(1)])
next
  case (6 d as check seq)
  have "deserialize_pairs 368 d' = map (\<lambda>a. (a, 0)) as"
    if "d_ok d'" "unread d' = pairs_bytes (map (\<lambda>a. (a, 0)) as)" for d'
    using deserialize_pairs_ok [OF that] 6 by simp
  then have "\<exists>e' reply. emulator_respond latency d (header_bytes RD_BLOCK (request_flags check) seq @
        pairs_bytes (map (\<lambda>a. (a, 0)) as)) = (e', [(latency, Datagram reply)]) \<and>
      same_but_polls (d\<lparr>e_next_sequence := seq + 1\<rparr>) e' \<and> unat (e_poll_count e') \<le> 299 \<and>
      emu_budget d \<le> emu_budget e' + length as \<and>
      reply_to reply seq RESPONSE_SUCCESS (pairs_bytes (map (\<lambda>a. (a, get_reg d a)) as))"
    using 6 by (intro emulator_reads) (auto simp: Suc_le_eq)
  then show ?case by (auto dest: same_but_polls_ok [OF 6(1)])
next
  case (7 d seq request cmd rest)
  then show ?case by (intro emulator_refuses)
qed

text \<open>A board on a local network: replies take a millisecond.\<close>

definition EMULATOR_LATENCY :: nat where "EMULATOR_LATENCY = 1000000"

interpretation emu: register_device "emulator_respond EMULATOR_LATENCY" emu_ok get_reg emu_readable
    emu_effect e_next_sequence emu_budget EMULATOR_LATENCY
  by (rule emulator_device) (simp add: EMULATOR_LATENCY_def)

end
