(* ===== verification/Link_Failures.thy ===== *)
theory Link_Failures
  imports Emulator_Link
begin

text \<open>
  What the methods of \<open>Hololink\<close> do when the board does not cooperate: a board that never
  answers, for which every access ends with a timeout within a bounded time, and a board that
  expects another sequence number, which refuses the request and is left as it was.
\<close>

subsection \<open>A board that never answers\<close>

definition silent :: "'d link \<Rightarrow> bool" where
  "silent l \<longleftrightarrow>
     inflight l = [] \<and> lags l = [] \<and> peer_valid l \<and> send_faults l = [] \<and>
     (\<forall>d request. snd (respond l d request) = [])"

text \<open>Waiting for it takes until the deadline, and no longer than two readings of the clock more.\<close>

lemma silent_receive:
  "inflight l = [] \<Longrightarrow> lags l = [] \<Longrightarrow>
   \<exists>c. receive_control (Some t) l = (Inr [], l\<lparr>clock := c\<rparr>) \<and> deadline t < c \<and>
     clock l < c \<and> c \<le> max (clock l + 1) (deadline t + 2)"
proof (induction "Some t" l rule: receive_control.induct)
  case (1 l)
  have tick: "clock_tick l = l\<lparr>clock := clock l + 1\<rparr>"
    using "1.prems"(2) by (simp add: clock_tick_def first_or_def)
  have tick2: "clock_tick (clock_tick l) = l\<lparr>clock := clock l + 2\<rparr>"
    using "1.prems"(2) by (simp add: clock_tick_def first_or_def)
  show ?case
  proof (cases "deadline t < clock l + 1")
    case True
    then show ?thesis using receive_control_expired [of t l] tick by (intro exI [of _ "clock l + 1"]) simp
  next
    case False
    let ?us = "select_us (deadline t - (clock l + 2))"
    let ?l = "l\<lparr>clock := clock l + 2 + 1000 * ?us\<rparr>"
    have us: "0 \<le> ?us" "1000 * ?us \<le> max 0 (deadline t - (clock l + 2))"
      using False by (auto simp: select_us_def pos_imp_zdiv_nonneg_iff)
    have arm: "arm_select (Some t) l = (Some (Some ?us), l\<lparr>clock := clock l + 2\<rparr>)"
      using False tick tick2 by (simp add: arm_select_def expired_def trigger_ns_def Let_def)
    have wait: "sel_wait (Some ?us) (l\<lparr>clock := clock l + 2\<rparr>) = (Sel_timeout, ?l)"
      using us(1) "1.prems"(1) by (simp add: sel_wait_def)
    obtain c where c: "receive_control (Some t) ?l = (Inr [], ?l\<lparr>clock := c\<rparr>)" "deadline t < c"
        "clock ?l < c" "c \<le> max (clock ?l + 1) (deadline t + 2)"
      using "1.hyps"(1) [OF arm [symmetric] refl wait [symmetric] refl] "1.prems" by auto
    have "receive_control (Some t) l = receive_control (Some t) ?l"
      using arm wait by (simp add: receive_control.simps [of "Some t" l])
    with c us False show ?thesis by (intro exI [of _ c]) auto
  qed
qed

lemma silent_execute:
  assumes "silent l"
  shows "\<exists>c d. execute seq request (Some t) l = (Inr None, l\<lparr>clock := c, device := d\<rparr>) \<and>
    deadline t < c \<and> clock l < c \<and> c \<le> max (clock l + 3) (deadline t + 3)"
proof -
  obtain d' where d': "respond l (device l) request = (d', [])"
    using assms unfolding silent_def by (metis prod.collapse)
  let ?l = "l\<lparr>clock := clock l + 1, device := d'\<rparr>"
  have l: "inflight l = []" "lags l = []" "peer_valid l" "send_faults l = []"
    using assms by (simp_all add: silent_def)
  have send: "hthen (hmodify clock_tick) (send_control request) l = (Inr (), ?l)"
    using l d' by (simp add: send_control_def deliver_def clock_tick_def first_or_def hthen_def hbind_def)
  obtain c where c: "receive_control (Some t) ?l = (Inr [], ?l\<lparr>clock := c\<rparr>)" "deadline t < c"
      "clock ?l < c" "c \<le> max (clock ?l + 1) (deadline t + 2)"
    using silent_receive [of ?l t] l by auto
  have "await_reply seq (Some t) ?l = (Inr None, ?l\<lparr>clock := c + 1\<rparr>)"
    using c(1) l by (simp add: await_reply.simps [of seq "Some t" ?l] clock_tick_def first_or_def)
  with send have "execute seq request (Some t) l = (Inr None, l\<lparr>clock := c + 1, device := d'\<rparr>)"
    by (simp add: execute_def hthen_def hbind_def split: prod.splits sum.splits)
  with c(2-4) show ?thesis by (intro exI [of _ "c + 1"] exI [of _ d']) auto
qed

lemma silent_later: "silent l \<Longrightarrow> silent (l\<lparr>clock := c, device := d\<rparr>)"
  by (simp add: silent_def)

text \<open>
  So the loop of an access gives up, after its timeout expired and no later than one retry
  interval (and a few readings of the clock) beyond it.
\<close>

lemma silent_retry_loop:
  assumes "silent (link s)" and "\<And>check. \<exists>bytes. request check = Inr bytes"
    and "0 < retry_ns t" and "clock (link s) < expiry t" and "deadline t \<le> clock (link s) + retry_ns t"
  shows "\<exists>t' check' s'. retry_loop request decode True seq t check s = (Inr (Out_of_time, t', check'), s') \<and>
    silent (link s') \<and> host s' = host s \<and> expiry t \<le> clock (link s') \<and>
    clock (link s') \<le> expiry t + retry_ns t + 5"
  using assms
proof (induction request decode True seq t check s rule: retry_loop.induct)
  case (1 request decode seq t check s)
  obtain bytes where bytes: "request check = Inr bytes" using "1.prems"(2) by blast
  obtain c d where c: "execute seq bytes (Some t) (link s) = (Inr None, (link s)\<lparr>clock := c, device := d\<rparr>)"
      "deadline t < c" "clock (link s) < c" "c \<le> max (clock (link s) + 3) (deadline t + 3)"
    using silent_execute [OF "1.prems"(1)] by blast
  let ?s1 = "s\<lparr>link := (link s)\<lparr>clock := c, device := d\<rparr>\<rparr>"
  let ?s2 = "s\<lparr>link := (link s)\<lparr>clock := c + 1, device := d\<rparr>\<rparr>"
  have at: "attempt (request check) decode seq t s = (Inr None, ?s1)"
    using c(1) by (simp add: attempt_def bytes on_link_def hbind_def)
  have lags: "lags (link s) = []" using "1.prems"(1) by (simp add: silent_def)
  have retry: "do_retry t ?s1 = (timeout_retry (c + 1) t, ?s2)"
    using "1.prems"(3) lags by (simp add: do_retry_def can_retry_def clock_tick_def first_or_def)
  have s2: "silent (link ?s2)" using silent_later [OF "1.prems"(1)] by simp
  show ?case
  proof (cases "expiry t \<le> c + 1")
    case True
    then have "timeout_retry (c + 1) t = (False, t)" by (simp add: timeout_retry_def)
    with at retry have "retry_loop request decode True seq t check s = (Inr (Out_of_time, t, check), ?s2)"
      by (simp add: retry_loop.simps [of request])
    with True s2 c(4) "1.prems"(3,4,5) show ?thesis by auto
  next
    case False
    let ?t = "t\<lparr>deadline := deadline t + retry_ns t\<rparr>"
    have tr: "timeout_retry (c + 1) t = (True, ?t)"
      using False c(2) "1.prems"(3) by (simp add: timeout_retry_def)
    have retry': "do_retry t ?s1 = ((True, ?t), ?s2)" using retry tr by simp
    note ih = "1.hyps" [OF at [symmetric] refl refl _ retry' [symmetric] refl]
    have "\<exists>t' check' s'. retry_loop request decode True seq ?t False ?s2 = (Inr (Out_of_time, t', check'), s') \<and>
        silent (link s') \<and> host s' = host ?s2 \<and> expiry ?t \<le> clock (link s') \<and>
        clock (link s') \<le> expiry ?t + retry_ns ?t + 5"
      by (rule ih) (use s2 "1.prems"(2,3) False c(2) in auto)
    moreover have "retry_loop request decode True seq t check s = retry_loop request decode True seq ?t False ?s2"
      using at retry' by (simp add: retry_loop.simps [of request _ _ _ t])
    ultimately show ?thesis by auto
  qed
qed

text \<open>Every access to such a board ends with \<open>Timeout_error\<close>, after about half a second.\<close>

lemma silent_default:
  assumes "silent (link s)"
  shows "default_timeout None s =
      (Inr (make_timeout (clock (link s) + 1) DEFAULT_TIMEOUT_NS DEFAULT_RETRY_NS),
       s\<lparr>link := (link s)\<lparr>clock := clock (link s) + 1\<rparr>\<rparr>)"
  using assms
  by (simp add: silent_def default_timeout_def on_link_def read_clock_def clock_tick_def first_or_def hbind_def)

lemma silent_loop_default:
  fixes s :: "'d hsb"
  assumes "silent (link s)" and "\<And>check. \<exists>bytes. request check = Inr bytes"
  shows "\<exists>t' check' s'. retry_loop request decode True seq
      (make_timeout (clock (link s) + 1) DEFAULT_TIMEOUT_NS DEFAULT_RETRY_NS) check
      (s\<lparr>link := (link s)\<lparr>clock := clock (link s) + 1\<rparr>, host := h\<rparr>) = (Inr (Out_of_time, t', check'), s') \<and>
    host s' = h \<and> clock (link s) + DEFAULT_TIMEOUT_NS < clock (link s') \<and>
    clock (link s') \<le> clock (link s) + DEFAULT_TIMEOUT_NS + DEFAULT_RETRY_NS + 6"
proof -
  let ?t = "make_timeout (clock (link s) + 1) DEFAULT_TIMEOUT_NS DEFAULT_RETRY_NS"
  let ?s = "s\<lparr>link := (link s)\<lparr>clock := clock (link s) + 1\<rparr>, host := h\<rparr>"
  have "silent (link ?s)" using assms(1) by (simp add: silent_def)
  from silent_retry_loop [where request = request, OF this assms(2), where t = ?t and decode = decode and seq = seq and check = check]
  show ?thesis by (auto simp: make_timeout_def DEFAULT_TIMEOUT_NS_def DEFAULT_RETRY_NS_def)
qed

lemma silent_write:
  assumes "silent (link s)" and "\<not> misaligned a"
  shows "\<exists>s'. write_uint32 a v s = (Inl (Timeout_error ''write_uint32''), s') \<and>
    clock (link s) + DEFAULT_TIMEOUT_NS < clock (link s') \<and>
    clock (link s') \<le> clock (link s) + DEFAULT_TIMEOUT_NS + DEFAULT_RETRY_NS + 6"
proof -
  let ?h = "(host s)\<lparr>hl_sequence := hl_sequence (host s) + 1\<rparr>" and ?q = "hl_sequence (host s)"
  have req: "\<exists>bytes. write_block_request [(a, v)] ?q check = Inr bytes"
    "\<exists>bytes. write_dword_request a v ?q check = Inr bytes" for check
    using write_block_request_ok [of "[(a, v)]"] write_dword_request_ok [OF assms(2)] assms(2) by auto
  show ?thesis
    using silent_loop_default [where request = "write_block_request [(a, v)] ?q", OF assms(1) req(1), where decode = interpret_write and seq = ?q and check = "sequence_number_checking (host s)" and h = ?h]
      silent_loop_default [where request = "write_dword_request a v ?q", OF assms(1) req(2), where decode = interpret_write and seq = ?q and check = "sequence_number_checking (host s)" and h = ?h]
    by (auto simp: write_uint32_def write_uint32_to_def write_uint32_full_def write_data_def write_block_def
        silent_default [OF assms(1)] next_sequence_def hbind_def)
qed

lemma silent_read:
  assumes "silent (link s)" and "\<not> misaligned a"
  shows "\<exists>s'. read_uint32 a s = (Inl (Timeout_error ''read_uint32''), s') \<and>
    clock (link s) + DEFAULT_TIMEOUT_NS < clock (link s') \<and>
    clock (link s') \<le> clock (link s) + DEFAULT_TIMEOUT_NS + DEFAULT_RETRY_NS + 6"
proof -
  let ?h = "(host s)\<lparr>hl_sequence := hl_sequence (host s) + 1\<rparr>" and ?q = "hl_sequence (host s)"
  have req: "\<exists>bytes. read_dword_request a ?q check = Inr bytes" for check
    using read_dword_request_ok [OF assms(2)] by auto
  show ?thesis
    using silent_loop_default [where request = "read_dword_request a ?q", OF assms(1) req, where decode = interpret_read and seq = ?q and check = "sequence_number_checking (host s)" and h = ?h]
    by (auto simp: read_uint32_def read_uint32_to_def read_uint32_full_def silent_default [OF assms(1)]
        next_sequence_def hbind_def)
qed

subsection \<open>A board that expects another sequence number\<close>

context register_device
begin

definition out_of_step :: "'d hsb \<Rightarrow> bool" where
  "out_of_step s \<longleftrightarrow>
     at_rest (link s) \<and> respond (link s) = step \<and> dev_ok (device (link s)) \<and>
     hl_sequence (host s) \<noteq> expected (device (link s)) \<and> sequence_number_checking (host s)"

text \<open>The request is refused; the error is raised at once, and the board has not changed.\<close>

lemma refused_attempt:
  assumes s: "out_of_step s"
    and req: "request True = Inr (header_bytes cmd (request_flags True) (hl_sequence (host s)) @ rest)"
      "4 \<le> length rest" "length rest \<le> 8"
    and interp: "\<And>code d. code \<noteq> RESPONSE_SUCCESS \<Longrightarrow> decode code d = Inl e"
  shows "\<exists>s'. retry_loop request decode True (hl_sequence (host s))
      (make_timeout (clock (link s) + 1) DEFAULT_TIMEOUT_NS DEFAULT_RETRY_NS) True
      (s\<lparr>link := (link s)\<lparr>clock := clock (link s) + 1\<rparr>, host := h\<rparr>) = (Inl e, s') \<and>
    device (link s') = device (link s)"
proof -
  let ?t = "make_timeout (clock (link s) + 1) DEFAULT_TIMEOUT_NS DEFAULT_RETRY_NS"
  let ?l = "(link s)\<lparr>clock := clock (link s) + 1\<rparr>" and ?q = "hl_sequence (host s)"
  let ?req = "header_bytes cmd (request_flags True) ?q @ rest"
  have l: "at_rest ?l" "respond ?l (device ?l) ?req = step (device (link s)) ?req"
    using s by (simp_all add: out_of_step_def at_rest_def)
  have len: "length ?req \<le> CONTROL_PACKET_SIZE" using req(3) by (simp add: CONTROL_PACKET_SIZE_def)
  obtain reply code rest' where reply: "step (device (link s)) ?req = (device (link s), [(latency, Datagram reply)])"
      "code \<noteq> RESPONSE_SUCCESS" "reply_head reply ?q code rest'"
    using sequence_law [of "device (link s)" ?q ?req cmd rest] s req(2) len by (auto simp: out_of_step_def)
  obtain d where d: "parse_reply_header reply = Some (?q, code, d)" "length reply \<le> CONTROL_PACKET_SIZE"
    by (rule reply_parsed [OF reply(3)])
  have "clock ?l + int latency + 2000 \<le> deadline ?t"
    using latency_bound by (simp add: make_timeout_def DEFAULT_RETRY_NS_def)
  then obtain c where "execute ?q ?req (Some ?t) ?l =
      (Inr (Some (code, d)), ?l\<lparr>clock := c, device := device (link s), inflight := []\<rparr>)"
    using execute_answered [OF l(1) _ d] l(2) reply(1) by metis
  then have "attempt (request True) decode ?q ?t (s\<lparr>link := ?l, host := h\<rparr>) =
      (Inl e, s\<lparr>link := ?l\<lparr>clock := c, device := device (link s), inflight := []\<rparr>, host := h\<rparr>)"
    using interp [OF reply(2)] by (simp add: attempt_def req(1) on_link_def hbind_def)
  then show ?thesis by (simp add: retry_loop.simps [of request])
qed

lemma refused_default:
  assumes "out_of_step s"
  shows "default_timeout None s =
      (Inr (make_timeout (clock (link s) + 1) DEFAULT_TIMEOUT_NS DEFAULT_RETRY_NS),
       s\<lparr>link := (link s)\<lparr>clock := clock (link s) + 1\<rparr>\<rparr>)"
  using assms
  by (simp add: out_of_step_def at_rest_def default_timeout_def on_link_def read_clock_def clock_tick_def
      first_or_def hbind_def)

lemma write_refused:
  assumes "out_of_step s" and "\<not> misaligned a"
  shows "\<exists>s'. write_uint32 a v s = (Inl (Transaction_error ''bad write response''), s') \<and>
    device (link s') = device (link s)"
proof -
  let ?h = "(host s)\<lparr>hl_sequence := hl_sequence (host s) + 1\<rparr>" and ?q = "hl_sequence (host s)"
  have chk: "sequence_number_checking (host s)" using assms(1) by (simp add: out_of_step_def)
  have req: "write_block_request [(a, v)] ?q True = Inr (header_bytes WR_BLOCK (request_flags True) ?q @ pairs_bytes [(a, v)])"
    "write_dword_request a v ?q True = Inr (header_bytes WR_DWORD (request_flags True) ?q @ pairs_bytes [(a, v)])"
    using write_block_request_ok [of "[(a, v)]"] write_dword_request_ok [OF assms(2)] assms(2) by auto
  have err: "code \<noteq> RESPONSE_SUCCESS \<Longrightarrow> interpret_write code d = Inl (Transaction_error ''bad write response'')" for code d
    by (simp add: interpret_write_def)
  show ?thesis
    using refused_attempt [where request = "write_block_request [(a, v)] ?q" and h = ?h and decode = interpret_write, OF assms(1) req(1) _ _ err]
      refused_attempt [where request = "write_dword_request a v ?q" and h = ?h and decode = interpret_write, OF assms(1) req(2) _ _ err] chk
    by (auto simp: write_uint32_def write_uint32_to_def write_uint32_full_def write_data_def write_block_def
        refused_default [OF assms(1)] next_sequence_def hbind_def)
qed

end

end
