(* ===== verification/Hsb_Metadata.thy ===== *)
theory Hsb_Metadata
  imports Hololink_Control
begin

text \<open>
  The class \<open>Metadata\<close> (src/src/hololink/core/metadata.hpp), a map from names to values of three
  types, and how a \<open>Hololink\<close> is found or made from it: \<open>from_enumeration_metadata\<close>, with the
  objects kept by serial number (src/src/hololink/core/hololink.cpp).
\<close>

subsection \<open>The map\<close>

datatype meta_value = Meta_int int | Meta_string string | Meta_bytes bytes

type_synonym metadata = "string \<rightharpoonup> meta_value"

text \<open>\<open>get<T>\<close>: nothing when the key is not there, or its value has another type.\<close>

definition get_int :: "metadata \<Rightarrow> string \<Rightarrow> int option" where
  "get_int md k = (case md k of Some (Meta_int v) \<Rightarrow> Some v | _ \<Rightarrow> None)"

definition get_string :: "metadata \<Rightarrow> string \<Rightarrow> string option" where
  "get_string md k = (case md k of Some (Meta_string v) \<Rightarrow> Some v | _ \<Rightarrow> None)"

definition get_bytes :: "metadata \<Rightarrow> string \<Rightarrow> bytes option" where
  "get_bytes md k = (case md k of Some (Meta_bytes v) \<Rightarrow> Some v | _ \<Rightarrow> None)"

text \<open>\<open>value()\<close> of an optional: it throws where there is none.\<close>

definition opt_value :: "'a option \<Rightarrow> hsb_error + 'a" where
  "opt_value x = (case x of None \<Rightarrow> Inl Bad_optional_access | Some v \<Rightarrow> Inr v)"

definition meta_update :: "metadata \<Rightarrow> metadata \<Rightarrow> metadata" where
  "meta_update md other = (\<lambda>k. case other k of None \<Rightarrow> md k | Some v \<Rightarrow> Some v)"

lemma meta_update_map_add: "meta_update md other = md ++ other"
  by (simp add: meta_update_def map_add_def)

lemma get_upd [simp]:
  "get_int (md(k \<mapsto> Meta_int v)) k = Some v"
  "get_string (md(k \<mapsto> Meta_string s)) k = Some s"
  "get_bytes (md(k \<mapsto> Meta_bytes b)) k = Some b"
  "k' \<noteq> k \<Longrightarrow> get_int (md(k \<mapsto> x)) k' = get_int md k'"
  "k' \<noteq> k \<Longrightarrow> get_string (md(k \<mapsto> x)) k' = get_string md k'"
  "k' \<noteq> k \<Longrightarrow> get_bytes (md(k \<mapsto> x)) k' = get_bytes md k'"
  by (simp_all add: get_int_def get_string_def get_bytes_def)

text \<open>\<open>static_cast\<close> of an \<open>int64_t\<close>.\<close>

definition cast_u32 :: "int \<Rightarrow> u32" where "cast_u32 v = word_of_int v"
definition cast_u16 :: "int \<Rightarrow> u16" where "cast_u16 v = word_of_int v"

subsection \<open>Boards by serial number\<close>

definition hololink_enumerated :: "metadata \<Rightarrow> bool" where
  "hololink_enumerated md \<longleftrightarrow>
     get_string md ''serial_number'' \<noteq> None \<and> get_string md ''peer_ip'' \<noteq> None \<and> get_int md ''control_port'' \<noteq> None"

definition HOLOLINK_100G_BOARD_ID :: int where "HOLOLINK_100G_BOARD_ID = 3"

text \<open>
  What a new object is made with. An absent \<open>sequence_number_checking\<close> compares unequal to zero.
\<close>

record board_entry =
  be_peer_ip :: string
  be_control_port :: u32
  be_hololink :: hololink

definition hololink_of_metadata :: "metadata \<Rightarrow> hololink" where
  "hololink_of_metadata md =
     (let checking = (get_int md ''sequence_number_checking'' \<noteq> Some 0);
          skip_init = (get_int md ''board_id'' = Some HOLOLINK_100G_BOARD_ID);
          ptp = (case get_int md ''ptp_enable'' of None \<Rightarrow> True | Some v \<Rightarrow> v \<noteq> 0);
          block = (case get_int md ''block_enable'' of None \<Rightarrow> True | Some v \<Rightarrow> v \<noteq> 0)
      in new_hololink checking skip_init ptp block)"

text \<open>
  The registry maps serial numbers to objects; the objects are the entries of \<open>boards\<close>, and a
  reference is their index.
\<close>

record board_registry =
  by_serial_number :: "string \<rightharpoonup> nat"
  boards :: "board_entry list"

definition from_enumeration_metadata :: "metadata \<Rightarrow> (board_registry, nat) hm" where
  "from_enumeration_metadata md =
     (case get_string md ''serial_number'' of
        None \<Rightarrow> hthrow (Runtime_error ''Metadata has no serial_number'')
      | Some serial \<Rightarrow>
          hbind (hgets (\<lambda>g. by_serial_number g serial)) (\<lambda>found.
            case found of
              Some r \<Rightarrow> hret r
            | None \<Rightarrow>
                (case (get_string md ''peer_ip'', get_int md ''control_port'') of
                   (None, _) \<Rightarrow> hthrow (Runtime_error ''Metadata has no peer_ip'')
                 | (_, None) \<Rightarrow> hthrow (Runtime_error ''Metadata has no control_port'')
                 | (Some peer_ip, Some control_port) \<Rightarrow>
                     hbind (hgets (\<lambda>g. length (boards g))) (\<lambda>r.
                       hthen (hmodify (\<lambda>g. g
                         \<lparr>by_serial_number := (by_serial_number g)(serial \<mapsto> r),
                          boards := boards g @ [\<lparr>be_peer_ip = peer_ip, be_control_port = cast_u32 control_port,
                             be_hololink = hololink_of_metadata md\<rparr>]\<rparr>)) (hret r)))))"

definition registry_reset :: "board_registry \<Rightarrow> board_registry" where
  "registry_reset g = g\<lparr>by_serial_number := (\<lambda>_. None)\<rparr>"

text \<open>Every serial number has an object of its own.\<close>

definition registry_ok :: "board_registry \<Rightarrow> bool" where
  "registry_ok g \<longleftrightarrow>
     (\<forall>s r. by_serial_number g s = Some r \<longrightarrow> r < length (boards g)) \<and>
     inj_on (by_serial_number g) (dom (by_serial_number g))"

lemma from_enumeration_metadata_known:
  assumes "get_string md ''serial_number'' = Some serial" and "by_serial_number g serial = Some r"
  shows "from_enumeration_metadata md g = (Inr r, g)"
  using assms by (simp add: from_enumeration_metadata_def)

lemma from_enumeration_metadata_new:
  assumes "hololink_enumerated md" and "get_string md ''serial_number'' = Some serial"
    and "by_serial_number g serial = None"
  shows "\<exists>g' e. from_enumeration_metadata md g = (Inr (length (boards g)), g') \<and> boards g' = boards g @ [e] \<and>
    be_hololink e = hololink_of_metadata md \<and> Some (be_peer_ip e) = get_string md ''peer_ip'' \<and>
    by_serial_number g' = (by_serial_number g)(serial \<mapsto> length (boards g))"
  using assms by (auto simp: hololink_enumerated_def from_enumeration_metadata_def)

lemma from_enumeration_metadata_ok:
  assumes "registry_ok g" and "from_enumeration_metadata md g = (r, g')"
  shows "registry_ok g'"
proof (cases "g' = g")
  case True
  with assms(1) show ?thesis by simp
next
  case False
  then obtain serial e where g: "by_serial_number g serial = None"
      "by_serial_number g' = (by_serial_number g)(serial \<mapsto> length (boards g))" "boards g' = boards g @ [e]"
    using assms(2) by (auto simp: from_enumeration_metadata_def split: option.splits)
  then show ?thesis using assms(1)
    by (fastforce simp: registry_ok_def inj_on_def less_Suc_eq)
qed

text \<open>The same serial number gives the same object, and a call for another one does not change that.\<close>

lemma from_enumeration_metadata_stable:
  assumes "hololink_enumerated md" and "get_string md' ''serial_number'' = get_string md ''serial_number''"
    and "from_enumeration_metadata md g = (Inr r, g')"
  shows "from_enumeration_metadata md' g' = (Inr r, g')"
proof -
  obtain serial where s: "get_string md ''serial_number'' = Some serial" using assms(1) by (auto simp: hololink_enumerated_def)
  have "by_serial_number g' serial = Some r"
  proof (cases "by_serial_number g serial")
    case None
    with from_enumeration_metadata_new [OF assms(1) s None] assms(3) show ?thesis by auto
  next
    case (Some r')
    with from_enumeration_metadata_known [OF s Some] assms(3) show ?thesis by simp
  qed
  then show ?thesis using s assms(2) by (intro from_enumeration_metadata_known [of md' serial]) simp_all
qed

end
