(* ===== verification/Packetizer.thy ===== *)
theory Packetizer
  imports Device_Contract
begin

text \<open>
  The packetizer programs (src/src/hololink/core/packetizer_program.cpp): what \<open>enable\<close> and
  \<open>disable\<close> write to the registers of a sensor interface, and the size of the packetized data.
  A program is the list of its memory words: each one is written as its address and its value.
\<close>

subsection \<open>Programs\<close>

definition PACKETIZER_MODE :: u32 where "PACKETIZER_MODE = 0x0C"
definition PACKETIZER_RAM :: u32 where "PACKETIZER_RAM = 0x04"
definition PACKETIZER_DATA :: u32 where "PACKETIZER_DATA = 0x08"

datatype pixel_format = RAW_8 | RAW_10 | RAW_12

datatype packetizer_program = Null_packetizer | Csi10_to_packed10 | Csi12_to_packed12

definition get_packetizer_program :: "pixel_format \<Rightarrow> packetizer_program" where
  "get_packetizer_program f =
     (case f of RAW_10 \<Rightarrow> Csi10_to_packed10 | RAW_12 \<Rightarrow> Csi12_to_packed12 | _ \<Rightarrow> Null_packetizer)"

text \<open>The memory of \<open>Csi10ToPacked10::enable\<close>, one element after the other.\<close>

definition CSI10_ELEMENT_0 :: "(u32 \<times> u32) list" where
  "CSI10_ELEMENT_0 =
     [(0x00, 0x2AAAAAAA), (0x10, 0x2A9AA6AA), (0x20, 0x02020000), (0x40, 0x05000000),
      (0x50, 0x00001865), (0x60, 0x20300000), (0x70, 0x1C007061), (0x90, 0x40044400),
      (0xa0, 0x50000600), (0xb0, 0x20802080), (0xc0, 0x9362E000), (0xd0, 0x01B18626),
      (0x140, 0x00000001)]"

definition CSI10_ELEMENT_1 :: "(u32 \<times> u32) list" where
  "CSI10_ELEMENT_1 =
     [(0x01, 0x2AAAABFE), (0x11, 0x2AAAAAAA), (0x81, 0x00010000), (0x91, 0x440CCC81),
      (0xa1, 0x01555600), (0xb1, 0x18006085), (0xc1, 0x9362E000), (0xd1, 0x01B10724),
      (0xf1, 0x00222200), (0x101, 0xA802A800), (0x111, 0xE0000002), (0x121, 0x6DB0F000),
      (0x131, 0x0000C001), (0x141, 0x00000001)]"

definition CSI10_ELEMENT_2 :: "(u32 \<times> u32) list" where
  "CSI10_ELEMENT_2 =
     [(0x02, 0x2AAAABFE), (0x12, 0x2A9AA6AA), (0x22, 0x01000000), (0x32, 0x11110000),
      (0x42, 0x05000000), (0x52, 0x00001865), (0x62, 0x20300000), (0x72, 0x1C007061),
      (0x92, 0x00111100), (0xa2, 0xA9557800), (0xb2, 0xD80C668D), (0xc2, 0xDB63E001),
      (0xd2, 0x01C18022), (0xf2, 0x00222200), (0x102, 0xA802A800), (0x112, 0xE0000002),
      (0x122, 0x6DB0F000), (0x132, 0x0000C001), (0x142, 0x00000001)]"

definition CSI10_ELEMENT_3 :: "(u32 \<times> u32) list" where
  "CSI10_ELEMENT_3 =
     [(0x03, 0x155AA6A9), (0x13, 0x15555555), (0x23, 0x00010000), (0x33, 0x00444401),
      (0x43, 0x02AAA000), (0x53, 0x3C00C108), (0x63, 0x9B7FC05C), (0x73, 0x03624AC0),
      (0xa3, 0x05555000), (0xb3, 0xC0000000), (0xc3, 0x013FE01F), (0xd3, 0x00018206),
      (0x143, 0x00000001)]"

definition CSI10_ELEMENT_4 :: "(u32 \<times> u32) list" where
  "CSI10_ELEMENT_4 =
     [(0x04, 0x155AA6A9), (0x14, 0x15555555), (0x24, 0x00800000), (0x34, 0x00444480),
      (0x44, 0xF2A15000), (0x54, 0xB006840F), (0x64, 0x0B7FC07F), (0x74, 0x038344CC),
      (0xa4, 0x05555000), (0xb4, 0xC0000000), (0xc4, 0x013FE01F), (0xd4, 0x00018206),
      (0x144, 0x00000001)]"

definition CSI10_ELEMENT_5 :: "(u32 \<times> u32) list" where
  "CSI10_ELEMENT_5 =
     [(0x05, 0x155AAAAA), (0x15, 0x15555555), (0x35, 0x00444400), (0x45, 0xA2A00000),
      (0x55, 0xF000820A), (0x65, 0x64BA1FFF), (0x75, 0x6360C8C3), (0x85, 0x40400000),
      (0x95, 0x44226600), (0xa5, 0x50501000), (0xb5, 0xE0C04145), (0xc5, 0x06DF807F),
      (0xd5, 0x00003C78), (0x145, 0x00000001)]"

definition CSI10_ELEMENT_6 :: "(u32 \<times> u32) list" where
  "CSI10_ELEMENT_6 =
     [(0x06, 0x2A9AA6A9), (0x16, 0x15555555), (0x26, 0x40400000), (0x36, 0x88191100),
      (0x46, 0x00000800), (0x56, 0x80000000), (0x66, 0x66F9DFFF), (0x76, 0x63E3CCCF),
      (0x96, 0x00222200), (0xa6, 0x55500000), (0xb6, 0xC0000005), (0xc6, 0xB7FEE1FF),
      (0xd6, 0x00318607), (0x146, 0x00000001)]"

definition CSI10_ELEMENT_7 :: "(u32 \<times> u32) list" where
  "CSI10_ELEMENT_7 =
     [(0x07, 0x2A9AAAAA), (0x17, 0x15555555), (0x37, 0x00222200), (0x47, 0x50005000),
      (0x57, 0xC0180C11), (0x67, 0x00A01FFF), (0x77, 0x7FE0F033), (0x87, 0x20200000),
      (0x97, 0x44440000), (0xa7, 0x50001000), (0xb7, 0xE0C020C0), (0xc7, 0xB05807FF),
      (0xd7, 0x003078F9), (0x147, 0x00000001)]"

definition CSI10_ELEMENT_8 :: "(u32 \<times> u32) list" where
  "CSI10_ELEMENT_8 =
     [(0x08, 0x2A9AA6A9), (0x18, 0x155556A9), (0x28, 0x20200000), (0x38, 0x00222200),
      (0x48, 0x52054000), (0x58, 0x2003C31F), (0x68, 0xD03FDFE0), (0x78, 0x60E0CC8A),
      (0xb8, 0xC0000000), (0xc8, 0x9362FFFF), (0xd8, 0x01B18626), (0x148, 0x00000001)]"

definition CSI10_ELEMENT_9 :: "(u32 \<times> u32) list" where
  "CSI10_ELEMENT_9 =
     [(0x09, 0x2A9AAAAA), (0x19, 0x155556A9), (0x39, 0x00222200), (0x49, 0x05555000),
      (0x59, 0x00180804), (0x69, 0xB66FDFFC), (0x79, 0x7CE0F073), (0x89, 0x10100000),
      (0x99, 0x22113300), (0xa9, 0xAD02A800), (0xb9, 0x20006187), (0xc9, 0xEB3FE7FE),
      (0xd9, 0x01B1F8DB), (0x149, 0x00000001)]"

definition CSI10_ELEMENT_10 :: "(u32 \<times> u32) list" where
  "CSI10_ELEMENT_10 =
     [(0x0a, 0x2AAAAAAA), (0x1a, 0x155556AA), (0x2a, 0x10100000), (0x3a, 0x44440000),
      (0x4a, 0x07555000), (0x5a, 0x2000C30A), (0x6a, 0x403FDFC0), (0x7a, 0x6000C082),
      (0x9a, 0x00555500), (0xaa, 0xF802F800), (0xba, 0x26003043), (0xca, 0xDB63FFFE),
      (0xda, 0x01C18022), (0x14a, 0x00000001)]"

definition CSI10_ELEMENT_11 :: "(u32 \<times> u32) list" where
  "CSI10_ELEMENT_11 =
     [(0x0b, 0x2A9AAAAA), (0x1b, 0x155AA6A9), (0x3b, 0x00111100), (0x4b, 0x05555000),
      (0x6b, 0x49BFDF00), (0x7b, 0x7CE0F072), (0x8b, 0x08080000), (0x9b, 0x22220000),
      (0xab, 0x07AAA800), (0xbb, 0x20006185), (0xcb, 0x35FFE600), (0xdb, 0x01B1DA9F),
      (0x14b, 0x00000001)]"

definition CSI10_ELEMENT_12 :: "(u32 \<times> u32) list" where
  "CSI10_ELEMENT_12 =
     [(0x0c, 0x2AAAAAAA), (0x1c, 0x155AA6AA), (0x2c, 0x08080000), (0x3c, 0x00111100),
      (0x4c, 0x55500000), (0x5c, 0x00000005), (0x6c, 0x4DBF1F00), (0x7c, 0x7C00F872),
      (0xac, 0x52ABF800), (0xbc, 0x21801005), (0xcc, 0x05BFFFC0), (0xdc, 0x01C1A266),
      (0x14c, 0x00000001)]"

definition CSI10_ELEMENT_13 :: "(u32 \<times> u32) list" where
  "CSI10_ELEMENT_13 =
     [(0x0d, 0x2A9AAAAA), (0x1d, 0x2A9AA6A9), (0x3d, 0x00111100), (0x4d, 0x55500000),
      (0x5d, 0x00200045), (0x6d, 0x24300000), (0x7d, 0x1CC07061), (0x8d, 0x04040000),
      (0x9d, 0x11089980), (0xad, 0xA8280800), (0xbd, 0x0001882A), (0xcd, 0xB25D1000),
      (0xdd, 0x31B06461), (0x14d, 0x00000001)]"

definition CSI10_ELEMENT_14 :: "(u32 \<times> u32) list" where
  "CSI10_ELEMENT_14 =
     [(0x0e, 0x2AAAAAAA), (0x1e, 0x2A9AA6AA), (0x2e, 0x04040000), (0x3e, 0x22220000),
      (0x6e, 0x20300000), (0x7e, 0x1C007061), (0x9e, 0x002AAA80), (0xae, 0xAAA80000),
      (0xbe, 0x20000002), (0xce, 0xB37CF000), (0xde, 0x31F1E667), (0x14e, 0x00000001)]"

definition CSI10_ELEMENT_15 :: "(u32 \<times> u32) list" where
  "CSI10_ELEMENT_15 =
     [(0x0f, 0x2AAAAAAA), (0x1f, 0x2AAAAAAA), (0x8f, 0x02020000), (0x9f, 0x11554400),
      (0xaf, 0x78005800), (0xbf, 0x0601B459), (0xcf, 0x80501000), (0xdf, 0x3FF07819),
      (0x14f, 0x00000001)]"

definition CSI10_MEMORY :: "(u32 \<times> u32) list" where
  "CSI10_MEMORY =
     CSI10_ELEMENT_0 @ CSI10_ELEMENT_1 @ CSI10_ELEMENT_2 @ CSI10_ELEMENT_3 @ CSI10_ELEMENT_4 @ CSI10_ELEMENT_5 @
     CSI10_ELEMENT_6 @ CSI10_ELEMENT_7 @ CSI10_ELEMENT_8 @ CSI10_ELEMENT_9 @ CSI10_ELEMENT_10 @ CSI10_ELEMENT_11 @
     CSI10_ELEMENT_12 @ CSI10_ELEMENT_13 @ CSI10_ELEMENT_14 @ CSI10_ELEMENT_15"

text \<open>The memory of \<open>Csi12ToPacked12::enable\<close>, one element after the other.\<close>

definition CSI12_ELEMENT_0 :: "(u32 \<times> u32) list" where
  "CSI12_ELEMENT_0 =
     [(0x00, 0xAAAAAAAA), (0x10, 0x5AA5AAAA), (0x30, 0x00111100), (0x40, 0x55500000),
      (0x50, 0x00000005), (0x60, 0x6DBC3000), (0x70, 0x00008103), (0x90, 0x44226600),
      (0xa0, 0xA8002800), (0xb0, 0x0000020A), (0xc0, 0x02400000), (0xd0, 0x00000810),
      (0x140, 0x00000001)]"

definition CSI12_ELEMENT_1 :: "(u32 \<times> u32) list" where
  "CSI12_ELEMENT_1 =
     [(0x01, 0xAAAAAAFF), (0x11, 0xA5AAAAAA), (0x21, 0x02020000), (0x41, 0x05000000),
      (0x51, 0x00001865), (0x61, 0x60300000), (0x71, 0x0000F1E3), (0x81, 0x40400000),
      (0x91, 0x00111100), (0xa1, 0x78005000), (0xb1, 0x00001455), (0xf1, 0x00222200),
      (0x101, 0xA802A800), (0x111, 0xF0000002), (0x121, 0x6DB0F000), (0x141, 0x00000001)]"

definition CSI12_ELEMENT_2 :: "(u32 \<times> u32) list" where
  "CSI12_ELEMENT_2 =
     [(0x02, 0xAAAAAAAF), (0x12, 0xAAAAAAAA), (0x92, 0x004CCC80), (0xa2, 0x50000000),
      (0xb2, 0x00002080), (0xc2, 0x92406000), (0xd2, 0x00000408), (0xe2, 0x20200000),
      (0xf2, 0x22002200), (0x102, 0x28002800), (0x112, 0x30001860), (0x122, 0x01B03000),
      (0x132, 0x0000078F), (0x142, 0x00000001)]"

definition CSI12_MEMORY :: "(u32 \<times> u32) list" where
  "CSI12_MEMORY =
     CSI12_ELEMENT_0 @ CSI12_ELEMENT_1 @ CSI12_ELEMENT_2"

subsection \<open>Operations\<close>

definition program_writes :: "u32 \<Rightarrow> (u32 \<times> u32) list \<Rightarrow> (u32 \<times> u32) list" where
  "program_writes mode memory =
     (PACKETIZER_MODE, mode) #
     concat (map (\<lambda>(ram, d). [(PACKETIZER_RAM, ram), (PACKETIZER_DATA, d)]) memory)"

definition sif_writes :: "u32 \<Rightarrow> (u32 \<times> u32) list \<Rightarrow> (u32 \<times> u32) list" where
  "sif_writes sif_address ws = map (\<lambda>(offset, v). (sif_address + offset, v)) ws"

definition write_regs :: "(u32 \<times> u32) list \<Rightarrow> ('d hsb, unit) hm" where
  "write_regs ws = hseq (map (\<lambda>(a, v). write_reg a v) ws)"

definition packetizer_disable :: "packetizer_program \<Rightarrow> u32 \<Rightarrow> ('d hsb, unit) hm" where
  "packetizer_disable p sif_address = write_reg (sif_address + PACKETIZER_MODE) 0"

definition packetizer_enable :: "packetizer_program \<Rightarrow> u32 \<Rightarrow> ('d hsb, unit) hm" where
  "packetizer_enable p sif_address =
     (case p of
        Null_packetizer \<Rightarrow> packetizer_disable p sif_address
      | Csi10_to_packed10 \<Rightarrow> write_regs (sif_writes sif_address (program_writes 0x11f1fff7 CSI10_MEMORY))
      | Csi12_to_packed12 \<Rightarrow> write_regs (sif_writes sif_address (program_writes 0x11210007 CSI12_MEMORY)))"

definition get_output_size :: "packetizer_program \<Rightarrow> u32 \<Rightarrow> u32" where
  "get_output_size p input_size =
     (case p of
        Csi10_to_packed10 \<Rightarrow> (let num_pixels = (input_size * 8) div 10 in ((num_pixels + 2) div 3) * 4)
      | _ \<Rightarrow> input_size)"

subsection \<open>Their memories\<close>

text \<open>
  A memory word is addressed by its element in the low four bits and its number above them. No
  word is written twice: the addresses grow from element to element and within each of them.
\<close>

definition memory_position :: "u32 \<Rightarrow> u32" where
  "memory_position ram = (ram AND 0xF) * 0x100 + drop_bit 4 ram"

definition memory_ordered :: "(u32 \<times> u32) list \<Rightarrow> bool" where
  "memory_ordered memory \<longleftrightarrow>
     successively (<) (map (\<lambda>w. memory_position (fst w)) memory) \<and> (\<forall>w \<in> set memory. drop_bit 4 (fst w) < 21)"

lemma csi_memories_ordered: "memory_ordered CSI10_MEMORY" "memory_ordered CSI12_MEMORY"
  by code_simp+

subsection \<open>On the board\<close>

text \<open>The writes that a program makes.\<close>

definition enable_writes :: "packetizer_program \<Rightarrow> u32 \<Rightarrow> (u32 \<times> u32) list" where
  "enable_writes p sif_address =
     sif_writes sif_address
       (case p of
          Null_packetizer \<Rightarrow> [(PACKETIZER_MODE, 0)]
        | Csi10_to_packed10 \<Rightarrow> program_writes 0x11f1fff7 CSI10_MEMORY
        | Csi12_to_packed12 \<Rightarrow> program_writes 0x11210007 CSI12_MEMORY)"

lemma write_regs_single: "write_regs [(a, v)] = write_reg a v"
  by (auto simp: write_regs_def hthen_def hbind_def fun_eq_iff split: prod.split sum.split)

lemma packetizer_enable_writes: "packetizer_enable p sif_address = write_regs (enable_writes p sif_address)"
  by (cases p) (simp_all add: packetizer_enable_def enable_writes_def packetizer_disable_def sif_writes_def write_regs_single)

definition packetizer_registers :: "u32 \<Rightarrow> u32 set" where
  "packetizer_registers sif_address =
     {sif_address + PACKETIZER_MODE, sif_address + PACKETIZER_RAM, sif_address + PACKETIZER_DATA}"

lemma program_writes_offsets:
  "fst ` set (program_writes mode memory) \<subseteq> {PACKETIZER_MODE, PACKETIZER_RAM, PACKETIZER_DATA}"
  by (auto simp: program_writes_def)

lemma enable_writes_addresses: "fst ` set (enable_writes p sif_address) \<subseteq> packetizer_registers sif_address"
proof -
  have "fst ` set (sif_writes sif_address ws) = (\<lambda>offset. sif_address + offset) ` fst ` set ws" for ws
    by (force simp: sif_writes_def image_iff)
  then show ?thesis using program_writes_offsets
    by (cases p) (auto simp: enable_writes_def packetizer_registers_def dest!: program_writes_offsets [THEN subsetD, OF imageI])
qed

text \<open>The mode register keeps what was written first: the words after it go elsewhere.\<close>

definition packetizer_mode :: "packetizer_program \<Rightarrow> u32" where
  "packetizer_mode p =
     (case p of Null_packetizer \<Rightarrow> 0 | Csi10_to_packed10 \<Rightarrow> 0x11f1fff7 | Csi12_to_packed12 \<Rightarrow> 0x11210007)"

lemma upds_program_mode:
  "upds R (sif_writes a (program_writes mode memory)) (a + PACKETIZER_MODE) = mode"
proof -
  have "a + PACKETIZER_MODE \<notin> fst ` set (sif_writes a (concat (map (\<lambda>(ram, d). [(PACKETIZER_RAM, ram), (PACKETIZER_DATA, d)]) memory)))"
    by (auto simp: sif_writes_def PACKETIZER_MODE_def PACKETIZER_RAM_def PACKETIZER_DATA_def)
  then show ?thesis by (simp add: program_writes_def sif_writes_def upds_other)
qed

lemma upds_enable_mode: "upds R (enable_writes p a) (a + PACKETIZER_MODE) = packetizer_mode p"
  by (cases p)
    (simp_all add: enable_writes_def packetizer_mode_def upds_program_mode sif_writes_def [of a "[(PACKETIZER_MODE, 0)]"])

context register_device
begin

lemma write_regs_rule:
  assumes "\<forall>av \<in> set avs. effect av = Some [av]"
  shows "runs (st R n h) (write_regs avs) (\<lambda>_. st (upds R avs) n h)"
  using assms
proof (induction avs arbitrary: R)
  case Nil
  then show ?case unfolding write_regs_def by (simp only: list.map hseq.simps upds_simps) (rule runs_hret_conseq)
next
  case (Cons av avs)
  obtain a v where av: "av = (a, v)" by force
  have "runs (st R n h) (write_reg a v) (\<lambda>_. st (R(a := v)) n h)"
    using write_reg_rule [of a v "[(a, v)]" R n h] Cons.prems by (simp add: av)
  moreover have "runs (st (R(a := v)) n h) (write_regs avs) (\<lambda>_. st (upds (R(a := v)) avs) n h)"
    using Cons by simp
  ultimately show ?case by (simp add: write_regs_def av runs_hthen)
qed

lemma packetizer_enable_rule:
  assumes "\<forall>a \<in> packetizer_registers sif_address. \<forall>v. effect (a, v) = Some [(a, v)]"
  shows "runs (st R n h) (packetizer_enable p sif_address) (\<lambda>_. st (upds R (enable_writes p sif_address)) n h)"
  unfolding packetizer_enable_writes
  using assms enable_writes_addresses by (intro write_regs_rule) force

end

text \<open>The size of the packetized data: as many pixels as there are, three to a word, rounded up.\<close>

lemma get_output_size_csi10:
  assumes "unat n < 2 ^ 29"
  shows "unat (get_output_size Csi10_to_packed10 n) = (unat n * 8 div 10 + 2) div 3 * 4"
proof -
  let ?p = "unat n * 8 div 10"
  have "?p < 2 ^ 29" using assms by simp
  have 1: "unat (n * 8) = unat n * 8" using assms by (simp add: unat_word_ariths)
  have 2: "unat ((n * 8) div 10 + 2) = ?p + 2" using assms by (simp add: unat_word_ariths 1 unat_div)
  show ?thesis using assms
    by (simp add: get_output_size_def Let_def unat_word_ariths unat_div 2)
qed

end
