(* ===== verification/Synchronizer.thy ===== *)
theory Synchronizer
  imports Packetizer
begin

text \<open>
  Synchronized cameras (src/src/hololink/core/hololink.cpp): the class \<open>Synchronizer\<close>, which sets
  its pulses up when the first peer is attached and shuts them down with the last one, its two
  subclasses \<open>NullSynchronizer\<close> and \<open>PtpSynchronizer\<close>, and \<open>ptp_synchronize\<close>, which waits for the
  board's clock. The mutexes are left out: a method is one step.
\<close>

subsection \<open>Waiting\<close>

text \<open>\<open>std::this_thread::sleep_for\<close>\<close>

definition sleep_ms :: "nat \<Rightarrow> ('d hsb, unit) hm" where
  "sleep_ms n = on_link (hmodify (\<lambda>l. l\<lparr>clock := clock l + int n * 1000000\<rparr>))"

lemma sleep_ms_run: "sleep_ms n s = (Inr (), s\<lparr>link := (link s)\<lparr>clock := clock (link s) + int n * 1000000\<rparr>\<rparr>)"
  by (simp add: sleep_ms_def on_link_def hmodify_def)

subsection \<open>State\<close>

record ptp_synchronizer =
  pps_frequency :: u32
  pps_frequency_control :: u32
  pps_delay_ns :: u32
  pps_active :: bool

text \<open>\<open>None\<close> is the \<open>NullSynchronizer\<close>. Peers are numbered.\<close>

record synchronizer =
  sy_peers :: "nat list"
  sy_pps :: "ptp_synchronizer option"

definition new_ptp_synchronizer :: ptp_synchronizer where
  "new_ptp_synchronizer =
     \<lparr>pps_frequency = 0, pps_frequency_control = 0, pps_delay_ns = 0, pps_active = False\<rparr>"

definition null_synchronizer :: synchronizer where
  "null_synchronizer = \<lparr>sy_peers = [], sy_pps = None\<rparr>"

subsection \<open>\<open>PtpSynchronizer\<close>\<close>

text \<open>VSYNC Frequency: 0=10Hz, 1=30Hz, 2=60Hz, 3=90Hz, 4=120Hz, 5=1Hz\<close>

definition vsync_frequency_control :: "u32 \<Rightarrow> u32 option" where
  "vsync_frequency_control frequency =
     (if frequency = 1 then Some 5 else if frequency = 10 then Some 0 else if frequency = 30 then Some 1
      else if frequency = 60 then Some 2 else if frequency = 90 then Some 3
      else if frequency = 120 then Some 4 else None)"

definition pps_set_frequency :: "u32 \<Rightarrow> (ptp_synchronizer, unit) hm" where
  "pps_set_frequency frequency p =
     (if pps_frequency p = 0 then
        (case vsync_frequency_control frequency of
           None \<Rightarrow> (Inl (Runtime_error ''Invalid PtpSynchronizer frequency''), p)
         | Some control \<Rightarrow> (Inr (), p\<lparr>pps_frequency_control := control, pps_frequency := frequency\<rparr>))
      else if frequency = 0 then (Inr (), p)
      else if frequency \<noteq> pps_frequency p then
        (Inl (Runtime_error ''PtpSynchronizer frequency is already set''), p)
      else (Inr (), p))"

definition pps_set_delay :: "u32 \<Rightarrow> ('d hsb \<times> ptp_synchronizer, unit) hm" where
  "pps_set_delay delay_ns =
     hthen (on_obj (hmodify (\<lambda>p. p\<lparr>pps_delay_ns := delay_ns\<rparr>)))
       (hbind (hgets (pps_active \<circ> snd)) (\<lambda>active.
          hwhen active
            (on_hsb (write_regs [(VSYNC_CONTROL, 0), (VSYNC_DELAY, delay_ns), (VSYNC_CONTROL, 1)]))))"

definition pps_setup_data :: "ptp_synchronizer \<Rightarrow> (u32 \<times> u32) list" where
  "pps_setup_data p =
     [(VSYNC_CONTROL, 0), (VSYNC_FREQUENCY, pps_frequency_control p), (VSYNC_START, 0),
      (VSYNC_DELAY, pps_delay_ns p), (VSYNC_EXPOSURE, 0xF4240), (VSYNC_CONTROL, 1), (VSYNC_GPIO, 0xF)]"

definition pps_setup :: "('d hsb \<times> ptp_synchronizer, unit) hm" where
  "pps_setup =
     hbind (hgets snd) (\<lambda>p.
       if pps_active p then hret ()
       else hthen (on_hsb (write_regs (pps_setup_data p)))
              (on_obj (hmodify (\<lambda>p. p\<lparr>pps_active := True\<rparr>))))"

definition pps_shutdown :: "('d hsb \<times> ptp_synchronizer, unit) hm" where
  "pps_shutdown =
     hbind (hgets snd) (\<lambda>p.
       if \<not> pps_active p then hret ()
       else hthen (on_hsb (write_regs [(VSYNC_CONTROL, 0)]))
              (on_obj (hmodify (\<lambda>p. p\<lparr>pps_active := False\<rparr>))))"

subsection \<open>\<open>Synchronizer\<close>\<close>

text \<open>The virtual methods \<open>setup\<close>, \<open>shutdown\<close> and \<open>is_enabled\<close>.\<close>

definition with_pps :: "('d hsb \<times> ptp_synchronizer, unit) hm \<Rightarrow> ('d hsb \<times> synchronizer, unit) hm" where
  "with_pps m s =
     (case sy_pps (snd s) of
        None \<Rightarrow> (Inr (), s)
      | Some p \<Rightarrow> (let (r, (b, p')) = m (fst s, p) in (r, (b, (snd s)\<lparr>sy_pps := Some p'\<rparr>))))"

definition sync_is_enabled :: "synchronizer \<Rightarrow> bool" where
  "sync_is_enabled y \<longleftrightarrow> sy_pps y \<noteq> None"

definition sync_attach :: "nat \<Rightarrow> ('d hsb \<times> synchronizer, unit) hm" where
  "sync_attach peer =
     hbind (hgets (sy_peers \<circ> snd)) (\<lambda>peers.
       hthen (hthrow_if (peer \<in> set peers)
                (Runtime_error ''Synchronizer::attach called on the same Synchronizable more than once.''))
      (hthen (on_obj (hmodify (\<lambda>y. y\<lparr>sy_peers := peers @ [peer]\<rparr>)))
        (hwhen (peers = []) (with_pps pps_setup))))"

definition sync_detach :: "nat \<Rightarrow> ('d hsb \<times> synchronizer, unit) hm" where
  "sync_detach peer =
     hbind (hgets (sy_peers \<circ> snd)) (\<lambda>peers.
       if peer \<in> set peers then
         hthen (on_obj (hmodify (\<lambda>y. y\<lparr>sy_peers := remove1 peer peers\<rparr>)))
           (hwhen (remove1 peer peers = []) (with_pps pps_shutdown))
       else hret ())"

subsection \<open>The clock of the board\<close>

definition ptp_synchronized :: "('d hsb, bool) hm" where
  "ptp_synchronized =
     hbind (on_link read_clock) (\<lambda>now.
     hbind (read_uint32_to FPGA_PTP_SYNC_STAT (Some (make_timeout now 500000000 0))) (\<lambda>(v, _).
     hthen (set_host (\<lambda>h. h\<lparr>ptp_sync_stat := v\<rparr>))
       (hret (v AND 0xF = 0xF))))"

text \<open>The loop ends: every round sleeps, and the timeout expires.\<close>

function ptp_synchronize :: "timeout \<Rightarrow> 'd hsb \<Rightarrow> (hsb_error + bool) \<times> 'd hsb" where
  "ptp_synchronize to s =
     (case ptp_synchronized s of
        (Inl e, s1) \<Rightarrow> (Inl e, s1)
      | (Inr True, s1) \<Rightarrow> (Inr True, s1)
      | (Inr False, s1) \<Rightarrow>
          (case on_link read_clock s1 of
             (Inl e, s2) \<Rightarrow> (Inl e, s2)
           | (Inr now, s2) \<Rightarrow>
               if expired now to then (Inr False, s2)
               else ptp_synchronize to (snd (sleep_ms 100 s2))))"
  by pat_completeness auto

lemma hrel_set_host [hrel_intro]: "hrel hsb_later (set_host f)"
  by (simp add: hrel_def set_host_def hmodify_def hsb_later_def)

lemma hrel_ptp_synchronized: "hrel hsb_later ptp_synchronized"
  unfolding ptp_synchronized_def case_prod_beta by (intro hrel_intro hsb_later_order)

lemma read_clock_value: "on_link read_clock s = (Inr now, s') \<Longrightarrow> clock (link s') = now"
  by (auto simp: on_link_def read_clock_def split: prod.splits)

lemma ptp_synchronize_measure:
  assumes "ptp_synchronized s = (Inr b, s1)" and "on_link read_clock s1 = (Inr now, s2)" and "\<not> expired now to"
  shows "nat (deadline to + 1 - clock (link (snd (sleep_ms 100 s2)))) < nat (deadline to + 1 - clock (link s))"
proof -
  have "clock (link s) \<le> clock (link s1)"
    using hrelD [OF hrel_ptp_synchronized assms(1)] by (simp add: hsb_later_def later_def)
  moreover have "clock (link s1) \<le> clock (link s2)"
    using hrelD [OF hrel_read_clock assms(2)] by (simp add: hsb_later_def later_def)
  ultimately show ?thesis using read_clock_value [OF assms(2)] assms(3) by (simp add: sleep_ms_run expired_def)
qed

termination ptp_synchronize
  by (relation "measure (\<lambda>(to, s). nat (deadline to + 1 - clock (link s)))")
    (auto dest: ptp_synchronize_measure dest!: sym [where s = "(_, _)"])

declare ptp_synchronize.simps [simp del]

subsection \<open>The pulses follow the peers\<close>

definition vsync_registers :: "u32 set" where
  "vsync_registers =
     {VSYNC_CONTROL, VSYNC_FREQUENCY, VSYNC_START, VSYNC_DELAY, VSYNC_EXPOSURE, VSYNC_GPIO}"

text \<open>
  The synchronizer agrees with the board: pulses are on exactly while a peer is attached, and then
  with the frequency that was asked for.
\<close>

definition pulses_follow :: "(u32 \<Rightarrow> u32) \<Rightarrow> synchronizer \<Rightarrow> bool" where
  "pulses_follow R y \<longleftrightarrow>
     (\<forall>p. sy_pps y = Some p \<longrightarrow>
        (pps_active p \<longleftrightarrow> sy_peers y \<noteq> []) \<and> R VSYNC_CONTROL = (if sy_peers y = [] then 0 else 1) \<and>
        (sy_peers y \<noteq> [] \<longrightarrow> R VSYNC_FREQUENCY = pps_frequency_control p))"

text \<open>A list of attachments (\<open>True\<close>) and detachments, and the peers after it.\<close>

definition sync_step :: "bool \<Rightarrow> nat \<Rightarrow> ('d hsb \<times> synchronizer, unit) hm" where
  "sync_step attach = (if attach then sync_attach else sync_detach)"

fun sync_run :: "(bool \<times> nat) list \<Rightarrow> ('d hsb \<times> synchronizer, unit) hm" where
  "sync_run [] = hret ()"
| "sync_run ((attach, peer) # ops) = hthen (sync_step attach peer) (sync_run ops)"

fun peers_after :: "nat list \<Rightarrow> (bool \<times> nat) list \<Rightarrow> nat list option" where
  "peers_after ps [] = Some ps"
| "peers_after ps ((attach, peer) # ops) =
     (if attach then (if peer \<in> set ps then None else peers_after (ps @ [peer]) ops)
      else peers_after (remove1 peer ps) ops)"

context register_device
begin

lemma with_pps_none: "sy_pps y = None \<Longrightarrow> with_pps m (b, y) = (Inr (), (b, y))"
  by (simp add: with_pps_def)

lemma pps_setup_run:
  assumes "\<forall>a \<in> vsync_registers. \<forall>v. effect (a, v) = Some [(a, v)]" and "st R n h b" and "\<not> pps_active p"
  shows "\<exists>b'. pps_setup (b, p) = (Inr (), (b', p\<lparr>pps_active := True\<rparr>)) \<and> st (upds R (pps_setup_data p)) n h b'"
proof -
  have "\<forall>av \<in> set (pps_setup_data p). effect av = Some [av]"
    using assms(1) by (auto simp: pps_setup_data_def vsync_registers_def)
  from runsD [OF write_regs_rule [OF this] assms(2)] obtain b' where
    "write_regs (pps_setup_data p) b = (Inr (), b')" "st (upds R (pps_setup_data p)) n h b'" by auto
  then show ?thesis using assms(3) by (simp add: pps_setup_def on_hsb_def on_obj_def hthen_def hbind_def hmodify_def)
qed

lemma pps_shutdown_run:
  assumes "\<forall>a \<in> vsync_registers. \<forall>v. effect (a, v) = Some [(a, v)]" and "st R n h b" and "pps_active p"
  shows "\<exists>b'. pps_shutdown (b, p) = (Inr (), (b', p\<lparr>pps_active := False\<rparr>)) \<and> st (R(VSYNC_CONTROL := 0)) n h b'"
proof -
  have "\<forall>av \<in> set [(VSYNC_CONTROL, 0)]. effect av = Some [av]"
    using assms(1) by (auto simp: vsync_registers_def)
  from runsD [OF write_regs_rule [OF this] assms(2)] obtain b' where
    "write_regs [(VSYNC_CONTROL, 0)] b = (Inr (), b')" "st (R(VSYNC_CONTROL := 0)) n h b'" by auto
  then show ?thesis using assms(3) by (simp add: pps_shutdown_def on_hsb_def on_obj_def hthen_def hbind_def hmodify_def)
qed

lemma sync_attach_run:
  assumes mem: "\<forall>a \<in> vsync_registers. \<forall>v. effect (a, v) = Some [(a, v)]" and s: "st R n h b"
    and y: "pulses_follow R y" "peer \<notin> set (sy_peers y)"
  shows "\<exists>b' y' R'. sync_attach peer (b, y) = (Inr (), (b', y')) \<and> st R' n h b' \<and> pulses_follow R' y' \<and>
    sy_peers y' = sy_peers y @ [peer] \<and> (\<forall>a. a \<notin> vsync_registers \<longrightarrow> R' a = R a) \<and>
    (sy_pps y' = None \<longleftrightarrow> sy_pps y = None)"
proof (cases "sy_peers y = [] \<and> sy_pps y \<noteq> None")
  case True
  then obtain p where p: "sy_pps y = Some p" "sy_peers y = []" by blast
  then have off: "\<not> pps_active p" using y(1) by (simp add: pulses_follow_def)
  obtain b' where b': "pps_setup (b, p) = (Inr (), (b', p\<lparr>pps_active := True\<rparr>))" "st (upds R (pps_setup_data p)) n h b'"
    using pps_setup_run [OF mem s off] by blast
  let ?y = "y\<lparr>sy_peers := [peer], sy_pps := Some (p\<lparr>pps_active := True\<rparr>)\<rparr>"
  have "sync_attach peer (b, y) = (Inr (), (b', ?y))"
    using p b'(1) by (simp add: sync_attach_def on_obj_def with_pps_def hthen_def hbind_def hmodify_def)
  moreover have "pulses_follow (upds R (pps_setup_data p)) ?y" by (simp add: pulses_follow_def pps_setup_data_def)
  moreover have "\<forall>a. a \<notin> vsync_registers \<longrightarrow> upds R (pps_setup_data p) a = R a"
    by (simp add: pps_setup_data_def vsync_registers_def)
  ultimately show ?thesis using b'(2) p by (intro exI [of _ b'] exI [of _ ?y] exI [of _ "upds R (pps_setup_data p)"]) simp
next
  case False
  let ?y = "y\<lparr>sy_peers := sy_peers y @ [peer]\<rparr>"
  have "sync_attach peer (b, y) = (Inr (), (b, ?y))"
    using False y(2) with_pps_none [of ?y pps_setup b]
    by (auto simp: sync_attach_def on_obj_def hthen_def hbind_def hmodify_def hwhen_def)
  moreover have "pulses_follow R ?y" using y(1) False by (auto simp: pulses_follow_def)
  ultimately show ?thesis using s by (intro exI [of _ b] exI [of _ ?y] exI [of _ R]) simp
qed

lemma sync_detach_run:
  assumes mem: "\<forall>a \<in> vsync_registers. \<forall>v. effect (a, v) = Some [(a, v)]" and s: "st R n h b"
    and y: "pulses_follow R y"
  shows "\<exists>b' y' R'. sync_detach peer (b, y) = (Inr (), (b', y')) \<and> st R' n h b' \<and> pulses_follow R' y' \<and>
    sy_peers y' = remove1 peer (sy_peers y) \<and> (\<forall>a. a \<notin> vsync_registers \<longrightarrow> R' a = R a) \<and>
    (sy_pps y' = None \<longleftrightarrow> sy_pps y = None)"
proof (cases "peer \<in> set (sy_peers y) \<and> remove1 peer (sy_peers y) = [] \<and> sy_pps y \<noteq> None")
  case True
  then obtain p where p: "sy_pps y = Some p" by blast
  then have on: "pps_active p" using y True by (auto simp: pulses_follow_def)
  obtain b' where b': "pps_shutdown (b, p) = (Inr (), (b', p\<lparr>pps_active := False\<rparr>))" "st (R(VSYNC_CONTROL := 0)) n h b'"
    using pps_shutdown_run [OF mem s on] by blast
  let ?y = "y\<lparr>sy_peers := [], sy_pps := Some (p\<lparr>pps_active := False\<rparr>)\<rparr>"
  have "sync_detach peer (b, y) = (Inr (), (b', ?y))"
    using True p b'(1) by (simp add: sync_detach_def on_obj_def with_pps_def hthen_def hbind_def hmodify_def)
  moreover have "pulses_follow (R(VSYNC_CONTROL := 0)) ?y" by (simp add: pulses_follow_def)
  ultimately show ?thesis using b'(2) p True
    by (intro exI [of _ b'] exI [of _ ?y] exI [of _ "R(VSYNC_CONTROL := 0)"]) (simp add: vsync_registers_def)
next
  case False
  let ?y = "y\<lparr>sy_peers := remove1 peer (sy_peers y)\<rparr>"
  have "sync_detach peer (b, y) = (Inr (), (b, ?y))"
    using False with_pps_none [of ?y pps_shutdown b]
    by (auto simp: sync_detach_def on_obj_def hthen_def hbind_def hmodify_def hwhen_def remove1_idem)
  moreover have "pulses_follow R ?y" using y False by (auto simp: pulses_follow_def remove1_idem split: if_splits)
  ultimately show ?thesis using s by (intro exI [of _ b] exI [of _ ?y] exI [of _ R]) simp
qed

lemma sync_step_run:
  assumes "\<forall>a \<in> vsync_registers. \<forall>v. effect (a, v) = Some [(a, v)]" and "st R n h b" and "pulses_follow R y"
    and "attach \<longrightarrow> peer \<notin> set (sy_peers y)"
  shows "\<exists>b' y' R'. sync_step attach peer (b, y) = (Inr (), (b', y')) \<and> st R' n h b' \<and> pulses_follow R' y' \<and>
    sy_peers y' = (if attach then sy_peers y @ [peer] else remove1 peer (sy_peers y)) \<and>
    (\<forall>a. a \<notin> vsync_registers \<longrightarrow> R' a = R a) \<and> (sy_pps y' = None \<longleftrightarrow> sy_pps y = None)"
  using sync_attach_run [OF assms(1,2,3), of peer] sync_detach_run [OF assms(1,2,3), of peer] assms(4)
  by (cases attach) (simp_all add: sync_step_def)

lemma sync_run_rule:
  assumes mem: "\<forall>a \<in> vsync_registers. \<forall>v. effect (a, v) = Some [(a, v)]"
  shows "st R n h b \<Longrightarrow> pulses_follow R y \<Longrightarrow> peers_after (sy_peers y) ops = Some ps \<Longrightarrow>
    \<exists>b' y' R'. sync_run ops (b, y) = (Inr (), (b', y')) \<and> st R' n h b' \<and> pulses_follow R' y' \<and> sy_peers y' = ps \<and>
      (\<forall>a. a \<notin> vsync_registers \<longrightarrow> R' a = R a) \<and> (sy_pps y' = None \<longleftrightarrow> sy_pps y = None)"
proof (induction ops arbitrary: R b y)
  case Nil
  then show ?case by (intro exI [of _ b] exI [of _ y] exI [of _ R]) simp
next
  case (Cons op ops)
  obtain attach peer where op: "op = (attach, peer)" by force
  have fresh: "attach \<longrightarrow> peer \<notin> set (sy_peers y)" using Cons.prems(3) by (auto simp: op split: if_splits)
  obtain b1 y1 R1 where 1: "sync_step attach peer (b, y) = (Inr (), (b1, y1))" "st R1 n h b1" "pulses_follow R1 y1"
      and peers: "sy_peers y1 = (if attach then sy_peers y @ [peer] else remove1 peer (sy_peers y))"
      and rest: "\<forall>a. a \<notin> vsync_registers \<longrightarrow> R1 a = R a" "sy_pps y1 = None \<longleftrightarrow> sy_pps y = None"
    using sync_step_run [OF mem Cons.prems(1,2) fresh] by (elim exE conjE) (rule that)
  have "peers_after (sy_peers y1) ops = Some ps" using Cons.prems(3) by (simp add: op peers split: if_splits)
  from Cons.IH [OF 1(2,3) this] obtain b' y' R' where 2: "sync_run ops (b1, y1) = (Inr (), (b', y'))" "st R' n h b'"
      "pulses_follow R' y'" "sy_peers y' = ps"
      and rest': "\<forall>a. a \<notin> vsync_registers \<longrightarrow> R' a = R1 a" "sy_pps y' = None \<longleftrightarrow> sy_pps y1 = None"
    by (elim exE conjE) (rule that)
  have "sync_run (op # ops) (b, y) = (Inr (), (b', y'))" using 1(1) 2(1) by (simp add: op hthen_def hbind_def)
  then show ?case using 2(2-) rest rest' by (intro exI [of _ b'] exI [of _ y'] exI [of _ R']) simp
qed

end

end
