(* ===== verification/Sequencer.thy ===== *)
theory Sequencer
  imports Hololink_Control
begin

text \<open>
  \<open>Hololink::Sequencer\<close> (src/src/hololink/core/hololink.cpp): the host assembles a program of
  write, read and poll commands for the board's APB sequencer, assigns it the memory of an
  event and writes it there. The second half gives the layout of the assembled program in
  closed form: command words of sixteen 2-bit codes, each followed by the operands of its
  commands.
\<close>

subsection \<open>State\<close>

datatype seq_op = POLL | WR | RD

fun op_code :: "seq_op \<Rightarrow> u32" where
  "op_code POLL = 0"
| "op_code WR = 1"
| "op_code RD = 2"

record sequencer =
  q_buffer :: "u32 list"
  q_done :: bool
  q_command_index :: nat
  q_command_bit :: nat
  q_address :: u32
  q_address_set :: bool
  q_written :: bool

subsection \<open>Operations\<close>

definition seq_append :: "u32 \<Rightarrow> (sequencer, nat) hm" where
  "seq_append content q =
     (if q_done q then (Inl (Runtime_error ''Cannot append more data to a sequence that was marked as done.''), q)
      else (Inr (length (q_buffer q)), q\<lparr>q_buffer := q_buffer q @ [content]\<rparr>))"

text \<open>The test for an invalid operation cannot fail on the enumeration.\<close>

definition or_command :: "seq_op \<Rightarrow> sequencer \<Rightarrow> sequencer" where
  "or_command op q =
     q\<lparr>q_buffer := (q_buffer q)[q_command_index q :=
          q_buffer q ! q_command_index q OR push_bit (q_command_bit q) (op_code op)],
       q_command_bit := q_command_bit q + 2\<rparr>"

definition add_command :: "seq_op \<Rightarrow> (sequencer, nat) hm" where
  "add_command op =
     hbind (hgets (\<lambda>q. q)) (\<lambda>q.
       hthen (hthrow_if (q_done q) (Runtime_error ''Cannot append commands to a sequence that was marked as done.''))
      (hthen (hthrow_if (32 < q_command_bit q) (Runtime_error ''Invalid command_bit_''))
      (hthen (if q_command_bit q = 32 then
                hbind (seq_append 0) (\<lambda>i. hmodify (\<lambda>q. q\<lparr>q_command_index := i, q_command_bit := 0\<rparr>))
              else hret ())
      (hthen (hmodify (or_command op)) (hgets q_command_index)))))"

text \<open>The constructor starts with a zero in the first command word.\<close>

definition new_sequencer :: sequencer where
  "new_sequencer =
     \<lparr>q_buffer = [0], q_done = False, q_command_index = 0, q_command_bit = 0, q_address = 0,
      q_address_set = False, q_written = False\<rparr>"

definition seq_done :: "(sequencer, unit) hm" where
  "seq_done =
     hthen (add_command RD) (hthen (seq_append 0xFFFFFFFF) (hmodify (\<lambda>q. q\<lparr>q_done := True\<rparr>)))"

definition seq_write_uint32 :: "u32 \<Rightarrow> u32 \<Rightarrow> (sequencer, nat) hm" where
  "seq_write_uint32 address data =
     hthen (add_command WR) (hthen (seq_append address) (seq_append data))"

definition seq_read_uint32 :: "u32 \<Rightarrow> u32 \<Rightarrow> (sequencer, nat) hm" where
  "seq_read_uint32 address initial_value =
     hthen (add_command RD) (hthen (seq_append address) (seq_append initial_value))"

definition seq_poll :: "u32 \<Rightarrow> u32 \<Rightarrow> u32 \<Rightarrow> (sequencer, nat) hm" where
  "seq_poll address bits match =
     hthen (add_command POLL) (hthen (seq_append address)
       (hbind (seq_append match) (\<lambda>r. hthen (seq_append bits) (hret r))))"

fun event_location :: "hsb_event \<Rightarrow> u32 option" where
  "event_location SIF_0_FRAME_END = Some (APB_RAM + 0x100)"
| "event_location SIF_1_FRAME_END = Some (APB_RAM + 0x200)"
| "event_location SW_EVENT = Some (APB_RAM + 0x800)"
| "event_location GPIO0 = Some (APB_RAM + 0x300)"
| "event_location GPIO1 = Some (APB_RAM + 0x400)"
| "event_location SIF_0_FRAME_START = Some (APB_RAM + 0x500)"
| "event_location SIF_1_FRAME_START = Some (APB_RAM + 0x600)"
| "event_location I2C_BUSY_EVENT = None"

definition assign_location :: "hsb_event \<Rightarrow> (sequencer, unit) hm" where
  "assign_location event q =
     (if \<not> q_done q then (Inl (Runtime_error ''Call done() on a sequencer before calling assign_location().''), q)
      else if q_address_set q then (Inl (Runtime_error ''Sequencer address is already set''), q)
      else (case event_location event of
              None \<Rightarrow> (Inl (Runtime_error ''Sequencer assign_location with unexpected event''), q)
            | Some address \<Rightarrow> (Inr (), q\<lparr>q_address := address, q_address_set := True\<rparr>)))"

definition seq_write :: "('d hsb \<times> sequencer, unit) hm" where
  "seq_write =
     hbind (hgets snd) (\<lambda>q.
       hthen (hthrow_if (\<not> q_address_set q) (Runtime_error ''Sequencer address not set''))
         (hthen (on_hsb (write_data_default (program_data (q_address q) (q_buffer q)) None True))
           (on_obj (hmodify (\<lambda>q. q\<lparr>q_written := True\<rparr>)))))"

definition seq_location :: "(sequencer, u32) hm" where
  "seq_location q =
     (if \<not> q_written q then (Inl (Runtime_error ''Location is not valid until a sequence is written''), q)
      else if \<not> q_address_set q then (Inl (Runtime_error ''Sequencer address must be set''), q)
      else (Inr (q_address q), q))"

subsection \<open>Programs\<close>

text \<open>The commands a client adds, as data.\<close>

datatype apb_command =
    Apb_write u32 u32
  | Apb_read u32 u32
  | Apb_poll u32 u32 u32      \<comment> \<open>address, mask, match\<close>

fun emit :: "apb_command \<Rightarrow> (sequencer, nat) hm" where
  "emit (Apb_write address data) = seq_write_uint32 address data"
| "emit (Apb_read address initial) = seq_read_uint32 address initial"
| "emit (Apb_poll address bits match) = seq_poll address bits match"

fun emit_all :: "apb_command list \<Rightarrow> (sequencer, unit) hm" where
  "emit_all [] = hret ()"
| "emit_all (c # cs) = hthen (emit c) (emit_all cs)"

fun command_op :: "apb_command \<Rightarrow> seq_op" where
  "command_op (Apb_write _ _) = WR"
| "command_op (Apb_read _ _) = RD"
| "command_op (Apb_poll _ _ _) = POLL"

fun operands :: "apb_command \<Rightarrow> u32 list" where
  "operands (Apb_write address data) = [address, data]"
| "operands (Apb_read address initial) = [address, initial]"
| "operands (Apb_poll address bits match) = [address, match, bits]"

fun target :: "apb_command \<Rightarrow> u32" where
  "target (Apb_write a v) = a"
| "target (Apb_read a v) = a"
| "target (Apb_poll a bits match) = a"

definition ops_of :: "apb_command list \<Rightarrow> (seq_op \<times> u32 list) list" where
  "ops_of cs = map (\<lambda>c. (command_op c, operands c)) cs @ [(RD, [0xFFFFFFFF])]"

text \<open>
  The layout: with \<open>k\<close> codes in the current command word, the bits that the rest of the
  program adds to it, and the words that follow.
\<close>

fun layout :: "nat \<Rightarrow> (seq_op \<times> u32 list) list \<Rightarrow> u32 \<times> u32 list" where
  "layout k [] = (0, [])"
| "layout k ((op, args) # rest) =
     (if k < 16 then
        (let (w, ws) = layout (Suc k) rest in (push_bit (2 * k) (op_code op) OR w, args @ ws))
      else
        (let (w, ws) = layout 1 rest in (0, (op_code op OR w) # args @ ws)))"

definition program :: "apb_command list \<Rightarrow> u32 list" where
  "program cs = (let (w, ws) = layout 0 (ops_of cs) in w # ws)"

subsection \<open>The assembler produces the layout\<close>

text \<open>A sequencer under construction whose current command word holds \<open>k\<close> codes.\<close>

definition seq_at :: "u32 list \<Rightarrow> u32 \<Rightarrow> u32 list \<Rightarrow> nat \<Rightarrow> sequencer \<Rightarrow> bool" where
  "seq_at pre cw mid k q \<longleftrightarrow>
     q_buffer q = pre @ cw # mid \<and> q_command_index q = length pre \<and> q_command_bit q = 2 * k \<and>
     k \<le> 16 \<and> \<not> q_done q \<and> \<not> q_address_set q \<and> \<not> q_written q"

lemma seq_append_at:
  "seq_at pre cw mid k q \<Longrightarrow>
   \<exists>q'. seq_append a q = (Inr (length (pre @ cw # mid)), q') \<and> seq_at pre cw (mid @ [a]) k q'"
  by (auto simp: seq_append_def seq_at_def)

lemma add_command_at:
  assumes "seq_at pre cw mid k q"
  shows "\<exists>i q'. add_command op q = (Inr i, q') \<and>
    (if k < 16 then seq_at pre (cw OR push_bit (2 * k) (op_code op)) mid (Suc k) q'
     else seq_at (pre @ cw # mid) (op_code op) [] 1 q')"
proof (cases "k < 16")
  case True
  with assms show ?thesis
    by (auto simp: add_command_def seq_at_def or_command_def hbind_def hthen_def)
next
  case False
  with assms have "k = 16" by (simp add: seq_at_def)
  with assms list_update_length [of "pre @ cw # mid" 0 "[]" "op_code op"] show ?thesis
    by (auto simp: add_command_def seq_at_def or_command_def hbind_def hthen_def seq_append_def nth_append)
qed

text \<open>One command with its operands.\<close>

fun append_list :: "u32 list \<Rightarrow> (sequencer, unit) hm" where
  "append_list [] = hret ()"
| "append_list (a # as) = hthen (seq_append a) (append_list as)"

lemma append_list_at:
  "seq_at pre cw mid k q \<Longrightarrow> \<exists>q'. append_list as q = (Inr (), q') \<and> seq_at pre cw (mid @ as) k q'"
proof (induction as arbitrary: mid q)
  case Nil
  then show ?case by simp
next
  case (Cons a as)
  from seq_append_at [OF Cons.prems, of a] obtain i q' where
    "seq_append a q = (Inr i, q')" "seq_at pre cw (mid @ [a]) k q'" by metis
  with Cons.IH [of "mid @ [a]" q'] show ?case by auto
qed

definition add_op :: "seq_op \<times> u32 list \<Rightarrow> (sequencer, unit) hm" where
  "add_op oa = hthen (add_command (fst oa)) (append_list (snd oa))"

lemma emit_add_op:
  "(case emit c q of (r, q') \<Rightarrow> (map_sum id (\<lambda>_. ()) r, q')) = add_op (command_op c, operands c) q"
  by (cases c)
    (auto simp: add_op_def seq_write_uint32_def seq_read_uint32_def seq_poll_def hthen_def hbind_def
      split: prod.splits sum.splits)

lemma emit_all_add_ops: "emit_all cs q = hseq (map (\<lambda>c. add_op (command_op c, operands c)) cs) q"
proof (induction cs arbitrary: q)
  case Nil
  then show ?case by simp
next
  case (Cons c cs)
  show ?case using emit_add_op [of c q] Cons
    by (auto simp: hthen_def hbind_def split: prod.splits sum.splits)
qed

lemma add_ops_layout:
  "seq_at pre cw mid k q \<Longrightarrow>
   \<exists>q'. hseq (map add_op ops) q = (Inr (), q') \<and>
     q_buffer q' = pre @ (cw OR fst (layout k ops)) # mid @ snd (layout k ops) \<and>
     \<not> q_done q' \<and> \<not> q_address_set q' \<and> \<not> q_written q'"
proof (induction ops arbitrary: pre cw mid k q)
  case Nil
  then show ?case by (simp add: seq_at_def)
next
  case (Cons oa ops)
  obtain op args where oa: "oa = (op, args)" by force
  from add_command_at [OF Cons.prems, of op] obtain i q1 where
    q1: "add_command op q = (Inr i, q1)"
      "if k < 16 then seq_at pre (cw OR push_bit (2 * k) (op_code op)) mid (Suc k) q1
       else seq_at (pre @ cw # mid) (op_code op) [] 1 q1" by blast
  show ?case
  proof (cases "k < 16")
    case True
    with q1(2) obtain q2 where q2: "append_list args q1 = (Inr (), q2)"
        "seq_at pre (cw OR push_bit (2 * k) (op_code op)) (mid @ args) (Suc k) q2"
      using append_list_at by fastforce
    from Cons.IH [OF q2(2)] show ?thesis using q1(1) q2(1) True
      by (auto simp: oa add_op_def split: prod.splits simp: or.assoc)
  next
    case False
    with q1(2) obtain q2 where q2: "append_list args q1 = (Inr (), q2)"
        "seq_at (pre @ cw # mid) (op_code op) args 1 q2"
      using append_list_at by fastforce
    from Cons.IH [OF q2(2)] show ?thesis using q1(1) q2(1) False
      by (auto simp: oa add_op_def split: prod.splits)
  qed
qed

text \<open>
  Assembling commands and then \<open>done()\<close> never throws and gives the program of the commands,
  whatever their number.
\<close>

lemma assemble:
  obtains q where "hthen (emit_all cs) seq_done new_sequencer = (Inr (), q)"
    "q_buffer q = program cs" "q_done q" "\<not> q_address_set q" "\<not> q_written q"
proof -
  let ?ops = "map (\<lambda>c. (command_op c, operands c)) cs"
  have start: "seq_at [] 0 [] 0 new_sequencer" by (simp add: seq_at_def new_sequencer_def)
  obtain q where q: "hseq (map add_op (ops_of cs)) new_sequencer = (Inr (), q)" "q_buffer q = program cs"
      "\<not> q_done q" "\<not> q_address_set q" "\<not> q_written q"
    using add_ops_layout [OF start, of "ops_of cs"] by (auto simp: program_def split: prod.splits)
  have split: "hseq (map add_op (ops_of cs)) new_sequencer =
      hthen (emit_all cs) (add_op (RD, [0xFFFFFFFF])) new_sequencer"
    by (simp add: ops_of_def hseq_append hthen_def hbind_def emit_all_add_ops comp_def
        split: prod.splits sum.splits)
  have "hthen (emit_all cs) seq_done new_sequencer = (Inr (), q\<lparr>q_done := True\<rparr>)"
    using q(1) unfolding split
    by (auto simp: add_op_def seq_done_def hthen_def hbind_def split: prod.splits sum.splits)
  then show thesis using q by (intro that [of "q\<lparr>q_done := True\<rparr>"]) simp_all
qed

text \<open>The bits of a layout below the current code are zero, and each code fits in two bits.\<close>

lemma bit_op_code: "bit (op_code op) j \<Longrightarrow> j < 2"
  by (cases op) (auto simp: bit_1_iff bit_numeral_rec(1) numeral_eq_Suc bit_Suc split: nat.splits)

lemma layout_low: "k \<le> 16 \<Longrightarrow> bit (fst (layout k ops)) j \<Longrightarrow> 2 * k \<le> j"
proof (induction ops arbitrary: k)
  case Nil
  then show ?case by simp
next
  case (Cons oa ops)
  obtain op args where oa: "oa = (op, args)" by force
  show ?case
  proof (cases "k < 16")
    case True
    then have "2 * Suc k \<le> j" if "bit (fst (layout (Suc k) ops)) j" using Cons.IH [of "Suc k"] that by simp
    with True Cons.prems(2) show ?thesis
      by (auto simp: oa bit_simps split: prod.splits dest: bit_op_code)
  next
    case False
    with Cons.prems(2) show ?thesis by (simp add: oa split: prod.splits)
  qed
qed

subsection \<open>Where the operands are\<close>

text \<open>The commands in order, with the indexes that the methods return.\<close>

fun emit_list :: "apb_command list \<Rightarrow> (sequencer, nat list) hm" where
  "emit_list [] = hret []"
| "emit_list (c # cs) = hbind (emit c) (\<lambda>i. hbind (emit_list cs) (\<lambda>is. hret (i # is)))"

lemma emit_all_emit_list:
  "emit_all cs q = (case emit_list cs q of (r, q') \<Rightarrow> (map_sum id (\<lambda>_. ()) r, q'))"
  by (induction cs arbitrary: q) (auto simp: hthen_def hbind_def split: prod.splits sum.splits)

lemma emit_list_append:
  "emit_list (cs @ ds) = hbind (emit_list cs) (\<lambda>is. hbind (emit_list ds) (\<lambda>js. hret (is @ js)))"
  by (induction cs) (auto simp: hbind_def fun_eq_iff split: prod.splits sum.splits)

text \<open>
  The index of the second operand of each command (the data of a write, the slot of a read, the
  match of a poll), for a buffer of \<open>p\<close> words whose current command word holds \<open>k\<close> codes.
\<close>

fun slots :: "nat \<Rightarrow> nat \<Rightarrow> apb_command list \<Rightarrow> nat list" where
  "slots k p [] = []"
| "slots k p (c # cs) =
     (let q = (if k < 16 then p else Suc p) in
      Suc q # slots (if k < 16 then Suc k else 1) (q + length (operands c)) cs)"

lemma length_slots [simp]: "length (slots k p cs) = length cs"
  by (induction cs arbitrary: k p) (auto simp: Let_def)

definition seq_open :: "nat \<Rightarrow> nat \<Rightarrow> sequencer \<Rightarrow> bool" where
  "seq_open k n q \<longleftrightarrow> (\<exists>pre cw mid. seq_at pre cw mid k q \<and> length (pre @ cw # mid) = n)"

lemma seq_append_open: "seq_open k n q \<Longrightarrow> \<exists>q'. seq_append a q = (Inr n, q') \<and> seq_open k (Suc n) q'"
  unfolding seq_open_def using seq_append_at [of _ _ _ k q a] by fastforce

lemma add_command_open:
  assumes "seq_open k n q"
  shows "\<exists>i q'. add_command op q = (Inr i, q') \<and>
    seq_open (if k < 16 then Suc k else 1) (if k < 16 then n else Suc n) q'"
proof -
  obtain pre cw mid where at: "seq_at pre cw mid k q" "length (pre @ cw # mid) = n"
    using assms by (auto simp: seq_open_def)
  from add_command_at [OF at(1), of op] obtain i q' where q': "add_command op q = (Inr i, q')"
      "if k < 16 then seq_at pre (cw OR push_bit (2 * k) (op_code op)) mid (Suc k) q'
       else seq_at (pre @ cw # mid) (op_code op) [] 1 q'" by blast
  then have "seq_open (if k < 16 then Suc k else 1) (if k < 16 then n else Suc n) q'"
    unfolding seq_open_def using at(2)
    by (cases "k < 16") (fastforce, force)
  with q'(1) show ?thesis by blast
qed

text \<open>A command with its operands gives the index of its second operand.\<close>

lemma emit_open:
  assumes "seq_open k p q"
  shows "\<exists>q'. emit c q = (Inr (hd (slots k p [c])), q') \<and>
    seq_open (if k < 16 then Suc k else 1) ((if k < 16 then p else Suc p) + length (operands c)) q'"
proof -
  let ?k = "if k < 16 then Suc k else 1" and ?p = "if k < 16 then p else Suc p"
  obtain i q1 where q1: "add_command (command_op c) q = (Inr i, q1)" "seq_open ?k ?p q1"
    using add_command_open [OF assms] by blast
  obtain q2 where q2: "seq_append (operands c ! 0) q1 = (Inr ?p, q2)" "seq_open ?k (Suc ?p) q2"
    using seq_append_open [OF q1(2)] by blast
  obtain q3 where q3: "seq_append (operands c ! 1) q2 = (Inr (Suc ?p), q3)" "seq_open ?k (Suc (Suc ?p)) q3"
    using seq_append_open [OF q2(2)] by blast
  obtain q4 where q4: "seq_append (operands c ! 2) q3 = (Inr (Suc (Suc ?p)), q4)"
      "seq_open ?k (Suc (Suc (Suc ?p))) q4"
    using seq_append_open [OF q3(2)] by blast
  show ?thesis
    using q1(1) q2(1) q3 q4
    by (cases c) (auto simp: seq_write_uint32_def seq_read_uint32_def seq_poll_def hthen_def hbind_def Let_def)
qed

lemma emit_list_slots:
  "seq_open k p q \<Longrightarrow> \<exists>q' k' p'. emit_list cs q = (Inr (slots k p cs), q') \<and> seq_open k' p' q'"
proof (induction cs arbitrary: k p q)
  case Nil
  then show ?case by auto
next
  case (Cons c cs)
  from emit_open [OF Cons.prems, of c] obtain q1 where q1: "emit c q = (Inr (hd (slots k p [c])), q1)"
      "seq_open (if k < 16 then Suc k else 1) ((if k < 16 then p else Suc p) + length (operands c)) q1"
    by blast
  from Cons.IH [OF q1(2)] q1(1) show ?case by (fastforce simp: hbind_def Let_def)
qed

lemma new_sequencer_open: "seq_open 0 1 new_sequencer"
  unfolding seq_open_def seq_at_def new_sequencer_def by (intro exI [of _ "[]"] exI [of _ 0]) simp

text \<open>So a client that adds commands and then enables the sequencer has the program and the indexes.\<close>

lemma assemble_list:
  obtains q where "emit_list cs new_sequencer = (Inr (slots 0 1 cs), q)" "\<not> q_done q" "\<not> q_address_set q"
    "\<exists>q'. seq_done q = (Inr (), q') \<and> q_buffer q' = program cs \<and> q_done q' \<and> \<not> q_address_set q' \<and> \<not> q_written q'"
proof -
  obtain q k' p' where q: "emit_list cs new_sequencer = (Inr (slots 0 1 cs), q)" "seq_open k' p' q"
    using emit_list_slots [OF new_sequencer_open] by blast
  obtain q' where q': "hthen (emit_all cs) seq_done new_sequencer = (Inr (), q')"
      "q_buffer q' = program cs" "q_done q'" "\<not> q_address_set q'" "\<not> q_written q'"
    by (rule assemble)
  have "seq_done q = (Inr (), q')"
    using q'(1) q(1) by (simp add: emit_all_emit_list hthen_def hbind_def)
  moreover have "\<not> q_done q" "\<not> q_address_set q" using q(2) by (auto simp: seq_open_def seq_at_def)
  ultimately show thesis using q(1) q' by (intro that [of q]) auto
qed

text \<open>An index is that of the second operand, after the address.\<close>

lemma slots_layout:
  "k \<le> 16 \<Longrightarrow> j < length cs \<Longrightarrow>
   \<exists>d. slots k p cs ! j = Suc (p + d) \<and>
     drop d (snd (layout k (ops_of cs))) = operands (cs ! j) @ drop (d + length (operands (cs ! j))) (snd (layout k (ops_of cs)))"
proof (induction cs arbitrary: k p j)
  case Nil
  then show ?case by simp
next
  case (Cons c cs)
  let ?k = "if k < 16 then Suc k else 1" and ?extra = "if k < 16 then [] else [op_code (command_op c) OR fst (layout 1 (ops_of cs))]"
  have ops: "ops_of (c # cs) = (command_op c, operands c) # ops_of cs" by (simp add: ops_of_def)
  have lay: "snd (layout k (ops_of (c # cs))) = ?extra @ operands c @ snd (layout ?k (ops_of cs))"
    by (simp add: ops Let_def case_prod_beta)
  show ?case
  proof (cases j)
    case 0
    then show ?thesis
      by (intro exI [of _ "length ?extra"]) (simp add: lay Let_def)
  next
    case (Suc j')
    let ?p = "(if k < 16 then p else Suc p) + length (operands c)"
    have "?k \<le> 16" "j' < length cs" using Cons.prems Suc by simp_all
    from Cons.IH [OF this, of ?p] obtain d where d: "slots ?k ?p cs ! j' = Suc (?p + d)"
        "drop d (snd (layout ?k (ops_of cs))) =
         operands (cs ! j') @ drop (d + length (operands (cs ! j'))) (snd (layout ?k (ops_of cs)))"
      by blast
    have dd: "drop (length ?extra + length (operands c) + e) (snd (layout k (ops_of (c # cs)))) =
        drop e (snd (layout ?k (ops_of cs)))" for e
      by (simp add: lay)
    show ?thesis
      by (rule exI [of _ "length ?extra + length (operands c) + d"])
        (use d dd [of d] dd [of "d + length (operands (cs ! j'))"] Suc in \<open>simp add: Let_def add.assoc\<close>)
  qed
qed

lemma slots_program:
  assumes "j < length cs"
  shows "0 < slots 0 1 cs ! j" "slots 0 1 cs ! j < length (program cs)"
    "program cs ! (slots 0 1 cs ! j - 1) = target (cs ! j)"
    "program cs ! (slots 0 1 cs ! j) = operands (cs ! j) ! 1"
proof -
  let ?ws = "snd (layout 0 (ops_of cs))"
  obtain d where d: "slots 0 1 cs ! j = Suc (1 + d)"
      "drop d ?ws = operands (cs ! j) @ drop (d + length (operands (cs ! j))) ?ws"
    using slots_layout [OF _ assms, of 0 1] by auto
  have prog: "program cs = fst (layout 0 (ops_of cs)) # ?ws"
    by (simp add: program_def Let_def case_prod_beta)
  obtain x y zs where ops: "operands (cs ! j) = x # y # zs" "x = target (cs ! j)"
    by (cases "cs ! j") auto
  then have dd: "drop d ?ws = x # y # zs @ drop (d + length (operands (cs ! j))) ?ws" using d(2) by simp
  then have "length ?ws - d = Suc (Suc (length (zs @ drop (d + length (operands (cs ! j))) ?ws)))"
    by (metis length_Cons length_drop)
  then have len: "Suc d < length ?ws" by linarith
  have "?ws ! d = x" using dd len by (metis Suc_lessD hd_drop_conv_nth list.sel(1))
  moreover have "drop (Suc d) ?ws = y # zs @ drop (d + length (operands (cs ! j))) ?ws"
    using dd by (metis drop_Suc drop_tl list.sel(3))
  then have "?ws ! Suc d = y" using len by (metis hd_drop_conv_nth list.sel(1))
  ultimately show "0 < slots 0 1 cs ! j" "slots 0 1 cs ! j < length (program cs)"
    "program cs ! (slots 0 1 cs ! j - 1) = target (cs ! j)"
    "program cs ! (slots 0 1 cs ! j) = operands (cs ! j) ! 1"
    using d(1) len ops by (simp_all add: prog)
qed

subsection \<open>The size of a program\<close>

lemma length_layout:
  "k \<le> 16 \<Longrightarrow> length (snd (layout k ops)) = (\<Sum>oa \<leftarrow> ops. length (snd oa)) + (k + length ops - 1) div 16"
proof (induction ops arbitrary: k)
  case Nil
  then show ?case by simp
next
  case (Cons oa ops)
  obtain op args where oa: "oa = (op, args)" by force
  show ?case
  proof (cases "k < 16")
    case True
    with Cons.IH [of "Suc k"] show ?thesis by (simp add: oa Let_def case_prod_beta)
  next
    case False
    with Cons.prems have "k = 16" by simp
    moreover have "(16 + length ops) div 16 = Suc (length ops div 16)" by simp
    ultimately show ?thesis using Cons.IH [of 1] by (simp add: oa Let_def case_prod_beta)
  qed
qed

lemma length_program:
  "length (program cs) = 2 + (\<Sum>c \<leftarrow> cs. length (operands c)) + length cs div 16"
  using length_layout [of 0 "ops_of cs"]
  by (simp add: program_def ops_of_def comp_def Let_def case_prod_beta)

end
