(* ===== verification/Events.thy ===== *)
theory Events
  imports Sequencer
begin

text \<open>
  The event configuration of the class \<open>Hololink\<close> (src/src/hololink/core/hololink.cpp): the
  handler vectors and the edge and interrupt registers of the board with their cached copies
  in the host, \<open>configure_hsb\<close> with its null sequence, and the sequencers that load their
  program and attach it to an event.
\<close>

subsection \<open>Configuring and clearing events\<close>

text \<open>
  The methods that take a \<open>WriteData\<close> append to it and change the caches; the state is both.
\<close>

type_synonym event_writes = "hololink \<times> (u32 \<times> u32) list"

definition queue_write :: "u32 \<Rightarrow> u32 \<Rightarrow> event_writes \<Rightarrow> event_writes" where
  "queue_write address value s = (fst s, snd s @ [(address, value)])"

definition clear_apb_event_data :: "hsb_event \<Rightarrow> event_writes \<Rightarrow> event_writes" where
  "clear_apb_event_data event s0 =
     (let m = event_bit event;
          s1 = (if apb_interrupt_enable_cache (fst s0) AND m \<noteq> 0 then
                  (let h = (fst s0)\<lparr>apb_interrupt_enable_cache := apb_interrupt_enable_cache (fst s0) AND NOT m\<rparr>
                   in queue_write CTRL_EVT_APB_INTERRUPT_EN (apb_interrupt_enable_cache h) (h, snd s0))
                else s0);
          s2 = (if rising_cache (fst s1) AND m \<noteq> 0 then
                  (let h = (fst s1)\<lparr>rising_cache := rising_cache (fst s1) AND NOT m\<rparr>
                   in queue_write CTRL_EVT_RISING (rising_cache h) (h, snd s1))
                else s1);
          s3 = (if falling_cache (fst s2) AND m \<noteq> 0 then
                  (let h = (fst s2)\<lparr>falling_cache := falling_cache (fst s2) AND NOT m\<rparr>
                   in queue_write CTRL_EVT_FALLING (falling_cache h) (h, snd s2))
                else s2)
      in queue_write CTRL_EVT_CLEAR 0 (queue_write CTRL_EVT_CLEAR m s3))"

text \<open>\<open>APB_RAM + event * 4\<close>\<close>

definition event_vector :: "hsb_event \<Rightarrow> u32" where
  "event_vector event = APB_RAM + of_nat (event_code event) * 4"

definition configure_apb_event_data :: "hsb_event \<Rightarrow> u32 \<Rightarrow> bool \<Rightarrow> event_writes \<Rightarrow> event_writes" where
  "configure_apb_event_data event handler rising_edge s0 =
     (let s1 = clear_apb_event_data event s0;
          s2 = queue_write (event_vector event)
                 (if handler = 0 then null_sequence_location (fst s1) else handler) s1;
          m = event_bit event;
          s3 = (if rising_edge then
                  (let h = (fst s2)\<lparr>rising_cache := rising_cache (fst s2) OR m\<rparr>
                   in queue_write CTRL_EVT_RISING (rising_cache h) (h, snd s2))
                else
                  (let h = (fst s2)\<lparr>falling_cache := falling_cache (fst s2) OR m\<rparr>
                   in queue_write CTRL_EVT_FALLING (falling_cache h) (h, snd s2)));
          h = (fst s3)\<lparr>apb_interrupt_enable_cache := apb_interrupt_enable_cache (fst s3) OR m\<rparr>
      in queue_write CTRL_EVT_APB_INTERRUPT_EN (apb_interrupt_enable_cache h) (h, snd s3))"

text \<open>The overloads without \<open>WriteData\<close> send what was queued.\<close>

definition send_event_writes :: "(event_writes \<Rightarrow> event_writes) \<Rightarrow> ('d hsb, unit) hm" where
  "send_event_writes f =
     hbind (hgets (\<lambda>s. f (host s, []))) (\<lambda>(h, data).
       hthen (hmodify (\<lambda>s. s\<lparr>host := h\<rparr>))
         (hbind (write_data_default data None True) (\<lambda>_. hret ())))"

definition configure_apb_event :: "hsb_event \<Rightarrow> u32 \<Rightarrow> bool \<Rightarrow> ('d hsb, unit) hm" where
  "configure_apb_event event handler rising_edge =
     send_event_writes (configure_apb_event_data event handler rising_edge)"

definition clear_apb_event :: "hsb_event \<Rightarrow> ('d hsb, unit) hm" where
  "clear_apb_event event = send_event_writes (clear_apb_event_data event)"

subsection \<open>Sequencers that run on events\<close>

text \<open>\<open>SoftwareSequencer\<close>, \<open>FrameSequencer\<close> and \<open>GpioSequencer\<close> differ in their event only.\<close>

definition event_sequencer_enable :: "hsb_event \<Rightarrow> ('d hsb \<times> sequencer, unit) hm" where
  "event_sequencer_enable event =
     hthen (on_obj seq_done)
    (hthen (on_obj (assign_location event))
    (hthen seq_write
    (hbind (on_obj seq_location) (\<lambda>location. on_hsb (configure_apb_event event location True)))))"

definition software_sequencer_enable :: "('d hsb \<times> sequencer, unit) hm" where
  "software_sequencer_enable = event_sequencer_enable SW_EVENT"

definition sif0_frame_start_sequencer_enable :: "('d hsb \<times> sequencer, unit) hm" where
  "sif0_frame_start_sequencer_enable = event_sequencer_enable SIF_0_FRAME_START"

definition sif1_frame_start_sequencer_enable :: "('d hsb \<times> sequencer, unit) hm" where
  "sif1_frame_start_sequencer_enable = event_sequencer_enable SIF_1_FRAME_START"

definition sif0_frame_end_sequencer_enable :: "('d hsb \<times> sequencer, unit) hm" where
  "sif0_frame_end_sequencer_enable = event_sequencer_enable SIF_0_FRAME_END"

definition sif1_frame_end_sequencer_enable :: "('d hsb \<times> sequencer, unit) hm" where
  "sif1_frame_end_sequencer_enable = event_sequencer_enable SIF_1_FRAME_END"

definition gpio0_sequencer_enable :: "('d hsb \<times> sequencer, unit) hm" where
  "gpio0_sequencer_enable = event_sequencer_enable GPIO0"

definition gpio1_sequencer_enable :: "('d hsb \<times> sequencer, unit) hm" where
  "gpio1_sequencer_enable = event_sequencer_enable GPIO1"

text \<open>\<open>NullSequencer::enable\<close>: an empty program at a fixed place.\<close>

definition null_sequencer_enable :: "('d hsb \<times> sequencer, unit) hm" where
  "null_sequencer_enable =
     hthen (on_obj seq_done)
    (hthen (on_obj (hmodify (\<lambda>q. q\<lparr>q_address := APB_RAM + 0x80, q_address_set := True\<rparr>)))
      seq_write)"

subsection \<open>\<open>configure_hsb\<close>\<close>

definition configure_ptp :: "('d hsb, unit) hm" where
  "configure_ptp =
     hseq [write_reg FPGA_PTP_CTRL_DPLL_CFG1 0x2, write_reg FPGA_PTP_CTRL_DPLL_CFG2 0x2,
           write_reg FPGA_PTP_CTRL_DELAY_AVG_FACTOR 0x3, write_reg FPGA_PTP_DELAY_ASYMMETRY 0x33,
           write_reg FPGA_PTP_CTRL 0x3]"

text \<open>
  The message destination: the shifts of the bytes 255 give these constants for the broadcast
  MAC and IP addresses.
\<close>

definition configure_events :: "('d hsb, unit) hm" where
  "configure_events =
     hseq [set_host (\<lambda>h. h\<lparr>apb_interrupt_enable_cache := 0\<rparr>),
           hbind (hgets (apb_interrupt_enable_cache \<circ> host)) (write_reg CTRL_EVT_APB_INTERRUPT_EN),
           set_host (\<lambda>h. h\<lparr>rising_cache := 0\<rparr>),
           hbind (hgets (rising_cache \<circ> host)) (write_reg CTRL_EVT_RISING),
           set_host (\<lambda>h. h\<lparr>falling_cache := 0\<rparr>),
           hbind (hgets (falling_cache \<circ> host)) (write_reg CTRL_EVT_FALLING),
           write_reg CTRL_EVT_CLEAR 0xFFFFFFFF, write_reg CTRL_EVT_CLEAR 0,
           write_reg CTRL_EVT_APB_TIMEOUT 0x3937, write_reg CTRL_EVT_SW_EVENT 0,
           write_reg CTRL_EVT_HOST_MAC_ADDR_LO 0xFFFFFFFF, write_reg CTRL_EVT_HOST_MAC_ADDR_HI 0xFFFF,
           write_reg CTRL_EVT_HOST_IP_ADDR 0xFFFFFFFF,
           hbind (hgets (ucast \<circ> async_event_socket_port \<circ> host)) (write_reg CTRL_EVT_HOST_UDP_PORT),
           write_reg CTRL_EVT_FPGA_UDP_PORT 8432]"

definition configure_hsb :: "('d hsb, unit) hm" where
  "configure_hsb =
     hbind (on_link read_clock) (\<lambda>now.
     hbind (get_hsb_ip_version (Some (make_timeout now 30000000000 200000000)) False) (\<lambda>version.
     hthen (set_host (\<lambda>h. h\<lparr>hsb_ip_version := version\<rparr>))
    (hbind get_fpga_date (\<lambda>date.
     hthen (set_host (\<lambda>h. h\<lparr>datecode := date\<rparr>))
    (hthen (hbind (hgets (ptp_enable \<circ> host)) (\<lambda>b. hwhen b configure_ptp))
    (hbind (hgets (hsb_ip_version \<circ> host)) (\<lambda>v.
       hwhen (0x2503 \<le> v)
        (hthen configure_events
        (hbind (hgets (skip_sequence_initialization \<circ> host)) (\<lambda>skip.
           hwhen (\<not> skip)
             (hbind (with_object new_sequencer
                       (hthen null_sequencer_enable (on_obj seq_location)))
               (\<lambda>location. set_host (\<lambda>h. h\<lparr>null_sequence_location := location\<rparr>)))))))))))))"

text \<open>
  \<open>start\<close> after the sockets and the event thread have been set up (\<open>port\<close> is the port that
  \<open>getsockname\<close> reported). \<open>started_\<close> is set before any of it can fail.
\<close>

definition hololink_start :: "u16 \<Rightarrow> ('d hsb, unit) hm" where
  "hololink_start port =
     hbind (hgets (started \<circ> host)) (\<lambda>s.
       if s then hret ()
       else
         hthen (set_host (\<lambda>h. h\<lparr>started := True\<rparr>))
        (hthen (set_host (\<lambda>h. h\<lparr>async_event_socket_port := port\<rparr>))
        (hthen configure_hsb (set_host (\<lambda>h. h\<lparr>started := True\<rparr>)))))"

text \<open>
  \<open>trigger_reset\<close>: the last write drives the board into reset, so that no reply is expected and
  any exception is ignored.
\<close>

definition trigger_reset :: "('d hsb, unit) hm" where
  "trigger_reset =
     hthen (write_reg 0x8 0)
    (hthen (on_link (hmodify (\<lambda>l. l\<lparr>clock := clock l + 100000000\<rparr>)))
    (hthen (write_reg 0x8 0x3)
      (\<lambda>s. (Inr (), snd (write_uint32_to 0x4 0x8 None False s)))))"

subsection \<open>The caches are the board's registers\<close>

definition caches_agree :: "(u32 \<Rightarrow> u32) \<Rightarrow> hololink \<Rightarrow> bool" where
  "caches_agree R h \<longleftrightarrow>
     R CTRL_EVT_APB_INTERRUPT_EN = apb_interrupt_enable_cache h \<and>
     R CTRL_EVT_RISING = rising_cache h \<and> R CTRL_EVT_FALLING = falling_cache h"

lemma event_vector_value: "event_vector event \<in> (\<lambda>k. APB_RAM + of_nat k * 4) ` {..<22}"
  using event_code_bound [of event] by (auto simp: event_vector_def)

lemma event_vector_not_control:
  "event_vector event \<noteq> CTRL_EVT_APB_INTERRUPT_EN" "event_vector event \<noteq> CTRL_EVT_RISING"
  "event_vector event \<noteq> CTRL_EVT_FALLING" "event_vector event \<noteq> CTRL_EVT_CLEAR"
  by (cases event; simp add: event_vector_def)+

lemma event_vector_inj: "event_vector e = event_vector e' \<longleftrightarrow> e = e'"
  by (cases e; cases e') (simp_all add: event_vector_def)

lemma and_event_bit: "(c AND event_bit e \<noteq> 0) = bit c (event_code e)"
proof -
  have "c AND event_bit e = (if bit c (event_code e) then event_bit e else 0)"
    by (rule bit_word_eqI) (auto simp: bit_simps bit_event_bit)
  moreover have "event_bit e \<noteq> 0"
    using bit_event_bit [of e "event_code e"] by auto
  ultimately show ?thesis by simp
qed

lemma clear_absent: "\<not> bit c (event_code e) \<Longrightarrow> c AND NOT (event_bit e) = c"
  by (rule bit_word_eqI) (auto simp: bit_simps bit_event_bit)

text \<open>The caches after clearing, and what the board's registers become.\<close>

definition cleared :: "hsb_event \<Rightarrow> hololink \<Rightarrow> hololink" where
  "cleared e h =
     h\<lparr>apb_interrupt_enable_cache := apb_interrupt_enable_cache h AND NOT (event_bit e),
       rising_cache := rising_cache h AND NOT (event_bit e),
       falling_cache := falling_cache h AND NOT (event_bit e)\<rparr>"

lemma clear_apb_event_data_host: "fst (clear_apb_event_data e (h, d)) = cleared e h"
  by (simp add: clear_apb_event_data_def queue_write_def Let_def cleared_def and_event_bit clear_absent)

lemma clear_apb_event_data_writes:
  "snd (clear_apb_event_data e (h, d)) =
     d @ (if bit (apb_interrupt_enable_cache h) (event_code e)
          then [(CTRL_EVT_APB_INTERRUPT_EN, apb_interrupt_enable_cache (cleared e h))] else []) @
     (if bit (rising_cache h) (event_code e) then [(CTRL_EVT_RISING, rising_cache (cleared e h))] else []) @
     (if bit (falling_cache h) (event_code e) then [(CTRL_EVT_FALLING, falling_cache (cleared e h))] else []) @
     [(CTRL_EVT_CLEAR, event_bit e), (CTRL_EVT_CLEAR, 0)]"
  by (simp add: clear_apb_event_data_def queue_write_def Let_def cleared_def and_event_bit clear_absent)

lemma caches_agree_cleared:
  assumes "caches_agree R h"
  shows "caches_agree (upds R (snd (clear_apb_event_data e (h, [])))) (cleared e h)"
  using assms by (auto simp: clear_apb_event_data_writes caches_agree_def cleared_def clear_absent)

text \<open>The caches after configuring.\<close>

definition configured :: "hsb_event \<Rightarrow> bool \<Rightarrow> hololink \<Rightarrow> hololink" where
  "configured e rising h =
     (let c = cleared e h in
      c\<lparr>apb_interrupt_enable_cache := apb_interrupt_enable_cache c OR event_bit e,
        rising_cache := (if rising then rising_cache c OR event_bit e else rising_cache c),
        falling_cache := (if rising then falling_cache c else falling_cache c OR event_bit e)\<rparr>)"

definition handler_of :: "u32 \<Rightarrow> hololink \<Rightarrow> u32" where
  "handler_of handler h = (if handler = 0 then null_sequence_location h else handler)"

lemma configure_apb_event_data_host:
  "fst (configure_apb_event_data e handler rising (h, d)) = configured e rising h"
  by (simp add: configure_apb_event_data_def Let_def queue_write_def clear_apb_event_data_host configured_def)

lemma configure_apb_event_data_writes:
  "snd (configure_apb_event_data e handler rising (h, d)) =
     snd (clear_apb_event_data e (h, d)) @
     [(event_vector e, handler_of handler h),
      (if rising then (CTRL_EVT_RISING, rising_cache (configured e rising h))
       else (CTRL_EVT_FALLING, falling_cache (configured e rising h))),
      (CTRL_EVT_APB_INTERRUPT_EN, apb_interrupt_enable_cache (configured e rising h))]"
  by (simp add: configure_apb_event_data_def Let_def queue_write_def clear_apb_event_data_host
      configured_def handler_of_def cleared_def)

lemma caches_agree_configured:
  assumes "caches_agree R h"
  shows "caches_agree (upds R (snd (configure_apb_event_data e handler rising (h, [])))) (configured e rising h)"
  using caches_agree_cleared [OF assms, of e] event_vector_not_control [of e]
  by (auto simp: configure_apb_event_data_writes caches_agree_def configured_def Let_def)

lemma configured_vector:
  "upds R (snd (configure_apb_event_data e handler rising (h, []))) (event_vector e) = handler_of handler h"
  using event_vector_not_control [of e]
  by (simp add: configure_apb_event_data_writes)

text \<open>The bits of the other events are left alone.\<close>

lemma configured_others:
  "k \<noteq> event_code e \<Longrightarrow>
   bit (apb_interrupt_enable_cache (configured e rising h)) k = bit (apb_interrupt_enable_cache h) k \<and>
   bit (rising_cache (configured e rising h)) k = bit (rising_cache h) k \<and>
   bit (falling_cache (configured e rising h)) k = bit (falling_cache h) k"
  by (auto simp: configured_def cleared_def Let_def bit_simps bit_event_bit dest: bit_imp_le_length)

lemma configured_this:
  "bit (apb_interrupt_enable_cache (configured e rising h)) (event_code e)"
  "bit (rising_cache (configured e rising h)) (event_code e) \<longleftrightarrow> rising"
  "bit (falling_cache (configured e rising h)) (event_code e) \<longleftrightarrow> \<not> rising"
  using event_code_bound [of e]
  by (auto simp: configured_def cleared_def Let_def bit_simps bit_event_bit)

text \<open>While the vector of an event is replaced, its interrupt is disabled on the board.\<close>

lemma quiesced:
  assumes "caches_agree R h"
  shows "\<not> bit (upds R (snd (clear_apb_event_data e (h, []))) CTRL_EVT_APB_INTERRUPT_EN) (event_code e)"
  using caches_agree_cleared [OF assms, of e]
  by (simp add: caches_agree_def cleared_def bit_simps bit_event_bit)

lemma length_configure_writes: "length (snd (configure_apb_event_data e handler rising (h, []))) \<le> 8"
  by (simp add: configure_apb_event_data_writes clear_apb_event_data_writes)

end
