(* ===== verification/Gpio.thy ===== *)
theory Gpio
  imports Emulator_Link
begin

text \<open>
  The class \<open>Hololink::GPIO\<close> (src/src/hololink/core/hololink.cpp): up to 256 pins in eight
  registers each for direction, output and status. The operations are read-modify-writes of a
  register; what they do to the pins is stated over \<open>pin_of\<close>, which forgets the registers.
\<close>

subsection \<open>Constants and bits\<close>

definition GPIO_OUTPUT_BASE_REGISTER :: u32 where "GPIO_OUTPUT_BASE_REGISTER = 0x0C"
definition GPIO_DIRECTION_BASE_REGISTER :: u32 where "GPIO_DIRECTION_BASE_REGISTER = 0x2C"
definition GPIO_STATUS_BASE_REGISTER :: u32 where "GPIO_STATUS_BASE_REGISTER = 0x8C"
definition GPIO_REGISTER_ADDRESS_OFFSET :: u32 where "GPIO_REGISTER_ADDRESS_OFFSET = 4"
definition GPIO_PIN_RANGE :: u32 where "GPIO_PIN_RANGE = 0x100"

definition GPIO_IN :: u32 where "GPIO_IN = 1"
definition GPIO_OUT :: u32 where "GPIO_OUT = 0"
definition GPIO_LOW :: u32 where "GPIO_LOW = 0"
definition GPIO_HIGH :: u32 where "GPIO_HIGH = 1"

definition gpio_set_bit :: "u32 \<Rightarrow> u32 \<Rightarrow> u32" where
  "gpio_set_bit value b = value OR push_bit (unat b) 1"

definition gpio_clear_bit :: "u32 \<Rightarrow> u32 \<Rightarrow> u32" where
  "gpio_clear_bit value b = value AND NOT (push_bit (unat b) 1)"

definition gpio_read_bit :: "u32 \<Rightarrow> u32 \<Rightarrow> u32" where
  "gpio_read_bit value b = drop_bit (unat b) value AND 1"

definition gpio_register :: "u32 \<Rightarrow> u32 \<Rightarrow> u32" where
  "gpio_register base pin = base + (pin div 32) * GPIO_REGISTER_ADDRESS_OFFSET"

subsection \<open>Operations\<close>

record gpio =
  gpio_pin_number :: u32

definition new_gpio :: "u32 \<Rightarrow> hsb_error + gpio" where
  "new_gpio pins =
     (if GPIO_PIN_RANGE < pins then Inl (Runtime_error ''Number of GPIO pins requested exceeds system limits'')
      else Inr \<lparr>gpio_pin_number = pins\<rparr>)"

text \<open>\<open>get_gpio\<close>, given what the metadata has for \<open>gpio_pin_count\<close>.\<close>

definition get_gpio :: "int option \<Rightarrow> hsb_error + gpio" where
  "get_gpio gpio_pin_count =
     (case gpio_pin_count of
        None \<Rightarrow> Inl (Runtime_error ''GPIO is not supported on this Hololink board!'')
      | Some value \<Rightarrow>
          (let count = sint (word_of_int value :: u32) in
           if count < 0 \<or> 1000 < count then Inl (Runtime_error ''Invalid gpio_pin_count'')
           else new_gpio (word_of_int count)))"

definition invalid_pin :: hsb_error where
  "invalid_pin = Runtime_error ''GPIO: invalid pin''"

definition gpio_set_direction :: "gpio \<Rightarrow> u32 \<Rightarrow> u32 \<Rightarrow> ('d hsb, unit) hm" where
  "gpio_set_direction g pin direction =
     (if pin < gpio_pin_number g then
        (let register_address = gpio_register GPIO_DIRECTION_BASE_REGISTER pin; pin_bit = pin mod 32 in
         hbind (read_uint32 register_address) (\<lambda>reg_val.
           if direction = GPIO_IN then write_reg register_address (gpio_set_bit reg_val pin_bit)
           else if direction = GPIO_OUT then write_reg register_address (gpio_clear_bit reg_val pin_bit)
           else hthrow (Runtime_error ''GPIO: invalid direction'')))
      else hthrow invalid_pin)"

definition gpio_get_direction :: "gpio \<Rightarrow> u32 \<Rightarrow> ('d hsb, u32) hm" where
  "gpio_get_direction g pin =
     (if pin < gpio_pin_number g then
        hbind (read_uint32 (gpio_register GPIO_DIRECTION_BASE_REGISTER pin))
          (\<lambda>reg_val. hret (gpio_read_bit reg_val (pin mod 32)))
      else hthrow invalid_pin)"

definition gpio_set_value :: "gpio \<Rightarrow> u32 \<Rightarrow> u32 \<Rightarrow> ('d hsb, unit) hm" where
  "gpio_set_value g pin value =
     (if pin < gpio_pin_number g then
        hbind (gpio_get_direction g pin) (\<lambda>direction.
          if direction = GPIO_OUT then
            hbind (read_uint32 (gpio_register GPIO_STATUS_BASE_REGISTER pin)) (\<lambda>reg_val.
              let output = gpio_register GPIO_OUTPUT_BASE_REGISTER pin in
              if value = GPIO_HIGH then write_reg output (gpio_set_bit reg_val (pin mod 32))
              else if value = GPIO_LOW then write_reg output (gpio_clear_bit reg_val (pin mod 32))
              else hthrow (Runtime_error ''GPIO: invalid value''))
          else hthrow (Runtime_error ''GPIO: trying to write to an input register!''))
      else hthrow invalid_pin)"

definition gpio_get_value :: "gpio \<Rightarrow> u32 \<Rightarrow> ('d hsb, u32) hm" where
  "gpio_get_value g pin =
     (if pin < gpio_pin_number g then
        hbind (read_uint32 (gpio_register GPIO_STATUS_BASE_REGISTER pin))
          (\<lambda>reg_val. hret (gpio_read_bit reg_val (pin mod 32)))
      else hthrow invalid_pin)"

subsection \<open>Pins\<close>

definition pin_of :: "(u32 \<Rightarrow> u32) \<Rightarrow> u32 \<Rightarrow> u32 \<Rightarrow> bool" where
  "pin_of R base pin \<longleftrightarrow> bit (R (gpio_register base pin)) (unat (pin mod 32))"

definition gpio_wf :: "gpio \<Rightarrow> bool" where
  "gpio_wf g \<longleftrightarrow> gpio_pin_number g \<le> GPIO_PIN_RANGE"

lemma new_gpio_wf: "new_gpio pins = Inr g \<Longrightarrow> gpio_wf g"
  by (auto simp: new_gpio_def gpio_wf_def not_less split: if_splits)

lemma get_gpio_wf: "get_gpio c = Inr g \<Longrightarrow> gpio_wf g"
  by (auto simp: get_gpio_def Let_def split: option.splits if_splits dest: new_gpio_wf)

lemma unat_mod_32: "unat (pin mod 32 :: u32) < 32"
  by (simp add: unat_mod)

lemma bit_gpio_set: "bit (gpio_set_bit v b) k \<longleftrightarrow> bit v k \<or> (k = unat b \<and> k < 32)"
  by (auto simp: gpio_set_bit_def bit_simps)

lemma bit_gpio_clear: "bit (gpio_clear_bit v b) k \<longleftrightarrow> bit v k \<and> k \<noteq> unat b"
  by (auto simp: gpio_clear_bit_def bit_simps dest: bit_imp_le_length)

lemma gpio_read_bit_value: "gpio_read_bit v b = (if bit v (unat b) then 1 else 0)"
  by (rule bit_word_eqI) (auto simp: gpio_read_bit_def bit_simps, metis add_0_right gr0I)

text \<open>The pins of the 256 are spread over different bits.\<close>

lemma unat_div_32: "pin < 0x100 \<Longrightarrow> unat (pin div 32 :: u32) < 8"
  by (simp add: unat_div word_less_nat_alt)

lemma gpio_register_eq:
  assumes "pin < 0x100" "q < 0x100"
  shows "gpio_register base pin = gpio_register base q \<longleftrightarrow> pin div 32 = q div 32"
proof
  assume "gpio_register base pin = gpio_register base q"
  then have "(pin div 32) * 4 = (q div 32) * 4"
    by (simp add: gpio_register_def GPIO_REGISTER_ADDRESS_OFFSET_def)
  then have "unat ((pin div 32) * 4) = unat ((q div 32) * 4)" by simp
  then have "unat (pin div 32) * 4 = unat (q div 32) * 4"
    using unat_div_32 [OF assms(1)] unat_div_32 [OF assms(2)] by (simp add: unat_word_ariths)
  then show "pin div 32 = q div 32" by (simp add: word_unat_eq_iff)
next
  assume "pin div 32 = q div 32"
  then show "gpio_register base pin = gpio_register base q" by (simp add: gpio_register_def)
qed

lemma same_pin: "pin div 32 = q div 32 \<and> unat (pin mod 32) = unat (q mod 32) \<longleftrightarrow> pin = (q :: u32)"
  by (metis div_mult_mod_eq word_unat_eq_iff)

text \<open>The three banks do not overlap, and every address is a multiple of four below \<open>0xAC\<close>.\<close>

lemma unat_gpio_register:
  assumes "pin < 0x100" and "unat base < 0x1000"
  shows "unat (gpio_register base pin) = unat base + 4 * unat (pin div 32)"
  using unat_div_32 [OF assms(1)] assms(2)
  by (simp add: gpio_register_def GPIO_REGISTER_ADDRESS_OFFSET_def unat_word_ariths)

lemmas gpio_bases = GPIO_OUTPUT_BASE_REGISTER_def GPIO_DIRECTION_BASE_REGISTER_def GPIO_STATUS_BASE_REGISTER_def

lemma gpio_banks_disjoint:
  assumes "pin < 0x100" "q < 0x100"
  shows "gpio_register GPIO_OUTPUT_BASE_REGISTER pin \<noteq> gpio_register GPIO_DIRECTION_BASE_REGISTER q"
    "gpio_register GPIO_OUTPUT_BASE_REGISTER pin \<noteq> gpio_register GPIO_STATUS_BASE_REGISTER q"
    "gpio_register GPIO_DIRECTION_BASE_REGISTER pin \<noteq> gpio_register GPIO_STATUS_BASE_REGISTER q"
  using unat_div_32 [OF assms(1)] unat_div_32 [OF assms(2)]
  by (auto simp: word_unat_eq_iff unat_gpio_register assms gpio_bases)

lemma pin_of_upd:
  assumes "pin < 0x100" "q < 0x100"
  shows "pin_of (R(gpio_register base pin := v)) base q =
    (if pin div 32 = q div 32 then bit v (unat (q mod 32)) else pin_of R base q)"
  using gpio_register_eq [OF assms, of base] by (auto simp: pin_of_def)

lemma pin_of_other:
  "gpio_register base' pin \<noteq> gpio_register base q \<Longrightarrow> pin_of (R(gpio_register base' pin := v)) base q = pin_of R base q"
  by (simp add: pin_of_def)

text \<open>A write of one pin changes that pin and no other, in no bank.\<close>

definition put_pin :: "bool \<Rightarrow> u32 \<Rightarrow> u32 \<Rightarrow> u32" where
  "put_pin b v pin = (if b then gpio_set_bit v (pin mod 32) else gpio_clear_bit v (pin mod 32))"

lemma bit_put_pin:
  "bit (put_pin b v pin) (unat (q mod 32)) \<longleftrightarrow> (if unat (pin mod 32) = unat (q mod 32) then b else bit v (unat (q mod 32)))"
  using unat_mod_32 [of pin] by (auto simp: put_pin_def bit_gpio_set bit_gpio_clear)

lemma pin_of_put:
  assumes "pin < 0x100" "q < 0x100"
  shows "pin_of (R(gpio_register base pin := put_pin b (R (gpio_register base' pin)) pin)) base q \<longleftrightarrow>
      (if q = pin then b else if q div 32 = pin div 32 then pin_of R base' q else pin_of R base q)"
proof -
  have "gpio_register base' pin = gpio_register base' q" if "q div 32 = pin div 32"
    using that by (simp add: gpio_register_def)
  then show ?thesis
    using same_pin [of pin q] unfolding pin_of_upd [OF assms] bit_put_pin
    by (auto simp: pin_of_def)
qed

subsection \<open>The operations on a board\<close>

text \<open>What the drivers need of the GPIO registers: they are memory.\<close>

definition gpio_memory :: "(u32 \<Rightarrow> bool) \<Rightarrow> (u32 \<times> u32 \<Rightarrow> (u32 \<times> u32) list option) \<Rightarrow> bool" where
  "gpio_memory readable effect \<longleftrightarrow>
     (\<forall>base pin v. base \<in> {GPIO_OUTPUT_BASE_REGISTER, GPIO_DIRECTION_BASE_REGISTER, GPIO_STATUS_BASE_REGISTER} \<longrightarrow>
        pin < 0x100 \<longrightarrow> readable (gpio_register base pin) \<and>
        effect (gpio_register base pin, v) = Some [(gpio_register base pin, v)])"

context register_device
begin

lemma gpio_range:
  "gpio_wf g \<Longrightarrow> pin < gpio_pin_number g \<Longrightarrow> pin < 0x100"
  by (simp add: gpio_wf_def GPIO_PIN_RANGE_def)

lemma gpio_set_direction_rule:
  assumes "gpio_memory readable effect" "gpio_wf g" "pin < gpio_pin_number g"
    and "direction = GPIO_IN \<or> direction = GPIO_OUT"
  shows "runs (st R (Suc n) h) (gpio_set_direction g pin direction)
    (\<lambda>_. st (R(gpio_register GPIO_DIRECTION_BASE_REGISTER pin :=
       put_pin (direction = GPIO_IN) (R (gpio_register GPIO_DIRECTION_BASE_REGISTER pin)) pin)) n h)"
proof -
  let ?a = "gpio_register GPIO_DIRECTION_BASE_REGISTER pin"
  have m: "readable ?a" "\<And>v. effect (?a, v) = Some [(?a, v)]"
    using assms(1) gpio_range [OF assms(2,3)] by (auto simp: gpio_memory_def)
  have "(gpio_set_direction g pin direction :: ('d hsb, unit) hm) =
      hbind (read_uint32 ?a) (\<lambda>v. write_reg ?a (put_pin (direction = GPIO_IN) v pin))"
    using assms(3,4) by (auto simp: gpio_set_direction_def Let_def put_pin_def GPIO_IN_def GPIO_OUT_def)
  then show ?thesis
    using read_write_reg_rule [OF m, of R n h "\<lambda>v. put_pin (direction = GPIO_IN) v pin"] by simp
qed

lemma gpio_get_direction_rule:
  assumes "gpio_memory readable effect" "gpio_wf g" "pin < gpio_pin_number g"
  shows "runs (st R (Suc n) h) (gpio_get_direction g pin)
    (\<lambda>d s. d = (if pin_of R GPIO_DIRECTION_BASE_REGISTER pin then GPIO_IN else GPIO_OUT) \<and> st R n h s)"
proof -
  have "readable (gpio_register GPIO_DIRECTION_BASE_REGISTER pin)"
    using assms(1) gpio_range [OF assms(2,3)] by (auto simp: gpio_memory_def)
  from read_uint32_rule [OF this] show ?thesis
    unfolding gpio_get_direction_def if_P [OF assms(3)]
    by (rule runs_hbind_val)
      (rule runs_hret_conseq, simp add: gpio_read_bit_value pin_of_def GPIO_IN_def GPIO_OUT_def)
qed

lemma gpio_get_value_rule:
  assumes "gpio_memory readable effect" "gpio_wf g" "pin < gpio_pin_number g"
  shows "runs (st R (Suc n) h) (gpio_get_value g pin)
    (\<lambda>v s. v = (if pin_of R GPIO_STATUS_BASE_REGISTER pin then GPIO_HIGH else GPIO_LOW) \<and> st R n h s)"
proof -
  have "readable (gpio_register GPIO_STATUS_BASE_REGISTER pin)"
    using assms(1) gpio_range [OF assms(2,3)] by (auto simp: gpio_memory_def)
  from read_uint32_rule [OF this] show ?thesis
    unfolding gpio_get_value_def if_P [OF assms(3)]
    by (rule runs_hbind_val)
      (rule runs_hret_conseq, simp add: gpio_read_bit_value pin_of_def GPIO_HIGH_def GPIO_LOW_def)
qed

lemma gpio_set_value_rule:
  assumes "gpio_memory readable effect" "gpio_wf g" "pin < gpio_pin_number g"
    and "value = GPIO_HIGH \<or> value = GPIO_LOW" and "\<not> pin_of R GPIO_DIRECTION_BASE_REGISTER pin"
  shows "runs (st R (Suc (Suc n)) h) (gpio_set_value g pin value)
    (\<lambda>_. st (R(gpio_register GPIO_OUTPUT_BASE_REGISTER pin :=
       put_pin (value = GPIO_HIGH) (R (gpio_register GPIO_STATUS_BASE_REGISTER pin)) pin)) n h)"
proof -
  let ?o = "gpio_register GPIO_OUTPUT_BASE_REGISTER pin" and ?s = "gpio_register GPIO_STATUS_BASE_REGISTER pin"
  have m: "readable ?s" "\<And>v. effect (?o, v) = Some [(?o, v)]"
    using assms(1) gpio_range [OF assms(2,3)] by (auto simp: gpio_memory_def)
  have "(gpio_set_value g pin value :: ('d hsb, unit) hm) = hbind (gpio_get_direction g pin) (\<lambda>direction.
      if direction = GPIO_OUT then hbind (read_uint32 ?s) (\<lambda>v. write_reg ?o (put_pin (value = GPIO_HIGH) v pin))
      else hthrow (Runtime_error ''GPIO: trying to write to an input register!''))"
    using assms(3,4)
    by (auto simp: gpio_set_value_def Let_def put_pin_def GPIO_HIGH_def GPIO_LOW_def cong: if_cong)
  moreover have "runs (st R (Suc (Suc n)) h) (gpio_get_direction g pin) (\<lambda>d s. d = GPIO_OUT \<and> st R (Suc n) h s)"
    using gpio_get_direction_rule [OF assms(1-3), of R "Suc n" h] assms(5) by simp
  moreover note read_write_reg_rule [OF m, of R n h "\<lambda>v. put_pin (value = GPIO_HIGH) v pin"]
  ultimately show ?thesis by (simp add: runs_hbind_val)
qed

text \<open>What the operations refuse.\<close>

lemma gpio_set_value_input:
  assumes "gpio_memory readable effect" "gpio_wf g" "pin < gpio_pin_number g"
    and "pin_of R GPIO_DIRECTION_BASE_REGISTER pin" and "st R (Suc n) h s"
  shows "\<exists>s'. gpio_set_value g pin value s =
    (Inl (Runtime_error ''GPIO: trying to write to an input register!''), s') \<and> st R n h s'"
proof -
  obtain s' where s': "gpio_get_direction g pin s = (Inr GPIO_IN, s')" "st R n h s'"
    using runsD [OF gpio_get_direction_rule [OF assms(1-3)] assms(5)] assms(4) by auto
  then show ?thesis using assms(3)
    by (simp add: gpio_set_value_def GPIO_IN_def GPIO_OUT_def hbind_def)
qed

end

lemma gpio_invalid_pin:
  assumes "\<not> pin < gpio_pin_number g"
  shows "gpio_set_direction g pin d s = (Inl invalid_pin, s)" "gpio_get_direction g pin s = (Inl invalid_pin, s)"
    "gpio_set_value g pin v s = (Inl invalid_pin, s)" "gpio_get_value g pin s = (Inl invalid_pin, s)"
  using assms by (simp_all add: gpio_set_direction_def gpio_get_direction_def gpio_set_value_def gpio_get_value_def)

end
