(* ===== verification/Uart.thy ===== *)
theory Uart
  imports Gpio
begin

text \<open>
  The UART driver, the class \<open>Uart\<close> of src/src/hololink/core/hololink.cpp: validation and
  encoding of the line parameters, read-modify-writes of the control registers with the UART
  disabled, and the byte-wise transfers through the FIFOs. The state of a method is the board
  and the object with its shadow copies of the parameters. The named lock is left out: one
  method is one step. The second half states what the methods do to the fields of the registers.
\<close>

subsection \<open>Registers\<close>

definition UART :: u32 where "UART = 0x3000400"
definition UART_CTRL0 :: u32 where "UART_CTRL0 = 0x00"
definition UART_CTRL1 :: u32 where "UART_CTRL1 = 0x04"
definition UART_CTRL2 :: u32 where "UART_CTRL2 = 0x08"
definition UART_CTRL3 :: u32 where "UART_CTRL3 = 0x0C"
definition UART_CTRL_STRIDE :: u32 where "UART_CTRL_STRIDE = 0x10"
definition UART_STATUS0 :: u32 where "UART_STATUS0 = 0x80"
definition UART_STATUS1 :: u32 where "UART_STATUS1 = 0x84"
definition UART_STATUS_STRIDE :: u32 where "UART_STATUS_STRIDE = 0x08"
definition UART_TX_DATA :: u32 where "UART_TX_DATA = 0x140"
definition UART_RX_DATA :: u32 where "UART_RX_DATA = 0x144"
definition UART_LAST_RX :: u32 where "UART_LAST_RX = 0x148"
definition UART_DATA_STRIDE :: u32 where "UART_DATA_STRIDE = 0x0C"

lemmas uart_registers = UART_def UART_CTRL0_def UART_CTRL1_def UART_CTRL2_def UART_CTRL3_def
  UART_CTRL_STRIDE_def UART_STATUS0_def UART_STATUS1_def UART_STATUS_STRIDE_def UART_TX_DATA_def
  UART_RX_DATA_def UART_LAST_RX_def UART_DATA_STRIDE_def

record uart =
  port_number :: u32
  baud_rate :: u32
  data_bits :: u32
  parity :: u32
  stop_bits :: u32
  flow_control :: u32
  tx_almost_empty_threshold :: u32
  tx_almost_full_threshold :: u32
  rx_almost_empty_threshold :: u32
  rx_almost_full_threshold :: u32
  uart_ctrl0 :: u32
  uart_ctrl1 :: u32
  uart_ctrl2 :: u32
  uart_ctrl3 :: u32
  uart_status0 :: u32
  uart_status1 :: u32
  uart_tx_data :: u32
  uart_rx_data :: u32
  uart_last_rx :: u32

type_synonym ('d, 'a) um = "('d hsb \<times> uart, 'a) hm"

text \<open>Accesses to a register of the object, and assignments to its members.\<close>

definition uart_get :: "(uart \<Rightarrow> u32) \<Rightarrow> ('d, u32) um" where
  "uart_get f = hbind (hgets snd) (\<lambda>u. on_hsb (read_uint32 (f u)))"

definition uart_put :: "(uart \<Rightarrow> u32) \<Rightarrow> u32 \<Rightarrow> ('d, unit) um" where
  "uart_put f v = hbind (hgets snd) (\<lambda>u. on_hsb (write_reg (f u) v))"

definition uart_modify :: "(uart \<Rightarrow> u32) \<Rightarrow> (u32 \<Rightarrow> u32) \<Rightarrow> ('d, unit) um" where
  "uart_modify f g = hbind (uart_get f) (\<lambda>v. uart_put f (g v))"

definition uart_set :: "(uart \<Rightarrow> uart) \<Rightarrow> ('d, unit) um" where
  "uart_set f = on_obj (hmodify f)"

subsection \<open>Encodings\<close>

definition baud_rate_to_divisor :: "u32 \<Rightarrow> hsb_error + u32" where
  "baud_rate_to_divisor rate =
     (if rate = 115200 then Inr 20 else if rate = 57600 then Inr 41 else if rate = 38400 then Inr 62
      else if rate = 19200 then Inr 126 else if rate = 9600 then Inr 254
      else Inl (Runtime_error ''Invalid baud rate configuration''))"

definition stop_bits_to_encoding :: "u32 \<Rightarrow> hsb_error + u32" where
  "stop_bits_to_encoding stop =
     (if stop = 1 then Inr 0 else if stop = 15 then Inr 1 else if stop = 2 then Inr 2
      else Inl (Runtime_error ''Invalid stop bits configuration''))"

definition data_bits_encoding :: "u32 \<Rightarrow> u32" where
  "data_bits_encoding bits = (8 - bits) AND 3"

definition valid_data_bits :: "u32 \<Rightarrow> bool" where
  "valid_data_bits bits \<longleftrightarrow> bits = 8 \<or> bits = 7 \<or> bits = 6 \<or> bits = 5"

definition check_thresholds :: "u32 \<Rightarrow> u32 \<Rightarrow> ('s, unit) hm" where
  "check_thresholds almost_empty almost_full =
     hseq [hthrow_if (255 < almost_empty) (Runtime_error ''almost empty threshold cannot be greater than 255''),
           hthrow_if (255 < almost_full) (Runtime_error ''almost full threshold cannot be greater than 255''),
           hthrow_if (almost_full < almost_empty)
             (Runtime_error ''almost empty threshold cannot be greater than almost full threshold'')]"

subsection \<open>Enabling and disabling\<close>

definition uart_disable :: "('d, unit) um" where
  "uart_disable = uart_modify uart_ctrl0 (\<lambda>v. v AND NOT 0x7)"

definition uart_enable :: "('d, unit) um" where
  "uart_enable = uart_modify uart_ctrl0 (\<lambda>v. v OR 0x7)"

definition uart_tx_disable :: "('d, unit) um" where
  "uart_tx_disable = uart_modify uart_ctrl0 (\<lambda>v. v AND NOT (push_bit 1 1))"

definition uart_tx_enable :: "('d, unit) um" where
  "uart_tx_enable = uart_modify uart_ctrl0 (\<lambda>v. v OR push_bit 1 1)"

definition uart_rx_disable :: "('d, unit) um" where
  "uart_rx_disable = uart_modify uart_ctrl0 (\<lambda>v. v AND NOT (push_bit 2 1))"

definition uart_rx_enable :: "('d, unit) um" where
  "uart_rx_enable = uart_modify uart_ctrl0 (\<lambda>v. v OR push_bit 2 1)"

definition uart_enable_internal_loopback :: "('d, unit) um" where
  "uart_enable_internal_loopback = uart_modify uart_ctrl0 (\<lambda>v. v OR push_bit 3 1)"

definition uart_disable_internal_loopback :: "('d, unit) um" where
  "uart_disable_internal_loopback = uart_modify uart_ctrl0 (\<lambda>v. v AND NOT (push_bit 3 1))"

text \<open>The values are only logged.\<close>

definition uart_dump_registers :: "('d, unit) um" where
  "uart_dump_registers =
     hseq (map (\<lambda>f. hbind (uart_get f) (\<lambda>_. hret ()))
       [uart_ctrl0, uart_ctrl1, uart_ctrl2, uart_ctrl3, uart_status0, uart_status1])"

definition uart_clear_sticky_bits :: "u32 \<Rightarrow> ('d, unit) um" where
  "uart_clear_sticky_bits bits =
     hthen (hthrow_if (bits AND NOT 0x7F \<noteq> 0)
       (Runtime_error ''Invalid bitmask: only bits 0-6 are valid for sticky bit clearing''))
       (uart_put uart_ctrl3 bits)"

subsection \<open>Setting one parameter\<close>

text \<open>The UART is disabled while a register changes.\<close>

definition uart_reconfigure :: "('d, unit) um \<Rightarrow> ('d, unit) um" where
  "uart_reconfigure m = hseq [uart_disable, m, uart_enable]"

text \<open>Bits 8 and 11 of the GPIO directions and bit 9 of the multiplexer.\<close>

definition flow_control_gpio :: "u32 \<Rightarrow> u32 \<Rightarrow> u32" where
  "flow_control_gpio flow v =
     (if flow \<noteq> 0 then v OR push_bit 8 1 OR push_bit 11 1
      else (v AND NOT (push_bit 8 1)) OR push_bit 11 1)"

definition uart_gpio :: "u32 \<Rightarrow> ('d, unit) um" where
  "uart_gpio flow =
     hseq [uart_modify (\<lambda>_. GPIO_DIRECTION_BASE_REGISTER) (flow_control_gpio flow),
           uart_modify (\<lambda>_. VSYNC_GPIO) (\<lambda>v. v OR push_bit 9 1)]"

definition uart_set_flow_control :: "u32 \<Rightarrow> ('d, unit) um" where
  "uart_set_flow_control flow =
     hseq [hthrow_if (flow \<noteq> 0 \<and> flow \<noteq> 1) (Runtime_error ''Invalid flow control configuration''),
           uart_set (flow_control_update (\<lambda>_. flow)),
           uart_disable,
           uart_modify uart_ctrl0 (put_field 14 1 flow),
           uart_gpio flow,
           uart_enable]"

definition uart_set_baud_rate :: "u32 \<Rightarrow> ('d, unit) um" where
  "uart_set_baud_rate rate =
     hbind (hlift (baud_rate_to_divisor rate)) (\<lambda>baud_div.
       hseq [uart_set (baud_rate_update (\<lambda>_. rate)),
             uart_reconfigure (uart_modify uart_ctrl1 (put_field 0 16 baud_div))])"

definition uart_set_data_bits :: "u32 \<Rightarrow> ('d, unit) um" where
  "uart_set_data_bits bits =
     hseq [hthrow_if (\<not> valid_data_bits bits) (Invalid_argument ''Invalid data bits configuration''),
           uart_set (data_bits_update (\<lambda>_. bits)),
           uart_reconfigure (uart_modify uart_ctrl0 (put_field 4 2 (data_bits_encoding bits)))]"

definition uart_set_parity :: "u32 \<Rightarrow> ('d, unit) um" where
  "uart_set_parity par =
     hseq [hthrow_if (par \<noteq> 0 \<and> par \<noteq> 1 \<and> par \<noteq> 2) (Runtime_error ''Invalid parity configuration''),
           uart_set (parity_update (\<lambda>_. par)),
           uart_reconfigure (uart_modify uart_ctrl0 (put_field 6 2 par))]"

definition uart_set_stop_bits :: "u32 \<Rightarrow> ('d, unit) um" where
  "uart_set_stop_bits stop =
     hbind (hlift (stop_bits_to_encoding stop)) (\<lambda>encoding.
       hseq [uart_set (stop_bits_update (\<lambda>_. encoding)),
             uart_reconfigure (uart_modify uart_ctrl0 (put_field 12 2 encoding))])"

definition uart_set_tx_fifo_threshold :: "u32 \<Rightarrow> u32 \<Rightarrow> ('d, unit) um" where
  "uart_set_tx_fifo_threshold almost_empty almost_full =
     hseq [check_thresholds almost_empty almost_full,
           uart_set (tx_almost_empty_threshold_update (\<lambda>_. almost_empty)),
           uart_set (tx_almost_full_threshold_update (\<lambda>_. almost_full)),
           uart_reconfigure (uart_modify uart_ctrl1
             (\<lambda>v. put_field 24 8 almost_empty (put_field 16 8 almost_full v)))]"

definition uart_set_rx_fifo_threshold :: "u32 \<Rightarrow> u32 \<Rightarrow> ('d, unit) um" where
  "uart_set_rx_fifo_threshold almost_empty almost_full =
     hseq [check_thresholds almost_empty almost_full,
           uart_set (rx_almost_empty_threshold_update (\<lambda>_. almost_empty)),
           uart_set (rx_almost_full_threshold_update (\<lambda>_. almost_full)),
           uart_reconfigure (uart_modify uart_ctrl0
             (\<lambda>v. put_field 24 8 almost_empty (put_field 16 8 almost_full v)))]"

subsection \<open>Configuring everything\<close>

text \<open>
  The new values of the two control registers, field by field in the order of the code; the last
  step takes the FIFOs out of reset.
\<close>

definition ctrl0_value :: "uart \<Rightarrow> u32 \<Rightarrow> u32 \<Rightarrow> u32 \<Rightarrow> u32" where
  "ctrl0_value u rx_almost_empty rx_almost_full v =
     (let v = put_field 4 2 (data_bits_encoding (data_bits u)) v;
          v = put_field 6 2 (parity u) v;
          v = put_field 12 2 (stop_bits u) v;
          v = put_field 14 1 (flow_control u) v;
          v = put_field 16 8 rx_almost_full v;
          v = put_field 24 8 rx_almost_empty v
      in v AND NOT (push_bit 8 1 OR push_bit 9 1))"

definition ctrl1_value :: "u32 \<Rightarrow> u32 \<Rightarrow> u32 \<Rightarrow> u32 \<Rightarrow> u32" where
  "ctrl1_value baud_div tx_almost_empty tx_almost_full v =
     put_field 24 8 tx_almost_empty (put_field 16 8 tx_almost_full (put_field 0 16 baud_div v))"

definition uart_configure ::
  "u32 \<Rightarrow> u32 \<Rightarrow> u32 \<Rightarrow> u32 \<Rightarrow> u32 \<Rightarrow> u32 \<Rightarrow> u32 \<Rightarrow> u32 \<Rightarrow> u32 \<Rightarrow> ('d, unit) um"
where
  "uart_configure rate bits par stop flow tx_almost_empty tx_almost_full rx_almost_empty rx_almost_full =
     hbind (hlift (baud_rate_to_divisor rate)) (\<lambda>baud_div. hseq
       [uart_set (baud_rate_update (\<lambda>_. rate)),
        hthrow_if (flow \<noteq> 0 \<and> flow \<noteq> 1) (Runtime_error ''Invalid flow control configuration''),
        uart_set (flow_control_update (\<lambda>_. flow)),
        hthrow_if (\<not> valid_data_bits bits) (Runtime_error ''Invalid data bits configuration''),
        uart_set (data_bits_update (\<lambda>_. bits)),
        hthrow_if (par \<noteq> 0 \<and> par \<noteq> 1 \<and> par \<noteq> 2) (Runtime_error ''Invalid parity configuration''),
        uart_set (parity_update (\<lambda>_. par)),
        hbind (hlift (stop_bits_to_encoding stop)) (\<lambda>encoding. uart_set (stop_bits_update (\<lambda>_. encoding))),
        check_thresholds tx_almost_empty tx_almost_full,
        check_thresholds rx_almost_empty rx_almost_full,
        uart_disable,
        uart_put uart_ctrl0 (push_bit 8 1 OR push_bit 9 1),
        hbind (uart_get uart_ctrl0) (\<lambda>value0.
          hbind (uart_get uart_ctrl1) (\<lambda>value1.
            hbind (hgets snd) (\<lambda>u. hseq
              [uart_put uart_ctrl0 (ctrl0_value u rx_almost_empty rx_almost_full value0),
               uart_put uart_ctrl1 (ctrl1_value baud_div tx_almost_empty tx_almost_full value1)]))),
        uart_put uart_ctrl2 0xF,
        uart_clear_sticky_bits 0x7F,
        hbind (hgets (flow_control \<circ> snd)) uart_gpio,
        uart_enable])"

text \<open>
  The constructor with the arguments of \<open>get_uart\<close>; \<open>debug\<close> says whether messages of that level
  are logged, for which the registers are read.
\<close>

definition uart_object :: "u32 \<Rightarrow> u32 \<Rightarrow> u32 \<Rightarrow> u32 \<Rightarrow> u32 \<Rightarrow> u32 \<Rightarrow> uart" where
  "uart_object port rate bits par stop flow =
     \<lparr>port_number = port, baud_rate = rate, data_bits = bits, parity = par, stop_bits = stop,
      flow_control = flow, tx_almost_empty_threshold = 4, tx_almost_full_threshold = 252,
      rx_almost_empty_threshold = 4, rx_almost_full_threshold = 252,
      uart_ctrl0 = UART + UART_CTRL0 + port * UART_CTRL_STRIDE,
      uart_ctrl1 = UART + UART_CTRL1 + port * UART_CTRL_STRIDE,
      uart_ctrl2 = UART + UART_CTRL2 + port * UART_CTRL_STRIDE,
      uart_ctrl3 = UART + UART_CTRL3 + port * UART_CTRL_STRIDE,
      uart_status0 = UART + UART_STATUS0 + port * UART_STATUS_STRIDE,
      uart_status1 = UART + UART_STATUS1 + port * UART_STATUS_STRIDE,
      uart_tx_data = UART + UART_TX_DATA + port * UART_DATA_STRIDE,
      uart_rx_data = UART + UART_RX_DATA + port * UART_DATA_STRIDE,
      uart_last_rx = UART + UART_LAST_RX + port * UART_DATA_STRIDE\<rparr>"

definition get_uart :: "bool \<Rightarrow> u32 \<Rightarrow> u32 \<Rightarrow> u32 \<Rightarrow> u32 \<Rightarrow> u32 \<Rightarrow> u32 \<Rightarrow> ('d hsb, uart) hm" where
  "get_uart debug port rate bits par stop flow =
     hthen (hthrow_if (0 < port) (Runtime_error ''Invalid port number configuration''))
       (with_object (uart_object port rate bits par stop flow)
         (hthen (hseq [uart_configure rate bits par stop flow 4 252 4 252, hwhen debug uart_dump_registers])
           (hgets snd)))"

subsection \<open>Transfers\<close>

text \<open>
  One byte for each register write, after the FIFO was seen not to be full. While it is full the
  status is read again until the time is over.
\<close>

function uart_write_bytes :: "uart \<Rightarrow> bytes \<Rightarrow> timeout \<Rightarrow> 'd hsb \<Rightarrow> (hsb_error + unit) \<times> 'd hsb" where
  "uart_write_bytes u [] to s = (Inr (), s)"
| "uart_write_bytes u (b # bs) to s =
     (case read_uint32 (uart_status0 u) s of
        (Inl e, s1) \<Rightarrow> (Inl e, s1)
      | (Inr value, s1) \<Rightarrow>
          if value AND push_bit 2 1 \<noteq> 0 then
            (case do_retry to s1 of
               ((False, to'), s2) \<Rightarrow> (Inl (Timeout_error ''UART write: TX FIFO full timeout''), s2)
             | ((True, to'), s2) \<Rightarrow> uart_write_bytes u (b # bs) to' s2)
          else
            (case write_reg (uart_tx_data u) (ucast b) s1 of
               (Inl e, s2) \<Rightarrow> (Inl e, s2)
             | (Inr _, s2) \<Rightarrow> uart_write_bytes u bs to s2))"
  by pat_completeness auto

lemma hrel_read_uint32 [hrel_intro]: "hrel hsb_later (read_uint32 address)"
  unfolding read_uint32_def by (auto intro!: hrel_intro hsb_later_order split: prod.splits)

lemma uart_write_measure:
  assumes "read_uint32 a s = (r, s1)" and "do_retry to s1 = ((True, to'), s2)"
  shows "clock (link s) < expiry to \<and> expiry to' - clock (link s2) < expiry to - clock (link s)"
  using do_retry_True [OF assms(2)] hrelD [OF hrel_read_uint32 assms(1)]
  by (auto simp: hsb_later_def later_def)

termination uart_write_bytes
  by (relation "measures [\<lambda>(_, bs, _, _). length bs, \<lambda>(_, _, to, s). nat (expiry to - clock (link s))]")
    (auto dest: uart_write_measure
       dest!: sym [where s = "(_, _)" and t = "read_uint32 _ _"] sym [where s = "(_, _)" and t = "do_retry _ _"])

declare uart_write_bytes.simps(2) [simp del]

text \<open>The timeout of the whole transfer: 5 s in steps of 1 ms.\<close>

definition uart_write :: "bytes \<Rightarrow> ('d, unit) um" where
  "uart_write data =
     hseq [hthrow_if (256 < length data) (Runtime_error ''Data size cannot be greater than 256''),
           hthrow_if (data = []) (Runtime_error ''Data size cannot be zero''),
           hbind (on_hsb (on_link read_clock)) (\<lambda>now.
             hbind (hgets snd) (\<lambda>u.
               on_hsb (uart_write_bytes u data (make_timeout now 5000000000 1000000))))]"

fun uart_read_bytes :: "nat \<Rightarrow> ('d, bytes) um" where
  "uart_read_bytes 0 = hret []"
| "uart_read_bytes (Suc n) =
     hbind (uart_get uart_status0) (\<lambda>value.
       if value AND push_bit 5 1 \<noteq> 0 then
         hbind (uart_get uart_rx_data) (\<lambda>w.
           hbind (uart_read_bytes n) (\<lambda>bs. hret (ucast (w AND 0xFF) # bs)))
       else hret [])"

text \<open>The data, filled up with zeros, and the number of bytes read.\<close>

definition uart_read :: "nat \<Rightarrow> ('d, bytes \<times> u32) um" where
  "uart_read bytes_num =
     hthen (hthrow_if (256 < bytes_num) (Runtime_error ''Max bytes cannot be greater than 256''))
    (hthen (hthrow_if (bytes_num = 0) (Runtime_error ''Bytes to read cannot be zero''))
      (hbind (uart_read_bytes bytes_num) (\<lambda>bs.
        hret (bs @ replicate (bytes_num - length bs) 0, of_nat (length bs)))))"

subsection \<open>The fields of the control registers\<close>

record uart_line =
  l_enabled :: u32
  l_data :: u32
  l_parity :: u32
  l_reset :: u32
  l_stop :: u32
  l_flow :: u32
  l_rx_full :: u32
  l_rx_empty :: u32
  l_baud :: u32
  l_tx_full :: u32
  l_tx_empty :: u32

definition line_of :: "u32 \<Rightarrow> u32 \<Rightarrow> uart_line" where
  "line_of c0 c1 =
     \<lparr>l_enabled = get_field 0 3 c0, l_data = get_field 4 2 c0, l_parity = get_field 6 2 c0,
      l_reset = get_field 8 2 c0, l_stop = get_field 12 2 c0, l_flow = get_field 14 1 c0,
      l_rx_full = get_field 16 8 c0, l_rx_empty = get_field 24 8 c0, l_baud = get_field 0 16 c1,
      l_tx_full = get_field 16 8 c1, l_tx_empty = get_field 24 8 c1\<rparr>"

text \<open>The operations on the registers as fields.\<close>

lemma field_ops:
  "v AND NOT 0x7 = put_field 0 3 0 v" "v OR 0x7 = put_field 0 3 7 v"
  "v AND NOT (push_bit 8 1 OR push_bit 9 1) = put_field 8 2 0 v"
proof -
  have m: "(0x7 :: u32) = mask 3" "(push_bit 8 1 OR push_bit 9 1 :: u32) = push_bit 8 (mask 2)"
    by (simp_all add: mask_eq_exp_minus_1)
  show "v AND NOT 0x7 = put_field 0 3 0 v" "v AND NOT (push_bit 8 1 OR push_bit 9 1) = put_field 8 2 0 v"
    unfolding m by (simp_all add: put_field_def)
  show "v OR 0x7 = put_field 0 3 7 v"
    unfolding m by (rule bit_word_eqI) (auto simp: put_field_def bit_simps)
qed

lemma data_bits_encoding_small: "data_bits_encoding bits < 4"
proof -
  have "data_bits_encoding bits \<le> 3" unfolding data_bits_encoding_def by (rule word_and_le1)
  then show ?thesis by (rule order_le_less_trans) simp
qed

lemma ctrl0_configured:
  assumes "parity u < 4" "stop_bits u < 4" "flow_control u < 2" "rf < 256" "re < 256"
  shows "line_of (ctrl0_value u re rf v OR 0x7) c1 = (line_of v c1)
    \<lparr>l_enabled := 7, l_data := data_bits_encoding (data_bits u), l_parity := parity u, l_reset := 0,
     l_stop := stop_bits u, l_flow := flow_control u, l_rx_full := rf, l_rx_empty := re\<rparr>"
  using assms data_bits_encoding_small [of "data_bits u"]
  unfolding ctrl0_value_def Let_def field_ops
  by (simp add: line_of_def get_put_field get_put_other)

lemma ctrl1_configured:
  assumes "b < 65536" "tf < 256" "te < 256"
  shows "line_of c0 (ctrl1_value b te tf v) = (line_of c0 v)\<lparr>l_baud := b, l_tx_full := tf, l_tx_empty := te\<rparr>"
  using assms by (simp add: ctrl1_value_def line_of_def get_put_field get_put_other)

subsection \<open>The operations on a board\<close>

definition uart_memory :: "(u32 \<Rightarrow> bool) \<Rightarrow> (u32 \<times> u32 \<Rightarrow> (u32 \<times> u32) list option) \<Rightarrow> uart \<Rightarrow> bool" where
  "uart_memory readable effect u \<longleftrightarrow>
     (\<forall>a \<in> {uart_ctrl0 u, uart_ctrl1 u, uart_ctrl2 u, uart_ctrl3 u, uart_status0 u, uart_tx_data u, uart_rx_data u,
        GPIO_DIRECTION_BASE_REGISTER, VSYNC_GPIO}. readable a \<and> (\<forall>v. effect (a, v) = Some [(a, v)]))"

definition uart_apart :: "uart \<Rightarrow> bool" where
  "uart_apart u \<longleftrightarrow>
     distinct [uart_ctrl0 u, uart_ctrl1 u, uart_ctrl2 u, uart_ctrl3 u, uart_status0 u, uart_tx_data u, uart_rx_data u,
        GPIO_DIRECTION_BASE_REGISTER, VSYNC_GPIO]"

lemma uart_object_apart: "uart_apart (uart_object 0 rate bits par stop flow)"
  by (simp add: uart_apart_def uart_object_def uart_registers GPIO_DIRECTION_BASE_REGISTER_def)

lemma runs_on_hsb:
  "runs P m Q \<Longrightarrow> runs (\<lambda>s. P (fst s) \<and> snd s = u) (on_hsb m) (\<lambda>r s. Q r (fst s) \<and> snd s = u)"
  by (fastforce simp: runs_def on_hsb_def split: prod.splits)

lemma runs_hthrow_if: "\<not> b \<Longrightarrow> (\<And>s. P s \<Longrightarrow> Q () s) \<Longrightarrow> runs P (hthrow_if b e) Q"
  by (simp add: runs_def)

lemma runs_hseq_Cons: "runs P m (\<lambda>_. R) \<Longrightarrow> runs R (hseq ms) Q \<Longrightarrow> runs P (hseq (m # ms)) Q"
  by (simp add: runs_hthen)

lemma runs_hseq_Nil: "(\<And>s. P s \<Longrightarrow> Q () s) \<Longrightarrow> runs P (hseq []) Q"
  by (simp add: runs_hret_conseq)

lemma runs_hlift: "r = Inr x \<Longrightarrow> runs P (f x) Q \<Longrightarrow> runs P (hbind (hlift r) f) Q"
  by (simp add: runs_def hbind_def)

lemma less_256: "(x :: u32) \<le> 255 \<Longrightarrow> x < 256"
  by (simp add: word_le_nat_alt word_less_nat_alt)

context register_device
begin

definition ust :: "(u32 \<Rightarrow> u32) \<Rightarrow> nat \<Rightarrow> hololink \<Rightarrow> uart \<Rightarrow> 'd hsb \<times> uart \<Rightarrow> bool" where
  "ust R n h u s \<longleftrightarrow> st R n h (fst s) \<and> snd s = u"

lemma uart_state_rule: "(runs (\<lambda>s. ust R n h u s) (f u) Q) \<Longrightarrow> runs (ust R n h u) (hbind (hgets snd) f) Q"
  by (auto simp: runs_def ust_def hbind_def)

lemma uart_get_rule:
  "readable (f u) \<Longrightarrow> runs (ust R (Suc n) h u) (uart_get f) (\<lambda>v s. v = R (f u) \<and> ust R n h u s)"
  unfolding uart_get_def
  by (rule uart_state_rule)
    (rule runs_conseq [OF runs_on_hsb [OF read_uint32_rule, of "f u" R n h u]], auto simp: ust_def)

lemma uart_put_rule:
  "effect (f u, v) = Some [(f u, v)] \<Longrightarrow> runs (ust R n h u) (uart_put f v) (\<lambda>_. ust (R(f u := v)) n h u)"
  unfolding uart_put_def
  by (rule uart_state_rule)
    (rule runs_conseq [OF runs_on_hsb [OF write_reg_rule, of "f u" v _ R n h u]], auto simp: ust_def)

lemma uart_modify_rule:
  assumes "readable (f u)" and "\<And>v. effect (f u, v) = Some [(f u, v)]"
  shows "runs (ust R (Suc n) h u) (uart_modify f g) (\<lambda>_. ust (R(f u := g (R (f u)))) n h u)"
  unfolding uart_modify_def
  by (rule runs_hbind_val [OF uart_get_rule [where f = f and u = u, OF assms(1)]
      uart_put_rule [where f = f and u = u, OF assms(2)]])

lemma uart_set_rule: "runs (ust R n h u) (uart_set f) (\<lambda>_. ust R n h (f u))"
  by (auto simp: runs_def uart_set_def on_obj_def ust_def)

lemma check_thresholds_rule:
  "almost_empty \<le> almost_full \<Longrightarrow> almost_full \<le> 255 \<Longrightarrow> runs P (check_thresholds almost_empty almost_full) (\<lambda>_. P)"
  by (auto simp: runs_def check_thresholds_def hthen_def hbind_def not_less)

text \<open>The steps that disable and enable the UART, for any object at the same registers.\<close>

lemma uart_reconfigure_rule:
  assumes mem: "uart_memory readable effect u" and a: "a = uart_ctrl0 u \<or> a = uart_ctrl1 u"
    and f: "f u = a" and apart: "uart_apart u"
  shows "runs (ust R (Suc (Suc (Suc n))) h u) (uart_reconfigure (uart_modify f g))
    (\<lambda>_. ust (let R1 = R(uart_ctrl0 u := put_field 0 3 0 (R (uart_ctrl0 u)));
                 R2 = R1(a := g (R1 a))
             in R2(uart_ctrl0 u := put_field 0 3 7 (R2 (uart_ctrl0 u)))) n h u)"
proof -
  have m0: "readable (uart_ctrl0 u)" "\<And>v. effect (uart_ctrl0 u, v) = Some [(uart_ctrl0 u, v)]"
    and m: "readable (f u)" "\<And>v. effect (f u, v) = Some [(f u, v)]"
    using mem a f by (auto simp: uart_memory_def)
  show ?thesis
    unfolding uart_reconfigure_def uart_disable_def uart_enable_def field_ops f [symmetric] Let_def
    apply (rule runs_hseq_Cons [OF uart_modify_rule [where f = uart_ctrl0, OF m0]])
    apply (rule runs_hseq_Cons [OF uart_modify_rule [where f = f, OF m]])
    apply (rule runs_hseq_Cons [OF uart_modify_rule [where f = uart_ctrl0, OF m0]])
    apply (rule runs_hseq_Nil, assumption)
    done
qed

text \<open>What a method leaves: the line as \<open>L\<close>, every other register as it was.\<close>

definition uart_post :: "(u32 \<Rightarrow> u32) \<Rightarrow> nat \<Rightarrow> hololink \<Rightarrow> uart \<Rightarrow> uart_line \<Rightarrow> 'd hsb \<times> uart \<Rightarrow> bool" where
  "uart_post R n h u L s \<longleftrightarrow>
     (\<exists>R'. ust R' n h u s \<and> line_of (R' (uart_ctrl0 u)) (R' (uart_ctrl1 u)) = L \<and>
       (\<forall>a. a \<notin> {uart_ctrl0 u, uart_ctrl1 u} \<longrightarrow> R' a = R a))"

lemma uart_set_ctrl0_rule:
  assumes "uart_memory readable effect u" "uart_apart u"
  shows "runs (ust R (Suc (Suc (Suc n))) h u) (uart_reconfigure (uart_modify uart_ctrl0 g))
    (\<lambda>_. uart_post R n h u (line_of (put_field 0 3 7 (g (put_field 0 3 0 (R (uart_ctrl0 u))))) (R (uart_ctrl1 u))))"
  by (rule runs_post [OF uart_reconfigure_rule [OF assms(1) _ refl assms(2)]])
    (use assms(2) in \<open>auto simp: uart_post_def uart_apart_def Let_def\<close>)

lemma uart_set_ctrl1_rule:
  assumes "uart_memory readable effect u" "uart_apart u"
  shows "runs (ust R (Suc (Suc (Suc n))) h u) (uart_reconfigure (uart_modify uart_ctrl1 g))
    (\<lambda>_. uart_post R n h u (line_of (put_field 0 3 7 (put_field 0 3 0 (R (uart_ctrl0 u)))) (g (R (uart_ctrl1 u)))))"
  by (rule runs_post [OF uart_reconfigure_rule [OF assms(1) _ refl assms(2)]])
    (use assms(2) in \<open>auto simp: uart_post_def uart_apart_def Let_def\<close>)

lemma runs_hseq_1: "runs P m Q \<Longrightarrow> runs P (hseq [m]) (\<lambda>_. Q ())"
  by (fastforce simp: runs_def hthen_def hbind_def)

text \<open>The setters change their own field.\<close>

lemma uart_set_parity_rule:
  assumes "uart_memory readable effect u" "uart_apart u" "par = 0 \<or> par = 1 \<or> par = 2"
  shows "runs (ust R (Suc (Suc (Suc n))) h u) (uart_set_parity par)
    (\<lambda>_. uart_post R n h (u\<lparr>parity := par\<rparr>)
       ((line_of (R (uart_ctrl0 u)) (R (uart_ctrl1 u)))\<lparr>l_enabled := 7, l_parity := par\<rparr>))"
proof -
  have par: "par < 4" using assms(3) by auto
  have u: "uart_memory readable effect (u\<lparr>parity := par\<rparr>)" "uart_apart (u\<lparr>parity := par\<rparr>)"
    using assms(1,2) by (simp_all add: uart_memory_def uart_apart_def)
  have line: "line_of (put_field 0 3 7 (put_field 6 2 par (put_field 0 3 0 (R (uart_ctrl0 u))))) c1 =
      (line_of (R (uart_ctrl0 u)) c1)\<lparr>l_enabled := 7, l_parity := par\<rparr>" for c1
    using par by (simp add: line_of_def get_put_field get_put_other)
  show ?thesis
    unfolding uart_set_parity_def
    apply (rule runs_hseq_Cons [OF runs_hthrow_if [where P = "ust R (Suc (Suc (Suc n))) h u"]])
      apply (use assms(3) in blast, assumption)
    apply (rule runs_hseq_Cons [OF uart_set_rule])
    apply (rule runs_post [OF runs_hseq_1 [OF uart_set_ctrl0_rule [OF u]]])
    apply (simp add: line)
    done
qed

lemma uart_set_baud_rate_rule:
  assumes "uart_memory readable effect u" "uart_apart u" "baud_rate_to_divisor rate = Inr b"
  shows "runs (ust R (Suc (Suc (Suc n))) h u) (uart_set_baud_rate rate)
    (\<lambda>_. uart_post R n h (u\<lparr>baud_rate := rate\<rparr>)
       ((line_of (R (uart_ctrl0 u)) (R (uart_ctrl1 u)))\<lparr>l_enabled := 7, l_baud := b\<rparr>))"
proof -
  have b: "b < 65536" using assms(3) by (auto simp: baud_rate_to_divisor_def split: if_splits)
  have u: "uart_memory readable effect (u\<lparr>baud_rate := rate\<rparr>)" "uart_apart (u\<lparr>baud_rate := rate\<rparr>)"
    using assms(1,2) by (simp_all add: uart_memory_def uart_apart_def)
  have line: "line_of (put_field 0 3 7 (put_field 0 3 0 c0)) (put_field 0 16 b c1) =
      (line_of c0 c1)\<lparr>l_enabled := 7, l_baud := b\<rparr>" for c0 c1
    using b by (simp add: line_of_def get_put_field get_put_other)
  show ?thesis
    unfolding uart_set_baud_rate_def
    apply (rule runs_hlift [OF assms(3)])
    apply (rule runs_hseq_Cons [OF uart_set_rule])
    apply (rule runs_post [OF runs_hseq_1 [OF uart_set_ctrl1_rule [OF u]]])
    apply (simp add: line)
    done
qed

lemma uart_set_stop_bits_rule:
  assumes "uart_memory readable effect u" "uart_apart u" "stop_bits_to_encoding stop = Inr e"
  shows "runs (ust R (Suc (Suc (Suc n))) h u) (uart_set_stop_bits stop)
    (\<lambda>_. uart_post R n h (u\<lparr>stop_bits := e\<rparr>)
       ((line_of (R (uart_ctrl0 u)) (R (uart_ctrl1 u)))\<lparr>l_enabled := 7, l_stop := e\<rparr>))"
proof -
  have e: "e < 4" using assms(3) by (auto simp: stop_bits_to_encoding_def split: if_splits)
  have u: "uart_memory readable effect (u\<lparr>stop_bits := e\<rparr>)" "uart_apart (u\<lparr>stop_bits := e\<rparr>)"
    using assms(1,2) by (simp_all add: uart_memory_def uart_apart_def)
  have line: "line_of (put_field 0 3 7 (put_field 12 2 e (put_field 0 3 0 c0))) c1 =
      (line_of c0 c1)\<lparr>l_enabled := 7, l_stop := e\<rparr>" for c0 c1
    using e by (simp add: line_of_def get_put_field get_put_other)
  show ?thesis
    unfolding uart_set_stop_bits_def
    apply (rule runs_hlift [OF assms(3)])
    apply (rule runs_hseq_Cons [OF uart_set_rule])
    apply (rule runs_post [OF runs_hseq_1 [OF uart_set_ctrl0_rule [OF u]]])
    apply (simp add: line)
    done
qed

text \<open>The constructor's configuration gives every field the value that was asked for.\<close>

lemma uart_configure_rule:
  assumes mem: "uart_memory readable effect u" and apart: "uart_apart u"
    and rate: "baud_rate_to_divisor rate = Inr b" and bits: "valid_data_bits bits"
    and par: "par = 0 \<or> par = 1 \<or> par = 2" and stop: "stop_bits_to_encoding stop = Inr e"
    and flow: "flow = 0 \<or> flow = 1"
    and tx: "te \<le> tf" "tf \<le> 255" and rx: "re \<le> rf" "rf \<le> 255"
  shows "runs (ust R (Suc (Suc (Suc (Suc (Suc (Suc n)))))) h u) (uart_configure rate bits par stop flow te tf re rf)
    (\<lambda>_ s. \<exists>R'. ust R' n h (u\<lparr>baud_rate := rate, flow_control := flow, data_bits := bits, parity := par, stop_bits := e\<rparr>) s \<and>
       line_of (R' (uart_ctrl0 u)) (R' (uart_ctrl1 u)) =
         \<lparr>l_enabled = 7, l_data = data_bits_encoding bits, l_parity = par, l_reset = 0, l_stop = e, l_flow = flow,
          l_rx_full = rf, l_rx_empty = re, l_baud = b, l_tx_full = tf, l_tx_empty = te\<rparr> \<and>
       R' (uart_ctrl2 u) = 0xF \<and>
       R' GPIO_DIRECTION_BASE_REGISTER = flow_control_gpio flow (R GPIO_DIRECTION_BASE_REGISTER) \<and>
       R' VSYNC_GPIO = R VSYNC_GPIO OR push_bit 9 1)"
proof -
  let ?u = "u\<lparr>baud_rate := rate, flow_control := flow, data_bits := bits, parity := par, stop_bits := e\<rparr>"
  let ?c0 = "uart_ctrl0 u" and ?c1 = "uart_ctrl1 u" and ?g = "GPIO_DIRECTION_BASE_REGISTER"
  have mem': "uart_memory readable effect ?u" using mem by (simp add: uart_memory_def)
  have m: "readable (f ?u)" "\<And>v. effect (f ?u, v) = Some [(f ?u, v)]"
    if "f \<in> {uart_ctrl0, uart_ctrl1, uart_ctrl2, uart_ctrl3, \<lambda>_. ?g, \<lambda>_. VSYNC_GPIO}" for f
    using that mem' by (auto simp: uart_memory_def)
  let ?rst = "push_bit 8 1 OR push_bit 9 1 :: u32"
  let ?v0 = "ctrl0_value ?u re rf ?rst" and ?v1 = "\<lambda>R. ctrl1_value b te tf (R ?c1)"
  define R1 where "R1 = R(?c0 := R ?c0 AND NOT 0x7)"
  define R2 where "R2 = R1(?c0 := ?rst)"
  define R3 where "R3 = R2(?c0 := ?v0)"
  define R4 where "R4 = R3(?c1 := ?v1 R2)"
  define R5 where "R5 = R4(uart_ctrl2 u := 0xF)"
  define R6 where "R6 = R5(uart_ctrl3 u := 0x7F)"
  define R7 where "R7 = R6(?g := flow_control_gpio flow (R6 ?g))"
  define R8 where "R8 = R7(VSYNC_GPIO := R7 VSYNC_GPIO OR push_bit 9 1)"
  define R9 where "R9 = R8(?c0 := R8 ?c0 OR 0x7)"
  note defs = R1_def R2_def R3_def R4_def R5_def R6_def R7_def R8_def R9_def
  have small: "par < 4" "e < 4" "flow < 2" "rf < 256" "re < 256" "tf < 256" "te < 256" "b < 65536"
  proof -
    show "par < 4" "flow < 2" using par flow by auto
    show "e < 4" using stop by (auto simp: stop_bits_to_encoding_def split: if_splits)
    show "b < 65536" using rate by (auto simp: baud_rate_to_divisor_def split: if_splits)
    show "rf < 256" "tf < 256" by (rule less_256 [OF rx(2)], rule less_256 [OF tx(2)])
    show "re < 256" "te < 256" by (rule less_256 [OF order_trans [OF rx]], rule less_256 [OF order_trans [OF tx]])
  qed
  have c0: "R9 ?c0 = ?v0 OR 0x7" and c1: "R9 ?c1 = ?v1 R2"
    and regs: "R9 (uart_ctrl2 u) = 0xF" "R9 ?g = flow_control_gpio flow (R ?g)" "R9 VSYNC_GPIO = R VSYNC_GPIO OR push_bit 9 1"
    using apart by (auto simp: defs uart_apart_def)
  have line: "line_of (R9 ?c0) (R9 ?c1) =
      \<lparr>l_enabled = 7, l_data = data_bits_encoding bits, l_parity = par, l_reset = 0, l_stop = e, l_flow = flow,
       l_rx_full = rf, l_rx_empty = re, l_baud = b, l_tx_full = tf, l_tx_empty = te\<rparr>"
  proof -
    have "line_of (R9 ?c0) (R9 ?c1) = (line_of ?rst (?v1 R2))
        \<lparr>l_enabled := 7, l_data := data_bits_encoding bits, l_parity := par, l_reset := 0, l_stop := e,
         l_flow := flow, l_rx_full := rf, l_rx_empty := re\<rparr>"
      unfolding c0 c1 using small by (subst ctrl0_configured) simp_all
    moreover have "line_of ?rst (?v1 R2) = (line_of ?rst (R2 ?c1))\<lparr>l_baud := b, l_tx_full := tf, l_tx_empty := te\<rparr>"
      using small by (intro ctrl1_configured)
    ultimately show ?thesis by (simp add: line_of_def)
  qed
  have modify: "runs (ust Q (Suc k) h ?u) (uart_modify f g) (\<lambda>_. ust (Q(f ?u := g (Q (f ?u)))) k h ?u)"
    and get: "runs (ust Q (Suc k) h ?u) (uart_get f) (\<lambda>v s. v = Q (f ?u) \<and> ust Q k h ?u s)"
    and put: "runs (ust Q k h ?u) (uart_put f v) (\<lambda>_. ust (Q(f ?u := v)) k h ?u)"
    if "f \<in> {uart_ctrl0, uart_ctrl1, uart_ctrl2, uart_ctrl3, \<lambda>_. ?g, \<lambda>_. VSYNC_GPIO}" for f g v Q k
    by (rule uart_modify_rule [where f = f, OF m(1) [OF that] m(2) [OF that]],
        rule uart_get_rule [where f = f, OF m(1) [OF that]], rule uart_put_rule [where f = f, OF m(2) [OF that]])
  let ?n5 = "Suc (Suc (Suc (Suc (Suc n))))" and ?n3 = "Suc (Suc (Suc n))"
  have disable: "runs (ust R (Suc ?n5) h ?u) uart_disable (\<lambda>_. ust R1 ?n5 h ?u)"
    unfolding uart_disable_def R1_def using modify [of uart_ctrl0] by simp
  have reset: "runs (ust R1 ?n5 h ?u) (uart_put uart_ctrl0 ?rst) (\<lambda>_. ust R2 ?n5 h ?u)"
    unfolding R2_def using put [of uart_ctrl0] by simp
  have r2: "R2 ?c0 = ?rst" by (simp add: R2_def)
  have "runs (ust R2 ?n3 h ?u)
      (hseq [uart_put uart_ctrl0 ?v0, uart_put uart_ctrl1 (?v1 R2)]) (\<lambda>_. ust R4 ?n3 h ?u)"
    using put [of uart_ctrl0 R2 _ ?v0] put [of uart_ctrl1 R3 _ "?v1 R2"]
    by (intro runs_hseq_Cons [where R = "ust R3 ?n3 h ?u"] runs_hseq_Cons [where R = "ust R4 ?n3 h ?u"] runs_hseq_Nil)
      (simp_all add: R3_def R4_def)
  then have fields: "runs (ust R2 ?n5 h ?u)
      (hbind (uart_get uart_ctrl0) (\<lambda>value0. hbind (uart_get uart_ctrl1) (\<lambda>value1. hbind (hgets snd) (\<lambda>u. hseq
         [uart_put uart_ctrl0 (ctrl0_value u re rf value0), uart_put uart_ctrl1 (ctrl1_value b te tf value1)]))))
      (\<lambda>_. ust R4 ?n3 h ?u)"
    using r2 by (intro runs_hbind_val [OF get] uart_state_rule) simp_all
  have irq: "runs (ust R4 ?n3 h ?u) (uart_put uart_ctrl2 0xF) (\<lambda>_. ust R5 ?n3 h ?u)"
    unfolding R5_def using put [of uart_ctrl2] by simp
  have sticky: "runs (ust R5 ?n3 h ?u) (uart_clear_sticky_bits 0x7F) (\<lambda>_. ust R6 ?n3 h ?u)"
    unfolding R6_def uart_clear_sticky_bits_def using put [of uart_ctrl3]
    by (intro runs_hthen [where R = "ust R5 ?n3 h ?u"] runs_hthrow_if) simp_all
  have dir: "runs (ust R6 ?n3 h ?u) (uart_modify (\<lambda>_. ?g) (flow_control_gpio flow)) (\<lambda>_. ust R7 (Suc (Suc n)) h ?u)"
    unfolding R7_def using modify [of "\<lambda>_. ?g"] by simp
  have mux: "runs (ust R7 (Suc (Suc n)) h ?u) (uart_modify (\<lambda>_. VSYNC_GPIO) (\<lambda>v. v OR push_bit 9 1)) (\<lambda>_. ust R8 (Suc n) h ?u)"
    unfolding R8_def using modify [of "\<lambda>_. VSYNC_GPIO"] by simp
  have "runs (ust R6 ?n3 h ?u) (uart_gpio flow) (\<lambda>_. ust R8 (Suc n) h ?u)"
    unfolding uart_gpio_def by (intro runs_hseq_Cons [OF dir] runs_hseq_Cons [OF mux] runs_hseq_Nil)
  then have gpio: "runs (ust R6 ?n3 h ?u) (hbind (hgets (flow_control \<circ> snd)) uart_gpio) (\<lambda>_. ust R8 (Suc n) h ?u)"
    by (auto simp: runs_def ust_def hbind_def)
  have enable: "runs (ust R8 (Suc n) h ?u) uart_enable (\<lambda>_. ust R9 n h ?u)"
    unfolding uart_enable_def R9_def using modify [of uart_ctrl0] by simp
  have init: "runs (ust R (Suc (Suc (Suc (Suc (Suc (Suc n)))))) h u)
     (hseq [uart_set (baud_rate_update (\<lambda>_. rate)),
        hthrow_if (flow \<noteq> 0 \<and> flow \<noteq> 1) (Runtime_error ''Invalid flow control configuration''),
        uart_set (flow_control_update (\<lambda>_. flow)),
        hthrow_if (\<not> valid_data_bits bits) (Runtime_error ''Invalid data bits configuration''),
        uart_set (data_bits_update (\<lambda>_. bits)),
        hthrow_if (par \<noteq> 0 \<and> par \<noteq> 1 \<and> par \<noteq> 2) (Runtime_error ''Invalid parity configuration''),
        uart_set (parity_update (\<lambda>_. par)),
        hbind (hlift (stop_bits_to_encoding stop)) (\<lambda>encoding. uart_set (stop_bits_update (\<lambda>_. encoding))),
        check_thresholds te tf, check_thresholds re rf])
     (\<lambda>_. ust R (Suc (Suc (Suc (Suc (Suc (Suc n)))))) h ?u)"
    using bits par flow tx rx stop
    by (auto simp: runs_def uart_set_def on_obj_def ust_def check_thresholds_def hthen_def hbind_def not_less)
  have rest: "runs (ust R (Suc (Suc (Suc (Suc (Suc (Suc n)))))) h ?u)
     (hseq [uart_disable, uart_put uart_ctrl0 ?rst,
        hbind (uart_get uart_ctrl0) (\<lambda>value0.
          hbind (uart_get uart_ctrl1) (\<lambda>value1.
            hbind (hgets snd) (\<lambda>u. hseq
              [uart_put uart_ctrl0 (ctrl0_value u re rf value0), uart_put uart_ctrl1 (ctrl1_value b te tf value1)]))),
        uart_put uart_ctrl2 0xF, uart_clear_sticky_bits 0x7F, hbind (hgets (flow_control \<circ> snd)) uart_gpio,
        uart_enable]) (\<lambda>_. ust R9 n h ?u)"
    by (intro runs_hseq_Cons [OF disable] runs_hseq_Cons [OF reset] runs_hseq_Cons [OF fields]
      runs_hseq_Cons [OF irq] runs_hseq_Cons [OF sticky] runs_hseq_Cons [OF gpio] runs_hseq_Cons [OF enable]
      runs_hseq_Nil)
  have "runs (ust R (Suc ?n5) h u) (uart_configure rate bits par stop flow te tf re rf) (\<lambda>_. ust R9 n h ?u)"
    unfolding uart_configure_def
    using runs_hthen [OF init rest]
    by (intro runs_hlift [OF rate]) (simp only: hseq_append [symmetric] append_Cons append_Nil)
  then show ?thesis
    by (rule runs_post) (use line c0 regs in blast)
qed

end

end
