(* ===== verification/Data_Channel.thy ===== *)
theory Data_Channel
  imports Hsb_Metadata Synchronizer Events Uart
begin

text \<open>
  The class \<open>DataChannel\<close> (src/src/hololink/core/data_channel.cpp): what the host keeps of one
  sensor's data plane, and what it writes to the board to have its frames sent to a memory of the
  host (RoCE), or as 1722B packets (COE). The addresses of the host's interfaces come from the
  operating system: \<open>local_ip_and_mac\<close> and \<open>inet_network\<close> are the fields of \<open>host_network\<close>.
\<close>

subsection \<open>State\<close>

record data_channel =
  dc_metadata :: metadata
  dc_peer_ip :: string
  dc_vp_mask :: u32
  dc_qp_number :: u32
  dc_rkey :: u32
  dc_data_plane :: u32
  dc_sensor :: u32
  dc_multicast :: string
  dc_multicast_port :: u16
  dc_broadcast_port :: u16
  dc_frame_end_event_valid :: bool
  dc_frame_end_event :: int
  dc_vp_address :: u32
  dc_hif_address :: u32
  dc_sif_address :: u32
  dc_fpga_uuid :: string
  dc_packetizer :: packetizer_program

record host_network =
  hn_local_ip_and_mac :: "string \<Rightarrow> hsb_error + (string \<times> string \<times> bytes)"
  hn_inet_network :: "string \<Rightarrow> u32"

definition LEOPARD_EAGLE_UUID :: string where
  "LEOPARD_EAGLE_UUID = ''f1627640-b4dc-48af-a360-c55b09b3d230''"

definition MINIMUM_HSB_IP_VERSION :: int where "MINIMUM_HSB_IP_VERSION = 0x2602"
definition DATA_SOURCE_UDP_PORT :: u32 where "DATA_SOURCE_UDP_PORT = 12288"
definition CORE_PAGE_SIZE :: u32 where "CORE_PAGE_SIZE = 128"
definition DEFAULT_MTU :: u32 where "DEFAULT_MTU = 1500"

subsection \<open>From the enumeration metadata\<close>

text \<open>The values that \<open>initialize\<close> asks for, in its order; any of them missing throws.\<close>

fun ebind :: "hsb_error + 'a \<Rightarrow> ('a \<Rightarrow> hsb_error + 'b) \<Rightarrow> hsb_error + 'b" where
  "ebind (Inl e) f = Inl e"
| "ebind (Inr x) f = f x"

definition need_int :: "metadata \<Rightarrow> string \<Rightarrow> hsb_error + int" where
  "need_int md k = opt_value (get_int md k)"

definition need_string :: "metadata \<Rightarrow> string \<Rightarrow> hsb_error + string" where
  "need_string md k = opt_value (get_string md k)"

definition destination_override :: "metadata \<Rightarrow> string \<times> u16 \<times> u16" where
  "destination_override md =
     (case get_int md ''broadcast_port'' of
        Some port \<Rightarrow> ('''', 0, cast_u16 port)
      | None \<Rightarrow>
          (case (get_string md ''multicast'', get_int md ''multicast_port'') of
             (Some address, Some port) \<Rightarrow> (address, cast_u16 port, 0)
           | _ \<Rightarrow> ('''', 0, 0)))"

definition initialize_data_channel :: "metadata \<Rightarrow> hsb_error + data_channel" where
  "initialize_data_channel md =
     ebind (need_string md ''peer_ip'') (\<lambda>peer_ip.
     ebind (need_int md ''vp_mask'') (\<lambda>vp_mask.
     ebind (need_int md ''data_plane'') (\<lambda>data_plane.
     ebind (need_int md ''sensor'') (\<lambda>sensor.
     ebind (need_int md ''sif_address'') (\<lambda>sif_address.
     ebind (need_int md ''vp_address'') (\<lambda>vp_address.
     ebind (need_int md ''hif_address'') (\<lambda>hif_address.
     let (multicast, multicast_port, broadcast_port) = destination_override md;
         frame_end_event = get_int md ''frame_end_event'' in
     ebind (need_string md ''fpga_uuid'') (\<lambda>fpga_uuid.
       Inr \<lparr>dc_metadata = md, dc_peer_ip = peer_ip, dc_vp_mask = cast_u32 vp_mask, dc_qp_number = 0, dc_rkey = 0,
            dc_data_plane = cast_u32 data_plane, dc_sensor = cast_u32 sensor, dc_multicast = multicast,
            dc_multicast_port = multicast_port, dc_broadcast_port = broadcast_port,
            dc_frame_end_event_valid = (frame_end_event \<noteq> None),
            dc_frame_end_event = (case frame_end_event of None \<Rightarrow> 0 | Some e \<Rightarrow> e),
            dc_vp_address = cast_u32 vp_address, dc_hif_address = cast_u32 hif_address,
            dc_sif_address = cast_u32 sif_address, dc_fpga_uuid = fpga_uuid,
            dc_packetizer = Null_packetizer\<rparr>))))))))"

text \<open>The constructor: the board first, which may have to be made.\<close>

definition new_data_channel :: "metadata \<Rightarrow> (board_registry, nat \<times> data_channel) hm" where
  "new_data_channel md =
     hbind (from_enumeration_metadata md) (\<lambda>board.
     hbind (hlift (initialize_data_channel md)) (\<lambda>dc. hret (board, dc)))"

definition data_channel_enumerated :: "metadata \<Rightarrow> bool" where
  "data_channel_enumerated md \<longleftrightarrow>
     (if get_int md ''hif_address'' = None then False
      else if get_string md ''peer_ip'' = None then False
      else if get_int md ''data_plane'' = None then False
      else hololink_enumerated md)"

definition use_multicast :: "string \<Rightarrow> u16 \<Rightarrow> metadata \<Rightarrow> metadata" where
  "use_multicast address port md =
     md(''multicast'' \<mapsto> Meta_string address, ''multicast_port'' \<mapsto> Meta_int (uint port))"

definition use_broadcast :: "u16 \<Rightarrow> metadata \<Rightarrow> metadata" where
  "use_broadcast port md = md(''broadcast_port'' \<mapsto> Meta_int (uint port))"

definition use_mtu :: "u32 \<Rightarrow> metadata \<Rightarrow> metadata" where
  "use_mtu mtu md = md(''mtu'' \<mapsto> Meta_int (uint mtu))"

definition authenticate :: "u32 \<Rightarrow> u32 \<Rightarrow> data_channel \<Rightarrow> data_channel" where
  "authenticate qp_number rkey dc = dc\<lparr>dc_qp_number := qp_number, dc_rkey := rkey\<rparr>"

definition set_packetizer_program :: "packetizer_program option \<Rightarrow> data_channel \<Rightarrow> hsb_error + data_channel" where
  "set_packetizer_program p dc =
     (case p of
        None \<Rightarrow> Inl (Runtime_error ''Invalid packetizer program'')
      | Some p \<Rightarrow> Inr (dc\<lparr>dc_packetizer := p\<rparr>))"

text \<open>
  \<open>frame_end_sequencer\<close>: the event of a number, if it is one. The sequencer is enabled as those
  of \<open>Hololink\<close> are.
\<close>

definition event_of_code :: "int \<Rightarrow> hsb_event option" where
  "event_of_code n =
     find (\<lambda>e. int (event_code e) = n)
       [I2C_BUSY_EVENT, SW_EVENT, SIF_0_FRAME_END, SIF_1_FRAME_END, GPIO0, GPIO1, SIF_0_FRAME_START, SIF_1_FRAME_START]"

definition frame_end_sequencer :: "data_channel \<Rightarrow> hsb_error + hsb_event option" where
  "frame_end_sequencer dc =
     (if \<not> dc_frame_end_event_valid dc then Inl (Runtime_error ''frame_end_sequencer is not available for sensor'')
      else Inr (event_of_code (dc_frame_end_event dc)))"

definition frame_end_sequencer_enable :: "hsb_event \<Rightarrow> ('d hsb \<times> sequencer, unit) hm" where
  "frame_end_sequencer_enable event =
     hthen (on_obj seq_done)
    (hthen (on_obj (assign_location event))
    (hthen seq_write
    (hbind (on_obj seq_location) (\<lambda>location. on_hsb (configure_apb_event event location True)))))"

subsection \<open>Configuration\<close>

definition core_round_up :: "u64 \<Rightarrow> u64 \<Rightarrow> hsb_error + u64" where
  "core_round_up value alignment =
     (if alignment = 0 then Inl (Runtime_error ''Alignment must be greater than zero'')
      else Inr (((value + alignment - 1) div alignment) * alignment))"

definition compute_payload_size :: "u32 \<Rightarrow> u32 \<Rightarrow> hsb_error + u32" where
  "compute_payload_size overhead mtu =
     (if mtu \<le> overhead + CORE_PAGE_SIZE then Inl (Runtime_error ''mtu is too small'')
      else
        (let payload_size = ((mtu - overhead) div CORE_PAGE_SIZE) * CORE_PAGE_SIZE in
         if mtu < payload_size then Inl (Runtime_error ''payload_size and mtu'')
         else Inr payload_size))"

text \<open>The words of a MAC address, from its six bytes.\<close>

definition mac_words :: "bytes \<Rightarrow> u32 \<times> u32" where
  "mac_words mac =
     (push_bit 8 (ucast (mac ! 0)) OR ucast (mac ! 1),
      push_bit 24 (ucast (mac ! 2)) OR push_bit 16 (ucast (mac ! 3)) OR
      push_bit 8 (ucast (mac ! 4)) OR ucast (mac ! 5))"

text \<open>Where the frames go: the MAC address, the IP address and the port.\<close>

record destination =
  to_mac :: bytes
  to_ip :: u32
  to_port :: u32

definition data_destination :: "host_network \<Rightarrow> data_channel \<Rightarrow> u32 \<Rightarrow> hsb_error + destination" where
  "data_destination net dc local_data_port =
     ebind (hn_local_ip_and_mac net (dc_peer_ip dc)) (\<lambda>(local_ip, local_device, local_mac).
       Inr
         (if dc_broadcast_port dc \<noteq> 0 then
            \<lparr>to_mac = replicate 6 0xFF, to_ip = 0xFFFFFFFF, to_port = ucast (dc_broadcast_port dc)\<rparr>
          else if dc_multicast dc \<noteq> [] then
            (let ip = hn_inet_network net (dc_multicast dc) in
             \<lparr>to_mac = [0x01, 0x00, 0x5E, ucast (drop_bit 16 ip AND 0x7F), ucast (drop_bit 8 ip AND 0xFF),
                ucast (ip AND 0xFF)],
              to_ip = ip, to_port = ucast (dc_multicast_port dc)\<rparr>)
          else \<lparr>to_mac = local_mac, to_ip = hn_inet_network net local_ip, to_port = local_data_port\<rparr>))"

definition channel_mtu :: "data_channel \<Rightarrow> u32" where
  "channel_mtu dc = (case get_int (dc_metadata dc) ''mtu'' of None \<Rightarrow> DEFAULT_MTU | Some v \<Rightarrow> cast_u32 v)"

text \<open>\<open>PAGES\<close> is a shift by seven.\<close>

definition common_writes :: "data_channel \<Rightarrow> u32 \<Rightarrow> u32 \<Rightarrow> destination \<Rightarrow> (u32 \<times> u32) list" where
  "common_writes dc frame_size payload_size dest =
     [(dc_hif_address dc + DP_PACKET_SIZE, drop_bit 7 payload_size),
      (dc_hif_address dc + DP_PACKET_UDP_PORT, DATA_SOURCE_UDP_PORT),
      (dc_vp_address dc + DP_BUFFER_LENGTH, frame_size),
      (dc_vp_address dc + DP_HOST_MAC_LOW, snd (mac_words (to_mac dest))),
      (dc_vp_address dc + DP_HOST_MAC_HIGH, fst (mac_words (to_mac dest))),
      (dc_vp_address dc + DP_HOST_IP, to_ip dest),
      (dc_vp_address dc + DP_HOST_UDP_PORT, to_port dest)]"

definition configure_common :: "host_network \<Rightarrow> data_channel \<Rightarrow> u32 \<Rightarrow> u32 \<Rightarrow> u32 \<Rightarrow> ('d hsb, unit) hm" where
  "configure_common net dc frame_size overhead local_data_port =
     hbind (hlift (compute_payload_size overhead (channel_mtu dc))) (\<lambda>payload_size.
     hbind (hlift (data_destination net dc local_data_port)) (\<lambda>dest.
       hthen (write_regs (common_writes dc frame_size payload_size dest))
         (packetizer_enable (dc_packetizer dc) (dc_sif_address dc))))"

text \<open>The checks of \<open>configure_roce\<close>, in 64 bits; \<open>pages\<close> has 32.\<close>

definition roce_checks :: "u64 \<Rightarrow> u64 \<Rightarrow> u64 \<Rightarrow> u32 \<Rightarrow> hsb_error + unit" where
  "roce_checks frame_memory frame_size page_size pages =
     (if frame_memory AND (128 - 1) \<noteq> 0 then Inl (Runtime_error ''frame_memory must be aligned'')
      else if page_size AND (128 - 1) \<noteq> 0 then Inl (Runtime_error ''page_size must be aligned'')
      else
        ebind (core_round_up frame_size 128) (\<lambda>aligned_frame_size.
          let aligned_frame_with_metadata = aligned_frame_size + 128;
              too_small = (if frame_size \<le> 128 then page_size < aligned_frame_size
                           else page_size < aligned_frame_with_metadata);
              highest_address = frame_memory + page_size * ucast pages in
          if too_small then Inl (Runtime_error ''page_size is too small'')
          else if 4096 < pages then Inl (Runtime_error ''pages can be at most 4096'')
          else if pages < 1 then Inl (Runtime_error ''pages must be at least 1'')
          else if 0xFFFFFFFF < drop_bit 7 highest_address then Inl (Runtime_error ''highest_address cannot fit in 32 bits'')
          else Inr ()))"

definition roce_writes :: "data_channel \<Rightarrow> u64 \<Rightarrow> u64 \<Rightarrow> u32 \<Rightarrow> (u32 \<times> u32) list" where
  "roce_writes dc frame_memory page_size pages =
     [(dc_vp_address dc + DP_QP, dc_qp_number dc), (dc_vp_address dc + DP_RKEY, dc_rkey dc),
      (dc_vp_address dc + DP_PAGE_LSB, ucast (frame_memory AND 0xFFFFFFFF)),
      (dc_vp_address dc + DP_PAGE_MSB, ucast (drop_bit 32 frame_memory)),
      (dc_vp_address dc + DP_PAGE_INC, ucast (drop_bit 7 page_size)),
      (dc_vp_address dc + DP_MAX_BUFF, pages - 1)]"

definition mask_off :: "data_channel \<Rightarrow> ('d hsb, unit) hm" where
  "mask_off dc = hbind (and_uint32 (dc_hif_address dc + DP_VP_MASK) (NOT (dc_vp_mask dc))) (\<lambda>_. hret ())"

definition mask_on :: "data_channel \<Rightarrow> ('d hsb, unit) hm" where
  "mask_on dc = hbind (or_uint32 (dc_hif_address dc + DP_VP_MASK) (dc_vp_mask dc)) (\<lambda>_. hret ())"

definition configure_roce ::
  "host_network \<Rightarrow> data_channel \<Rightarrow> u64 \<Rightarrow> u64 \<Rightarrow> u64 \<Rightarrow> u32 \<Rightarrow> u32 \<Rightarrow> ('d hsb, unit) hm" where
  "configure_roce net dc frame_memory frame_size page_size pages local_data_port = hseq
     [hlift (roce_checks frame_memory frame_size page_size pages),
      mask_off dc,
      configure_common net dc (ucast frame_size) 74 local_data_port,
      write_regs (roce_writes dc frame_memory page_size pages),
      mask_on dc]"

text \<open>
  The loop of \<open>configure_coe\<close>; a shift by 32 or more takes its count modulo 32, as the processors
  do (the language leaves it undefined).
\<close>

function line_threshold_log2 :: "u32 \<Rightarrow> nat \<Rightarrow> hsb_error + nat" where
  "line_threshold_log2 pixel_width k =
     (if pixel_width \<le> push_bit (k mod 32) 1 then Inr k
      else if 127 < k + 1 then Inl (Runtime_error ''pixel_width is too large'')
      else line_threshold_log2 pixel_width (k + 1))"
  by pat_completeness auto
termination by (relation "measure (\<lambda>(w, k). 128 - k)") auto

declare line_threshold_log2.simps [simp del]

definition cfg_1722B :: "nat \<Rightarrow> u8 \<Rightarrow> u32" where
  "cfg_1722B line_threshold channel = push_bit 24 1 OR push_bit 25 (of_nat line_threshold) OR ucast channel"

definition configure_coe ::
  "host_network \<Rightarrow> data_channel \<Rightarrow> u8 \<Rightarrow> u64 \<Rightarrow> u32 \<Rightarrow> bool \<Rightarrow> ('d hsb, unit) hm" where
  "configure_coe net dc channel frame_size pixel_width vlan_enabled = hseq
     [hthrow_if (64 \<le> channel) (Runtime_error ''channel must be less than 64''),
      hthrow_if vlan_enabled (Runtime_error ''VLAN is not supported''),
      mask_off dc,
      configure_common net dc (ucast frame_size) (if vlan_enabled then 46 + 4 else 46) 0,
      hbind (hlift (line_threshold_log2 pixel_width 0))
        (\<lambda>k. write_reg (dc_vp_address dc + DP_QP) (cfg_1722B k channel)),
      mask_on dc]"

definition unconfigure_writes :: "data_channel \<Rightarrow> (u32 \<times> u32) list" where
  "unconfigure_writes dc = map (\<lambda>offset. (dc_vp_address dc + offset, 0))
     [DP_BUFFER_LENGTH, DP_QP, DP_RKEY, DP_PAGE_LSB, DP_PAGE_MSB, DP_PAGE_INC, DP_MAX_BUFF,
      DP_HOST_MAC_LOW, DP_HOST_MAC_HIGH, DP_HOST_IP, DP_HOST_UDP_PORT]"

definition unconfigure :: "data_channel \<Rightarrow> ('d hsb, unit) hm" where
  "unconfigure dc =
     hthen (hwhen (dc_fpga_uuid dc \<noteq> LEOPARD_EAGLE_UUID)
              (hthen (mask_off dc) (hthen (sleep_ms 10) (write_regs (unconfigure_writes dc)))))
       (packetizer_disable (dc_packetizer dc) (dc_sif_address dc))"

subsection \<open>The receiving socket\<close>

text \<open>
  The calls of \<open>configure_socket\<close>; \<open>ok\<close> tells which of them the system grants. Those made are
  the result, also when one of them fails.
\<close>

datatype socket_call =
    Allow_broadcast
  | Reuse_port
  | Bind_to_device string
  | Join_group string string
  | Bind_any u16
  | Bind_address string u16

fun make_calls :: "(socket_call \<Rightarrow> bool) \<Rightarrow> socket_call list \<Rightarrow> (hsb_error + unit) \<times> socket_call list" where
  "make_calls ok [] = (Inr (), [])"
| "make_calls ok (c # cs) =
     (if ok c then (let (r, done) = make_calls ok cs in (r, c # done))
      else (Inl (Runtime_error ''socket configuration failed''), [c]))"

definition socket_calls :: "data_channel \<Rightarrow> string \<Rightarrow> string \<Rightarrow> socket_call list" where
  "socket_calls dc local_ip local_device =
     (if dc_broadcast_port dc \<noteq> 0 then
        [Allow_broadcast, Reuse_port, Bind_to_device local_device, Bind_any (dc_broadcast_port dc)]
      else if dc_multicast dc \<noteq> [] then
        [Join_group (dc_multicast dc) local_ip, Bind_address (dc_multicast dc) (dc_multicast_port dc)]
      else [Bind_address local_ip 0])"

definition configure_socket ::
  "host_network \<Rightarrow> (socket_call \<Rightarrow> bool) \<Rightarrow> data_channel \<Rightarrow> (hsb_error + unit) \<times> socket_call list" where
  "configure_socket net ok dc =
     (case get_int (dc_metadata dc) ''hsb_ip_version'' of
        None \<Rightarrow> (Inl (Unsupported_version ''No hsb_ip_version field found.''), [])
      | Some version \<Rightarrow>
          if version < MINIMUM_HSB_IP_VERSION then (Inl (Unsupported_version ''minimum supported version''), [])
          else
            (case hn_local_ip_and_mac net (dc_peer_ip dc) of
               Inl e \<Rightarrow> (Inl e, [])
             | Inr (local_ip, local_device, local_mac) \<Rightarrow> make_calls ok (socket_calls dc local_ip local_device)))"

subsection \<open>Sizes\<close>

lemma unat_u32: "unat (w :: u32) < 2 ^ 32"
  using unsigned_less [of w] by simp

text \<open>The payload is the largest whole number of pages that fits the MTU beside the headers.\<close>

lemma compute_payload_size_ok:
  assumes "unat overhead + 128 < unat mtu"
  shows "\<exists>p. compute_payload_size overhead mtu = Inr p \<and> unat p = (unat mtu - unat overhead) div 128 * 128"
proof -
  have le: "overhead \<le> mtu" using assms by (simp add: word_le_nat_alt)
  have sum: "unat (overhead + 128) = unat overhead + 128"
    using assms unat_u32 [of mtu] by (simp add: unat_word_ariths)
  let ?p = "((mtu - overhead) div 128) * 128"
  have p: "unat ?p = (unat mtu - unat overhead) div 128 * 128"
  proof -
    have "(unat mtu - unat overhead) div 128 * 128 < 2 ^ 32"
      using unat_u32 [of mtu] by (intro le_less_trans [OF div_times_less_eq_dividend]) simp
    then show ?thesis using le by (simp add: unat_word_ariths unat_div unat_sub)
  qed
  have "(unat mtu - unat overhead) div 128 * 128 \<le> unat mtu"
    using div_times_less_eq_dividend [of "unat mtu - unat overhead" 128] by simp
  then have "\<not> mtu < ?p" "\<not> mtu \<le> overhead + 128"
    using assms by (simp_all add: word_less_nat_alt word_le_nat_alt p sum not_less not_le)
  then show ?thesis using p by (simp add: compute_payload_size_def CORE_PAGE_SIZE_def Let_def)
qed

lemma compute_payload_size_small:
  "unat mtu \<le> unat overhead + 128 \<Longrightarrow> unat overhead + 128 < 2 ^ 32 \<Longrightarrow>
   compute_payload_size overhead mtu = Inl (Runtime_error ''mtu is too small'')"
  by (simp add: compute_payload_size_def CORE_PAGE_SIZE_def word_le_nat_alt unat_word_ariths)

text \<open>The threshold is the number of bits of the width, rounded up; over half the range there is none.\<close>

lemma line_threshold_log2_from:
  assumes "k \<le> n" and "n < 32" and "\<forall>i < n. push_bit i 1 < pixel_width" and "pixel_width \<le> push_bit n 1"
  shows "line_threshold_log2 pixel_width k = Inr n"
  using assms(1)
proof (induction "n - k" arbitrary: k)
  case 0
  then show ?case using assms(2,4) by (subst line_threshold_log2.simps) simp
next
  case (Suc d)
  then have k: "k < n" by simp
  then have "\<not> pixel_width \<le> push_bit (k mod 32) 1" using assms(2,3) by (simp add: not_le)
  then show ?case using Suc k assms(2) by (subst line_threshold_log2.simps) simp
qed

lemma line_threshold_log2_width:
  assumes "pixel_width \<le> push_bit 31 1"
  shows "\<exists>n < 32. line_threshold_log2 pixel_width 0 = Inr n \<and> pixel_width \<le> push_bit n 1 \<and>
    (\<forall>i < n. push_bit i 1 < pixel_width)"
proof -
  define n where "n = (LEAST n. pixel_width \<le> push_bit n 1)"
  have n: "pixel_width \<le> push_bit n 1" unfolding n_def by (rule LeastI) (rule assms)
  have less: "push_bit i 1 < pixel_width" if "i < n" for i
    using not_less_Least [of i "\<lambda>n. pixel_width \<le> push_bit n 1"] that by (simp add: n_def not_le)
  have "n \<le> 31" unfolding n_def by (rule Least_le) (rule assms)
  then show ?thesis using line_threshold_log2_from [of 0 n pixel_width] n less by force
qed

lemma shifted_one_le: "push_bit (k mod 32) (1 :: u32) \<le> push_bit 31 1"
proof -
  have "(2 :: nat) ^ (k mod 32) \<le> 2 ^ 31" by (intro power_increasing) simp_all
  moreover from this have "unat (2 ^ (k mod 32) :: u32) = 2 ^ (k mod 32)"
    using unat_of_nat_u32 [of "2 ^ (k mod 32)"] by simp
  ultimately show ?thesis by (simp add: word_le_nat_alt)
qed

lemma line_threshold_log2_none:
  "push_bit 31 1 < pixel_width \<Longrightarrow> line_threshold_log2 pixel_width k = Inl (Runtime_error ''pixel_width is too large'')"
proof (induction pixel_width k rule: line_threshold_log2.induct)
  case (1 w k)
  have "\<not> w \<le> push_bit (k mod 32) 1" using 1(2) shifted_one_le [of k] by (meson le_less_trans not_le order_trans)
  then show ?case using 1 by (subst line_threshold_log2.simps) simp
qed


subsection \<open>What the board is left with\<close>

definition vp_offsets :: "u32 list" where
  "vp_offsets =
     [DP_QP, DP_RKEY, DP_PAGE_LSB, DP_PAGE_MSB, DP_PAGE_INC, DP_MAX_BUFF, DP_BUFFER_LENGTH,
      DP_HOST_MAC_LOW, DP_HOST_MAC_HIGH, DP_HOST_IP, DP_HOST_UDP_PORT]"

definition data_plane_registers :: "data_channel \<Rightarrow> u32 set" where
  "data_plane_registers dc =
     (+) (dc_hif_address dc) ` {DP_PACKET_SIZE, DP_PACKET_UDP_PORT, DP_VP_MASK} \<union>
     (+) (dc_vp_address dc) ` set vp_offsets \<union> packetizer_registers (dc_sif_address dc)"

definition data_plane_memory ::
  "(u32 \<Rightarrow> bool) \<Rightarrow> (u32 \<times> u32 \<Rightarrow> (u32 \<times> u32) list option) \<Rightarrow> data_channel \<Rightarrow> bool" where
  "data_plane_memory readable effect dc \<longleftrightarrow>
     (\<forall>a \<in> data_plane_registers dc. readable a \<and> (\<forall>v. effect (a, v) = Some [(a, v)]))"

definition masked_off :: "(u32 \<Rightarrow> u32) \<Rightarrow> data_channel \<Rightarrow> u32 \<Rightarrow> u32" where
  "masked_off R dc = R(dc_hif_address dc + DP_VP_MASK := R (dc_hif_address dc + DP_VP_MASK) AND NOT (dc_vp_mask dc))"

definition masked_on :: "(u32 \<Rightarrow> u32) \<Rightarrow> data_channel \<Rightarrow> u32 \<Rightarrow> u32" where
  "masked_on R dc = R(dc_hif_address dc + DP_VP_MASK := R (dc_hif_address dc + DP_VP_MASK) OR dc_vp_mask dc)"

definition common_registers :: "(u32 \<Rightarrow> u32) \<Rightarrow> data_channel \<Rightarrow> u32 \<Rightarrow> u32 \<Rightarrow> destination \<Rightarrow> u32 \<Rightarrow> u32" where
  "common_registers R dc frame_size payload_size dest =
     upds (upds R (common_writes dc frame_size payload_size dest)) (enable_writes (dc_packetizer dc) (dc_sif_address dc))"

definition roce_registers ::
  "(u32 \<Rightarrow> u32) \<Rightarrow> data_channel \<Rightarrow> u64 \<Rightarrow> u64 \<Rightarrow> u64 \<Rightarrow> u32 \<Rightarrow> u32 \<Rightarrow> destination \<Rightarrow> u32 \<Rightarrow> u32" where
  "roce_registers R dc frame_memory frame_size page_size pages payload_size dest =
     masked_on (upds (common_registers (masked_off R dc) dc (ucast frame_size) payload_size dest)
       (roce_writes dc frame_memory page_size pages)) dc"

definition coe_registers :: "(u32 \<Rightarrow> u32) \<Rightarrow> data_channel \<Rightarrow> u8 \<Rightarrow> u64 \<Rightarrow> nat \<Rightarrow> u32 \<Rightarrow> destination \<Rightarrow> u32 \<Rightarrow> u32" where
  "coe_registers R dc channel frame_size k payload_size dest =
     masked_on ((common_registers (masked_off R dc) dc (ucast frame_size) payload_size dest)
       (dc_vp_address dc := cfg_1722B k channel)) dc"

definition unconfigured_registers :: "(u32 \<Rightarrow> u32) \<Rightarrow> data_channel \<Rightarrow> u32 \<Rightarrow> u32" where
  "unconfigured_registers R dc =
     (let R' = (if dc_fpga_uuid dc = LEOPARD_EAGLE_UUID then R else upds (masked_off R dc) (unconfigure_writes dc))
      in R'(dc_sif_address dc + PACKETIZER_MODE := 0))"

lemma data_plane_writes:
  "fst ` set (common_writes dc frame_size payload_size dest) \<subseteq> data_plane_registers dc"
  "fst ` set (roce_writes dc frame_memory page_size pages) \<subseteq> data_plane_registers dc"
  "fst ` set (unconfigure_writes dc) \<subseteq> data_plane_registers dc"
  "packetizer_registers (dc_sif_address dc) \<subseteq> data_plane_registers dc"
  "dc_hif_address dc + DP_VP_MASK \<in> data_plane_registers dc"
  "dc_vp_address dc + DP_QP \<in> data_plane_registers dc"
  "dc_sif_address dc + PACKETIZER_MODE \<in> data_plane_registers dc"
  by (auto simp: common_writes_def roce_writes_def unconfigure_writes_def data_plane_registers_def vp_offsets_def
      packetizer_registers_def)

context register_device
begin

lemma data_plane_write_rule:
  assumes "data_plane_memory readable effect dc" and "fst ` set ws \<subseteq> data_plane_registers dc"
  shows "runs (st R n h) (write_regs ws) (\<lambda>_. st (upds R ws) n h)"
  using assms by (intro write_regs_rule) (force simp: data_plane_memory_def)

lemma mask_off_rule:
  assumes "data_plane_memory readable effect dc"
  shows "runs (st R (Suc n) h) (mask_off dc) (\<lambda>_. st (masked_off R dc) n h)"
proof -
  let ?a = "dc_hif_address dc + DP_VP_MASK"
  have a: "readable ?a" "effect (?a, R ?a AND NOT (dc_vp_mask dc)) = Some [(?a, R ?a AND NOT (dc_vp_mask dc))]"
    using assms data_plane_writes(5) unfolding data_plane_memory_def by blast+
  then show ?thesis unfolding mask_off_def masked_off_def
    by (intro runs_hbind [OF and_uint32_rule [where R = R and m = "NOT (dc_vp_mask dc)", OF a]] runs_assume) (simp add: runs_def)
qed

lemma mask_on_rule:
  assumes "data_plane_memory readable effect dc"
  shows "runs (st R (Suc n) h) (mask_on dc) (\<lambda>_. st (masked_on R dc) n h)"
proof -
  let ?a = "dc_hif_address dc + DP_VP_MASK"
  have a: "readable ?a" "effect (?a, R ?a OR dc_vp_mask dc) = Some [(?a, R ?a OR dc_vp_mask dc)]"
    using assms data_plane_writes(5) unfolding data_plane_memory_def by blast+
  then show ?thesis unfolding mask_on_def masked_on_def
    by (intro runs_hbind [OF or_uint32_rule [where R = R and m = "dc_vp_mask dc", OF a]] runs_assume) (simp add: runs_def)
qed

lemma configure_common_rule:
  assumes "data_plane_memory readable effect dc"
    and "compute_payload_size overhead (channel_mtu dc) = Inr payload_size"
    and "data_destination net dc port = Inr dest"
  shows "runs (st R n h) (configure_common net dc frame_size overhead port)
    (\<lambda>_. st (common_registers R dc frame_size payload_size dest) n h)"
  unfolding configure_common_def assms(2,3) common_registers_def
  by (intro runs_hlift [OF refl] runs_hthen [OF data_plane_write_rule [OF assms(1) data_plane_writes(1)]]
      packetizer_enable_rule)
    (use assms(1) data_plane_writes(4) in \<open>force simp: data_plane_memory_def\<close>)

lemma configure_roce_rule:
  assumes mem: "data_plane_memory readable effect dc"
    and checks: "roce_checks frame_memory frame_size page_size pages = Inr ()"
    and payload: "compute_payload_size 74 (channel_mtu dc) = Inr payload_size"
    and dest: "data_destination net dc port = Inr dest"
  shows "runs (st R (Suc (Suc n)) h) (configure_roce net dc frame_memory frame_size page_size pages port)
    (\<lambda>_. st (roce_registers R dc frame_memory frame_size page_size pages payload_size dest) n h)"
  unfolding configure_roce_def checks roce_registers_def
  by (rule runs_hseq_Cons [where R = "st R (Suc (Suc n)) h"], simp add: runs_def,
      rule runs_hseq_Cons [OF mask_off_rule [OF mem]],
      rule runs_hseq_Cons [OF configure_common_rule [OF mem payload dest]],
      rule runs_hseq_Cons [OF data_plane_write_rule [OF mem data_plane_writes(2)]],
      rule runs_hseq_Cons [OF mask_on_rule [OF mem]], rule runs_hseq_Nil)

lemma configure_coe_rule:
  assumes mem: "data_plane_memory readable effect dc" and "channel < 64"
    and payload: "compute_payload_size 46 (channel_mtu dc) = Inr payload_size"
    and dest: "data_destination net dc 0 = Inr dest"
    and k: "line_threshold_log2 pixel_width 0 = Inr k"
  shows "runs (st R (Suc (Suc n)) h) (configure_coe net dc channel frame_size pixel_width False)
    (\<lambda>_. st (coe_registers R dc channel frame_size k payload_size dest) n h)"
proof -
  have qp: "effect (dc_vp_address dc + DP_QP, v) = Some [(dc_vp_address dc + DP_QP, v)]" for v
    using mem data_plane_writes(6) unfolding data_plane_memory_def by blast
  have "runs (st S n h) (hbind (hlift (line_threshold_log2 pixel_width 0))
        (\<lambda>k. write_reg (dc_vp_address dc + DP_QP) (cfg_1722B k channel)))
      (\<lambda>_. st (S(dc_vp_address dc := cfg_1722B k channel)) n h)" for S n
    using write_reg_rule [OF qp] by (intro runs_hlift [OF k]) simp
  note thr = this
  show ?thesis
    unfolding configure_coe_def coe_registers_def if_False
    apply (rule runs_hseq_Cons [where R = "st R (Suc (Suc n)) h"], simp add: runs_def not_le [THEN iffD2, OF assms(2)])
    apply (rule runs_hseq_Cons [where R = "st R (Suc (Suc n)) h"], simp add: runs_def)
    apply (rule runs_hseq_Cons [OF mask_off_rule [OF mem]])
    apply (rule runs_hseq_Cons [OF configure_common_rule [OF mem payload dest]])
    apply (rule runs_hseq_Cons [OF thr])
    apply (rule runs_hseq_Cons [OF mask_on_rule [OF mem]], rule runs_hseq_Nil, assumption)
    done
qed

lemma sleep_st_rule: "runs (st R n h) (sleep_ms k) (\<lambda>_. st R n h)"
  by (simp add: runs_def sleep_ms_run connected_def at_rest_def)

lemma unconfigure_rule:
  assumes mem: "data_plane_memory readable effect dc"
  shows "runs (st R (Suc n) h) (unconfigure dc) (\<lambda>_ s. \<exists>n'. n \<le> n' \<and> st (unconfigured_registers R dc) n' h s)"
proof -
  let ?m = "dc_sif_address dc + PACKETIZER_MODE"
  have "effect (?m, 0) = Some [(?m, 0)]"
    using mem data_plane_writes(7) unfolding data_plane_memory_def by blast
  from write_reg_rule [OF this]
  have disable: "runs (st S k h) (packetizer_disable (dc_packetizer dc) (dc_sif_address dc)) (\<lambda>_. st (S(?m := 0)) k h)"
    for S k by (simp add: packetizer_disable_def)
  show ?thesis
  proof (cases "dc_fpga_uuid dc = LEOPARD_EAGLE_UUID")
    case True
    then show ?thesis unfolding unconfigure_def
      by (intro runs_post [OF runs_hthen [where R = "st R (Suc n) h", OF _ disable]])
        (auto simp: runs_def unconfigured_registers_def Let_def intro: exI [of _ "Suc n"])
  next
    case False
    have "runs (st R (Suc n) h) (hwhen (dc_fpga_uuid dc \<noteq> LEOPARD_EAGLE_UUID)
        (hthen (mask_off dc) (hthen (sleep_ms 10) (write_regs (unconfigure_writes dc)))))
        (\<lambda>_. st (upds (masked_off R dc) (unconfigure_writes dc)) n h)"
      using False runs_hthen [OF mask_off_rule [OF mem] runs_hthen [OF sleep_st_rule data_plane_write_rule [OF mem data_plane_writes(3)]]]
      by (simp add: hwhen_def)
    then show ?thesis unfolding unconfigure_def
      by (intro runs_post [OF runs_hthen [OF _ disable]])
        (use False in \<open>auto simp: unconfigured_registers_def Let_def\<close>)
  qed
qed

end

text \<open>What a call refuses leaves the board alone.\<close>

lemma configure_roce_refused:
  "roce_checks frame_memory frame_size page_size pages = Inl e \<Longrightarrow>
   configure_roce net dc frame_memory frame_size page_size pages port s = (Inl e, s)"
  by (simp add: configure_roce_def)

end
