(* ===== verification/Enumeration.thy ===== *)
theory Enumeration
  imports Data_Channel
begin

text \<open>
  How the host finds its boards: \<open>Enumerator\<close> and the enumeration strategies
  (src/src/hololink/core/enumerator.hpp and .cpp). A received BOOTP packet becomes a \<open>Metadata\<close>,
  completed by the strategy of its UUID. What the sockets deliver is an argument; the reports to
  the log are left out.
\<close>

subsection \<open>Strings\<close>

definition hex_digit :: "nat \<Rightarrow> char" where
  "hex_digit n = ''0123456789abcdef'' ! n"

definition upper_hex_digit :: "nat \<Rightarrow> char" where
  "upper_hex_digit n = ''0123456789ABCDEF'' ! n"

definition hex_byte :: "u8 \<Rightarrow> string" where
  "hex_byte b = [hex_digit (unat b div 16), hex_digit (unat b mod 16)]"

definition upper_hex_byte :: "u8 \<Rightarrow> string" where
  "upper_hex_byte b = [upper_hex_digit (unat b div 16), upper_hex_digit (unat b mod 16)]"

definition hex_string :: "bytes \<Rightarrow> string" where
  "hex_string bs = concat (map hex_byte bs)"

definition uuid_string :: "bytes \<Rightarrow> string" where
  "uuid_string bs = concat (map (\<lambda>i. hex_byte (bs ! i) @ (if i \<in> {3, 5, 7, 9} then ''-'' else '''')) [0..<16])"

fun mac_string :: "bytes \<Rightarrow> string" where
  "mac_string [] = ''''"
| "mac_string [b] = upper_hex_byte b"
| "mac_string (b # bs) = upper_hex_byte b @ '':'' @ mac_string bs"

fun decimal_string :: "nat \<Rightarrow> string" where
  "decimal_string n = (if n < 10 then [hex_digit n] else decimal_string (n div 10) @ [hex_digit (n mod 10)])"

declare decimal_string.simps [simp del]

text \<open>\<open>inet_ntoa({ntohl(x)})\<close>: the bytes of the address, the highest one first.\<close>

definition dotted_string :: "u32 \<Rightarrow> string" where
  "dotted_string x =
     decimal_string (unat (byte_at 24 x)) @ ''.'' @ decimal_string (unat (byte_at 16 x)) @ ''.'' @
     decimal_string (unat (byte_at 8 x)) @ ''.'' @ decimal_string (unat (byte_at 0 x))"

definition next_buffer_as_string :: "nat \<Rightarrow> deserializer \<Rightarrow> (string \<times> deserializer) option" where
  "next_buffer_as_string n d = Option.bind (next_pointer d n) (\<lambda>(bs, d). Some (hex_string bs, d))"

definition next_uuid_as_string :: "deserializer \<Rightarrow> (string \<times> deserializer) option" where
  "next_uuid_as_string d = Option.bind (next_pointer d 16) (\<lambda>(bs, d). Some (uuid_string bs, d))"

subsection \<open>Strategies\<close>

definition HOLOLINK_LITE_UUID :: string where "HOLOLINK_LITE_UUID = ''889b7ce3-65a5-4247-8b05-4ff1904c3359''"
definition HOLOLINK_NANO_UUID :: string where "HOLOLINK_NANO_UUID = ''d0f015e0-93b6-4473-b7d1-7dbd01cbeab5''"
definition HOLOLINK_100G_UUID :: string where "HOLOLINK_100G_UUID = ''7a377bf7-76cb-4756-a4c5-7dddaed8354b''"
definition MICROCHIP_POLARFIRE_UUID :: string where
  "MICROCHIP_POLARFIRE_UUID = ''ed6a9292-debf-40ac-b603-a24e025309c1''"

datatype strategy_class = Basic_strategy | Leopard_eagle_strategy

record enumeration_strategy =
  es_class :: strategy_class
  es_additional_metadata :: metadata
  es_total_sensors :: int
  es_total_dataplanes :: int
  es_sifs_per_sensor :: int
  es_ptp_enable :: bool
  es_block_enable :: bool

text \<open>The constructor; the counts are \<open>unsigned\<close> and are compared with \<open>int64_t\<close> values.\<close>

definition basic_strategy :: "metadata \<Rightarrow> u32 \<Rightarrow> u32 \<Rightarrow> u32 \<Rightarrow> enumeration_strategy" where
  "basic_strategy additional sensors dataplanes sifs =
     \<lparr>es_class = Basic_strategy, es_additional_metadata = additional, es_total_sensors = uint sensors,
      es_total_dataplanes = uint dataplanes, es_sifs_per_sensor = uint sifs, es_ptp_enable = True,
      es_block_enable = True\<rparr>"

definition strategy_ptp_enable :: "bool \<Rightarrow> enumeration_strategy \<Rightarrow> enumeration_strategy" where
  "strategy_ptp_enable b es = es\<lparr>es_ptp_enable := b\<rparr>"

definition strategy_block_enable :: "bool \<Rightarrow> enumeration_strategy \<Rightarrow> enumeration_strategy" where
  "strategy_block_enable b es = es\<lparr>es_block_enable := b\<rparr>"

definition strategy_update_metadata :: "enumeration_strategy \<Rightarrow> metadata \<Rightarrow> metadata" where
  "strategy_update_metadata es md =
     meta_update
       (md(''ptp_enable'' \<mapsto> Meta_int (if es_ptp_enable es then 1 else 0),
           ''block_enable'' \<mapsto> Meta_int (if es_block_enable es then 1 else 0)))
       (es_additional_metadata es)"

text \<open>A value stored in an \<open>int32_t\<close>; a shift takes its count modulo 32, as the processors do.\<close>

definition cast_i32 :: "int \<Rightarrow> int" where
  "cast_i32 v = sint (word_of_int v :: u32)"

definition sensor_metadata :: "int \<Rightarrow> int \<Rightarrow> int \<Rightarrow> int \<Rightarrow> int \<Rightarrow> metadata \<Rightarrow> metadata" where
  "sensor_metadata sensor_number sensor vp_mask sif_address vp_address md =
     md(''sensor_number'' \<mapsto> Meta_int sensor_number, ''sensor'' \<mapsto> Meta_int sensor, ''vp_mask'' \<mapsto> Meta_int vp_mask,
        ''sif_address'' \<mapsto> Meta_int sif_address, ''vp_address'' \<mapsto> Meta_int vp_address)"

definition dataplane_metadata :: "int \<Rightarrow> int \<Rightarrow> metadata \<Rightarrow> metadata" where
  "dataplane_metadata data_plane hif_address md =
     md(''data_plane'' \<mapsto> Meta_int data_plane, ''hif_address'' \<mapsto> Meta_int hif_address)"

definition basic_use_sensor :: "enumeration_strategy \<Rightarrow> int \<Rightarrow> metadata \<Rightarrow> hsb_error + metadata" where
  "basic_use_sensor es sensor_number md =
     (if sensor_number < 0 \<or> es_total_sensors es \<le> sensor_number
      then Inl (Runtime_error ''use_sensor failed, sensor_number is out-of-range.'')
      else
        (let sensor = cast_i32 (sensor_number * es_sifs_per_sensor es);
             vp_mask = cast_i32 (push_bit (nat (sensor mod 32)) 1);
             sif_address = cast_i32 (0x01000000 + 0x10000 * sensor_number);
             vp_address = cast_i32 (0x1000 + 0x40 * sensor);
             md = sensor_metadata sensor_number sensor vp_mask sif_address vp_address md
         in Inr
           (if sensor_number = 0 then md(''frame_end_event'' \<mapsto> Meta_int (int (event_code SIF_0_FRAME_END)))
            else if sensor_number = 1 then md(''frame_end_event'' \<mapsto> Meta_int (int (event_code SIF_1_FRAME_END)))
            else md)))"

definition CAM_I2C_BUS :: int where "CAM_I2C_BUS = 1"

definition use_sensor :: "enumeration_strategy \<Rightarrow> int \<Rightarrow> metadata \<Rightarrow> hsb_error + metadata" where
  "use_sensor es sensor_number md =
     (case es_class es of
        Basic_strategy \<Rightarrow> basic_use_sensor es sensor_number md
      | Leopard_eagle_strategy \<Rightarrow>
          ebind (basic_use_sensor es sensor_number md)
            (\<lambda>md. Inr (md(''i2c_bus'' \<mapsto> Meta_int (CAM_I2C_BUS + sensor_number)))))"

definition use_data_plane_configuration :: "enumeration_strategy \<Rightarrow> int \<Rightarrow> metadata \<Rightarrow> hsb_error + metadata" where
  "use_data_plane_configuration es data_plane md =
     (if data_plane < 0 \<or> es_total_dataplanes es \<le> data_plane
      then Inl (Runtime_error ''use_data_plane_configuration failed, data_plane is out-of-range.'')
      else Inr (dataplane_metadata data_plane (cast_i32 (0x02000300 + 0x10000 * data_plane)) md))"

text \<open>The strategies by UUID, the default ones, and the one for a UUID that is not there.\<close>

type_synonym strategies = "string \<rightharpoonup> enumeration_strategy"

definition null_strategy :: enumeration_strategy where
  "null_strategy = basic_strategy (\<lambda>_. None) 2 2 2"

definition leopard_eagle_strategy :: enumeration_strategy where
  "leopard_eagle_strategy =
     (basic_strategy [''board_description'' \<mapsto> Meta_string ''Leopard Eagle''] 3 1 1)\<lparr>es_class := Leopard_eagle_strategy\<rparr>"

definition default_strategies :: "strategies \<Rightarrow> strategies" where
  "default_strategies st =
     st(HOLOLINK_LITE_UUID \<mapsto> basic_strategy
          [''board_description'' \<mapsto> Meta_string ''hololink-lite'', ''gpio_pin_count'' \<mapsto> Meta_int 16] 2 2 2,
        HOLOLINK_NANO_UUID \<mapsto> basic_strategy
          [''board_description'' \<mapsto> Meta_string ''hololink-nano'', ''gpio_pin_count'' \<mapsto> Meta_int 54] 2 2 2,
        HOLOLINK_100G_UUID \<mapsto> basic_strategy [''board_description'' \<mapsto> Meta_string ''hololink 100G''] 2 2 2,
        MICROCHIP_POLARFIRE_UUID \<mapsto> basic_strategy
          [''board_description'' \<mapsto> Meta_string ''Microchip Polarfire'', ''gpio_pin_count'' \<mapsto> Meta_int 16] 2 2 1,
        LEOPARD_EAGLE_UUID \<mapsto> leopard_eagle_strategy)"

text \<open>The map of strategies, and whether the defaults have been put in.\<close>

record strategy_map =
  sm_done :: bool
  sm_strategies :: strategies

definition configure_default_strategies :: "strategy_map \<Rightarrow> strategy_map" where
  "configure_default_strategies sm =
     (if sm_done sm then sm else \<lparr>sm_done = True, sm_strategies = default_strategies (sm_strategies sm)\<rparr>)"

definition set_uuid_strategy ::
  "string \<Rightarrow> enumeration_strategy \<Rightarrow> strategy_map \<Rightarrow> enumeration_strategy option \<times> strategy_map" where
  "set_uuid_strategy uuid es sm =
     (let sm = configure_default_strategies sm
      in (sm_strategies sm uuid, sm\<lparr>sm_strategies := (sm_strategies sm)(uuid \<mapsto> es)\<rparr>))"

definition get_uuid_strategy :: "strategies \<Rightarrow> string \<Rightarrow> enumeration_strategy" where
  "get_uuid_strategy st uuid = (case st uuid of None \<Rightarrow> null_strategy | Some es \<Rightarrow> es)"

text \<open>The same, from the metadata of a channel (\<open>DataChannel\<close>).\<close>

definition channel_use_sensor :: "strategies \<Rightarrow> int \<Rightarrow> metadata \<Rightarrow> hsb_error + metadata" where
  "channel_use_sensor st sensor_number md =
     ebind (need_string md ''fpga_uuid'') (\<lambda>uuid. use_sensor (get_uuid_strategy st uuid) sensor_number md)"

definition channel_use_data_plane :: "strategies \<Rightarrow> int \<Rightarrow> metadata \<Rightarrow> hsb_error + metadata" where
  "channel_use_data_plane st data_plane md =
     ebind (need_string md ''fpga_uuid'')
       (\<lambda>uuid. use_data_plane_configuration (get_uuid_strategy st uuid) data_plane md)"

subsection \<open>BOOTP packets\<close>

text \<open>The board data of the two versions; a short packet adds nothing.\<close>

definition uuid_of_board_id :: "u16 \<Rightarrow> string option" where
  "uuid_of_board_id board_id =
     (if board_id = 2 then Some HOLOLINK_LITE_UUID
      else if board_id = 5 then Some HOLOLINK_NANO_UUID
      else if board_id = 3 then Some HOLOLINK_100G_UUID
      else if board_id = 4 then Some MICROCHIP_POLARFIRE_UUID
      else if board_id = 7 then Some LEOPARD_EAGLE_UUID
      else None)"

definition parse_bootp_v1 :: "deserializer \<Rightarrow> (u16 \<times> string \<times> string \<times> u16 \<times> u16) option" where
  "parse_bootp_v1 d =
     Option.bind (next_uint16_le d) (\<lambda>(board_id, d).
     Option.bind (next_buffer_as_string 20 d) (\<lambda>(board_version, d).
     Option.bind (next_buffer_as_string 7 d) (\<lambda>(serial_number, d).
     Option.bind (next_uint16_le d) (\<lambda>(fpga_version, d).
     Option.bind (next_uint16_le d) (\<lambda>(fpga_crc, d).
       Some (board_id, board_version, serial_number, fpga_version, fpga_crc))))))"

definition deserialize_bootp_v1 :: "deserializer \<Rightarrow> metadata \<Rightarrow> metadata" where
  "deserialize_bootp_v1 d md =
     (case parse_bootp_v1 d of
        None \<Rightarrow> md
      | Some (board_id, board_version, serial_number, fpga_version, fpga_crc) \<Rightarrow>
          (let md = md(''board_id'' \<mapsto> Meta_int (uint board_id), ''board_version'' \<mapsto> Meta_string board_version,
                 ''serial_number'' \<mapsto> Meta_string serial_number, ''hsb_ip_version'' \<mapsto> Meta_int (uint fpga_version),
                 ''fpga_crc'' \<mapsto> Meta_int (uint fpga_crc))
           in case uuid_of_board_id board_id of
                None \<Rightarrow> md
              | Some uuid \<Rightarrow> md(''fpga_uuid'' \<mapsto> Meta_string uuid)))"

definition parse_bootp_v2 :: "deserializer \<Rightarrow> (string \<times> u32 \<times> string \<times> u16 \<times> u16) option" where
  "parse_bootp_v2 d =
     Option.bind (next_uint16_le d) (\<lambda>(reserved_1, d).
     Option.bind (next_uuid_as_string d) (\<lambda>(fpga_uuid, d).
     Option.bind (next_uint24_be d) (\<lambda>(transmitted_packet_count, d).
     Option.bind (next_uint8 d) (\<lambda>(ignored, d).
     Option.bind (next_buffer_as_string 7 d) (\<lambda>(serial_number, d).
     Option.bind (next_uint16_le d) (\<lambda>(fpga_version, d).
     Option.bind (next_uint16_le d) (\<lambda>(fpga_crc, d).
       Some (fpga_uuid, transmitted_packet_count, serial_number, fpga_version, fpga_crc))))))))"

definition deserialize_bootp_v2 :: "deserializer \<Rightarrow> metadata \<Rightarrow> metadata" where
  "deserialize_bootp_v2 d md =
     (case parse_bootp_v2 d of
        None \<Rightarrow> md
      | Some (fpga_uuid, transmitted_packet_count, serial_number, fpga_version, fpga_crc) \<Rightarrow>
          md(''fpga_uuid'' \<mapsto> Meta_string fpga_uuid,
             ''transmitted_packet_count'' \<mapsto> Meta_int (uint transmitted_packet_count),
             ''serial_number'' \<mapsto> Meta_string serial_number, ''hsb_ip_version'' \<mapsto> Meta_int (uint fpga_version),
             ''fpga_crc'' \<mapsto> Meta_int (uint fpga_crc)))"

text \<open>The fields before the vendor's, and the vendor's.\<close>

record bootp_request =
  br_op :: u8
  br_hardware_type :: u8
  br_hardware_address_length :: u8
  br_hops :: u8
  br_transaction_id :: u32
  br_seconds :: u16
  br_flags :: u16
  br_client_ip_address :: u32
  br_your_ip_address :: u32
  br_server_ip_address :: u32
  br_gateway_ip_address :: u32
  br_hardware_address :: bytes

definition parse_bootp_request :: "deserializer \<Rightarrow> (bootp_request \<times> deserializer) option" where
  "parse_bootp_request d =
     Option.bind (next_uint8 d) (\<lambda>(op, d).
     Option.bind (next_uint8 d) (\<lambda>(hardware_type, d).
     Option.bind (next_uint8 d) (\<lambda>(hardware_address_length, d).
     if 16 < hardware_address_length then None else
     Option.bind (next_uint8 d) (\<lambda>(hops, d).
     Option.bind (next_uint32_be d) (\<lambda>(transaction_id, d).
     Option.bind (next_uint16_be d) (\<lambda>(seconds, d).
     Option.bind (next_uint16_be d) (\<lambda>(flags, d).
     Option.bind (next_uint32_be d) (\<lambda>(client_ip_address, d).
     Option.bind (next_uint32_be d) (\<lambda>(your_ip_address, d).
     Option.bind (next_uint32_be d) (\<lambda>(server_ip_address, d).
     Option.bind (next_uint32_be d) (\<lambda>(gateway_ip_address, d).
     Option.bind (next_buffer d (replicate 16 0)) (\<lambda>(hardware_address, d).
       Some (\<lparr>br_op = op, br_hardware_type = hardware_type, br_hardware_address_length = hardware_address_length,
              br_hops = hops, br_transaction_id = transaction_id, br_seconds = seconds, br_flags = flags,
              br_client_ip_address = client_ip_address, br_your_ip_address = your_ip_address,
              br_server_ip_address = server_ip_address, br_gateway_ip_address = gateway_ip_address,
              br_hardware_address = hardware_address\<rparr>, d)))))))))))))"

definition skip_pointer :: "nat \<Rightarrow> deserializer \<Rightarrow> deserializer" where
  "skip_pointer n d = (case next_pointer d n of None \<Rightarrow> d | Some (bs, d') \<Rightarrow> d')"

definition parse_vendor_info :: "deserializer \<Rightarrow> (u8 \<times> u8 \<times> deserializer) option" where
  "parse_vendor_info d =
     Option.bind (next_uint8 d) (\<lambda>(vendor_tag, d).
     if vendor_tag \<noteq> 0xE0 then None else
     Option.bind (next_uint8 d) (\<lambda>(vendor_tag_length, d).
     Option.bind (next_uint32_be d) (\<lambda>(vendor_id, d).
     if vendor_id \<noteq> 0x4E564441 then None else
     Option.bind (next_uint8 d) (\<lambda>(data_plane, d).
     Option.bind (next_uint8 d) (\<lambda>(enum_version, d). Some (data_plane, enum_version, d))))))"

definition request_metadata :: "bootp_request \<Rightarrow> u8 \<Rightarrow> u8 \<Rightarrow> metadata \<Rightarrow> metadata" where
  "request_metadata r data_plane enum_version md =
     md(''type'' \<mapsto> Meta_string ''bootp_request'', ''op'' \<mapsto> Meta_int (uint (br_op r)),
        ''hardware_type'' \<mapsto> Meta_int (uint (br_hardware_type r)),
        ''hardware_address_length'' \<mapsto> Meta_int (uint (br_hardware_address_length r)),
        ''hops'' \<mapsto> Meta_int (uint (br_hops r)), ''transaction_id'' \<mapsto> Meta_int (uint (br_transaction_id r)),
        ''seconds'' \<mapsto> Meta_int (uint (br_seconds r)), ''flags'' \<mapsto> Meta_int (uint (br_flags r)),
        ''client_ip_address'' \<mapsto> Meta_string (dotted_string (br_client_ip_address r)),
        ''your_ip_address'' \<mapsto> Meta_string (dotted_string (br_your_ip_address r)),
        ''server_ip_address'' \<mapsto> Meta_string (dotted_string (br_server_ip_address r)),
        ''gateway_ip_address'' \<mapsto> Meta_string (dotted_string (br_gateway_ip_address r)),
        ''hardware_address'' \<mapsto> Meta_bytes (br_hardware_address r),
        ''mac_id'' \<mapsto> Meta_string (mac_string (take (unat (br_hardware_address_length r)) (br_hardware_address r))),
        ''data_plane'' \<mapsto> Meta_int (uint data_plane), ''enum_version'' \<mapsto> Meta_int (uint enum_version),
        ''control_port'' \<mapsto> Meta_int 8192, ''sequence_number_checking'' \<mapsto> Meta_int 1,
        ''fpga_uuid'' \<mapsto> Meta_string ''N/A'')"

definition deserialize_bootp_request :: "strategies \<Rightarrow> bytes \<Rightarrow> metadata \<Rightarrow> hsb_error + metadata" where
  "deserialize_bootp_request st packet md =
     (case parse_bootp_request (new_deserializer packet (length packet)) of
        None \<Rightarrow> Inr md
      | Some (r, d) \<Rightarrow>
          (case parse_vendor_info (skip_pointer 128 (skip_pointer 64 d)) of
             None \<Rightarrow> Inr md
           | Some (data_plane, enum_version, d) \<Rightarrow>
               (let md = request_metadata r data_plane enum_version md;
                    md = (if enum_version = 1 then deserialize_bootp_v1 d md
                          else if enum_version = 2 then deserialize_bootp_v2 d md
                          else md)
                in ebind (need_string md ''fpga_uuid'')
                     (\<lambda>uuid. Inr (strategy_update_metadata (get_uuid_strategy st uuid) md)))))"

subsection \<open>Receiving them\<close>

record packet_info =
  pi_index :: int
  pi_name :: "string option"
  pi_interface_address :: string
  pi_destination_address :: string

record bootp_datagram =
  dg_bytes :: bytes
  dg_peer_ip :: string
  dg_source_port :: u16
  dg_packet_info :: "packet_info list"

text \<open>The control messages of a datagram; a name that cannot be found out throws.\<close>

fun deserialize_ancdata :: "packet_info list \<Rightarrow> metadata \<Rightarrow> hsb_error + metadata" where
  "deserialize_ancdata [] md = Inr md"
| "deserialize_ancdata (p # ps) md =
     (case pi_name p of
        None \<Rightarrow> Inl (Runtime_error ''if_indextoname failed'')
      | Some interface \<Rightarrow>
          deserialize_ancdata ps
            (md(''interface_index'' \<mapsto> Meta_int (pi_index p), ''interface'' \<mapsto> Meta_string interface,
                ''interface_address'' \<mapsto> Meta_string (pi_interface_address p),
                ''destination_address'' \<mapsto> Meta_string (pi_destination_address p))))"

text \<open>What \<open>recvmsg\<close> gives, call after call: nothing for an error; empty datagrams are passed over.\<close>

fun first_datagram :: "bootp_datagram option list \<Rightarrow> hsb_error + bootp_datagram" where
  "first_datagram [] = Inl Blocked"
| "first_datagram (None # ds) = Inl (Runtime_error ''recvmsg failed'')"
| "first_datagram (Some d # ds) = (if dg_bytes d = [] then first_datagram ds else Inr d)"

definition BOOTP_BUFFER :: nat where "BOOTP_BUFFER = 10240"

text \<open>The buffer that is parsed: all of it, the bytes after those received being zero.\<close>

definition bootp_buffer :: "bytes \<Rightarrow> bytes" where
  "bootp_buffer bs = take BOOTP_BUFFER bs @ replicate (BOOTP_BUFFER - length bs) 0"

definition socket_metadata :: "int \<Rightarrow> bootp_datagram \<Rightarrow> metadata" where
  "socket_metadata fd d =
     [''peer_ip'' \<mapsto> Meta_string (dg_peer_ip d), ''source_port'' \<mapsto> Meta_int (uint (dg_source_port d)),
      ''_socket_fd'' \<mapsto> Meta_int fd]"

definition handle_bootp :: "strategies \<Rightarrow> int \<Rightarrow> bootp_datagram \<Rightarrow> hsb_error + metadata" where
  "handle_bootp st fd d =
     ebind (deserialize_ancdata (dg_packet_info d) (socket_metadata fd d)) (\<lambda>md.
     ebind (deserialize_bootp_request st (bootp_buffer (dg_bytes d)) md) (\<lambda>md.
       case get_int md ''data_plane'' of
         None \<Rightarrow> Inr md
       | Some v \<Rightarrow>
           let data_plane = cast_i32 v in
           ebind (channel_use_data_plane st data_plane md) (\<lambda>md. channel_use_sensor st data_plane md)))"

definition handle_bootp_fd :: "strategies \<Rightarrow> int \<Rightarrow> bootp_datagram option list \<Rightarrow> hsb_error + metadata \<times> bytes" where
  "handle_bootp_fd st fd ds =
     ebind (first_datagram ds) (\<lambda>d. ebind (handle_bootp st fd d) (\<lambda>md. Inr (md, bootp_buffer (dg_bytes d))))"

subsection \<open>Looking for a channel\<close>

text \<open>
  The rounds of \<open>enumeration_packets\<close>: the timeout is over, or \<open>select\<close> fails, is interrupted,
  reports an exception, times out, or there is something to receive. The metadata handed to the
  callback are the second component of the result.
\<close>

datatype enum_event =
    Timeout_expired
  | Select_failed
  | Select_interrupted
  | Select_exceptional
  | Select_timed_out
  | Readable "bootp_datagram option list"

fun enumeration_packets ::
  "strategies \<Rightarrow> int \<Rightarrow> (metadata \<Rightarrow> bool) \<Rightarrow> enum_event list \<Rightarrow> (hsb_error + unit) \<times> metadata list" where
  "enumeration_packets st fd call_back [] = (Inl Blocked, [])"
| "enumeration_packets st fd call_back (Timeout_expired # es) = (Inr (), [])"
| "enumeration_packets st fd call_back (Select_failed # es) = (Inl (Runtime_error ''select failed''), [])"
| "enumeration_packets st fd call_back (Select_interrupted # es) = enumeration_packets st fd call_back es"
| "enumeration_packets st fd call_back (Select_exceptional # es) = (Inr (), [])"
| "enumeration_packets st fd call_back (Select_timed_out # es) = (Inr (), [])"
| "enumeration_packets st fd call_back (Readable ds # es) =
     (case handle_bootp_fd st fd ds of
        Inl e \<Rightarrow> (Inl e, [])
      | Inr (md, iobuf) \<Rightarrow>
          if call_back md then (let (r, mds) = enumeration_packets st fd call_back es in (r, md # mds))
          else (Inr (), [md]))"

text \<open>\<open>enumerated\<close> shows its callback the complete channels only; \<open>find_channel\<close> waits for the one of an address.\<close>

definition enumerated :: "strategies \<Rightarrow> int \<Rightarrow> (metadata \<Rightarrow> bool) \<Rightarrow> enum_event list \<Rightarrow> (hsb_error + unit) \<times> metadata list" where
  "enumerated st fd call_back es =
     (let (r, mds) = enumeration_packets st fd (\<lambda>md. data_channel_enumerated md \<longrightarrow> call_back md) es
      in (r, filter data_channel_enumerated mds))"

definition find_channel :: "strategies \<Rightarrow> int \<Rightarrow> string \<Rightarrow> enum_event list \<Rightarrow> hsb_error + metadata" where
  "find_channel st fd channel_ip es =
     (let is_channel = (\<lambda>md. get_string md ''peer_ip'' = Some channel_ip);
          (r, mds) = enumerated st fd (\<lambda>md. \<not> is_channel md) es in
      case r of
        Inl e \<Rightarrow> Inl e
      | Inr _ \<Rightarrow>
          (case find is_channel mds of
             Some md \<Rightarrow> Inr md
           | None \<Rightarrow> Inl (Runtime_error ''Device not found.'')))"

subsection \<open>Callbacks by address\<close>

text \<open>\<open>ReactorEnumerator\<close>; a callback is known by its number.\<close>

record reactor_enumerator =
  re_callbacks :: "string \<rightharpoonup> u64 list"
  re_next_callback_id :: u64

definition new_reactor_enumerator :: reactor_enumerator where
  "new_reactor_enumerator = \<lparr>re_callbacks = (\<lambda>_. None), re_next_callback_id = 1\<rparr>"

definition callbacks_of :: "reactor_enumerator \<Rightarrow> string \<Rightarrow> u64 list" where
  "callbacks_of re ip = (case re_callbacks re ip of None \<Rightarrow> [] | Some ids \<Rightarrow> ids)"

definition register_ip :: "string \<Rightarrow> reactor_enumerator \<Rightarrow> u64 \<times> reactor_enumerator" where
  "register_ip ip re =
     (let i = re_next_callback_id re in
      (i, re\<lparr>re_next_callback_id := i + 1, re_callbacks := (re_callbacks re)(ip \<mapsto> callbacks_of re ip @ [i])\<rparr>))"

definition unregister_ip :: "string \<Rightarrow> u64 \<Rightarrow> reactor_enumerator \<Rightarrow> reactor_enumerator" where
  "unregister_ip ip i re =
     (case re_callbacks re ip of
        None \<Rightarrow> re
      | Some ids \<Rightarrow>
          (let ids = filter (\<lambda>j. j \<noteq> i) ids in
           re\<lparr>re_callbacks := (re_callbacks re)(ip := if ids = [] then None else Some ids)\<rparr>))"

text \<open>The callbacks that a packet calls, in order, with its metadata.\<close>

definition enumerator_fd_callback ::
  "strategies \<Rightarrow> int \<Rightarrow> bootp_datagram option list \<Rightarrow> reactor_enumerator \<Rightarrow> hsb_error + (u64 \<times> metadata) list" where
  "enumerator_fd_callback st fd ds re =
     ebind (handle_bootp_fd st fd ds) (\<lambda>(md, packet).
       case get_string md ''peer_ip'' of
         None \<Rightarrow> Inr []
       | Some peer_ip \<Rightarrow> Inr (map (\<lambda>i. (i, md)) (callbacks_of re peer_ip)))"

lemma callbacks_of_register:
  "callbacks_of (snd (register_ip ip re)) ip' =
   (if ip' = ip then callbacks_of re ip @ [fst (register_ip ip re)] else callbacks_of re ip')"
  by (simp add: register_ip_def Let_def callbacks_of_def)

lemma callbacks_of_unregister:
  "callbacks_of (unregister_ip ip i re) ip' =
   (if ip' = ip then filter (\<lambda>j. j \<noteq> i) (callbacks_of re ip) else callbacks_of re ip')"
  by (simp add: unregister_ip_def Let_def callbacks_of_def split: option.split)

subsection \<open>What a channel is told\<close>

lemma cast_i32_small: "- (2 ^ 31) \<le> v \<Longrightarrow> v < 2 ^ 31 \<Longrightarrow> cast_i32 v = v"
  by (simp add: cast_i32_def signed_of_int signed_take_bit_int_eq_self)

text \<open>The registers of the data plane that a sensor has, of 32 interfaces at most.\<close>

lemma basic_use_sensor_in_range:
  assumes "0 \<le> k" and "k < es_total_sensors es" and "0 \<le> es_sifs_per_sensor es" and "k * es_sifs_per_sensor es < 32" and "k < 256"
  shows "\<exists>md'. basic_use_sensor es k md = Inr md' \<and>
    get_int md' ''sensor_number'' = Some k \<and> get_int md' ''sensor'' = Some (k * es_sifs_per_sensor es) \<and>
    map_option cast_u32 (get_int md' ''vp_mask'') = Some (push_bit (nat (k * es_sifs_per_sensor es)) 1) \<and>
    get_int md' ''sif_address'' = Some (0x01000000 + 0x10000 * k) \<and>
    get_int md' ''vp_address'' = Some (0x1000 + 0x40 * (k * es_sifs_per_sensor es)) \<and>
    (\<forall>key. key \<notin> {''sensor_number'', ''sensor'', ''vp_mask'', ''sif_address'', ''vp_address'', ''frame_end_event''} \<longrightarrow> md' key = md key)"
proof -
  let ?n = "k * es_sifs_per_sensor es"
  have n: "0 \<le> ?n" "?n < 32" using assms by simp_all
  have c1: "cast_i32 ?n = ?n" using n by (intro cast_i32_small) simp_all
  have c2: "cast_i32 (0x1000 + 0x40 * ?n) = 0x1000 + 0x40 * ?n"
    using n by (intro cast_i32_small) simp_all
  have c3: "cast_i32 (0x01000000 + 0x10000 * k) = 0x01000000 + 0x10000 * k"
    using assms(1,5) by (intro cast_i32_small) simp_all
  have c4: "cast_u32 (cast_i32 (push_bit (nat (?n mod 32)) 1)) = push_bit (nat ?n) 1"
    using n by (simp add: cast_u32_def cast_i32_def)
  show ?thesis
    using assms(1,2) c4 unfolding basic_use_sensor_def Let_def c1 c2 c3
    by (auto simp: sensor_metadata_def)
qed

lemma use_sensor_out_of_range:
  "k < 0 \<or> es_total_sensors es \<le> k \<Longrightarrow>
   use_sensor es k md = Inl (Runtime_error ''use_sensor failed, sensor_number is out-of-range.'')"
  by (auto simp: use_sensor_def basic_use_sensor_def split: strategy_class.split)

end
