(* ===== verification/Frame_Metadata.thy ===== *)
theory Frame_Metadata
  imports Wire_Codec Hsb_Addresses
begin

text \<open>
  Messages the board sends by itself (src/src/hololink/core/hololink.cpp and hololink.hpp): the
  metadata block that follows each frame, the event messages that the event thread hands to its
  listeners, and the counter that extends the 16-bit frame numbers.
\<close>

text \<open>Times, as the operating system gives them.\<close>

record timespec =
  tv_sec :: u64
  tv_nsec :: u64

subsection \<open>Frame metadata\<close>

record frame_metadata =
  md_flags :: u32
  md_psn :: u32
  md_crc :: u32
  md_timestamp_s :: u64
  md_timestamp_ns :: u32
  md_bytes_written :: u64
  md_frame_number :: u16
  md_metadata_s :: u64
  md_metadata_ns :: u32

definition parse_metadata :: "deserializer \<Rightarrow> frame_metadata option" where
  "parse_metadata d =
     Option.bind (next_uint32_be d) (\<lambda>(flags, d).
     Option.bind (next_uint32_be d) (\<lambda>(psn, d).
     Option.bind (next_uint32_be d) (\<lambda>(crc, d).
     Option.bind (next_uint64_be d) (\<lambda>(timestamp_s, d).
     Option.bind (next_uint32_be d) (\<lambda>(timestamp_ns, d).
     Option.bind (next_uint64_be d) (\<lambda>(bytes_written, d).
     Option.bind (next_uint16_be d) (\<lambda>(ignored, d).
     Option.bind (next_uint16_be d) (\<lambda>(frame_number, d).
     Option.bind (next_uint64_be d) (\<lambda>(metadata_s, d).
     Option.bind (next_uint32_be d) (\<lambda>(metadata_ns, d).
     Some \<lparr>md_flags = flags, md_psn = psn, md_crc = crc, md_timestamp_s = timestamp_s,
           md_timestamp_ns = timestamp_ns, md_bytes_written = bytes_written,
           md_frame_number = frame_number, md_metadata_s = metadata_s, md_metadata_ns = metadata_ns\<rparr>))))))))))"

definition deserialize_metadata :: "bytes \<Rightarrow> hsb_error + frame_metadata" where
  "deserialize_metadata buffer =
     (case parse_metadata (new_deserializer buffer (length buffer)) of
        None \<Rightarrow> Inl (Runtime_error ''Buffer underflow in metadata'')
      | Some md \<Rightarrow> Inr md)"

text \<open>The wire format, with the two bytes that are skipped.\<close>

definition metadata_bytes :: "frame_metadata \<Rightarrow> u16 \<Rightarrow> bytes" where
  "metadata_bytes md pad =
     be_bytes 4 (md_flags md) @ be_bytes 4 (md_psn md) @ be_bytes 4 (md_crc md) @
     be_bytes 8 (md_timestamp_s md) @ be_bytes 4 (md_timestamp_ns md) @ be_bytes 8 (md_bytes_written md) @
     be_bytes 2 pad @ be_bytes 2 (md_frame_number md) @ be_bytes 8 (md_metadata_s md) @
     be_bytes 4 (md_metadata_ns md)"

lemma length_metadata_bytes [simp]: "length (metadata_bytes md pad) = 48"
  by (simp add: metadata_bytes_def)

lemmas metadata_fields = w32be.bind_get w64be.bind_get w16be.bind_get

lemma parse_metadata_bytes:
  assumes "d_ok d" and "unread d = metadata_bytes md pad @ rest"
  shows "parse_metadata d = Some md"
proof -
  have u: "unread d = be_bytes 4 (md_flags md) @ be_bytes 4 (md_psn md) @ be_bytes 4 (md_crc md) @
     be_bytes 8 (md_timestamp_s md) @ be_bytes 4 (md_timestamp_ns md) @ be_bytes 8 (md_bytes_written md) @
     be_bytes 2 pad @ be_bytes 2 (md_frame_number md) @ be_bytes 8 (md_metadata_s md) @
     be_bytes 4 (md_metadata_ns md) @ rest"
    using assms(2) by (simp add: metadata_bytes_def)
  show ?thesis
    unfolding parse_metadata_def
    apply (rule w32be.bind_get [OF assms(1) u])
    apply (unfold split_conv, rule metadata_fields, assumption, assumption)+
    apply simp
    done
qed

lemma deserialize_metadata_bytes:
  assumes "length rest < 2 ^ 31"
  shows "deserialize_metadata (metadata_bytes md pad @ rest) = Inr md"
  using assms parse_metadata_bytes [of "new_deserializer (metadata_bytes md pad @ rest) (48 + length rest)" md pad rest]
  by (simp add: deserialize_metadata_def)

text \<open>Every buffer of 48 bytes is the encoding of some metadata; a shorter one is refused.\<close>

lemma metadata_bytes_surj:
  assumes "length buffer = 48"
  obtains md pad where "buffer = metadata_bytes md pad"
proof -
  have parts: "be_bytes 4 (be_word (take 4 (drop n buffer)) :: u32) = take 4 (drop n buffer)" if "n \<le> 44" for n
    using that assms by (intro be_bytes_be_word) simp_all
  have parts8: "be_bytes 8 (be_word (take 8 (drop n buffer)) :: u64) = take 8 (drop n buffer)" if "n \<le> 40" for n
    using that assms by (intro be_bytes_be_word) simp_all
  have parts2: "be_bytes 2 (be_word (take 2 (drop n buffer)) :: u16) = take 2 (drop n buffer)" if "n \<le> 46" for n
    using that assms by (intro be_bytes_be_word) simp_all
  have split: "buffer = take 4 (drop 0 buffer) @ take 4 (drop 4 buffer) @ take 4 (drop 8 buffer) @
      take 8 (drop 12 buffer) @ take 4 (drop 20 buffer) @ take 8 (drop 24 buffer) @ take 2 (drop 32 buffer) @
      take 2 (drop 34 buffer) @ take 8 (drop 36 buffer) @ take 4 (drop 44 buffer)"
    using assms append_take_drop_id [of 4 "drop 0 buffer"] append_take_drop_id [of 4 "drop 4 buffer"]
      append_take_drop_id [of 4 "drop 8 buffer"] append_take_drop_id [of 8 "drop 12 buffer"]
      append_take_drop_id [of 4 "drop 20 buffer"] append_take_drop_id [of 8 "drop 24 buffer"]
      append_take_drop_id [of 2 "drop 32 buffer"] append_take_drop_id [of 2 "drop 34 buffer"]
      append_take_drop_id [of 8 "drop 36 buffer"] append_take_drop_id [of 4 "drop 44 buffer"]
    by simp
  show thesis
    by (rule that [of "\<lparr>md_flags = be_word (take 4 (drop 0 buffer)), md_psn = be_word (take 4 (drop 4 buffer)),
        md_crc = be_word (take 4 (drop 8 buffer)), md_timestamp_s = be_word (take 8 (drop 12 buffer)),
        md_timestamp_ns = be_word (take 4 (drop 20 buffer)), md_bytes_written = be_word (take 8 (drop 24 buffer)),
        md_frame_number = be_word (take 2 (drop 34 buffer)), md_metadata_s = be_word (take 8 (drop 36 buffer)),
        md_metadata_ns = be_word (take 4 (drop 44 buffer))\<rparr>" "be_word (take 2 (drop 32 buffer))"])
      (subst split, simp only: metadata_bytes_def frame_metadata.simps parts parts8 parts2)
qed

lemma parse_metadata_length:
  assumes "parse_metadata d = Some md" and "d_ok d"
  shows "48 \<le> length (unread d)"
  using assms unfolding parse_metadata_def
  apply -
  apply ((erule w32be.bind_getE w64be.bind_getE w16be.bind_getE, assumption, unfold split_conv)+)
  apply simp
  done

lemma deserialize_metadata_short:
  assumes "length buffer < 48"
  shows "deserialize_metadata buffer = Inl (Runtime_error ''Buffer underflow in metadata'')"
proof -
  let ?d = "new_deserializer buffer (length buffer)"
  have "d_ok ?d" "unread ?d = buffer" using assms by simp_all
  then have "parse_metadata ?d = None"
    using parse_metadata_length [of ?d] assms by (cases "parse_metadata ?d") auto
  then show ?thesis by (simp add: deserialize_metadata_def)
qed

subsection \<open>Event messages\<close>

record async_event =
  interrupt_active :: u32
  interrupt_state :: u32
  ev_timestamp_s :: u64
  ev_timestamp_ns :: u32

definition parse_async_event :: "bytes \<Rightarrow> hsb_error + async_event" where
  "parse_async_event received =
     (case Option.bind (next_uint32_be (new_deserializer received (length received))) (\<lambda>(active, d).
           Option.bind (next_uint32_be d) (\<lambda>(state, d).
           Option.bind (next_uint48_be d) (\<lambda>(timestamp_s, d).
           map_option (\<lambda>(timestamp_ns, d).
             \<lparr>interrupt_active = active, interrupt_state = state, ev_timestamp_s = timestamp_s,
              ev_timestamp_ns = timestamp_ns\<rparr>) (next_uint32_be d)))) of
        None \<Rightarrow> Inl (Runtime_error ''Buffer underflow in async event message'')
      | Some m \<Rightarrow> Inr m)"

text \<open>
  A listener is a callback for each event, with the interrupt state and the time; the pointer
  may be null. What it throws is logged and dropped, with the rest of its callbacks.
\<close>

type_synonym 's listener = "hsb_event \<Rightarrow> u32 \<Rightarrow> u64 \<Rightarrow> u32 \<Rightarrow> ('s, unit) hm"

definition event_active :: "async_event \<Rightarrow> hsb_event \<Rightarrow> bool" where
  "event_active m event \<longleftrightarrow> interrupt_active m AND event_bit event \<noteq> 0"

definition notified_events :: "hsb_event list" where
  "notified_events =
     [GPIO0, GPIO1, SIF_0_FRAME_START, SIF_0_FRAME_END, SIF_1_FRAME_START, SIF_1_FRAME_END]"

definition notify_listener :: "async_event \<Rightarrow> 's listener \<Rightarrow> ('s, unit) hm" where
  "notify_listener m l =
     hseq (map (\<lambda>event. hwhen (event_active m event)
       (l event (interrupt_state m) (ev_timestamp_s m) (ev_timestamp_ns m))) notified_events)"

definition notify_guarded :: "async_event \<Rightarrow> 's listener option \<Rightarrow> 's \<Rightarrow> 's" where
  "notify_guarded m lo s = (case lo of None \<Rightarrow> s | Some l \<Rightarrow> snd (notify_listener m l s))"

definition notify_all :: "async_event \<Rightarrow> 's listener option list \<Rightarrow> 's \<Rightarrow> 's" where
  "notify_all m ls s = fold (notify_guarded m) ls s"

text \<open>What \<open>recvfrom\<close> gives: bytes (none when the socket is closed), a retry, an error.\<close>

datatype recv_result = Received bytes | Try_again | Recv_error

text \<open>
  The event thread on a sequence of results: whether it is still running (\<open>Inr True\<close>), has
  returned (\<open>Inr False\<close>) or has thrown. A datagram is cut off at the size of the buffer.
\<close>

definition ASYNC_PACKET_SIZE :: nat where "ASYNC_PACKET_SIZE = 10240"

fun async_event_thread :: "'s listener option list \<Rightarrow> recv_result list \<Rightarrow> ('s, bool) hm" where
  "async_event_thread ls [] = hret True"
| "async_event_thread ls (Try_again # rs) = async_event_thread ls rs"
| "async_event_thread ls (Recv_error # rs) = hthrow (Runtime_error ''async_event_thread recvfrom'')"
| "async_event_thread ls (Received bytes # rs) =
     (let received = take ASYNC_PACKET_SIZE bytes in
      if received = [] then hret False
      else hbind (hlift (parse_async_event received)) (\<lambda>m.
             hthen (hmodify (notify_all m ls)) (async_event_thread ls rs)))"

text \<open>\<open>on_async_event\<close>\<close>

definition add_async_listener :: "'s listener option \<Rightarrow> ('s listener option list, unit) hm" where
  "add_async_listener lo =
     (case lo of
        None \<Rightarrow> hthrow (Runtime_error ''Invalid AsyncEventListener'')
      | Some l \<Rightarrow> hmodify (\<lambda>ls. ls @ [Some l]))"

text \<open>The wire format of an event message: the time has 48 bits.\<close>

definition event_bytes :: "async_event \<Rightarrow> bytes" where
  "event_bytes m =
     be_bytes 4 (interrupt_active m) @ be_bytes 4 (interrupt_state m) @
     be_bytes 6 (ev_timestamp_s m) @ be_bytes 4 (ev_timestamp_ns m)"

lemma next_uint48_be_bytes:
  assumes "d_ok d" and "unread d = be_bytes 6 (v :: u64) @ rest" and "v < 2 ^ 48"
  obtains d' where "next_uint48_be d = Some (v, d')" "d_ok d'" "unread d' = rest"
proof -
  obtain d' where d': "next_bytes d 6 = Some (be_bytes 6 v, d')" "d_ok d'" "unread d' = rest"
    using next_bytes_unread [OF assms(1,2)] by auto
  have "be_word (be_bytes 6 v) = v"
  proof -
    have "drop_bit (8 * 6) v = 0"
      using bit_small [OF assms(3)] by (intro bit_word_eqI) (auto simp: bit_simps)
    then show ?thesis using be_word_be_bytes_aux [of 6 v] by (simp add: be_word_def)
  qed
  with d' show thesis by (intro that [of d']) (simp_all add: next_uint48_be_def)
qed

lemma parse_async_event_bytes:
  assumes "ev_timestamp_s m < 2 ^ 48" and "length rest < 2 ^ 31"
  shows "parse_async_event (event_bytes m @ rest) = Inr m"
proof -
  let ?d = "new_deserializer (event_bytes m @ rest) (length (event_bytes m @ rest))"
  have d: "d_ok ?d" "unread ?d = be_bytes 4 (interrupt_active m) @ be_bytes 4 (interrupt_state m) @
      be_bytes 6 (ev_timestamp_s m) @ be_bytes 4 (ev_timestamp_ns m) @ rest"
    using assms(2) by (simp_all add: event_bytes_def)
  obtain d1 where 1: "next_uint32_be ?d = Some (interrupt_active m, d1)" "d_ok d1"
      "unread d1 = be_bytes 4 (interrupt_state m) @ be_bytes 6 (ev_timestamp_s m) @ be_bytes 4 (ev_timestamp_ns m) @ rest"
    using w32be.get_enc [OF d] by blast
  obtain d2 where 2: "next_uint32_be d1 = Some (interrupt_state m, d2)" "d_ok d2"
      "unread d2 = be_bytes 6 (ev_timestamp_s m) @ be_bytes 4 (ev_timestamp_ns m) @ rest"
    using w32be.get_enc [OF 1(2,3)] by blast
  obtain d3 where 3: "next_uint48_be d2 = Some (ev_timestamp_s m, d3)" "d_ok d3"
      "unread d3 = be_bytes 4 (ev_timestamp_ns m) @ rest"
    by (rule next_uint48_be_bytes [OF 2(2,3) assms(1)])
  obtain d4 where "next_uint32_be d3 = Some (ev_timestamp_ns m, d4)"
    using w32be.get_enc [OF 3(2,3)] by blast
  with 1(1) 2(1) 3(1) show ?thesis by (simp add: parse_async_event_def)
qed

text \<open>A listener sees exactly the active events, in a fixed order, until it throws.\<close>

lemma notify_listener_log:
  assumes "\<And>event st ts tn s. event \<in> set notified_events \<Longrightarrow> l event st ts tn s = (Inr (), s @ [(event, st, ts, tn)])"
  shows "notify_listener m l s = (Inr (), s @ map (\<lambda>event. (event, interrupt_state m, ev_timestamp_s m, ev_timestamp_ns m))
    (filter (event_active m) notified_events))"
proof -
  have "hseq (map (\<lambda>event. hwhen (event_active m event)
      (l event (interrupt_state m) (ev_timestamp_s m) (ev_timestamp_ns m))) es) s =
      (Inr (), s @ map (\<lambda>event. (event, interrupt_state m, ev_timestamp_s m, ev_timestamp_ns m)) (filter (event_active m) es))"
    if "set es \<subseteq> set notified_events" for es
    using that
  proof (induction es arbitrary: s)
    case Nil
    then show ?case by simp
  next
    case (Cons e es)
    then show ?case using assms [of e] by (simp add: hthen_def hbind_def)
  qed
  then show ?thesis by (simp add: notify_listener_def)
qed

text \<open>Malformed datagrams end the thread: an empty one quietly, a short one with an exception.\<close>

lemma parse_async_event_length:
  assumes "parse_async_event bs = Inr m" and "length bs < 2 ^ 32"
  shows "18 \<le> length bs"
proof -
  let ?d = "new_deserializer bs (length bs)"
  have d: "d_ok ?d" "unread ?d = bs" using assms(2) by simp_all
  obtain a d1 where 1: "next_uint32_be ?d = Some (a, d1)"
    using assms(1) by (cases "next_uint32_be ?d") (auto simp: parse_async_event_def)
  obtain b d2 where 2: "next_uint32_be d1 = Some (b, d2)"
    using assms(1) 1 by (cases "next_uint32_be d1") (auto simp: parse_async_event_def)
  obtain c d3 where 3: "next_uint48_be d2 = Some (c, d3)"
    using assms(1) 1 2 by (cases "next_uint48_be d2") (auto simp: parse_async_event_def)
  obtain e d4 where 4: "next_uint32_be d3 = Some (e, d4)"
    using assms(1) 1 2 3 by (cases "next_uint32_be d3") (auto simp: parse_async_event_def)
  have s1: "d_ok d1" "length bs = 4 + length (unread d1)" using w32be.get_sound [OF d(1) 1] d(2) by auto
  have s2: "d_ok d2" "length (unread d1) = 4 + length (unread d2)" using w32be.get_sound [OF s1(1) 2] by auto
  have s3: "d_ok d3" "length (unread d2) = 6 + length (unread d3)"
  proof -
    obtain bs' where "next_bytes d2 6 = Some (bs', d3)" using 3 by (auto simp: next_uint48_be_def)
    moreover from this have "length bs' = 6" using s2(1)
      by (auto simp: next_bytes_def d_ok_def size_add_def split: if_splits)
    ultimately show "d_ok d3" "length (unread d2) = 6 + length (unread d3)"
      using next_bytes_in_bounds [OF s2(1)] by auto
  qed
  have "length (unread d3) = 4 + length (unread d4)" using w32be.get_sound [OF s3(1) 4] by auto
  with s1(2) s2(2) s3(2) show ?thesis by simp
qed

lemma async_event_thread_short:
  assumes "0 < length bs" and "length bs < 18"
  shows "async_event_thread ls (Received bs # rs) s =
    (Inl (Runtime_error ''Buffer underflow in async event message''), s)"
proof -
  have t: "take ASYNC_PACKET_SIZE bs = bs" using assms(2) by (simp add: ASYNC_PACKET_SIZE_def)
  have "parse_async_event bs = Inl (Runtime_error ''Buffer underflow in async event message'')"
  proof (cases "parse_async_event bs")
    case (Inl e)
    then show ?thesis by (auto simp: parse_async_event_def split: option.splits)
  next
    case (Inr m)
    with parse_async_event_length [OF Inr] assms(2) show ?thesis by simp
  qed
  with assms(1) show ?thesis by (auto simp: t Let_def hbind_def)
qed

subsection \<open>Extending a 16-bit counter\<close>

record extended_counter =
  xc_current :: u32
  xc_previous :: u16

definition new_extended_counter :: extended_counter where
  "new_extended_counter = \<lparr>xc_current = 0, xc_previous = 0\<rparr>"

definition xc_update :: "u16 \<Rightarrow> extended_counter \<Rightarrow> u32 \<times> extended_counter" where
  "xc_update in_value c =
     (let delta = in_value - xc_previous c;
          current = xc_current c + ucast delta
      in (current, \<lparr>xc_current = current, xc_previous = in_value\<rparr>))"

text \<open>The counter follows a count \<open>n\<close> of which it sees the low 16 bits.\<close>

definition xc_at :: "nat \<Rightarrow> extended_counter \<Rightarrow> bool" where
  "xc_at n c \<longleftrightarrow> xc_current c = of_nat n \<and> xc_previous c = of_nat n"

lemma new_extended_counter_at: "xc_at 0 new_extended_counter"
  by (simp add: xc_at_def new_extended_counter_def)

lemma ucast_of_nat_diff:
  assumes "n \<le> m" and "m - n < 2 ^ 16"
  shows "(ucast (of_nat m - of_nat n :: u16) :: u32) = of_nat (m - n)"
proof -
  have "(of_nat m - of_nat n :: u16) = of_nat (m - n)" using assms(1) by (simp add: of_nat_diff)
  moreover have "unat (of_nat (m - n) :: u16) = m - n"
    by (simp only: unat_of_nat) (use assms(2) in simp)
  ultimately show ?thesis by (metis of_nat_unat)
qed

lemma xc_update_at:
  assumes "xc_at n c" and "n \<le> m" and "m - n < 2 ^ 16"
  shows "\<exists>c'. xc_update (of_nat m) c = (of_nat m, c') \<and> xc_at m c'"
proof -
  have "of_nat n + of_nat (m - n) = (of_nat m :: u32)" using assms(2) by (metis le_add_diff_inverse of_nat_add)
  then show ?thesis using assms ucast_of_nat_diff [OF assms(2,3)]
    by (simp add: xc_update_def xc_at_def Let_def)
qed

text \<open>So a sequence of counts, each fewer than \<open>2^16\<close> after the one before, comes out whole.\<close>

fun xc_updates :: "u16 list \<Rightarrow> extended_counter \<Rightarrow> u32 list" where
  "xc_updates [] c = []"
| "xc_updates (v # vs) c = (let (x, c') = xc_update v c in x # xc_updates vs c')"

lemma xc_updates_at:
  "xc_at n c \<Longrightarrow> successively (\<lambda>a b. a \<le> b \<and> b - a < 2 ^ 16) (n # ms) \<Longrightarrow>
   xc_updates (map of_nat ms) c = map of_nat ms"
proof (induction ms arbitrary: n c)
  case Nil
  then show ?case by simp
next
  case (Cons m ms)
  from Cons.prems obtain c' where c': "xc_update (of_nat m) c = (of_nat m, c')" "xc_at m c'"
    using xc_update_at [of n c m] by auto
  with Cons.IH [OF c'(2)] Cons.prems(2) show ?case by simp
qed

end
