(* ===== verification/Roce_Packets.thy ===== *)
theory Roce_Packets
  imports Frame_Metadata
begin

text \<open>
  The packets of the emulated data plane: the headers of \<open>RoCEv2Transmitter\<close>
  (src/src/hololink/emulation/src/linux/rocev2_transmitter.cpp and .hpp), the serializing of a
  packet with its CRC, and the metadata block of emulation/base_transmitter.hpp and
  emulation/src/common/base_transmitter.cpp. The CRC function of zlib is a parameter.
\<close>

subsection \<open>Headers\<close>

record ip_header =
  ip_ihl :: "4 word"
  ip_version :: "4 word"
  ip_tos :: u8
  ip_tot_len :: u16
  ip_id :: u16
  ip_frag_off :: u16
  ip_ttl :: u8
  ip_protocol :: u8
  ip_check :: u16
  ip_saddr :: u32
  ip_daddr :: u32

record udp_header =
  udp_source :: u16
  udp_dest :: u16
  udp_len :: u16
  udp_check :: u16

record bt_header =
  bt_opcode :: u8
  bt_flags :: u8
  bt_p_key :: u16
  bt_qp :: u32
  bt_psn :: u32

record ret_header =
  ret_vaddress :: u64
  ret_rkey :: u32
  ret_content_size :: u32

record roce_headers =
  ip_h :: ip_header
  udp_h :: udp_header
  bt_h :: bt_header
  ret_h :: ret_header

definition DEFAULT_LINUX_HEADERS :: roce_headers where
  "DEFAULT_LINUX_HEADERS =
     \<lparr>ip_h = \<lparr>ip_ihl = 5, ip_version = 4, ip_tos = 0, ip_tot_len = 0, ip_id = 0, ip_frag_off = 0x4000,
              ip_ttl = 64, ip_protocol = 17, ip_check = 0, ip_saddr = 0, ip_daddr = 0\<rparr>,
      udp_h = \<lparr>udp_source = 0, udp_dest = 0, udp_len = 0, udp_check = 0\<rparr>,
      bt_h = \<lparr>bt_opcode = 0, bt_flags = 0, bt_p_key = 0xFFFF, bt_qp = 0, bt_psn = 0\<rparr>,
      ret_h = \<lparr>ret_vaddress = 0, ret_rkey = 0, ret_content_size = 0\<rparr>\<rparr>"

definition IB_OPCODE_WRITE :: u8 where "IB_OPCODE_WRITE = 0x2A"
definition IB_OPCODE_WRITE_IMMEDIATE :: u8 where "IB_OPCODE_WRITE_IMMEDIATE = 0x2B"
definition IB_PSN_MASK :: u32 where "IB_PSN_MASK = 0xFFFFF"
definition IB_PSN_SHIFT :: nat where "IB_PSN_SHIFT = 12"
definition HSB_PAGE_SIZE :: u32 where "HSB_PAGE_SIZE = 128"
definition MESG_SIZE :: nat where "MESG_SIZE = 10240"
definition FRAME_METADATA_SIZE :: nat where "FRAME_METADATA_SIZE = 128"

abbreviation (input) "IP_HEADER_SIZE \<equiv> 20 :: nat"
abbreviation (input) "UDP_HEADER_SIZE \<equiv> 8 :: nat"
abbreviation (input) "BT_HEADER_SIZE \<equiv> 12 :: nat"
abbreviation (input) "RET_HEADER_SIZE \<equiv> 16 :: nat"
abbreviation (input) "UDP_PAYLOAD_OFFSET \<equiv> 28 :: nat"
abbreviation (input) "IB_PAYLOAD_OFFSET \<equiv> 56 :: nat"

text \<open>
  The serializing functions return the number of bytes written, and 0 on failure, when the
  source leaves the state of the serializer open; here it is then the one from before.
\<close>

definition serialized :: "serializer \<Rightarrow> serializer option \<Rightarrow> nat \<times> serializer" where
  "serialized s r = (case r of None \<Rightarrow> (0, s) | Some s' \<Rightarrow> (s_length s' - s_length s, s'))"

definition serialize_ip_header :: "serializer \<Rightarrow> ip_header \<Rightarrow> nat \<times> serializer" where
  "serialize_ip_header s h = serialized s
     (Option.bind (append_uint8 s (push_bit 4 (ucast (ip_version h)) OR ucast (ip_ihl h))) (\<lambda>s.
      Option.bind (append_uint8 s (ip_tos h)) (\<lambda>s.
      Option.bind (append_uint16_be s (ip_tot_len h)) (\<lambda>s.
      Option.bind (append_uint16_be s (ip_id h)) (\<lambda>s.
      Option.bind (append_uint16_be s (ip_frag_off h)) (\<lambda>s.
      Option.bind (append_uint8 s (ip_ttl h)) (\<lambda>s.
      Option.bind (append_uint8 s (ip_protocol h)) (\<lambda>s.
      Option.bind (append_uint16_be s (ip_check h)) (\<lambda>s.
      Option.bind (append_uint32_be s (ip_saddr h)) (\<lambda>s.
      append_uint32_be s (ip_daddr h)))))))))))"

definition serialize_udp_header :: "serializer \<Rightarrow> udp_header \<Rightarrow> nat \<times> serializer" where
  "serialize_udp_header s h = serialized s
     (Option.bind (append_uint16_be s (udp_source h)) (\<lambda>s.
      Option.bind (append_uint16_be s (udp_dest h)) (\<lambda>s.
      Option.bind (append_uint16_be s (udp_len h)) (\<lambda>s.
      append_uint16_be s (udp_check h)))))"

definition serialize_bt_header :: "serializer \<Rightarrow> bt_header \<Rightarrow> nat \<times> serializer" where
  "serialize_bt_header s h = serialized s
     (Option.bind (append_uint8 s (bt_opcode h)) (\<lambda>s.
      Option.bind (append_uint8 s (bt_flags h)) (\<lambda>s.
      Option.bind (append_uint16_be s (bt_p_key h)) (\<lambda>s.
      Option.bind (append_uint32_be s (bt_qp h)) (\<lambda>s.
      append_uint32_be s (bt_psn h))))))"

definition serialize_ret_header :: "serializer \<Rightarrow> ret_header \<Rightarrow> nat \<times> serializer" where
  "serialize_ret_header s h = serialized s
     (Option.bind (append_uint64_be s (ret_vaddress h)) (\<lambda>s.
      Option.bind (append_uint32_be s (ret_rkey h)) (\<lambda>s.
      append_uint32_be s (ret_content_size h))))"

text \<open>Their bytes on the wire.\<close>

definition ip_header_bytes :: "ip_header \<Rightarrow> bytes" where
  "ip_header_bytes h =
     be_bytes 1 (push_bit 4 (ucast (ip_version h)) OR ucast (ip_ihl h) :: u8) @ be_bytes 1 (ip_tos h) @
     be_bytes 2 (ip_tot_len h) @ be_bytes 2 (ip_id h) @ be_bytes 2 (ip_frag_off h) @
     be_bytes 1 (ip_ttl h) @ be_bytes 1 (ip_protocol h) @ be_bytes 2 (ip_check h) @
     be_bytes 4 (ip_saddr h) @ be_bytes 4 (ip_daddr h)"

definition udp_header_bytes :: "udp_header \<Rightarrow> bytes" where
  "udp_header_bytes h =
     be_bytes 2 (udp_source h) @ be_bytes 2 (udp_dest h) @ be_bytes 2 (udp_len h) @ be_bytes 2 (udp_check h)"

definition bt_header_bytes :: "bt_header \<Rightarrow> bytes" where
  "bt_header_bytes h =
     be_bytes 1 (bt_opcode h) @ be_bytes 1 (bt_flags h) @ be_bytes 2 (bt_p_key h) @
     be_bytes 4 (bt_qp h) @ be_bytes 4 (bt_psn h)"

definition ret_header_bytes :: "ret_header \<Rightarrow> bytes" where
  "ret_header_bytes h =
     be_bytes 8 (ret_vaddress h) @ be_bytes 4 (ret_rkey h) @ be_bytes 4 (ret_content_size h)"

lemma length_roce_bytes [simp]:
  "length (ip_header_bytes i) = 20" "length (udp_header_bytes u) = 8"
  "length (bt_header_bytes b) = 12" "length (ret_header_bytes r) = 16"
  by (simp_all add: ip_header_bytes_def udp_header_bytes_def bt_header_bytes_def ret_header_bytes_def)

lemma put_bytes_append: "put_bytes p (a @ b) buf = put_bytes (p + length a) b (put_bytes p a buf)"
  by (induction a arbitrary: p buf) simp_all

text \<open>A chain of appends is one append of all the bytes.\<close>

lemma append_bytes_append:
  assumes "s_ok s" and "length a + length b < 2 ^ 32"
  shows "Option.bind (append_bytes s a) (\<lambda>s'. append_bytes s' b) = append_bytes s (a @ b)"
proof -
  have sum: "s_position s + (length a + length b) < 2 ^ 33" using assms by (simp add: s_ok_def)
  then have add: "size_add (s_position s) (length a) = s_position s + length a"
      "size_add (s_position s + length a) (length b) = s_position s + length a + length b"
      "size_add (s_position s) (length a + length b) = s_position s + (length a + length b)"
    by (simp_all add: size_add_def)
  show ?thesis by (simp add: append_bytes_def add put_bytes_append)
qed

lemma appends:
  "append_uint8 s (v1 :: u8) = append_bytes s (be_bytes 1 v1)"
  "append_uint16_be s v2 = append_bytes s (be_bytes 2 v2)"
  "append_uint32_be s v4 = append_bytes s (be_bytes 4 v4)"
  "append_uint64_be s v8 = append_bytes s (be_bytes 8 v8)"
  "append_buffer s bs = append_bytes s bs"
  by (simp_all only: append_uint8_def append_uint16_be_def append_uint32_be_def append_uint64_be_def
      append_buffer_def enc_be)

lemma bind_append_bytes:
  assumes "s_ok s" and "\<And>s'. s_ok s' \<Longrightarrow> f s' = append_bytes s' b" and "length a + length b < 2 ^ 32"
  shows "Option.bind (append_bytes s a) f = append_bytes s (a @ b)"
proof (cases "length a \<le> room s")
  case True
  then obtain s' where "append_bytes s a = Some s'" "s_ok s'"
    using append_bytes_room [OF assms(1)] by blast
  then show ?thesis using assms(2) append_bytes_append [OF assms(1,3)] by simp
next
  case False
  then have "append_bytes s a = None" using append_bytes_full [OF assms(1)] assms(3) by simp
  then show ?thesis using append_bytes_append [OF assms(1,3)] by simp
qed

lemma serialize_ip_header_eq:
  "s_ok s \<Longrightarrow> serialize_ip_header s h = serialized s (append_bytes s (ip_header_bytes h))"
  unfolding serialize_ip_header_def ip_header_bytes_def appends
  by (intro arg_cong2 [where f = serialized] refl bind_append_bytes; simp)

lemma serialize_udp_header_eq:
  "s_ok s \<Longrightarrow> serialize_udp_header s h = serialized s (append_bytes s (udp_header_bytes h))"
  unfolding serialize_udp_header_def udp_header_bytes_def appends
  by (intro arg_cong2 [where f = serialized] refl bind_append_bytes; simp)

lemma serialize_bt_header_eq:
  "s_ok s \<Longrightarrow> serialize_bt_header s h = serialized s (append_bytes s (bt_header_bytes h))"
  unfolding serialize_bt_header_def bt_header_bytes_def appends
  by (intro arg_cong2 [where f = serialized] refl bind_append_bytes; simp)

lemma serialize_ret_header_eq:
  "s_ok s \<Longrightarrow> serialize_ret_header s h = serialized s (append_bytes s (ret_header_bytes h))"
  unfolding serialize_ret_header_def ret_header_bytes_def appends
  by (intro arg_cong2 [where f = serialized] refl bind_append_bytes; simp)

text \<open>So each writes its bytes at the position, when there is room for them.\<close>

lemma serialized_room:
  assumes "s_ok s" and "length bs \<le> room s"
  shows "serialized s (append_bytes s bs) =
    (length bs, s\<lparr>s_buffer := put_bytes (s_position s) bs (s_buffer s), s_position := s_position s + length bs\<rparr>)"
proof -
  have "s_position s + length bs < 2 ^ 32" "s_position s + length bs \<le> s_limit s" "s_position s < 2 ^ 32"
    using assms by (auto simp: s_ok_def room_def)
  then show ?thesis by (simp add: serialized_def append_bytes_def size_add_def s_length_def)
qed


subsection \<open>Packets\<close>

text \<open>
  \<open>update_crc\<close>: zlib's CRC of eight bytes \<open>0xFF\<close> and the packet, copied behind the packet in
  the byte order of the machine.
\<close>

type_synonym crc_function = "u32 \<Rightarrow> bytes \<Rightarrow> u32"

definition update_crc :: "crc_function \<Rightarrow> bytes \<Rightarrow> nat \<Rightarrow> nat \<Rightarrow> bool \<times> bytes" where
  "update_crc crc32 buffer buffer_size content_size =
     (if buffer_size < content_size + 4 then (False, buffer)
      else let crc = crc32 (crc32 0 (replicate 8 0xFF)) (take content_size buffer)
           in (True, put_bytes content_size (le_bytes 4 crc) buffer))"

text \<open>
  \<open>serialize_packet\<close> gives the size of the message (0 on failure), the headers with their
  lengths filled in, and the buffer. The headers are written twice: with the fields that routers
  change masked, for the CRC, and then as they are. Without \<open>content\<close> (a null pointer) the
  payload is what is in the buffer. The assertion of the source, that the message has at most
  65535 bytes, holds in every buffer of that size.
\<close>

definition message_lengths :: "nat \<Rightarrow> roce_headers \<Rightarrow> roce_headers" where
  "message_lengths message_size headers =
     headers\<lparr>ip_h := (ip_h headers)\<lparr>ip_tot_len := of_nat message_size\<rparr>,
             udp_h := (udp_h headers)\<lparr>udp_len := of_nat (message_size - IP_HEADER_SIZE)\<rparr>\<rparr>"

definition crc_ip_header :: "ip_header \<Rightarrow> ip_header" where
  "crc_ip_header h = h\<lparr>ip_tos := 0xFF, ip_ttl := 0xFF, ip_check := 0xFFFF\<rparr>"

definition crc_udp_header :: "udp_header \<Rightarrow> udp_header" where
  "crc_udp_header h = h\<lparr>udp_check := 0xFFFF\<rparr>"

definition serialize_packet ::
  "crc_function \<Rightarrow> roce_headers \<Rightarrow> bytes \<Rightarrow> nat \<Rightarrow> bytes option \<Rightarrow> nat \<times> roce_headers \<times> bytes" where
  "serialize_packet crc32 headers0 buffer buffer_size content =
     (let content_size = unat (ret_content_size (ret_h headers0));
          crc_offset = IB_PAYLOAD_OFFSET + content_size;
          message_size = crc_offset + 4 in
      if buffer_size < message_size then (0, headers0, buffer) else
      let headers = message_lengths message_size headers0;
          (ip_n, s) = serialize_ip_header (new_serializer buffer buffer_size) (crc_ip_header (ip_h headers)) in
      if ip_n \<noteq> IP_HEADER_SIZE then (0, headers, s_buffer s) else
      let (udp_n, s) = serialize_udp_header s (crc_udp_header (udp_h headers)) in
      if udp_n \<noteq> UDP_HEADER_SIZE then (0, headers, s_buffer s) else
      let (bt_n, s) = serialize_bt_header s (bt_h headers) in
      if bt_n \<noteq> BT_HEADER_SIZE then (0, headers, s_buffer s) else
      let (ret_n, s) = serialize_ret_header s (ret_h headers) in
      if ret_n \<noteq> RET_HEADER_SIZE then (0, headers, s_buffer s) else
      let buffer = (case content of
            None \<Rightarrow> s_buffer s
          | Some bs \<Rightarrow> put_bytes IB_PAYLOAD_OFFSET (take content_size bs) (s_buffer s));
          buffer = snd (update_crc crc32 buffer buffer_size crc_offset);
          (ip_n, s) = serialize_ip_header (new_serializer buffer buffer_size) (ip_h headers) in
      if ip_n \<noteq> IP_HEADER_SIZE then (0, headers, s_buffer s) else
      let (udp_n, s) = serialize_udp_header s (udp_h headers) in
      if udp_n \<noteq> UDP_HEADER_SIZE then (0, headers, s_buffer s) else
      (message_size, headers, s_buffer s))"

text \<open>The packet it makes.\<close>

definition packet_crc :: "crc_function \<Rightarrow> roce_headers \<Rightarrow> bytes \<Rightarrow> u32" where
  "packet_crc crc32 h payload =
     crc32 (crc32 0 (replicate 8 0xFF))
       (ip_header_bytes (crc_ip_header (ip_h h)) @ udp_header_bytes (crc_udp_header (udp_h h)) @
        bt_header_bytes (bt_h h) @ ret_header_bytes (ret_h h) @ payload)"

definition packet_bytes :: "crc_function \<Rightarrow> roce_headers \<Rightarrow> bytes \<Rightarrow> bytes" where
  "packet_bytes crc32 h payload =
     ip_header_bytes (ip_h h) @ udp_header_bytes (udp_h h) @ bt_header_bytes (bt_h h) @
     ret_header_bytes (ret_h h) @ payload @ le_bytes 4 (packet_crc crc32 h payload)"

lemma length_packet_bytes [simp]: "length (packet_bytes crc32 h payload) = 60 + length payload"
  by (simp add: packet_bytes_def)

text \<open>Writing over a list that is laid out in parts.\<close>

lemma put_bytes_over:
  "length a = p \<Longrightarrow> length b = length b' \<Longrightarrow> put_bytes p b' (a @ b @ c) = a @ b' @ c"
  by (simp add: put_bytes_split)

lemma put_bytes_parts:
  assumes "length a = p" and "length bs \<le> length c"
  shows "put_bytes p bs (a @ c) = a @ bs @ drop (length bs) c"
  using assms by (simp add: put_bytes_split)

lemma serialized_at:
  assumes "length buf = sz" and "sz < 2 ^ 32" and "p + length bs \<le> sz"
  shows "serialized \<lparr>s_buffer = buf, s_limit = sz, s_position = p\<rparr>
      (append_bytes \<lparr>s_buffer = buf, s_limit = sz, s_position = p\<rparr> bs) =
    (length bs, \<lparr>s_buffer = put_bytes p bs buf, s_limit = sz, s_position = p + length bs\<rparr>)"
  using assms serialized_room [of "\<lparr>s_buffer = buf, s_limit = sz, s_position = p\<rparr>" bs]
  by (simp add: s_ok_def room_def)

lemma s_ok_at:
  "length buf = sz \<Longrightarrow> sz < 2 ^ 32 \<Longrightarrow> p \<le> sz \<Longrightarrow> s_ok \<lparr>s_buffer = buf, s_limit = sz, s_position = p\<rparr>"
  by (simp add: s_ok_def)

lemmas serialize_at = serialize_ip_header_eq serialize_udp_header_eq serialize_bt_header_eq
  serialize_ret_header_eq new_serializer_def serialized_at s_ok_at

lemma serialize_packet_bytes:
  assumes size: "length buffer = buffer_size" "buffer_size < 2 ^ 32"
    and n: "unat (ret_content_size (ret_h headers)) = n" and fits: "60 + n \<le> buffer_size"
    and payload: "case content of None \<Rightarrow> payload = take n (drop 56 buffer) | Some bs \<Rightarrow> payload = take n bs \<and> n \<le> length bs"
  shows "serialize_packet crc32 headers buffer buffer_size content =
    (60 + n, message_lengths (60 + n) headers,
     packet_bytes crc32 (message_lengths (60 + n) headers) payload @ drop (60 + n) buffer)"
proof -
  let ?h = "message_lengths (60 + n) headers"
  let ?ip = "ip_header_bytes (crc_ip_header (ip_h ?h))" and ?udp = "udp_header_bytes (crc_udp_header (udp_h ?h))"
  let ?bt = "bt_header_bytes (bt_h ?h)" and ?ret = "ret_header_bytes (ret_h ?h)"
  let ?crc = "le_bytes 4 (packet_crc crc32 ?h payload)"
  have n_payload: "length payload = n" using payload fits size(1) by (auto split: option.splits)
  define rest where "rest = drop 56 buffer"
  have len_rest: "4 + n \<le> length rest" using fits size(1) by (simp add: rest_def)
  have headers: "put_bytes 40 ?ret (put_bytes 28 ?bt (put_bytes 20 ?udp (put_bytes 0 ?ip buffer))) =
      ?ip @ ?udp @ ?bt @ ?ret @ rest"
    using fits size(1) by (simp add: put_bytes_split rest_def)
  have content: "(case content of None \<Rightarrow> ?ip @ ?udp @ ?bt @ ?ret @ rest
      | Some bs \<Rightarrow> put_bytes 56 (take n bs) (?ip @ ?udp @ ?bt @ ?ret @ rest)) =
      ?ip @ ?udp @ ?bt @ ?ret @ payload @ drop n rest"
    using payload len_rest unfolding rest_def [symmetric] by (auto simp: put_bytes_split split: option.splits)
  define image where "image = ?ip @ ?udp @ ?bt @ ?ret @ payload @ ?crc @ drop (4 + n) rest"
  have crc: "update_crc crc32 (?ip @ ?udp @ ?bt @ ?ret @ payload @ drop n rest) buffer_size (56 + n) = (True, image)"
    unfolding image_def using fits len_rest n_payload by (simp add: update_crc_def put_bytes_split packet_crc_def Let_def)
  have real: "put_bytes 20 (udp_header_bytes (udp_h ?h)) (put_bytes 0 (ip_header_bytes (ip_h ?h)) image) =
      packet_bytes crc32 ?h payload @ drop (60 + n) buffer"
    unfolding image_def using fits len_rest n_payload by (simp add: put_bytes_split packet_bytes_def rest_def add.commute)
  have ret: "ret_content_size (ret_h ?h) = ret_content_size (ret_h headers)"
    by (simp add: message_lengths_def)
  have len: "length image = buffer_size"
    unfolding image_def using len_rest n_payload fits size(1) by (simp add: rest_def)
  note s = size(1) fits size(2)
  show ?thesis
    using s unfolding serialize_packet_def Let_def n
    by (simp add: serialize_at headers content crc len real del: append_assoc cong del: option.case_cong_weak)
qed


subsection \<open>The metadata block\<close>

record tx_metadata =
  tx_flags :: u32
  tx_psn :: u32
  tx_crc :: u32
  tx_timestamp_s_high :: u32
  tx_timestamp_s_low :: u32
  tx_timestamp_ns :: u32
  tx_bytes_written_high :: u32
  tx_bytes_written_low :: u32
  tx_frame_number :: u32
  tx_metadata_s_high :: u32
  tx_metadata_s_low :: u32
  tx_metadata_ns :: u32
  tx_reserved :: bytes

definition serialize_frame_metadata :: "serializer \<Rightarrow> tx_metadata \<Rightarrow> nat \<times> serializer" where
  "serialize_frame_metadata s m = serialized s
     (Option.bind (append_uint32_be s (tx_flags m)) (\<lambda>s.
      Option.bind (append_uint32_be s (tx_psn m)) (\<lambda>s.
      Option.bind (append_uint32_be s (tx_crc m)) (\<lambda>s.
      Option.bind (append_uint32_be s (tx_timestamp_s_high m)) (\<lambda>s.
      Option.bind (append_uint32_be s (tx_timestamp_s_low m)) (\<lambda>s.
      Option.bind (append_uint32_be s (tx_timestamp_ns m)) (\<lambda>s.
      Option.bind (append_uint32_be s (tx_bytes_written_high m)) (\<lambda>s.
      Option.bind (append_uint32_be s (tx_bytes_written_low m)) (\<lambda>s.
      Option.bind (append_uint32_be s (tx_frame_number m)) (\<lambda>s.
      Option.bind (append_uint32_be s (tx_metadata_s_high m)) (\<lambda>s.
      Option.bind (append_uint32_be s (tx_metadata_s_low m)) (\<lambda>s.
      Option.bind (append_uint32_be s (tx_metadata_ns m)) (\<lambda>s.
      append_buffer s (tx_reserved m))))))))))))))"

definition tx_metadata_bytes :: "tx_metadata \<Rightarrow> bytes" where
  "tx_metadata_bytes m =
     be_bytes 4 (tx_flags m) @ be_bytes 4 (tx_psn m) @ be_bytes 4 (tx_crc m) @
     be_bytes 4 (tx_timestamp_s_high m) @ be_bytes 4 (tx_timestamp_s_low m) @ be_bytes 4 (tx_timestamp_ns m) @
     be_bytes 4 (tx_bytes_written_high m) @ be_bytes 4 (tx_bytes_written_low m) @
     be_bytes 4 (tx_frame_number m) @ be_bytes 4 (tx_metadata_s_high m) @
     be_bytes 4 (tx_metadata_s_low m) @ be_bytes 4 (tx_metadata_ns m) @ tx_reserved m"

lemma length_tx_metadata_bytes [simp]: "length (tx_metadata_bytes m) = 48 + length (tx_reserved m)"
  by (simp add: tx_metadata_bytes_def)

lemma serialize_frame_metadata_eq:
  "s_ok s \<Longrightarrow> length (tx_reserved m) = 80 \<Longrightarrow>
   serialize_frame_metadata s m = serialized s (append_bytes s (tx_metadata_bytes m))"
  unfolding serialize_frame_metadata_def tx_metadata_bytes_def appends
  by (intro arg_cong2 [where f = serialized] refl bind_append_bytes; simp)

text \<open>The metadata argument: the default, or metadata of the caller's.\<close>

datatype metadata_argument = Default_metadata | Given_metadata tx_metadata

definition default_metadata ::
  "timespec \<Rightarrow> timespec \<Rightarrow> u64 \<Rightarrow> u32 \<Rightarrow> u32 \<Rightarrow> tx_metadata" where
  "default_metadata frame_start meta_time n_bytes_sent frame_number psn =
     \<lparr>tx_flags = 0, tx_psn = psn, tx_crc = 0,
      tx_timestamp_s_high = ucast (drop_bit 32 (tv_sec frame_start)),
      tx_timestamp_s_low = ucast (tv_sec frame_start AND 0xFFFFFFFF),
      tx_timestamp_ns = ucast (tv_nsec frame_start),
      tx_bytes_written_high = ucast (drop_bit 32 n_bytes_sent),
      tx_bytes_written_low = ucast (n_bytes_sent AND 0xFFFFFFFF),
      tx_frame_number = frame_number,
      tx_metadata_s_high = ucast (drop_bit 32 (tv_sec meta_time)),
      tx_metadata_s_low = ucast (tv_sec meta_time AND 0xFFFFFFFF),
      tx_metadata_ns = ucast (tv_nsec meta_time),
      tx_reserved = replicate 80 0\<rparr>"

definition immediate_value :: "u16 \<Rightarrow> u32 \<Rightarrow> u32" where
  "immediate_value page psn = ucast page OR push_bit IB_PSN_SHIFT (psn AND IB_PSN_MASK)"

text \<open>\<open>write_frame_metadata\<close>: the immediate value, which the size does not count, and the block.\<close>

definition write_frame_metadata ::
  "bytes \<Rightarrow> nat \<Rightarrow> timespec \<Rightarrow> timespec \<Rightarrow> u64 \<Rightarrow> u32 \<Rightarrow> u32 \<Rightarrow> u16 \<Rightarrow> metadata_argument \<Rightarrow> nat \<times> bytes" where
  "write_frame_metadata buffer buffer_size frame_start meta_time n_bytes_sent frame_number psn page arg =
     (let m = (case arg of
            Default_metadata \<Rightarrow> default_metadata frame_start meta_time n_bytes_sent frame_number psn
          | Given_metadata m \<Rightarrow> m);
          s = new_serializer buffer buffer_size;
          s = (case append_uint32_be s (immediate_value page psn) of None \<Rightarrow> s | Some s' \<Rightarrow> s');
          (n, s) = serialize_frame_metadata s m in
      if n \<noteq> FRAME_METADATA_SIZE then (0, s_buffer s) else (n, s_buffer s))"

definition metadata_of :: "timespec \<Rightarrow> timespec \<Rightarrow> u64 \<Rightarrow> u32 \<Rightarrow> u32 \<Rightarrow> metadata_argument \<Rightarrow> tx_metadata" where
  "metadata_of frame_start meta_time n_bytes_sent frame_number psn arg =
     (case arg of
        Default_metadata \<Rightarrow> default_metadata frame_start meta_time n_bytes_sent frame_number psn
      | Given_metadata m \<Rightarrow> m)"

definition argument_ok :: "metadata_argument \<Rightarrow> bool" where
  "argument_ok arg \<longleftrightarrow> (case arg of Default_metadata \<Rightarrow> True | Given_metadata m \<Rightarrow> length (tx_reserved m) = 80)"

lemma length_metadata_of [simp]:
  "argument_ok arg \<Longrightarrow> length (tx_reserved (metadata_of fs mt nb fn psn arg)) = 80"
  by (cases arg) (simp_all add: argument_ok_def metadata_of_def default_metadata_def)

lemma write_frame_metadata_bytes:
  assumes "132 \<le> length buffer" and "argument_ok arg"
  shows "write_frame_metadata buffer 132 fs mt nb fn psn page arg =
    (128, be_bytes 4 (immediate_value page psn) @ tx_metadata_bytes (metadata_of fs mt nb fn psn arg) @
          drop 132 buffer)"
proof -
  let ?m = "metadata_of fs mt nb fn psn arg"
  let ?s = "\<lparr>s_buffer = put_bytes 0 (be_bytes 4 (immediate_value page psn)) buffer, s_limit = 132, s_position = 4\<rparr>"
  have imm: "append_uint32_be (new_serializer buffer 132) (immediate_value page psn) = Some ?s"
    by (simp add: appends append_bytes_def new_serializer_def size_add_def)
  have ok: "s_ok ?s" using assms(1) by (simp add: s_ok_def)
  have md: "serialize_frame_metadata ?s ?m = (128, \<lparr>s_buffer = put_bytes 4 (tx_metadata_bytes ?m)
      (put_bytes 0 (be_bytes 4 (immediate_value page psn)) buffer), s_limit = 132, s_position = 132\<rparr>)"
    using serialized_room [OF ok, of "tx_metadata_bytes ?m"] assms(2)
    by (simp add: serialize_frame_metadata_eq [OF ok] room_def)
  show ?thesis
    using assms md unfolding write_frame_metadata_def metadata_of_def [symmetric]
    by (simp add: imm FRAME_METADATA_SIZE_def put_bytes_split)
qed


end
