(* ===== verification/Bootp.thy ===== *)
theory Bootp
  imports Roce_Packets
begin

text \<open>
  How the board announces itself: the configuration of the emulator (src/src/hololink/emulation:
  hsb_config.hpp, src/common/hsb_config.cpp) and the BOOTP packets that a \<open>DataPlane\<close> broadcasts
  (data_plane.hpp, src/linux/data_plane.cpp, src/common/data_plane.cpp). The socket and the thread
  that sends a packet every second are not modelled; the clock is an argument.
\<close>

subsection \<open>Configuration\<close>

record hsb_configuration =
  cf_tag :: u8
  cf_tag_length :: u8
  cf_vendor_id :: bytes
  cf_data_plane :: u8
  cf_enum_version :: u8
  cf_board_id_lo :: u8
  cf_board_id_hi :: u8
  cf_uuid :: bytes
  cf_serial_num :: bytes
  cf_hsb_ip_version :: u16
  cf_fpga_crc :: u16
  cf_sensor_count :: u8
  cf_data_plane_count :: u8
  cf_sifs_per_sensor :: u8

definition HSB_EMULATOR_CONFIG :: hsb_configuration where
  "HSB_EMULATOR_CONFIG =
     \<lparr>cf_tag = 0xE0, cf_tag_length = 0x04, cf_vendor_id = [0x4E, 0x56, 0x44, 0x41], cf_data_plane = 0,
      cf_enum_version = 2, cf_board_id_lo = 0, cf_board_id_hi = 0,
      cf_uuid = [0x16, 0xaf, 0x13, 0x9b, 0x9d, 0x14, 0x48, 0x2f, 0x98, 0x05, 0x3f, 0xeb, 0x72, 0xae, 0x0c, 0xec,
        0, 0, 0, 0],
      cf_serial_num = [3, 1, 4, 1, 5, 9, 3], cf_hsb_ip_version = 0x2602, cf_fpga_crc = 0x5AA5,
      cf_sensor_count = 1, cf_data_plane_count = 1, cf_sifs_per_sensor = 1\<rparr>"

definition HSB_LEOPARD_EAGLE_CONFIG :: hsb_configuration where
  "HSB_LEOPARD_EAGLE_CONFIG = HSB_EMULATOR_CONFIG
     \<lparr>cf_uuid := [0xf1, 0x62, 0x76, 0x40, 0xb4, 0xdc, 0x48, 0xaf, 0xa3, 0x60, 0xc5, 0x5b, 0x09, 0xb3, 0xd2, 0x30,
        0, 0, 0, 0],
      cf_sensor_count := 3\<rparr>"

text \<open>What is wrong with a configuration, if anything; an 8-bit count is never above 256.\<close>

definition validate_configuration :: "hsb_configuration \<Rightarrow> string option" where
  "validate_configuration cf =
     (if 32 < unat (cf_sensor_count cf) then Some ''sensor_count exceeds MAX_SENSORS''
      else if 256 < unat (cf_data_plane_count cf) then Some ''data_plane_count exceeds MAX_DATA_PLANES''
      else if 32 < unat (cf_sifs_per_sensor cf) then Some ''sifs_per_sensor exceeds MAX_SIFS_PER_SENSOR''
      else if 32 < unat (cf_sensor_count cf) * unat (cf_sifs_per_sensor cf) then Some ''sifs count exceeds MAX_SIFS''
      else None)"

record ip_address =
  ia_address :: u32
  ia_subnet_mask :: u32
  ia_broadcast_address :: u32
  ia_mac :: bytes
  ia_port :: u16
  ia_flags :: u8

definition IPADDRESS_HAS_ADDR :: u8 where "IPADDRESS_HAS_ADDR = 0x01"
definition IPADDRESS_HAS_NETMASK :: u8 where "IPADDRESS_HAS_NETMASK = 0x02"
definition IPADDRESS_HAS_BROADCAST :: u8 where "IPADDRESS_HAS_BROADCAST = 0x04"
definition IPADDRESS_IS_PTP :: u8 where "IPADDRESS_IS_PTP = 0x40"

definition get_broadcast_address :: "ip_address \<Rightarrow> hsb_error + u32" where
  "get_broadcast_address a =
     (if ia_flags a AND IPADDRESS_IS_PTP \<noteq> 0 then Inr 0xFFFFFFFF
      else if ia_flags a AND IPADDRESS_HAS_BROADCAST = 0 then
        (if \<not> (ia_flags a AND IPADDRESS_HAS_NETMASK \<noteq> 0 \<and> ia_flags a AND IPADDRESS_HAS_ADDR \<noteq> 0)
         then Inl (Runtime_error ''broadcast address cannot be determined'')
         else Inr (ia_address a OR NOT (ia_subnet_mask a)))
      else Inr (ia_broadcast_address a))"

text \<open>\<open>DataPlane::init\<close>, the checks before the first packet.\<close>

definition data_plane_init :: "hsb_configuration \<Rightarrow> ip_address \<Rightarrow> u8 \<Rightarrow> u8 \<Rightarrow> hsb_error + unit" where
  "data_plane_init cf ip data_plane_id sensor_id =
     (if cf_data_plane_count cf \<le> data_plane_id then Inl (Runtime_error ''data_plane_id exceeds configured data_plane_count'')
      else if cf_sensor_count cf \<le> sensor_id then Inl (Runtime_error ''sensor_id exceeds configured sensor count'')
      else if ia_flags ip AND IPADDRESS_HAS_BROADCAST = 0 then Inl (Runtime_error ''Broadcast address not found'')
      else Inr ())"

subsection \<open>The packet\<close>

record bootp_packet =
  bp_op :: u8
  bp_htype :: u8
  bp_hlen :: u8
  bp_hops :: u8
  bp_xid :: u32
  bp_secs :: u16
  bp_flags :: u16
  bp_ciaddr :: u32
  bp_yiaddr :: u32
  bp_siaddr :: u32
  bp_giaddr :: u32
  bp_chaddr :: bytes
  bp_sname :: bytes
  bp_file :: bytes
  bp_vend :: bytes

definition BOOTP_SIZE :: nat where "BOOTP_SIZE = 300"

definition serialize_vendor_info :: "serializer \<Rightarrow> hsb_configuration \<Rightarrow> nat \<times> serializer" where
  "serialize_vendor_info s cf = serialized s
     (Option.bind (append_uint8 s (cf_tag cf)) (\<lambda>s.
      Option.bind (append_uint8 s (cf_tag_length cf)) (\<lambda>s.
      Option.bind (append_buffer s (cf_vendor_id cf)) (\<lambda>s.
      Option.bind (append_uint8 s (cf_data_plane cf)) (\<lambda>s.
      Option.bind (append_uint8 s (cf_enum_version cf)) (\<lambda>s.
      Option.bind (append_uint8 s (cf_board_id_lo cf)) (\<lambda>s.
      Option.bind (append_uint8 s (cf_board_id_hi cf)) (\<lambda>s.
      Option.bind (append_buffer s (cf_uuid cf)) (\<lambda>s.
      Option.bind (append_buffer s (cf_serial_num cf)) (\<lambda>s.
      Option.bind (append_uint16_le s (cf_hsb_ip_version cf)) (\<lambda>s.
      append_uint16_le s (cf_fpga_crc cf))))))))))))"

definition serialize_chaddr :: "serializer \<Rightarrow> bytes \<Rightarrow> nat \<times> serializer" where
  "serialize_chaddr s mac_address = serialized s (append_buffer s (take 6 mac_address))"

definition serialize_bootp_packet :: "serializer \<Rightarrow> bootp_packet \<Rightarrow> nat \<times> serializer" where
  "serialize_bootp_packet s p = serialized s
     (Option.bind (append_uint8 s (bp_op p)) (\<lambda>s.
      Option.bind (append_uint8 s (bp_htype p)) (\<lambda>s.
      Option.bind (append_uint8 s (bp_hlen p)) (\<lambda>s.
      Option.bind (append_uint8 s (bp_hops p)) (\<lambda>s.
      Option.bind (append_uint32_be s (bp_xid p)) (\<lambda>s.
      Option.bind (append_uint16_be s (bp_secs p)) (\<lambda>s.
      Option.bind (append_uint16_be s (bp_flags p)) (\<lambda>s.
      Option.bind (append_uint32_be s (bp_ciaddr p)) (\<lambda>s.
      Option.bind (append_uint32_be s (bp_yiaddr p)) (\<lambda>s.
      Option.bind (append_uint32_be s (bp_siaddr p)) (\<lambda>s.
      Option.bind (append_uint32_be s (bp_giaddr p)) (\<lambda>s.
      Option.bind (append_buffer s (bp_chaddr p)) (\<lambda>s.
      Option.bind (append_buffer s (bp_sname p)) (\<lambda>s.
      Option.bind (append_buffer s (bp_file p)) (\<lambda>s.
      append_buffer s (bp_vend p))))))))))))))))"

text \<open>Division that rounds toward zero, as in C.\<close>

definition c_div :: "int \<Rightarrow> int \<Rightarrow> int" where
  "c_div a b = sgn a * sgn b * (\<bar>a\<bar> div \<bar>b\<bar>)"

definition get_delta_msecs :: "timespec \<Rightarrow> timespec \<Rightarrow> u32" where
  "get_delta_msecs start_time end_time =
     (let diff_sec = sint (tv_sec end_time) - sint (tv_sec start_time);
          diff_nsec = sint (tv_nsec end_time) - sint (tv_nsec start_time)
      in word_of_int (diff_sec * 1000 + c_div diff_nsec 1000000))"

definition update_bootp_packet :: "timespec \<Rightarrow> timespec \<Rightarrow> bootp_packet \<Rightarrow> bootp_packet" where
  "update_bootp_packet start_time now p = p\<lparr>bp_secs := ucast (get_delta_msecs start_time now div 1000)\<rparr>"

definition init_bootp_packet :: "ip_address \<Rightarrow> hsb_configuration \<Rightarrow> hsb_error + bootp_packet" where
  "init_bootp_packet ip cf =
     (let p = \<lparr>bp_op = 1, bp_htype = 1, bp_hlen = 6, bp_hops = 0, bp_xid = ucast (cf_data_plane cf), bp_secs = 0,
               bp_flags = 0, bp_ciaddr = be_word (le_bytes 4 (ia_address ip)), bp_yiaddr = 0, bp_siaddr = 0,
               bp_giaddr = 0, bp_chaddr = replicate 16 0, bp_sname = replicate 64 0, bp_file = replicate 128 0,
               bp_vend = replicate 64 0\<rparr>;
          (mac_length, s) = serialize_chaddr (new_serializer (bp_chaddr p) 16) (ia_mac ip) in
      if mac_length \<noteq> 6 then Inl (Runtime_error ''Failed to initialize chaddr in bootp packet with local mac address'')
      else
        (let p = p\<lparr>bp_chaddr := s_buffer s\<rparr>;
             (vendor_length, s) = serialize_vendor_info (new_serializer (bp_vend p) 64) cf in
         if vendor_length = 0 then Inl (Runtime_error ''Failed to initialize vendor information in bootp packet'')
         else if 64 < vendor_length then Inl (Runtime_error ''buffer overrun serializing vendor info'')
         else Inr (p\<lparr>bp_vend := s_buffer s\<rparr>)))"

text \<open>One round of the broadcast: the bytes sent. The whole buffer goes out, however much was written.\<close>

definition bootp_message :: "timespec \<Rightarrow> timespec \<Rightarrow> bytes \<Rightarrow> bootp_packet \<Rightarrow> bytes \<times> bootp_packet" where
  "bootp_message start_time now buffer p0 =
     (let p = update_bootp_packet start_time now p0;
          (n, s) = serialize_bootp_packet (new_serializer buffer BOOTP_SIZE) p
      in (s_buffer s, p))"

text \<open>The configuration of a data plane is the board's with its own number.\<close>

definition data_plane_configuration :: "hsb_configuration \<Rightarrow> u8 \<Rightarrow> hsb_configuration" where
  "data_plane_configuration cf data_plane_id = cf\<lparr>cf_data_plane := data_plane_id\<rparr>"

subsection \<open>Their bytes\<close>

definition vendor_info_bytes :: "hsb_configuration \<Rightarrow> bytes" where
  "vendor_info_bytes cf =
     be_bytes 1 (cf_tag cf) @ be_bytes 1 (cf_tag_length cf) @ cf_vendor_id cf @ be_bytes 1 (cf_data_plane cf) @
     be_bytes 1 (cf_enum_version cf) @ be_bytes 1 (cf_board_id_lo cf) @ be_bytes 1 (cf_board_id_hi cf) @
     cf_uuid cf @ cf_serial_num cf @ le_bytes 2 (cf_hsb_ip_version cf) @ le_bytes 2 (cf_fpga_crc cf)"

definition bootp_bytes :: "bootp_packet \<Rightarrow> bytes" where
  "bootp_bytes p =
     be_bytes 1 (bp_op p) @ be_bytes 1 (bp_htype p) @ be_bytes 1 (bp_hlen p) @ be_bytes 1 (bp_hops p) @
     be_bytes 4 (bp_xid p) @ be_bytes 2 (bp_secs p) @ be_bytes 2 (bp_flags p) @ be_bytes 4 (bp_ciaddr p) @
     be_bytes 4 (bp_yiaddr p) @ be_bytes 4 (bp_siaddr p) @ be_bytes 4 (bp_giaddr p) @
     bp_chaddr p @ bp_sname p @ bp_file p @ bp_vend p"

definition configuration_ok :: "hsb_configuration \<Rightarrow> bool" where
  "configuration_ok cf \<longleftrightarrow> length (cf_vendor_id cf) = 4 \<and> length (cf_uuid cf) = 20 \<and> length (cf_serial_num cf) = 7"

definition bootp_ok :: "bootp_packet \<Rightarrow> bool" where
  "bootp_ok p \<longleftrightarrow> length (bp_chaddr p) = 16 \<and> length (bp_sname p) = 64 \<and> length (bp_file p) = 128 \<and> length (bp_vend p) = 64"

lemma length_vendor_info [simp]: "configuration_ok cf \<Longrightarrow> length (vendor_info_bytes cf) = 41"
  by (simp add: configuration_ok_def vendor_info_bytes_def)

lemma length_bootp_bytes [simp]: "bootp_ok p \<Longrightarrow> length (bootp_bytes p) = 300"
  by (simp add: bootp_ok_def bootp_bytes_def)

lemma append_le: "append_uint16_le s v = append_bytes s (le_bytes 2 v)"
  by (simp only: append_uint16_le_def enc_le)

lemma serialize_vendor_info_eq:
  "s_ok s \<Longrightarrow> configuration_ok cf \<Longrightarrow> serialize_vendor_info s cf = serialized s (append_bytes s (vendor_info_bytes cf))"
  unfolding serialize_vendor_info_def vendor_info_bytes_def appends append_le
  by (intro arg_cong2 [where f = serialized] refl bind_append_bytes; simp add: configuration_ok_def)

lemma serialize_bootp_packet_eq:
  "s_ok s \<Longrightarrow> bootp_ok p \<Longrightarrow> serialize_bootp_packet s p = serialized s (append_bytes s (bootp_bytes p))"
  unfolding serialize_bootp_packet_def bootp_bytes_def appends
  by (intro arg_cong2 [where f = serialized] refl bind_append_bytes; simp add: bootp_ok_def)

definition board_packet :: "ip_address \<Rightarrow> hsb_configuration \<Rightarrow> bootp_packet" where
  "board_packet ip cf =
     \<lparr>bp_op = 1, bp_htype = 1, bp_hlen = 6, bp_hops = 0, bp_xid = ucast (cf_data_plane cf), bp_secs = 0,
      bp_flags = 0, bp_ciaddr = be_word (le_bytes 4 (ia_address ip)), bp_yiaddr = 0, bp_siaddr = 0,
      bp_giaddr = 0, bp_chaddr = ia_mac ip @ replicate 10 0, bp_sname = replicate 64 0,
      bp_file = replicate 128 0, bp_vend = vendor_info_bytes cf @ replicate 23 0\<rparr>"

lemma board_packet_ok: "length (ia_mac ip) = 6 \<Longrightarrow> configuration_ok cf \<Longrightarrow> bootp_ok (board_packet ip cf)"
  by (simp add: bootp_ok_def board_packet_def)

lemma put_bytes_start: "length bs \<le> length buf \<Longrightarrow> put_bytes 0 bs buf = bs @ drop (length bs) buf"
  by (simp add: put_bytes_split)

lemma init_bootp_packet_run:
  assumes "length (ia_mac ip) = 6" and "configuration_ok cf"
  shows "init_bootp_packet ip cf = Inr (board_packet ip cf)"
proof -
  have mac: "serialize_chaddr (new_serializer (replicate 16 0) 16) (ia_mac ip) =
      (6, \<lparr>s_buffer = ia_mac ip @ replicate 10 0, s_limit = 16, s_position = 6\<rparr>)"
    using serialized_room [of "new_serializer (replicate 16 0) 16" "ia_mac ip"] assms(1)
    by (simp add: serialize_chaddr_def appends put_bytes_start) (simp add: new_serializer_def put_bytes_start)
  have vend: "serialize_vendor_info (new_serializer (replicate 64 0) 64) cf =
      (41, \<lparr>s_buffer = vendor_info_bytes cf @ replicate 23 0, s_limit = 64, s_position = 41\<rparr>)"
    using serialized_room [of "new_serializer (replicate 64 0) 64" "vendor_info_bytes cf"] assms(2)
    by (simp add: serialize_vendor_info_eq) (simp add: new_serializer_def put_bytes_start)
  show ?thesis by (simp add: init_bootp_packet_def mac vend Let_def board_packet_def)
qed

lemma bootp_message_bytes:
  assumes "bootp_ok p" and "length buffer = 300"
  shows "bootp_message t0 t buffer p = (bootp_bytes (update_bootp_packet t0 t p), update_bootp_packet t0 t p)"
proof -
  have ok: "bootp_ok (update_bootp_packet t0 t p)" using assms(1) by (simp add: bootp_ok_def update_bootp_packet_def)
  then show ?thesis
    using serialized_room [of "new_serializer buffer 300" "bootp_bytes (update_bootp_packet t0 t p)"] assms(2)
    by (simp add: bootp_message_def BOOTP_SIZE_def serialize_bootp_packet_eq put_bytes_start Let_def)
      (simp add: new_serializer_def put_bytes_start)
qed

end
