(* ===== verification/Roce_Transmitter.thy ===== *)
theory Roce_Transmitter
  imports Roce_Packets "HOL-Library.While_Combinator"
begin

text \<open>
  The sending side of the emulated data plane: \<open>RoCEv2Transmitter\<close>
  (src/src/hololink/emulation/src/linux/rocev2_transmitter.cpp). A frame goes out as one packet
  for each piece of payload and a last packet with the metadata. What \<open>sendto\<close> answers for the
  n-th packet is a parameter; a frame for which the loop does not end is \<open>None\<close>.
\<close>

subsection \<open>Sending a frame\<close>

record transmission_metadata =
  tm_dest_mac_low :: u32
  tm_dest_mac_high :: u32
  tm_dest_ip_address :: u32
  tm_frame_size :: u32
  tm_payload_size :: u32
  tm_dest_port :: u16
  tm_src_port :: u16
  tm_address :: u64
  tm_qp :: u32
  tm_rkey :: u32
  tm_page :: u32
  tm_metadata_offset :: u32

record roce_transmitter =
  linux_headers :: roce_headers
  t_psn :: u32
  t_frame_number :: u32

text \<open>
  The constructor; \<open>ntohl\<close> of the address, which is kept in network byte order, is a swap of
  its bytes.
\<close>

definition new_roce_transmitter :: "u32 \<Rightarrow> u16 \<Rightarrow> roce_transmitter" where
  "new_roce_transmitter ip_address port =
     \<lparr>linux_headers = DEFAULT_LINUX_HEADERS
        \<lparr>ip_h := (ip_h DEFAULT_LINUX_HEADERS)\<lparr>ip_saddr := be_word (le_bytes 4 ip_address)\<rparr>,
         udp_h := (udp_h DEFAULT_LINUX_HEADERS)\<lparr>udp_source := port\<rparr>\<rparr>,
      t_psn = 0, t_frame_number = 0\<rparr>"

text \<open>
  The state of a call of \<open>send\<close>: the headers, the packet buffer, the sequence number, how far
  the content has been gone through, the bytes sent, the number of calls of \<open>sendto\<close> and the
  packets it took.
\<close>

record sending =
  sg_headers :: roce_headers
  sg_mesg :: bytes
  sg_psn :: u32
  sg_offset :: nat
  sg_n_bytes_sent :: nat
  sg_calls :: nat
  sg_out :: "bytes list"

definition next_psn :: "u32 \<Rightarrow> u32" where
  "next_psn psn = (psn + 1) AND IB_PSN_MASK"

definition hand_out :: "(nat \<Rightarrow> bool) \<Rightarrow> nat \<Rightarrow> nat \<Rightarrow> sending \<Rightarrow> sending" where
  "hand_out sendto message_size n st =
     (if message_size \<noteq> IB_PAYLOAD_OFFSET + n + 4 then st
      else if \<not> sendto (sg_calls st) then st\<lparr>sg_calls := sg_calls st + 1\<rparr>
      else st\<lparr>sg_calls := sg_calls st + 1, sg_out := sg_out st @ [take message_size (sg_mesg st)],
              sg_n_bytes_sent := sg_n_bytes_sent st + n\<rparr>)"

text \<open>One round of the loop over the content.\<close>

definition send_packet :: "crc_function \<Rightarrow> (nat \<Rightarrow> bool) \<Rightarrow> bytes \<Rightarrow> u64 \<Rightarrow> u16 \<Rightarrow> sending \<Rightarrow> sending" where
  "send_packet crc32 sendto content address udp_payload_size st =
     (let n = min (length content - sg_offset st) (unat udp_payload_size);
          headers = (sg_headers st)
            \<lparr>bt_h := (bt_h (sg_headers st))\<lparr>bt_psn := sg_psn st\<rparr>,
             ret_h := (ret_h (sg_headers st))
               \<lparr>ret_content_size := of_nat n, ret_vaddress := address + of_nat (sg_offset st)\<rparr>\<rparr>;
          (message_size, headers, mesg) =
            serialize_packet crc32 headers (sg_mesg st) MESG_SIZE (Some (drop (sg_offset st) content));
          st = hand_out sendto message_size n (st\<lparr>sg_headers := headers, sg_mesg := mesg\<rparr>)
      in st\<lparr>sg_offset := sg_offset st + n, sg_psn := next_psn (sg_psn st)\<rparr>)"

definition send_packets ::
  "crc_function \<Rightarrow> (nat \<Rightarrow> bool) \<Rightarrow> bytes \<Rightarrow> u64 \<Rightarrow> u16 \<Rightarrow> sending \<Rightarrow> sending option" where
  "send_packets crc32 sendto content address udp_payload_size =
     while_option (\<lambda>st. sg_offset st < length content)
       (send_packet crc32 sendto content address udp_payload_size)"

text \<open>The packet with the metadata.\<close>

definition send_metadata ::
  "crc_function \<Rightarrow> (nat \<Rightarrow> bool) \<Rightarrow> timespec \<Rightarrow> timespec \<Rightarrow> transmission_metadata \<Rightarrow> u32 \<Rightarrow>
   metadata_argument \<Rightarrow> sending \<Rightarrow> sending" where
  "send_metadata crc32 sendto frame_start meta_time tm frame_number arg st =
     (let (n, tail) = write_frame_metadata (drop IB_PAYLOAD_OFFSET (sg_mesg st)) (4 + FRAME_METADATA_SIZE)
            frame_start meta_time (of_nat (sg_n_bytes_sent st)) frame_number (sg_psn st)
            (ucast (tm_page tm)) arg;
          mesg = take IB_PAYLOAD_OFFSET (sg_mesg st) @ tail;
          headers = (sg_headers st)
            \<lparr>bt_h := (bt_h (sg_headers st))\<lparr>bt_opcode := IB_OPCODE_WRITE_IMMEDIATE, bt_psn := sg_psn st\<rparr>,
             ret_h := (ret_h (sg_headers st))
               \<lparr>ret_content_size := of_nat n,
                ret_vaddress := tm_address tm + ucast (tm_metadata_offset tm)\<rparr>\<rparr>;
          (message_size, headers, mesg) = serialize_packet crc32 headers mesg MESG_SIZE None;
          st = hand_out sendto message_size n (st\<lparr>sg_headers := headers, sg_mesg := mesg\<rparr>)
      in st\<lparr>sg_psn := next_psn (sg_psn st)\<rparr>)"

text \<open>
  \<open>RoCEv2Transmitter::send\<close>: the number of bytes sent, the transmitter afterwards and the packets
  that went out, or nothing when the loop does not end. \<open>arg\<close> is \<open>None\<close> for a null pointer;
  \<open>mesg\<close> is what is on the stack.
\<close>

definition frame_headers :: "transmission_metadata \<Rightarrow> u32 \<Rightarrow> roce_headers \<Rightarrow> roce_headers" where
  "frame_headers tm psn h =
     h\<lparr>ip_h := (ip_h h)\<lparr>ip_daddr := tm_dest_ip_address tm\<rparr>,
       udp_h := (udp_h h)\<lparr>udp_dest := tm_dest_port tm\<rparr>,
       bt_h := (bt_h h)\<lparr>bt_opcode := IB_OPCODE_WRITE,
          bt_qp := push_bit 24 0xFF OR (tm_qp tm AND 0xFFFFFF), bt_psn := psn\<rparr>,
       ret_h := (ret_h h)\<lparr>ret_vaddress := tm_address tm, ret_rkey := tm_rkey tm,
          ret_content_size := ucast (ucast (tm_payload_size tm) :: u16)\<rparr>\<rparr>"

definition roce_send ::
  "crc_function \<Rightarrow> (nat \<Rightarrow> bool) \<Rightarrow> timespec \<Rightarrow> timespec \<Rightarrow> bytes \<Rightarrow> transmission_metadata \<Rightarrow> bytes \<Rightarrow>
   metadata_argument option \<Rightarrow> roce_transmitter \<Rightarrow> (nat \<times> roce_transmitter \<times> bytes list) option" where
  "roce_send crc32 sendto frame_start meta_time mesg tm content arg t =
     (if tm_dest_port tm = 0 then Some (0, t, [])
      else if tm_dest_ip_address tm = 0 then Some (0, t, [])
      else
        Option.bind
          (send_packets crc32 sendto content (tm_address tm) (ucast (tm_payload_size tm))
             \<lparr>sg_headers = frame_headers tm (t_psn t) (linux_headers t), sg_mesg = mesg, sg_psn = t_psn t,
              sg_offset = 0, sg_n_bytes_sent = 0, sg_calls = 0, sg_out = []\<rparr>)
          (\<lambda>st. case arg of
              None \<Rightarrow> Some (sg_n_bytes_sent st, t\<lparr>linux_headers := sg_headers st, t_psn := sg_psn st\<rparr>, sg_out st)
            | Some m \<Rightarrow>
                let st = send_metadata crc32 sendto frame_start meta_time tm (t_frame_number t) m st
                in Some (sg_n_bytes_sent st,
                         t\<lparr>linux_headers := sg_headers st, t_psn := sg_psn st,
                           t_frame_number := t_frame_number t + 1\<rparr>,
                         sg_out st)))"


subsection \<open>The packets of a frame\<close>

text \<open>Headers of a packet, from those of the frame.\<close>

definition packet_headers :: "roce_headers \<Rightarrow> u32 \<Rightarrow> u64 \<Rightarrow> nat \<Rightarrow> roce_headers" where
  "packet_headers h psn vaddress n =
     message_lengths (60 + n)
       (h\<lparr>bt_h := (bt_h h)\<lparr>bt_psn := psn\<rparr>,
          ret_h := (ret_h h)\<lparr>ret_content_size := of_nat n, ret_vaddress := vaddress\<rparr>\<rparr>)"

definition immediate_headers :: "roce_headers \<Rightarrow> roce_headers" where
  "immediate_headers h = h\<lparr>bt_h := (bt_h h)\<lparr>bt_opcode := IB_OPCODE_WRITE_IMMEDIATE\<rparr>\<rparr>"

lemma packet_headers_again [simp]:
  "packet_headers (packet_headers h p v n) p' v' n' = packet_headers h p' v' n'"
  "packet_headers (immediate_headers (packet_headers h p v n)) p' v' n' = packet_headers (immediate_headers h) p' v' n'"
  by (simp_all add: packet_headers_def message_lengths_def immediate_headers_def)

function frame_packets :: "crc_function \<Rightarrow> roce_headers \<Rightarrow> u32 \<Rightarrow> u64 \<Rightarrow> nat \<Rightarrow> bytes \<Rightarrow> bytes list" where
  "frame_packets crc32 h psn vaddress p content =
     (if content = [] \<or> p = 0 then []
      else packet_bytes crc32 (packet_headers h psn vaddress (min (length content) p)) (take p content) #
           frame_packets crc32 h (next_psn psn) (vaddress + of_nat p) p (drop p content))"
  by pat_completeness auto
termination by (relation "measure (\<lambda>(crc32, h, psn, vaddress, p, content). length content)") auto

declare frame_packets.simps [simp del]

text \<open>Which of the packets \<open>sendto\<close> takes, from its \<open>i\<close>-th call on.\<close>

fun accepted :: "(nat \<Rightarrow> bool) \<Rightarrow> nat \<Rightarrow> bytes list \<Rightarrow> bytes list" where
  "accepted sendto i [] = []"
| "accepted sendto i (m # ms) = (if sendto i then m # accepted sendto (Suc i) ms else accepted sendto (Suc i) ms)"

lemma accepted_all: "(\<And>i. sendto i) \<Longrightarrow> accepted sendto i ms = ms"
  by (induction ms arbitrary: i) simp_all

lemma accepted_append: "accepted sendto i (ms @ ns) = accepted sendto i ms @ accepted sendto (i + length ms) ns"
  by (induction ms arbitrary: i) simp_all

definition payload_total :: "bytes list \<Rightarrow> nat" where
  "payload_total ms = sum_list (map (\<lambda>m. length m - 60) ms)"

lemma payload_total_simps [simp]:
  "payload_total [] = 0" "payload_total (m # ms) = (length m - 60) + payload_total ms"
  "payload_total (ms @ ns) = payload_total ms + payload_total ns"
  by (simp_all add: payload_total_def)

lemma payload_total_frame: "0 < p \<Longrightarrow> payload_total (frame_packets crc32 h psn v p content) = length content"
proof (induction crc32 h psn v p content rule: frame_packets.induct)
  case (1 crc32 h psn v p content)
  then show ?case by (subst frame_packets.simps) auto
qed

lemma length_frame_packets: "0 < p \<Longrightarrow> length (frame_packets crc32 h psn v p content) = (length content + p - 1) div p"
proof (induction crc32 h psn v p content rule: frame_packets.induct)
  case (1 crc32 h psn v p content)
  show ?case
  proof (cases "content = []")
    case True
    with 1 show ?thesis by (subst frame_packets.simps) simp
  next
    case False
    then obtain k where k: "length content = Suc k" by (cases content) auto
    show ?thesis
    proof (cases "length content \<le> p")
      case True
      then have "(length content + p - 1) div p = 1"
        using 1(2) k by (intro div_nat_eqI) auto
      with 1 False True show ?thesis by (subst frame_packets.simps) (simp add: frame_packets.simps)
    next
      case not_le: False
      then have "length content + p - 1 = (length content - p + p - 1) + p" by simp
      then have "(length content + p - 1) div p = Suc ((length content - p + p - 1) div p)"
        using 1(2) by (metis Suc_eq_plus1 div_add_self2 less_numeral_extra(3))
      with 1 False show ?thesis by (subst frame_packets.simps) simp
    qed
  qed
qed

text \<open>One round of the loop.\<close>

lemma send_packet_step:
  fixes address :: u64 and crc32 :: crc_function
  assumes mesg: "length (sg_mesg st) = MESG_SIZE"
    and off: "sg_offset st < length content"
    and p: "unat udp_payload_size \<le> 10180"
  defines "n \<equiv> min (length content - sg_offset st) (unat udp_payload_size)"
  defines "m \<equiv> packet_bytes crc32 (packet_headers (sg_headers st) (sg_psn st)
      (address + of_nat (sg_offset st)) n) (take n (drop (sg_offset st) content))"
  shows "send_packet crc32 sendto content address udp_payload_size st =
    st\<lparr>sg_headers := packet_headers (sg_headers st) (sg_psn st) (address + of_nat (sg_offset st)) n,
       sg_mesg := m @ drop (60 + n) (sg_mesg st), sg_psn := next_psn (sg_psn st),
       sg_offset := sg_offset st + n,
       sg_n_bytes_sent := sg_n_bytes_sent st + payload_total (accepted sendto (sg_calls st) [m]),
       sg_calls := sg_calls st + 1, sg_out := sg_out st @ accepted sendto (sg_calls st) [m]\<rparr>"
proof -
  have n: "n \<le> 10180" "n \<le> length content - sg_offset st" using p by (simp_all add: n_def)
  have un: "unat (of_nat n :: u32) = n" using n by (intro unat_of_nat_u32) simp
  let ?h = "(sg_headers st)
            \<lparr>bt_h := (bt_h (sg_headers st))\<lparr>bt_psn := sg_psn st\<rparr>,
             ret_h := (ret_h (sg_headers st))
               \<lparr>ret_content_size := of_nat n, ret_vaddress := address + of_nat (sg_offset st)\<rparr>\<rparr>"
  have lm: "length m = 60 + n" using n by (simp add: m_def)
  have "serialize_packet crc32 ?h (sg_mesg st) MESG_SIZE (Some (drop (sg_offset st) content)) =
      (60 + n, message_lengths (60 + n) ?h,
       packet_bytes crc32 (message_lengths (60 + n) ?h) (take n (drop (sg_offset st) content)) @
         drop (60 + n) (sg_mesg st))"
    using mesg n by (intro serialize_packet_bytes) (simp_all add: MESG_SIZE_def un)
  then show ?thesis
    unfolding send_packet_def Let_def n_def [symmetric] packet_headers_def [symmetric]
    by (simp add: m_def [symmetric] hand_out_def lm)
qed


text \<open>Headers that differ only in what the next packet overwrites.\<close>

definition same_stream :: "roce_headers \<Rightarrow> roce_headers \<Rightarrow> bool" where
  "same_stream h' h \<longleftrightarrow>
     (\<forall>p v n. packet_headers h' p v n = packet_headers h p v n \<and>
              packet_headers (immediate_headers h') p v n = packet_headers (immediate_headers h) p v n)"

lemma same_stream_packet [simp]: "same_stream (packet_headers h p v n) h"
  by (simp add: same_stream_def)

lemma same_stream_trans: "same_stream h2 h1 \<Longrightarrow> same_stream h1 h \<Longrightarrow> same_stream h2 h"
  by (simp add: same_stream_def)

lemma frame_packets_same_stream: "same_stream h' h \<Longrightarrow> frame_packets crc32 h' psn v p content = frame_packets crc32 h psn v p content"
proof (induction crc32 h psn v p content rule: frame_packets.induct)
  case (1 crc32 h psn v p content)
  then show ?case
    by (subst (1 2) frame_packets.simps) (simp add: same_stream_def)
qed

text \<open>What the loop leaves, from any state.\<close>

definition sent_packets :: "(nat \<Rightarrow> bool) \<Rightarrow> bytes list \<Rightarrow> sending \<Rightarrow> sending \<Rightarrow> bool" where
  "sent_packets sendto ms st st' \<longleftrightarrow>
     length (sg_mesg st') = MESG_SIZE \<and> same_stream (sg_headers st') (sg_headers st) \<and>
     sg_psn st' = (next_psn ^^ length ms) (sg_psn st) \<and>
     sg_n_bytes_sent st' = sg_n_bytes_sent st + payload_total (accepted sendto (sg_calls st) ms) \<and>
     sg_calls st' = sg_calls st + length ms \<and>
     sg_out st' = sg_out st @ accepted sendto (sg_calls st) ms"

lemma sent_packets_trans:
  assumes "sent_packets sendto ms st st1" and "sent_packets sendto ns st1 st2"
  shows "sent_packets sendto (ms @ ns) st st2"
proof -
  have "(next_psn ^^ (length ms + length ns)) x = (next_psn ^^ length ns) ((next_psn ^^ length ms) x)" for x
    by (metis add.commute comp_apply funpow_add)
  then show ?thesis using assms same_stream_trans by (auto simp: sent_packets_def accepted_append)
qed

lemma send_packets_frame:
  assumes "length (sg_mesg st) = MESG_SIZE" and "sg_offset st \<le> length content"
    and "0 < unat udp_payload_size" and "unat udp_payload_size \<le> 10180"
  shows "\<exists>st'. send_packets crc32 sendto content address udp_payload_size st = Some st' \<and>
     sent_packets sendto (frame_packets crc32 (sg_headers st) (sg_psn st) (address + of_nat (sg_offset st))
      (unat udp_payload_size) (drop (sg_offset st) content)) st st'"
  using assms(1,2)
proof (induction "length content - sg_offset st" arbitrary: st rule: less_induct)
  case less
  let ?p = "unat udp_payload_size"
  show ?case
  proof (cases "sg_offset st < length content")
    case False
    then show ?thesis using less.prems
      by (simp add: send_packets_def while_option_unfold frame_packets.simps sent_packets_def same_stream_def)
  next
    case True
    define n where "n = min (length content - sg_offset st) ?p"
    define st1 where "st1 = send_packet crc32 sendto content address udp_payload_size st"
    have n: "0 < n" "n \<le> length content - sg_offset st" "n \<le> 10180" using True assms(3,4) by (simp_all add: n_def)
    let ?m = "packet_bytes crc32 (packet_headers (sg_headers st) (sg_psn st)
        (address + of_nat (sg_offset st)) n) (take n (drop (sg_offset st) content))"
    note step = send_packet_step [OF less.prems(1) True assms(4), of crc32 sendto address,
        folded st1_def n_def]
    have first: "sent_packets sendto [?m] st st1"
      using less.prems(1) n by (simp add: step sent_packets_def MESG_SIZE_def)
    have off: "sg_offset st1 = sg_offset st + n" by (simp add: step)
    have "length content - sg_offset st1 < length content - sg_offset st" "sg_offset st1 \<le> length content"
      using n by (simp_all add: off)
    then obtain st' where rest: "send_packets crc32 sendto content address udp_payload_size st1 = Some st'"
      "sent_packets sendto (frame_packets crc32 (sg_headers st1) (sg_psn st1) (address + of_nat (sg_offset st1)) ?p
         (drop (sg_offset st1) content)) st1 st'"
      using less.hyps [of st1] first by (auto simp: sent_packets_def)
    have "frame_packets crc32 (sg_headers st) (sg_psn st) (address + of_nat (sg_offset st)) ?p
        (drop (sg_offset st) content) =
      ?m # frame_packets crc32 (sg_headers st1) (sg_psn st1) (address + of_nat (sg_offset st1)) ?p
         (drop (sg_offset st1) content)"
    proof (cases "length content - sg_offset st \<le> ?p")
      case True
      then have "n = length content - sg_offset st" by (simp add: n_def)
      with True n show ?thesis by (subst frame_packets.simps) (simp add: frame_packets.simps off)
    next
      case False
      then have "n = ?p" by (simp add: n_def)
      then have "frame_packets crc32 (sg_headers st) (next_psn (sg_psn st)) (address + of_nat (sg_offset st) + of_nat ?p) ?p
            (drop ?p (drop (sg_offset st) content)) =
          frame_packets crc32 (sg_headers st1) (sg_psn st1) (address + of_nat (sg_offset st1)) ?p (drop (sg_offset st1) content)"
        using first frame_packets_same_stream [of "sg_headers st1" "sg_headers st" crc32]
        by (simp add: sent_packets_def off add.commute add.left_commute)
      with \<open>n = ?p\<close> n show ?thesis by (subst frame_packets.simps) (simp add: n_def)
    qed
    moreover have "send_packets crc32 sendto content address udp_payload_size st =
        send_packets crc32 sendto content address udp_payload_size st1"
      unfolding send_packets_def st1_def using True by (subst while_option_unfold) simp
    ultimately show ?thesis using rest(1) sent_packets_trans [OF first rest(2)] by simp
  qed
qed


text \<open>
  The packet with the metadata. Its content is the immediate value and the first 124 bytes of
  the block: the size counts the block only, and the CRC takes the place of its last four bytes.
\<close>

definition immediate_packet ::
  "crc_function \<Rightarrow> roce_headers \<Rightarrow> u32 \<Rightarrow> u64 \<Rightarrow> u16 \<Rightarrow> tx_metadata \<Rightarrow> bytes" where
  "immediate_packet crc32 h psn vaddress page m =
     packet_bytes crc32 (packet_headers (immediate_headers h) psn vaddress 128)
       (be_bytes 4 (immediate_value page psn) @ take 124 (tx_metadata_bytes m))"

lemma length_immediate_packet [simp]: "length (tx_reserved m) = 80 \<Longrightarrow> length (immediate_packet crc32 h psn v page m) = 188"
  by (simp add: immediate_packet_def)

lemma send_metadata_step:
  fixes crc32 :: crc_function and fs mt :: timespec and fn :: u32 and tm :: transmission_metadata
  assumes mesg: "length (sg_mesg st) = MESG_SIZE" and arg: "argument_ok arg"
  defines "md \<equiv> metadata_of fs mt (of_nat (sg_n_bytes_sent st)) fn (sg_psn st) arg"
  defines "m \<equiv> immediate_packet crc32 (sg_headers st) (sg_psn st)
      (tm_address tm + ucast (tm_metadata_offset tm)) (ucast (tm_page tm)) md"
  shows "\<exists>st'. send_metadata crc32 sendto fs mt tm fn arg st = st' \<and>
     sg_headers st' = packet_headers (immediate_headers (sg_headers st)) (sg_psn st)
        (tm_address tm + ucast (tm_metadata_offset tm)) 128 \<and>
     sg_psn st' = next_psn (sg_psn st) \<and>
     sg_n_bytes_sent st' = sg_n_bytes_sent st + payload_total (accepted sendto (sg_calls st) [m]) \<and>
     sg_out st' = sg_out st @ accepted sendto (sg_calls st) [m]"
proof -
  let ?imm = "be_bytes 4 (immediate_value (ucast (tm_page tm)) (sg_psn st))"
  let ?v = "tm_address tm + ucast (tm_metadata_offset tm)"
  let ?tail = "?imm @ tx_metadata_bytes md @ drop 132 (drop 56 (sg_mesg st))"
  let ?mesg = "take 56 (sg_mesg st) @ ?tail"
  have res: "length (tx_reserved md) = 80" unfolding md_def using arg by simp
  have block: "write_frame_metadata (drop 56 (sg_mesg st)) 132 fs mt (of_nat (sg_n_bytes_sent st)) fn (sg_psn st)
      (ucast (tm_page tm)) arg = (128, ?tail)"
    unfolding md_def using mesg arg by (intro write_frame_metadata_bytes) (simp_all add: MESG_SIZE_def)
  let ?h = "(sg_headers st)
            \<lparr>bt_h := (bt_h (sg_headers st))\<lparr>bt_opcode := IB_OPCODE_WRITE_IMMEDIATE, bt_psn := sg_psn st\<rparr>,
             ret_h := (ret_h (sg_headers st)) \<lparr>ret_content_size := of_nat 128, ret_vaddress := ?v\<rparr>\<rparr>"
  have h: "message_lengths (60 + 128) ?h = packet_headers (immediate_headers (sg_headers st)) (sg_psn st) ?v 128"
    by (simp add: packet_headers_def immediate_headers_def)
  have "serialize_packet crc32 ?h ?mesg MESG_SIZE None =
      (60 + 128, message_lengths (60 + 128) ?h,
       packet_bytes crc32 (message_lengths (60 + 128) ?h) (?imm @ take 124 (tx_metadata_bytes md)) @
         drop (60 + 128) ?mesg)"
    using mesg res by (intro serialize_packet_bytes) (simp_all add: MESG_SIZE_def)
  then have sp: "serialize_packet crc32 ?h ?mesg MESG_SIZE None =
      (188, packet_headers (immediate_headers (sg_headers st)) (sg_psn st) ?v 128, m @ drop 188 ?mesg)"
    unfolding h m_def immediate_packet_def by simp
  have lm: "length m = 188" unfolding m_def using res by simp
  show ?thesis
    unfolding send_metadata_def FRAME_METADATA_SIZE_def
    by (simp add: block sp [simplified] hand_out_def lm Let_def)
qed


text \<open>A frame: its packets of data, what the block says of them, and the last packet.\<close>

definition payload_bytes :: "transmission_metadata \<Rightarrow> nat" where
  "payload_bytes tm = unat (ucast (tm_payload_size tm) :: u16)"

definition data_packets :: "crc_function \<Rightarrow> transmission_metadata \<Rightarrow> bytes \<Rightarrow> roce_transmitter \<Rightarrow> bytes list" where
  "data_packets crc32 tm content t =
     frame_packets crc32 (frame_headers tm (t_psn t) (linux_headers t)) (t_psn t) (tm_address tm)
       (payload_bytes tm) content"

definition data_psn :: "transmission_metadata \<Rightarrow> bytes \<Rightarrow> roce_transmitter \<Rightarrow> u32" where
  "data_psn tm content t = (next_psn ^^ ((length content + payload_bytes tm - 1) div payload_bytes tm)) (t_psn t)"

definition last_packet ::
  "crc_function \<Rightarrow> transmission_metadata \<Rightarrow> tx_metadata \<Rightarrow> u32 \<Rightarrow> roce_transmitter \<Rightarrow> bytes" where
  "last_packet crc32 tm md psn t =
     immediate_packet crc32 (frame_headers tm (t_psn t) (linux_headers t)) psn
       (tm_address tm + ucast (tm_metadata_offset tm)) (ucast (tm_page tm)) md"

definition sent_metadata ::
  "crc_function \<Rightarrow> (nat \<Rightarrow> bool) \<Rightarrow> timespec \<Rightarrow> timespec \<Rightarrow> transmission_metadata \<Rightarrow> bytes \<Rightarrow>
   metadata_argument \<Rightarrow> roce_transmitter \<Rightarrow> tx_metadata" where
  "sent_metadata crc32 sendto fs mt tm content arg t =
     metadata_of fs mt (of_nat (payload_total (accepted sendto 0 (data_packets crc32 tm content t))))
       (t_frame_number t) (data_psn tm content t) arg"

definition frame_transmission ::
  "crc_function \<Rightarrow> (nat \<Rightarrow> bool) \<Rightarrow> timespec \<Rightarrow> timespec \<Rightarrow> transmission_metadata \<Rightarrow> bytes \<Rightarrow>
   metadata_argument \<Rightarrow> roce_transmitter \<Rightarrow> bytes list" where
  "frame_transmission crc32 sendto fs mt tm content arg t =
     data_packets crc32 tm content t @
     [last_packet crc32 tm (sent_metadata crc32 sendto fs mt tm content arg t) (data_psn tm content t) t]"

lemma roce_send_frame:
  assumes mesg: "length mesg = MESG_SIZE" and dest: "tm_dest_port tm \<noteq> 0" "tm_dest_ip_address tm \<noteq> 0"
    and p: "0 < payload_bytes tm" "payload_bytes tm \<le> 10180" and arg: "argument_ok arg"
  shows "\<exists>t'. roce_send crc32 sendto fs mt mesg tm content (Some arg) t =
       Some (payload_total (accepted sendto 0 (frame_transmission crc32 sendto fs mt tm content arg t)), t',
             accepted sendto 0 (frame_transmission crc32 sendto fs mt tm content arg t)) \<and>
     t_psn t' = next_psn (data_psn tm content t) \<and> t_frame_number t' = t_frame_number t + 1"
proof -
  let ?h = "frame_headers tm (t_psn t) (linux_headers t)"
  let ?st = "\<lparr>sg_headers = ?h, sg_mesg = mesg, sg_psn = t_psn t, sg_offset = 0, sg_n_bytes_sent = 0,
      sg_calls = 0, sg_out = []\<rparr>"
  let ?data = "data_packets crc32 tm content t"
  obtain st1 where st1: "send_packets crc32 sendto content (tm_address tm) (ucast (tm_payload_size tm)) ?st = Some st1"
      "sent_packets sendto ?data ?st st1"
    using send_packets_frame [of ?st content "ucast (tm_payload_size tm)" crc32 sendto "tm_address tm"] assms
    by (auto simp: data_packets_def payload_bytes_def)
  have k: "length ?data = (length content + payload_bytes tm - 1) div payload_bytes tm"
    unfolding data_packets_def by (rule length_frame_packets [OF p(1)])
  have s1: "length (sg_mesg st1) = MESG_SIZE" "same_stream (sg_headers st1) ?h"
      "sg_psn st1 = data_psn tm content t" "sg_n_bytes_sent st1 = payload_total (accepted sendto 0 ?data)"
      "sg_calls st1 = length ?data" "sg_out st1 = accepted sendto 0 ?data"
    using st1(2) by (simp_all add: sent_packets_def data_psn_def k)
  have md: "metadata_of fs mt (of_nat (sg_n_bytes_sent st1)) (t_frame_number t) (sg_psn st1) arg =
      sent_metadata crc32 sendto fs mt tm content arg t"
    by (simp add: sent_metadata_def s1)
  have last: "immediate_packet crc32 (sg_headers st1) (sg_psn st1) (tm_address tm + ucast (tm_metadata_offset tm))
        (ucast (tm_page tm)) m = last_packet crc32 tm m (data_psn tm content t) t" for m
    using s1(2) by (simp add: immediate_packet_def last_packet_def s1(3) same_stream_def)
  obtain st2 where st2: "send_metadata crc32 sendto fs mt tm (t_frame_number t) arg st1 = st2"
      "sg_psn st2 = next_psn (sg_psn st1)"
      "sg_n_bytes_sent st2 = payload_total (accepted sendto 0 (frame_transmission crc32 sendto fs mt tm content arg t))"
      "sg_out st2 = accepted sendto 0 (frame_transmission crc32 sendto fs mt tm content arg t)"
    using send_metadata_step [OF s1(1) arg, of crc32 sendto fs mt tm "t_frame_number t"]
    unfolding md last by (auto simp: frame_transmission_def accepted_append s1)
  show ?thesis
    using dest by (simp add: roce_send_def st1(1) st2 s1(3) Let_def)
qed

text \<open>Without a pointer to metadata there is no last packet.\<close>

lemma roce_send_data:
  assumes mesg: "length mesg = MESG_SIZE" and dest: "tm_dest_port tm \<noteq> 0" "tm_dest_ip_address tm \<noteq> 0"
    and p: "0 < payload_bytes tm" "payload_bytes tm \<le> 10180"
  shows "\<exists>t'. roce_send crc32 sendto fs mt mesg tm content None t =
       Some (payload_total (accepted sendto 0 (data_packets crc32 tm content t)), t',
             accepted sendto 0 (data_packets crc32 tm content t)) \<and>
     t_psn t' = data_psn tm content t \<and> t_frame_number t' = t_frame_number t"
proof -
  let ?st = "\<lparr>sg_headers = frame_headers tm (t_psn t) (linux_headers t), sg_mesg = mesg, sg_psn = t_psn t,
      sg_offset = 0, sg_n_bytes_sent = 0, sg_calls = 0, sg_out = []\<rparr>"
  let ?data = "data_packets crc32 tm content t"
  obtain st1 where st1: "send_packets crc32 sendto content (tm_address tm) (ucast (tm_payload_size tm)) ?st = Some st1"
      "sent_packets sendto ?data ?st st1"
    using send_packets_frame [of ?st content "ucast (tm_payload_size tm)" crc32 sendto "tm_address tm"] assms
    by (auto simp: data_packets_def payload_bytes_def)
  have "length ?data = (length content + payload_bytes tm - 1) div payload_bytes tm"
    unfolding data_packets_def by (rule length_frame_packets [OF p(1)])
  then show ?thesis using dest st1 by (simp add: roce_send_def sent_packets_def data_psn_def)
qed

text \<open>A payload size that is a multiple of \<open>65536\<close> is zero as a \<open>uint16_t\<close>: the loop does not advance.\<close>

lemma while_option_never: "(\<And>k. b ((c ^^ k) s)) \<Longrightarrow> while_option b c s = None"
  by (simp add: while_option_def)

lemma send_packet_no_payload:
  "sg_offset (send_packet crc32 sendto content address 0 st) = sg_offset st"
  by (simp add: send_packet_def hand_out_def Let_def split: prod.splits)

lemma roce_send_no_payload:
  assumes "tm_dest_port tm \<noteq> 0" "tm_dest_ip_address tm \<noteq> 0" and "payload_bytes tm = 0" and "content \<noteq> []"
  shows "roce_send crc32 sendto fs mt mesg tm content arg t = None"
proof -
  have p: "(ucast (tm_payload_size tm) :: u16) = 0" using assms(3) by (simp add: payload_bytes_def unat_eq_zero)
  have "send_packets crc32 sendto content (tm_address tm) 0 st = None" if "sg_offset st = 0" for st
  proof -
    have "sg_offset ((send_packet crc32 sendto content (tm_address tm) 0 ^^ k) st) = 0" for k
      by (induction k) (simp_all add: that send_packet_no_payload)
    then show ?thesis using assms(4) unfolding send_packets_def by (intro while_option_never) simp
  qed
  then show ?thesis using assms(1,2) by (simp add: roce_send_def p)
qed

lemma roce_send_unconnected:
  "tm_dest_port tm = 0 \<or> tm_dest_ip_address tm = 0 \<Longrightarrow>
   roce_send crc32 sendto fs mt mesg tm content arg t = Some (0, t, [])"
  by (auto simp: roce_send_def)

text \<open>Sequence numbers.\<close>

lemma next_psn_unat: "unat (next_psn psn) = (unat psn + 1) mod 2 ^ 20"
proof -
  have "next_psn psn = take_bit 20 (psn + 1)"
    by (simp add: next_psn_def IB_PSN_MASK_def take_bit_eq_mask mask_eq_exp_minus_1)
  then have "unat (next_psn psn) = unat (psn + 1) mod 2 ^ 20" 
    by (metis take_bit_eq_mod unsigned_take_bit_eq)
  then show ?thesis by (simp add: unat_word_ariths mod_mod_cancel)
qed

lemma next_psn_funpow: "unat psn < 2 ^ 20 \<Longrightarrow> unat ((next_psn ^^ k) psn) = (unat psn + k) mod 2 ^ 20"
  by (induction k) (simp_all add: next_psn_unat mod_Suc_eq)

end
