(* ===== verification/Roce_Data_Plane.thy ===== *)
theory Roce_Data_Plane
  imports Roce_Transmitter Register_Memory
begin

text \<open>
  \<open>DataPlane\<close> and \<open>RoCEv2DataPlane\<close> (src/src/hololink/emulation/src/linux/data_plane.cpp and
  rocev2_data_plane.cpp): how the board reads, before each frame, from its registers where the
  host wants the frame, and the round of pages that the frames go through.
\<close>

record roce_data_plane =
  dp_hif_address :: u32
  dp_sif_address :: u32
  dp_vp_address :: u32
  dp_vp_mask :: u32
  dp_frame_end_event :: hsb_event
  dp_page :: u32
  dp_metadata :: transmission_metadata
  dp_transmitter :: roce_transmitter

definition zero_metadata :: transmission_metadata where
  "zero_metadata =
     \<lparr>tm_dest_mac_low = 0, tm_dest_mac_high = 0, tm_dest_ip_address = 0, tm_frame_size = 0,
      tm_payload_size = 0, tm_dest_port = 0, tm_src_port = 0, tm_address = 0, tm_qp = 0, tm_rkey = 0,
      tm_page = 0, tm_metadata_offset = 0\<rparr>"

text \<open>
  The constructor, for a board with so many sensor interfaces per sensor. The index of the
  first one is kept in eight bits; all 256 data planes of an \<open>uint8_t\<close> pass its check.
\<close>

definition new_roce_data_plane :: "u8 \<Rightarrow> u32 \<Rightarrow> u16 \<Rightarrow> u8 \<Rightarrow> u8 \<Rightarrow> roce_data_plane" where
  "new_roce_data_plane sifs_per_sensor ip_address port data_plane_id sensor_id =
     (let sif0_index = sensor_id * sifs_per_sensor in
      \<lparr>dp_hif_address = 0x02000300 + 0x10000 * ucast data_plane_id,
       dp_sif_address = 0x01000000 + 0x10000 * ucast sensor_id,
       dp_vp_address = 0x1000 + 0x40 * ucast sif0_index,
       dp_vp_mask = push_bit (unat sif0_index) 1,
       dp_frame_end_event = (if sif0_index = 1 then SIF_1_FRAME_END else SIF_0_FRAME_END),
       dp_page = 0, dp_metadata = zero_metadata, dp_transmitter = new_roce_transmitter ip_address port\<rparr>)"

text \<open>\<open>update_metadata\<close>. What it assigns before an exception stays assigned.\<close>

definition metadata_registers :: "roce_data_plane \<Rightarrow> (u32 \<times> u32) list" where
  "metadata_registers dp =
     [(dp_vp_address dp + DP_HOST_MAC_LOW, 0), (dp_vp_address dp + DP_HOST_MAC_HIGH, 0),
      (dp_vp_address dp + DP_HOST_IP, 0), (dp_vp_address dp + DP_BUFFER_LENGTH, 0),
      (dp_hif_address dp + DP_PACKET_SIZE, 0), (dp_vp_address dp + DP_HOST_UDP_PORT, 0),
      (dp_hif_address dp + DP_PACKET_UDP_PORT, 0), (dp_vp_address dp + DP_QP, 0),
      (dp_vp_address dp + DP_RKEY, 0), (dp_vp_address dp + DP_MAX_BUFF, 0),
      (dp_vp_address dp + DP_PAGE_LSB, 0), (dp_vp_address dp + DP_PAGE_MSB, 0),
      (dp_vp_address dp + DP_PAGE_INC, 0)]"

definition next_page :: "u32 \<Rightarrow> u32 \<Rightarrow> u32 \<Rightarrow> u32" where
  "next_page start_page end_page page =
     (let page = (if page < start_page then start_page else page + 1)
      in if end_page < page then start_page else page)"

definition update_metadata :: "registers \<Rightarrow> (roce_data_plane, unit) hm" where
  "update_metadata regs = hbind (hgets metadata_registers) (\<lambda>pairs.
     let v = (\<lambda>i. case snd (rm_read_many regs (Some pairs) (int (length pairs))) of
           None \<Rightarrow> 0 | Some avs \<Rightarrow> snd (avs ! i));
         meta = (\<lambda>f. hmodify (\<lambda>dp. dp\<lparr>dp_metadata := f (dp_metadata dp)\<rparr>))
     in hseq
       [meta (\<lambda>m. m\<lparr>tm_dest_mac_low := v 0, tm_dest_mac_high := v 1, tm_dest_ip_address := v 2,
          tm_frame_size := v 3, tm_payload_size := v 4 * HSB_PAGE_SIZE\<rparr>),
        hthrow_if (0xFFFF < v 5) (Runtime_error ''dest_port is too large for uint16_t''),
        meta (\<lambda>m. m\<lparr>tm_dest_port := ucast (v 5)\<rparr>),
        hthrow_if (0xFFFF < v 6) (Runtime_error ''src_port is too large for uint16_t''),
        meta (\<lambda>m. m\<lparr>tm_src_port := ucast (v 6), tm_qp := v 7, tm_rkey := v 8,
          tm_metadata_offset := (tm_frame_size m + HSB_PAGE_SIZE - 1) AND NOT (HSB_PAGE_SIZE - 1)\<rparr>),
        hmodify (\<lambda>dp. dp\<lparr>dp_page :=
          next_page (drop_bit 16 (v 9) AND 0xFFF) (drop_bit 0 (v 9) AND 0xFFF) (dp_page dp)\<rparr>),
        hmodify (\<lambda>dp. dp\<lparr>dp_metadata := (dp_metadata dp)
          \<lparr>tm_page := dp_page dp,
           tm_address := ucast (v 10) + push_bit 32 (ucast (v 11)) +
             ucast (v 12) * ucast HSB_PAGE_SIZE * ucast (dp_page dp)\<rparr>\<rparr>)])"

text \<open>
  \<open>DataPlane::send\<close> of a buffer: the number of bytes sent and the packets; \<open>None\<close> when the loop of
  the transmitter does not end. The variant for tensors takes no metadata for the default.
\<close>

definition dp_send ::
  "crc_function \<Rightarrow> (nat \<Rightarrow> bool) \<Rightarrow> timespec \<Rightarrow> timespec \<Rightarrow> bytes \<Rightarrow> registers \<Rightarrow> bytes \<Rightarrow>
   metadata_argument option \<Rightarrow> (roce_data_plane, (nat \<times> bytes list) option) hm" where
  "dp_send crc32 sendto frame_start meta_time mesg regs buffer arg =
     hthen (update_metadata regs) (\<lambda>dp.
       case roce_send crc32 sendto frame_start meta_time mesg (dp_metadata dp) buffer arg (dp_transmitter dp) of
         None \<Rightarrow> (Inr None, dp)
       | Some (n, t, out) \<Rightarrow> (Inr (Some (n, out)), dp\<lparr>dp_transmitter := t\<rparr>))"

definition packetizer_enabled :: "registers \<Rightarrow> roce_data_plane \<Rightarrow> bool" where
  "packetizer_enabled regs dp \<longleftrightarrow> drop_bit 28 (rm_read regs (dp_sif_address dp + 0x0C)) AND 1 \<noteq> 0"

subsection \<open>What a frame is sent with\<close>

definition board_metadata :: "(u32 \<Rightarrow> u32) \<Rightarrow> roce_data_plane \<Rightarrow> transmission_metadata" where
  "board_metadata R dp =
     (let vp = dp_vp_address dp; hif = dp_hif_address dp; buff = R (vp + DP_MAX_BUFF);
          page = next_page (drop_bit 16 buff AND 0xFFF) (buff AND 0xFFF) (dp_page dp) in
      \<lparr>tm_dest_mac_low = R (vp + DP_HOST_MAC_LOW), tm_dest_mac_high = R (vp + DP_HOST_MAC_HIGH),
       tm_dest_ip_address = R (vp + DP_HOST_IP), tm_frame_size = R (vp + DP_BUFFER_LENGTH),
       tm_payload_size = R (hif + DP_PACKET_SIZE) * 128, tm_dest_port = ucast (R (vp + DP_HOST_UDP_PORT)),
       tm_src_port = ucast (R (hif + DP_PACKET_UDP_PORT)),
       tm_address = ucast (R (vp + DP_PAGE_LSB)) + push_bit 32 (ucast (R (vp + DP_PAGE_MSB))) +
         ucast (R (vp + DP_PAGE_INC)) * 128 * ucast page,
       tm_qp = R vp, tm_rkey = R (vp + DP_RKEY), tm_page = page,
       tm_metadata_offset = (R (vp + DP_BUFFER_LENGTH) + HSB_PAGE_SIZE - 1) AND NOT (HSB_PAGE_SIZE - 1)\<rparr>)"

lemma update_metadata_run:
  assumes "R (dp_vp_address dp + DP_HOST_UDP_PORT) \<le> 0xFFFF" and "R (dp_hif_address dp + DP_PACKET_UDP_PORT) \<le> 0xFFFF"
    and "rm_read regs = R"
  shows "update_metadata regs dp = (Inr (), dp\<lparr>dp_page := tm_page (board_metadata R dp), dp_metadata := board_metadata R dp\<rparr>)"
  using assms
  by (cases "dp_metadata dp")
    (simp add: update_metadata_def metadata_registers_def rm_read_many_def hbind_def hthen_def Let_def
      board_metadata_def HSB_PAGE_SIZE_def not_less)

lemma update_metadata_port:
  assumes "0xFFFF < R (dp_vp_address dp + DP_HOST_UDP_PORT)" and "rm_read regs = R"
  shows "\<exists>dp'. update_metadata regs dp = (Inl (Runtime_error ''dest_port is too large for uint16_t''), dp') \<and>
    dp_page dp' = dp_page dp \<and> dp_transmitter dp' = dp_transmitter dp"
  using assms
  by (simp add: update_metadata_def metadata_registers_def rm_read_many_def hbind_def hthen_def Let_def)

lemma update_metadata_src_port:
  assumes "R (dp_vp_address dp + DP_HOST_UDP_PORT) \<le> 0xFFFF" and "0xFFFF < R (dp_hif_address dp + DP_PACKET_UDP_PORT)"
    and "rm_read regs = R"
  shows "\<exists>dp'. update_metadata regs dp = (Inl (Runtime_error ''src_port is too large for uint16_t''), dp') \<and>
    dp_page dp' = dp_page dp \<and> dp_transmitter dp' = dp_transmitter dp"
  using assms
  by (simp add: update_metadata_def metadata_registers_def rm_read_many_def hbind_def hthen_def Let_def not_less)

text \<open>Nothing but its own registers matters to the data plane.\<close>

lemma dp_send_registers:
  assumes "\<And>a. a \<in> fst ` set (metadata_registers dp) \<Longrightarrow> rm_read regs' a = rm_read regs a"
  shows "dp_send crc32 sendto fs mt mesg regs' content arg dp = dp_send crc32 sendto fs mt mesg regs content arg dp"
proof -
  have "rm_read_many regs' (Some (metadata_registers dp)) k = rm_read_many regs (Some (metadata_registers dp)) k" for k
    unfolding rm_read_many_def using assms
    by (fastforce split: option.splits dest: in_set_takeD intro: rev_image_eqI)
  then have "update_metadata regs' dp = update_metadata regs dp" by (simp add: update_metadata_def hbind_def)
  then show ?thesis by (simp add: dp_send_def hthen_def hbind_def)
qed

text \<open>The pages a host with \<open>n\<close> pages gives are gone through in turn.\<close>

lemma next_page_round:
  assumes "page < n" and "n \<le> 4096"
  shows "next_page 0 (n - 1) page = (if page + 1 = n then 0 else page + 1)"
proof -
  have n: "unat page < unat n" "unat n \<le> 4096" using assms by (simp_all add: word_less_nat_alt word_le_nat_alt)
  then have u: "unat (page + 1) = unat page + 1" "unat (n - 1) = unat n - 1"
    by (simp_all add: unat_word_ariths unat_sub word_le_nat_alt)
  show ?thesis using n
    by (auto simp: next_page_def Let_def word_less_nat_alt u word_unat_eq_iff)
qed

text \<open>After \<open>k\<close> frames, a board that started on page 0 is on page \<open>k mod n\<close>.\<close>

lemma next_page_funpow:
  assumes "0 < n" and "n \<le> (4096 :: u32)"
  shows "unat ((next_page 0 (n - 1) ^^ k) 0) = k mod unat n"
proof (induction k)
  case 0
  then show ?case by simp
next
  case (Suc k)
  let ?p = "(next_page 0 (n - 1) ^^ k) 0"
  have n: "0 < unat n" "unat n \<le> 4096" using assms by (simp_all add: word_le_nat_alt unat_gt_0)
  then have lt: "unat ?p < unat n" using Suc by simp
  then have "?p < n" by (simp add: word_less_nat_alt)
  from next_page_round [OF this assms(2)] have step: "next_page 0 (n - 1) ?p = (if ?p + 1 = n then 0 else ?p + 1)" .
  have "unat (?p + 1) = unat ?p + 1" using lt n by (simp add: unat_word_ariths)
  then show ?case using lt Suc by (auto simp: step word_unat_eq_iff mod_Suc)
qed

end
