(* ===== verification/Linux_Receiver.thy ===== *)
theory Linux_Receiver
  imports Frame_Metadata "HOL-Library.Multiset"
begin

text \<open>
  The receiving side of the data plane: \<open>LinuxReceiver\<close>
  (src/src/hololink/operators/linux_receiver/linux_receiver.cpp and .hpp). A thread receives the
  packets of a frame into one of \<open>queue_size + 1\<close> buffers and hands it over when the packet with
  the metadata comes; the application takes the frames from a queue. The calls of CUDA that copy
  a frame and wait for the copy are not modelled, nor are the mutex (its critical sections are
  single steps here) and the callback.
\<close>

subsection \<open>State\<close>

record rx_config =
  cu_buffer :: u64
  cu_buffer_size :: u64
  cu_page_size :: u64
  rx_pages :: u32
  received_address_offset :: u64
  queue_size :: u32

record receiver_metadata =
  lm_frame_packets_received :: u32
  lm_frame_bytes_received :: u32
  lm_received_frame_number :: u32
  lm_frame_start :: timespec
  lm_frame_end :: timespec
  lm_imm_data :: u32
  lm_received :: timespec
  lm_frame_memory :: u64
  lm_packets_dropped :: u64
  lm_frame_metadata :: frame_metadata
  lm_frame_number :: u32

record rx_descriptor =
  desc_memory :: bytes
  desc_metadata :: receiver_metadata

text \<open>
  The members of the object and the variables of \<open>run\<close>. A descriptor is known by its number.
\<close>

record linux_receiver =
  rx_descriptors :: "rx_descriptor list"
  rx_receiving :: nat
  rx_available :: "nat list"
  rx_ready :: "nat list"
  rx_consumer_ready :: bool
  rx_exit :: bool
  rx_frame_number :: extended_counter
  rx_frame_count :: u32
  rx_packet_count :: u32
  rx_frame_packets_received :: u32
  rx_frame_bytes_received :: u32
  rx_frame_start :: timespec
  rx_packets_dropped :: u64
  rx_last_psn :: u32
  rx_first :: bool

definition zero_time :: timespec where
  "zero_time = \<lparr>tv_sec = 0, tv_nsec = 0\<rparr>"

definition zero_receiver_metadata :: receiver_metadata where
  "zero_receiver_metadata =
     \<lparr>lm_frame_packets_received = 0, lm_frame_bytes_received = 0, lm_received_frame_number = 0,
      lm_frame_start = zero_time, lm_frame_end = zero_time, lm_imm_data = 0, lm_received = zero_time,
      lm_frame_memory = 0, lm_packets_dropped = 0,
      lm_frame_metadata = \<lparr>md_flags = 0, md_psn = 0, md_crc = 0, md_timestamp_s = 0, md_timestamp_ns = 0,
        md_bytes_written = 0, md_frame_number = 0, md_metadata_s = 0, md_metadata_ns = 0\<rparr>,
      lm_frame_number = 0\<rparr>"

text \<open>The size of a buffer is that of a page, rounded up to 64k; there is one more than the queue holds.\<close>

definition rx_buffer_size :: "rx_config \<Rightarrow> u64" where
  "rx_buffer_size cfg = (cu_page_size cfg + 0x10000 - 1) AND NOT (0x10000 - 1)"

definition rx_buffer_count :: "rx_config \<Rightarrow> nat" where
  "rx_buffer_count cfg = unat (queue_size cfg + 1)"

text \<open>The state at the start of the loop of \<open>run\<close>; \<open>memory\<close> is what the allocation holds.\<close>

definition start_receiver :: "rx_config \<Rightarrow> (nat \<Rightarrow> bytes) \<Rightarrow> linux_receiver" where
  "start_receiver cfg memory =
     \<lparr>rx_descriptors = map (\<lambda>i. \<lparr>desc_memory = memory i, desc_metadata = zero_receiver_metadata\<rparr>)
        [0..<rx_buffer_count cfg],
      rx_receiving = 0, rx_available = [1..<rx_buffer_count cfg], rx_ready = [], rx_consumer_ready = False,
      rx_exit = False, rx_frame_number = new_extended_counter, rx_frame_count = 0, rx_packet_count = 0,
      rx_frame_packets_received = 0, rx_frame_bytes_received = 0, rx_frame_start = zero_time,
      rx_packets_dropped = 0, rx_last_psn = 0, rx_first = True\<rparr>"

definition on_receiving :: "(rx_descriptor \<Rightarrow> rx_descriptor) \<Rightarrow> linux_receiver \<Rightarrow> linux_receiver" where
  "on_receiving f st = st\<lparr>rx_descriptors := (rx_descriptors st)
     [rx_receiving st := f (rx_descriptors st ! rx_receiving st)]\<rparr>"

subsection \<open>Handing over a frame\<close>

text \<open>
  \<open>signal\<close>: queue the received descriptor and give the next one to receive into. \<open>None\<close> where the
  source takes the front of an empty queue, which is undefined.
\<close>

definition next_descriptor :: "linux_receiver \<Rightarrow> (nat \<times> linux_receiver) option" where
  "next_descriptor st =
     (let from_ready = (case rx_ready st of [] \<Rightarrow> None | d # ds \<Rightarrow> Some (d, st\<lparr>rx_ready := ds\<rparr>)) in
      if \<not> rx_consumer_ready st \<and> rx_ready st \<noteq> [] then from_ready
      else case rx_available st of
          [] \<Rightarrow> from_ready
        | d # ds \<Rightarrow> Some (d, st\<lparr>rx_available := ds\<rparr>))"

definition rx_signal :: "linux_receiver \<Rightarrow> linux_receiver option" where
  "rx_signal st = map_option (\<lambda>(d, st').
     st'\<lparr>rx_ready := rx_ready st' @ [rx_receiving st], rx_receiving := d\<rparr>) (next_descriptor st)"

subsection \<open>Receiving a packet\<close>

datatype rx_outcome =
    Running linux_receiver
  | Left_loop linux_receiver
  | Thrown hsb_error linux_receiver
  | Undefined

definition parse_ib_header :: "bytes \<Rightarrow> (u8 \<times> u32 \<times> deserializer) option" where
  "parse_ib_header received =
     Option.bind (next_uint8 (new_deserializer received (length received))) (\<lambda>(opcode, d).
     Option.bind (next_uint8 d) (\<lambda>(flags, d).
     Option.bind (next_uint16_be d) (\<lambda>(pkey, d).
     Option.bind (next_uint8 d) (\<lambda>(becn, d).
     Option.bind (next_uint24_be d) (\<lambda>(qp, d).
     Option.bind (next_uint8 d) (\<lambda>(ack_request, d).
     Option.bind (next_uint24_be d) (\<lambda>(psn, d). Some (opcode, psn, d))))))))"

definition parse_write :: "deserializer \<Rightarrow> (u64 \<times> u32 \<times> bytes) option" where
  "parse_write d =
     Option.bind (next_uint64_be d) (\<lambda>(address, d).
     Option.bind (next_uint32_be d) (\<lambda>(rkey, d).
     Option.bind (next_uint32_be d) (\<lambda>(sz, d).
     Option.bind (next_pointer d (unat sz)) (\<lambda>(content, d). Some (address, sz, content)))))"

definition parse_write_immediate :: "deserializer \<Rightarrow> (u64 \<times> u32 \<times> u32 \<times> bytes) option" where
  "parse_write_immediate d =
     Option.bind (next_uint64_be d) (\<lambda>(address, d).
     Option.bind (next_uint32_be d) (\<lambda>(rkey, d).
     Option.bind (next_uint32_be d) (\<lambda>(sz, d).
     Option.bind (next_uint32_be d) (\<lambda>(imm_data, d).
     Option.bind (next_pointer d (unat sz)) (\<lambda>(content, d). Some (address, sz, imm_data, content))))))"

definition count_drops :: "u32 \<Rightarrow> linux_receiver \<Rightarrow> linux_receiver" where
  "count_drops psn st =
     (let next_psn = (rx_last_psn st + 1) AND 0xFFFFFF;
          diff = (psn - next_psn) AND 0xFFFFFF in
      st\<lparr>rx_packets_dropped := (if rx_first st then rx_packets_dropped st else rx_packets_dropped st + ucast diff),
         rx_last_psn := psn, rx_first := False\<rparr>)"

definition receive_write :: "rx_config \<Rightarrow> u64 \<Rightarrow> u32 \<Rightarrow> bytes \<Rightarrow> linux_receiver \<Rightarrow> linux_receiver" where
  "receive_write cfg address sz content st =
     (let target_address = address + received_address_offset cfg in
      if cu_buffer cfg \<le> target_address \<and> target_address + ucast sz \<le> cu_buffer cfg + cu_buffer_size cfg
      then
        let offset = (target_address - cu_buffer cfg) mod cu_page_size cfg in
        if cu_page_size cfg < offset + ucast sz then st
        else (on_receiving (\<lambda>d. d\<lparr>desc_memory := put_bytes (unat offset) content (desc_memory d)\<rparr>) st)
               \<lparr>rx_frame_bytes_received := rx_frame_bytes_received st + sz\<rparr>
      else st)"

definition METADATA_SIZE :: u32 where "METADATA_SIZE = 128"

text \<open>The statistics of the frame, and the exchange of the buffer, whose next one is filled with \<open>0xFF\<close>.\<close>

definition record_frame :: "timespec \<Rightarrow> u32 \<Rightarrow> frame_metadata \<Rightarrow> linux_receiver \<Rightarrow> linux_receiver" where
  "record_frame now imm_data md st =
     (let (number, counter) = xc_update (md_frame_number md) (rx_frame_number st) in
      on_receiving (\<lambda>d. d\<lparr>desc_metadata := (desc_metadata d)
         \<lparr>lm_frame_packets_received := rx_frame_packets_received st,
          lm_frame_bytes_received := rx_frame_bytes_received st,
          lm_received_frame_number := rx_frame_count st, lm_frame_start := rx_frame_start st,
          lm_frame_end := now, lm_imm_data := imm_data, lm_packets_dropped := rx_packets_dropped st,
          lm_received := now, lm_frame_metadata := md, lm_frame_number := number\<rparr>\<rparr>)
        (st\<lparr>rx_frame_number := counter\<rparr>))"

definition hand_over :: "rx_config \<Rightarrow> linux_receiver \<Rightarrow> rx_outcome" where
  "hand_over cfg st =
     (case rx_signal st of
        None \<Rightarrow> Undefined
      | Some st \<Rightarrow> Running ((on_receiving (\<lambda>d. d\<lparr>desc_memory :=
          put_bytes 0 (replicate (unat (cu_page_size cfg)) 0xFF) (desc_memory d)\<rparr>) st)
          \<lparr>rx_frame_packets_received := 0, rx_frame_bytes_received := 0\<rparr>))"

definition receive_immediate :: "rx_config \<Rightarrow> timespec \<Rightarrow> u32 \<Rightarrow> u32 \<Rightarrow> bytes \<Rightarrow> linux_receiver \<Rightarrow> rx_outcome" where
  "receive_immediate cfg now sz imm_data content st0 =
     (let st = st0\<lparr>rx_frame_count := rx_frame_count st0 + 1\<rparr> in
      if sz \<noteq> METADATA_SIZE then Running st else
      case deserialize_metadata content of
        Inl e \<Rightarrow> Thrown e st
      | Inr md \<Rightarrow>
          let st = record_frame now imm_data md st
          in if rx_pages cfg \<le> imm_data AND 0xFFF
             then Thrown (Runtime_error ''Invalid page'') st
             else hand_over cfg st)"

definition packet_arrived :: "timespec \<Rightarrow> linux_receiver \<Rightarrow> linux_receiver" where
  "packet_arrived now st =
     st\<lparr>rx_packet_count := rx_packet_count st + 1,
        rx_frame_packets_received := rx_frame_packets_received st + 1,
        rx_frame_start := (if rx_frame_bytes_received st = 0 then now else rx_frame_start st)\<rparr>"

definition receive_packet :: "rx_config \<Rightarrow> timespec \<Rightarrow> bytes \<Rightarrow> linux_receiver \<Rightarrow> rx_outcome" where
  "receive_packet cfg now received st0 =
     (let st = packet_arrived now st0 in
      case parse_ib_header received of
        None \<Rightarrow> Running st
      | Some (opcode, psn, d) \<Rightarrow>
          let st = count_drops psn st in
          case (if opcode = 0x2A then parse_write d else None) of
            Some (address, sz, content) \<Rightarrow> Running (receive_write cfg address sz content st)
          | None \<Rightarrow>
              (case (if opcode = 0x2B then parse_write_immediate d else None) of
                 Some (address, sz, imm_data, content) \<Rightarrow> receive_immediate cfg now sz imm_data content st
               | None \<Rightarrow> Running st))"

text \<open>
  A round of the loop: what \<open>recv\<close> gives (no bytes for an error, a timeout or an empty datagram,
  and whether \<open>errno\<close> then asks for another try) and the clock, which may fail.
\<close>

record recv_call =
  rc_bytes :: bytes
  rc_try_again :: bool
  rc_now :: "timespec option"

definition RX_PACKET_SIZE :: nat where "RX_PACKET_SIZE = 10240"

definition receive_step :: "rx_config \<Rightarrow> recv_call \<Rightarrow> linux_receiver \<Rightarrow> rx_outcome" where
  "receive_step cfg rc st =
     (case rc_now rc of
        None \<Rightarrow> Left_loop st
      | Some now \<Rightarrow>
          if rc_bytes rc = [] then
            if rc_try_again rc then if rx_exit st then Left_loop st else Running st
            else Left_loop st
          else receive_packet cfg now (take RX_PACKET_SIZE (rc_bytes rc)) st)"

subsection \<open>The application\<close>

text \<open>
  \<open>get_next_frame\<close>: it announces the consumer, waits until a frame is ready (or the time is over,
  and it gives up), and takes the first one. The copy reads as many bytes as the metadata says
  the board has written; \<open>None\<close> when the buffer does not have them.
\<close>

definition enter_get_next_frame :: "linux_receiver \<Rightarrow> linux_receiver" where
  "enter_get_next_frame st = st\<lparr>rx_consumer_ready := True\<rparr>"

definition take_frame :: "rx_config \<Rightarrow> linux_receiver \<Rightarrow> ((receiver_metadata \<times> bytes option) \<times> linux_receiver) option" where
  "take_frame cfg st =
     (case rx_ready st of
        [] \<Rightarrow> None
      | d # ds \<Rightarrow>
          let desc = rx_descriptors st ! d;
              metadata = (desc_metadata desc)\<lparr>lm_frame_memory := cu_buffer cfg\<rparr>;
              n = unat (md_bytes_written (lm_frame_metadata metadata))
          in Some ((metadata, if n \<le> length (desc_memory desc) then Some (take n (desc_memory desc)) else None),
                   st\<lparr>rx_ready := ds, rx_available := rx_available st @ [d]\<rparr>))"

definition frames_ready :: "linux_receiver \<Rightarrow> bool" where
  "frames_ready st \<longleftrightarrow> rx_ready st \<noteq> []"

definition rx_close :: "linux_receiver \<Rightarrow> linux_receiver" where
  "rx_close st = st\<lparr>rx_exit := True\<rparr>"

subsection \<open>The buffers\<close>

text \<open>Each buffer is either received into, available or ready, and only one of these.\<close>

definition rx_ok :: "rx_config \<Rightarrow> linux_receiver \<Rightarrow> bool" where
  "rx_ok cfg st \<longleftrightarrow>
     distinct (rx_receiving st # rx_available st @ rx_ready st) \<and>
     set (rx_receiving st # rx_available st @ rx_ready st) = {..<rx_buffer_count cfg} \<and>
     length (rx_descriptors st) = rx_buffer_count cfg \<and>
     (\<forall>d \<in> set (rx_descriptors st). length (desc_memory d) = unat (rx_buffer_size cfg))"

definition memory_ok :: "rx_config \<Rightarrow> (nat \<Rightarrow> bytes) \<Rightarrow> bool" where
  "memory_ok cfg memory \<longleftrightarrow> (\<forall>i < rx_buffer_count cfg. length (memory i) = unat (rx_buffer_size cfg))"

text \<open>The configuration: room for a frame in the queue, and pages that are no larger than \<open>2^48\<close>.\<close>

definition rx_config_ok :: "rx_config \<Rightarrow> bool" where
  "rx_config_ok cfg \<longleftrightarrow>
     0 < queue_size cfg \<and> queue_size cfg + 1 \<noteq> 0 \<and> 0 < cu_page_size cfg \<and> cu_page_size cfg \<le> 2 ^ 48"

lemma rx_buffer_count_ok: "rx_config_ok cfg \<Longrightarrow> 2 \<le> rx_buffer_count cfg"
proof -
  assume ok: "rx_config_ok cfg"
  then have "unat (queue_size cfg + 1) = unat (queue_size cfg) + 1"
    unfolding rx_config_ok_def by (metis Suc_eq_plus1 add.commute unatSuc)
  moreover have "0 < unat (queue_size cfg)" using ok by (simp add: rx_config_ok_def word_less_nat_alt)
  ultimately show ?thesis by (simp add: rx_buffer_count_def)
qed

lemma start_receiver_ok:
  assumes "rx_config_ok cfg" and "memory_ok cfg memory"
  shows "rx_ok cfg (start_receiver cfg memory)"
proof -
  have "insert 0 {1..<rx_buffer_count cfg} = {..<rx_buffer_count cfg}"
    using rx_buffer_count_ok [OF assms(1)] by auto
  then show ?thesis using assms(2) by (auto simp: rx_ok_def start_receiver_def memory_ok_def)
qed

lemma rx_ok_receiving: "rx_ok cfg st \<Longrightarrow> rx_receiving st < length (rx_descriptors st)"
  by (auto simp: rx_ok_def)

lemma rx_ok_on_receiving:
  assumes "rx_ok cfg st" and "\<And>d. length (desc_memory (f d)) = length (desc_memory d)"
  shows "rx_ok cfg (on_receiving f st)"
  using assms rx_ok_receiving [OF assms(1)]
  by (auto simp: rx_ok_def on_receiving_def dest!: set_update_subset_insert [THEN subsetD] intro: nth_mem)

text \<open>The parts of the state that the invariant is not about.\<close>

lemma rx_ok_update [simp]:
  "rx_ok cfg (st\<lparr>rx_consumer_ready := x0\<rparr>) = rx_ok cfg st"
  "rx_ok cfg (st\<lparr>rx_exit := x1\<rparr>) = rx_ok cfg st"
  "rx_ok cfg (st\<lparr>rx_frame_number := x2\<rparr>) = rx_ok cfg st"
  "rx_ok cfg (st\<lparr>rx_frame_count := x3\<rparr>) = rx_ok cfg st"
  "rx_ok cfg (st\<lparr>rx_packet_count := x4\<rparr>) = rx_ok cfg st"
  "rx_ok cfg (st\<lparr>rx_frame_packets_received := x5\<rparr>) = rx_ok cfg st"
  "rx_ok cfg (st\<lparr>rx_frame_bytes_received := x6\<rparr>) = rx_ok cfg st"
  "rx_ok cfg (st\<lparr>rx_frame_start := x7\<rparr>) = rx_ok cfg st"
  "rx_ok cfg (st\<lparr>rx_packets_dropped := x8\<rparr>) = rx_ok cfg st"
  "rx_ok cfg (st\<lparr>rx_last_psn := x9\<rparr>) = rx_ok cfg st"
  "rx_ok cfg (st\<lparr>rx_first := x10\<rparr>) = rx_ok cfg st"
  by (simp_all add: rx_ok_def)

lemma next_descriptor_total:
  assumes "rx_ok cfg st" and "rx_config_ok cfg"
  obtains d st' where "next_descriptor st = Some (d, st')"
    "distinct (rx_receiving st # d # rx_available st' @ rx_ready st')"
    "set (rx_receiving st # d # rx_available st' @ rx_ready st') = {..<rx_buffer_count cfg}"
    "rx_descriptors st' = rx_descriptors st" "rx_receiving st' = rx_receiving st"
proof -
  have parts: "distinct (rx_receiving st # rx_available st @ rx_ready st)"
      "set (rx_receiving st # rx_available st @ rx_ready st) = {..<rx_buffer_count cfg}"
    using assms(1) by (simp_all add: rx_ok_def)
  have "rx_available st @ rx_ready st \<noteq> []"
  proof
    assume "rx_available st @ rx_ready st = []"
    then have "card {..<rx_buffer_count cfg} = card {rx_receiving st}" using parts(2) by simp
    then show False using rx_buffer_count_ok [OF assms(2)] by simp
  qed
  then show thesis
    using that parts unfolding next_descriptor_def Let_def
    by (cases "rx_ready st"; cases "rx_available st"; cases "rx_consumer_ready st") (auto simp: insert_commute Un_commute)
qed

lemma rx_signal_ok:
  assumes "rx_ok cfg st" and "rx_config_ok cfg"
  obtains st' where "rx_signal st = Some st'" "rx_ok cfg st'"
    "rx_descriptors st' = rx_descriptors st" "rx_receiving st' \<noteq> rx_receiving st"
proof -
  from next_descriptor_total [OF assms] obtain d st' where n: "next_descriptor st = Some (d, st')"
    "distinct (rx_receiving st # d # rx_available st' @ rx_ready st')"
    "set (rx_receiving st # d # rx_available st' @ rx_ready st') = {..<rx_buffer_count cfg}"
    "rx_descriptors st' = rx_descriptors st" "rx_receiving st' = rx_receiving st" by blast
  let ?st = "st'\<lparr>rx_ready := rx_ready st' @ [rx_receiving st], rx_receiving := d\<rparr>"
  have "rx_ok cfg ?st" using n assms(1) by (auto simp: rx_ok_def)
  with n show thesis by (intro that [of ?st]) (auto simp: rx_signal_def)
qed

text \<open>A round of the loop keeps the invariant, and never takes from an empty queue.\<close>

definition outcome_ok :: "rx_config \<Rightarrow> rx_outcome \<Rightarrow> bool" where
  "outcome_ok cfg r \<longleftrightarrow>
     (case r of Running st \<Rightarrow> rx_ok cfg st | Left_loop st \<Rightarrow> rx_ok cfg st | Thrown e st \<Rightarrow> rx_ok cfg st
      | Undefined \<Rightarrow> False)"

lemma outcome_ok_simps [simp]:
  "outcome_ok cfg (Running st) = rx_ok cfg st" "outcome_ok cfg (Left_loop st) = rx_ok cfg st"
  "outcome_ok cfg (Thrown e st) = rx_ok cfg st" "outcome_ok cfg Undefined = False"
  by (simp_all add: outcome_ok_def)

lemma rx_ok_record_frame: "rx_ok cfg st \<Longrightarrow> rx_ok cfg (record_frame now imm md st)"
  by (simp add: record_frame_def rx_ok_on_receiving split: prod.split)

lemma hand_over_ok:
  assumes "rx_ok cfg st" and "rx_config_ok cfg"
  shows "outcome_ok cfg (hand_over cfg st)"
proof -
  obtain st1 where st1: "rx_signal st = Some st1" "rx_ok cfg st1" by (rule rx_signal_ok [OF assms])
  let ?st2 = "on_receiving (\<lambda>d. d\<lparr>desc_memory :=
      put_bytes 0 (replicate (unat (cu_page_size cfg)) 0xFF) (desc_memory d)\<rparr>) st1"
  have "rx_ok cfg ?st2" by (rule rx_ok_on_receiving [OF st1(2)]) simp
  then show ?thesis by (simp add: hand_over_def st1(1))
qed

lemma receive_immediate_ok:
  assumes "rx_ok cfg st" and "rx_config_ok cfg"
  shows "outcome_ok cfg (receive_immediate cfg now sz imm content st)"
proof -
  let ?st = "st\<lparr>rx_frame_count := rx_frame_count st + 1\<rparr>"
  have ok: "rx_ok cfg ?st" using assms(1) by simp
  have rec: "rx_ok cfg (record_frame now imm md ?st)" for md by (rule rx_ok_record_frame [OF ok])
  show ?thesis
    using ok rec hand_over_ok [OF rec assms(2)] by (simp add: receive_immediate_def Let_def split: sum.split)
qed

lemma receive_write_ok:
  assumes "rx_ok cfg st"
  shows "rx_ok cfg (receive_write cfg address sz content st)"
proof -
  have "rx_ok cfg (on_receiving (\<lambda>d. d\<lparr>desc_memory := put_bytes p bs (desc_memory d)\<rparr>) st)" for p bs
    by (rule rx_ok_on_receiving [OF assms]) simp
  with assms show ?thesis
    unfolding receive_write_def Let_def by (simp only: rx_ok_update if_cancel split: if_split) blast
qed

lemma count_drops_ok: "rx_ok cfg st \<Longrightarrow> rx_ok cfg (count_drops psn st)"
  by (simp add: count_drops_def Let_def)

lemma receive_packet_ok:
  assumes "rx_ok cfg st" and "rx_config_ok cfg"
  shows "outcome_ok cfg (receive_packet cfg now received st)"
proof -
  have "rx_ok cfg (packet_arrived now st)" using assms(1) by (simp add: packet_arrived_def)
  then show ?thesis
    using assms(2) unfolding receive_packet_def Let_def
    by (auto simp del: if_split_asm split: option.split prod.split
        intro: receive_write_ok receive_immediate_ok count_drops_ok)
qed

lemma receive_step_ok:
  assumes "rx_ok cfg st" and "rx_config_ok cfg"
  shows "outcome_ok cfg (receive_step cfg rc st)"
  using assms receive_packet_ok [OF assms] by (simp add: receive_step_def split: option.split)

subsection \<open>The receiver and the application together\<close>

inductive rx_step :: "rx_config \<Rightarrow> linux_receiver \<Rightarrow> linux_receiver \<Rightarrow> bool" for cfg where
  rx_receive: "receive_step cfg rc st = Running st' \<Longrightarrow> rx_step cfg st st'"
| rx_enter: "rx_step cfg st (enter_get_next_frame st)"
| rx_take: "take_frame cfg st = Some (r, st') \<Longrightarrow> rx_step cfg st st'"
| rx_closing: "rx_step cfg st (rx_close st)"

inductive rx_reachable :: "rx_config \<Rightarrow> linux_receiver \<Rightarrow> bool" for cfg where
  rx_start: "memory_ok cfg memory \<Longrightarrow> rx_reachable cfg (start_receiver cfg memory)"
| rx_next: "rx_reachable cfg st \<Longrightarrow> rx_step cfg st st' \<Longrightarrow> rx_reachable cfg st'"

lemma take_frameE:
  assumes "take_frame cfg st = Some (r, st')"
  obtains d ds where "rx_ready st = d # ds" "st' = st\<lparr>rx_ready := ds, rx_available := rx_available st @ [d]\<rparr>"
  using assms by (simp add: take_frame_def Let_def split: list.splits)

lemma take_frame_ok:
  assumes "rx_ok cfg st" and "take_frame cfg st = Some (r, st')"
  shows "rx_ok cfg st'"
proof -
  obtain d ds where d: "rx_ready st = d # ds" "st' = st\<lparr>rx_ready := ds, rx_available := rx_available st @ [d]\<rparr>"
    by (rule take_frameE [OF assms(2)])
  have "mset (rx_receiving st' # rx_available st' @ rx_ready st') = mset (rx_receiving st # rx_available st @ rx_ready st)"
    by (simp add: d)
  then have "distinct (rx_receiving st' # rx_available st' @ rx_ready st') =
      distinct (rx_receiving st # rx_available st @ rx_ready st)"
    "set (rx_receiving st' # rx_available st' @ rx_ready st') = set (rx_receiving st # rx_available st @ rx_ready st)"
    by (fact mset_eq_imp_distinct_iff, fact mset_eq_setD)
  with assms(1) d(2) show ?thesis unfolding rx_ok_def by simp
qed

lemma rx_step_ok:
  assumes "rx_step cfg st st'" and "rx_ok cfg st" and "rx_config_ok cfg"
  shows "rx_ok cfg st'"
  using assms(1)
proof cases
  case rx_receive
  then show ?thesis using receive_step_ok [OF assms(2,3)] by (metis outcome_ok_simps(1))
next
  case rx_enter
  then show ?thesis using assms(2) by (simp add: enter_get_next_frame_def)
next
  case rx_take
  then show ?thesis using take_frame_ok [OF assms(2)] by blast
next
  case rx_closing
  then show ?thesis using assms(2) by (simp add: rx_close_def)
qed

lemma rx_reachable_ok:
  assumes "rx_reachable cfg st" and "rx_config_ok cfg"
  shows "rx_ok cfg st"
  using assms(1)
proof induction
  case (rx_start memory)
  then show ?case by (rule start_receiver_ok [OF assms(2)])
next
  case (rx_next st st')
  then show ?case using rx_step_ok assms(2) by blast
qed

subsection \<open>Frames that nobody takes\<close>

text \<open>
  Until the application asks for its first frame, the queue holds at most the last one; after
  that, the queue keeps its frames while there are buffers left, and the oldest one goes first.
\<close>

definition kept :: "linux_receiver \<Rightarrow> nat list" where
  "kept st =
     (if rx_consumer_ready st \<and> rx_available st \<noteq> [] then rx_ready st
      else if \<not> rx_consumer_ready st \<and> rx_ready st = [] then []
      else tl (rx_ready st))"

lemma rx_signal_kept:
  assumes "rx_signal st = Some st'"
  shows "rx_ready st' = kept st @ [rx_receiving st]"
  using assms
  by (auto simp: rx_signal_def next_descriptor_def kept_def Let_def split: list.splits if_splits)

definition unattended_ok :: "linux_receiver \<Rightarrow> bool" where
  "unattended_ok st \<longleftrightarrow> (rx_consumer_ready st \<or> length (rx_ready st) \<le> 1)"

lemma rx_signal_consumer: "rx_signal st = Some st' \<Longrightarrow> rx_consumer_ready st' = rx_consumer_ready st"
  by (auto simp: rx_signal_def next_descriptor_def Let_def split: list.splits if_splits)

lemma rx_signal_unattended:
  "rx_signal st = Some st' \<Longrightarrow> unattended_ok st \<Longrightarrow> unattended_ok st'"
  using rx_signal_kept [of st st'] rx_signal_consumer [of st st']
  by (cases "rx_ready st") (auto simp: unattended_ok_def kept_def)

lemma unattended_update [simp]:
  "unattended_ok (st\<lparr>rx_frame_count := a\<rparr>) = unattended_ok st"
  "unattended_ok (st\<lparr>rx_packet_count := a\<rparr>) = unattended_ok st"
  "unattended_ok (st\<lparr>rx_frame_number := c\<rparr>) = unattended_ok st"
  "unattended_ok (st\<lparr>rx_frame_packets_received := a\<rparr>) = unattended_ok st"
  "unattended_ok (st\<lparr>rx_frame_bytes_received := a\<rparr>) = unattended_ok st"
  "unattended_ok (st\<lparr>rx_frame_start := t\<rparr>) = unattended_ok st"
  "unattended_ok (st\<lparr>rx_exit := b\<rparr>) = unattended_ok st"
  "unattended_ok (on_receiving f st) = unattended_ok st"
  "unattended_ok (count_drops psn st) = unattended_ok st"
  "unattended_ok (packet_arrived now st) = unattended_ok st"
  "unattended_ok (record_frame now imm md st) = unattended_ok st"
  "unattended_ok (receive_write cfg address sz content st) = unattended_ok st"
  by (simp_all add: unattended_ok_def on_receiving_def count_drops_def packet_arrived_def record_frame_def
      receive_write_def Let_def split: prod.split)

lemma receive_step_unattended:
  "receive_step cfg rc st = Running st' \<Longrightarrow> unattended_ok st \<Longrightarrow> unattended_ok st'"
proof -
  have hand: "unattended_ok s'" if "hand_over cfg s = Running s'" "unattended_ok s" for s s'
    using that rx_signal_unattended by (auto simp: hand_over_def split: option.splits)
  have imm: "unattended_ok s'" if "receive_immediate cfg now sz imm content s = Running s'" "unattended_ok s"
    for now sz imm content s s'
    using that hand by (auto simp: receive_immediate_def Let_def split: sum.splits if_splits)
  have "unattended_ok s'" if "receive_packet cfg now bs s = Running s'" "unattended_ok s" for now bs s s'
    using that imm by (auto simp: receive_packet_def Let_def split: option.splits if_splits prod.splits)
  then show "receive_step cfg rc st = Running st' \<Longrightarrow> unattended_ok st \<Longrightarrow> unattended_ok st'"
    by (auto simp: receive_step_def split: option.splits if_splits)
qed

lemma rx_reachable_unattended: "rx_reachable cfg st \<Longrightarrow> unattended_ok st"
proof (induction rule: rx_reachable.induct)
  case (rx_start memory)
  then show ?case by (simp add: unattended_ok_def start_receiver_def)
next
  case (rx_next st st')
  from rx_next(2) show ?case
  proof cases
    case rx_receive
    then show ?thesis using receive_step_unattended rx_next.IH by blast
  next
    case rx_enter
    then show ?thesis by (simp add: enter_get_next_frame_def unattended_ok_def)
  next
    case rx_take
    then show ?thesis using rx_next.IH by (auto simp: unattended_ok_def elim!: take_frameE)
  next
    case rx_closing
    then show ?thesis using rx_next.IH by (simp add: rx_close_def)
  qed
qed

subsection \<open>Counting lost packets\<close>

text \<open>
  A jump in the 24-bit sequence numbers counts the numbers that were left out.
\<close>

lemma count_drops_jump:
  assumes "\<not> rx_first st" and "unat (rx_last_psn st) < 2 ^ 24" and "k < 2 ^ 24"
    and "unat psn = (unat (rx_last_psn st) + 1 + k) mod 2 ^ 24"
  shows "rx_packets_dropped (count_drops psn st) = rx_packets_dropped st + of_nat k"
proof -
  have mask: "unat (x AND 0xFFFFFF) = unat x mod 2 ^ 24" for x :: u32
  proof -
    have "x AND 0xFFFFFF = take_bit 24 x" by (simp add: take_bit_eq_mask mask_eq_exp_minus_1)
    then show ?thesis by (metis take_bit_eq_mod unsigned_take_bit_eq)
  qed
  let ?next = "(rx_last_psn st + 1) AND 0xFFFFFF"
  have nx: "unat ?next = (unat (rx_last_psn st) + 1) mod 2 ^ 24"
    using assms(2) by (simp add: mask unat_word_ariths)
  have "int (unat ((psn - ?next) AND 0xFFFFFF)) = uint (psn - ?next) mod 2 ^ 24"
    unfolding mask by (simp add: zmod_int)
  also have "\<dots> = (int (unat psn) - int (unat ?next)) mod 2 ^ 24"
    by (simp add: uint_word_ariths mod_mod_cancel)
  also have "\<dots> = (int (unat (rx_last_psn st)) + 1 + int k - (int (unat (rx_last_psn st)) + 1)) mod 2 ^ 24"
    unfolding nx assms(4) zmod_int by (simp add: mod_diff_eq)
  also have "\<dots> = int k" using assms(3) by simp
  finally have "unat ((psn - ?next) AND 0xFFFFFF) = k" by (simp only: of_nat_eq_iff)
  then have "(ucast ((psn - ?next) AND 0xFFFFFF) :: u64) = of_nat k" by (metis of_nat_unat)
  then show ?thesis using assms(1) by (simp add: count_drops_def Let_def)
qed

end
