(* ===== verification/Frame_Delivery.thy ===== *)
theory Frame_Delivery
  imports Roce_Transmitter Linux_Receiver
begin

text \<open>
  From \<open>RoCEv2Transmitter\<close> to \<open>LinuxReceiver\<close>: what the receiver makes of the packets of a frame.
  A packet reaches the receiver without its IP and UDP headers, which the network layer removes.
\<close>

definition udp_payload :: "bytes \<Rightarrow> bytes" where
  "udp_payload packet = drop UDP_PAYLOAD_OFFSET packet"

lemma udp_payload_packet:
  "udp_payload (packet_bytes crc32 h payload) =
     bt_header_bytes (bt_h h) @ ret_header_bytes (ret_h h) @ payload @ le_bytes 4 (packet_crc crc32 h payload)"
  by (simp add: udp_payload_def packet_bytes_def)

subsection \<open>Reading the headers\<close>

lemma be_bytes_4_3: "be_bytes 4 (v :: u32) = byte_at 24 v # be_bytes 3 v"
  by (simp add: eval_nat_numeral)

lemma low24_take_bit: "v AND 0xFFFFFF = take_bit 24 (v :: u32)"
  by (simp add: take_bit_eq_mask mask_eq_exp_minus_1)

lemma low24: "unat (v AND 0xFFFFFF :: u32) = unat v mod 2 ^ 24"
  unfolding low24_take_bit by (metis take_bit_eq_mod unsigned_take_bit_eq)

lemma low24_small: "unat v < 2 ^ 24 \<Longrightarrow> v AND 0xFFFFFF = (v :: u32)"
  by (simp add: word_unat_eq_iff low24)

lemma be_bytes_3_low: "be_bytes 3 (v :: u32) = be_bytes 3 (v AND 0xFFFFFF)"
  unfolding low24_take_bit
  by (simp add: eval_nat_numeral) (intro conjI bit_word_eqI; auto simp: bit_byte_at bit_take_bit_iff)

lemma next_uint24_be_bytes:
  assumes "d_ok d" and "unread d = be_bytes 3 (v :: u32) @ rest"
  obtains d' where "next_uint24_be d = Some (v AND 0xFFFFFF, d')" "d_ok d'" "unread d' = rest"
proof -
  let ?v = "v AND 0xFFFFFF"
  have u: "unread d = be_bytes 3 ?v @ rest" using assms(2) be_bytes_3_low [of v] by simp
  obtain d' where d': "next_bytes d 3 = Some (be_bytes 3 ?v, d')" "d_ok d'" "unread d' = rest"
    by (rule next_bytes_unread [OF assms(1) u]) simp
  have "?v < 2 ^ 24" by (simp add: word_less_nat_alt low24)
  then have "drop_bit (8 * 3) ?v = 0" using bit_small [of ?v 24] by (intro bit_word_eqI) (auto simp: bit_simps)
  then have "be_word (be_bytes 3 ?v) = ?v" using be_word_be_bytes_aux [of 3 ?v] by (simp add: be_word_def)
  with d' show thesis by (intro that [of d']) (simp_all add: next_uint24_be_def)
qed

lemma parse_ib_header_bytes:
  assumes "length rest < 2 ^ 31"
  obtains d where "parse_ib_header (bt_header_bytes h @ rest) = Some (bt_opcode h, bt_psn h AND 0xFFFFFF, d)"
    "d_ok d" "unread d = rest"
proof -
  let ?bs = "bt_header_bytes h @ rest"
  let ?d = "new_deserializer ?bs (length ?bs)"
  have d: "d_ok ?d" "unread ?d = be_bytes 1 (bt_opcode h) @ be_bytes 1 (bt_flags h) @ be_bytes 2 (bt_p_key h) @
      be_bytes 1 (byte_at 24 (bt_qp h)) @ be_bytes 3 (bt_qp h) @ be_bytes 1 (byte_at 24 (bt_psn h)) @
      be_bytes 3 (bt_psn h) @ rest"
    using assms by (simp_all add: bt_header_bytes_def be_bytes_4_3 byte_at_ucast)
  obtain d1 where 1: "next_uint8 ?d = Some (bt_opcode h, d1)" "d_ok d1"
      "unread d1 = be_bytes 1 (bt_flags h) @ be_bytes 2 (bt_p_key h) @
      be_bytes 1 (byte_at 24 (bt_qp h)) @ be_bytes 3 (bt_qp h) @ be_bytes 1 (byte_at 24 (bt_psn h)) @
      be_bytes 3 (bt_psn h) @ rest"
    using w8.get_enc [OF d] by blast
  obtain d2 where 2: "next_uint8 d1 = Some (bt_flags h, d2)" "d_ok d2"
      "unread d2 = be_bytes 2 (bt_p_key h) @
      be_bytes 1 (byte_at 24 (bt_qp h)) @ be_bytes 3 (bt_qp h) @ be_bytes 1 (byte_at 24 (bt_psn h)) @
      be_bytes 3 (bt_psn h) @ rest"
    using w8.get_enc [OF 1(2,3)] by blast
  obtain d3 where 3: "next_uint16_be d2 = Some (bt_p_key h, d3)" "d_ok d3"
      "unread d3 = be_bytes 1 (byte_at 24 (bt_qp h)) @ be_bytes 3 (bt_qp h) @ be_bytes 1 (byte_at 24 (bt_psn h)) @
      be_bytes 3 (bt_psn h) @ rest"
    using w16be.get_enc [OF 2(2,3)] by blast
  obtain d4 where 4: "next_uint8 d3 = Some (byte_at 24 (bt_qp h), d4)" "d_ok d4"
      "unread d4 = be_bytes 3 (bt_qp h) @ be_bytes 1 (byte_at 24 (bt_psn h)) @ be_bytes 3 (bt_psn h) @ rest"
    using w8.get_enc [OF 3(2,3)] by blast
  obtain d5 where 5: "next_uint24_be d4 = Some (bt_qp h AND 0xFFFFFF, d5)" "d_ok d5"
      "unread d5 = be_bytes 1 (byte_at 24 (bt_psn h)) @ be_bytes 3 (bt_psn h) @ rest"
    by (rule next_uint24_be_bytes [OF 4(2,3)])
  obtain d6 where 6: "next_uint8 d5 = Some (byte_at 24 (bt_psn h), d6)" "d_ok d6" "unread d6 = be_bytes 3 (bt_psn h) @ rest"
    using w8.get_enc [OF 5(2,3)] by blast
  obtain d7 where 7: "next_uint24_be d6 = Some (bt_psn h AND 0xFFFFFF, d7)" "d_ok d7" "unread d7 = rest"
    by (rule next_uint24_be_bytes [OF 6(2,3)])
  show thesis
    by (rule that [OF _ 7(2,3)]) (simp only: parse_ib_header_def 1(1) 2(1) 3(1) 4(1) 5(1) 6(1) 7(1) Option.bind.bind_lunit split_conv)
qed

lemma bind_pointer:
  assumes "d_ok d" and "unread d = bs @ rest" and "\<And>d'. f (bs, d') = r"
  shows "Option.bind (next_pointer d (length bs)) f = r"
proof -
  obtain d' where "next_bytes d (length bs) = Some (bs, d')" by (rule next_bytes_unread [OF assms(1,2) refl])
  with assms(3) show ?thesis by (simp add: next_pointer_def)
qed

lemma parse_write_bytes:
  assumes "d_ok d" and "unread d = ret_header_bytes h @ payload @ rest" and "unat (ret_content_size h) = length payload"
  shows "parse_write d = Some (ret_vaddress h, ret_content_size h, payload)"
proof -
  have u: "unread d = be_bytes 8 (ret_vaddress h) @ be_bytes 4 (ret_rkey h) @ be_bytes 4 (ret_content_size h) @ payload @ rest"
    using assms(2) by (simp add: ret_header_bytes_def)
  show ?thesis
    unfolding parse_write_def
    apply (rule w64be.bind_get [OF assms(1) u])
    apply (unfold split_conv, rule w32be.bind_get, assumption, assumption)+
    apply (simp only: split_conv assms(3))
    apply (rule bind_pointer, assumption, assumption)
    apply simp
    done
qed

lemma parse_write_immediate_bytes:
  assumes "d_ok d" and "unread d = ret_header_bytes h @ be_bytes 4 imm @ content @ rest"
    and "unat (ret_content_size h) = length content"
  shows "parse_write_immediate d = Some (ret_vaddress h, ret_content_size h, imm, content)"
proof -
  have u: "unread d = be_bytes 8 (ret_vaddress h) @ be_bytes 4 (ret_rkey h) @ be_bytes 4 (ret_content_size h) @
      be_bytes 4 imm @ content @ rest"
    using assms(2) by (simp add: ret_header_bytes_def)
  show ?thesis
    unfolding parse_write_immediate_def
    apply (rule w64be.bind_get [OF assms(1) u])
    apply (unfold split_conv, rule w32be.bind_get, assumption, assumption)+
    apply (simp only: split_conv assms(3))
    apply (rule bind_pointer, assumption, assumption)
    apply simp
    done
qed

subsection \<open>The metadata of the two sides\<close>

text \<open>The host reads the 32-bit halves of the board as one number, and half of the frame number.\<close>

definition host_metadata :: "tx_metadata \<Rightarrow> frame_metadata" where
  "host_metadata m =
     \<lparr>md_flags = tx_flags m, md_psn = tx_psn m, md_crc = tx_crc m,
      md_timestamp_s = push_bit 32 (ucast (tx_timestamp_s_high m)) OR ucast (tx_timestamp_s_low m),
      md_timestamp_ns = tx_timestamp_ns m,
      md_bytes_written = push_bit 32 (ucast (tx_bytes_written_high m)) OR ucast (tx_bytes_written_low m),
      md_frame_number = ucast (tx_frame_number m),
      md_metadata_s = push_bit 32 (ucast (tx_metadata_s_high m)) OR ucast (tx_metadata_s_low m),
      md_metadata_ns = tx_metadata_ns m\<rparr>"

lemma be_bytes_halves:
  "be_bytes 8 (push_bit 32 (ucast hi) OR ucast lo :: u64) = be_bytes 4 (hi :: u32) @ be_bytes 4 (lo :: u32)"
  by (simp add: enc_be) (intro conjI bit_word_eqI; auto simp: bit_byte_at bit_simps dest: bit_imp_le_length)

lemma be_bytes_number: "be_bytes 4 (f :: u32) = be_bytes 2 (ucast (drop_bit 16 f) :: u16) @ be_bytes 2 (ucast f :: u16)"
  by (simp add: enc_be) (intro conjI bit_word_eqI; auto simp: bit_byte_at bit_simps dest: bit_imp_le_length)

lemma tx_metadata_bytes_host:
  "tx_metadata_bytes m = metadata_bytes (host_metadata m) (ucast (drop_bit 16 (tx_frame_number m))) @ tx_reserved m"
  unfolding tx_metadata_bytes_def metadata_bytes_def host_metadata_def frame_metadata.simps be_bytes_halves
  by (simp add: be_bytes_number [of "tx_frame_number m"])

subsection \<open>A packet of data\<close>

text \<open>A frame that fits into page \<open>k\<close> of the receiver's buffer.\<close>

definition frame_window :: "rx_config \<Rightarrow> u64 \<Rightarrow> nat \<Rightarrow> nat \<Rightarrow> bool" where
  "frame_window cfg address k len \<longleftrightarrow>
     unat (address + received_address_offset cfg) = unat (cu_buffer cfg) + k * unat (cu_page_size cfg) \<and>
     k * unat (cu_page_size cfg) + len \<le> unat (cu_buffer_size cfg) \<and> len \<le> unat (cu_page_size cfg) \<and>
     unat (cu_buffer cfg) + unat (cu_buffer_size cfg) < 2 ^ 64"

definition store_bytes :: "nat \<Rightarrow> bytes \<Rightarrow> linux_receiver \<Rightarrow> linux_receiver" where
  "store_bytes p bs = on_receiving (\<lambda>d. d\<lparr>desc_memory := put_bytes p bs (desc_memory d)\<rparr>)"

lemma unat_add_u64: "unat a + unat b < 2 ^ 64 \<Longrightarrow> unat (a + b :: u64) = unat a + unat b"
  by (simp add: unat_word_ariths)

lemma receive_write_window:
  assumes win: "frame_window cfg address k len" and cfg: "rx_config_ok cfg"
    and n: "p + n \<le> len" "n < 2 ^ 32" "0 < n"
  shows "receive_write cfg (address + of_nat p) (of_nat n) payload st =
    (store_bytes p payload st)\<lparr>rx_frame_bytes_received := rx_frame_bytes_received st + of_nat n\<rparr>"
proof -
  let ?page = "unat (cu_page_size cfg)" and ?T = "address + of_nat p + received_address_offset cfg"
  have page: "0 < ?page" "?page \<le> 2 ^ 48"
    using cfg by (simp_all add: rx_config_ok_def word_less_nat_alt word_le_nat_alt)
  have w: "unat (address + received_address_offset cfg) = unat (cu_buffer cfg) + k * ?page"
      "k * ?page + len \<le> unat (cu_buffer_size cfg)" "len \<le> ?page"
      "unat (cu_buffer cfg) + unat (cu_buffer_size cfg) < 2 ^ 64"
    using win by (simp_all add: frame_window_def)
  have small: "unat (of_nat m :: u64) = m" if "m < 2 ^ 64" for m
    using that by (simp add: unat_of_nat)
  have T: "unat ?T = unat (cu_buffer cfg) + k * ?page + p"
  proof -
    have "unat ?T = unat ((address + received_address_offset cfg) + of_nat p)" by (simp add: ac_simps)
    also have "\<dots> = (unat (address + received_address_offset cfg) + unat (of_nat p :: u64)) mod 2 ^ 64"
      by (simp only: unat_word_ariths) simp
    also have "\<dots> = unat (cu_buffer cfg) + k * ?page + p" using w n small [of p] by simp
    finally show ?thesis .
  qed
  define target where "target = ?T"
  define sz :: u64 where "sz = ucast (of_nat n :: u32)"
  have u: "unat target = unat (cu_buffer cfg) + k * ?page + p" "unat sz = n"
    using T n(2) unat_of_nat_u32 [of n]
    by (simp_all add: target_def sz_def unsigned_ucast_eq take_bit_nat_eq_self)
  have last: "unat (cu_buffer cfg + cu_buffer_size cfg) = unat (cu_buffer cfg) + unat (cu_buffer_size cfg)"
    using w by (intro unat_add_u64) simp
  have end_target: "unat (target + sz) = unat target + n"
    using w n unat_add_u64 [of target sz] by (simp add: u)
  have "cu_buffer cfg \<le> target" by (simp add: word_le_nat_alt u)
  then have diff: "unat (target - cu_buffer cfg) = k * ?page + p" by (simp add: unat_sub u)
  define offset where "offset = (target - cu_buffer cfg) mod cu_page_size cfg"
  have offset: "unat offset = p"
    using n w by (simp add: offset_def unat_mod diff)
  have end_offset: "unat (offset + sz) = p + n"
    using n w page unat_add_u64 [of offset sz] by (simp add: u offset)
  have "cu_buffer cfg \<le> target" "target + sz \<le> cu_buffer cfg + cu_buffer_size cfg"
      "\<not> cu_page_size cfg < offset + sz"
    using n w by (simp_all add: word_le_nat_alt word_less_nat_alt u last end_target end_offset)
  then show ?thesis
    unfolding receive_write_def Let_def store_bytes_def target_def [symmetric] sz_def [symmetric] offset_def [symmetric]
    by (simp add: offset)
qed

lemma packet_headers_fields [simp]:
  "bt_opcode (bt_h (packet_headers h psn v n)) = bt_opcode (bt_h h)"
  "bt_psn (bt_h (packet_headers h psn v n)) = psn"
  "ret_vaddress (ret_h (packet_headers h psn v n)) = v"
  "ret_content_size (ret_h (packet_headers h psn v n)) = of_nat n"
  by (simp_all add: packet_headers_def message_lengths_def)

lemma receive_data_packet:
  assumes "bt_opcode (bt_h h) = IB_OPCODE_WRITE" and "length payload \<le> 10180" and "unat psn < 2 ^ 24"
  shows "receive_packet cfg now (udp_payload (packet_bytes crc32 (packet_headers h psn v (length payload)) payload)) st =
    Running (receive_write cfg v (of_nat (length payload)) payload (count_drops psn (packet_arrived now st)))"
proof -
  let ?h = "packet_headers h psn v (length payload)"
  let ?rest = "ret_header_bytes (ret_h ?h) @ payload @ le_bytes 4 (packet_crc crc32 ?h payload)"
  obtain d where d: "parse_ib_header (bt_header_bytes (bt_h ?h) @ ?rest) =
        Some (bt_opcode (bt_h ?h), bt_psn (bt_h ?h) AND 0xFFFFFF, d)" "d_ok d" "unread d = ?rest"
    by (rule parse_ib_header_bytes [of ?rest "bt_h ?h"]) (use assms(2) in auto)
  have "unat (of_nat (length payload) :: u32) = length payload" using assms(2) by (intro unat_of_nat_u32) simp
  then have "parse_write d = Some (v, of_nat (length payload), payload)"
    using parse_write_bytes [OF d(2,3)] by simp
  with d(1) assms(1) low24_small [OF assms(3)] show ?thesis
    by (simp add: receive_packet_def udp_payload_packet IB_OPCODE_WRITE_def Let_def)
qed

subsection \<open>The data of a frame\<close>

fun receive_all :: "rx_config \<Rightarrow> (timespec \<times> bytes) list \<Rightarrow> linux_receiver \<Rightarrow> rx_outcome" where
  "receive_all cfg [] st = Running st"
| "receive_all cfg (a # as) st =
     (case receive_packet cfg (fst a) (snd a) st of Running st' \<Rightarrow> receive_all cfg as st' | r \<Rightarrow> r)"

lemma receive_all_append:
  "receive_all cfg as st = Running st' \<Longrightarrow> receive_all cfg (as @ bs) st = receive_all cfg bs st'"
  by (induction as arbitrary: st) (auto split: rx_outcome.splits)

text \<open>The receiver expects this sequence number next.\<close>

definition in_sync :: "linux_receiver \<Rightarrow> u32 \<Rightarrow> bool" where
  "in_sync st psn \<longleftrightarrow>
     rx_first st \<or> (unat (rx_last_psn st) < 2 ^ 24 \<and> unat psn = (unat (rx_last_psn st) + 1) mod 2 ^ 24)"

lemma count_drops_in_sync: "in_sync st psn \<Longrightarrow> rx_packets_dropped (count_drops psn st) = rx_packets_dropped st"
  using count_drops_jump [of st 0 psn] by (cases "rx_first st") (auto simp: in_sync_def count_drops_def)

lemma count_drops_next: "unat psn + 1 < 2 ^ 20 \<Longrightarrow> in_sync (count_drops psn st) (next_psn psn)"
  by (simp add: in_sync_def count_drops_def Let_def next_psn_unat)

text \<open>What the packets with \<open>content\<close>, from position \<open>p\<close> on, do to the receiver.\<close>

definition data_received :: "nat \<Rightarrow> bytes \<Rightarrow> nat \<Rightarrow> linux_receiver \<Rightarrow> linux_receiver \<Rightarrow> bool" where
  "data_received p content k st st' \<longleftrightarrow>
     rx_descriptors st' = rx_descriptors (store_bytes p content st) \<and>
     rx_receiving st' = rx_receiving st \<and> rx_available st' = rx_available st \<and> rx_ready st' = rx_ready st \<and>
     rx_consumer_ready st' = rx_consumer_ready st \<and> rx_exit st' = rx_exit st \<and>
     rx_frame_number st' = rx_frame_number st \<and> rx_frame_count st' = rx_frame_count st \<and>
     rx_frame_packets_received st' = rx_frame_packets_received st + of_nat k \<and>
     rx_frame_bytes_received st' = rx_frame_bytes_received st + of_nat (length content) \<and>
     rx_packets_dropped st' = rx_packets_dropped st"

lemma store_bytes_fields [simp]:
  "rx_receiving (store_bytes p bs st) = rx_receiving st"
  "length (rx_descriptors (store_bytes p bs st)) = length (rx_descriptors st)"
  by (simp_all add: store_bytes_def on_receiving_def)

lemma descriptors_store_bytes:
  assumes "rx_receiving st < length (rx_descriptors st)" and "rx_receiving st1 = rx_receiving st"
    and "rx_descriptors st1 = rx_descriptors (store_bytes p a st)"
  shows "rx_descriptors (store_bytes (p + length a) b st1) = rx_descriptors (store_bytes p (a @ b) st)"
  using assms by (simp add: store_bytes_def on_receiving_def put_bytes_append)

lemma data_received_trans:
  assumes "data_received p a i st st1" and "data_received (p + length a) b j st1 st2"
    and "rx_receiving st < length (rx_descriptors st)"
  shows "data_received p (a @ b) (i + j) st st2"
  using assms descriptors_store_bytes [OF assms(3), of st1 p a b] by (simp add: data_received_def)

lemma data_received_one:
  assumes "in_sync st psn" and "rx_receiving st < length (rx_descriptors st)"
  shows "data_received p bs 1 st ((store_bytes p bs (count_drops psn (packet_arrived now st)))
      \<lparr>rx_frame_bytes_received := rx_frame_bytes_received (count_drops psn (packet_arrived now st)) + of_nat (length bs)\<rparr>)"
proof -
  have "in_sync (packet_arrived now st) psn" using assms(1) by (simp add: in_sync_def packet_arrived_def)
  from count_drops_in_sync [OF this]
  have "rx_packets_dropped (count_drops psn (packet_arrived now st)) = rx_packets_dropped st"
    by (simp add: packet_arrived_def)
  then show ?thesis
    by (simp add: data_received_def store_bytes_def on_receiving_def count_drops_def packet_arrived_def Let_def)
qed

lemma receive_frame_packets:
  assumes win: "frame_window cfg address k len" and cfg: "rx_config_ok cfg"
    and h: "bt_opcode (bt_h h) = IB_OPCODE_WRITE" and p: "0 < p" "p \<le> 10180"
  shows "q + length content \<le> len \<Longrightarrow> rx_receiving st < length (rx_descriptors st) \<Longrightarrow> in_sync st psn \<Longrightarrow>
    map snd arrivals = map udp_payload (frame_packets crc32 h psn (address + of_nat q) p content) \<Longrightarrow>
    unat psn + length arrivals < 2 ^ 20 \<Longrightarrow>
    \<exists>st'. receive_all cfg arrivals st = Running st' \<and> data_received q content (length arrivals) st st' \<and>
      in_sync st' ((next_psn ^^ length arrivals) psn)"
proof (induction "length content" arbitrary: q content psn st arrivals rule: less_induct)
  case less
  show ?case
  proof (cases "content = []")
    case True
    then have "arrivals = []" using less.prems(4) by (simp add: frame_packets.simps)
    then show ?thesis using True less.prems(2,3)
      by (simp add: data_received_def store_bytes_def on_receiving_def)
  next
    case False
    define n where "n = min (length content) p"
    let ?a = "take p content"
    have n: "length ?a = n" "0 < n" "n \<le> 10180" "q + n \<le> len" "n < 2 ^ 32"
      using False p less.prems(1) by (auto simp: n_def)
    obtain now bs as where as: "arrivals = (now, bs) # as"
        "bs = udp_payload (packet_bytes crc32 (packet_headers h psn (address + of_nat q) n) ?a)"
        "map snd as = map udp_payload (frame_packets crc32 h (next_psn psn) (address + of_nat q + of_nat p) p (drop p content))"
      using less.prems(4) False p(1)
      by (cases arrivals) (auto simp: n_def frame_packets.simps [of crc32 h psn _ p content])
    define st1 where "st1 = (store_bytes q ?a (count_drops psn (packet_arrived now st)))
        \<lparr>rx_frame_bytes_received := rx_frame_bytes_received (count_drops psn (packet_arrived now st)) + of_nat n\<rparr>"
    have psn: "unat psn + 1 < 2 ^ 20 \<or> as = []" "unat psn < 2 ^ 24" using less.prems(5) by (auto simp: as(1))
    have run: "receive_packet cfg now bs st = Running st1"
      using receive_data_packet [OF h _ psn(2), of ?a cfg now crc32 "address + of_nat q" st]
        receive_write_window [OF win cfg n(4,5,2)] n(1,3)
      by (simp add: as(2) st1_def)
    have one: "data_received q ?a 1 st st1"
      using data_received_one [OF less.prems(3,2), of q ?a now] n(1) by (simp add: st1_def)
    have sync: "in_sync st1 (next_psn psn)"
      using count_drops_next [of psn "packet_arrived now st"] less.prems(5)
      by (simp add: st1_def in_sync_def store_bytes_def on_receiving_def as(1))
    have rest: "map snd as = map udp_payload (frame_packets crc32 h (next_psn psn) (address + of_nat (q + n)) p (drop p content))"
    proof (cases "n = p")
      case True
      then show ?thesis using as(3) by (simp add: add.assoc)
    next
      case False
      then have "drop p content = []" by (simp add: n_def split: if_splits)
      then show ?thesis using as(3) by (simp add: frame_packets.simps)
    qed
    have "unat (next_psn psn) + length as < 2 ^ 20"
      using less.prems(5) by (simp add: as(1) next_psn_unat)
    moreover have "q + n + length (drop p content) \<le> len" using less.prems(1) by (auto simp: n_def)
    moreover have "rx_receiving st1 < length (rx_descriptors st1)"
      using less.prems(2) one by (simp add: data_received_def)
    ultimately obtain st' where st': "receive_all cfg as st1 = Running st'"
        "data_received (q + n) (drop p content) (length as) st1 st'"
        "in_sync st' ((next_psn ^^ length as) (next_psn psn))"
      using less.hyps [of "drop p content" "q + n" st1 "next_psn psn" as] rest sync False p(1) by auto
    have "data_received q content (length arrivals) st st'"
      using data_received_trans [OF one _ less.prems(2), of "drop p content" "length as" st'] st'(2) n(1)
      by (simp add: as(1))
    then show ?thesis using st'(1,3) run by (auto simp: as(1) funpow_swap1)
  qed
qed

subsection \<open>The last packet\<close>

lemma immediate_value_page:
  assumes "unat page < 4096"
  shows "immediate_value page psn AND 0xFFF = ucast page"
proof -
  have mask: "(0xFFF :: u32) = mask 12" by (simp add: mask_eq_exp_minus_1)
  have "bit page n \<Longrightarrow> n < 12" for n
    using assms bit_small [of page 12 n] by (simp add: word_less_nat_alt)
  then show ?thesis
    unfolding immediate_value_def IB_PSN_SHIFT_def mask
    by (intro bit_word_eqI) (auto simp: bit_simps)
qed

lemma halves_join:
  "push_bit 32 (ucast (ucast (drop_bit 32 n) :: u32)) OR ucast (ucast (n AND 0xFFFFFFFF) :: u32) = (n :: u64)"
proof -
  have mask: "(0xFFFFFFFF :: u64) = mask 32" by (simp add: mask_eq_exp_minus_1)
  show ?thesis unfolding mask by (intro bit_word_eqI) (auto simp: bit_simps)
qed

lemma receive_immediate_packet:
  assumes "length (tx_reserved m) = 80" and "unat psn < 2 ^ 24"
  shows "\<exists>crc. length crc = 4 \<and>
    receive_packet cfg now (udp_payload (immediate_packet crc32 h psn v page m)) st =
    receive_immediate cfg now METADATA_SIZE (immediate_value page psn) (take 124 (tx_metadata_bytes m) @ crc)
      (count_drops psn (packet_arrived now st))"
proof -
  let ?h = "packet_headers (immediate_headers h) psn v 128"
  let ?imm = "immediate_value page psn" and ?md = "take 124 (tx_metadata_bytes m)"
  let ?crc = "le_bytes 4 (packet_crc crc32 ?h (be_bytes 4 ?imm @ ?md))"
  let ?rest = "ret_header_bytes (ret_h ?h) @ be_bytes 4 ?imm @ (?md @ ?crc) @ []"
  have udp: "udp_payload (immediate_packet crc32 h psn v page m) = bt_header_bytes (bt_h ?h) @ ?rest"
    by (simp add: immediate_packet_def udp_payload_packet)
  obtain d where d: "parse_ib_header (bt_header_bytes (bt_h ?h) @ ?rest) =
        Some (bt_opcode (bt_h ?h), bt_psn (bt_h ?h) AND 0xFFFFFF, d)" "d_ok d" "unread d = ?rest"
    by (rule parse_ib_header_bytes [of ?rest "bt_h ?h"]) auto
  have "parse_write_immediate d = Some (v, 128, ?imm, ?md @ ?crc)"
    using parse_write_immediate_bytes [OF d(2,3)] assms(1) by simp
  with d(1) low24_small [OF assms(2)] show ?thesis
    by (intro exI [of _ ?crc])
      (simp add: receive_packet_def udp immediate_headers_def IB_OPCODE_WRITE_IMMEDIATE_def Let_def METADATA_SIZE_def)
qed

lemma deserialize_immediate:
  assumes "length (tx_reserved m) = 80" and "length crc = 4"
  shows "deserialize_metadata (take 124 (tx_metadata_bytes m) @ crc) = Inr (host_metadata m)"
proof -
  have eq: "take 124 (tx_metadata_bytes m) @ crc = metadata_bytes (host_metadata m)
      (ucast (drop_bit 16 (tx_frame_number m))) @ (take 76 (tx_reserved m) @ crc)"
    unfolding tx_metadata_bytes_host by simp
  show ?thesis unfolding eq by (rule deserialize_metadata_bytes) (use assms in simp)
qed

text \<open>A buffer holds a page.\<close>

lemma rx_buffer_size_page:
  assumes "rx_config_ok cfg"
  shows "unat (cu_page_size cfg) \<le> unat (rx_buffer_size cfg)"
proof -
  let ?x = "cu_page_size cfg + 0x10000 - 1"
  have page: "unat (cu_page_size cfg) \<le> 2 ^ 48" using assms by (simp add: rx_config_ok_def word_le_nat_alt)
  have x: "unat ?x = unat (cu_page_size cfg) + 0xFFFF"
    using page by (simp add: unat_word_ariths)
  have low: "unat (take_bit 16 ?x) = unat ?x mod 2 ^ 16" by (metis take_bit_eq_mod unsigned_take_bit_eq)
  have mask: "(0x10000 - 1 :: u64) = mask 16" by (simp add: mask_eq_exp_minus_1)
  have "?x AND NOT (0x10000 - 1) = push_bit 16 (drop_bit 16 ?x)"
    unfolding mask by (intro bit_word_eqI) (auto simp: bit_simps)
  also have "\<dots> = ?x - take_bit 16 ?x" by (metis add_diff_cancel_right' bits_ident)
  finally have "unat (?x AND NOT (0x10000 - 1)) = unat ?x - unat (take_bit 16 ?x)"
    by (metis low mod_less_eq_dividend unat_sub word_le_nat_alt)
  then show ?thesis unfolding rx_buffer_size_def using x low by simp
qed

subsection \<open>A whole frame\<close>

text \<open>
  A frame that is sent without a fault and arrives in order is handed over with the bytes that
  were sent, and with the counts of its packets and bytes. \<open>frame_handed\<close> says it of the buffer
  that the receiver was filling.
\<close>

definition frame_handed :: "bytes \<Rightarrow> nat \<Rightarrow> frame_metadata \<Rightarrow> linux_receiver \<Rightarrow> linux_receiver \<Rightarrow> bool" where
  "frame_handed content k md st st' \<longleftrightarrow>
     (let d = rx_descriptors st' ! rx_receiving st; m = desc_metadata d in
      take (length content) (desc_memory d) = content \<and> lm_frame_metadata m = md \<and>
      lm_frame_packets_received m = of_nat k \<and> lm_frame_bytes_received m = of_nat (length content) \<and>
      lm_packets_dropped m = rx_packets_dropped st) \<and>
     rx_ready st' = kept st @ [rx_receiving st] \<and>
     rx_frame_packets_received st' = 0 \<and> rx_frame_bytes_received st' = 0 \<and>
     rx_consumer_ready st' = rx_consumer_ready st"

definition awaiting_frame :: "rx_config \<Rightarrow> linux_receiver \<Rightarrow> bool" where
  "awaiting_frame cfg st \<longleftrightarrow>
     rx_ok cfg st \<and> rx_frame_packets_received st = 0 \<and> rx_frame_bytes_received st = 0"

lemma hand_over_frame:
  assumes "rx_ok cfg st" and "rx_config_ok cfg"
  obtains st' where "hand_over cfg st = Running st'" "rx_ok cfg st'" "rx_ready st' = kept st @ [rx_receiving st]"
    "rx_descriptors st' ! rx_receiving st = rx_descriptors st ! rx_receiving st"
    "rx_frame_packets_received st' = 0" "rx_frame_bytes_received st' = 0"
    "rx_consumer_ready st' = rx_consumer_ready st" "rx_last_psn st' = rx_last_psn st" "rx_first st' = rx_first st"
proof -
  obtain st1 where st1: "rx_signal st = Some st1" "rx_ok cfg st1" "rx_descriptors st1 = rx_descriptors st"
      "rx_receiving st1 \<noteq> rx_receiving st" by (rule rx_signal_ok [OF assms])
  have same: "rx_last_psn st1 = rx_last_psn st" "rx_first st1 = rx_first st"
    using st1(1) by (auto simp: rx_signal_def next_descriptor_def Let_def split: list.splits if_splits)
  let ?st2 = "(on_receiving (\<lambda>d. d\<lparr>desc_memory :=
      put_bytes 0 (replicate (unat (cu_page_size cfg)) 0xFF) (desc_memory d)\<rparr>) st1)
      \<lparr>rx_frame_packets_received := 0, rx_frame_bytes_received := 0\<rparr>"
  have run: "hand_over cfg st = Running ?st2" by (simp add: hand_over_def st1(1))
  moreover have "rx_ok cfg ?st2" using hand_over_ok [OF assms] by (simp add: run)
  ultimately show thesis
    using st1 same rx_signal_kept [OF st1(1)] rx_signal_consumer [OF st1(1)]
    by (intro that [of ?st2]) (simp_all add: on_receiving_def)
qed

text \<open>The last packet, on a receiver that has the data.\<close>

lemma receive_last_packet:
  assumes ok: "rx_ok cfg st" and cfg: "rx_config_ok cfg" and m: "length (tx_reserved m) = 80"
    and psn: "unat psn < 2 ^ 20" and sync: "in_sync st psn"
    and page: "unat page < 4096" "ucast page < rx_pages cfg"
  obtains st' where "receive_packet cfg now (udp_payload (immediate_packet crc32 h psn v page m)) st = Running st'"
    "rx_ok cfg st'" "rx_ready st' = kept st @ [rx_receiving st]"
    "desc_memory (rx_descriptors st' ! rx_receiving st) = desc_memory (rx_descriptors st ! rx_receiving st)"
    "lm_frame_metadata (desc_metadata (rx_descriptors st' ! rx_receiving st)) = host_metadata m"
    "lm_frame_packets_received (desc_metadata (rx_descriptors st' ! rx_receiving st)) = rx_frame_packets_received st + 1"
    "lm_frame_bytes_received (desc_metadata (rx_descriptors st' ! rx_receiving st)) = rx_frame_bytes_received st"
    "lm_packets_dropped (desc_metadata (rx_descriptors st' ! rx_receiving st)) = rx_packets_dropped st"
    "rx_frame_packets_received st' = 0" "rx_frame_bytes_received st' = 0"
    "rx_consumer_ready st' = rx_consumer_ready st" "rx_last_psn st' = psn" "rx_first st' = False"
proof -
  let ?st1 = "count_drops psn (packet_arrived now st)"
  let ?imm = "immediate_value page psn"
  let ?st2 = "record_frame now ?imm (host_metadata m) (?st1\<lparr>rx_frame_count := rx_frame_count ?st1 + 1\<rparr>)"
  have psn24: "unat psn < 2 ^ 24" using psn by simp
  obtain crc where crc: "length crc = 4"
      "receive_packet cfg now (udp_payload (immediate_packet crc32 h psn v page m)) st =
       receive_immediate cfg now METADATA_SIZE ?imm (take 124 (tx_metadata_bytes m) @ crc) ?st1"
    using receive_immediate_packet [OF m psn24, of cfg now crc32 h v page st] by blast
  have pg: "\<not> rx_pages cfg \<le> ?imm AND 0xFFF" using page by (simp add: immediate_value_page not_le)
  have run: "receive_packet cfg now (udp_payload (immediate_packet crc32 h psn v page m)) st = hand_over cfg ?st2"
    using deserialize_immediate [OF m crc(1)] pg by (simp add: crc(2) receive_immediate_def Let_def)
  have "rx_ok cfg ?st1" using count_drops_ok [of cfg "packet_arrived now st"] ok by (simp add: packet_arrived_def)
  then have ok2: "rx_ok cfg ?st2" by (intro rx_ok_record_frame) simp
  have "in_sync (packet_arrived now st) psn" using sync by (simp add: in_sync_def packet_arrived_def)
  from count_drops_in_sync [OF this]
  have dropped: "rx_packets_dropped ?st1 = rx_packets_dropped st" by (simp add: packet_arrived_def)
  have lt: "rx_receiving st < length (rx_descriptors st)" by (rule rx_ok_receiving [OF ok])
  have fields: "rx_receiving ?st2 = rx_receiving st" "kept ?st2 = kept st" "rx_consumer_ready ?st2 = rx_consumer_ready st"
      "rx_last_psn ?st2 = psn" "rx_first ?st2 = False"
    by (auto simp: record_frame_def on_receiving_def count_drops_def packet_arrived_def kept_def Let_def split: prod.split)
  have desc: "desc_memory (rx_descriptors ?st2 ! rx_receiving st) = desc_memory (rx_descriptors st ! rx_receiving st)"
      "lm_frame_metadata (desc_metadata (rx_descriptors ?st2 ! rx_receiving st)) = host_metadata m"
      "lm_frame_packets_received (desc_metadata (rx_descriptors ?st2 ! rx_receiving st)) = rx_frame_packets_received st + 1"
      "lm_frame_bytes_received (desc_metadata (rx_descriptors ?st2 ! rx_receiving st)) = rx_frame_bytes_received st"
      "lm_packets_dropped (desc_metadata (rx_descriptors ?st2 ! rx_receiving st)) = rx_packets_dropped ?st1"
    using lt by (simp_all add: record_frame_def on_receiving_def count_drops_def packet_arrived_def Let_def split: prod.split)
  show thesis
    by (rule hand_over_frame [OF ok2 cfg], rule that)
      (simp_all add: run fields desc dropped)
qed

lemma frame_received:
  assumes cfg: "rx_config_ok cfg" and st: "awaiting_frame cfg st"
    and win: "frame_window cfg (tm_address tm) k (length content)"
    and p: "0 < payload_bytes tm" "payload_bytes tm \<le> 10180" and arg: "argument_ok arg"
    and page: "unat (tm_page tm) < 4096" "tm_page tm < rx_pages cfg"
    and arrivals: "map snd arrivals = map udp_payload (frame_transmission crc32 sendto fs mt tm content arg t)"
    and sync: "in_sync st (t_psn t)" and psn: "unat (t_psn t) + length arrivals \<le> 2 ^ 20"
  shows "\<exists>st'. receive_all cfg arrivals st = Running st' \<and> awaiting_frame cfg st' \<and>
    frame_handed content (length arrivals) (host_metadata (sent_metadata crc32 sendto fs mt tm content arg t)) st st' \<and>
    rx_first st' = False \<and> rx_last_psn st' = data_psn tm content t"
proof -
  let ?h = "frame_headers tm (t_psn t) (linux_headers t)"
  let ?md = "sent_metadata crc32 sendto fs mt tm content arg t"
  let ?data = "data_packets crc32 tm content t"
  have ok: "rx_ok cfg st" "rx_frame_packets_received st = 0" "rx_frame_bytes_received st = 0"
    using st by (simp_all add: awaiting_frame_def)
  have lt: "rx_receiving st < length (rx_descriptors st)" by (rule rx_ok_receiving [OF ok(1)])
  obtain as now bs where as: "arrivals = as @ [(now, bs)]" "map snd as = map udp_payload ?data"
      "bs = udp_payload (last_packet crc32 tm ?md (data_psn tm content t) t)"
    using arrivals by (cases arrivals rule: rev_cases) (auto simp: frame_transmission_def)
  have k: "length as = length ?data" using as(2) by (metis length_map)
  have op: "bt_opcode (bt_h ?h) = IB_OPCODE_WRITE" by (simp add: frame_headers_def)
  have as2: "map snd as = map udp_payload (frame_packets crc32 ?h (t_psn t) (tm_address tm + of_nat 0) (payload_bytes tm) content)"
    using as(2) by (simp add: data_packets_def)
  obtain st1 where st1: "receive_all cfg as st = Running st1" "data_received 0 content (length as) st st1"
      "in_sync st1 ((next_psn ^^ length as) (t_psn t))"
    using receive_frame_packets [OF win cfg op p, of 0 content st "t_psn t" as crc32] lt sync psn as2
    by (auto simp: as(1))
  have psn_eq: "(next_psn ^^ length as) (t_psn t) = data_psn tm content t"
    by (simp add: k data_psn_def data_packets_def length_frame_packets [OF p(1)])
  define r where "r = rx_receiving st"
  have len: "length content \<le> length (desc_memory (rx_descriptors st ! r))"
    using ok(1) lt win rx_buffer_size_page [OF cfg] by (simp add: rx_ok_def r_def frame_window_def)
  have mem: "desc_memory (rx_descriptors st1 ! r) = put_bytes 0 content (desc_memory (rx_descriptors st ! r))"
    using st1(2) lt by (simp add: data_received_def store_bytes_def on_receiving_def r_def)
  have "rx_ok cfg (store_bytes 0 content st)" unfolding store_bytes_def by (rule rx_ok_on_receiving [OF ok(1)]) simp
  then have ok1: "rx_ok cfg st1" using st1(2) by (simp add: rx_ok_def data_received_def store_bytes_def on_receiving_def)
  have st1_fields: "rx_receiving st1 = r" "kept st1 = kept st" "rx_frame_packets_received st1 = of_nat (length as)"
      "rx_frame_bytes_received st1 = of_nat (length content)" "rx_packets_dropped st1 = rx_packets_dropped st"
      "rx_consumer_ready st1 = rx_consumer_ready st"
    using st1(2) ok(2,3) by (simp_all add: data_received_def kept_def r_def)
  have psn20: "unat (data_psn tm content t) < 2 ^ 20"
    using next_psn_funpow [of "t_psn t" "length as"] psn by (simp add: psn_eq as(1))
  have sync1: "in_sync st1 (data_psn tm content t)" using st1(3) by (simp only: psn_eq)
  have pg: "unat (ucast (tm_page tm) :: u16) = unat (tm_page tm)"
    using page(1) by (simp add: unsigned_ucast_eq take_bit_nat_eq_self)
  have pg2: "(ucast (ucast (tm_page tm) :: u16) :: u32) = tm_page tm"
  proof -
    have "bit (tm_page tm) n \<Longrightarrow> n < 12" for n
      using page(1) bit_small [of "tm_page tm" 12 n] by (simp add: word_less_nat_alt)
    then show ?thesis by (intro bit_word_eqI) (fastforce simp: bit_simps)
  qed
  have "unat (ucast (tm_page tm) :: u16) < 4096" "ucast (ucast (tm_page tm) :: u16) < rx_pages cfg"
    using page by (simp_all add: pg pg2)
  note last = receive_last_packet [OF ok1 cfg _ psn20 sync1 this, of ?md now crc32 ?h "tm_address tm + ucast (tm_metadata_offset tm)"]
  have md: "length (tx_reserved ?md) = 80" using arg by (simp add: sent_metadata_def)
  obtain st2 where st2: "receive_packet cfg now bs st1 = Running st2" "rx_ok cfg st2" "rx_ready st2 = kept st @ [r]"
    "desc_memory (rx_descriptors st2 ! r) = put_bytes 0 content (desc_memory (rx_descriptors st ! r))"
    "lm_frame_metadata (desc_metadata (rx_descriptors st2 ! r)) = host_metadata ?md"
    "lm_frame_packets_received (desc_metadata (rx_descriptors st2 ! r)) = of_nat (length as) + 1"
    "lm_frame_bytes_received (desc_metadata (rx_descriptors st2 ! r)) = of_nat (length content)"
    "lm_packets_dropped (desc_metadata (rx_descriptors st2 ! r)) = rx_packets_dropped st"
    "rx_frame_packets_received st2 = 0" "rx_frame_bytes_received st2 = 0"
    "rx_consumer_ready st2 = rx_consumer_ready st" "rx_last_psn st2 = data_psn tm content t" "rx_first st2 = False"
    by (rule last) (simp_all only: md as(3) last_packet_def st1_fields mem)
  have "receive_all cfg arrivals st = Running st2"
    using receive_all_append [OF st1(1), of "[(now, bs)]"] st2(1) by (simp add: as(1))
  then show ?thesis
    using st2 len take_put_bytes [of 0 content "desc_memory (rx_descriptors st ! r)"]
    by (intro exI [of _ st2]) (simp add: awaiting_frame_def frame_handed_def Let_def r_def [symmetric] as(1))
qed

text \<open>
  The application gets the content of a frame whose metadata is the default one. The number of
  bytes that it copies is the one the board has counted.
\<close>

lemma default_bytes_written:
  "md_bytes_written (host_metadata (default_metadata fs mt n fn psn)) = n"
  by (simp add: host_metadata_def default_metadata_def halves_join)

lemma take_frame_handed:
  assumes "frame_handed content k md st st'" and "kept st = []" and "rx_ok cfg st'"
    and "unat (md_bytes_written md) = length content" and "length content \<le> unat (cu_page_size cfg)"
    and "rx_config_ok cfg"
  shows "\<exists>m st''. take_frame cfg st' = Some ((m, Some content), st'') \<and> lm_frame_metadata m = md \<and>
    lm_frame_packets_received m = of_nat k \<and> lm_frame_bytes_received m = of_nat (length content) \<and>
    lm_packets_dropped m = rx_packets_dropped st \<and> rx_ready st'' = []"
proof -
  let ?r = "rx_receiving st"
  have ready: "rx_ready st' = [?r]" using assms(1,2) by (simp add: frame_handed_def)
  then have "?r < length (rx_descriptors st')" using assms(3) by (auto simp: rx_ok_def)
  then have "length content \<le> length (desc_memory (rx_descriptors st' ! ?r))"
    using assms(3,5) rx_buffer_size_page [OF assms(6)] by (simp add: rx_ok_def)
  then show ?thesis using assms(1,4) ready by (simp add: take_frame_def frame_handed_def Let_def)
qed

end
