(* ===== verification/Apb_Exec.thy ===== *)
theory Apb_Exec
  imports Emulator_Link Sequencer
begin

text \<open>
  The APB sequencer of the emulated board, \<open>APBEventHandler::execute_sequence\<close> of
  src/src/hololink/emulation/src/linux/hsb_emulator.cpp: it fetches 2-bit commands and their
  operands from the registers and executes them. One step of the model is one command, or one
  look at the polled register. The second half shows that it executes the programs that
  \<open>Hololink::Sequencer\<close> assembles as the commands they were assembled from.
\<close>

subsection \<open>The interpreter\<close>

record apb_exec =
  x_address :: u32        \<comment> \<open>\<open>seq_address\<close>\<close>
  x_word :: u32           \<comment> \<open>\<open>cmd_word\<close>\<close>
  x_bit :: nat            \<comment> \<open>\<open>cmd_bit\<close>\<close>
  x_poll :: "(u32 \<times> u32 \<times> u32) option"   \<comment> \<open>inside \<open>sequence_poll\<close>: register, match, mask\<close>

definition DONE_COMMAND_ADDRESS :: u32 where "DONE_COMMAND_ADDRESS = 0xFFFFFFFF"

definition next_value :: "('p emulator \<times> apb_exec, u32) hm" where
  "next_value s =
     (Inr (get_reg (fst s) (x_address (snd s))),
      (fst s, (snd s)\<lparr>x_address := x_address (snd s) + 4\<rparr>))"

definition on_emu :: "('p emulator, 'a) hm \<Rightarrow> ('p emulator \<times> apb_exec, 'a) hm" where
  "on_emu m s = (let (r, e) = m (fst s) in (r, (e, snd s)))"

definition on_exec :: "(apb_exec \<Rightarrow> apb_exec) \<Rightarrow> ('p emulator \<times> apb_exec, unit) hm" where
  "on_exec f = hmodify (\<lambda>(e, x). (e, f x))"

definition next_cmd :: "('p emulator \<times> apb_exec, u32) hm" where
  "next_cmd =
     hthen (hbind (hgets snd) (\<lambda>x.
              if 32 \<le> x_bit x then
                hbind (hthen (on_exec (\<lambda>x. x\<lparr>x_bit := 0\<rparr>)) next_value) (\<lambda>w. on_exec (\<lambda>x. x\<lparr>x_word := w\<rparr>))
              else hret ()))
       (hbind (hgets (\<lambda>(e, x). drop_bit (x_bit x) (x_word x) AND 3)) (\<lambda>cmd.
         hthen (on_exec (\<lambda>x. x\<lparr>x_bit := x_bit x + 2\<rparr>)) (hret cmd)))"

definition sequence_write :: "u32 \<Rightarrow> ('p emulator \<times> apb_exec, unit) hm" where
  "sequence_write register_address =
     hbind next_value (\<lambda>value. on_emu (emu_write register_address value))"

definition sequence_read :: "u32 \<Rightarrow> ('p emulator \<times> apb_exec, unit) hm" where
  "sequence_read register_address =
     hbind (on_emu (emu_read register_address)) (\<lambda>value.
       hbind (hgets (x_address \<circ> snd)) (\<lambda>seq_address.
         hthen (on_emu (emu_write seq_address value)) (hbind next_value (\<lambda>_. hret ()))))"

definition sequence_poll :: "u32 \<Rightarrow> ('p emulator \<times> apb_exec, unit) hm" where
  "sequence_poll register_address =
     hbind next_value (\<lambda>match. hbind next_value (\<lambda>bits.
       on_exec (\<lambda>x. x\<lparr>x_poll := Some (register_address, match, bits)\<rparr>)))"

definition sequence_error :: "('p emulator \<times> apb_exec, unit) hm" where
  "sequence_error = hthrow (Runtime_error ''invalid command code 11 detected'')"

text \<open>One iteration of the loop of \<open>execute_sequence\<close>, or of \<open>sequence_poll\<close>; \<open>True\<close> is done.\<close>

definition apb_step :: "('p emulator \<times> apb_exec, bool) hm" where
  "apb_step =
     hbind (hgets (x_poll \<circ> snd)) (\<lambda>poll.
       case poll of
         Some (register, match, bits) \<Rightarrow>
           hbind (on_emu (emu_read register)) (\<lambda>value.
             hthen (hwhen (value AND bits = match) (on_exec (\<lambda>x. x\<lparr>x_poll := None\<rparr>))) (hret False))
       | None \<Rightarrow>
           hbind next_cmd (\<lambda>cmd.
             hbind next_value (\<lambda>address.
               if address = DONE_COMMAND_ADDRESS then hret True
               else
                 hthen (if cmd = 0 then sequence_poll address
                        else if cmd = 1 then sequence_write address
                        else if cmd = 2 then sequence_read address
                        else sequence_error)
                   (hret False))))"

definition apb_begin :: "u32 \<Rightarrow> 'p emulator \<Rightarrow> apb_exec" where
  "apb_begin start_address e =
     \<lparr>x_address = start_address + 4, x_word = get_reg e start_address, x_bit = 0, x_poll = None\<rparr>"

text \<open>\<open>execute_sequence\<close> for at most \<open>n\<close> steps; the result says whether it is done.\<close>

fun apb_run :: "nat \<Rightarrow> ('p emulator \<times> apb_exec, bool) hm" where
  "apb_run 0 = hret False"
| "apb_run (Suc n) = hbind apb_step (\<lambda>over. if over then hret True else apb_run n)"

definition execute_sequence :: "nat \<Rightarrow> u32 \<Rightarrow> 'p emulator \<Rightarrow> (hsb_error + bool) \<times> 'p emulator" where
  "execute_sequence n start_address e =
     (let (r, s) = apb_run n (e, apb_begin start_address e) in (r, fst s))"

subsection \<open>What the commands mean\<close>

text \<open>
  A program acts on the registers outside its own memory: a read only stores into its own slot,
  a poll waits until its condition holds (\<open>None\<close> here if it does not).
\<close>

fun apb_means :: "apb_command list \<Rightarrow> (u32 \<Rightarrow> u32) \<Rightarrow> (u32 \<Rightarrow> u32) option" where
  "apb_means [] R = Some R"
| "apb_means (Apb_write a v # cs) R = apb_means cs (R(a := v))"
| "apb_means (Apb_read a v # cs) R = apb_means cs R"
| "apb_means (Apb_poll a bits match # cs) R = (if R a AND bits = match then apb_means cs R else None)"

subsection \<open>Decoding the layout\<close>

text \<open>The interpreter is at code \<open>k\<close> of a command word and has the program \<open>ops\<close> before it.\<close>

definition decode_at :: "nat \<Rightarrow> (seq_op \<times> u32 list) list \<Rightarrow> 'p emulator \<Rightarrow> apb_exec \<Rightarrow> bool" where
  "decode_at k ops e x \<longleftrightarrow>
     k \<le> 16 \<and> x_poll x = None \<and> x_bit x = 2 * k \<and>
     drop_bit (2 * k) (x_word x) = drop_bit (2 * k) (fst (layout k ops)) \<and>
     words_at (get_reg e) (x_address x) (snd (layout k ops))"

lemma bit_and_3: "bit ((w :: u32) AND 3) j \<longleftrightarrow> bit w j \<and> j < 2"
proof -
  have three: "(3 :: u32) = mask 2" by (simp add: mask_eq_exp_minus_1)
  have "bit (w AND mask 2) j \<longleftrightarrow> bit w j \<and> j < 2"
    by (auto simp only: bit_and_iff bit_mask_iff possible_bit_word dest: bit_imp_le_length)
  then show ?thesis by (simp only: three)
qed

lemma code_of_layout:
  assumes "k < 16"
  shows "drop_bit (2 * k) (push_bit (2 * k) (op_code op) OR fst (layout (Suc k) ops)) AND 3 = op_code op"
proof (rule bit_word_eqI)
  fix j
  assume "j < LENGTH(32)"
  have "\<not> bit (fst (layout (Suc k) ops)) (2 * k + j)" if "j < 2"
    using layout_low [of "Suc k" ops "2 * k + j"] assms that by auto
  moreover have "2 * k + j < 32" if "j < 2" using assms that by simp
  ultimately show "bit (drop_bit (2 * k) (push_bit (2 * k) (op_code op) OR fst (layout (Suc k) ops)) AND 3) j =
      bit (op_code op) j"
    unfolding bit_and_3 using bit_op_code [of op j] by (auto simp: bit_simps)
qed

lemma rest_of_layout:
  assumes "drop_bit (2 * k) (w :: u32) = drop_bit (2 * k) (push_bit (2 * k) (op_code op) OR v)"
  shows "drop_bit (2 * Suc k) w = drop_bit (2 * Suc k) v"
proof (rule bit_word_eqI)
  fix j
  assume j: "j < LENGTH(32)"
  have "bit (drop_bit (2 * k) w) (2 + j) =
      bit (drop_bit (2 * k) (push_bit (2 * k) (op_code op) OR v)) (2 + j)"
    by (simp only: assms)
  then show "bit (drop_bit (2 * Suc k) w) j = bit (drop_bit (2 * Suc k) v) j"
    using bit_op_code [of op "2 + j"] by (auto simp: bit_simps dest: bit_imp_le_length)
qed

lemma next_cmd_layout:
  assumes "decode_at k ((op, args) # ops) e x"
  shows "\<exists>k' x'. next_cmd (e, x) = (Inr (op_code op), (e, x')) \<and> k' \<le> 16 \<and> x_poll x' = None \<and>
    x_bit x' = 2 * k' \<and> drop_bit (2 * k') (x_word x') = drop_bit (2 * k') (fst (layout k' ops)) \<and>
    words_at (get_reg e) (x_address x') (args @ snd (layout k' ops)) \<and>
    snd (layout k ((op, args) # ops)) =
      (if k < 16 then [] else [get_reg e (x_address x)]) @ args @ snd (layout k' ops) \<and>
    x_address x' = (if k < 16 then x_address x else x_address x + 4)"
proof (cases "k < 16")
  case True
  let ?w = "fst (layout (Suc k) ops)"
  have d: "drop_bit (2 * k) (x_word x) = drop_bit (2 * k) (push_bit (2 * k) (op_code op) OR ?w)"
      "x_bit x = 2 * k" "x_poll x = None" "words_at (get_reg e) (x_address x) (args @ snd (layout (Suc k) ops))"
    using assms True by (auto simp: decode_at_def split: prod.splits)
  have "drop_bit (2 * k) (x_word x) AND 3 = op_code op"
    using code_of_layout [OF True, of op ops] d(1) by simp
  with True d have "next_cmd (e, x) = (Inr (op_code op), (e, x\<lparr>x_bit := 2 * Suc k\<rparr>))"
    by (simp add: next_cmd_def on_exec_def hthen_def hbind_def)
  with True d rest_of_layout [OF d(1)] show ?thesis
    by (intro exI [of _ "Suc k"] exI [of _ "x\<lparr>x_bit := 2 * Suc k\<rparr>"]) (auto split: prod.splits)
next
  case False
  then have k: "k = 16" using assms by (simp add: decode_at_def)
  let ?w = "op_code op OR fst (layout 1 ops)"
  have d: "x_bit x = 32" "x_poll x = None" "get_reg e (x_address x) = ?w"
      "words_at (get_reg e) (x_address x + 4) (args @ snd (layout 1 ops))"
    using assms k by (auto simp: decode_at_def split: prod.splits)
  have code: "?w AND 3 = op_code op" using code_of_layout [of 0 op ops] by simp
  let ?x = "x\<lparr>x_address := x_address x + 4, x_word := ?w, x_bit := 2\<rparr>"
  have "next_cmd (e, x) = (Inr (op_code op), (e, ?x))"
    using d code by (simp add: next_cmd_def on_exec_def hthen_def hbind_def next_value_def)
  moreover have "drop_bit 2 ?w = drop_bit 2 (fst (layout 1 ops))"
    using rest_of_layout [of 0 ?w op "fst (layout 1 ops)"] by simp
  ultimately show ?thesis using k d
    by (intro exI [of _ 1] exI [of _ ?x]) (auto split: prod.splits)
qed

subsection \<open>Executing an assembled program\<close>

lemma next_value_run:
  "next_value (e, x) = (Inr (get_reg e (x_address x)), (e, x\<lparr>x_address := x_address x + 4\<rparr>))"
  by (simp add: next_value_def)

lemma apb_run_step:
  "apb_step s = (Inr False, s') \<Longrightarrow> apb_run n s' = (Inr True, s'') \<Longrightarrow> apb_run (Suc n) s = (Inr True, s'')"
  by (simp add: hbind_def)

text \<open>The command after its code and its address have been fetched.\<close>

lemma apb_step_fetched:
  assumes "decode_at k ((op, a # args) # ops) e x"
  shows "\<exists>k' x'. decode_at k' ops e (x'\<lparr>x_address := x_address x' + of_nat (length args) * 4\<rparr>) \<and>
    words_at (get_reg e) (x_address x') (args @ snd (layout k' ops)) \<and>
    region (x_address x') (length (args @ snd (layout k' ops))) \<subseteq>
      region (x_address x) (length (snd (layout k ((op, a # args) # ops)))) \<and>
    length (args @ snd (layout k' ops)) < length (snd (layout k ((op, a # args) # ops))) \<and>
    apb_step (e, x) =
      (if a = DONE_COMMAND_ADDRESS then (Inr True, (e, x'))
       else hthen (if op_code op = 0 then sequence_poll a
                   else if op_code op = 1 then sequence_write a
                   else if op_code op = 2 then sequence_read a
                   else sequence_error) (hret False) (e, x'))"
proof -
  from next_cmd_layout [OF assms] obtain k' x1 where n:
    "next_cmd (e, x) = (Inr (op_code op), (e, x1))" "k' \<le> 16" "x_poll x1 = None" "x_bit x1 = 2 * k'"
    "drop_bit (2 * k') (x_word x1) = drop_bit (2 * k') (fst (layout k' ops))"
    "words_at (get_reg e) (x_address x1) ((a # args) @ snd (layout k' ops))"
    "snd (layout k ((op, a # args) # ops)) =
      (if k < 16 then [] else [get_reg e (x_address x)]) @ (a # args) @ snd (layout k' ops)"
    "x_address x1 = (if k < 16 then x_address x else x_address x + 4)"
    by blast
  let ?x' = "x1\<lparr>x_address := x_address x1 + 4\<rparr>"
  have poll: "x_poll x = None" using assms by (simp add: decode_at_def)
  have at: "get_reg e (x_address x1) = a" "words_at (get_reg e) (x_address ?x') (args @ snd (layout k' ops))"
    using n(6) by simp_all
  have "apb_step (e, x) =
      (if a = DONE_COMMAND_ADDRESS then (Inr True, (e, ?x'))
       else hthen (if op_code op = 0 then sequence_poll a
                   else if op_code op = 1 then sequence_write a
                   else if op_code op = 2 then sequence_read a
                   else sequence_error) (hret False) (e, ?x'))"
    by (simp add: apb_step_def poll hbind_def n(1) next_value_run at(1))
  moreover have "decode_at k' ops e (?x'\<lparr>x_address := x_address ?x' + of_nat (length args) * 4\<rparr>)"
    using n(2-5) at(2) by (simp add: decode_at_def words_at_append)
  moreover have "region (x_address ?x') (length (args @ snd (layout k' ops))) \<subseteq>
      region (x_address x) (length (snd (layout k ((op, a # args) # ops))))"
    using n(7,8) by (cases "k < 16") (auto simp: region_Suc)
  moreover have "length (args @ snd (layout k' ops)) < length (snd (layout k ((op, a # args) # ops)))"
    using n(7) by simp
  ultimately show ?thesis using at(2) by blast
qed

lemma decode_at_set_reg:
  assumes "decode_at k ops e x" and "a \<notin> region (x_address x) (length (snd (layout k ops)))"
  shows "decode_at k ops (set_reg a v e) x"
  using assms by (simp add: decode_at_def get_set_reg words_at_upd)

text \<open>What the program may do: its commands stay outside its own memory \<open>P\<close>.\<close>

definition command_ok :: "u32 set \<Rightarrow> apb_command \<Rightarrow> bool" where
  "command_ok P c \<longleftrightarrow> target c \<notin> P \<and> target c \<noteq> DONE_COMMAND_ADDRESS \<and> emu_plain (target c)"

text \<open>One command, in one step or (a poll) two.\<close>

lemma apb_run_command:
  assumes dec: "decode_at k ((command_op c, operands c) # ops) e x"
    and P: "region (x_address x) (length (snd (layout k ((command_op c, operands c) # ops)))) \<subseteq> P"
    and small: "length (snd (layout k ((command_op c, operands c) # ops))) < 2 ^ 30 - 1"
    and plain: "\<forall>a \<in> P. emu_plain a" and c: "command_ok P c"
    and agree: "\<forall>a. a \<notin> P \<longrightarrow> get_reg e a = R a" and means: "apb_means [c] R = Some R'"
  shows "\<exists>m k' e' x'. m \<le> 1 \<and> (\<forall>n s'. apb_run n (e', x') = (Inr True, s') \<longrightarrow>
      apb_run (Suc (m + n)) (e, x) = (Inr True, s')) \<and> decode_at k' ops e' x' \<and>
    region (x_address x') (length (snd (layout k' ops))) \<subseteq> P \<and>
    length (snd (layout k' ops)) < 2 ^ 30 - 1 \<and> (\<forall>a. a \<notin> P \<longrightarrow> get_reg e' a = R' a)"
proof (cases c)
  case (Apb_write a v)
  with apb_step_fetched [of k WR a "[v]" ops e x] dec obtain k' x1 where st:
    "decode_at k' ops e (x1\<lparr>x_address := x_address x1 + 4\<rparr>)" "get_reg e (x_address x1) = v"
    "region (x_address x1) (Suc (length (snd (layout k' ops)))) \<subseteq>
      region (x_address x) (length (snd (layout k ((WR, [a, v]) # ops))))"
    "Suc (length (snd (layout k' ops))) < length (snd (layout k ((WR, [a, v]) # ops)))"
    "apb_step (e, x) = (if a = DONE_COMMAND_ADDRESS then (Inr True, (e, x1))
       else hthen (sequence_write a) (hret False) (e, x1))"
    by auto
  let ?x = "x1\<lparr>x_address := x_address x1 + 4\<rparr>"
  have reg: "region (x_address ?x) (length (snd (layout k' ops))) \<subseteq> P"
    using st(3) P Apb_write by (auto simp: region_Suc)
  have a: "a \<notin> P" "a \<noteq> DONE_COMMAND_ADDRESS" "emu_plain a" using c by (simp_all add: command_ok_def Apb_write)
  have step: "apb_step (e, x) = (Inr False, (set_reg a v e, ?x))"
    using st(2,5) a
    by (simp add: sequence_write_def next_value_run on_emu_def emu_write_plain hthen_def hbind_def)
  have "decode_at k' ops (set_reg a v e) ?x"
    using st(1) reg a(1) by (intro decode_at_set_reg) auto
  moreover have "get_reg (set_reg a v e) b = R' b" if "b \<notin> P" for b
    using agree that means by (auto simp: get_set_reg Apb_write)
  ultimately show ?thesis using reg st(4) small Apb_write step
    by (intro exI [of _ 0] exI [of _ k'] exI [of _ "set_reg a v e"] exI [of _ ?x])
      (auto simp del: apb_run.simps intro: apb_run_step)
next
  case (Apb_read a v)
  with apb_step_fetched [of k RD a "[v]" ops e x] dec obtain k' x1 where st:
    "decode_at k' ops e (x1\<lparr>x_address := x_address x1 + 4\<rparr>)"
    "region (x_address x1) (Suc (length (snd (layout k' ops)))) \<subseteq>
      region (x_address x) (length (snd (layout k ((RD, [a, v]) # ops))))"
    "Suc (length (snd (layout k' ops))) < length (snd (layout k ((RD, [a, v]) # ops)))"
    "apb_step (e, x) = (if a = DONE_COMMAND_ADDRESS then (Inr True, (e, x1))
       else hthen (sequence_read a) (hret False) (e, x1))"
    by auto
  let ?x = "x1\<lparr>x_address := x_address x1 + 4\<rparr>" and ?slot = "x_address x1"
  let ?e = "set_reg ?slot (get_reg e a) e"
  have reg: "region (x_address ?x) (length (snd (layout k' ops))) \<subseteq> P" "?slot \<in> P"
    using st(2) P Apb_read by (auto simp: region_Suc)
  have a: "a \<noteq> DONE_COMMAND_ADDRESS" using c by (simp add: command_ok_def Apb_read)
  have "emu_plain ?slot" using plain reg(2) by blast
  then have step: "apb_step (e, x) = (Inr False, (?e, ?x))"
    using st(4) a
    by (simp add: sequence_read_def next_value_run on_emu_def emu_read_def emu_write_plain hthen_def hbind_def)
  have "?slot \<notin> region (x_address ?x) (length (snd (layout k' ops)))"
    using not_in_region_after [of "length (snd (layout k' ops))" ?slot] st(3) small Apb_read by simp
  then have "decode_at k' ops ?e ?x" using st(1) by (intro decode_at_set_reg) auto
  moreover have "get_reg ?e b = R' b" if "b \<notin> P" for b
    using agree that means reg(2) by (auto simp: get_set_reg Apb_read)
  ultimately show ?thesis using reg st(3) small Apb_read step
    by (intro exI [of _ 0] exI [of _ k'] exI [of _ ?e] exI [of _ ?x])
      (auto simp del: apb_run.simps intro: apb_run_step)
next
  case (Apb_poll a bits match)
  with apb_step_fetched [of k POLL a "[match, bits]" ops e x] dec obtain k' x1 where st:
    "decode_at k' ops e (x1\<lparr>x_address := x_address x1 + 8\<rparr>)" "get_reg e (x_address x1) = match"
    "get_reg e (x_address x1 + 4) = bits"
    "region (x_address x1) (Suc (Suc (length (snd (layout k' ops))))) \<subseteq>
      region (x_address x) (length (snd (layout k ((POLL, [a, match, bits]) # ops))))"
    "Suc (Suc (length (snd (layout k' ops)))) < length (snd (layout k ((POLL, [a, match, bits]) # ops)))"
    "apb_step (e, x) = (if a = DONE_COMMAND_ADDRESS then (Inr True, (e, x1))
       else hthen (sequence_poll a) (hret False) (e, x1))"
    by auto
  let ?x = "x1\<lparr>x_address := x_address x1 + 8\<rparr>"
  have reg: "region (x_address ?x) (length (snd (layout k' ops))) \<subseteq> P"
    using st(4) P Apb_poll by (auto simp: region_Suc add.assoc)
  have a: "a \<notin> P" "a \<noteq> DONE_COMMAND_ADDRESS" using c by (simp_all add: command_ok_def Apb_poll)
  have step: "apb_step (e, x) = (Inr False, (e, ?x\<lparr>x_poll := Some (a, match, bits)\<rparr>))"
    using st(2,3,6) a
    by (simp add: sequence_poll_def next_value_run on_exec_def hthen_def hbind_def add.assoc)
  have match: "get_reg e a AND bits = match" "R' = R"
    using means agree a(1) by (auto simp: Apb_poll split: if_splits)
  have "x_poll ?x = None" using st(1) by (simp add: decode_at_def)
  then have step2: "apb_step (e, ?x\<lparr>x_poll := Some (a, match, bits)\<rparr>) = (Inr False, (e, ?x))"
    using match(1) by (simp add: apb_step_def on_emu_def emu_read_def on_exec_def hthen_def hbind_def)
  show ?thesis using st(1) reg st(5) small Apb_poll step step2 agree match(2)
    by (intro exI [of _ 1] exI [of _ k'] exI [of _ e] exI [of _ ?x])
      (auto simp del: apb_run.simps intro!: apb_run_step [OF step] apb_run_step [OF step2])
qed

lemma operands_Cons: "\<exists>args. operands c = target c # args"
  by (cases c) auto

text \<open>
  The interpreter executes a program as the commands it was assembled from, in at most two
  steps for each and one for the end.
\<close>

lemma apb_run_program:
  "decode_at k (ops_of cs) e x \<Longrightarrow> region (x_address x) (length (snd (layout k (ops_of cs)))) \<subseteq> P \<Longrightarrow>
   length (snd (layout k (ops_of cs))) < 2 ^ 30 - 1 \<Longrightarrow> \<forall>a \<in> P. emu_plain a \<Longrightarrow>
   \<forall>c \<in> set cs. command_ok P c \<Longrightarrow> \<forall>a. a \<notin> P \<longrightarrow> get_reg e a = R a \<Longrightarrow> apb_means cs R = Some R' \<Longrightarrow>
   \<exists>n e' x'. n \<le> Suc (2 * length cs) \<and> apb_run n (e, x) = (Inr True, (e', x')) \<and>
     (\<forall>a. a \<notin> P \<longrightarrow> get_reg e' a = R' a)"
proof (induction cs arbitrary: k e x R)
  case Nil
  obtain x' where "apb_step (e, x) = (Inr True, (e, x'))"
    using apb_step_fetched [of k RD "0xFFFFFFFF" "[]" "[]" e x] Nil.prems(1)
    by (auto simp: ops_of_def DONE_COMMAND_ADDRESS_def)
  then have "apb_run 1 (e, x) = (Inr True, (e, x'))" by (simp add: hbind_def)
  with Nil.prems(6,7) show ?case by (intro exI [of _ 1] exI [of _ e] exI [of _ x']) simp
next
  case (Cons c cs)
  have ops: "ops_of (c # cs) = (command_op c, operands c) # ops_of cs" by (simp add: ops_of_def)
  obtain R1 where R1: "apb_means [c] R = Some R1" "apb_means cs R1 = Some R'"
    using Cons.prems(7) by (cases c) (auto split: if_splits)
  have c: "command_ok P c" using Cons.prems(5) by simp
  obtain m k' e1 x1 where st: "m \<le> 1"
      "\<And>n s'. apb_run n (e1, x1) = (Inr True, s') \<Longrightarrow> apb_run (Suc (m + n)) (e, x) = (Inr True, s')"
      "decode_at k' (ops_of cs) e1 x1" "region (x_address x1) (length (snd (layout k' (ops_of cs)))) \<subseteq> P"
      "length (snd (layout k' (ops_of cs))) < 2 ^ 30 - 1" "\<forall>a. a \<notin> P \<longrightarrow> get_reg e1 a = R1 a"
    using apb_run_command [OF Cons.prems(1-3) [unfolded ops] Cons.prems(4) c Cons.prems(6) R1(1)] by blast
  obtain n e' x' where n: "n \<le> Suc (2 * length cs)" "apb_run n (e1, x1) = (Inr True, (e', x'))"
      "\<forall>a. a \<notin> P \<longrightarrow> get_reg e' a = R' a"
    using Cons.IH [OF st(3-5) Cons.prems(4) _ st(6) R1(2)] Cons.prems(5) by auto
  with st(1) st(2) [OF n(2)] show ?case
    by (intro exI [of _ "Suc (m + n)"] exI [of _ e'] exI [of _ x']) simp
qed

text \<open>A program in memory, executed from its first word.\<close>

lemma execute_program:
  assumes "words_at (get_reg e) start_address (program cs)" and "length (program cs) < 2 ^ 30 - 1"
    and "P = region start_address (length (program cs))" and "\<forall>a \<in> P. emu_plain a"
    and "\<forall>c \<in> set cs. command_ok P c" and "apb_means cs (get_reg e) = Some R'"
  shows "\<exists>n e'. n \<le> Suc (2 * length cs) \<and> execute_sequence n start_address e = (Inr True, e') \<and>
    (\<forall>a. a \<notin> P \<longrightarrow> get_reg e' a = R' a)"
proof -
  obtain w ws where l: "layout 0 (ops_of cs) = (w, ws)" by force
  then have prog: "program cs = w # ws" by (simp add: program_def)
  have "decode_at 0 (ops_of cs) e (apb_begin start_address e)"
    using assms(1) by (simp add: decode_at_def apb_begin_def l prog)
  moreover have "region (x_address (apb_begin start_address e)) (length (snd (layout 0 (ops_of cs)))) \<subseteq> P"
    by (auto simp: assms(3) prog l apb_begin_def region_Suc)
  moreover have "length (snd (layout 0 (ops_of cs))) < 2 ^ 30 - 1" using assms(2) by (simp add: prog l)
  ultimately obtain n e' x' where "n \<le> Suc (2 * length cs)"
      "apb_run n (e, apb_begin start_address e) = (Inr True, (e', x'))" "\<forall>a. a \<notin> P \<longrightarrow> get_reg e' a = R' a"
    using apb_run_program [OF _ _ _ assms(4,5) _ assms(6)] by blast
  then show ?thesis by (auto simp: execute_sequence_def)
qed

text \<open>Alignment, on the value of an address.\<close>

lemma misaligned_iff: "misaligned a \<longleftrightarrow> \<not> 4 dvd unat a"
proof -
  have "a AND 3 = take_bit 2 a" by (simp add: take_bit_eq_mask mask_eq_exp_minus_1)
  moreover have "unat (take_bit 2 a) = unat a mod 4" by (simp add: take_bit_eq_mod unat_mod)
  ultimately show ?thesis by (simp add: misaligned_def word_unat_eq_iff dvd_eq_mod_eq_0)
qed

lemma misaligned_add_4: "misaligned (a + 4) = misaligned a"
proof -
  have "(unat a + 4) mod 2 ^ 32 mod 4 = unat a mod 4"
    by (subst mod_mod_cancel) simp_all
  then show ?thesis by (simp add: misaligned_iff dvd_eq_mod_eq_0 unat_word_ariths(1))
qed

end
