(* ===== verification/I2c.thy ===== *)
theory I2c
  imports Events Control_Requests
begin

text \<open>
  The I2C driver, the class \<open>I2c\<close> of src/src/hololink/core/hololink.cpp: a transaction is
  translated to a sequencer program, which the board runs on a software event while the host
  polls the copy of the status register in the program's memory. The named lock that
  serializes the users of the controller is left out: one transaction is one step. Durations
  are exact (the code computes the number of ticks of the board's timeout in \<open>double\<close>).
\<close>

subsection \<open>The driver's object\<close>

record i2c =
  i2c_base :: u32
  i2c_bus_en :: u32

definition i2c_reg_control :: "i2c \<Rightarrow> u32" where "i2c_reg_control i = i2c_base i + I2C_REG_CONTROL"
definition i2c_reg_bus_en :: "i2c \<Rightarrow> u32" where "i2c_reg_bus_en i = i2c_base i + I2C_REG_BUS_EN"
definition i2c_reg_num_bytes :: "i2c \<Rightarrow> u32" where "i2c_reg_num_bytes i = i2c_base i + I2C_REG_NUM_BYTES"
definition i2c_reg_clk_cnt :: "i2c \<Rightarrow> u32" where "i2c_reg_clk_cnt i = i2c_base i + I2C_REG_CLK_CNT"
definition i2c_reg_status :: "i2c \<Rightarrow> u32" where "i2c_reg_status i = i2c_base i + I2C_REG_STATUS"
definition i2c_reg_data_buffer :: "i2c \<Rightarrow> u32" where "i2c_reg_data_buffer i = i2c_base i + I2C_REG_DATA_BUFFER"

definition get_i2c :: "u32 \<Rightarrow> u32 \<Rightarrow> i2c" where
  "get_i2c bus address = \<lparr>i2c_base = address, i2c_bus_en = bus\<rparr>"

definition i2c_write_uint32 :: "u32 \<Rightarrow> u32 \<Rightarrow> timeout option \<Rightarrow> ('d hsb, unit) hm" where
  "i2c_write_uint32 address value in_timeout =
     hbind (write_uint32_to address value in_timeout True) (\<lambda>(ok, _).
       hthrow_if (\<not> ok) (Transaction_error ''ACK failure writing I2C register''))"

definition i2c_write_data :: "(u32 \<times> u32) list \<Rightarrow> ('d hsb, unit) hm" where
  "i2c_write_data data =
     hbind (write_data_default data None True) (\<lambda>(ok, _).
       hthrow_if (\<not> ok) (Transaction_error ''I2C ACK failure''))"

definition set_i2c_clock :: "i2c \<Rightarrow> ('d hsb, bool) hm" where
  "set_i2c_clock i =
     hbind (default_timeout None) (\<lambda>to.
       hthen (i2c_write_uint32 (i2c_reg_clk_cnt i) 0x19 (Some to)) (hret True))"

subsection \<open>The program of a transaction\<close>

text \<open>The results are the indexes of the words written, of the words read and of the status.\<close>

definition encode_i2c_request :: "i2c \<Rightarrow> u32 \<Rightarrow> bytes \<Rightarrow> u32 \<Rightarrow> (sequencer, nat list \<times> nat list \<times> nat) hm" where
  "encode_i2c_request i peripheral_i2c_address write_bytes read_byte_count =
     (let write_byte_count = of_nat (length write_bytes) :: u32;
          words = unat ((read_byte_count + 3) div 4)
      in
      hthen (hthrow_if (0x7F < peripheral_i2c_address) (Runtime_error ''Invalid peripheral_i2c_address''))
     (hthen (hthrow_if (0x100 < write_byte_count) (Runtime_error ''Write buffer is too large.''))
     (hthen (hthrow_if (0x100 < read_byte_count) (Runtime_error ''Read buffer is too large.''))
     (hthen (seq_write_uint32 (i2c_reg_control i) 0)
     (hbind (emit_list (map (\<lambda>(a, w). Apb_write a w) (program_data (i2c_reg_data_buffer i) (words_of_bytes write_bytes))))
       (\<lambda>write_indexes.
     (hthen (seq_write_uint32 (i2c_reg_num_bytes i) (write_byte_count OR push_bit 16 read_byte_count))
     (hthen (seq_write_uint32 (i2c_reg_bus_en i) (i2c_bus_en i))
     (hthen (seq_write_uint32 (i2c_reg_control i) (push_bit 16 peripheral_i2c_address OR I2C_START))
     (hthen (seq_poll (i2c_reg_status i) I2C_DONE I2C_DONE)
     (hbind (seq_read_uint32 (i2c_reg_status i) 0) (\<lambda>status_index.
      hbind (emit_list (map (\<lambda>a. Apb_read a 0xFFFFFFFF) (block_addresses (i2c_reg_data_buffer i) words)))
        (\<lambda>read_indexes.
      hthen (seq_write_uint32 (i2c_reg_control i) 0)
        (hret (write_indexes, read_indexes, status_index)))))))))))))))"

subsection \<open>A transaction\<close>

text \<open>Nanoseconds as ticks of 51.2 ns; \<open>APB_TIMEOUT_MAX\<close> is \<open>0xFFFFFF\<close> ticks.\<close>

definition apb_timeout_ticks :: "int \<Rightarrow> u32" where
  "apb_timeout_ticks ns = word_of_int (ns * 10 div 512)"

definition apb_timeout_max :: "int \<Rightarrow> bool" where
  "apb_timeout_max ns \<longleftrightarrow> 0xFFFFFF * 512 < ns * 10"

text \<open>The clock is read once for the test and once for the value.\<close>

definition queue_apb_timeout :: "timeout \<Rightarrow> ('d hsb, u32) hm" where
  "queue_apb_timeout to =
     hbind (on_link read_clock) (\<lambda>now.
       if apb_timeout_max (trigger_ns now to) then hret 0xFFFFFF
       else hbind (on_link read_clock) (\<lambda>now. hret (apb_timeout_ticks (trigger_ns now to))))"

fun read_back :: "u32 \<Rightarrow> nat list \<Rightarrow> timeout \<Rightarrow> ('d hsb, bytes) hm" where
  "read_back location [] to = hret []"
| "read_back location (item # items) to =
     hbind (read_uint32_to (location + of_nat item * 4) (Some to)) (\<lambda>(value, to).
       hbind (read_back location items to) (\<lambda>bs. hret (le_bytes 4 value @ bs)))"

text \<open>\<open>r.resize(n)\<close>\<close>

definition resize_bytes :: "nat \<Rightarrow> bytes \<Rightarrow> bytes" where
  "resize_bytes n bs = take n bs @ replicate (n - length bs) 0"

definition i2c_result :: "u32 \<Rightarrow> bool \<Rightarrow> u32 \<Rightarrow> nat list \<Rightarrow> u32 \<Rightarrow> timeout \<Rightarrow> ('d hsb, bytes) hm" where
  "i2c_result value ignore_nak location read_indexes read_byte_count to =
     (if value AND I2C_FSM_ERR \<noteq> 0 then hthrow (Transaction_error ''I2C port indicates I2C_FSM_ERR.'')
      else if value AND I2C_I2C_ERR \<noteq> 0 then hthrow (Transaction_error ''I2C port indicates I2C_I2C_ERR.'')
      else if value AND I2C_I2C_NAK \<noteq> 0 then
        (if ignore_nak then hret [] else hthrow (Transaction_error ''I2C port indicates I2C_I2C_NAK.''))
      else hbind (read_back location read_indexes to) (\<lambda>r. hret (resize_bytes (unat read_byte_count) r)))"

definition i2c_request ::
  "i2c \<Rightarrow> u32 \<Rightarrow> bytes \<Rightarrow> u32 \<Rightarrow> timeout option \<Rightarrow> bool \<Rightarrow> ('d hsb \<times> sequencer, bytes) hm"
where
  "i2c_request i peripheral_i2c_address write_bytes read_byte_count in_timeout ignore_nak =
     hbind (on_obj (encode_i2c_request i peripheral_i2c_address write_bytes read_byte_count))
       (\<lambda>(write_indexes, read_indexes, status_index).
     hthen software_sequencer_enable
    (hbind (hgets (\<lambda>s. configure_apb_event_data I2C_BUSY_EVENT 0 True (host (fst s), []))) (\<lambda>(h, data).
     hthen (on_hsb (set_host (\<lambda>_. h)))
    (hbind (on_obj seq_location) (\<lambda>location.
     hbind (on_hsb (default_timeout in_timeout)) (\<lambda>to.
     hbind (on_hsb (queue_apb_timeout to)) (\<lambda>ticks.
     hthen (on_hsb (i2c_write_data (data @ [(CTRL_EVT_SW_EVENT, 1), (CTRL_EVT_SW_EVENT, 0), (CTRL_EVT_APB_TIMEOUT, ticks)])))
    (hbind (on_hsb (poll_register (location + of_nat status_index * 4) I2C_DONE to)) (\<lambda>(value, to).
     hthen (on_hsb (clear_apb_event I2C_BUSY_EVENT))
       (on_hsb (i2c_result value ignore_nak location read_indexes read_byte_count to)))))))))))"

definition i2c_transaction ::
  "i2c \<Rightarrow> u32 \<Rightarrow> bytes \<Rightarrow> u32 \<Rightarrow> timeout option \<Rightarrow> bool \<Rightarrow> ('d hsb, bytes) hm"
where
  "i2c_transaction i peripheral_i2c_address write_bytes read_byte_count in_timeout ignore_nak =
     with_object new_sequencer
       (i2c_request i peripheral_i2c_address write_bytes read_byte_count in_timeout ignore_nak)"

subsection \<open>The program and its indexes\<close>

definition i2c_commands :: "i2c \<Rightarrow> u32 \<Rightarrow> bytes \<Rightarrow> u32 \<Rightarrow> apb_command list" where
  "i2c_commands i peripheral_i2c_address write_bytes read_byte_count =
     [Apb_write (i2c_reg_control i) 0] @
     map (\<lambda>(a, w). Apb_write a w) (program_data (i2c_reg_data_buffer i) (words_of_bytes write_bytes)) @
     [Apb_write (i2c_reg_num_bytes i) (of_nat (length write_bytes) OR push_bit 16 read_byte_count),
      Apb_write (i2c_reg_bus_en i) (i2c_bus_en i),
      Apb_write (i2c_reg_control i) (push_bit 16 peripheral_i2c_address OR I2C_START),
      Apb_poll (i2c_reg_status i) I2C_DONE I2C_DONE,
      Apb_read (i2c_reg_status i) 0] @
     map (\<lambda>a. Apb_read a 0xFFFFFFFF)
       (block_addresses (i2c_reg_data_buffer i) (unat ((read_byte_count + 3) div 4))) @
     [Apb_write (i2c_reg_control i) 0]"

definition i2c_sizes_ok :: "u32 \<Rightarrow> bytes \<Rightarrow> u32 \<Rightarrow> bool" where
  "i2c_sizes_ok peripheral_i2c_address write_bytes read_byte_count \<longleftrightarrow>
     peripheral_i2c_address \<le> 0x7F \<and> length write_bytes \<le> 0x100 \<and> read_byte_count \<le> 0x100"

lemma emit_list_length: "emit_list cs q = (Inr is, q') \<Longrightarrow> length is = length cs"
  by (induction cs arbitrary: q "is" q') (auto elim!: hbind_cases)

lemma emit_list_appendE:
  assumes "emit_list (cs @ ds) q = (Inr is, q')"
  obtains xs q1 ys where "emit_list cs q = (Inr xs, q1)" "emit_list ds q1 = (Inr ys, q')" "is = xs @ ys"
    "length xs = length cs"
proof -
  obtain xs q1 ys where "emit_list cs q = (Inr xs, q1)" "emit_list ds q1 = (Inr ys, q')" "is = xs @ ys"
    using assms unfolding emit_list_append by (auto elim!: hbind_cases)
  then show thesis using that emit_list_length by blast
qed

lemma emit_list_ConsE:
  assumes "emit_list (c # cs) q = (Inr is, q')"
  obtains x q1 ys where "emit c q = (Inr x, q1)" "emit_list cs q1 = (Inr ys, q')" "is = x # ys"
  using assms by (auto elim!: hbind_cases)

text \<open>
  A request of acceptable size adds exactly those commands; the indexes it returns are those
  that the sequencer gave for the data writes, for the data reads and for the status read.
\<close>

lemma encode_i2c_request_run:
  assumes "i2c_sizes_ok a wb r" and "emit_list (i2c_commands i a wb r) q = (Inr is, q')"
  shows "encode_i2c_request i a wb r q =
    (Inr (take (length (words_of_bytes wb)) (drop 1 is),
          take (unat ((r + 3) div 4)) (drop (length (words_of_bytes wb) + 6) is),
          is ! (length (words_of_bytes wb) + 5)), q')"
proof -
  have ok: "\<not> 0x7F < a" "\<not> 0x100 < (of_nat (length wb) :: u32)" "\<not> 0x100 < r"
    using assms(1) unat_of_nat_u32 [of "length wb"] by (auto simp: i2c_sizes_ok_def word_less_nat_alt word_le_nat_alt)
  let ?ws = "map (\<lambda>(a, w). Apb_write a w) (program_data (i2c_reg_data_buffer i) (words_of_bytes wb))"
    and ?rs = "map (\<lambda>a. Apb_read a 0xFFFFFFFF) (block_addresses (i2c_reg_data_buffer i) (unat ((r + 3) div 4)))"
  have len: "length ?ws = length (words_of_bytes wb)" "length ?rs = unat ((r + 3) div 4)"
    by (simp_all add: program_data_def block_addresses_def)
  obtain q1 x ys where 1: "seq_write_uint32 (i2c_reg_control i) 0 q = (Inr x, q1)" "is = x # ys"
      "emit_list (?ws @ [Apb_write (i2c_reg_num_bytes i) (of_nat (length wb) OR push_bit 16 r),
      Apb_write (i2c_reg_bus_en i) (i2c_bus_en i),
      Apb_write (i2c_reg_control i) (push_bit 16 a OR I2C_START),
      Apb_poll (i2c_reg_status i) I2C_DONE I2C_DONE,
      Apb_read (i2c_reg_status i) 0] @ ?rs @ [Apb_write (i2c_reg_control i) 0]) q1 = (Inr ys, q')"
    using assms(2) unfolding i2c_commands_def append_Cons append_Nil by (auto simp del: emit_list.simps(2) elim!: emit_list_ConsE)
  obtain xs q2 zs where 2: "emit_list ?ws q1 = (Inr xs, q2)" "ys = xs @ zs" "length xs = length ?ws"
      "emit_list ([Apb_write (i2c_reg_num_bytes i) (of_nat (length wb) OR push_bit 16 r),
      Apb_write (i2c_reg_bus_en i) (i2c_bus_en i),
      Apb_write (i2c_reg_control i) (push_bit 16 a OR I2C_START),
      Apb_poll (i2c_reg_status i) I2C_DONE I2C_DONE,
      Apb_read (i2c_reg_status i) 0] @ ?rs @ [Apb_write (i2c_reg_control i) 0]) q2 = (Inr zs, q')"
    using 1(3) by (rule emit_list_appendE)
  obtain q3 q4 q5 q6 q7 y1 y2 y3 y4 y5 us where 3:
      "seq_write_uint32 (i2c_reg_num_bytes i) (of_nat (length wb) OR push_bit 16 r) q2 = (Inr y1, q3)"
      "seq_write_uint32 (i2c_reg_bus_en i) (i2c_bus_en i) q3 = (Inr y2, q4)"
      "seq_write_uint32 (i2c_reg_control i) (push_bit 16 a OR I2C_START) q4 = (Inr y3, q5)"
      "seq_poll (i2c_reg_status i) I2C_DONE I2C_DONE q5 = (Inr y4, q6)"
      "seq_read_uint32 (i2c_reg_status i) 0 q6 = (Inr y5, q7)"
      "zs = [y1, y2, y3, y4, y5] @ us" "emit_list (?rs @ [Apb_write (i2c_reg_control i) 0]) q7 = (Inr us, q')"
    using 2(4) unfolding append_Cons append_Nil by (auto simp del: emit_list.simps(2) elim!: emit_list_ConsE)
  obtain vs q8 ts where 4: "emit_list ?rs q7 = (Inr vs, q8)" "us = vs @ ts" "length vs = length ?rs"
      "emit_list [Apb_write (i2c_reg_control i) 0] q8 = (Inr ts, q')"
    using 3(7) by (rule emit_list_appendE)
  obtain t where 5: "seq_write_uint32 (i2c_reg_control i) 0 q8 = (Inr t, q')" "ts = [t]"
    using 4(4) by (auto simp del: emit_list.simps(2) elim!: emit_list_ConsE)
  have "length xs + 6 = Suc (length xs + 5)" by simp
  then have "drop (length xs + 6) (x # xs @ y1 # y2 # y3 # y4 # y5 # vs @ [t]) =
      drop (length xs + 5) (xs @ y1 # y2 # y3 # y4 # y5 # vs @ [t])"
    by (simp only: drop_Suc_Cons)
  then have "drop ((length wb + 3) div 4 + 6) (x # xs @ y1 # y2 # y3 # y4 # y5 # vs @ [t]) = vs @ [t]"
    using 2(3) len(1) by simp
  then show ?thesis
    using ok 1(1) 2(1,3) 3(1-5) 4(1,3) 5(1) len
    by (simp add: encode_i2c_request_def Let_def hthen_def hbind_def 1(2) 2(2) 3(6) 4(2) 5(2) nth_append)
qed

text \<open>Everything else is refused before a command is added.\<close>

lemma encode_i2c_request_refused:
  assumes "\<not> i2c_sizes_ok a wb r" and "length wb < 2 ^ 32"
  shows "\<exists>e. encode_i2c_request i a wb r q = (Inl (Runtime_error e), q)"
proof -
  have "0x7F < a \<or> 0x100 < (of_nat (length wb) :: u32) \<or> 0x100 < r"
    using assms unat_of_nat_u32 [of "length wb"]
    by (auto simp: i2c_sizes_ok_def word_less_nat_alt word_le_nat_alt)
  then show ?thesis by (auto simp: encode_i2c_request_def Let_def hthen_def hbind_def)
qed

lemma length_i2c_program:
  "length (program (i2c_commands i a wb r)) =
     (let n = 7 + (length wb + 3) div 4 + unat ((r + 3) div 4) in 3 + 2 * n + n div 16)"
  by (simp add: length_program i2c_commands_def program_data_def block_addresses_def sum_list_triv comp_def
      case_prod_beta Let_def)

subsection \<open>Requests that the control packet cannot hold\<close>

text \<open>
  A program of more than 183 words is refused in block mode, before anything is sent. Within the
  limits that \<open>encode_i2c_request\<close> checks this happens from 81 data words on.
\<close>

lemma event_sequencer_enable_too_long:
  assumes "seq_done q = (Inr (), q')" and "q_done q'" and "\<not> q_address_set q'" and "event_location event = Some a"
    and "183 < length (q_buffer q')" and "block_enable (host s)"
  shows "\<exists>e s'. event_sequencer_enable event (s, q) = (Inl e, s') \<and> device (link (fst s')) = device (link s)"
proof -
  let ?q = "q'\<lparr>q_address := a, q_address_set := True\<rparr>"
  have "assign_location event q' = (Inr (), ?q)" using assms(2-4) by (simp add: assign_location_def)
  moreover obtain e s1 where "write_data_default (program_data a (q_buffer q')) None True s = (Inl e, s1)"
      "device (link s1) = device (link s)"
    using write_data_default_full [OF _ assms(6), of "program_data a (q_buffer q')" True] assms(5)
    by (auto simp: program_data_def)
  ultimately show ?thesis using assms(1)
    by (simp add: event_sequencer_enable_def on_obj_def on_hsb_def seq_write_def hthen_def hbind_def)
qed

lemma i2c_transaction_too_long:
  assumes "i2c_sizes_ok a wb r" and "81 \<le> (length wb + 3) div 4 + unat ((r + 3) div 4)"
    and "block_enable (host s)"
  shows "\<exists>e s'. i2c_transaction i a wb r to nak s = (Inl e, s') \<and> device (link s') = device (link s)"
proof -
  obtain q q' where q: "emit_list (i2c_commands i a wb r) new_sequencer = (Inr (slots 0 1 (i2c_commands i a wb r)), q)"
      "seq_done q = (Inr (), q')" "q_buffer q' = program (i2c_commands i a wb r)" "q_done q'" "\<not> q_address_set q'"
    by (rule assemble_list [of "i2c_commands i a wb r"]) blast
  have size: "88 \<le> n \<Longrightarrow> 183 < 3 + 2 * n + n div 16" for n :: nat by arith
  have "183 < length (q_buffer q')"
    unfolding q(3) length_i2c_program Let_def
    using size [of "7 + (length wb + 3) div 4 + unat ((r + 3) div 4)"] assms(2) by simp
  from event_sequencer_enable_too_long [OF q(2,4,5) _ this assms(3), of SW_EVENT "APB_RAM + 0x800"]
  obtain e s' where "software_sequencer_enable (s, q) = (Inl e, s')" "device (link (fst s')) = device (link s)"
    by (auto simp: software_sequencer_enable_def)
  then show ?thesis
    by (simp add: i2c_transaction_def with_object_def i2c_request_def on_obj_def
        encode_i2c_request_run [OF assms(1) q(1)] hthen_def hbind_def)
qed

end
