(* ===== verification/Spi.thy ===== *)
theory Spi
  imports Device_Contract
begin

text \<open>
  The SPI driver, the class \<open>Spi\<close> of src/src/hololink/core/hololink.cpp: the checks on a
  transaction, the registers it writes, the wait for the controller, and the bytes it reads
  back. The named lock that serializes the users of the controller is left out: one
  transaction is one step.
\<close>

subsection \<open>The controller's registers\<close>

abbreviation (input) SPI_BUSY :: u32 where "SPI_BUSY \<equiv> 1"
definition SPI_CFG_CPOL :: u32 where "SPI_CFG_CPOL = 0x10"
definition SPI_CFG_CPHA :: u32 where "SPI_CFG_CPHA = 0x20"

record spi =
  spi_address :: u32
  spi_mode_value :: u32
  spi_bus_number :: u32
  turnaround_cycles :: u32

definition spi_reg_control :: "spi \<Rightarrow> u32" where "spi_reg_control s = spi_address s + 0"
definition spi_reg_bus_en :: "spi \<Rightarrow> u32" where "spi_reg_bus_en s = spi_address s + 4"
definition spi_reg_num_bytes :: "spi \<Rightarrow> u32" where "spi_reg_num_bytes s = spi_address s + 8"
definition spi_reg_spi_mode :: "spi \<Rightarrow> u32" where "spi_reg_spi_mode s = spi_address s + 0xC"
definition spi_reg_num_cmd_bytes :: "spi \<Rightarrow> u32" where "spi_reg_num_cmd_bytes s = spi_address s + 0x10"
definition spi_reg_status :: "spi \<Rightarrow> u32" where "spi_reg_status s = spi_address s + 0x80"
definition spi_reg_data_buffer :: "spi \<Rightarrow> u32" where "spi_reg_data_buffer s = spi_address s + 0x100"

lemmas spi_regs = spi_reg_control_def spi_reg_bus_en_def spi_reg_num_bytes_def spi_reg_spi_mode_def
  spi_reg_num_cmd_bytes_def spi_reg_status_def spi_reg_data_buffer_def

text \<open>\<open>width_map[width]\<close> inserts a zero for a width that is not in the map.\<close>

definition width_map :: "u32 \<Rightarrow> u32" where
  "width_map width = (if width = 2 then 0x100 else if width = 4 then 0x200 else 0)"

definition spi_mode :: "u32 \<Rightarrow> u32 \<Rightarrow> u32 \<Rightarrow> u32 \<Rightarrow> hsb_error + u32" where
  "spi_mode prescaler cpol cpha width =
     (if 16 \<le> prescaler then Inl (Runtime_error ''Invalid prescaler, has to be less than 16'')
      else Inr (prescaler OR width_map width OR (if cpol \<noteq> 0 then SPI_CFG_CPOL else 0) OR
                (if cpha \<noteq> 0 then SPI_CFG_CPHA else 0)))"

definition get_spi :: "u32 \<Rightarrow> u32 \<Rightarrow> u32 \<Rightarrow> u32 \<Rightarrow> u32 \<Rightarrow> u32 \<Rightarrow> u32 \<Rightarrow> hsb_error + spi" where
  "get_spi bus_number chip_select prescaler cpol cpha width address =
     map_sum id (\<lambda>mode. \<lparr>spi_address = address, spi_mode_value = mode, spi_bus_number = bus_number,
        turnaround_cycles = 0\<rparr>) (spi_mode prescaler cpol cpha width)"

subsection \<open>Register accesses\<close>

definition spi_write_uint32 :: "u32 \<Rightarrow> u32 \<Rightarrow> timeout \<Rightarrow> ('d hsb, timeout) hm" where
  "spi_write_uint32 address value to =
     hbind (write_uint32_to address value (Some to) True) (\<lambda>(ok, to).
       if ok then hret to else hthrow (Transaction_error ''ACK failure writing SPI register''))"

definition spi_write_data :: "(u32 \<times> u32) list \<Rightarrow> timeout \<Rightarrow> ('d hsb, timeout) hm" where
  "spi_write_data data to =
     hbind (write_data_default data (Some to) True) (\<lambda>(ok, to).
       if ok then hret to else hthrow (Transaction_error ''SPI controller read failure''))"

subsection \<open>A transaction\<close>

text \<open>The sizes are 32-bit numbers, and so is their sum.\<close>

definition spi_check :: "spi \<Rightarrow> bytes \<Rightarrow> bytes \<Rightarrow> u32 \<Rightarrow> hsb_error option" where
  "spi_check s command data read_byte_count =
     (let write_command_count = of_nat (length command) :: u32;
          write_byte_count = of_nat (length (command @ data)) :: u32
      in if 16 \<le> write_command_count then Some (Runtime_error ''Size of write_command_bytes is too large'')
         else if 256 < write_byte_count then Some (Runtime_error ''Size of write is too large'')
         else if 256 < write_command_count + read_byte_count then Some (Runtime_error ''Size of read is too large'')
         else if 256 \<le> turnaround_cycles s then Some (Runtime_error ''turnaround_cycles_ must be less than 256'')
         else None)"

definition spi_request :: "spi \<Rightarrow> bytes \<Rightarrow> bytes \<Rightarrow> u32 \<Rightarrow> (u32 \<times> u32) list" where
  "spi_request s command data read_byte_count =
     (let write_bytes = command @ data in
      [(spi_reg_spi_mode s, spi_mode_value s)] @
      program_data (spi_reg_data_buffer s) (words_of_bytes write_bytes) @
      [(spi_reg_num_bytes s, of_nat (length write_bytes) OR push_bit 16 read_byte_count),
       (spi_reg_num_cmd_bytes s, turnaround_cycles s OR push_bit 8 (of_nat (length command))),
       (spi_reg_bus_en s, spi_bus_number s),
       (spi_reg_control s, SPI_START)])"

definition spi_transaction :: "spi \<Rightarrow> bytes \<Rightarrow> bytes \<Rightarrow> u32 \<Rightarrow> timeout option \<Rightarrow> ('d hsb, bytes) hm" where
  "spi_transaction s command data read_byte_count in_timeout =
     (case spi_check s command data read_byte_count of
        Some e \<Rightarrow> hthrow e
      | None \<Rightarrow>
          (let total = of_nat (length command) + read_byte_count in
           hbind (default_timeout in_timeout) (\<lambda>to.
           hbind (read_uint32_to (spi_reg_status s) (Some to)) (\<lambda>(value, to).
           if value AND SPI_BUSY \<noteq> 0 then hthrow (Transaction_error ''Unexpected state; SPI port is busy.'')
           else
             hbind (spi_write_uint32 (spi_reg_control s) 0 to) (\<lambda>to.
             hbind (read_uint32_to (spi_reg_status s) (Some to)) (\<lambda>(value, to).
             if value AND SPI_DONE \<noteq> 0 then
               hthrow (Transaction_error ''Unexpected state; SPI port indicates invalid DONE.'')
             else
               hbind (spi_write_data (spi_request s command data read_byte_count) to) (\<lambda>to.
               hbind (poll_register (spi_reg_status s) SPI_DONE to) (\<lambda>(_, to).
               hthen (write_reg (spi_reg_control s) 0)
              (hbind (read_uint32_count_to (spi_reg_data_buffer s) ((total + 3) div 4) (Some to) True)
                 (\<lambda>((ok, content), to).
                  if \<not> ok then hthrow (Transaction_error ''Failed to read SPI data buffer'')
                  else
                    hbind (write_uint32_to (spi_reg_control s) 0 (Some to) True) (\<lambda>_.
                      hret (take (unat total) (bytes_of_words content)))))))))))))"

text \<open>The sizes that pass the check, as numbers.\<close>

lemma spi_check_sizes:
  assumes "spi_check s command data r = None" and "length (command @ data) < 2 ^ 32"
  shows "length command < 16" "length command + length data \<le> 256"
    "unat (of_nat (length command) + r) \<le> 256" "turnaround_cycles s < 256"
proof -
  have l: "unat (of_nat (length command) :: u32) = length command"
      "unat (of_nat (length (command @ data)) :: u32) = length (command @ data)"
    using assms(2) by (simp_all add: unat_of_nat_u32 del: of_nat_add)
  have "\<not> 16 \<le> (of_nat (length command) :: u32)" "\<not> 256 < (of_nat (length (command @ data)) :: u32)"
      "\<not> 256 < of_nat (length command) + r" "\<not> 256 \<le> turnaround_cycles s"
    using assms(1) by (simp_all add: spi_check_def Let_def split: if_splits)
  with l show "length command < 16" "length command + length data \<le> 256"
    "unat (of_nat (length command) + r) \<le> 256" "turnaround_cycles s < 256"
    by (simp_all add: word_le_nat_alt word_less_nat_alt not_le not_less del: of_nat_add)
qed

lemma spi_check_throws:
  "spi_check s command data r = Some e \<Longrightarrow> spi_transaction s command data r to b = (Inl e, b)"
  by (simp add: spi_transaction_def)

subsection \<open>A transaction with a controller that completes at once\<close>

text \<open>
  The contract of the controller at \<open>base\<close>: its configuration and its buffer are memory, a zero
  in the control register makes it idle, the start bit makes it done.
\<close>

locale spi_controller = register_device +
  fixes base :: u32
  assumes control_idle: "effect (base, 0) = Some [(base, 0), (base + 0x80, SPI_IDLE)]"
    and control_start: "effect (base, SPI_START) = Some [(base, SPI_START), (base + 0x80, SPI_DONE)]"
    and control_config: "k \<in> {4, 8, 0xC, 0x10} \<Longrightarrow> effect (base + k, v) = Some [(base + k, v)]"
    and control_buffer: "i < 64 \<Longrightarrow> effect (base + 0x100 + of_nat i * 4, v) = Some [(base + 0x100 + of_nat i * 4, v)]"
    and buffer_readable: "i < 64 \<Longrightarrow> readable (base + 0x100 + of_nat i * 4)"
    and status_readable: "readable (base + 0x80)"

lemma buffer_apart:
  assumes "i < 64" and "k < 0x100"
  shows "base + 0x100 + of_nat i * 4 \<noteq> base + (k :: u32)"
proof
  assume eq: "base + 0x100 + of_nat i * 4 = base + k"
  have "(0x100 :: u32) + of_nat i * 4 = of_nat (256 + 4 * i)" by simp
  with eq have "k = of_nat (256 + 4 * i)" by (simp add: add.assoc)
  then have "unat k = 256 + 4 * i" using assms(1) unat_of_nat_u32 [of "256 + 4 * i"] by simp
  with assms(2) show False by (simp add: word_less_nat_alt)
qed

lemma program_data_set:
  "(a, v) \<in> set (program_data b ws) \<Longrightarrow> \<exists>i < length ws. a = b + of_nat i * 4"
  by (auto simp: program_data_def set_zip)

lemma length_program_data [simp]: "length (program_data b ws) = length ws"
  by (simp add: program_data_def)

context spi_controller
begin

text \<open>The words that a transaction leaves in the buffer.\<close>

lemma spi_request_effects:
  assumes s: "spi_address s = base" and ok: "spi_check s command data r = None"
    and len: "length (command @ data) < 2 ^ 32"
  shows "\<forall>av \<in> set (spi_request s command data r). effect av \<noteq> None"
    "length (spi_request s command data r) \<le> 183"
    "upds R (effects effect (spi_request s command data r)) (base + 0x80) = SPI_DONE"
    "words_at (upds R (effects effect (spi_request s command data r))) (base + 0x100) (words_of_bytes (command @ data))"
proof -
  let ?ws = "words_of_bytes (command @ data)"
  have n: "length ?ws \<le> 64" using spi_check_sizes(2) [OF ok len] by simp
  have plain: "effect av = Some [av]" if "av \<in> set (program_data (base + 0x100) ?ws)" for av
    using program_data_set [of "fst av" "snd av" "base + 0x100" ?ws] that n control_buffer by (cases av) fastforce
  then show "\<forall>av \<in> set (spi_request s command data r). effect av \<noteq> None"
    using control_config control_start by (auto simp: spi_request_def Let_def spi_regs s)
  show "length (spi_request s command data r) \<le> 183"
    using n by (simp add: spi_request_def Let_def)
  let ?pre = "[(base + 0xC, spi_mode_value s)]"
    and ?post = "[(base + 8, of_nat (length (command @ data)) OR push_bit 16 r),
      (base + 0x10, turnaround_cycles s OR push_bit 8 (of_nat (length command))),
      (base + 4, spi_bus_number s), (base, SPI_START), (base + 0x80, SPI_DONE)]"
  have eff: "effects effect (spi_request s command data r) = ?pre @ program_data (base + 0x100) ?ws @ ?post"
    using control_config control_start effects_plain [of "program_data (base + 0x100) ?ws" effect] plain
    by (simp add: spi_request_def Let_def spi_regs s)
  show "upds R (effects effect (spi_request s command data r)) (base + 0x80) = SPI_DONE"
    by (simp add: eff)
  have "words_at (upds (upds R ?pre) (program_data (base + 0x100) ?ws)) (base + 0x100) ?ws"
    using n by (intro words_at_program_data) simp
  moreover have "upds R' ?post a = R' a" if "a \<in> region (base + 0x100) (length ?ws)" for a R'
    using that n buffer_apart [of _ 8 base] buffer_apart [of _ "0x10" base] buffer_apart [of _ 4 base]
      buffer_apart [of _ 0 base] buffer_apart [of _ "0x80" base]
    by (intro upds_other) (auto simp: region_def)
  ultimately show "words_at (upds R (effects effect (spi_request s command data r))) (base + 0x100) ?ws"
    unfolding eff upds_simps(3) by (subst words_at_cong) auto
qed

lemma buffer_addresses:
  "set (block_addresses (base + 0x100) n) = region (base + 0x100) n"
  by (auto simp: block_addresses_def region_def)

lemma words_at_block: "words_at R a ws \<Longrightarrow> k \<le> length ws \<Longrightarrow> map R (block_addresses a k) = take k ws"
  by (rule nth_equalityI) (auto simp: block_addresses_def words_at_def)

lemma spi_write_uint32_rule:
  assumes "block_enable h" and "effect (a, v) = Some us"
  shows "runs (timed R n h t (Suc k)) (spi_write_uint32 a v t) (\<lambda>t' s. t' = t \<and> timed (upds R us) n h t k s)"
  unfolding spi_write_uint32_def
  by (rule runs_hbind_val [OF write_uint32_to_rule [OF assms]]) (simp add: runs_hret_conseq)

lemma spi_write_data_rule:
  assumes "block_enable h" and "avs \<noteq> []" and "length avs \<le> 183" and "\<forall>av \<in> set avs. effect av \<noteq> None"
  shows "runs (timed R n h t (Suc k)) (spi_write_data avs t)
    (\<lambda>t' s. t' = t \<and> timed (upds R (effects effect avs)) n h t k s)"
  unfolding spi_write_data_def
  by (rule runs_hbind_val [OF write_data_to_rule [OF assms]]) (simp add: runs_hret_conseq)

text \<open>
  What a transaction that reads no more than it wrote gives: the controller of the contract is
  a loopback.
\<close>

lemma spi_transaction_rule:
  assumes s: "spi_address s = base" and ok: "spi_check s command data r = None"
    and len: "length (command @ data) < 2 ^ 32" and block: "block_enable h"
    and mm: "m = unat (of_nat (length command) + r)" "0 < m" "m \<le> length (command @ data)"
    and idle: "R (base + 0x80) AND SPI_BUSY = 0"
  shows "runs (\<lambda>b. st R (Suc (Suc (Suc ((m + 3) div 4 + n)))) h b \<and> in_time to 10 (clock (link b)))
    (spi_transaction s command data r to)
    (\<lambda>bs b. bs = take m (command @ data) \<and> st (upds (upds (upds (upds R [(base, 0), (base + 0x80, SPI_IDLE)])
       (effects effect (spi_request s command data r))) [(base, 0), (base + 0x80, SPI_IDLE)])
       [(base, 0), (base + 0x80, SPI_IDLE)]) n h b)"
proof -
  let ?R1 = "upds R [(base, 0), (base + 0x80, SPI_IDLE)]"
  let ?R2 = "upds ?R1 (effects effect (spi_request s command data r))"
  let ?R3 = "upds ?R2 [(base, 0), (base + 0x80, SPI_IDLE)]"
  let ?words = "(of_nat (length command) + r + 3) div 4"
  note req = spi_request_effects [OF s ok len]
  have t256: "m \<le> 256" using spi_check_sizes(3) [OF ok len] mm(1) by simp
  then have words: "unat ?words = (m + 3) div 4"
    using mm(1) by (simp add: unat_div unat_word_ariths)
  have buf: "words_at ?R3 (base + 0x100) (words_of_bytes (command @ data))"
  proof -
    have "length (words_of_bytes (command @ data)) \<le> 64" using spi_check_sizes(2) [OF ok len] by simp
    then have "upds ?R2 [(base, 0), (base + 0x80, SPI_IDLE)] a = ?R2 a"
      if "a \<in> region (base + 0x100) (length (words_of_bytes (command @ data)))" for a
      using that buffer_apart [of _ 0 base] buffer_apart [of _ "0x80" base]
      by (intro upds_other) (auto simp: region_def)
    with req(4) show ?thesis by (subst words_at_cong) auto
  qed
  have wb: "(m + 3) div 4 \<le> length (words_of_bytes (command @ data))" "(m + 3) div 4 \<le> 64"
    using mm(3) t256 by (simp_all add: div_le_mono)
  have bytes: "take m (bytes_of_words (map ?R3 (block_addresses (base + 0x100) ((m + 3) div 4)))) =
      take m (command @ data)"
    unfolding words_at_block [OF buf wb(1)] by (rule take_bytes_of_words [OF mm(3)])
  have readable: "\<forall>a \<in> set (block_addresses (base + 0x100) (unat ?words)). readable a"
    using wb(2) buffer_readable by (auto simp: words block_addresses_def)
  have aligned: "\<not> misaligned (base + 0x100)" using buffer_readable [of 0] readable_aligned by simp
  have pos: "0 < unat ?words" "unat ?words \<le> 182" using mm(2) wb(2) by (simp_all add: words)
  let ?w = "(m + 3) div 4 + n"
  have start: "runs (timed R (Suc (Suc (Suc ?w))) h t 10) (read_uint32_to (base + 0x80) (Some t))
      (\<lambda>v b. v = (R (base + 0x80), t) \<and> timed R (Suc (Suc ?w)) h t 9 b)" for t
    using read_uint32_to_rule [OF status_readable, of R "Suc (Suc ?w)" h t 9] by simp
  have idle1: "runs (timed R (Suc (Suc ?w)) h t 9) (spi_write_uint32 base 0 t)
      (\<lambda>t' b. t' = t \<and> timed ?R1 (Suc (Suc ?w)) h t 8 b)" for t
    using spi_write_uint32_rule [OF block control_idle, of R "Suc (Suc ?w)" t 8] by simp
  have status1: "runs (timed ?R1 (Suc (Suc ?w)) h t 8) (read_uint32_to (base + 0x80) (Some t))
      (\<lambda>v b. v = (SPI_IDLE, t) \<and> timed ?R1 (Suc ?w) h t 7 b)" for t
    using read_uint32_to_rule [OF status_readable, of ?R1 "Suc ?w" h t 7] by simp
  have not_done: "SPI_IDLE AND SPI_DONE = 0" by simp
  have ne: "spi_request s command data r \<noteq> []" by (simp add: spi_request_def Let_def)
  have send: "runs (timed ?R1 (Suc ?w) h t 7) (spi_write_data (spi_request s command data r) t)
      (\<lambda>t' b. t' = t \<and> timed ?R2 (Suc ?w) h t 6 b)" for t
    using spi_write_data_rule [OF block ne req(2,1), of ?R1 "Suc ?w" t 6] by simp
  have poll: "runs (timed ?R2 (Suc ?w) h t 6) (poll_register (base + 0x80) SPI_DONE t)
      (\<lambda>v b. v = (SPI_DONE, t) \<and> timed ?R2 ?w h t 5 b)" for t
    using poll_register_rule [OF status_readable, of ?R2 SPI_DONE ?w h t 5] by (simp add: req(3))
  have clear: "runs (timed ?R2 ?w h t 5) (write_reg base 0) (\<lambda>_. timed ?R3 ?w h t 4)" for t
    using write_reg_timed_rule [OF block control_idle, of ?R2 ?w t 4] by simp
  have data: "runs (timed ?R3 ?w h t 4) (read_uint32_count_to (base + 0x100) ?words (Some t) True)
      (\<lambda>v b. v = ((True, map ?R3 (block_addresses (base + 0x100) ((m + 3) div 4))), t) \<and> timed ?R3 n h t 3 b)" for t
    using read_uint32_count_to_rule [OF block readable pos aligned, of ?R3 n t 3 True] by (simp add: words)
  have last: "runs (timed ?R3 n h t 3) (write_uint32_to base 0 (Some t) True)
      (\<lambda>v b. v = (True, t) \<and> timed (upds ?R3 [(base, 0), (base + 0x80, SPI_IDLE)]) n h t 2 b)" for t
    using write_uint32_to_rule [OF block control_idle, of ?R3 n t 2] by simp
  show ?thesis
    unfolding spi_transaction_def ok option.case Let_def spi_regs s add_0_right
    apply (rule runs_hbind [OF default_timeout_rule])
    apply (rule runs_hbind_val [OF start], simp only: split_conv idle simp_thms if_False)
    apply (rule runs_hbind_val [OF idle1], rule runs_hbind_val [OF status1])
    apply (simp only: split_conv not_done simp_thms if_False)
    apply (rule runs_hbind_val [OF send], rule runs_hbind_val [OF poll], simp only: split_conv)
    apply (rule runs_hthen [OF clear], rule runs_hbind_val [OF data], simp only: split_conv simp_thms if_False)
    apply (rule runs_hbind_val [OF last], rule runs_hret_conseq)
    apply (simp only: timed_def bytes mm(1) [symmetric] simp_thms)
    done
qed

end

end
