(* ===== verification/Board_Drivers.thy ===== *)
theory Board_Drivers
  imports Emulator_Link Apb_Exec I2c Spi Uart
begin

text \<open>
  The drivers of the host on the emulated board: the emulator keeps the contracts under which
  \<open>Gpio\<close>, \<open>Uart\<close> and \<open>Spi\<close> are verified, event configuration keeps the host's caches equal
  to the board's registers, and a sequencer that is enabled leaves its program in the board's
  memory, where the emulator's interpreter runs it.
\<close>

subsection \<open>The emulator keeps the drivers' contracts\<close>

text \<open>An address is memory when its value is not one of the special ones.\<close>

lemma emu_plainI:
  assumes "unat a = n" and "4 dvd n"
    and "n \<noteq> 0x22C" "n \<noteq> 0x3000000" "n \<noteq> 0x3000200" "n \<noteq> 0x104" "n \<noteq> 0x188"
  shows "emu_plain a"
  using assms by (auto simp: emu_plain_def misaligned_iff special_addresses_def)

lemma gpio_register_plain:
  assumes "base \<in> {GPIO_OUTPUT_BASE_REGISTER, GPIO_DIRECTION_BASE_REGISTER, GPIO_STATUS_BASE_REGISTER}" "pin < 0x100"
  shows "emu_plain (gpio_register base pin)"
proof (rule emu_plainI)
  show "unat (gpio_register base pin) = unat base + 4 * unat (pin div 32)"
    using assms(1) by (intro unat_gpio_register [OF assms(2)]) (auto simp: gpio_bases)
qed (use assms(1) unat_div_32 [OF assms(2)] in \<open>auto simp: gpio_bases\<close>)

lemma emu_gpio_memory: "gpio_memory emu_readable emu_effect"
  unfolding gpio_memory_def by (blast intro: emu_plain_effect emu_plain_readable gpio_register_plain)

lemma emu_uart_memory: "uart_memory emu_readable emu_effect (uart_object 0 rate bits par stop flow)"
proof -
  let ?u = "uart_object 0 rate bits par stop flow"
  have "emu_plain a" if "a \<in> {uart_ctrl0 ?u, uart_ctrl1 ?u, uart_ctrl2 ?u, uart_ctrl3 ?u, uart_status0 ?u,
      uart_tx_data ?u, uart_rx_data ?u, GPIO_DIRECTION_BASE_REGISTER, VSYNC_GPIO}" for a
    using that by (auto simp: uart_object_def uart_registers GPIO_DIRECTION_BASE_REGISTER_def emu_plainI)
  then show ?thesis
    unfolding uart_memory_def using emu_plain_effect emu_plain_readable by blast
qed

lemma spi_buffer_plain: "i < 64 \<Longrightarrow> emu_plain (SPI_CTRL + 0x100 + of_nat i * 4)"
  by (rule emu_plainI [where n = "0x3000100 + 4 * i"]) (simp_all add: unat_word_ariths unat_of_nat_u32)

interpretation emu_spi: spi_controller "emulator_respond EMULATOR_LATENCY" emu_ok get_reg emu_readable
    emu_effect e_next_sequence emu_budget EMULATOR_LATENCY SPI_CTRL
proof unfold_locales
  show "emu_effect (SPI_CTRL, 0) = Some [(SPI_CTRL, 0), (SPI_CTRL + 0x80, SPI_IDLE)]"
    and "emu_effect (SPI_CTRL, SPI_START) = Some [(SPI_CTRL, SPI_START), (SPI_CTRL + 0x80, SPI_DONE)]"
    by (simp_all add: emu_effect_def misaligned_def)
  show "emu_effect (SPI_CTRL + k, v) = Some [(SPI_CTRL + k, v)]" if "k \<in> {4, 8, 0xC, 0x10}" for k v
    using that by (intro emu_plain_effect) (auto intro!: emu_plainI)
  show "emu_effect (SPI_CTRL + 0x100 + of_nat i * 4, v) = Some [(SPI_CTRL + 0x100 + of_nat i * 4, v)]"
    and "emu_readable (SPI_CTRL + 0x100 + of_nat i * 4)" if "i < 64" for i v
    using spi_buffer_plain [OF that] by (simp_all only: emu_plain_effect emu_plain_readable)
  show "emu_readable (SPI_CTRL + 0x80)" by (simp add: emu_readable_def misaligned_def)
qed

subsection \<open>Events\<close>

definition event_registers :: "u32 set" where
  "event_registers = {CTRL_EVT_APB_INTERRUPT_EN, CTRL_EVT_RISING, CTRL_EVT_FALLING, CTRL_EVT_CLEAR} \<union> range event_vector"

definition event_memory :: "(u32 \<times> u32 \<Rightarrow> (u32 \<times> u32) list option) \<Rightarrow> bool" where
  "event_memory effect \<longleftrightarrow>
     (\<forall>a \<in> event_registers.
        \<forall>v. effect (a, v) = Some [(a, v)])"

lemma configure_apb_event_addresses:
  "av \<in> set (snd (configure_apb_event_data e handler rising (h, []))) \<Longrightarrow>
   fst av \<in> event_registers"
  by (auto simp: event_registers_def configure_apb_event_data_writes clear_apb_event_data_writes split: if_splits)

lemma clear_apb_event_addresses:
  "av \<in> set (snd (clear_apb_event_data e (h, []))) \<Longrightarrow>
   fst av \<in> event_registers"
  by (auto simp: event_registers_def clear_apb_event_data_writes split: if_splits)

text \<open>The writes do not depend on the sequence number, nor do they change it.\<close>

lemma cleared_sequence [simp]: "cleared e (h\<lparr>hl_sequence := q\<rparr>) = (cleared e h)\<lparr>hl_sequence := q\<rparr>"
  by (simp add: cleared_def)

lemma configured_sequence [simp]: "configured e rising (h\<lparr>hl_sequence := q\<rparr>) = (configured e rising h)\<lparr>hl_sequence := q\<rparr>"
  by (simp add: configured_def Let_def)

context register_device
begin

text \<open>A list of writes with the default timeout.\<close>

lemma write_data_unit_rule:
  assumes "block_enable h" and "avs \<noteq> []" and "length avs \<le> 183" and "\<forall>av \<in> set avs. effect av \<noteq> None"
  shows "runs (st R n h) (hbind (write_data_default avs None True) (\<lambda>_. hret ()))
    (\<lambda>_. st (upds R (effects effect avs)) n h)"
  by (rule runs_hbind [OF write_data_default_rule [OF assms]]) (rule runs_assume, rule runs_hret)

lemma st_set_host:
  assumes "st R n h s" and "\<And>q. f (h\<lparr>hl_sequence := q\<rparr>) = (g h)\<lparr>hl_sequence := q\<rparr>"
  shows "st R n (g h) (s\<lparr>host := f (host s)\<rparr>)"
  using assms(1) by (rule st_host) (use assms in \<open>simp add: connected_def\<close>)

lemma send_event_writes_rule:
  assumes "block_enable h" "block_enable (g h)"
    and data: "\<And>q. f (h\<lparr>hl_sequence := q\<rparr>, []) = ((g h)\<lparr>hl_sequence := q\<rparr>, data)"
    and avs: "data \<noteq> []" "length data \<le> 183" "\<forall>av \<in> set data. effect av = Some [av]"
  shows "runs (st R n h) (send_event_writes f) (\<lambda>_. st (upds R data) n (g h))"
proof (rule runsI)
  fix s
  assume s: "st R n h s"
  have f: "f (host s, []) = (fst (f (host s, [])), data)"
    using s data by (rule_tac st_host [OF s]) simp
  have "st R n (g h) (s\<lparr>host := fst (f (host s, []))\<rparr>)"
    by (rule st_set_host [OF s]) (simp add: data)
  from runsD [OF write_data_unit_rule [OF assms(2) avs(1,2)] this]
  show "\<exists>x s'. send_event_writes f s = (Inr x, s') \<and> st (upds R data) n (g h) s'"
    using avs(3) f effects_plain [OF avs(3)] by (auto simp: send_event_writes_def hthen_def hbind_def split: prod.splits)
qed

text \<open>Configuring and clearing an event keep the caches of the host equal to the board's registers.\<close>

lemma configure_apb_event_rule:
  assumes "event_memory effect" "block_enable h" "caches_agree R h"
  shows "runs (st R n h) (configure_apb_event e handler rising)
    (\<lambda>_ s. \<exists>R'. st R' n (configured e rising h) s \<and> caches_agree R' (configured e rising h) \<and>
       R' (event_vector e) = handler_of handler h \<and> (\<forall>a. a \<notin> event_registers \<longrightarrow> R' a = R a))"
proof -
  let ?data = "snd (configure_apb_event_data e handler rising (h, []))"
  have d: "configure_apb_event_data e handler rising (h\<lparr>hl_sequence := q\<rparr>, []) =
      ((configured e rising h)\<lparr>hl_sequence := q\<rparr>, ?data)" for q
    by (rule prod_eqI) (simp_all add: configure_apb_event_data_host configure_apb_event_data_writes
        clear_apb_event_data_writes handler_of_def)
  have "effect av = Some [av]" if "av \<in> set ?data" for av
    using configure_apb_event_addresses [OF that] assms(1) by (cases av) (auto simp: event_memory_def)
  moreover have "?data \<noteq> []" "length ?data \<le> 183" "block_enable (configured e rising h)"
    using length_configure_writes [of e handler rising h] assms(2)
    by (auto simp: configure_apb_event_data_writes configured_def cleared_def Let_def)
  ultimately have "runs (st R n h) (configure_apb_event e handler rising)
      (\<lambda>_. st (upds R ?data) n (configured e rising h))"
    unfolding configure_apb_event_def using assms(2) d by (intro send_event_writes_rule) auto
  moreover have "upds R ?data a = R a" if "a \<notin> event_registers" for a
    using that configure_apb_event_addresses by (intro upds_other) blast
  ultimately show ?thesis
    using caches_agree_configured [OF assms(3), of e handler rising] configured_vector [of R e handler rising h]
    by (elim runs_post) (intro exI [of _ "upds R ?data"], simp)
qed

lemma clear_apb_event_rule:
  assumes "event_memory effect" "block_enable h" "caches_agree R h"
  shows "runs (st R n h) (clear_apb_event e)
    (\<lambda>_ s. \<exists>R'. st R' n (cleared e h) s \<and> caches_agree R' (cleared e h) \<and>
       (\<forall>a. a \<notin> event_registers \<longrightarrow> R' a = R a))"
proof -
  let ?data = "snd (clear_apb_event_data e (h, []))"
  have d: "clear_apb_event_data e (h\<lparr>hl_sequence := q\<rparr>, []) = ((cleared e h)\<lparr>hl_sequence := q\<rparr>, ?data)" for q
    by (rule prod_eqI) (simp_all add: clear_apb_event_data_host clear_apb_event_data_writes)
  have "effect av = Some [av]" if "av \<in> set ?data" for av
    using clear_apb_event_addresses [OF that] assms(1) by (cases av) (auto simp: event_memory_def)
  moreover have "?data \<noteq> []" "length ?data \<le> 183" "block_enable (cleared e h)"
    using assms(2) by (auto simp: clear_apb_event_data_writes cleared_def)
  ultimately have "runs (st R n h) (clear_apb_event e) (\<lambda>_. st (upds R ?data) n (cleared e h))"
    unfolding clear_apb_event_def using assms(2) d by (intro send_event_writes_rule) auto
  moreover have "upds R ?data a = R a" if "a \<notin> event_registers" for a
    using that clear_apb_event_addresses by (intro upds_other) blast
  ultimately show ?thesis
    using caches_agree_cleared [OF assms(3), of e]
    by (elim runs_post) (intro exI [of _ "upds R ?data"], simp)
qed

text \<open>A sequencer that is enabled leaves its program on the board and the vector pointing at it.\<close>

lemma seq_write_rule:
  assumes "block_enable h" "q_address_set q" "q_buffer q \<noteq> []" "length (q_buffer q) \<le> 183"
    and mem: "\<And>a v. a \<in> region (q_address q) (length (q_buffer q)) \<Longrightarrow> effect (a, v) = Some [(a, v)]"
  shows "runs (\<lambda>s. st R n h (fst s) \<and> snd s = q) seq_write
    (\<lambda>_ s. st (upds R (program_data (q_address q) (q_buffer q))) n h (fst s) \<and> snd s = q\<lparr>q_written := True\<rparr>)"
proof (rule runsI)
  fix s :: "'d hsb \<times> sequencer"
  assume s: "st R n h (fst s) \<and> snd s = q"
  let ?d = "program_data (q_address q) (q_buffer q)"
  have plain: "\<forall>av \<in> set ?d. effect av = Some [av]"
    using mem program_data_set by (fastforce simp: region_def)
  moreover have "?d \<noteq> []" using assms(3) length_program_data [of "q_address q" "q_buffer q"] by fastforce
  ultimately obtain s' where "hbind (write_data_default ?d None True) (\<lambda>_. hret ()) (fst s) = (Inr (), s')"
      "st (upds R ?d) n h s'"
    using runsD [OF write_data_unit_rule [OF assms(1), of ?d]] s assms(4) effects_plain [OF plain] by fastforce
  then show "\<exists>x s'. seq_write s = (Inr x, s') \<and> st (upds R ?d) n h (fst s') \<and> snd s' = q\<lparr>q_written := True\<rparr>"
    using s assms(2)
    by (cases s) (auto simp: seq_write_def on_hsb_def on_obj_def hthen_def hbind_def split: prod.splits sum.splits)
qed

lemma event_sequencer_enable_rule:
  assumes q: "seq_done q = (Inr (), q')" "q_done q'" "\<not> q_address_set q'" "q_buffer q' = ws"
    and ws: "ws \<noteq> []" "length ws \<le> 183" and a: "event_location event = Some a"
    and mem: "event_memory effect" "\<And>b v. b \<in> region a (length ws) \<Longrightarrow> effect (b, v) = Some [(b, v)]"
    and apart: "region a (length ws) \<inter>
      event_registers = {}"
    and h: "block_enable h" "caches_agree R h"
  shows "runs (\<lambda>s. st R n h (fst s) \<and> snd s = q) (event_sequencer_enable event)
    (\<lambda>_ s. seq_location (snd s) = (Inr a, snd s) \<and> (\<exists>R'. st R' n (configured event True h) (fst s) \<and> caches_agree R' (configured event True h) \<and>
       R' (event_vector event) = a \<and> words_at R' a ws \<and>
       (\<forall>b. b \<notin> region a (length ws) \<union>
          event_registers \<longrightarrow>
          R' b = R b)))"
proof -
  let ?q = "q'\<lparr>q_address := a, q_address_set := True\<rparr>" and ?R = "upds R (program_data a ws)"
  let ?data = "snd (configure_apb_event_data event a True (h, []))"
  have "a \<noteq> 0" using a by (cases event) auto
  then have handler: "handler_of a h = a" by (simp add: handler_of_def)
  have prep: "hthen (on_obj seq_done) (hthen (on_obj (assign_location event)) k) (b, q) = k (b, ?q)"
    for b :: "'d hsb" and k :: "('d hsb \<times> sequencer, unit) hm"
    using q(1-3) a by (simp add: on_obj_def assign_location_def hthen_def hbind_def)
  have stored: "runs (\<lambda>s. st R n h (fst s) \<and> snd s = ?q) seq_write
      (\<lambda>_ s. st ?R n h (fst s) \<and> snd s = ?q\<lparr>q_written := True\<rparr>)"
    using seq_write_rule [of h ?q R n] h(1) q(4) ws mem(2) by simp
  have agree: "caches_agree ?R h"
  proof -
    have "CTRL_EVT_APB_INTERRUPT_EN \<notin> region a (length ws)" "CTRL_EVT_RISING \<notin> region a (length ws)"
        "CTRL_EVT_FALLING \<notin> region a (length ws)"
      using apart by (auto simp: event_registers_def)
    then show ?thesis
      using h(2) upds_other [of _ "program_data a ws" R] by (simp add: caches_agree_def fst_program_data)
  qed
  have conf: "runs (st ?R n h) (configure_apb_event event a True) (\<lambda>_ s. \<exists>R'. st R' n (configured event True h) s \<and>
      caches_agree R' (configured event True h) \<and> R' (event_vector event) = a \<and>
      (\<forall>b. b \<notin> event_registers \<longrightarrow> R' b = ?R b))"
    using configure_apb_event_rule [OF mem(1) h(1) agree, of n event a True] by (simp add: handler)
  show ?thesis
  proof (rule runsI)
    fix s :: "'d hsb \<times> sequencer"
    assume s: "st R n h (fst s) \<and> snd s = q"
    then obtain b where b: "s = (b, q)" "st R n h b" by (cases s) auto
    obtain b1 where b1: "seq_write (b, ?q) = (Inr (), (b1, ?q\<lparr>q_written := True\<rparr>))" "st ?R n h b1"
      using runsD [OF stored, of "(b, ?q)"] b(2) by auto
    obtain b2 R' where b2: "configure_apb_event event a True b1 = (Inr (), b2)" "st R' n (configured event True h) b2"
        "caches_agree R' (configured event True h)" "R' (event_vector event) = a"
        "\<And>b. b \<notin> event_registers \<Longrightarrow> R' b = ?R b"
      using runsD [OF conf b1(2)] by auto
    have loc: "on_obj seq_location (b1, ?q\<lparr>q_written := True\<rparr>) = (Inr a, (b1, ?q\<lparr>q_written := True\<rparr>))"
      by (simp add: on_obj_def seq_location_def)
    have "event_sequencer_enable event s = (Inr (), (b2, ?q\<lparr>q_written := True\<rparr>))"
      unfolding event_sequencer_enable_def b(1) prep
      using b1(1) b2(1) loc by (simp add: on_hsb_def hthen_def hbind_def)
    moreover have "words_at R' a ws"
      using words_at_program_data [of ws R a] ws(2) apart b2(5) words_at_cong [of a ws R' ?R] by auto
    moreover have "R' c = R c" if "c \<notin> region a (length ws) \<union> event_registers" for c
      using that b2(5) upds_other [of c "program_data a ws" R] by (simp add: fst_program_data)
    moreover have "seq_location (?q\<lparr>q_written := True\<rparr>) = (Inr a, ?q\<lparr>q_written := True\<rparr>)"
      by (simp add: seq_location_def)
    ultimately show "\<exists>x s'. event_sequencer_enable event s = (Inr x, s') \<and> seq_location (snd s') = (Inr a, snd s') \<and>
       (\<exists>R'. st R' n (configured event True h) (fst s') \<and>
       caches_agree R' (configured event True h) \<and> R' (event_vector event) = a \<and> words_at R' a ws \<and>
       (\<forall>b. b \<notin> region a (length ws) \<union> event_registers \<longrightarrow> R' b = R b))"
      using b2(2-4) by auto
  qed
qed

end

lemma emu_event_memory: "event_memory emu_effect"
proof -
  have "emu_plain (event_vector e)" for e by (cases e) (auto simp: event_vector_def intro!: emu_plainI)
  then show ?thesis unfolding event_memory_def
    by (auto simp: event_registers_def intro!: emu_plain_effect intro: emu_plainI)
qed

subsection \<open>A program, from its commands to its effects\<close>

text \<open>Where the programs of the software event live.\<close>

lemma software_region:
  assumes "a \<in> region (APB_RAM + 0x800) n" and "n \<le> 183"
  shows "emu_plain a" "a \<notin> event_registers"
proof -
  obtain i where i: "i < n" "a = APB_RAM + 0x800 + of_nat i * 4" using assms(1) by (auto simp: region_def)
  have u: "unat a = 0x2800 + 4 * i"
    using i assms(2) by (simp add: unat_word_ariths unat_of_nat_u32)
  then show "emu_plain a" using i(1) assms(2) by (intro emu_plainI) auto
  have small: "unat (event_vector e) < 0x2100" for e by (cases e) (simp_all add: event_vector_def)
  have "a \<noteq> event_vector e" for e
  proof
    assume "a = event_vector e"
    with u small [of e] show False by simp
  qed
  then show "a \<notin> event_registers" using u by (auto simp: event_registers_def)
qed

text \<open>
  A program that is assembled, enabled and then run by the board's interpreter acts on the
  board's registers as its commands say, after at most two steps for each of them.
\<close>

lemma software_sequence_runs:
  assumes s: "emu.st R n h s" and h: "block_enable h" "caches_agree R h"
    and cs: "emit_list cs new_sequencer = (Inr is, q)" "length (program cs) \<le> 183"
    and P: "P = region (APB_RAM + 0x800) (length (program cs))" and ok: "\<forall>c \<in> set cs. command_ok P c"
  obtains s' q' R' where "software_sequencer_enable (s, q) = (Inr (), (s', q'))"
    "emu.st R' n (configured SW_EVENT True h) s'" "caches_agree R' (configured SW_EVENT True h)"
    "\<And>a. a \<notin> P \<Longrightarrow> a \<notin> event_registers \<Longrightarrow> R' a = R a"
    "\<And>R''. apb_means cs R' = Some R'' \<Longrightarrow> \<exists>m e'. m \<le> Suc (2 * length cs) \<and>
       execute_sequence m (R' (event_vector SW_EVENT)) (device (link s')) = (Inr True, e') \<and>
       (\<forall>a. a \<notin> P \<longrightarrow> get_reg e' a = R'' a)"
proof -
  obtain q1 where q1: "seq_done q = (Inr (), q1)" "q_buffer q1 = program cs" "q_done q1" "\<not> q_address_set q1"
    using assemble_list [of cs] cs(1) by (metis Pair_inject)
  have plain: "\<forall>a \<in> P. emu_plain a" and apart: "P \<inter> event_registers = {}"
    using software_region [OF _ cs(2)] by (auto simp: P)
  have ne: "program cs \<noteq> []" by (simp add: program_def split: prod.splits)
  have "runs (\<lambda>s. emu.st R n h (fst s) \<and> snd s = q) (event_sequencer_enable SW_EVENT)
    (\<lambda>_ s. seq_location (snd s) = (Inr (APB_RAM + 0x800), snd s) \<and> (\<exists>R'. emu.st R' n (configured SW_EVENT True h) (fst s) \<and> caches_agree R' (configured SW_EVENT True h) \<and>
       R' (event_vector SW_EVENT) = APB_RAM + 0x800 \<and> words_at R' (APB_RAM + 0x800) (program cs) \<and>
       (\<forall>b. b \<notin> P \<union> event_registers \<longrightarrow> R' b = R b)))"
    unfolding P
    by (rule emu.event_sequencer_enable_rule [OF q1(1,3,4,2) ne cs(2) _ emu_event_memory _ _ h])
      (use plain apart in \<open>auto simp: P intro: emu_plain_effect\<close>)
  from runsD [OF this, of "(s, q)"] s
  obtain s' q' R' where s': "event_sequencer_enable SW_EVENT (s, q) = (Inr (), (s', q'))"
      "emu.st R' n (configured SW_EVENT True h) s'" "caches_agree R' (configured SW_EVENT True h)"
      "R' (event_vector SW_EVENT) = APB_RAM + 0x800" "words_at R' (APB_RAM + 0x800) (program cs)"
      "\<And>b. b \<notin> P \<union> event_registers \<Longrightarrow> R' b = R b"
    by auto
  have dev: "get_reg (device (link s')) = R'" using s'(2) by (simp add: connected_def)
  have "\<exists>m e'. m \<le> Suc (2 * length cs) \<and>
       execute_sequence m (R' (event_vector SW_EVENT)) (device (link s')) = (Inr True, e') \<and>
       (\<forall>a. a \<notin> P \<longrightarrow> get_reg e' a = R'' a)" if "apb_means cs R' = Some R''" for R''
    unfolding s'(4) using cs(2) that s'(5) by (intro execute_program [OF _ _ P plain ok]) (simp_all add: dev)
  with s' show thesis by (intro that [of s' q' R']) (auto simp: software_sequencer_enable_def)
qed

end
