(* ===== verification/Data_Path.thy ===== *)
theory Data_Path
  imports Data_Channel Roce_Data_Plane Frame_Delivery Board_Drivers
begin

text \<open>
  The data path from one end to the other: what \<open>DataChannel\<close> writes to the emulated board is
  what the board's \<open>DataPlane\<close> reads before it sends a frame, and the frame ends up in the page
  that the host has given for it, where \<open>LinuxReceiver\<close> takes it.
\<close>

subsection \<open>Addresses\<close>

text \<open>The registers of the data plane number \<open>k\<close>, for the sensor \<open>n\<close> with the virtual port \<open>i\<close>.\<close>

definition plane_addresses :: "data_channel \<Rightarrow> u8 \<Rightarrow> u8 \<Rightarrow> u8 \<Rightarrow> bool" where
  "plane_addresses dc i k n \<longleftrightarrow>
     dc_vp_address dc = 0x1000 + 0x40 * ucast i \<and> dc_hif_address dc = 0x02000300 + 0x10000 * ucast k \<and>
     dc_sif_address dc = 0x01000000 + 0x10000 * ucast n"

lemma unat_u8: "unat (w :: u8) < 256"
  using unsigned_less [of w] by simp

lemma unat_ucast_u8: "unat (ucast (w :: u8) :: u32) = unat w"
  using unat_u8 [of w] by (simp add: unsigned_ucast_eq take_bit_nat_eq_self)

lemma plane_address_values:
  "unat (0x1000 + 0x40 * ucast (i :: u8) :: u32) = 0x1000 + 0x40 * unat i"
  "unat (0x02000300 + 0x10000 * ucast (i :: u8) :: u32) = 0x02000300 + 0x10000 * unat i"
  "unat (0x01000000 + 0x10000 * ucast (i :: u8) :: u32) = 0x01000000 + 0x10000 * unat i"
  using unat_u8 [of i] by (simp_all add: unat_word_ariths unat_ucast_u8)

text \<open>Blocks of registers that start at least \<open>0x40\<close> apart do not meet.\<close>

definition blocks_apart :: "u32 \<Rightarrow> u32 \<Rightarrow> bool" where
  "blocks_apart x y \<longleftrightarrow> unat x + 0x40 \<le> unat y \<and> unat y + 0x40 \<le> 2 ^ 32"

lemma unat_offset: "unat x + 0x40 \<le> 2 ^ 32 \<Longrightarrow> unat a < 0x40 \<Longrightarrow> unat (x + a :: u32) = unat x + unat a"
  by (simp add: unat_word_ariths)

lemma blocks_apart_neq:
  assumes "blocks_apart x y" and "unat a < 0x40" and "unat b < 0x40"
  shows "x + a \<noteq> y + b" and "y + b \<noteq> x + a"
proof -
  have "unat (x + a) = unat x + unat a" "unat (y + b) = unat y + unat b"
    using assms by (auto simp: blocks_apart_def intro: unat_offset)
  then show "x + a \<noteq> y + b" and "y + b \<noteq> x + a" using assms by (auto simp: blocks_apart_def)
qed

lemmas blocks_apart_simps =
  blocks_apart_neq blocks_apart_neq [where a = 0, simplified] blocks_apart_neq [where b = 0, simplified]
  blocks_apart_neq [where a = 0 and b = 0, simplified]

lemma plane_blocks_apart:
  assumes "plane_addresses dc i k n"
  shows "blocks_apart (dc_vp_address dc) (dc_sif_address dc)" "blocks_apart (dc_vp_address dc) (dc_hif_address dc)"
    "blocks_apart (dc_sif_address dc) (dc_hif_address dc)"
  using assms unat_u8 [of i] unat_u8 [of k] unat_u8 [of n]
  by (simp_all add: plane_addresses_def blocks_apart_def plane_address_values)

lemma emu_data_plane_memory:
  assumes "plane_addresses dc i k n"
  shows "data_plane_memory emu_readable emu_effect dc"
proof -
  let ?vp = "dc_vp_address dc" and ?hif = "dc_hif_address dc" and ?sif = "dc_sif_address dc"
  have val: "unat ?vp = 0x1000 + 0x40 * unat i" "unat ?hif = 0x02000300 + 0x10000 * unat k"
      "unat ?sif = 0x01000000 + 0x10000 * unat n"
    using assms by (simp_all add: plane_addresses_def plane_address_values)
  have small: "unat i < 256" "unat k < 256" "unat n < 256"
    by (rule unat_u8)+
  have vp: "emu_plain (?vp + a)" if "unat a < 0x40" "4 dvd unat a" for a
    using that val(1) small by (intro emu_plainI [OF unat_offset]) (auto intro!: dvd_add)
  have hif: "emu_plain (?hif + a)" if "unat a < 0x40" "4 dvd unat a" for a
    using that val(2) small by (intro emu_plainI [OF unat_offset]) (auto intro!: dvd_add)
  have sif: "emu_plain (?sif + a)" if "unat a < 0x40" "4 dvd unat a" for a
    using that val(3) small by (intro emu_plainI [OF unat_offset]) (auto intro!: dvd_add)
  have "emu_plain a" if "a \<in> data_plane_registers dc" for a
    using that vp hif sif vp [of 0]
    by (auto simp: data_plane_registers_def vp_offsets_def packetizer_registers_def PACKETIZER_MODE_def
        PACKETIZER_RAM_def PACKETIZER_DATA_def)
  then show ?thesis
    unfolding data_plane_memory_def using emu_plain_effect emu_plain_readable by blast
qed

subsection \<open>What the board reads back\<close>

text \<open>The registers after \<open>configure_roce\<close>, one by one.\<close>

lemma packetizer_apart:
  assumes "plane_addresses dc i k n" and "unat a < 0x40"
  shows "dc_vp_address dc + a \<notin> packetizer_registers (dc_sif_address dc)"
    and "dc_hif_address dc + a \<notin> packetizer_registers (dc_sif_address dc)"
  using plane_blocks_apart [OF assms(1)] assms(2)
  by (auto simp: packetizer_registers_def PACKETIZER_MODE_def PACKETIZER_RAM_def PACKETIZER_DATA_def blocks_apart_simps)

lemma upds_enable_other: "a \<notin> packetizer_registers sif \<Longrightarrow> upds R (enable_writes p sif) a = R a"
  using enable_writes_addresses [of p sif] by (intro upds_other) blast

lemma roce_registers_values:
  fixes R and frame_memory frame_size page_size and pages payload_size and dest
  assumes at: "plane_addresses dc i k n"
  defines "R' \<equiv> roce_registers R dc frame_memory frame_size page_size pages payload_size dest"
  shows "R' (dc_vp_address dc) = dc_qp_number dc" "R' (dc_vp_address dc + DP_RKEY) = dc_rkey dc"
    "R' (dc_vp_address dc + DP_PAGE_LSB) = ucast (frame_memory AND 0xFFFFFFFF)"
    "R' (dc_vp_address dc + DP_PAGE_MSB) = ucast (drop_bit 32 frame_memory)"
    "R' (dc_vp_address dc + DP_PAGE_INC) = ucast (drop_bit 7 page_size)"
    "R' (dc_vp_address dc + DP_MAX_BUFF) = pages - 1"
    "R' (dc_vp_address dc + DP_BUFFER_LENGTH) = ucast frame_size"
    "R' (dc_vp_address dc + DP_HOST_MAC_LOW) = snd (mac_words (to_mac dest))"
    "R' (dc_vp_address dc + DP_HOST_MAC_HIGH) = fst (mac_words (to_mac dest))"
    "R' (dc_vp_address dc + DP_HOST_IP) = to_ip dest"
    "R' (dc_vp_address dc + DP_HOST_UDP_PORT) = to_port dest"
    "R' (dc_hif_address dc + DP_PACKET_SIZE) = drop_bit 7 payload_size"
    "R' (dc_hif_address dc + DP_PACKET_UDP_PORT) = DATA_SOURCE_UDP_PORT"
    "R' (dc_sif_address dc + PACKETIZER_MODE) = packetizer_mode (dc_packetizer dc)"
proof -
  note apart = plane_blocks_apart [OF at] blocks_apart_simps
  note defs = R'_def roce_registers_def masked_on_def common_registers_def roce_writes_def common_writes_def
    masked_off_def
  have vp0: "dc_vp_address dc \<notin> packetizer_registers (dc_sif_address dc)"
    using packetizer_apart(1) [OF at, of 0] by simp
  note vp = upds_enable_other [OF packetizer_apart(1) [OF at]]
    and hif = upds_enable_other [OF packetizer_apart(2) [OF at]]
  show "R' (dc_vp_address dc) = dc_qp_number dc" "R' (dc_vp_address dc + DP_RKEY) = dc_rkey dc"
    "R' (dc_vp_address dc + DP_PAGE_LSB) = ucast (frame_memory AND 0xFFFFFFFF)"
    "R' (dc_vp_address dc + DP_PAGE_MSB) = ucast (drop_bit 32 frame_memory)"
    "R' (dc_vp_address dc + DP_PAGE_INC) = ucast (drop_bit 7 page_size)"
    "R' (dc_vp_address dc + DP_MAX_BUFF) = pages - 1"
    unfolding defs by (simp_all add: apart)
  show "R' (dc_vp_address dc + DP_BUFFER_LENGTH) = ucast frame_size"
    "R' (dc_vp_address dc + DP_HOST_MAC_LOW) = snd (mac_words (to_mac dest))"
    "R' (dc_vp_address dc + DP_HOST_MAC_HIGH) = fst (mac_words (to_mac dest))"
    "R' (dc_vp_address dc + DP_HOST_IP) = to_ip dest"
    "R' (dc_vp_address dc + DP_HOST_UDP_PORT) = to_port dest"
    unfolding defs by (simp_all add: apart vp)
  show "R' (dc_hif_address dc + DP_PACKET_SIZE) = drop_bit 7 payload_size"
    "R' (dc_hif_address dc + DP_PACKET_UDP_PORT) = DATA_SOURCE_UDP_PORT"
    unfolding defs by (simp_all add: apart hif)
  show "R' (dc_sif_address dc + PACKETIZER_MODE) = packetizer_mode (dc_packetizer dc)"
    unfolding defs using upds_enable_mode [of _ "dc_packetizer dc" "dc_sif_address dc"]
    by (simp add: apart PACKETIZER_MODE_def)
qed

text \<open>The address of the page that the board has turned to, and the rest of the transmission.\<close>

lemma frame_address_halves:
  "ucast (ucast (frame_memory AND 0xFFFFFFFF) :: u32) + push_bit 32 (ucast (ucast (drop_bit 32 frame_memory) :: u32)) =
   (frame_memory :: u64)"
proof -
  let ?lo = "ucast (ucast (frame_memory AND 0xFFFFFFFF) :: u32) :: u64"
  let ?hi = "push_bit 32 (ucast (ucast (drop_bit 32 frame_memory) :: u32)) :: u64"
  have mask: "(0xFFFFFFFF :: u64) = mask 32" by (simp add: mask_eq_exp_minus_1)
  have "?lo AND ?hi = 0" unfolding mask by (intro bit_word_eqI) (auto simp: bit_simps)
  then have "?lo + ?hi = ?lo OR ?hi" by (rule disjunctive_add_eq_or)
  also have "\<dots> = frame_memory" using halves_join [of frame_memory] by (simp add: or.commute)
  finally show ?thesis .
qed

lemma pages_round_trip:
  assumes "take_bit 7 (x :: 'a::len word) = 0"
  shows "drop_bit 7 x * 128 = x"
proof -
  have "drop_bit 7 x * 128 = push_bit 7 (drop_bit 7 x)" by (simp add: push_bit_eq_mult)
  with assms show ?thesis using bits_ident [of 7 x] by simp
qed

lemma pages_round_trip_left:
  "take_bit 7 (x :: 'a::len word) = 0 \<Longrightarrow> 128 * (drop_bit 7 x * y) = x * y"
  using pages_round_trip [of x] by (metis mult.assoc mult.commute)

subsection \<open>The frame the host has asked for\<close>

text \<open>
  A request that passes the checks, with pages that do not run over the end of the address space.
\<close>

definition roce_request_ok :: "u64 \<Rightarrow> u64 \<Rightarrow> u64 \<Rightarrow> u32 \<Rightarrow> bool" where
  "roce_request_ok frame_memory frame_size page_size pages \<longleftrightarrow>
     roce_checks frame_memory frame_size page_size pages = Inr () \<and>
     unat frame_memory + unat page_size * unat pages < 2 ^ 64 \<and> unat frame_size + 256 \<le> 2 ^ 64"

lemma round_up_128:
  assumes "unat v + 127 < 2 ^ 64"
  shows "\<exists>r. core_round_up v 128 = Inr r \<and> unat r = (unat v + 127) div 128 * 128"
proof -
  have number: "unat (127 :: u64) = 127" by (simp only: unat_numeral) simp
  have "unat (v + 127) = unat v + unat (127 :: u64)" using assms by (intro unat_add_u64) (simp only: number)
  then have "unat (v + 128 - 1) = unat v + 127" unfolding number by (simp add: add.commute)
  moreover have "(unat v + 127) div 128 * 128 < 2 ^ 64"
    using assms by (rule le_less_trans [OF div_times_less_eq_dividend])
  ultimately have "unat ((v + 128 - 1) div 128 * 128) = (unat v + 127) div 128 * 128"
    by (simp add: unat_word_ariths unat_div)
  then show ?thesis by (simp add: core_round_up_def)
qed

lemma roce_request:
  assumes "roce_request_ok frame_memory frame_size page_size pages"
  shows "take_bit 7 frame_memory = 0" "take_bit 7 page_size = 0" "1 \<le> pages" "pages \<le> 4096"
    "unat frame_memory + unat page_size * unat pages < 2 ^ 39" "unat frame_size \<le> unat page_size"
proof -
  have mask: "(x :: u64) AND 0x7F = take_bit 7 x" for x by (simp add: take_bit_eq_mask mask_eq_exp_minus_1)
  obtain r where r: "core_round_up frame_size 128 = Inr r" "unat r = (unat frame_size + 127) div 128 * 128"
    using assms round_up_128 [of frame_size] by (auto simp: roce_request_ok_def)
  let ?high = "frame_memory + page_size * ucast pages"
  have checks: "take_bit 7 frame_memory = 0" "take_bit 7 page_size = 0" "\<not> 4096 < pages" "\<not> pages < 1"
      "\<not> 0xFFFFFFFF < drop_bit 7 ?high"
      "if frame_size \<le> 128 then \<not> page_size < r else \<not> page_size < r + 128"
    using assms r(1) by (auto simp: roce_request_ok_def roce_checks_def Let_def mask split: if_splits)
  show "take_bit 7 frame_memory = 0" "take_bit 7 page_size = 0" "1 \<le> pages" "pages \<le> 4096"
    by (fact checks(1), fact checks(2), fact not_less [THEN iffD1, OF checks(4)], fact not_less [THEN iffD1, OF checks(3)])
  have up: "unat (ucast pages :: u64) = unat pages"
    using unat_u32 [of pages] by (simp add: unsigned_ucast_eq take_bit_nat_eq_self)
  have sum: "unat frame_memory + unat page_size * unat pages < 2 ^ 64" using assms by (simp add: roce_request_ok_def)
  then have high: "unat ?high = unat frame_memory + unat page_size * unat pages"
    by (simp add: unat_word_ariths up)
  have "unat (drop_bit 7 ?high) < 2 ^ 32" using checks(5) by (simp add: not_less word_le_nat_alt)
  then have "unat ?high div 128 < 2 ^ 32" by (simp add: drop_bit_eq_div unat_div)
  then show "unat frame_memory + unat page_size * unat pages < 2 ^ 39" unfolding high by simp
  have size: "unat frame_size + 256 \<le> 2 ^ 64" using assms by (simp add: roce_request_ok_def)
  have le: "unat frame_size \<le> unat r" unfolding r(2) by simp
  have "(unat frame_size + 127) div 128 * 128 \<le> unat frame_size + 127" by (rule div_times_less_eq_dividend)
  then have "unat (r + 128) = unat r + 128" using size r(2) unat_add_u64 [of r 128] by simp
  then show "unat frame_size \<le> unat page_size"
    using checks(6) le by (auto simp: not_less word_le_nat_alt split: if_splits)
qed

definition configured_metadata ::
  "data_channel \<Rightarrow> u64 \<Rightarrow> u64 \<Rightarrow> u64 \<Rightarrow> u32 \<Rightarrow> destination \<Rightarrow> u32 \<Rightarrow> transmission_metadata" where
  "configured_metadata dc frame_memory frame_size page_size payload_size dest page =
     \<lparr>tm_dest_mac_low = snd (mac_words (to_mac dest)), tm_dest_mac_high = fst (mac_words (to_mac dest)),
      tm_dest_ip_address = to_ip dest, tm_frame_size = ucast frame_size, tm_payload_size = payload_size,
      tm_dest_port = ucast (to_port dest), tm_src_port = ucast DATA_SOURCE_UDP_PORT,
      tm_address = frame_memory + page_size * ucast page, tm_qp = dc_qp_number dc, tm_rkey = dc_rkey dc,
      tm_page = page,
      tm_metadata_offset = (ucast frame_size + HSB_PAGE_SIZE - 1) AND NOT (HSB_PAGE_SIZE - 1)\<rparr>"

lemma board_metadata_configured:
  assumes at: "plane_addresses dc i k n" and req: "roce_request_ok frame_memory frame_size page_size pages"
    and payload: "take_bit 7 payload_size = 0"
    and dp: "dp_vp_address dp = dc_vp_address dc" "dp_hif_address dp = dc_hif_address dc"
  shows "board_metadata (roce_registers R dc frame_memory frame_size page_size pages payload_size dest) dp =
    configured_metadata dc frame_memory frame_size page_size payload_size dest (next_page 0 (pages - 1) (dp_page dp))"
proof -
  note r = roce_request [OF req]
  have last: "unat (pages - 1) < 4096"
    using r(3,4) by (simp add: unat_sub word_le_nat_alt)
  have mask: "(x :: u32) AND 0xFFF = take_bit 12 x" for x by (simp add: take_bit_eq_mask mask_eq_exp_minus_1)
  have low: "(pages - 1) AND 0xFFF = pages - 1" "drop_bit 16 (pages - 1) = 0"
    using last bit_small [of "pages - 1" 12] unfolding mask
    by (fastforce intro!: bit_word_eqI simp: bit_simps word_less_nat_alt)+
  have "unat page_size < 2 ^ 39"
  proof -
    have "unat page_size * 1 \<le> unat page_size * unat pages" using r(3) by (intro mult_le_mono2) (simp add: word_le_nat_alt)
    with r(5) show ?thesis by linarith
  qed
  then have "bit page_size j \<Longrightarrow> j < 39" for j using bit_small [of page_size 39 j] by (simp add: word_less_nat_alt)
  then have inc: "ucast (ucast (drop_bit 7 page_size) :: u32) = drop_bit 7 page_size"
    by (intro bit_word_eqI) (fastforce simp: bit_simps)
  show ?thesis
    by (simp add: board_metadata_def dp roce_registers_values [OF at] Let_def low configured_metadata_def
        frame_address_halves inc pages_round_trip pages_round_trip_left r(2) payload)
qed

subsection \<open>A frame of a configured channel\<close>

lemma next_page_last: "next_page 0 n page \<le> n"
  by (simp add: next_page_def Let_def not_less)

text \<open>
  A receiver set up for the channel: its buffer is the frame memory seen from its side, with the
  same pages.
\<close>

definition receiver_for :: "rx_config \<Rightarrow> u64 \<Rightarrow> u64 \<Rightarrow> u32 \<Rightarrow> bool" where
  "receiver_for cfg frame_memory page_size pages \<longleftrightarrow>
     rx_config_ok cfg \<and> cu_page_size cfg = page_size \<and> rx_pages cfg = pages \<and>
     frame_memory + received_address_offset cfg = cu_buffer cfg \<and>
     unat page_size * unat pages \<le> unat (cu_buffer_size cfg) \<and>
     unat (cu_buffer cfg) + unat (cu_buffer_size cfg) < 2 ^ 64"

lemma channel_frame_window:
  assumes rx: "receiver_for cfg frame_memory page_size pages" and page: "page < pages" and len: "len \<le> unat page_size"
  shows "frame_window cfg (frame_memory + page_size * ucast page) (unat page) len"
proof -
  have up: "unat (ucast page :: u64) = unat page"
    using unat_u32 [of page] by (simp add: unsigned_ucast_eq take_bit_nat_eq_self)
  have "Suc (unat page) * unat page_size \<le> unat pages * unat page_size"
    using page by (intro mult_le_mono1) (simp add: word_less_nat_alt Suc_le_eq)
  then have le: "unat page * unat page_size + len \<le> unat (cu_buffer_size cfg)"
    using rx len by (simp add: receiver_for_def mult.commute)
  have at: "frame_memory + page_size * ucast page + received_address_offset cfg = cu_buffer cfg + page_size * ucast page"
    using rx by (simp add: receiver_for_def algebra_simps)
  have "unat (cu_buffer cfg + page_size * ucast page) = unat (cu_buffer cfg) + unat page * unat page_size"
    using rx le by (simp add: receiver_for_def unat_word_ariths up mult.commute)
  then show ?thesis using rx le len unfolding frame_window_def at by (simp add: receiver_for_def)
qed

text \<open>What the board answers with for the default metadata when every packet is taken.\<close>

lemma sent_metadata_all:
  assumes "0 < payload_bytes tm"
  shows "sent_metadata crc32 (\<lambda>_. True) fs mt tm content Default_metadata t =
    default_metadata fs mt (of_nat (length content)) (t_frame_number t) (data_psn tm content t)"
  using payload_total_frame [OF assms]
  by (simp add: sent_metadata_def accepted_all metadata_of_def data_packets_def)

lemma dp_send_configured:
  assumes at: "plane_addresses dc i k n" and req: "roce_request_ok frame_memory frame_size page_size pages"
    and payload: "compute_payload_size 74 (channel_mtu dc) = Inr payload_size" "unat payload_size \<le> 10180"
    and dest: "to_port dest \<noteq> 0" "to_port dest \<le> 0xFFFF" "to_ip dest \<noteq> 0"
    and dp: "dp_vp_address dp = dc_vp_address dc" "dp_hif_address dp = dc_hif_address dc"
    and regs: "rm_read regs = roce_registers R dc frame_memory frame_size page_size pages payload_size dest"
    and mesg: "length mesg = MESG_SIZE" and arg: "argument_ok arg"
  defines "tm \<equiv> configured_metadata dc frame_memory frame_size page_size payload_size dest
      (next_page 0 (pages - 1) (dp_page dp))"
  shows "payload_bytes tm = unat payload_size" "0 < payload_bytes tm"
    "\<exists>dp'. dp_send crc32 sendto fs mt mesg regs content (Some arg) dp =
       (Inr (Some (payload_total (accepted sendto 0 (frame_transmission crc32 sendto fs mt tm content arg (dp_transmitter dp))),
          accepted sendto 0 (frame_transmission crc32 sendto fs mt tm content arg (dp_transmitter dp)))), dp') \<and>
       dp_page dp' = tm_page tm \<and> t_psn (dp_transmitter dp') = next_psn (data_psn tm content (dp_transmitter dp)) \<and>
       t_frame_number (dp_transmitter dp') = t_frame_number (dp_transmitter dp) + 1"
proof -
  have le: "unat (74 :: u32) + 128 < unat (channel_mtu dc)"
    using payload(1) by (simp add: compute_payload_size_def CORE_PAGE_SIZE_def not_le word_less_nat_alt split: if_splits)
  obtain p where p: "compute_payload_size 74 (channel_mtu dc) = Inr p"
      "unat p = (unat (channel_mtu dc) - unat (74 :: u32)) div 128 * 128"
    using compute_payload_size_ok [OF le] by blast
  have size: "unat payload_size = (unat (channel_mtu dc) - 74) div 128 * 128" using payload(1) p by simp
  have "(1 :: nat) \<le> (unat (channel_mtu dc) - 74) div 128" using le by (simp add: le_div_geq)
  then have pos: "0 < unat payload_size" using size by simp
  have "unat (take_bit 7 payload_size) = 0" using size by (simp add: take_bit_eq_mod unat_mod)
  then have bits: "take_bit 7 payload_size = 0" by (simp add: unat_eq_zero)
  have tm: "board_metadata (roce_registers R dc frame_memory frame_size page_size pages payload_size dest) dp = tm"
    unfolding tm_def by (rule board_metadata_configured [OF at req bits dp])
  show bytes: "payload_bytes tm = unat payload_size"
    using payload(2) by (simp add: payload_bytes_def tm_def configured_metadata_def unsigned_ucast_eq take_bit_nat_eq_self)
  then show p0: "0 < payload_bytes tm" using pos by simp
  have "unat (ucast (to_port dest) :: u16) = unat (to_port dest)"
    using dest(2) by (simp add: unsigned_ucast_eq take_bit_nat_eq_self word_le_nat_alt)
  then have port: "(ucast (to_port dest) :: u16) \<noteq> 0" using dest(1) by (metis unat_0 unat_eq_zero)
  have upd: "update_metadata regs dp = (Inr (), dp\<lparr>dp_page := tm_page tm, dp_metadata := tm\<rparr>)"
    using update_metadata_run [OF _ _ regs, of dp] roce_registers_values(11,13) [OF at] dest(2)
    by (simp add: dp tm DATA_SOURCE_UDP_PORT_def)
  have "tm_dest_port tm \<noteq> 0" "tm_dest_ip_address tm \<noteq> 0"
    using port dest(3) by (simp_all add: tm_def configured_metadata_def)
  from roce_send_frame [OF mesg this p0 _ arg, of crc32 sendto fs mt content "dp_transmitter dp"]
  obtain t' where "roce_send crc32 sendto fs mt mesg tm content (Some arg) (dp_transmitter dp) =
       Some (payload_total (accepted sendto 0 (frame_transmission crc32 sendto fs mt tm content arg (dp_transmitter dp))), t',
             accepted sendto 0 (frame_transmission crc32 sendto fs mt tm content arg (dp_transmitter dp)))"
     "t_psn t' = next_psn (data_psn tm content (dp_transmitter dp))"
     "t_frame_number t' = t_frame_number (dp_transmitter dp) + 1"
    using bytes payload(2) by auto
  then show "\<exists>dp'. dp_send crc32 sendto fs mt mesg regs content (Some arg) dp =
       (Inr (Some (payload_total (accepted sendto 0 (frame_transmission crc32 sendto fs mt tm content arg (dp_transmitter dp))),
          accepted sendto 0 (frame_transmission crc32 sendto fs mt tm content arg (dp_transmitter dp)))), dp') \<and>
       dp_page dp' = tm_page tm \<and> t_psn (dp_transmitter dp') = next_psn (data_psn tm content (dp_transmitter dp)) \<and>
       t_frame_number (dp_transmitter dp') = t_frame_number (dp_transmitter dp) + 1"
    using upd by (simp add: dp_send_def)
qed

lemma configured_frame_received:
  assumes at: "plane_addresses dc i k n" and req: "roce_request_ok frame_memory frame_size page_size pages"
    and payload: "compute_payload_size 74 (channel_mtu dc) = Inr payload_size" "unat payload_size \<le> 10180"
    and dest: "to_port dest \<noteq> 0" "to_port dest \<le> 0xFFFF" "to_ip dest \<noteq> 0"
    and dp: "dp_vp_address dp = dc_vp_address dc" "dp_hif_address dp = dc_hif_address dc"
    and regs: "rm_read regs = roce_registers R dc frame_memory frame_size page_size pages payload_size dest"
    and mesg: "length mesg = MESG_SIZE"
    and rx: "receiver_for cfg frame_memory page_size pages" and st: "awaiting_frame cfg st" "kept st = []"
    and content: "length content \<le> unat page_size"
    and sync: "in_sync st (t_psn (dp_transmitter dp))"
    and psn: "unat (t_psn (dp_transmitter dp)) + (length content + unat payload_size - 1) div unat payload_size + 1 \<le> 2 ^ 20"
  shows "\<exists>n_sent packets dp'.
    dp_send crc32 (\<lambda>_. True) fs mt mesg regs content (Some Default_metadata) dp = (Inr (Some (n_sent, packets)), dp') \<and>
    (\<forall>arrivals. map snd arrivals = map udp_payload packets \<longrightarrow>
       (\<exists>st' m st''. receive_all cfg arrivals st = Running st' \<and> take_frame cfg st' = Some ((m, Some content), st'') \<and>
          md_frame_number (lm_frame_metadata m) = ucast (t_frame_number (dp_transmitter dp)) \<and>
          lm_frame_packets_received m = of_nat (length packets) \<and> lm_packets_dropped m = rx_packets_dropped st))"
proof -
  let ?t = "dp_transmitter dp"
  define page where "page = next_page 0 (pages - 1) (dp_page dp)"
  define tm where "tm = configured_metadata dc frame_memory frame_size page_size payload_size dest page"
  define md where "md = sent_metadata crc32 (\<lambda>_. True) fs mt tm content Default_metadata ?t"
  have arg: "argument_ok Default_metadata" by (simp add: argument_ok_def)
  note send = dp_send_configured [OF at req payload dest dp regs mesg arg, folded page_def, folded tm_def]
  let ?packets = "frame_transmission crc32 (\<lambda>_. True) fs mt tm content Default_metadata ?t"
  have le4096: "1 \<le> pages" "pages \<le> 4096" using roce_request(3,4) [OF req] by simp_all
  have "page \<le> pages - 1" unfolding page_def by (rule next_page_last)
  then have pg: "page < pages" "unat page < 4096"
    using le4096 by (auto simp: word_less_nat_alt word_le_nat_alt unat_sub)
  have cfg: "rx_config_ok cfg" "rx_pages cfg = pages" "cu_page_size cfg = page_size" using rx by (simp_all add: receiver_for_def)
  have win: "frame_window cfg (tm_address tm) (unat page) (length content)"
    using channel_frame_window [OF rx pg(1) content] by (simp add: tm_def configured_metadata_def)
  have "md_frame_number (host_metadata md) = ucast (t_frame_number ?t)" "unat (md_bytes_written (host_metadata md)) = length content"
  proof -
    have "unat page_size < 2 ^ 64" using unsigned_less [of page_size] by simp
    with content have "length content < 2 ^ 64" by (rule le_less_trans)
    moreover have all: "md = default_metadata fs mt (of_nat (length content)) (t_frame_number ?t) (data_psn tm content ?t)"
      unfolding md_def by (rule sent_metadata_all [OF send(2)])
    ultimately show "md_frame_number (host_metadata md) = ucast (t_frame_number ?t)" "unat (md_bytes_written (host_metadata md)) = length content"
      unfolding all default_bytes_written
      by (simp_all add: host_metadata_def default_metadata_def unat_of_nat)
  qed
  note md = this
  have received: "\<exists>st' m st''. receive_all cfg arrivals st = Running st' \<and> take_frame cfg st' = Some ((m, Some content), st'') \<and>
      md_frame_number (lm_frame_metadata m) = ucast (t_frame_number ?t) \<and>
      lm_frame_packets_received m = of_nat (length ?packets) \<and> lm_packets_dropped m = rx_packets_dropped st"
    if arrivals: "map snd arrivals = map udp_payload ?packets" for arrivals
  proof -
    have k: "length arrivals = length ?packets" using arrivals by (metis length_map)
    also have "\<dots> = (length content + unat payload_size - 1) div unat payload_size + 1"
      using length_frame_packets [OF send(2)] by (simp add: frame_transmission_def data_packets_def send(1))
    finally have "unat (t_psn ?t) + length arrivals \<le> 2 ^ 20" using psn by simp
    moreover have "unat (tm_page tm) < 4096" "tm_page tm < rx_pages cfg"
      using pg cfg(2) by (simp_all add: tm_def configured_metadata_def)
    moreover have "payload_bytes tm \<le> 10180" using send(1) payload(2) by simp
    ultimately obtain st' where st': "receive_all cfg arrivals st = Running st'" "awaiting_frame cfg st'"
        "frame_handed content (length arrivals) (host_metadata md) st st'"
      using frame_received [OF cfg(1) st(1) win send(2) _ arg _ _ arrivals sync] unfolding md_def by blast
    have "rx_ok cfg st'" using st'(2) by (simp add: awaiting_frame_def)
    from take_frame_handed [OF st'(3) st(2) this md(2) _ cfg(1)] content cfg(3) st'(1) md(1) k
    show ?thesis by auto
  qed
  show ?thesis
    using send(3) [of crc32 "\<lambda>_. True" fs mt content] received by (simp add: accepted_all) blast
qed

subsection \<open>The packetizer, and a channel that is taken down\<close>

lemma packetizer_enabled_mode:
  "rm_read regs (dp_sif_address dp + PACKETIZER_MODE) = packetizer_mode p \<Longrightarrow>
   packetizer_enabled regs dp \<longleftrightarrow> p \<noteq> Null_packetizer"
  by (cases p) (simp_all add: packetizer_enabled_def PACKETIZER_MODE_def packetizer_mode_def)

lemma unconfigured_values:
  assumes at: "plane_addresses dc i k n" and "dc_fpga_uuid dc \<noteq> LEOPARD_EAGLE_UUID"
  shows "unconfigured_registers R dc (dc_vp_address dc + DP_HOST_UDP_PORT) = 0"
    "unconfigured_registers R dc (dc_vp_address dc + DP_HOST_IP) = 0"
    "unconfigured_registers R dc (dc_hif_address dc + DP_PACKET_UDP_PORT) = R (dc_hif_address dc + DP_PACKET_UDP_PORT)"
  using plane_blocks_apart [OF at] assms(2)
  by (simp_all add: unconfigured_registers_def Let_def unconfigure_writes_def masked_off_def PACKETIZER_MODE_def
      blocks_apart_simps)

lemma unconfigured_mode:
  "unconfigured_registers R dc (dc_sif_address dc + PACKETIZER_MODE) = packetizer_mode Null_packetizer"
  by (simp add: unconfigured_registers_def packetizer_mode_def)

lemma dp_send_unconfigured:
  assumes at: "plane_addresses dc i k n" and uuid: "dc_fpga_uuid dc \<noteq> LEOPARD_EAGLE_UUID"
    and dp: "dp_vp_address dp = dc_vp_address dc" "dp_hif_address dp = dc_hif_address dc"
    and regs: "rm_read regs = unconfigured_registers R dc"
  shows "\<exists>dp'. dp_send crc32 sendto fs mt mesg regs content arg dp =
      (if R (dc_hif_address dc + DP_PACKET_UDP_PORT) \<le> 0xFFFF then Inr (Some (0, []))
       else Inl (Runtime_error ''src_port is too large for uint16_t''), dp') \<and>
    dp_transmitter dp' = dp_transmitter dp"
proof (cases "R (dc_hif_address dc + DP_PACKET_UDP_PORT) \<le> 0xFFFF")
  case True
  let ?m = "board_metadata (unconfigured_registers R dc) dp"
  have "update_metadata regs dp = (Inr (), dp\<lparr>dp_page := tm_page ?m, dp_metadata := ?m\<rparr>)"
    using True by (intro update_metadata_run [OF _ _ regs]) (simp_all add: dp unconfigured_values [OF at uuid])
  moreover have "tm_dest_port ?m = 0"
    by (simp add: board_metadata_def Let_def dp unconfigured_values [OF at uuid])
  ultimately show ?thesis using True by (simp add: dp_send_def roce_send_unconnected)
next
  case False
  then have "0xFFFF < unconfigured_registers R dc (dp_hif_address dp + DP_PACKET_UDP_PORT)"
    by (simp add: dp unconfigured_values [OF at uuid])
  moreover have "unconfigured_registers R dc (dp_vp_address dp + DP_HOST_UDP_PORT) \<le> 0xFFFF"
    by (simp add: dp unconfigured_values [OF at uuid])
  ultimately obtain dp' where "update_metadata regs dp = (Inl (Runtime_error ''src_port is too large for uint16_t''), dp')"
      "dp_transmitter dp' = dp_transmitter dp"
    using update_metadata_src_port [OF _ _ regs] by blast
  then show ?thesis using False by (simp add: dp_send_def hthen_def hbind_def)
qed

text \<open>On a Leopard Eagle only the packetizer changes, which the data plane does not look at.\<close>

lemma unconfigured_leopard:
  "dc_fpga_uuid dc = LEOPARD_EAGLE_UUID \<Longrightarrow>
   unconfigured_registers R dc = R(dc_sif_address dc + PACKETIZER_MODE := packetizer_mode Null_packetizer)"
  by (simp add: unconfigured_registers_def packetizer_mode_def)

lemma dp_send_packetizer_mode:
  assumes at: "plane_addresses dc i k n"
    and dp: "dp_vp_address dp = dc_vp_address dc" "dp_hif_address dp = dc_hif_address dc"
    and regs: "rm_read regs' = (rm_read regs)(dc_sif_address dc + PACKETIZER_MODE := v)"
  shows "dp_send crc32 sendto fs mt mesg regs' content arg dp = dp_send crc32 sendto fs mt mesg regs content arg dp"
  by (rule dp_send_registers)
    (use plane_blocks_apart [OF at] in \<open>auto simp: regs metadata_registers_def dp PACKETIZER_MODE_def blocks_apart_simps\<close>)

end
