(* ===== verification/Discovery.thy ===== *)
theory Discovery
  imports Enumeration Bootp Data_Path
begin

text \<open>
  A board that is found: what the host makes of the BOOTP packet of an emulated data plane, and
  that the channel it then sets up has the addresses that the data plane has itself.
\<close>

subsection \<open>Parsers and the bytes they take\<close>

definition reads :: "(deserializer \<Rightarrow> ('a \<times> deserializer) option) \<Rightarrow> bytes \<Rightarrow> 'a \<Rightarrow> bool" where
  "reads f bs x \<longleftrightarrow>
     (\<forall>d rest. d_ok d \<longrightarrow> unread d = bs @ rest \<longrightarrow> (\<exists>d'. f d = Some (x, d') \<and> d_ok d' \<and> unread d' = rest))"

definition yields :: "(deserializer \<Rightarrow> 'a option) \<Rightarrow> bytes \<Rightarrow> 'a \<Rightarrow> bool" where
  "yields f bs x \<longleftrightarrow> (\<forall>d rest. d_ok d \<longrightarrow> unread d = bs @ rest \<longrightarrow> f d = Some x)"

lemma reads_return: "reads (\<lambda>d. Some (x, d)) [] x"
  by (simp add: reads_def)

lemma yields_return: "yields (\<lambda>d. Some x) [] x"
  by (simp add: yields_def)

lemma reads_bind:
  assumes "reads f bs x" and "reads (g x) bs' y"
  shows "reads (\<lambda>d. Option.bind (f d) (case_prod g)) (bs @ bs') y"
  unfolding reads_def
proof (intro allI impI)
  fix d rest
  assume d: "d_ok d" "unread d = (bs @ bs') @ rest"
  then obtain d1 where 1: "f d = Some (x, d1)" "d_ok d1" "unread d1 = bs' @ rest"
    using assms(1) unfolding reads_def by (metis append_assoc)
  then obtain d2 where "g x d1 = Some (y, d2)" "d_ok d2" "unread d2 = rest"
    using assms(2) unfolding reads_def by blast
  then show "\<exists>d'. Option.bind (f d) (case_prod g) = Some (y, d') \<and> d_ok d' \<and> unread d' = rest"
    using 1 by simp
qed

lemma yields_bind:
  assumes "reads f bs x" and "yields (g x) bs' y"
  shows "yields (\<lambda>d. Option.bind (f d) (case_prod g)) (bs @ bs') y"
  unfolding yields_def
proof (intro allI impI)
  fix d rest
  assume d: "d_ok d" "unread d = (bs @ bs') @ rest"
  then obtain d1 where 1: "f d = Some (x, d1)" "d_ok d1" "unread d1 = bs' @ rest"
    using assms(1) unfolding reads_def by (metis append_assoc)
  then show "Option.bind (f d) (case_prod g) = Some y"
    using assms(2) unfolding yields_def by simp
qed

lemma reads_if: "\<not> b \<Longrightarrow> reads f bs x \<Longrightarrow> reads (\<lambda>d. if b then None else f d) bs x"
  by simp

lemma reads_bytes: "length bs = n \<Longrightarrow> reads (\<lambda>d. next_bytes d n) bs bs"
  unfolding reads_def by (metis next_bytes_unread)

lemma reads_map: "reads f bs x \<Longrightarrow> reads (\<lambda>d. map_option (apfst h) (f d)) bs (h x)"
  unfolding reads_def by fastforce

context wire_field
begin

lemma reads_enc: "reads get (enc v) v"
  using get_enc unfolding reads_def by blast

end

lemma reads_uint24: "length bs = 3 \<Longrightarrow> reads next_uint24_be bs (be_word bs)"
  unfolding next_uint24_be_def [abs_def] by (rule reads_map, rule reads_bytes)

lemma reads_pair: "reads next_uint16_le [a, b] (le_word [a, b])"
  unfolding next_uint16_le_def [abs_def] by (rule reads_map, rule reads_bytes) simp

lemma reads_buffer: "length bs = n \<Longrightarrow> n < 2 ^ 32 \<Longrightarrow> reads (\<lambda>d. next_buffer d (replicate n 0)) bs bs"
  unfolding next_buffer_def next_pointer_def using reads_bytes [of bs n] by simp

lemma reads_then: "reads f bs x \<Longrightarrow> reads (\<lambda>d. Option.bind (f d) (\<lambda>(y, d'). Some (h y, d'))) bs (h x)"
  unfolding reads_def by fastforce

lemma reads_hex: "length bs = n \<Longrightarrow> reads (next_buffer_as_string n) bs (hex_string bs)"
  unfolding next_buffer_as_string_def [abs_def] next_pointer_def by (rule reads_then, rule reads_bytes)

lemma reads_uuid: "length bs = 16 \<Longrightarrow> reads next_uuid_as_string bs (uuid_string bs)"
  unfolding next_uuid_as_string_def [abs_def] next_pointer_def by (rule reads_then, rule reads_bytes)

lemma readsE:
  assumes "reads f bs x" and "d_ok d" and "unread d = bs @ rest"
  obtains d' where "f d = Some (x, d')" "d_ok d'" "unread d' = rest"
  using assms unfolding reads_def by blast

lemma skip_pointer_run:
  assumes "d_ok d" and "unread d = bs @ rest" and "length bs = n"
  shows "d_ok (skip_pointer n d) \<and> unread (skip_pointer n d) = rest"
proof -
  obtain d' where "next_bytes d n = Some (bs, d')" "d_ok d'" "unread d' = rest"
    by (rule readsE [OF reads_bytes [OF assms(3)] assms(1,2)])
  then show ?thesis by (simp add: skip_pointer_def next_pointer_def)
qed

subsection \<open>The packet of a data plane\<close>

definition request_of :: "bootp_packet \<Rightarrow> bootp_request" where
  "request_of p =
     \<lparr>br_op = bp_op p, br_hardware_type = bp_htype p, br_hardware_address_length = bp_hlen p, br_hops = bp_hops p,
      br_transaction_id = bp_xid p, br_seconds = bp_secs p, br_flags = bp_flags p,
      br_client_ip_address = bp_ciaddr p, br_your_ip_address = bp_yiaddr p, br_server_ip_address = bp_siaddr p,
      br_gateway_ip_address = bp_giaddr p, br_hardware_address = bp_chaddr p\<rparr>"

lemma reads_request:
  assumes "bootp_ok p" and "bp_hlen p \<le> 16"
  shows "reads parse_bootp_request
    (be_bytes 1 (bp_op p) @ be_bytes 1 (bp_htype p) @ be_bytes 1 (bp_hlen p) @ be_bytes 1 (bp_hops p) @
     be_bytes 4 (bp_xid p) @ be_bytes 2 (bp_secs p) @ be_bytes 2 (bp_flags p) @ be_bytes 4 (bp_ciaddr p) @
     be_bytes 4 (bp_yiaddr p) @ be_bytes 4 (bp_siaddr p) @ be_bytes 4 (bp_giaddr p) @ bp_chaddr p @ [])
    (request_of p)"
proof -
  have hlen: "\<not> 16 < bp_hlen p" using assms(2) by (simp add: not_less)
  have chaddr: "reads (\<lambda>d. next_buffer d (replicate 16 0)) (bp_chaddr p) (bp_chaddr p)"
    using assms(1) by (intro reads_buffer) (simp_all add: bootp_ok_def)
  show ?thesis
    unfolding parse_bootp_request_def [abs_def] request_of_def
    by (rule reads_bind [OF w8.reads_enc], rule reads_bind [OF w8.reads_enc], rule reads_bind [OF w8.reads_enc],
        rule reads_if [OF hlen], rule reads_bind [OF w8.reads_enc], rule reads_bind [OF w32be.reads_enc],
        rule reads_bind [OF w16be.reads_enc], rule reads_bind [OF w16be.reads_enc],
        rule reads_bind [OF w32be.reads_enc], rule reads_bind [OF w32be.reads_enc],
        rule reads_bind [OF w32be.reads_enc], rule reads_bind [OF w32be.reads_enc],
        rule reads_bind [OF chaddr], rule reads_return)
qed

lemma reads_vendor_info:
  fixes tag tag_length dp version :: u8
  assumes "tag = 0xE0"
  shows "reads (\<lambda>d. map_option (\<lambda>(x, y, d). ((x, y), d)) (parse_vendor_info d))
    (be_bytes 1 tag @ be_bytes 1 tag_length @ [0x4E, 0x56, 0x44, 0x41] @ be_bytes 1 dp @ be_bytes 1 version @ [])
    (dp, version)"
proof -
  have tag: "\<not> tag \<noteq> 0xE0" using assms by simp
  have nvda: "[0x4E, 0x56, 0x44, 0x41] = be_bytes 4 (0x4E564441 :: u32)" by code_simp
  have vendor: "\<not> (0x4E564441 :: u32) \<noteq> 0x4E564441" by simp
  have eq: "(\<lambda>d. map_option (\<lambda>(x, y, d). ((x, y), d)) (parse_vendor_info d)) =
    (\<lambda>d. Option.bind (next_uint8 d) (\<lambda>(vendor_tag, d). if vendor_tag \<noteq> 0xE0 then None else
      Option.bind (next_uint8 d) (\<lambda>(vendor_tag_length, d).
      Option.bind (next_uint32_be d) (\<lambda>(vendor_id, d). if vendor_id \<noteq> 0x4E564441 then None else
      Option.bind (next_uint8 d) (\<lambda>(data_plane, d).
      Option.bind (next_uint8 d) (\<lambda>(enum_version, d). Some ((data_plane, enum_version), d)))))))"
    by (rule ext) (simp add: parse_vendor_info_def split: Option.bind_split prod.split)
  show ?thesis
    unfolding eq nvda
    by (rule reads_bind [OF w8.reads_enc], rule reads_if [OF tag], rule reads_bind [OF w8.reads_enc],
        rule reads_bind [OF w32be.reads_enc], rule reads_if [OF vendor], rule reads_bind [OF w8.reads_enc],
        rule reads_bind [OF w8.reads_enc], rule reads_return)
qed

lemma yields_bootp_v2:
  fixes lo hi x :: u8 and version crc :: u16
  assumes "length uuid = 16" and "length packets = 3" and "length serial = 7"
  shows "yields parse_bootp_v2
    ([lo, hi] @ uuid @ packets @ be_bytes 1 x @ serial @ le_bytes 2 version @ le_bytes 2 crc @ [])
    (uuid_string uuid, be_word packets, hex_string serial, version, crc)"
  unfolding parse_bootp_v2_def [abs_def]
  by (rule yields_bind [OF reads_pair], rule yields_bind [OF reads_uuid [OF assms(1)]],
      rule yields_bind [OF reads_uint24 [OF assms(2)]], rule yields_bind [OF w8.reads_enc],
      rule yields_bind [OF reads_hex [OF assms(3)]], rule yields_bind [OF w16le.reads_enc],
      rule yields_bind [OF w16le.reads_enc], rule yields_return)

text \<open>A configuration that the host understands, and the metadata that it makes of its packets.\<close>

definition announces :: "hsb_configuration \<Rightarrow> bool" where
  "announces cf \<longleftrightarrow> configuration_ok cf \<and> cf_tag cf = 0xE0 \<and> cf_vendor_id cf = [0x4E, 0x56, 0x44, 0x41] \<and> cf_enum_version cf = 2"

definition announced_metadata :: "bootp_packet \<Rightarrow> hsb_configuration \<Rightarrow> metadata \<Rightarrow> metadata" where
  "announced_metadata p cf md = (request_metadata (request_of p) (cf_data_plane cf) 2 md)
     (''fpga_uuid'' \<mapsto> Meta_string (uuid_string (take 16 (cf_uuid cf))),
      ''transmitted_packet_count'' \<mapsto> Meta_int (uint (be_word (take 3 (drop 16 (cf_uuid cf))) :: u32)),
      ''serial_number'' \<mapsto> Meta_string (hex_string (cf_serial_num cf)),
      ''hsb_ip_version'' \<mapsto> Meta_int (uint (cf_hsb_ip_version cf)),
      ''fpga_crc'' \<mapsto> Meta_int (uint (cf_fpga_crc cf)))"

lemma be_bytes_u8: "be_bytes 1 (a :: u8) = [a]"
  by (simp add: byte_at_def and_ff_take_bit take_bit_word_eq_self)

lemma uuid_split:
  "length (bs :: bytes) = 20 \<Longrightarrow> bs = take 16 bs @ take 3 (drop 16 bs) @ be_bytes 1 (bs ! 19)"
proof -
  assume bs: "length bs = 20"
  have "drop 19 bs = [bs ! 19]"
    using bs Cons_nth_drop_Suc [of 19 bs] by simp
  then have "drop 3 (drop 16 bs) = [bs ! 19]" by simp
  moreover have "be_bytes 1 (bs ! 19) = [bs ! 19]" by (rule be_bytes_u8)
  ultimately have "drop 16 bs = take 3 (drop 16 bs) @ be_bytes 1 (bs ! 19)"
    by (metis append_take_drop_id)
  then show ?thesis by (metis append_take_drop_id)
qed

lemma deserialize_announcement:
  assumes p: "bootp_ok p" "bp_hlen p \<le> 16" "bp_vend p = vendor_info_bytes cf @ pad" and cf: "announces cf"
    and bs: "bs = bootp_bytes p @ tail" "length bs < 2 ^ 32"
  shows "deserialize_bootp_request st bs md =
    Inr (strategy_update_metadata (get_uuid_strategy st (uuid_string (take 16 (cf_uuid cf))))
           (announced_metadata p cf md))"
proof -
  let ?u = "cf_uuid cf"
  have len: "length ?u = 20" "length (cf_serial_num cf) = 7" "length (bp_sname p) = 64" "length (bp_file p) = 128"
    and tag: "cf_tag cf = 0xE0" "cf_vendor_id cf = [0x4E, 0x56, 0x44, 0x41]" "cf_enum_version cf = 2"
    using cf p(1) by (simp_all add: announces_def configuration_ok_def bootp_ok_def)
  let ?d = "new_deserializer bs (length bs)"
  have "d_ok ?d" "unread ?d = bs" using bs(2) by (simp_all add: new_deserializer_def d_ok_def unread_def)
  then obtain d1 where 1: "parse_bootp_request ?d = Some (request_of p, d1)" "d_ok d1"
      "unread d1 = bp_sname p @ bp_file p @ bp_vend p @ tail"
    using readsE [OF reads_request [OF p(1,2)], of ?d "bp_sname p @ bp_file p @ bp_vend p @ tail"]
    by (auto simp: bs(1) bootp_bytes_def)
  let ?d2 = "skip_pointer 64 d1"
  have 2: "d_ok ?d2 \<and> unread ?d2 = bp_file p @ bp_vend p @ tail"
    by (rule skip_pointer_run [OF 1(2,3) len(3)])
  let ?d3 = "skip_pointer 128 ?d2"
  have 3: "d_ok ?d3 \<and> unread ?d3 = bp_vend p @ tail"
    by (rule skip_pointer_run [OF conjunct1 [OF 2] conjunct2 [OF 2] len(4)])
  let ?rest = "be_bytes 1 (cf_board_id_lo cf) @ be_bytes 1 (cf_board_id_hi cf) @ ?u @ cf_serial_num cf @
    le_bytes 2 (cf_hsb_ip_version cf) @ le_bytes 2 (cf_fpga_crc cf) @ pad @ tail"
  obtain d4 where 4: "parse_vendor_info ?d3 = Some (cf_data_plane cf, 2, d4)" "d_ok d4" "unread d4 = ?rest"
    using readsE [OF reads_vendor_info [OF tag(1)] conjunct1 [OF 3], of "cf_tag_length cf" "cf_data_plane cf" "cf_enum_version cf" ?rest]
      3 by (auto simp: p(3) vendor_info_bytes_def tag)
  have lo_hi: "be_bytes 1 (a :: u8) @ be_bytes 1 (b :: u8) @ r = [a, b] @ r" for a b r by (simp only: be_bytes_u8 append_Cons append_Nil)
  have u: "?u @ r = take 16 ?u @ take 3 (drop 16 ?u) @ be_bytes 1 (?u ! 19) @ r" for r
    using arg_cong [OF uuid_split [OF len(1)], of "\<lambda>x. x @ r"] by (simp only: append.assoc)
  have "unread d4 = ([cf_board_id_lo cf, cf_board_id_hi cf] @ take 16 ?u @ take 3 (drop 16 ?u) @ be_bytes 1 (?u ! 19) @
      cf_serial_num cf @ le_bytes 2 (cf_hsb_ip_version cf) @ le_bytes 2 (cf_fpga_crc cf) @ []) @ pad @ tail"
    unfolding 4(3) lo_hi append.assoc append_Nil by (rule arg_cong [OF u])
  moreover have "length (take 16 ?u) = 16" "length (take 3 (drop 16 ?u)) = 3" using len(1) by simp_all
  ultimately have "parse_bootp_v2 d4 = Some (uuid_string (take 16 ?u), be_word (take 3 (drop 16 ?u)),
      hex_string (cf_serial_num cf), cf_hsb_ip_version cf, cf_fpga_crc cf)"
    using yields_bootp_v2 [OF _ _ len(2)] 4(2) unfolding yields_def by blast
  then have "deserialize_bootp_v2 d4 (request_metadata (request_of p) (cf_data_plane cf) 2 md) = announced_metadata p cf md"
    unfolding deserialize_bootp_v2_def announced_metadata_def by (simp only: option.case prod.case)
  moreover have "need_string (announced_metadata p cf md) ''fpga_uuid'' = Inr (uuid_string (take 16 ?u))"
    by (simp add: announced_metadata_def need_string_def opt_value_def)
  ultimately show ?thesis by (simp add: deserialize_bootp_request_def 1 4(1))
qed

subsection \<open>The channel of the data plane\<close>

lemma deserialize_ancdata_keeps:
  assumes "\<forall>p \<in> set ps. pi_name p \<noteq> None"
  shows "\<exists>md'. deserialize_ancdata ps md = Inr md' \<and>
    (\<forall>k. k \<notin> {''interface_index'', ''interface'', ''interface_address'', ''destination_address''} \<longrightarrow> md' k = md k)"
  using assms
proof (induction ps arbitrary: md)
  case (Cons p ps)
  then obtain interface where i: "pi_name p = Some interface" by auto
  define md1 where "md1 = md(''interface_index'' \<mapsto> Meta_int (pi_index p), ''interface'' \<mapsto> Meta_string interface,
    ''interface_address'' \<mapsto> Meta_string (pi_interface_address p),
    ''destination_address'' \<mapsto> Meta_string (pi_destination_address p))"
  obtain md' where md': "deserialize_ancdata ps md1 = Inr md'"
    "\<forall>k. k \<notin> {''interface_index'', ''interface'', ''interface_address'', ''destination_address''} \<longrightarrow> md' k = md1 k"
    using Cons.IH [of md1] Cons.prems by auto
  have "deserialize_ancdata (p # ps) md = Inr md'" using md'(1) i by (simp add: md1_def)
  moreover have "md1 k = md k"
    if "k \<notin> {''interface_index'', ''interface'', ''interface_address'', ''destination_address''}" for k
    using that by (simp add: md1_def)
  ultimately show ?case using md'(2) by metis
qed simp

lemma use_sensor_in_range:
  assumes "0 \<le> k" and "k < es_total_sensors es" and "0 \<le> es_sifs_per_sensor es" and "k * es_sifs_per_sensor es < 32" and "k < 256"
  shows "\<exists>md'. use_sensor es k md = Inr md' \<and>
    get_int md' ''sensor'' = Some (k * es_sifs_per_sensor es) \<and>
    map_option cast_u32 (get_int md' ''vp_mask'') = Some (push_bit (nat (k * es_sifs_per_sensor es)) 1) \<and>
    get_int md' ''sif_address'' = Some (0x01000000 + 0x10000 * k) \<and>
    get_int md' ''vp_address'' = Some (0x1000 + 0x40 * (k * es_sifs_per_sensor es)) \<and>
    (\<forall>key \<in> {''peer_ip'', ''serial_number'', ''control_port'', ''fpga_uuid'', ''data_plane'', ''hif_address''}. md' key = md key)"
proof -
  obtain md' where md': "basic_use_sensor es k md = Inr md'"
    "get_int md' ''sensor'' = Some (k * es_sifs_per_sensor es)"
    "map_option cast_u32 (get_int md' ''vp_mask'') = Some (push_bit (nat (k * es_sifs_per_sensor es)) 1)"
    "get_int md' ''sif_address'' = Some (0x01000000 + 0x10000 * k)"
    "get_int md' ''vp_address'' = Some (0x1000 + 0x40 * (k * es_sifs_per_sensor es))"
    "\<forall>key. key \<notin> {''sensor_number'', ''sensor'', ''vp_mask'', ''sif_address'', ''vp_address'', ''frame_end_event''} \<longrightarrow> md' key = md key"
    using basic_use_sensor_in_range [OF assms] by blast
  show ?thesis
    by (cases "es_class es") (use md' in \<open>auto simp: use_sensor_def\<close>)
qed

text \<open>The keys that a strategy must leave alone.\<close>

definition channel_keys :: "string set" where
  "channel_keys = {''peer_ip'', ''serial_number'', ''control_port'', ''fpga_uuid'', ''data_plane''}"

lemma strategy_update_keeps:
  assumes "key \<notin> dom (es_additional_metadata es)" and "key \<in> channel_keys"
  shows "strategy_update_metadata es md key = md key"
proof -
  have "key \<noteq> ''ptp_enable''" "key \<noteq> ''block_enable''" using assms(2) by (auto simp: channel_keys_def)
  then show ?thesis using assms(1) by (simp add: strategy_update_metadata_def meta_update_def domIff)
qed

lemma announced_values:
  "announced_metadata p cf md ''peer_ip'' = md ''peer_ip''"
  "announced_metadata p cf md ''serial_number'' = Some (Meta_string (hex_string (cf_serial_num cf)))"
  "announced_metadata p cf md ''control_port'' = Some (Meta_int 8192)"
  "announced_metadata p cf md ''fpga_uuid'' = Some (Meta_string (uuid_string (take 16 (cf_uuid cf))))"
  "announced_metadata p cf md ''data_plane'' = Some (Meta_int (uint (cf_data_plane cf)))"
  by (simp_all add: announced_metadata_def request_metadata_def)

text \<open>
  The metadata that the host makes of a packet of the board, for a strategy that knows the sensor
  of the data plane's number.
\<close>

lemma handle_announcement:
  assumes p: "bootp_ok p" "bp_hlen p \<le> 16" "bp_vend p = vendor_info_bytes cf @ pad" and cf: "announces cf"
    and dg: "dg_bytes dg = bootp_bytes p" "\<forall>i \<in> set (dg_packet_info dg). pi_name i \<noteq> None"
    and es: "es = get_uuid_strategy st (uuid_string (take 16 (cf_uuid cf)))"
    and keys: "dom (es_additional_metadata es) \<inter> channel_keys = {}"
    and k: "k = uint (cf_data_plane cf)" "k < es_total_dataplanes es" "k < es_total_sensors es"
    and sifs: "0 \<le> es_sifs_per_sensor es" "k * es_sifs_per_sensor es < 32"
  shows "\<exists>md. handle_bootp st fd dg = Inr md \<and>
    get_string md ''peer_ip'' = Some (dg_peer_ip dg) \<and>
    get_string md ''serial_number'' = Some (hex_string (cf_serial_num cf)) \<and>
    get_int md ''control_port'' = Some 8192 \<and>
    get_string md ''fpga_uuid'' = Some (uuid_string (take 16 (cf_uuid cf))) \<and>
    get_int md ''data_plane'' = Some k \<and> get_int md ''hif_address'' = Some (0x02000300 + 0x10000 * k) \<and>
    get_int md ''sensor'' = Some (k * es_sifs_per_sensor es) \<and>
    map_option cast_u32 (get_int md ''vp_mask'') = Some (push_bit (nat (k * es_sifs_per_sensor es)) 1) \<and>
    get_int md ''sif_address'' = Some (0x01000000 + 0x10000 * k) \<and>
    get_int md ''vp_address'' = Some (0x1000 + 0x40 * (k * es_sifs_per_sensor es))"
proof -
  have k8: "0 \<le> k" "k < 256"
    using k(1) uint_lt2p [of "cf_data_plane cf"] by simp_all
  obtain md1 where 1: "deserialize_ancdata (dg_packet_info dg) (socket_metadata fd dg) = Inr md1"
    "md1 ''peer_ip'' = Some (Meta_string (dg_peer_ip dg))"
  proof -
    have "socket_metadata fd dg ''peer_ip'' = Some (Meta_string (dg_peer_ip dg))" by (simp add: socket_metadata_def)
    moreover have "''peer_ip'' \<notin> {''interface_index'', ''interface'', ''interface_address'', ''destination_address''}"
      by simp
    ultimately show thesis using deserialize_ancdata_keeps [OF dg(2), of "socket_metadata fd dg"] that by metis
  qed
  define md2 where "md2 = strategy_update_metadata es (announced_metadata p cf md1)"
  have buffer: "bootp_buffer (dg_bytes dg) = bootp_bytes p @ replicate 9940 0"
    by (simp add: bootp_buffer_def BOOTP_BUFFER_def dg(1) p(1) take_all)
  have 2: "deserialize_bootp_request st (bootp_buffer (dg_bytes dg)) md1 = Inr md2"
    using deserialize_announcement [OF p cf buffer] p(1) by (simp add: buffer md2_def es)
  have keep: "md2 key = announced_metadata p cf md1 key" if "key \<in> channel_keys" for key
    using keys that unfolding md2_def by (intro strategy_update_keeps) auto
  have v2: "md2 ''peer_ip'' = Some (Meta_string (dg_peer_ip dg))"
    "md2 ''serial_number'' = Some (Meta_string (hex_string (cf_serial_num cf)))"
    "md2 ''control_port'' = Some (Meta_int 8192)"
    "md2 ''fpga_uuid'' = Some (Meta_string (uuid_string (take 16 (cf_uuid cf))))"
    "md2 ''data_plane'' = Some (Meta_int k)"
    by (simp_all add: keep channel_keys_def announced_values 1(2) k(1))
  have small: "cast_i32 k = k" "cast_i32 (0x02000300 + 0x10000 * k) = 0x02000300 + 0x10000 * k"
    using k8 by (simp_all add: cast_i32_small)
  define md3 where "md3 = dataplane_metadata k (0x02000300 + 0x10000 * k) md2"
  have 3: "channel_use_data_plane st (cast_i32 k) md2 = Inr md3"
    using k8 k(2) v2(4)
    by (simp add: channel_use_data_plane_def need_string_def get_string_def opt_value_def use_data_plane_configuration_def
        small md3_def es [symmetric])
  have v3: "md3 ''peer_ip'' = Some (Meta_string (dg_peer_ip dg))"
    "md3 ''serial_number'' = Some (Meta_string (hex_string (cf_serial_num cf)))"
    "md3 ''control_port'' = Some (Meta_int 8192)"
    "md3 ''fpga_uuid'' = Some (Meta_string (uuid_string (take 16 (cf_uuid cf))))"
    "md3 ''data_plane'' = Some (Meta_int k)" "md3 ''hif_address'' = Some (Meta_int (0x02000300 + 0x10000 * k))"
    by (simp_all add: md3_def dataplane_metadata_def v2)
  obtain md4 where 4: "use_sensor es k md3 = Inr md4"
    "get_int md4 ''sensor'' = Some (k * es_sifs_per_sensor es)"
    "map_option cast_u32 (get_int md4 ''vp_mask'') = Some (push_bit (nat (k * es_sifs_per_sensor es)) 1)"
    "get_int md4 ''sif_address'' = Some (0x01000000 + 0x10000 * k)"
    "get_int md4 ''vp_address'' = Some (0x1000 + 0x40 * (k * es_sifs_per_sensor es))"
    and keep4: "\<forall>key \<in> {''peer_ip'', ''serial_number'', ''control_port'', ''fpga_uuid'', ''data_plane'', ''hif_address''}. md4 key = md3 key"
    using use_sensor_in_range [OF k8(1) k(3) sifs k8(2), of md3] by blast
  have "channel_use_sensor st (cast_i32 k) md3 = Inr md4"
    using v3(4) 4(1) by (simp add: channel_use_sensor_def need_string_def get_string_def opt_value_def small es [symmetric])
  then have "handle_bootp st fd dg = Inr md4"
    using v2(5) by (simp add: handle_bootp_def 1(1) 2 get_int_def Let_def 3)
  moreover have "md4 ''peer_ip'' = md3 ''peer_ip''" "md4 ''serial_number'' = md3 ''serial_number''"
    "md4 ''control_port'' = md3 ''control_port''" "md4 ''fpga_uuid'' = md3 ''fpga_uuid''"
    "md4 ''data_plane'' = md3 ''data_plane''" "md4 ''hif_address'' = md3 ''hif_address''"
    using keep4 by simp_all
  ultimately show ?thesis using 4(2-) v3 by (simp add: get_string_def get_int_def)
qed

text \<open>
  The channel has the registers of the data plane: the data plane of the same number and sensor,
  on a board whose configuration has as many interfaces per sensor as the strategy.
\<close>

definition same_data_plane :: "data_channel \<Rightarrow> roce_data_plane \<Rightarrow> bool" where
  "same_data_plane dc dp \<longleftrightarrow>
     dc_vp_address dc = dp_vp_address dp \<and> dc_hif_address dc = dp_hif_address dp \<and>
     dc_sif_address dc = dp_sif_address dp \<and> dc_vp_mask dc = dp_vp_mask dp"

lemma announced_channel:
  fixes sifs n :: u8
  assumes md: "get_string md ''peer_ip'' = Some ip" "get_string md ''fpga_uuid'' = Some uuid"
      "get_int md ''data_plane'' = Some (uint n)" "get_int md ''hif_address'' = Some (0x02000300 + 0x10000 * uint n)"
      "get_int md ''sensor'' = Some (uint n * uint sifs)"
      "map_option cast_u32 (get_int md ''vp_mask'') = Some (push_bit (nat (uint n * uint sifs)) 1)"
      "get_int md ''sif_address'' = Some (0x01000000 + 0x10000 * uint n)"
      "get_int md ''vp_address'' = Some (0x1000 + 0x40 * (uint n * uint sifs))"
    and sifs: "uint n * uint sifs < 32"
  shows "\<exists>dc. initialize_data_channel md = Inr dc \<and> dc_peer_ip dc = ip \<and>
    same_data_plane dc (new_roce_data_plane sifs addr port n n) \<and> plane_addresses dc (n * sifs) n n"
proof -
  obtain v where v: "get_int md ''vp_mask'' = Some v" "cast_u32 v = push_bit (nat (uint n * uint sifs)) 1"
    using md(6) by auto
  have prod: "uint (n * sifs) = uint n * uint sifs"
    using sifs by (simp add: uint_word_ariths)
  then have nat: "unat (n * sifs) = nat (uint n * uint sifs)"
    by (simp only: unat_eq_nat_uint)
  have i: "word_of_int (uint n * uint sifs) = (ucast (n * sifs) :: u32)"
    by (simp add: prod [symmetric])
  have at: "word_of_int (0x1000 + 0x40 * (uint n * uint sifs)) = (0x1000 + 0x40 * ucast (n * sifs) :: u32)"
    "word_of_int (0x02000300 + 0x10000 * uint n) = (0x02000300 + 0x10000 * ucast n :: u32)"
    "word_of_int (0x01000000 + 0x10000 * uint n) = (0x01000000 + 0x10000 * ucast n :: u32)"
    using i by (simp_all flip: wi_hom_add wi_hom_mult)
  obtain a b c where "destination_override md = (a, b, c)" by (cases "destination_override md") auto
  then show ?thesis
    using md(1-5,7,8) v at
    by (simp add: initialize_data_channel_def need_int_def need_string_def opt_value_def Let_def cast_u32_def
        same_data_plane_def plane_addresses_def new_roce_data_plane_def nat)
qed

end
