(* ===== verification/Board_Connection.thy ===== *)
theory Board_Connection
  imports Emulator_Link
begin

text \<open>
  The host connected to the emulated board: the states that the end-to-end properties are about,
  and the initial one, of the concrete instances.
\<close>

subsection \<open>The host connected to the emulated board\<close>

text \<open>
  The state in which the end-to-end properties start: the emulator runs at the other end of a
  link at rest, its registers read as \<open>R\<close>, at least \<open>n\<close> more words may be read before its poll
  detection gives up, and the host's members are those of \<open>h\<close> up to the sequence number.
\<close>

definition board_connected :: "(u32 \<Rightarrow> u32) \<Rightarrow> nat \<Rightarrow> hololink \<Rightarrow> 'p emulator hsb \<Rightarrow> bool" where
  "board_connected = connected (emulator_respond EMULATOR_LATENCY) emu_ok get_reg e_next_sequence emu_budget"

definition fresh_board :: "hololink \<Rightarrow> unit emulator hsb" where
  "fresh_board h =
     \<lparr>host = h,
      link = \<lparr>clock = 0, lags = [], inflight = [],
        device = new_emulator 0x2602 () (\<lambda>env _ _ buffer. ((True, buffer), env)),
        respond = emulator_respond EMULATOR_LATENCY, peer_valid = True, send_faults = []\<rparr>\<rparr>"

lemma fresh_board_connected:
  assumes "hl_sequence h = 0x100"
  shows "board_connected ((\<lambda>_. 0)(HSB_IP_VERSION := 0x2602, FPGA_DATE := HSB_EMULATOR_DATE)) 299 h (fresh_board h)"
proof -
  have "get_reg (new_emulator 0x2602 env p) = (\<lambda>_. 0)(HSB_IP_VERSION := 0x2602, FPGA_DATE := HSB_EMULATOR_DATE)"
    for env :: unit and p
    by (simp add: get_reg_def [abs_def] new_emulator_def rm_new_def rm_read_def fun_eq_iff)
  moreover have "emu_ok (new_emulator 0x2602 env p)" "emu_budget (new_emulator 0x2602 env p) = 299"
      "e_next_sequence (new_emulator 0x2602 env p) = 0x100" for env :: unit and p
    by (simp_all add: emu_ok_def emu_budget_def new_emulator_def)
  ultimately show ?thesis using assms
    by (simp add: board_connected_def connected_def fresh_board_def at_rest_def)
qed

lemma board_connected_iff: "board_connected R n h s = emu.st R n h s"
  by (simp add: board_connected_def)

text \<open>The state of the witnesses: the host made by its constructor, the board just switched on.\<close>

abbreviation "initial_host \<equiv> new_hololink True False True True"

abbreviation "initial_registers \<equiv> (\<lambda>_. 0 :: u32)(HSB_IP_VERSION := 0x2602, FPGA_DATE := HSB_EMULATOR_DATE)"

lemma initial_connected:
  assumes "n \<le> 299"
  shows "board_connected initial_registers n initial_host (fresh_board initial_host)"
  using fresh_board_connected [of initial_host] assms
  by (auto simp: new_hololink_def board_connected_def connected_def)

end
