(* ===== verification/Streaming.thy ===== *)
theory Streaming
  imports Discovery Board_Connection
begin

text \<open>
  From the packet with which a board announces itself to the frames that the application takes
  from its receiver: the properties of the data plane.
\<close>

subsection \<open>A channel that is configured\<close>

lemma connected_registers: "board_connected R n h s \<Longrightarrow> rm_read (e_regs (device (link s))) = R"
  by (auto simp: board_connected_def connected_def get_reg_def [abs_def])

text \<open>
  C3: When the host configures a data channel of the connected board, a frame that the data plane of this channel then
  sends, its registers being what the board's register memory holds, is received whole: if its packets arrive in order,
  at any times, the receiver takes exactly the bytes sent, with the board's frame number, the count of the packets and
  no loss counted.
\<close>

theorem configured_frame_delivered:
  assumes board: "board_connected R (Suc (Suc n)) h s"
    and at: "plane_addresses dc i k m" "dp_vp_address dp = dc_vp_address dc" "dp_hif_address dp = dc_hif_address dc"
    and req: "roce_request_ok frame_memory frame_size page_size pages"
    and payload: "compute_payload_size 74 (channel_mtu dc) = Inr payload_size" "unat payload_size \<le> 10180"
    and dest: "data_destination net dc port = Inr dest" "to_port dest \<noteq> 0" "to_port dest \<le> 0xFFFF" "to_ip dest \<noteq> 0"
    and rx: "receiver_for cfg frame_memory page_size pages" "awaiting_frame cfg st" "kept st = []"
    and content: "length content \<le> unat page_size" and mesg: "length mesg = MESG_SIZE"
    and psn: "in_sync st (t_psn (dp_transmitter dp))"
      "unat (t_psn (dp_transmitter dp)) + (length content + unat payload_size - 1) div unat payload_size + 1 \<le> 2 ^ 20"
  shows "\<exists>s' n_sent packets dp'.
    configure_roce net dc frame_memory frame_size page_size pages port s = (Inr (), s') \<and>
    dp_send crc32 (\<lambda>_. True) fs mt mesg (e_regs (device (link s'))) content (Some Default_metadata) dp =
      (Inr (Some (n_sent, packets)), dp') \<and>
    (\<forall>arrivals. map snd arrivals = map udp_payload packets \<longrightarrow>
       (\<exists>st' md st''. receive_all cfg arrivals st = Running st' \<and> take_frame cfg st' = Some ((md, Some content), st'') \<and>
          md_frame_number (lm_frame_metadata md) = ucast (t_frame_number (dp_transmitter dp)) \<and>
          lm_frame_packets_received md = of_nat (length packets) \<and> lm_packets_dropped md = rx_packets_dropped st))"
proof -
  have checks: "roce_checks frame_memory frame_size page_size pages = Inr ()" using req by (simp add: roce_request_ok_def)
  obtain s' where s': "configure_roce net dc frame_memory frame_size page_size pages port s = (Inr (), s')"
      "board_connected (roce_registers R dc frame_memory frame_size page_size pages payload_size dest) n h s'"
    using runsD [OF emu.configure_roce_rule [OF emu_data_plane_memory [OF at(1)] checks payload(1) dest(1)]
        board [unfolded board_connected_iff]]
    unfolding board_connected_iff by (metis old.unit.exhaust)
  show ?thesis
    using configured_frame_received [OF at(1) req payload dest(2-4) at(2,3) connected_registers [OF s'(2)] mesg rx content psn]
      s'(1) by fast
qed

text \<open>The concrete channel, network and receiver of the instances.\<close>

definition sample_channel :: data_channel where
  "sample_channel =
     \<lparr>dc_metadata = (\<lambda>_. None), dc_peer_ip = ''192.168.0.2'', dc_vp_mask = 1, dc_qp_number = 2, dc_rkey = 3,
      dc_data_plane = 0, dc_sensor = 0, dc_multicast = '''', dc_multicast_port = 0, dc_broadcast_port = 0,
      dc_frame_end_event_valid = True, dc_frame_end_event = 2, dc_vp_address = 0x1000, dc_hif_address = 0x02000300,
      dc_sif_address = 0x01000000, dc_fpga_uuid = ''16af139b-9d14-482f-9805-3feb72ae0cec'', dc_packetizer = Null_packetizer\<rparr>"

definition sample_network :: host_network where
  "sample_network =
     \<lparr>hn_local_ip_and_mac = (\<lambda>_. Inr (''192.168.0.1'', ''eth0'', [1, 2, 3, 4, 5, 6])), hn_inet_network = (\<lambda>_. 0xC0A80001)\<rparr>"

definition sample_destination :: destination where
  "sample_destination = \<lparr>to_mac = [1, 2, 3, 4, 5, 6], to_ip = 0xC0A80001, to_port = 4791\<rparr>"

definition sample_config :: rx_config where
  "sample_config = \<lparr>cu_buffer = 0x10000, cu_buffer_size = 4096, cu_page_size = 2048, rx_pages = 2,
     received_address_offset = 0, queue_size = 1\<rparr>"

definition sample_receiver :: linux_receiver where
  "sample_receiver = start_receiver sample_config (\<lambda>_. replicate (unat (rx_buffer_size sample_config)) 0)"

lemma sample_receiver_awaits: "rx_config_ok sample_config" "awaiting_frame sample_config sample_receiver"
    "kept sample_receiver = []" "rx_first sample_receiver" "rx_packets_dropped sample_receiver = 0"
proof -
  show ok: "rx_config_ok sample_config" by (simp add: rx_config_ok_def sample_config_def)
  have "rx_ok sample_config sample_receiver"
    unfolding sample_receiver_def by (rule start_receiver_ok [OF ok]) (simp add: memory_ok_def)
  then show "awaiting_frame sample_config sample_receiver"
    by (simp add: awaiting_frame_def sample_receiver_def start_receiver_def)
  show "kept sample_receiver = []" "rx_first sample_receiver" "rx_packets_dropped sample_receiver = 0"
    by (simp_all add: kept_def sample_receiver_def start_receiver_def)
qed

lemma sample_request: "roce_request_ok 0x10000 1000 2048 2"
  by (simp add: roce_request_ok_def roce_checks_def core_round_up_def Let_def drop_bit_eq_div)

lemma sample_payload: "compute_payload_size 74 (channel_mtu sample_channel) = Inr 1408"
  by (simp add: compute_payload_size_def channel_mtu_def sample_channel_def get_int_def DEFAULT_MTU_def CORE_PAGE_SIZE_def)

lemma sample_to: "data_destination sample_network sample_channel 4791 = Inr sample_destination"
  by (simp add: data_destination_def sample_network_def sample_channel_def sample_destination_def)

lemma sample_addresses: "plane_addresses sample_channel 0 0 0"
    "dp_vp_address (new_roce_data_plane 1 a p 0 0) = dc_vp_address sample_channel"
    "dp_hif_address (new_roce_data_plane 1 a p 0 0) = dc_hif_address sample_channel"
  by (simp_all add: plane_addresses_def sample_channel_def new_roce_data_plane_def)

lemma sample_receiver_for: "receiver_for sample_config 0x10000 2048 2"
  by (simp add: receiver_for_def sample_receiver_awaits(1)) (simp add: sample_config_def)

theorem configured_frame_delivered_witness:
  "\<exists>s' n_sent packets dp'.
    configure_roce sample_network sample_channel 0x10000 1000 2048 2 4791 (fresh_board initial_host) = (Inr (), s') \<and>
    dp_send (\<lambda>_ _. 0) (\<lambda>_. True) zero_time zero_time (replicate MESG_SIZE 0) (e_regs (device (link s'))) [1, 2, 3]
      (Some Default_metadata) (new_roce_data_plane 1 0xC0A80002 12288 0 0) = (Inr (Some (n_sent, packets)), dp') \<and>
    (\<forall>arrivals. map snd arrivals = map udp_payload packets \<longrightarrow>
       (\<exists>st' md st''. receive_all sample_config arrivals sample_receiver = Running st' \<and>
          take_frame sample_config st' = Some ((md, Some [1, 2, 3]), st'') \<and>
          lm_frame_packets_received md = of_nat (length packets) \<and> lm_packets_dropped md = 0))"
proof -
  let ?dp = "new_roce_data_plane 1 0xC0A80002 12288 0 0"
  have board: "board_connected initial_registers (Suc (Suc 0)) initial_host (fresh_board initial_host)"
    by (rule initial_connected) simp
  have psn: "in_sync sample_receiver (t_psn (dp_transmitter ?dp))" "t_psn (dp_transmitter ?dp) = 0"
    using sample_receiver_awaits(4) by (simp_all add: in_sync_def new_roce_data_plane_def new_roce_transmitter_def)
  from configured_frame_delivered [OF board sample_addresses sample_request sample_payload _ sample_to _ _ _
      sample_receiver_for sample_receiver_awaits(2,3) _ _ psn(1), of "[1, 2, 3]" "replicate MESG_SIZE 0" "\<lambda>_ _. 0"
      zero_time zero_time]
  show ?thesis
    by (simp add: psn(2) sample_destination_def sample_receiver_awaits(5)) blast
qed

subsection \<open>A board that is found\<close>

text \<open>
  C7: The BOOTP packet with which the emulator announces a data plane is understood by the host: it yields metadata that
  make a complete channel, with the board's serial number, and the channel has the registers and the interface mask
  of the data plane with the announced number, when the strategy for the board has its interfaces per sensor and the
  announced number is one of a sensor too.
\<close>

theorem board_found:
  assumes cf: "announces cf" and mac: "length (ia_mac ip) = 6" and buffer: "length buffer = 300"
    and packet: "init_bootp_packet ip cf = Inr p" "bootp_message start_time now buffer p = (dg_bytes dg, p')"
    and interfaces: "\<forall>i \<in> set (dg_packet_info dg). pi_name i \<noteq> None"
    and es: "es = get_uuid_strategy st (uuid_string (take 16 (cf_uuid cf)))"
      "dom (es_additional_metadata es) \<inter> channel_keys = {}" "es_sifs_per_sensor es = uint (cf_sifs_per_sensor cf)"
      "uint (cf_data_plane cf) < es_total_dataplanes es" "uint (cf_data_plane cf) < es_total_sensors es"
      "uint (cf_data_plane cf) * uint (cf_sifs_per_sensor cf) < 32"
  shows "\<exists>md dc. handle_bootp st fd dg = Inr md \<and> data_channel_enumerated md \<and>
    get_string md ''serial_number'' = Some (hex_string (cf_serial_num cf)) \<and>
    initialize_data_channel md = Inr dc \<and> dc_peer_ip dc = dg_peer_ip dg \<and>
    same_data_plane dc (new_roce_data_plane (cf_sifs_per_sensor cf) address port (cf_data_plane cf) (cf_data_plane cf)) \<and>
    plane_addresses dc (cf_data_plane cf * cf_sifs_per_sensor cf) (cf_data_plane cf) (cf_data_plane cf)"
proof -
  have cf_ok: "configuration_ok cf" using cf by (simp add: announces_def)
  have p: "p = board_packet ip cf" using packet(1) init_bootp_packet_run [OF mac cf_ok] by simp
  have p_ok: "bootp_ok p" unfolding p by (rule board_packet_ok [OF mac cf_ok])
  let ?p = "update_bootp_packet start_time now p"
  have p': "bootp_ok ?p" "bp_hlen ?p \<le> 16" "bp_vend ?p = vendor_info_bytes cf @ replicate 23 0"
    using p_ok by (simp_all add: bootp_ok_def update_bootp_packet_def p board_packet_def)
  have dg: "dg_bytes dg = bootp_bytes ?p"
    using packet(2) bootp_message_bytes [OF p_ok buffer, of start_time now] by (metis fst_conv)
  have sifs: "0 \<le> es_sifs_per_sensor es" "uint (cf_data_plane cf) * es_sifs_per_sensor es < 32"
    using es(3,6) by simp_all
  obtain md where md: "handle_bootp st fd dg = Inr md" "get_string md ''peer_ip'' = Some (dg_peer_ip dg)"
    "get_string md ''serial_number'' = Some (hex_string (cf_serial_num cf))"
    "get_int md ''control_port'' = Some 8192"
    "get_string md ''fpga_uuid'' = Some (uuid_string (take 16 (cf_uuid cf)))"
    "get_int md ''data_plane'' = Some (uint (cf_data_plane cf))"
    "get_int md ''hif_address'' = Some (0x02000300 + 0x10000 * uint (cf_data_plane cf))"
    "get_int md ''sensor'' = Some (uint (cf_data_plane cf) * uint (cf_sifs_per_sensor cf))"
    "map_option cast_u32 (get_int md ''vp_mask'') =
       Some (push_bit (nat (uint (cf_data_plane cf) * uint (cf_sifs_per_sensor cf))) 1)"
    "get_int md ''sif_address'' = Some (0x01000000 + 0x10000 * uint (cf_data_plane cf))"
    "get_int md ''vp_address'' = Some (0x1000 + 0x40 * (uint (cf_data_plane cf) * uint (cf_sifs_per_sensor cf)))"
    using handle_announcement [OF p' cf dg interfaces es(1,2) refl es(4,5) sifs, of fd] unfolding es(3) by blast
  from announced_channel [OF md(2,5-11) es(6)] md(1-4,6,7) show ?thesis
    by (auto simp: data_channel_enumerated_def hololink_enumerated_def)
qed

text \<open>The emulator with the configuration of the Leopard Eagle, and the default strategies.\<close>

lemma leopard_strategy:
  "get_uuid_strategy (default_strategies (\<lambda>_. None)) (uuid_string (take 16 (cf_uuid HSB_LEOPARD_EAGLE_CONFIG))) =
   leopard_eagle_strategy"
proof -
  have "uuid_string (take 16 (cf_uuid HSB_LEOPARD_EAGLE_CONFIG)) = LEOPARD_EAGLE_UUID" by code_simp
  then show ?thesis by (simp add: get_uuid_strategy_def default_strategies_def)
qed

definition sample_ip :: ip_address where
  "sample_ip = \<lparr>ia_address = 0x0200A8C0, ia_subnet_mask = 0x00FFFFFF, ia_broadcast_address = 0xFF00A8C0,
     ia_mac = [2, 0, 0, 0, 0, 1], ia_port = 12288, ia_flags = 7\<rparr>"

definition sample_announcement :: bootp_datagram where
  "sample_announcement =
     \<lparr>dg_bytes = fst (bootp_message zero_time zero_time (replicate 300 0) (board_packet sample_ip HSB_LEOPARD_EAGLE_CONFIG)),
      dg_peer_ip = ''192.168.0.2'', dg_source_port = 12267,
      dg_packet_info = [\<lparr>pi_index = 2, pi_name = Some ''eth0'', pi_interface_address = ''192.168.0.1'',
        pi_destination_address = ''255.255.255.255''\<rparr>]\<rparr>"

theorem board_found_witness:
  "\<exists>md dc. handle_bootp (default_strategies (\<lambda>_. None)) 3 sample_announcement = Inr md \<and>
    data_channel_enumerated md \<and> get_string md ''serial_number'' = Some (hex_string [3, 1, 4, 1, 5, 9, 3]) \<and>
    initialize_data_channel md = Inr dc \<and> dc_peer_ip dc = ''192.168.0.2'' \<and>
    same_data_plane dc (new_roce_data_plane 1 0 0 0 0)"
proof -
  let ?cf = HSB_LEOPARD_EAGLE_CONFIG
  have cf: "announces ?cf" "length (ia_mac sample_ip) = 6"
    by (simp_all add: announces_def configuration_ok_def HSB_LEOPARD_EAGLE_CONFIG_def HSB_EMULATOR_CONFIG_def sample_ip_def)
  have config: "cf_serial_num ?cf = [3, 1, 4, 1, 5, 9, 3]" "cf_sifs_per_sensor ?cf = 1" "cf_data_plane ?cf = 0"
    by (simp_all add: HSB_LEOPARD_EAGLE_CONFIG_def HSB_EMULATOR_CONFIG_def)
  have init: "init_bootp_packet sample_ip ?cf = Inr (board_packet sample_ip ?cf)"
    using cf by (intro init_bootp_packet_run) (simp_all add: announces_def)
  have sent: "bootp_message zero_time zero_time (replicate 300 0) (board_packet sample_ip ?cf) =
      (dg_bytes sample_announcement, update_bootp_packet zero_time zero_time (board_packet sample_ip ?cf))"
    by (simp add: sample_announcement_def bootp_message_def Let_def split: prod.split)
  have es: "es_sifs_per_sensor leopard_eagle_strategy = 1" "es_total_dataplanes leopard_eagle_strategy = 1"
      "es_total_sensors leopard_eagle_strategy = 3" "dom (es_additional_metadata leopard_eagle_strategy) \<inter> channel_keys = {}"
    by (simp_all add: leopard_eagle_strategy_def basic_strategy_def channel_keys_def)
  show ?thesis
    using board_found [OF cf _ init sent _ leopard_strategy [symmetric] es(4), of 3 0 0] es(1-3)
    by (auto simp: config sample_announcement_def)
qed

subsection \<open>What goes over the wire\<close>

text \<open>
  The lengths in the IP and UDP headers of a packet are those of the packet, and it is one of the two kinds.
\<close>

definition packet_lengths_ok :: "bytes \<Rightarrow> bool" where
  "packet_lengths_ok p \<longleftrightarrow>
     60 \<le> length p \<and> length p \<le> MESG_SIZE \<and>
     be_word (take 2 (drop 2 p)) = (of_nat (length p) :: u16) \<and>
     be_word (take 2 (drop 24 p)) = (of_nat (length p - 20) :: u16) \<and>
     p ! 28 \<in> {IB_OPCODE_WRITE, IB_OPCODE_WRITE_IMMEDIATE}"

text \<open>
  The size of the content in the header of the write command, and the length that the comments of
  \<open>write_frame_metadata\<close> and \<open>send\<close> give a packet of this content: the headers, the immediate value if
  it has one, which does not count as content, the content and the CRC.
\<close>

definition packet_content_size :: "bytes \<Rightarrow> nat" where
  "packet_content_size p = unat (be_word (take 4 (drop 52 p)) :: u32)"

definition documented_length :: "bytes \<Rightarrow> nat" where
  "documented_length p =
     IB_PAYLOAD_OFFSET + (if p ! 28 = IB_OPCODE_WRITE_IMMEDIATE then 4 else 0) + packet_content_size p + 4"

lemma opcodes_differ: "IB_OPCODE_WRITE \<noteq> IB_OPCODE_WRITE_IMMEDIATE"
  by (simp add: IB_OPCODE_WRITE_def IB_OPCODE_WRITE_IMMEDIATE_def)

definition packet_wf :: "bytes \<Rightarrow> bool" where
  "packet_wf p \<longleftrightarrow> packet_lengths_ok p \<and> length p = documented_length p"

lemma packet_bytes_lengths:
  fixes crc32 :: crc_function and psn :: u32 and v :: u64
  assumes "length payload = n" and "n \<le> 10180"
    and "bt_opcode (bt_h h) \<in> {IB_OPCODE_WRITE, IB_OPCODE_WRITE_IMMEDIATE}"
  defines "p \<equiv> packet_bytes crc32 (packet_headers h psn v n) payload"
  shows "packet_lengths_ok p" "packet_content_size p = n" "length p = 60 + n" "p ! 28 = bt_opcode (bt_h h)"
proof -
  let ?h = "packet_headers h psn v n"
  show len: "length p = 60 + n" using assms(1) by (simp add: p_def)
  have lens: "ip_tot_len (ip_h ?h) = of_nat (60 + n)" "udp_len (udp_h ?h) = of_nat (40 + n)"
    "ret_content_size (ret_h ?h) = of_nat n" "bt_opcode (bt_h ?h) = bt_opcode (bt_h h)"
    by (simp_all add: packet_headers_def message_lengths_def)
  have ip: "take 2 (drop 2 p) = be_bytes 2 (ip_tot_len (ip_h ?h))"
    by (simp add: p_def packet_bytes_def ip_header_bytes_def enc_be)
  have udp: "take 2 (drop 24 p) = be_bytes 2 (udp_len (udp_h ?h))"
    by (simp add: p_def packet_bytes_def udp_header_bytes_def enc_be)
  have ret: "take 4 (drop 52 p) = be_bytes 4 (ret_content_size (ret_h ?h))"
    by (simp add: p_def packet_bytes_def ret_header_bytes_def enc_be)
  show op: "p ! 28 = bt_opcode (bt_h h)"
    by (simp add: p_def packet_bytes_def nth_append bt_header_bytes_def be_bytes_u8 lens(4))
  show "packet_lengths_ok p"
    using assms(2,3) unfolding packet_lengths_ok_def len ip udp lens op
    by (simp add: be_word_be_bytes MESG_SIZE_def)
  show "packet_content_size p = n"
    using assms(2) unfolding packet_content_size_def ret lens
    by (simp add: be_word_be_bytes unat_of_nat)
qed

text \<open>Data packets have the length that their content asks for; the immediate packet is 4 bytes short.\<close>

definition short_immediate :: "bytes \<Rightarrow> bool" where
  "short_immediate p \<longleftrightarrow>
     packet_lengths_ok p \<and> p ! 28 = IB_OPCODE_WRITE_IMMEDIATE \<and> packet_content_size p = FRAME_METADATA_SIZE \<and>
     length p + 4 = documented_length p"

lemma data_packet_wf:
  assumes "length payload = n" and "n \<le> 10180" and "bt_opcode (bt_h h) = IB_OPCODE_WRITE"
  shows "packet_wf (packet_bytes crc32 (packet_headers h psn v n) payload) \<and>
    packet_bytes crc32 (packet_headers h psn v n) payload ! 28 = IB_OPCODE_WRITE"
  using packet_bytes_lengths [OF assms(1,2), of h crc32 psn v] assms(3)
  by (simp add: packet_wf_def documented_length_def opcodes_differ)

lemma immediate_packet_short:
  assumes "length (tx_reserved md) = 80"
  shows "short_immediate (last_packet crc32 tm md psn t)"
proof -
  let ?payload = "be_bytes 4 (immediate_value (ucast (tm_page tm)) psn) @ take 124 (tx_metadata_bytes md)"
  have "length ?payload = 128" using assms by simp
  from packet_bytes_lengths [OF this, of "immediate_headers (frame_headers tm (t_psn t) (linux_headers t))"]
  show ?thesis
    by (simp add: short_immediate_def last_packet_def immediate_packet_def documented_length_def immediate_headers_def
        FRAME_METADATA_SIZE_def)
qed

lemma frame_packets_wf:
  assumes "p \<le> 10180" and "bt_opcode (bt_h h) = IB_OPCODE_WRITE"
  shows "\<forall>m \<in> set (frame_packets crc32 h psn v p content). packet_wf m \<and> m ! 28 = IB_OPCODE_WRITE"
  using assms
proof (induction crc32 h psn v p content rule: frame_packets.induct)
  case (1 crc32 h psn v p content)
  then show ?case
    using data_packet_wf [of "take p content" "min (length content) p" h crc32 psn v]
    by (subst frame_packets.simps) (auto simp: min.commute)
qed

lemma set_accepted: "set (accepted sendto i ms) \<subseteq> set ms"
  by (induction ms arbitrary: i) auto

text \<open>
  C27: With a payload size from 1 to 10180 bytes, every data packet that the transmitter hands to the socket is well formed: it
  fits the buffer, the lengths of its IP and UDP headers are those of the packet, and its length is that of the headers, the
  content announced in the write command and the CRC. The immediate packet is not: the lengths of its IP and UDP headers
  are those of the packet, but it announces the 128 bytes of the metadata as its content and, with the immediate value
  before them, is 4 bytes shorter than the headers, the immediate value, this content and the CRC are together.
\<close>

theorem sent_packets_wf:
  assumes "length mesg = MESG_SIZE" and "0 < payload_bytes tm" and "payload_bytes tm \<le> 10180"
    and "\<forall>a. arg = Some a \<longrightarrow> argument_ok a"
    and "roce_send crc32 sendto fs mt mesg tm content arg t = Some (n, t', out)"
  shows "\<forall>p \<in> set out. packet_lengths_ok p \<and>
    (if p ! 28 = IB_OPCODE_WRITE then packet_wf p
     else p ! 28 = IB_OPCODE_WRITE_IMMEDIATE \<and> packet_content_size p = FRAME_METADATA_SIZE \<and>
       length p + 4 = documented_length p)"
proof (cases "tm_dest_port tm = 0 \<or> tm_dest_ip_address tm = 0")
  case True
  then show ?thesis using roce_send_unconnected [OF True, of crc32 sendto fs mt mesg content arg t] assms(5) by simp
next
  case False
  then have dest: "tm_dest_port tm \<noteq> 0" "tm_dest_ip_address tm \<noteq> 0" by simp_all
  have data: "\<forall>p \<in> set (data_packets crc32 tm content t). packet_wf p \<and> p ! 28 = IB_OPCODE_WRITE"
    unfolding data_packets_def using assms(3) by (rule frame_packets_wf) (simp add: frame_headers_def)
  have "\<forall>p \<in> set out. packet_wf p \<and> p ! 28 = IB_OPCODE_WRITE \<or> short_immediate p"
  proof (cases arg)
    case None
    with roce_send_data [OF assms(1) dest assms(2,3), of crc32 sendto fs mt content t] assms(5)
    have "out = accepted sendto 0 (data_packets crc32 tm content t)" by auto
    then show ?thesis using data set_accepted by blast
  next
    case (Some a)
    then have a: "argument_ok a" using assms(4) by simp
    let ?md = "sent_metadata crc32 sendto fs mt tm content a t"
    from roce_send_frame [OF assms(1) dest assms(2,3) a, of crc32 sendto fs mt content t] assms(5) Some
    have out: "out = accepted sendto 0 (frame_transmission crc32 sendto fs mt tm content a t)" by auto
    have "length (tx_reserved ?md) = 80" using a by (simp add: sent_metadata_def)
    from immediate_packet_short [OF this] show ?thesis
      using data set_accepted [of sendto 0 "frame_transmission crc32 sendto fs mt tm content a t"]
      by (auto simp: out frame_transmission_def)
  qed
  then show ?thesis using opcodes_differ by (fastforce simp: short_immediate_def packet_wf_def)
qed

text \<open>The concrete transmission of the instances.\<close>

definition sample_transmission :: transmission_metadata where
  "sample_transmission = zero_metadata\<lparr>tm_dest_port := 4791, tm_dest_ip_address := 0xC0A80001, tm_payload_size := 1408\<rparr>"

lemma sample_transmission_values: "payload_bytes sample_transmission = 1408" "tm_dest_port sample_transmission \<noteq> 0"
    "tm_dest_ip_address sample_transmission \<noteq> 0"
  by (simp_all add: payload_bytes_def sample_transmission_def)

theorem sent_packets_wf_witness:
  "\<exists>n t' p q. roce_send (\<lambda>_ _. 0) (\<lambda>_. True) zero_time zero_time (replicate MESG_SIZE 0) sample_transmission [1, 2, 3]
      (Some Default_metadata) (new_roce_transmitter 0 12288) = Some (n, t', [p, q]) \<and>
    packet_wf p \<and> \<not> packet_wf q \<and> length q + 4 = documented_length q"
proof -
  let ?t = "new_roce_transmitter 0 12288"
  have v: "0 < payload_bytes sample_transmission" "payload_bytes sample_transmission \<le> 10180"
    by (simp_all add: sample_transmission_values(1))
  have arg: "argument_ok Default_metadata" by (simp add: argument_ok_def)
  let ?data = "data_packets (\<lambda>_ _. 0) sample_transmission [1, 2, 3] ?t"
  let ?md = "sent_metadata (\<lambda>_ _. 0) (\<lambda>_. True) zero_time zero_time sample_transmission [1, 2, 3] Default_metadata ?t"
  let ?q = "last_packet (\<lambda>_ _. 0) sample_transmission ?md (data_psn sample_transmission [1, 2, 3] ?t) ?t"
  have "length ?data = 1"
    using length_frame_packets [OF v(1)] by (simp add: data_packets_def sample_transmission_values(1))
  then obtain p where p: "?data = [p]" by (auto simp: length_Suc_conv)
  obtain n t' where run: "roce_send (\<lambda>_ _. 0) (\<lambda>_. True) zero_time zero_time (replicate MESG_SIZE 0) sample_transmission [1, 2, 3]
      (Some Default_metadata) ?t = Some (n, t', [p, ?q])"
    using roce_send_frame [OF _ sample_transmission_values(2,3) v arg, of "replicate MESG_SIZE 0" "\<lambda>_ _. 0" "\<lambda>_. True"
        zero_time zero_time "[1, 2, 3]" ?t]
    by (auto simp: accepted_all frame_transmission_def p)
  have "bt_opcode (bt_h (frame_headers sample_transmission (t_psn ?t) (linux_headers ?t))) = IB_OPCODE_WRITE"
    by (simp add: frame_headers_def)
  from frame_packets_wf [OF v(2) this] p have "p ! 28 = IB_OPCODE_WRITE" unfolding data_packets_def
    by (metis list.set_intros(1))
  moreover have "?q ! 28 = IB_OPCODE_WRITE_IMMEDIATE"
    using immediate_packet_short [of ?md] arg by (simp add: short_immediate_def sent_metadata_def)
  ultimately have "packet_wf p" "length ?q + 4 = documented_length ?q"
    using sent_packets_wf [OF _ v _ run] arg opcodes_differ by simp_all
  then show ?thesis using run by (intro exI [of _ n] exI [of _ t'] exI [of _ p] exI [of _ ?q]) (simp add: packet_wf_def [of ?q])
qed

text \<open>
  C28: The transmitter returns from the transmission of a frame that has content exactly when the payload size, in 16
  bits, is not zero; with a size that is zero in 16 bits the loop over the content never ends.
\<close>

theorem roce_send_returns:
  assumes "length mesg = MESG_SIZE" and "tm_dest_port tm \<noteq> 0" "tm_dest_ip_address tm \<noteq> 0"
    and "content \<noteq> []" and "payload_bytes tm \<le> 10180" and "argument_ok a"
  shows "roce_send crc32 sendto fs mt mesg tm content (Some a) t \<noteq> None \<longleftrightarrow> payload_bytes tm \<noteq> 0"
proof (cases "payload_bytes tm = 0")
  case True
  then show ?thesis using roce_send_no_payload [OF assms(2,3) True assms(4)] by simp
next
  case False
  then show ?thesis using roce_send_frame [OF assms(1-3) _ assms(5,6), of crc32 sendto fs mt content t] by auto
qed

theorem roce_send_returns_witness:
  "roce_send (\<lambda>_ _. 0) (\<lambda>_. True) zero_time zero_time (replicate MESG_SIZE 0) (sample_transmission\<lparr>tm_payload_size := 0\<rparr>)
     [1, 2, 3] (Some Default_metadata) (new_roce_transmitter 0 12288) = None \<and>
   roce_send (\<lambda>_ _. 0) (\<lambda>_. True) zero_time zero_time (replicate MESG_SIZE 0) sample_transmission
     [1, 2, 3] (Some Default_metadata) (new_roce_transmitter 0 12288) \<noteq> None"
proof -
  let ?tm = "sample_transmission\<lparr>tm_payload_size := 0\<rparr>"
  have 0: "payload_bytes ?tm = 0" "tm_dest_port ?tm \<noteq> 0" "tm_dest_ip_address ?tm \<noteq> 0"
    using sample_transmission_values by (simp_all add: payload_bytes_def)
  let ?send = "\<lambda>tm. roce_send (\<lambda>_ _. 0) (\<lambda>_. True) zero_time zero_time (replicate MESG_SIZE 0) tm [1, 2, 3]
     (Some Default_metadata) (new_roce_transmitter 0 12288)"
  have arg: "argument_ok Default_metadata" by (simp add: argument_ok_def)
  have "?send ?tm \<noteq> None \<longleftrightarrow> payload_bytes ?tm \<noteq> 0"
    using arg 0 by (intro roce_send_returns) simp_all
  moreover have "?send sample_transmission \<noteq> None \<longleftrightarrow> payload_bytes sample_transmission \<noteq> 0"
    using arg sample_transmission_values by (intro roce_send_returns) simp_all
  moreover have "payload_bytes sample_transmission \<noteq> 0" by (simp add: sample_transmission_values(1))
  ultimately show ?thesis using 0(1) by blast
qed

subsection \<open>The pages in turn\<close>

text \<open>One call of \<open>send\<close> after the other, with nothing written to the registers in between.\<close>

definition send_next ::
  "crc_function \<Rightarrow> (nat \<Rightarrow> bool) \<Rightarrow> timespec \<Rightarrow> bytes \<Rightarrow> registers \<Rightarrow> roce_data_plane \<Rightarrow> bytes \<Rightarrow> roce_data_plane" where
  "send_next crc32 sendto now mesg regs dp content =
     snd (dp_send crc32 sendto now now mesg regs content (Some Default_metadata) dp)"

lemma dp_send_addresses:
  assumes "dp_send crc32 sendto fs mt mesg regs content arg dp = (r, dp')"
  shows "dp_vp_address dp' = dp_vp_address dp \<and> dp_hif_address dp' = dp_hif_address dp \<and> dp_sif_address dp' = dp_sif_address dp"
  using assms
  by (auto simp: dp_send_def update_metadata_def hbind_def hthen_def hgets_def hmodify_def hthrow_if_def hret_def Let_def
      split: if_splits option.splits prod.splits)

text \<open>The registers of a channel that the host has configured, and a data plane that has them.\<close>

definition plane_configured ::
  "registers \<Rightarrow> (u32 \<Rightarrow> u32) \<Rightarrow> data_channel \<Rightarrow> u64 \<Rightarrow> u64 \<Rightarrow> u64 \<Rightarrow> u32 \<Rightarrow> u32 \<Rightarrow> destination \<Rightarrow> bool" where
  "plane_configured regs R dc frame_memory frame_size page_size pages payload_size dest \<longleftrightarrow>
     rm_read regs = roce_registers R dc frame_memory frame_size page_size pages payload_size dest \<and>
     roce_request_ok frame_memory frame_size page_size pages \<and>
     compute_payload_size 74 (channel_mtu dc) = Inr payload_size \<and> unat payload_size \<le> 10180 \<and>
     to_port dest \<noteq> 0 \<and> to_port dest \<le> 0xFFFF \<and> to_ip dest \<noteq> 0"

lemma send_next_configured:
  assumes at: "plane_addresses dc i k m" "dp_vp_address dp = dc_vp_address dc" "dp_hif_address dp = dc_hif_address dc"
    and conf: "plane_configured regs R dc frame_memory frame_size page_size pages payload_size dest"
    and mesg: "length mesg = MESG_SIZE"
  shows "dp_page (send_next crc32 sendto now mesg regs dp content) = next_page 0 (pages - 1) (dp_page dp)"
    "t_frame_number (dp_transmitter (send_next crc32 sendto now mesg regs dp content)) = t_frame_number (dp_transmitter dp) + 1"
    "dp_vp_address (send_next crc32 sendto now mesg regs dp content) = dc_vp_address dc"
    "dp_hif_address (send_next crc32 sendto now mesg regs dp content) = dc_hif_address dc"
proof -
  have arg: "argument_ok Default_metadata" by (simp add: argument_ok_def)
  obtain r dp' where dp': "dp_send crc32 sendto now now mesg regs content (Some Default_metadata) dp = (r, dp')"
      "dp_page dp' = next_page 0 (pages - 1) (dp_page dp)"
      "t_frame_number (dp_transmitter dp') = t_frame_number (dp_transmitter dp) + 1"
    using dp_send_configured(3) [OF at(1) _ _ _ _ _ _ at(2,3) _ mesg arg, of frame_memory frame_size page_size pages
        payload_size dest regs R crc32 sendto now now content] conf
    by (auto simp: plane_configured_def configured_metadata_def)
  with dp_send_addresses [OF dp'(1)] at(2,3)
  show "dp_page (send_next crc32 sendto now mesg regs dp content) = next_page 0 (pages - 1) (dp_page dp)"
    "t_frame_number (dp_transmitter (send_next crc32 sendto now mesg regs dp content)) = t_frame_number (dp_transmitter dp) + 1"
    "dp_vp_address (send_next crc32 sendto now mesg regs dp content) = dc_vp_address dc"
    "dp_hif_address (send_next crc32 sendto now mesg regs dp content) = dc_hif_address dc"
    by (simp_all add: send_next_def)
qed

text \<open>
  C26: The frames of a configured channel go through its pages in turn: after k frames the data plane is on page k modulo
  the number of pages, and its frame number has gone up by k, whatever the contents and whichever packets the
  socket took.
\<close>

theorem pages_in_turn:
  assumes "plane_addresses dc i k m" "dp_vp_address dp = dc_vp_address dc" "dp_hif_address dp = dc_hif_address dc"
    and conf: "plane_configured regs R dc frame_memory frame_size page_size pages payload_size dest"
    and "length mesg = MESG_SIZE" and "dp_page dp = 0"
  shows "unat (dp_page (foldl (send_next crc32 sendto now mesg regs) dp contents)) = length contents mod unat pages \<and>
    t_frame_number (dp_transmitter (foldl (send_next crc32 sendto now mesg regs) dp contents)) =
      t_frame_number (dp_transmitter dp) + of_nat (length contents)"
proof -
  let ?after = "\<lambda>cs. foldl (send_next crc32 sendto now mesg regs) dp cs"
  have "dp_vp_address (?after contents) = dc_vp_address dc \<and> dp_hif_address (?after contents) = dc_hif_address dc \<and>
    dp_page (?after contents) = (next_page 0 (pages - 1) ^^ length contents) 0 \<and>
    t_frame_number (dp_transmitter (?after contents)) = t_frame_number (dp_transmitter dp) + of_nat (length contents)"
  proof (induction contents rule: rev_induct)
    case Nil
    then show ?case using assms by simp
  next
    case (snoc c cs)
    then show ?case
      using send_next_configured [OF assms(1) _ _ conf assms(5), of "?after cs" crc32 sendto now c] by simp
  qed
  moreover have "1 \<le> pages" "pages \<le> 4096"
    using roce_request(3,4) conf by (auto simp: plane_configured_def)
  moreover from this(1) have "0 < pages" by (metis not_le word_not_simps(1) word_le_0_iff zero_neq_one word_neq_0_conv)
  ultimately show ?thesis using next_page_funpow [of pages "length contents"] by simp
qed

theorem pages_in_turn_witness:
  "unat (dp_page (foldl (send_next (\<lambda>_ _. 0) (\<lambda>_. True) zero_time (replicate MESG_SIZE 0)
     (Some \<circ> roce_registers (\<lambda>_. 0) sample_channel 0x10000 1000 2048 2 1408 sample_destination))
     (new_roce_data_plane 1 0xC0A80002 12288 0 0) [[1], [2], [3]])) = 1"
proof -
  let ?regs = "Some \<circ> roce_registers (\<lambda>_. 0) sample_channel 0x10000 1000 2048 2 1408 sample_destination"
  have "plane_configured ?regs (\<lambda>_. 0) sample_channel 0x10000 1000 2048 2 1408 sample_destination"
    by (simp add: plane_configured_def rm_read_def fun_eq_iff sample_request sample_payload)
      (simp add: sample_destination_def)
  from pages_in_turn [OF sample_addresses this, where mesg = "replicate MESG_SIZE 0" and contents = "[[1], [2], [3]]"]
  show ?thesis by (simp add: new_roce_data_plane_def)
qed

subsection \<open>A channel that is taken down\<close>

text \<open>
  C24: Once the host has taken a channel down, the packetizer of the board is off. On every board but a Leopard Eagle nothing
  goes out, whatever its data plane is asked to send: nothing is sent when the register of the source port holds a port, and
  the data plane raises its error when it holds more than 16 bits. On a Leopard Eagle the host leaves the mask and the
  channel's registers as they are: the packetizer's mode is the only register that changes, and the data plane sends what
  it would have sent before.
\<close>

theorem unconfigured_silent:
  assumes board: "board_connected R (Suc n) h s"
    and at: "plane_addresses dc i k m" "dp_vp_address dp = dc_vp_address dc" "dp_hif_address dp = dc_hif_address dc"
      "dp_sif_address dp = dc_sif_address dc"
  shows "\<exists>s'. unconfigure dc s = (Inr (), s') \<and> \<not> packetizer_enabled (e_regs (device (link s'))) dp \<and>
    (if dc_fpga_uuid dc = LEOPARD_EAGLE_UUID
     then rm_read (e_regs (device (link s'))) = R(dc_sif_address dc + PACKETIZER_MODE := 0) \<and>
       (\<forall>content arg. dp_send crc32 sendto fs mt mesg (e_regs (device (link s'))) content arg dp =
          dp_send crc32 sendto fs mt mesg (e_regs (device (link s))) content arg dp)
     else \<forall>content arg. \<exists>dp'. dp_send crc32 sendto fs mt mesg (e_regs (device (link s'))) content arg dp =
         (if R (dc_hif_address dc + DP_PACKET_UDP_PORT) \<le> 0xFFFF then Inr (Some (0, []))
          else Inl (Runtime_error ''src_port is too large for uint16_t''), dp') \<and>
       dp_transmitter dp' = dp_transmitter dp)"
proof -
  obtain s' n' where s': "unconfigure dc s = (Inr (), s')" "board_connected (unconfigured_registers R dc) n' h s'"
    using runsD [OF emu.unconfigure_rule [OF emu_data_plane_memory [OF at(1)]] board [unfolded board_connected_iff]]
    unfolding board_connected_iff by (metis old.unit.exhaust)
  have regs: "rm_read (e_regs (device (link s'))) = unconfigured_registers R dc" by (rule connected_registers [OF s'(2)])
  have off: "\<not> packetizer_enabled (e_regs (device (link s'))) dp"
    using packetizer_enabled_mode [of "e_regs (device (link s'))" dp Null_packetizer]
    by (simp add: regs at(4) unconfigured_mode)
  show ?thesis
  proof (cases "dc_fpga_uuid dc = LEOPARD_EAGLE_UUID")
    case True
    have "rm_read (e_regs (device (link s'))) =
        (rm_read (e_regs (device (link s))))(dc_sif_address dc + PACKETIZER_MODE := packetizer_mode Null_packetizer)"
      by (simp add: regs unconfigured_leopard [OF True] connected_registers [OF board])
    from dp_send_packetizer_mode [OF at(1-3) this] this s'(1) off True show ?thesis
      by (simp add: connected_registers [OF board] packetizer_mode_def)
  next
    case False
    with s'(1) off dp_send_unconfigured [OF at(1) False at(2,3) regs] show ?thesis by (simp only: if_False) blast
  qed
qed

theorem unconfigured_silent_witness:
  "(\<exists>s'. unconfigure sample_channel (fresh_board initial_host) = (Inr (), s') \<and>
     \<not> packetizer_enabled (e_regs (device (link s'))) (new_roce_data_plane 1 0xC0A80002 12288 0 0) \<and>
     (\<exists>dp'. dp_send (\<lambda>_ _. 0) (\<lambda>_. True) zero_time zero_time [] (e_regs (device (link s'))) [1, 2, 3]
        (Some Default_metadata) (new_roce_data_plane 1 0xC0A80002 12288 0 0) = (Inr (Some (0, [])), dp'))) \<and>
   (\<exists>s'. unconfigure (sample_channel\<lparr>dc_fpga_uuid := LEOPARD_EAGLE_UUID\<rparr>) (fresh_board initial_host) = (Inr (), s') \<and>
     \<not> packetizer_enabled (e_regs (device (link s'))) (new_roce_data_plane 1 0xC0A80002 12288 0 0))"
proof -
  let ?dp = "new_roce_data_plane 1 0xC0A80002 12288 0 0"
  have board: "board_connected initial_registers (Suc 0) initial_host (fresh_board initial_host)"
    by (rule initial_connected) simp
  have sif: "dp_sif_address ?dp = dc_sif_address sample_channel"
    by (simp add: new_roce_data_plane_def sample_channel_def)
  have other: "dc_fpga_uuid sample_channel \<noteq> LEOPARD_EAGLE_UUID"
    "initial_registers (dc_hif_address sample_channel + DP_PACKET_UDP_PORT) \<le> 0xFFFF"
    by (simp_all add: sample_channel_def LEOPARD_EAGLE_UUID_def)
  have leopard: "plane_addresses (sample_channel\<lparr>dc_fpga_uuid := LEOPARD_EAGLE_UUID\<rparr>) 0 0 0"
    using sample_addresses(1) by (simp add: plane_addresses_def)
  show ?thesis
    using unconfigured_silent [OF board sample_addresses sif, of "\<lambda>_ _. 0" "\<lambda>_. True" zero_time zero_time "[]"] other
      unconfigured_silent [OF board leopard, of ?dp] sample_addresses(2,3) sif
    by simp blast
qed

subsection \<open>The receiver\<close>

text \<open>
  C19: In every state that the receiver and the application reach, each buffer of the receiver is either being filled, free
  or ready, and only one of these, and no round of the receiving loop takes a buffer from an empty queue.
\<close>

theorem receiver_buffers:
  assumes "rx_config_ok cfg" and "rx_reachable cfg st"
  shows "distinct (rx_receiving st # rx_available st @ rx_ready st) \<and>
    set (rx_receiving st # rx_available st @ rx_ready st) = {..<rx_buffer_count cfg} \<and>
    receive_step cfg call st \<noteq> Undefined"
  using rx_reachable_ok [OF assms(2,1)] receive_step_ok [of cfg st call] assms(1)
  by (auto simp: rx_ok_def)

lemma sample_receiver_reachable: "rx_reachable sample_config sample_receiver"
  unfolding sample_receiver_def by (rule rx_start) (simp add: memory_ok_def)

theorem receiver_buffers_witness:
  "rx_receiving sample_receiver \<notin> set (rx_ready sample_receiver) \<and>
   receive_step sample_config \<lparr>rc_bytes = [0x2A], rc_try_again = False, rc_now = Some zero_time\<rparr> sample_receiver \<noteq> Undefined"
  using receiver_buffers [OF sample_receiver_awaits(1) sample_receiver_reachable,
      of "\<lparr>rc_bytes = [0x2A], rc_try_again = False, rc_now = Some zero_time\<rparr>"]
  by simp

text \<open>
  As long as the application has not asked for a frame, handing over a frame leaves that one as the only one in the
  queue: older frames are discarded.
\<close>

theorem newest_frame_kept:
  assumes "rx_reachable cfg st" and "\<not> rx_consumer_ready st" and "hand_over cfg st = Running st'"
  shows "rx_ready st' = [rx_receiving st]"
proof -
  have "length (rx_ready st) \<le> 1" using rx_reachable_unattended [OF assms(1)] assms(2) by (simp add: unattended_ok_def)
  then have "kept st = []" using assms(2) by (cases "rx_ready st") (simp_all add: kept_def)
  moreover obtain st1 where "rx_signal st = Some st1" "rx_ready st' = rx_ready st1"
    using assms(3) by (auto simp: hand_over_def on_receiving_def split: option.splits)
  ultimately show ?thesis using rx_signal_kept [of st st1] by simp
qed

theorem newest_frame_kept_witness:
  "\<exists>st'. hand_over sample_config sample_receiver = Running st' \<and> rx_ready st' = [0]"
proof -
  obtain st' where "hand_over sample_config sample_receiver = Running st'"
    using hand_over_frame [of sample_config sample_receiver] sample_receiver_awaits(1,2)
    by (auto simp: awaiting_frame_def)
  moreover have "rx_receiving sample_receiver = 0" "\<not> rx_consumer_ready sample_receiver"
    by (simp_all add: sample_receiver_def start_receiver_def)
  ultimately show ?thesis using newest_frame_kept [OF sample_receiver_reachable] by metis
qed

text \<open>
  C39: When no packet is lost, the receiver counts no loss, except where the board's sequence numbers wrap: they have 20 bits
  and the receiver counts in 24, so the wrap is counted as the loss of 0xF00000 packets.
\<close>

theorem wrap_counted_as_loss:
  assumes "\<not> rx_first st" and "unat (rx_last_psn st) < 2 ^ 20"
  shows "rx_packets_dropped (count_drops (next_psn (rx_last_psn st)) st) =
    rx_packets_dropped st + (if rx_last_psn st = 0xFFFFF then 0xF00000 else 0)"
proof (cases "rx_last_psn st = 0xFFFFF")
  case True
  then have "unat (next_psn (rx_last_psn st)) = (unat (rx_last_psn st) + 1 + 0xF00000) mod 2 ^ 24"
    by (simp add: next_psn_unat)
  from count_drops_jump [OF assms(1) _ _ this] assms(2) True show ?thesis by simp
next
  case False
  then have "unat (rx_last_psn st) \<noteq> unat (0xFFFFF :: u32)" by (simp add: word_unat_eq_iff)
  then have "unat (rx_last_psn st) + 1 < 2 ^ 20" using assms(2) by simp
  then have "unat (next_psn (rx_last_psn st)) = (unat (rx_last_psn st) + 1 + 0) mod 2 ^ 24"
    by (simp add: next_psn_unat)
  from count_drops_jump [OF assms(1) _ _ this] assms(2) False show ?thesis by simp
qed

theorem wrap_counted_as_loss_witness:
  "rx_packets_dropped (count_drops (next_psn 0xFFFFF) (sample_receiver\<lparr>rx_first := False, rx_last_psn := 0xFFFFF\<rparr>)) = 0xF00000"
  using wrap_counted_as_loss [of "sample_receiver\<lparr>rx_first := False, rx_last_psn := 0xFFFFF\<rparr>"] sample_receiver_awaits(5)
  by simp

subsection \<open>Sizes and serial numbers\<close>

text \<open>
  The payload of a packet is the greatest multiple of 128 bytes that fits with the headers into the MTU; there is none,
  and an error, exactly when not even 129 bytes would fit.
\<close>

theorem payload_fits_mtu:
  assumes "unat overhead + 128 < 2 ^ 32"
  shows "(case compute_payload_size overhead mtu of
      Inl e \<Rightarrow> unat mtu \<le> unat overhead + 128
    | Inr p \<Rightarrow> 128 dvd unat p \<and> 128 \<le> unat p \<and> unat overhead + unat p \<le> unat mtu \<and>
        unat mtu < unat overhead + unat p + 128)"
proof (cases "unat overhead + 128 < unat mtu")
  case True
  from compute_payload_size_ok [OF True] obtain p where p: "compute_payload_size overhead mtu = Inr p"
    "unat p = (unat mtu - unat overhead) div 128 * 128" by blast
  let ?rest = "unat mtu - unat overhead"
  have "1 \<le> ?rest div 128" using True by (simp add: le_div_geq)
  then have "128 \<le> unat p" unfolding p(2) by simp
  moreover have "unat p \<le> ?rest" "?rest < unat p + 128"
    unfolding p(2) using div_times_less_eq_dividend [of ?rest 128] dividend_less_div_times [of 128 ?rest] by simp_all
  with True have "unat overhead + unat p \<le> unat mtu" "unat mtu < unat overhead + unat p + 128" by linarith+
  moreover have "128 dvd unat p" unfolding p(2) by simp
  ultimately show ?thesis using p(1) by simp
next
  case False
  then show ?thesis using compute_payload_size_small [of mtu overhead] assms by simp
qed

theorem payload_fits_mtu_witness:
  "(case compute_payload_size 74 1500 of Inl e \<Rightarrow> False | Inr p \<Rightarrow> 128 dvd unat p \<and> unat p \<le> 1426) \<and>
   unat (74 :: u32) + 128 < 2 ^ 32"
  using payload_fits_mtu [of 74 1500] by (auto split: sum.splits)

text \<open>
  Two enumerations yield the same board object exactly when their metadata have the same serial number.
\<close>

theorem one_board_per_serial_number:
  assumes "registry_ok g" and "hololink_enumerated md" "hololink_enumerated md'"
    and "from_enumeration_metadata md g = (Inr r, g')" and "from_enumeration_metadata md' g' = (Inr r', g'')"
  shows "r = r' \<longleftrightarrow> get_string md ''serial_number'' = get_string md' ''serial_number''"
proof
  assume "get_string md ''serial_number'' = get_string md' ''serial_number''"
  with from_enumeration_metadata_stable [OF assms(2) _ assms(4), of md'] assms(5) show "r = r'" by simp
next
  obtain serial serial' where serials: "get_string md ''serial_number'' = Some serial" "get_string md' ''serial_number'' = Some serial'"
    using assms(2,3) by (auto simp: hololink_enumerated_def)
  have ok: "registry_ok g'" by (rule from_enumeration_metadata_ok [OF assms(1,4)])
  have ok': "registry_ok g''" by (rule from_enumeration_metadata_ok [OF ok assms(5)])
  have stored: "by_serial_number g2 s = Some q"
    if "hololink_enumerated m" "get_string m ''serial_number'' = Some s" "from_enumeration_metadata m g1 = (Inr q, g2)" for m s g1 g2 q
    using that from_enumeration_metadata_new [OF that(1,2), of g1] from_enumeration_metadata_known [OF that(2), of g1]
    by (cases "by_serial_number g1 s") auto
  assume "r = r'"
  then have "by_serial_number g'' serial' = Some r" using stored [OF assms(3) serials(2) assms(5)] by simp
  moreover have "by_serial_number g'' serial = Some r"
  proof -
    have "by_serial_number g' serial = Some r" by (rule stored [OF assms(2) serials(1) assms(4)])
    then show ?thesis
      using assms(5) from_enumeration_metadata_new [OF assms(3) serials(2), of g'] from_enumeration_metadata_known [OF serials(2), of g']
      by (cases "by_serial_number g' serial'") auto
  qed
  ultimately have "serial = serial'" using ok' unfolding registry_ok_def inj_on_def by (metis domI)
  then show "get_string md ''serial_number'' = get_string md' ''serial_number''" using serials by simp
qed

definition sample_metadata :: "string \<Rightarrow> string \<Rightarrow> metadata" where
  "sample_metadata ip serial =
     [''peer_ip'' \<mapsto> Meta_string ip, ''serial_number'' \<mapsto> Meta_string serial, ''control_port'' \<mapsto> Meta_int 8192]"

theorem one_board_per_serial_number_witness:
  "\<exists>g r g' r' g''. from_enumeration_metadata (sample_metadata ''192.168.0.2'' ''a'') g = (Inr r, g') \<and>
    from_enumeration_metadata (sample_metadata ''192.168.0.3'' ''b'') g' = (Inr r', g'') \<and> r \<noteq> r'"
proof -
  let ?g = "\<lparr>by_serial_number = (\<lambda>_. None), boards = []\<rparr>"
  let ?m = "sample_metadata ''192.168.0.2'' ''a''" and ?m' = "sample_metadata ''192.168.0.3'' ''b''"
  have m: "hololink_enumerated ?m" "hololink_enumerated ?m'" "get_string ?m ''serial_number'' = Some ''a''"
      "get_string ?m' ''serial_number'' = Some ''b''"
    by (simp_all add: sample_metadata_def hololink_enumerated_def)
  obtain g' where g': "from_enumeration_metadata ?m ?g = (Inr 0, g')" "by_serial_number g' ''b'' = None"
    using from_enumeration_metadata_new [OF m(1,3), of ?g] by auto
  obtain r' g'' where g'': "from_enumeration_metadata ?m' g' = (Inr r', g'')"
    using from_enumeration_metadata_new [OF m(2,4) g'(2)] by blast
  have "registry_ok ?g" by (simp add: registry_ok_def)
  from one_board_per_serial_number [OF this m(1,2) g'(1) g''] m(3,4) have "0 \<noteq> r'" by simp
  with g'(1) g'' show ?thesis by blast
qed

end
