(* ===== verification/Coe_Packets.thy ===== *)
theory Coe_Packets
  imports Roce_Packets
begin

text \<open>
  The packets of the emulated data plane for Camera over Ethernet (IEEE 1722B): the headers of
  \<open>COETransmitter\<close> (src/src/hololink/emulation/src/linux/coe_transmitter.cpp and .hpp) and the
  serializing of a packet, which is a whole Ethernet frame. The metadata block is that of
  \<open>Roce_Packets\<close>.
\<close>

subsection \<open>Headers\<close>

record mac_header =
  mac_dest :: bytes
  mac_src :: bytes
  ethertype :: u16

record avtpdu_header =
  avtpdu_subtype :: u8

record ntscf_header =
  ntscf_avtpdu :: avtpdu_header
  version_ntscf_len_high :: u8
  ntscf_len_low :: u8
  ntscf_sequence_num :: u8
  stream_id :: bytes

record acf_common_header =
  acf_metadata :: u16

record acf_user0c_header =
  acf_common :: acf_common_header
  acf_reserved :: u8
  acf_sensor_info :: u8
  acf_timestamp_sec :: u32
  acf_timestamp_nsec :: u32
  acf_psn :: u8
  acf_flags :: u8
  acf_channel :: u8
  acf_frame_flags :: u8
  acf_address :: u32

record coe_headers =
  mac_h :: mac_header
  ntscf_h :: ntscf_header
  acf_h :: acf_user0c_header

definition ETHERTYPE_AVTP :: u16 where "ETHERTYPE_AVTP = 0x22F0"
definition SUBTYPE_AVTP_NTSCF :: u8 where "SUBTYPE_AVTP_NTSCF = 0x82"
definition COE_ACF_MSG_TYPE :: u16 where "COE_ACF_MSG_TYPE = 0x06"
definition ACF_MSG_TYPE_SHIFT :: nat where "ACF_MSG_TYPE_SHIFT = 9"
definition STREAM_ID :: bytes where "STREAM_ID = [0x00, 0x00, 0x00, 0x00, 0xAA, 0xAA, 0xAA, 0xAA]"
definition COE_VERSION_NTSCF_LEN_HIGH :: u8 where "COE_VERSION_NTSCF_LEN_HIGH = 0x80"

definition DEFAULT_COE_HEADERS :: coe_headers where
  "DEFAULT_COE_HEADERS =
     \<lparr>mac_h = \<lparr>mac_dest = replicate 6 0, mac_src = replicate 6 0, ethertype = ETHERTYPE_AVTP\<rparr>,
      ntscf_h = \<lparr>ntscf_avtpdu = \<lparr>avtpdu_subtype = SUBTYPE_AVTP_NTSCF\<rparr>,
        version_ntscf_len_high = COE_VERSION_NTSCF_LEN_HIGH, ntscf_len_low = 0, ntscf_sequence_num = 0,
        stream_id = STREAM_ID\<rparr>,
      acf_h = \<lparr>acf_common = \<lparr>acf_metadata = push_bit ACF_MSG_TYPE_SHIFT COE_ACF_MSG_TYPE\<rparr>, acf_reserved = 0x20,
        acf_sensor_info = 0, acf_timestamp_sec = 0, acf_timestamp_nsec = 0, acf_psn = 0, acf_flags = 0,
        acf_channel = 0, acf_frame_flags = 0, acf_address = 0\<rparr>\<rparr>"

abbreviation (input) "MAC_HEADER_SIZE \<equiv> 14 :: nat"
abbreviation (input) "AVTPDU_HEADER_SIZE \<equiv> 1 :: nat"
abbreviation (input) "NTSCF_HEADER_SIZE \<equiv> 12 :: nat"
abbreviation (input) "ACF_USER0C_HEADER_SIZE \<equiv> 20 :: nat"
abbreviation (input) "COE_HEADER_SIZE \<equiv> 46 :: nat"

text \<open>\<open>COE_HEADER_SIZE\<close> and 511 quadlets\<close>

definition MAX_MESSAGE_SIZE :: nat where "MAX_MESSAGE_SIZE = COE_HEADER_SIZE + 0x1FF * 4"

definition serialize_mac_header :: "serializer \<Rightarrow> mac_header \<Rightarrow> nat \<times> serializer" where
  "serialize_mac_header s h = serialized s
     (Option.bind (append_buffer s (mac_dest h)) (\<lambda>s.
      Option.bind (append_buffer s (mac_src h)) (\<lambda>s.
      append_uint16_be s (ethertype h))))"

definition serialize_avtpdu_header :: "serializer \<Rightarrow> avtpdu_header \<Rightarrow> nat \<times> serializer" where
  "serialize_avtpdu_header s h =
     (case append_uint8 s (avtpdu_subtype h) of None \<Rightarrow> (0, s) | Some s' \<Rightarrow> (1, s'))"

definition serialize_ntscf_header :: "serializer \<Rightarrow> ntscf_header \<Rightarrow> nat \<times> serializer" where
  "serialize_ntscf_header s h = serialized s
     (let (n, s) = serialize_avtpdu_header s (ntscf_avtpdu h) in
      if n \<noteq> AVTPDU_HEADER_SIZE then None else
      Option.bind (append_uint8 s (version_ntscf_len_high h)) (\<lambda>s.
      Option.bind (append_uint8 s (ntscf_len_low h)) (\<lambda>s.
      Option.bind (append_uint8 s (ntscf_sequence_num h)) (\<lambda>s.
      append_buffer s (stream_id h)))))"

definition serialize_acf_common_header :: "serializer \<Rightarrow> acf_common_header \<Rightarrow> nat \<times> serializer" where
  "serialize_acf_common_header s h =
     (case append_uint16_be s (acf_metadata h) of None \<Rightarrow> (0, s) | Some s' \<Rightarrow> (2, s'))"

definition serialize_acf_user0c_header :: "serializer \<Rightarrow> acf_user0c_header \<Rightarrow> nat \<times> serializer" where
  "serialize_acf_user0c_header s h = serialized s
     (let (n, s) = serialize_acf_common_header s (acf_common h) in
      if n = 0 then None else
      Option.bind (append_uint8 s (acf_reserved h)) (\<lambda>s.
      Option.bind (append_uint8 s (acf_sensor_info h)) (\<lambda>s.
      Option.bind (append_uint32_be s (acf_timestamp_sec h)) (\<lambda>s.
      Option.bind (append_uint32_be s (acf_timestamp_nsec h)) (\<lambda>s.
      Option.bind (append_uint8 s (acf_psn h)) (\<lambda>s.
      Option.bind (append_uint8 s (acf_flags h)) (\<lambda>s.
      Option.bind (append_uint8 s (acf_channel h)) (\<lambda>s.
      Option.bind (append_uint8 s (acf_frame_flags h)) (\<lambda>s.
      append_uint32_be s (acf_address h))))))))))"

text \<open>Their bytes on the wire.\<close>

definition mac_header_bytes :: "mac_header \<Rightarrow> bytes" where
  "mac_header_bytes h = mac_dest h @ mac_src h @ be_bytes 2 (ethertype h)"

definition ntscf_header_bytes :: "ntscf_header \<Rightarrow> bytes" where
  "ntscf_header_bytes h =
     be_bytes 1 (avtpdu_subtype (ntscf_avtpdu h)) @ be_bytes 1 (version_ntscf_len_high h) @
     be_bytes 1 (ntscf_len_low h) @ be_bytes 1 (ntscf_sequence_num h) @ stream_id h"

definition acf_header_bytes :: "acf_user0c_header \<Rightarrow> bytes" where
  "acf_header_bytes h =
     be_bytes 2 (acf_metadata (acf_common h)) @ be_bytes 1 (acf_reserved h) @ be_bytes 1 (acf_sensor_info h) @
     be_bytes 4 (acf_timestamp_sec h) @ be_bytes 4 (acf_timestamp_nsec h) @ be_bytes 1 (acf_psn h) @
     be_bytes 1 (acf_flags h) @ be_bytes 1 (acf_channel h) @ be_bytes 1 (acf_frame_flags h) @ be_bytes 4 (acf_address h)"

definition coe_headers_ok :: "coe_headers \<Rightarrow> bool" where
  "coe_headers_ok h \<longleftrightarrow>
     length (mac_dest (mac_h h)) = 6 \<and> length (mac_src (mac_h h)) = 6 \<and> length (stream_id (ntscf_h h)) = 8"

definition coe_header_bytes :: "coe_headers \<Rightarrow> bytes" where
  "coe_header_bytes h = mac_header_bytes (mac_h h) @ ntscf_header_bytes (ntscf_h h) @ acf_header_bytes (acf_h h)"

lemma length_acf_header_bytes [simp]: "length (acf_header_bytes h) = 20"
  by (simp add: acf_header_bytes_def)

lemma length_coe_header_bytes [simp]:
  assumes "coe_headers_ok h"
  shows "length (mac_header_bytes (mac_h h)) = 14" "length (ntscf_header_bytes (ntscf_h h)) = 12"
    "length (coe_header_bytes h) = 46"
  using assms by (simp_all add: coe_headers_ok_def coe_header_bytes_def mac_header_bytes_def ntscf_header_bytes_def)

lemma serialize_mac_header_eq:
  assumes "s_ok s" and "length (mac_dest h) = 6" "length (mac_src h) = 6"
  shows "serialize_mac_header s h = serialized s (append_bytes s (mac_header_bytes h))"
  unfolding serialize_mac_header_def mac_header_bytes_def appends using assms
  by (intro arg_cong2 [where f = serialized] refl bind_append_bytes; simp)

lemma serialize_ntscf_header_eq:
  assumes "s_ok s" and "length (stream_id h) = 8"
  shows "serialize_ntscf_header s h = serialized s (append_bytes s (ntscf_header_bytes h))"
proof -
  have "serialize_ntscf_header s h = serialized s
      (Option.bind (append_bytes s (be_bytes 1 (avtpdu_subtype (ntscf_avtpdu h)))) (\<lambda>s.
       Option.bind (append_bytes s (be_bytes 1 (version_ntscf_len_high h))) (\<lambda>s.
       Option.bind (append_bytes s (be_bytes 1 (ntscf_len_low h))) (\<lambda>s.
       Option.bind (append_bytes s (be_bytes 1 (ntscf_sequence_num h))) (\<lambda>s.
       append_bytes s (stream_id h))))))"
    by (simp add: serialize_ntscf_header_def serialize_avtpdu_header_def appends split: option.split)
  also have "\<dots> = serialized s (append_bytes s (ntscf_header_bytes h))"
    unfolding ntscf_header_bytes_def using assms
    by (intro arg_cong2 [where f = serialized] refl bind_append_bytes; simp)
  finally show ?thesis .
qed

lemma serialize_acf_user0c_header_eq:
  assumes "s_ok s"
  shows "serialize_acf_user0c_header s h = serialized s (append_bytes s (acf_header_bytes h))"
proof -
  have "serialize_acf_user0c_header s h = serialized s
      (Option.bind (append_bytes s (be_bytes 2 (acf_metadata (acf_common h)))) (\<lambda>s.
       Option.bind (append_bytes s (be_bytes 1 (acf_reserved h))) (\<lambda>s.
       Option.bind (append_bytes s (be_bytes 1 (acf_sensor_info h))) (\<lambda>s.
       Option.bind (append_bytes s (be_bytes 4 (acf_timestamp_sec h))) (\<lambda>s.
       Option.bind (append_bytes s (be_bytes 4 (acf_timestamp_nsec h))) (\<lambda>s.
       Option.bind (append_bytes s (be_bytes 1 (acf_psn h))) (\<lambda>s.
       Option.bind (append_bytes s (be_bytes 1 (acf_flags h))) (\<lambda>s.
       Option.bind (append_bytes s (be_bytes 1 (acf_channel h))) (\<lambda>s.
       Option.bind (append_bytes s (be_bytes 1 (acf_frame_flags h))) (\<lambda>s.
       append_bytes s (be_bytes 4 (acf_address h))))))))))))"
    by (simp add: serialize_acf_user0c_header_def serialize_acf_common_header_def appends split: option.split)
  also have "\<dots> = serialized s (append_bytes s (acf_header_bytes h))"
    unfolding acf_header_bytes_def using assms
    by (intro arg_cong2 [where f = serialized] refl bind_append_bytes; simp)
  finally show ?thesis .
qed

subsection \<open>Packets\<close>

text \<open>
  \<open>serialize_packet\<close>: the size of the packet (0 on failure) and the buffer. Without \<open>content\<close>
  (a null pointer) the payload is what is in the buffer. The sizes do not wrap: a content is in
  memory.
\<close>

definition serialize_coe_packet :: "coe_headers \<Rightarrow> bytes \<Rightarrow> nat \<Rightarrow> bytes option \<Rightarrow> nat \<Rightarrow> nat \<times> bytes" where
  "serialize_coe_packet headers buffer buffer_size content content_size =
     (let data_loc = MAC_HEADER_SIZE + NTSCF_HEADER_SIZE + ACF_USER0C_HEADER_SIZE in
      if buffer_size < content_size \<or> buffer_size - content_size < data_loc then (0, buffer) else
      let (mac_n, s) = serialize_mac_header (new_serializer buffer buffer_size) (mac_h headers) in
      if MAC_HEADER_SIZE \<noteq> mac_n then (0, s_buffer s) else
      let (ntscf_n, s) = serialize_ntscf_header s (ntscf_h headers) in
      if NTSCF_HEADER_SIZE \<noteq> ntscf_n then (0, s_buffer s) else
      let (acf_n, s) = serialize_acf_user0c_header s (acf_h headers) in
      if ACF_USER0C_HEADER_SIZE \<noteq> acf_n then (0, s_buffer s) else
      (data_loc + content_size,
       case content of
         None \<Rightarrow> s_buffer s
       | Some bs \<Rightarrow> if content_size = 0 then s_buffer s else put_bytes data_loc (take content_size bs) (s_buffer s)))"

lemma serialize_coe_packet_bytes:
  assumes size: "length buffer = buffer_size" "buffer_size < 2 ^ 32" and fits: "46 + n \<le> buffer_size"
    and h: "coe_headers_ok h"
    and payload: "case content of None \<Rightarrow> payload = take n (drop 46 buffer) | Some bs \<Rightarrow> payload = take n bs \<and> n \<le> length bs"
  shows "serialize_coe_packet h buffer buffer_size content n =
    (46 + n, coe_header_bytes h @ payload @ drop (46 + n) buffer)"
proof -
  let ?mac = "mac_header_bytes (mac_h h)" and ?ntscf = "ntscf_header_bytes (ntscf_h h)" and ?acf = "acf_header_bytes (acf_h h)"
  note len = length_coe_header_bytes [OF h]
  have ok: "length (mac_dest (mac_h h)) = 6" "length (mac_src (mac_h h)) = 6" "length (stream_id (ntscf_h h)) = 8"
    using h by (simp_all add: coe_headers_ok_def)
  have headers: "put_bytes 26 ?acf (put_bytes 14 ?ntscf (put_bytes 0 ?mac buffer)) = ?mac @ ?ntscf @ ?acf @ drop 46 buffer"
    using fits size(1) len by (simp add: put_bytes_split)
  have rest: "drop 46 buffer = take n (drop 46 buffer) @ drop (n + 46) buffer"
    by (metis append_take_drop_id drop_drop)
  have content: "(case content of None \<Rightarrow> ?mac @ ?ntscf @ ?acf @ drop 46 buffer
      | Some bs \<Rightarrow> if n = 0 then ?mac @ ?ntscf @ ?acf @ drop 46 buffer
          else put_bytes 46 (take n bs) (?mac @ ?ntscf @ ?acf @ drop 46 buffer)) =
      coe_header_bytes h @ payload @ drop (46 + n) buffer"
    using payload fits size(1) len rest
    by (auto simp: put_bytes_split coe_header_bytes_def add.commute split: option.splits)
  show ?thesis
    using size fits len content
    unfolding serialize_coe_packet_def Let_def
    by (cases content) (auto simp add: serialize_mac_header_eq serialize_ntscf_header_eq serialize_acf_user0c_header_eq
        new_serializer_def serialized_at s_ok_at ok headers)
qed

text \<open>A packet that does not fit the buffer is not made.\<close>

lemma serialize_coe_packet_large:
  "buffer_size < 46 + n \<Longrightarrow> serialize_coe_packet h buffer buffer_size content n = (0, buffer)"
  by (simp add: serialize_coe_packet_def) linarith

subsection \<open>The metadata block\<close>

text \<open>\<open>write_frame_metadata\<close>: only half of the frame number is sent.\<close>

definition coe_write_frame_metadata ::
  "bytes \<Rightarrow> nat \<Rightarrow> timespec \<Rightarrow> timespec \<Rightarrow> u64 \<Rightarrow> u32 \<Rightarrow> u32 \<Rightarrow> metadata_argument \<Rightarrow> nat \<times> bytes" where
  "coe_write_frame_metadata buffer buffer_size frame_start meta_time n_bytes_sent frame_number psn arg =
     (let m = metadata_of frame_start meta_time n_bytes_sent (frame_number AND 0xFFFF) psn arg;
          (n, s) = serialize_frame_metadata (new_serializer buffer buffer_size) m
      in (n, s_buffer s))"

lemma coe_write_frame_metadata_bytes:
  assumes "length buffer = buffer_size" "128 \<le> buffer_size" "buffer_size < 2 ^ 32" and "argument_ok arg"
  shows "coe_write_frame_metadata buffer buffer_size fs mt nb fn psn arg =
    (128, tx_metadata_bytes (metadata_of fs mt nb (fn AND 0xFFFF) psn arg) @ drop 128 buffer)"
proof -
  let ?m = "metadata_of fs mt nb (fn AND 0xFFFF) psn arg"
  have "s_ok \<lparr>s_buffer = buffer, s_limit = buffer_size, s_position = 0\<rparr>"
    by (rule s_ok_at) (use assms in auto)
  then show ?thesis
    using assms
    by (simp add: coe_write_frame_metadata_def new_serializer_def serialize_frame_metadata_eq serialized_at put_bytes_split)
qed

end
