(* ===== verification/Coe_Transmitter.thy ===== *)
theory Coe_Transmitter
  imports Coe_Packets Roce_Transmitter
begin

text \<open>
  The sending side of the emulated data plane over Ethernet: \<open>COETransmitter\<close>
  (src/src/hololink/emulation/src/linux/coe_transmitter.cpp). A frame goes out as one packet for each
  piece of payload and a last packet with the metadata. What \<open>clock_gettime\<close> and \<open>send\<close> give for
  the n-th call are parameters.
\<close>

subsection \<open>State\<close>

record coe_metadata =
  cm_dest_mac_low :: u32
  cm_dest_mac_high :: u32
  cm_dest_ip_address :: u32
  cm_frame_size :: u32
  cm_payload_size :: u32
  cm_dest_port :: u16
  cm_src_port :: u16
  cm_mac_dest :: bytes
  cm_sensor_info :: u8
  cm_channel :: u8
  cm_line_threshold_log2 :: u8
  cm_enable_1722b :: bool

record coe_transmitter =
  ct_headers :: coe_headers
  ct_frame_number :: u32

definition new_coe_transmitter :: "bytes \<Rightarrow> coe_transmitter" where
  "new_coe_transmitter mac =
     \<lparr>ct_headers = DEFAULT_COE_HEADERS\<lparr>mac_h := (mac_h DEFAULT_COE_HEADERS)\<lparr>mac_src := mac\<rparr>\<rparr>, ct_frame_number = 0\<rparr>"

text \<open>The state of a call of \<open>send\<close>.\<close>

record coe_sending =
  cg_headers :: coe_headers
  cg_mesg :: bytes
  cg_psn :: u8
  cg_offset :: nat
  cg_line_offset :: nat
  cg_n_bytes_sent :: nat
  cg_clocks :: nat
  cg_calls :: nat
  cg_out :: "bytes list"

definition COE_FLAG_FRAME_START :: u8 where "COE_FLAG_FRAME_START = 0x01"
definition COE_FLAG_FRAME_END :: u8 where "COE_FLAG_FRAME_END = 0x02"
definition COE_FLAG_LINE_END :: u8 where "COE_FLAG_LINE_END = 0x10"

subsection \<open>Sending a frame\<close>

definition coe_hand_out :: "(nat \<Rightarrow> bool) \<Rightarrow> nat \<Rightarrow> nat \<Rightarrow> coe_sending \<Rightarrow> coe_sending" where
  "coe_hand_out sendto message_size n st =
     (if message_size \<noteq> COE_HEADER_SIZE + n then st
      else if \<not> sendto (cg_calls st) then st\<lparr>cg_calls := cg_calls st + 1\<rparr>
      else st\<lparr>cg_calls := cg_calls st + 1, cg_out := cg_out st @ [take message_size (cg_mesg st)],
              cg_n_bytes_sent := cg_n_bytes_sent st + n\<rparr>)"

text \<open>What differs from packet to packet.\<close>

definition coe_packet_headers :: "coe_headers \<Rightarrow> timespec \<Rightarrow> u32 \<Rightarrow> u8 \<Rightarrow> u8 \<Rightarrow> coe_headers" where
  "coe_packet_headers h now address psn flags =
     h\<lparr>acf_h := (acf_h h)\<lparr>acf_address := address, acf_timestamp_sec := ucast (tv_sec now),
         acf_timestamp_nsec := ucast (tv_nsec now), acf_psn := psn, acf_frame_flags := flags\<rparr>\<rparr>"

definition coe_address :: "u32 \<Rightarrow> nat \<Rightarrow> u32" where
  "coe_address packet_frame_number offset = packet_frame_number OR (of_nat offset AND 0xFFFFFFF)"

text \<open>One round of the loop over the content.\<close>

definition send_coe_packet ::
  "(nat \<Rightarrow> timespec) \<Rightarrow> (nat \<Rightarrow> bool) \<Rightarrow> bytes \<Rightarrow> nat \<Rightarrow> nat \<Rightarrow> u32 \<Rightarrow> coe_sending \<Rightarrow> coe_sending"
where
  "send_coe_packet clock_gettime sendto content payload_size line_threshold packet_frame_number st =
     (let n = min (length content - cg_offset st) payload_size;
          line_offset = cg_line_offset st + n;
          now = clock_gettime (cg_clocks st);
          flags = (if cg_offset st = 0 then COE_FLAG_FRAME_START else 0);
          (flags, line_offset) =
            (if line_threshold \<le> line_offset then (flags OR COE_FLAG_LINE_END, 0) else (flags, line_offset));
          headers = coe_packet_headers (cg_headers st) now (coe_address packet_frame_number (cg_offset st)) (cg_psn st) flags;
          (message_size, mesg) =
            serialize_coe_packet headers (cg_mesg st) MAX_MESSAGE_SIZE (Some (drop (cg_offset st) content)) n;
          st = coe_hand_out sendto message_size n
            (st\<lparr>cg_headers := headers, cg_mesg := mesg, cg_clocks := cg_clocks st + 1\<rparr>)
      in st\<lparr>cg_offset := cg_offset st + n, cg_line_offset := line_offset, cg_psn := (cg_psn st + 1) AND 0xFF\<rparr>)"

definition send_coe_packets ::
  "(nat \<Rightarrow> timespec) \<Rightarrow> (nat \<Rightarrow> bool) \<Rightarrow> bytes \<Rightarrow> nat \<Rightarrow> nat \<Rightarrow> u32 \<Rightarrow> coe_sending \<Rightarrow> coe_sending option"
where
  "send_coe_packets clock_gettime sendto content payload_size line_threshold packet_frame_number =
     while_option (\<lambda>st. cg_offset st < length content)
       (send_coe_packet clock_gettime sendto content payload_size line_threshold packet_frame_number)"

text \<open>The packet with the metadata.\<close>

definition send_coe_metadata ::
  "(nat \<Rightarrow> timespec) \<Rightarrow> (nat \<Rightarrow> bool) \<Rightarrow> timespec \<Rightarrow> nat \<Rightarrow> u32 \<Rightarrow> u32 \<Rightarrow> metadata_argument \<Rightarrow> coe_sending \<Rightarrow> coe_sending"
where
  "send_coe_metadata clock_gettime sendto frame_start line_threshold packet_frame_number frame_number arg st =
     (let now = clock_gettime (cg_clocks st);
          (n, tail) = coe_write_frame_metadata (drop COE_HEADER_SIZE (cg_mesg st)) (MAX_MESSAGE_SIZE - COE_HEADER_SIZE)
            frame_start now (of_nat (cg_n_bytes_sent st)) frame_number (ucast (cg_psn st)) arg;
          mesg = take COE_HEADER_SIZE (cg_mesg st) @ tail;
          headers = coe_packet_headers (cg_headers st) now (coe_address packet_frame_number (cg_offset st)) (cg_psn st)
            (COE_FLAG_FRAME_END OR (if n \<le> line_threshold then COE_FLAG_LINE_END else 0));
          (message_size, mesg) = serialize_coe_packet headers mesg MAX_MESSAGE_SIZE None n;
          st = coe_hand_out sendto message_size n
            (st\<lparr>cg_headers := headers, cg_mesg := mesg, cg_clocks := cg_clocks st + 1\<rparr>)
      in st\<lparr>cg_psn := (cg_psn st + 1) AND 0xFF\<rparr>)"

text \<open>
  \<open>COETransmitter::send\<close>: the number of bytes sent and the packets that went out. \<open>None\<close> when the
  loop does not end, or when a null pointer is given for the metadata, which is then read. A shift by
  32 or more takes its count modulo 32, as the processors do (the language leaves it undefined).
\<close>

definition coe_frame_headers :: "coe_metadata \<Rightarrow> coe_headers \<Rightarrow> coe_headers" where
  "coe_frame_headers cm h =
     h\<lparr>mac_h := (mac_h h)\<lparr>mac_dest := cm_mac_dest cm\<rparr>,
       acf_h := (acf_h h)\<lparr>acf_sensor_info := cm_sensor_info cm, acf_channel := cm_channel cm\<rparr>\<rparr>"

definition coe_line_threshold :: "coe_metadata \<Rightarrow> nat" where
  "coe_line_threshold cm = unat (push_bit (unat (cm_line_threshold_log2 cm) mod 32) 1 :: u32)"

definition coe_packet_frame_number :: "coe_transmitter \<Rightarrow> u32" where
  "coe_packet_frame_number t = push_bit 28 (ct_frame_number t AND 0x3)"

definition coe_send ::
  "(nat \<Rightarrow> timespec) \<Rightarrow> (nat \<Rightarrow> bool) \<Rightarrow> bytes \<Rightarrow> coe_metadata \<Rightarrow> bytes \<Rightarrow> metadata_argument option \<Rightarrow>
   coe_transmitter \<Rightarrow> ((hsb_error + (nat \<times> bytes list)) \<times> coe_transmitter) option"
where
  "coe_send clock_gettime sendto mesg cm content arg t =
     (if \<not> cm_enable_1722b cm then Some (Inr (0, []), t)
      else if cm_payload_size cm = 0 then Some (Inl (Runtime_error ''payload_size is 0''), t)
      else
        Option.bind
          (send_coe_packets clock_gettime sendto content (unat (cm_payload_size cm)) (coe_line_threshold cm)
             (coe_packet_frame_number t)
             \<lparr>cg_headers = coe_frame_headers cm (ct_headers t), cg_mesg = mesg, cg_psn = 0, cg_offset = 0,
              cg_line_offset = 0, cg_n_bytes_sent = 0, cg_clocks = 1, cg_calls = 0, cg_out = []\<rparr>)
          (\<lambda>st. case arg of
              None \<Rightarrow> None
            | Some m \<Rightarrow>
                let st = send_coe_metadata clock_gettime sendto (clock_gettime 0) (coe_line_threshold cm)
                      (coe_packet_frame_number t) (ct_frame_number t) m st
                in Some (Inr (cg_n_bytes_sent st, cg_out st),
                         t\<lparr>ct_headers := cg_headers st, ct_frame_number := ct_frame_number t + 1\<rparr>)))"

subsection \<open>The packets of a frame\<close>

text \<open>Packet number \<open>i\<close> of a frame, with \<open>line\<close> bytes since the last end of a line.\<close>

definition coe_packet :: "(nat \<Rightarrow> timespec) \<Rightarrow> coe_headers \<Rightarrow> nat \<Rightarrow> u32 \<Rightarrow> nat \<Rightarrow> nat \<Rightarrow> nat \<Rightarrow> bytes \<Rightarrow> bytes" where
  "coe_packet clock_gettime h threshold pfn p i line payload =
     coe_header_bytes (coe_packet_headers h (clock_gettime (i + 1)) (coe_address pfn (i * p)) (of_nat i)
       ((if i = 0 then COE_FLAG_FRAME_START else 0) OR
        (if threshold \<le> line + length payload then COE_FLAG_LINE_END else 0))) @ payload"

function coe_frame_packets ::
  "(nat \<Rightarrow> timespec) \<Rightarrow> coe_headers \<Rightarrow> nat \<Rightarrow> u32 \<Rightarrow> nat \<Rightarrow> nat \<Rightarrow> nat \<Rightarrow> bytes \<Rightarrow> bytes list"
where
  "coe_frame_packets clock_gettime h threshold pfn p i line content =
     (if content = [] \<or> p = 0 then []
      else coe_packet clock_gettime h threshold pfn p i line (take p content) #
           coe_frame_packets clock_gettime h threshold pfn p (i + 1)
             (if threshold \<le> line + min (length content) p then 0 else line + min (length content) p) (drop p content))"
  by pat_completeness auto
termination
  by (relation "measure (\<lambda>(clock_gettime, h, threshold, pfn, p, i, line, content). length content)") auto

declare coe_frame_packets.simps [simp del]

definition coe_last_packet ::
  "coe_headers \<Rightarrow> nat \<Rightarrow> u32 \<Rightarrow> nat \<Rightarrow> nat \<Rightarrow> timespec \<Rightarrow> tx_metadata \<Rightarrow> bytes"
where
  "coe_last_packet h threshold pfn i offset now m =
     coe_header_bytes (coe_packet_headers h now (coe_address pfn offset) (of_nat i)
       (COE_FLAG_FRAME_END OR (if 128 \<le> threshold then COE_FLAG_LINE_END else 0))) @ tx_metadata_bytes m"

text \<open>Headers that differ only in what the next packet overwrites.\<close>

definition coe_same_stream :: "coe_headers \<Rightarrow> coe_headers \<Rightarrow> bool" where
  "coe_same_stream h' h \<longleftrightarrow> (\<forall>now a p f. coe_packet_headers h' now a p f = coe_packet_headers h now a p f)"

lemma coe_same_stream_packet [simp]: "coe_same_stream (coe_packet_headers h now a p f) h"
  by (simp add: coe_same_stream_def coe_packet_headers_def)

lemma coe_same_stream_refl [simp]: "coe_same_stream h h"
  by (simp add: coe_same_stream_def)

lemma coe_same_stream_trans: "coe_same_stream h2 h1 \<Longrightarrow> coe_same_stream h1 h \<Longrightarrow> coe_same_stream h2 h"
  by (simp add: coe_same_stream_def)

lemma coe_headers_ok_packet [simp]: "coe_headers_ok (coe_packet_headers h now a p f) = coe_headers_ok h"
  by (simp add: coe_headers_ok_def coe_packet_headers_def)

lemma coe_frame_packets_same_stream:
  "coe_same_stream h' h \<Longrightarrow>
   coe_frame_packets clk h' threshold pfn p i line content = coe_frame_packets clk h threshold pfn p i line content"
proof (induction clk h threshold pfn p i line content rule: coe_frame_packets.induct)
  case (1 clk h threshold pfn p i line content)
  then show ?case
    by (subst (1 2) coe_frame_packets.simps) (simp add: coe_same_stream_def coe_packet_def)
qed

lemma length_coe_frame_packets:
  "0 < p \<Longrightarrow> length (coe_frame_packets clk h threshold pfn p i line content) = (length content + p - 1) div p"
proof (induction clk h threshold pfn p i line content rule: coe_frame_packets.induct)
  case (1 clk h threshold pfn p i line content)
  show ?case
  proof (cases "content = []")
    case True
    with 1 show ?thesis by (subst coe_frame_packets.simps) simp
  next
    case False
    then obtain k where k: "length content = Suc k" by (cases content) auto
    show ?thesis
    proof (cases "length content \<le> p")
      case True
      then have "(length content + p - 1) div p = 1"
        using 1(2) k by (intro div_nat_eqI) auto
      with 1 False True show ?thesis by (subst coe_frame_packets.simps) (simp add: coe_frame_packets.simps)
    next
      case not_le: False
      then have "length content + p - 1 = (length content - p + p - 1) + p" by simp
      then have "(length content + p - 1) div p = Suc ((length content - p + p - 1) div p)"
        using 1(2) by (metis Suc_eq_plus1 div_add_self2 less_numeral_extra(3))
      with 1 False show ?thesis by (subst coe_frame_packets.simps) simp
    qed
  qed
qed

text \<open>The payload of packets, as \<open>send\<close> counts it.\<close>

definition coe_payload_total :: "bytes list \<Rightarrow> nat" where
  "coe_payload_total ms = sum_list (map (\<lambda>m. length m - COE_HEADER_SIZE) ms)"

lemma coe_payload_total_simps [simp]:
  "coe_payload_total [] = 0" "coe_payload_total (m # ms) = (length m - 46) + coe_payload_total ms"
  "coe_payload_total (ms @ ns) = coe_payload_total ms + coe_payload_total ns"
  by (simp_all add: coe_payload_total_def)

lemma length_coe_packet [simp]: "coe_headers_ok h \<Longrightarrow> length (coe_packet clk h threshold pfn p i line payload) = 46 + length payload"
  by (simp add: coe_packet_def)

lemma coe_payload_total_frame:
  "0 < p \<Longrightarrow> coe_headers_ok h \<Longrightarrow> coe_payload_total (coe_frame_packets clk h threshold pfn p i line content) = length content"
proof (induction clk h threshold pfn p i line content rule: coe_frame_packets.induct)
  case (1 clk h threshold pfn p i line content)
  then show ?case by (subst coe_frame_packets.simps) auto
qed

text \<open>A state of the loop after \<open>i\<close> packets.\<close>

definition coe_at :: "coe_headers \<Rightarrow> nat \<Rightarrow> bytes \<Rightarrow> nat \<Rightarrow> coe_sending \<Rightarrow> bool" where
  "coe_at h p content i st \<longleftrightarrow>
     length (cg_mesg st) = MAX_MESSAGE_SIZE \<and> coe_same_stream (cg_headers st) h \<and> coe_headers_ok (cg_headers st) \<and>
     cg_psn st = of_nat i \<and> cg_clocks st = i + 1 \<and> cg_offset st = min (i * p) (length content)"

lemma psn_mask: "(w :: u8) AND 0xFF = w"
  by (simp add: and_ff_take_bit take_bit_word_eq_self)

text \<open>One round of the loop.\<close>

lemma send_coe_packet_eq:
  fixes clk :: "nat \<Rightarrow> timespec" and threshold :: nat and pfn :: u32 and st :: coe_sending and content :: bytes
    and payload_size :: nat
  defines "n \<equiv> min (length content - cg_offset st) payload_size"
  defines "h' \<equiv> coe_packet_headers (cg_headers st) (clk (cg_clocks st)) (coe_address pfn (cg_offset st)) (cg_psn st)
      ((if cg_offset st = 0 then COE_FLAG_FRAME_START else 0) OR
       (if threshold \<le> cg_line_offset st + n then COE_FLAG_LINE_END else 0))"
  assumes "serialize_coe_packet h' (cg_mesg st) MAX_MESSAGE_SIZE (Some (drop (cg_offset st) content)) n = (46 + n, m @ rest)"
    and "length m = 46 + n"
  shows "send_coe_packet clk sendto content payload_size threshold pfn st =
    st\<lparr>cg_headers := h', cg_mesg := m @ rest, cg_psn := (cg_psn st + 1) AND 0xFF,
       cg_offset := cg_offset st + n, cg_clocks := cg_clocks st + 1,
       cg_line_offset := (if threshold \<le> cg_line_offset st + n then 0 else cg_line_offset st + n),
       cg_n_bytes_sent := cg_n_bytes_sent st + coe_payload_total (accepted sendto (cg_calls st) [m]),
       cg_calls := cg_calls st + 1, cg_out := cg_out st @ accepted sendto (cg_calls st) [m]\<rparr>"
proof (cases "threshold \<le> cg_line_offset st + n")
  case True
  then have h': "coe_packet_headers (cg_headers st) (clk (cg_clocks st)) (coe_address pfn (cg_offset st)) (cg_psn st)
      ((if cg_offset st = 0 then COE_FLAG_FRAME_START else 0) OR COE_FLAG_LINE_END) = h'"
    by (simp add: h'_def)
  show ?thesis
    unfolding send_coe_packet_def Let_def n_def [symmetric]
    by (simp only: if_P [OF True] split_conv h' assms(3)) (simp add: coe_hand_out_def assms(4))
next
  case False
  then have h': "coe_packet_headers (cg_headers st) (clk (cg_clocks st)) (coe_address pfn (cg_offset st)) (cg_psn st)
      (if cg_offset st = 0 then COE_FLAG_FRAME_START else 0) = h'"
    by (simp add: h'_def)
  show ?thesis
    unfolding send_coe_packet_def Let_def n_def [symmetric]
    by (simp only: if_not_P [OF False] split_conv h' assms(3)) (simp add: coe_hand_out_def assms(4))
qed

lemma send_coe_packet_step:
  fixes clk :: "nat \<Rightarrow> timespec" and threshold :: nat and pfn :: u32
  assumes at: "coe_at h p content i st" and off: "cg_offset st < length content" and p: "0 < p" "p \<le> 2044"
  defines "payload \<equiv> take p (drop (cg_offset st) content)"
  defines "m \<equiv> coe_packet clk h threshold pfn p i (cg_line_offset st) payload"
  shows "coe_at h p content (i + 1) (send_coe_packet clk sendto content p threshold pfn st)"
    "cg_line_offset (send_coe_packet clk sendto content p threshold pfn st) =
       (if threshold \<le> cg_line_offset st + length payload then 0 else cg_line_offset st + length payload)"
    "cg_n_bytes_sent (send_coe_packet clk sendto content p threshold pfn st) =
       cg_n_bytes_sent st + coe_payload_total (accepted sendto (cg_calls st) [m])"
    "cg_calls (send_coe_packet clk sendto content p threshold pfn st) = cg_calls st + 1"
    "cg_out (send_coe_packet clk sendto content p threshold pfn st) = cg_out st @ accepted sendto (cg_calls st) [m]"
    "cg_offset (send_coe_packet clk sendto content p threshold pfn st) = cg_offset st + length payload"
proof -
  define n where "n = min (length content - cg_offset st) p"
  have at': "length (cg_mesg st) = MAX_MESSAGE_SIZE" "coe_same_stream (cg_headers st) h" "coe_headers_ok (cg_headers st)"
      "cg_psn st = of_nat i" "cg_clocks st = i + 1" "cg_offset st = i * p"
    using at off by (simp_all add: coe_at_def)
  define h' where "h' = coe_packet_headers (cg_headers st) (clk (cg_clocks st)) (coe_address pfn (cg_offset st)) (cg_psn st)
      ((if cg_offset st = 0 then COE_FLAG_FRAME_START else 0) OR
       (if threshold \<le> cg_line_offset st + n then COE_FLAG_LINE_END else 0))"
  have n: "n \<le> 2044" "n = length payload" "payload = take n (drop (cg_offset st) content)"
    using p by (simp_all add: n_def payload_def min_def)
  have h'_ok: "coe_headers_ok h'" using at'(3) by (simp add: h'_def)
  have "h' = coe_packet_headers h (clk (i + 1)) (coe_address pfn (i * p)) (of_nat i)
      ((if i = 0 then COE_FLAG_FRAME_START else 0) OR
       (if threshold \<le> cg_line_offset st + length payload then COE_FLAG_LINE_END else 0))"
    using at'(2,4,5,6) p(1) n(2) by (simp add: h'_def coe_same_stream_def)
  then have m: "m = coe_header_bytes h' @ payload" by (simp add: m_def coe_packet_def)
  have lm: "length m = 46 + n" using h'_ok n(2) by (simp add: m)
  have "serialize_coe_packet h' (cg_mesg st) MAX_MESSAGE_SIZE (Some (drop (cg_offset st) content)) n =
      (46 + n, coe_header_bytes h' @ payload @ drop (46 + n) (cg_mesg st))"
    by (rule serialize_coe_packet_bytes [OF at'(1) _ _ h'_ok])
      (use n(1,3) in \<open>simp_all add: MAX_MESSAGE_SIZE_def n_def\<close>)
  then have ser: "serialize_coe_packet h' (cg_mesg st) MAX_MESSAGE_SIZE (Some (drop (cg_offset st) content)) n =
      (46 + n, m @ drop (46 + n) (cg_mesg st))" by (simp add: m)
  note step = send_coe_packet_eq [where st = st and content = content and payload_size = p and threshold = threshold
      and clk = clk and pfn = pfn and sendto = sendto, folded n_def, folded h'_def, OF ser lm]
  have next_offset: "cg_offset st + n = min ((i + 1) * p) (length content)"
    using off p by (auto simp: n_def at'(6) min_def)
  have len: "length (m @ drop (46 + n) (cg_mesg st)) = MAX_MESSAGE_SIZE" using at'(1) lm n(1) by (simp add: MAX_MESSAGE_SIZE_def)
  have stream: "coe_same_stream h' h"
    unfolding h'_def by (rule coe_same_stream_trans [OF coe_same_stream_packet at'(2)])
  show "coe_at h p content (i + 1) (send_coe_packet clk sendto content p threshold pfn st)"
    using len h'_ok stream next_offset at'(4,5) by (simp add: step coe_at_def psn_mask)
  show "cg_line_offset (send_coe_packet clk sendto content p threshold pfn st) =
       (if threshold \<le> cg_line_offset st + length payload then 0 else cg_line_offset st + length payload)"
    "cg_n_bytes_sent (send_coe_packet clk sendto content p threshold pfn st) =
       cg_n_bytes_sent st + coe_payload_total (accepted sendto (cg_calls st) [m])"
    "cg_calls (send_coe_packet clk sendto content p threshold pfn st) = cg_calls st + 1"
    "cg_out (send_coe_packet clk sendto content p threshold pfn st) = cg_out st @ accepted sendto (cg_calls st) [m]"
    "cg_offset (send_coe_packet clk sendto content p threshold pfn st) = cg_offset st + length payload"
    by (simp_all add: step n(2))
qed


text \<open>What the loop leaves.\<close>

lemma send_coe_packets_frame:
  fixes clk :: "nat \<Rightarrow> timespec" and threshold :: nat and pfn :: u32 and content :: bytes and h :: coe_headers
  assumes p: "0 < p" "p \<le> 2044"
  defines "packets \<equiv> \<lambda>i st. coe_frame_packets clk h threshold pfn p i (cg_line_offset st) (drop (cg_offset st) content)"
  shows "coe_at h p content i st \<Longrightarrow>
    \<exists>st'. send_coe_packets clk sendto content p threshold pfn st = Some st' \<and>
      coe_at h p content (i + length (packets i st)) st' \<and> cg_offset st' = length content \<and>
      cg_calls st' = cg_calls st + length (packets i st) \<and>
      cg_out st' = cg_out st @ accepted sendto (cg_calls st) (packets i st) \<and>
      cg_n_bytes_sent st' = cg_n_bytes_sent st + coe_payload_total (accepted sendto (cg_calls st) (packets i st))"
proof (induction "length content - cg_offset st" arbitrary: st i rule: less_induct)
  case less
  have le: "cg_offset st \<le> length content" using less.prems by (simp add: coe_at_def)
  show ?case
  proof (cases "cg_offset st < length content")
    case False
    then show ?thesis using less.prems le
      by (simp add: send_coe_packets_def while_option_unfold packets_def coe_frame_packets.simps)
  next
    case True
    define st1 where "st1 = send_coe_packet clk sendto content p threshold pfn st"
    define payload where "payload = take p (drop (cg_offset st) content)"
    note step = send_coe_packet_step [OF less.prems True p, where clk = clk and sendto = sendto and threshold = threshold
        and pfn = pfn, folded st1_def payload_def]
    have payload: "length payload = min (length content - cg_offset st) p" by (simp add: payload_def)
    have rest: "drop (cg_offset st1) content = drop p (drop (cg_offset st) content)"
      by (cases "length content - cg_offset st \<le> p") (simp_all add: step(6) payload min_def add.commute)
    have "packets i st = coe_packet clk h threshold pfn p i (cg_line_offset st) payload # packets (i + 1) st1"
      unfolding packets_def rest using True p(1)
      by (subst coe_frame_packets.simps) (simp add: payload_def [symmetric] step(2) payload)
    moreover have "length content - cg_offset st1 < length content - cg_offset st"
      using True p(1) by (simp add: step(6) payload)
    from less.hyps [OF this step(1)] obtain st' where "send_coe_packets clk sendto content p threshold pfn st1 = Some st'"
      "coe_at h p content (i + 1 + length (packets (i + 1) st1)) st'" "cg_offset st' = length content"
      "cg_calls st' = cg_calls st1 + length (packets (i + 1) st1)"
      "cg_out st' = cg_out st1 @ accepted sendto (cg_calls st1) (packets (i + 1) st1)"
      "cg_n_bytes_sent st' = cg_n_bytes_sent st1 + coe_payload_total (accepted sendto (cg_calls st1) (packets (i + 1) st1))"
      by blast
    moreover have "send_coe_packets clk sendto content p threshold pfn st = send_coe_packets clk sendto content p threshold pfn st1"
      using True by (simp add: send_coe_packets_def while_option_unfold [of _ _ st] st1_def)
    ultimately show ?thesis by (simp add: step(3,4,5))
  qed
qed

text \<open>The packets of a whole frame.\<close>

definition coe_data_packets :: "(nat \<Rightarrow> timespec) \<Rightarrow> coe_metadata \<Rightarrow> bytes \<Rightarrow> coe_transmitter \<Rightarrow> bytes list" where
  "coe_data_packets clock_gettime cm content t =
     coe_frame_packets clock_gettime (coe_frame_headers cm (ct_headers t)) (coe_line_threshold cm)
       (coe_packet_frame_number t) (unat (cm_payload_size cm)) 0 0 content"

definition coe_sent_metadata ::
  "(nat \<Rightarrow> timespec) \<Rightarrow> (nat \<Rightarrow> bool) \<Rightarrow> coe_metadata \<Rightarrow> bytes \<Rightarrow> metadata_argument \<Rightarrow> coe_transmitter \<Rightarrow> tx_metadata"
where
  "coe_sent_metadata clock_gettime sendto cm content arg t =
     (let data = coe_data_packets clock_gettime cm content t in
      metadata_of (clock_gettime 0) (clock_gettime (length data + 1))
        (of_nat (coe_payload_total (accepted sendto 0 data))) (ct_frame_number t AND 0xFFFF)
        (ucast (of_nat (length data) :: u8)) arg)"

definition coe_transmission ::
  "(nat \<Rightarrow> timespec) \<Rightarrow> (nat \<Rightarrow> bool) \<Rightarrow> coe_metadata \<Rightarrow> bytes \<Rightarrow> metadata_argument \<Rightarrow> coe_transmitter \<Rightarrow> bytes list"
where
  "coe_transmission clock_gettime sendto cm content arg t =
     (let data = coe_data_packets clock_gettime cm content t in
      data @ [coe_last_packet (coe_frame_headers cm (ct_headers t)) (coe_line_threshold cm) (coe_packet_frame_number t)
        (length data) (length content) (clock_gettime (length data + 1))
        (coe_sent_metadata clock_gettime sendto cm content arg t)])"

definition coe_ready :: "coe_metadata \<Rightarrow> coe_transmitter \<Rightarrow> bool" where
  "coe_ready cm t \<longleftrightarrow> cm_enable_1722b cm \<and> length (cm_mac_dest cm) = 6 \<and> coe_headers_ok (ct_headers t)"

lemma coe_ready_headers: "coe_ready cm t \<Longrightarrow> coe_headers_ok (coe_frame_headers cm (ct_headers t))"
  by (simp add: coe_ready_def coe_headers_ok_def coe_frame_headers_def)

lemma coe_same_stream_frame:
  assumes "coe_same_stream h' (coe_frame_headers cm h)"
  shows "coe_same_stream (coe_frame_headers cm h') (coe_frame_headers cm h)"
proof -
  have swap: "coe_packet_headers (coe_frame_headers cm x) now a p f = coe_frame_headers cm (coe_packet_headers x now a p f)"
    and twice: "coe_frame_headers cm (coe_frame_headers cm x) = coe_frame_headers cm x" for x now a p f
    by (simp_all add: coe_packet_headers_def coe_frame_headers_def)
  show ?thesis
    using assms unfolding coe_same_stream_def by (metis swap twice)
qed

text \<open>The packet with the metadata.\<close>

lemma send_coe_metadata_step:
  fixes clk :: "nat \<Rightarrow> timespec" and threshold :: nat and pfn fn :: u32 and fs :: timespec
  assumes at: "coe_at h p content i st" and arg: "argument_ok arg"
  defines "m \<equiv> coe_last_packet h threshold pfn i (cg_offset st) (clk (i + 1))
      (metadata_of fs (clk (i + 1)) (of_nat (cg_n_bytes_sent st)) (fn AND 0xFFFF) (ucast (of_nat i :: u8)) arg)"
  shows "\<exists>st'. send_coe_metadata clk sendto fs threshold pfn fn arg st = st' \<and>
    cg_n_bytes_sent st' = cg_n_bytes_sent st + coe_payload_total (accepted sendto (cg_calls st) [m]) \<and>
    cg_out st' = cg_out st @ accepted sendto (cg_calls st) [m] \<and> coe_same_stream (cg_headers st') h \<and>
    coe_headers_ok (cg_headers st')"
proof -
  have at': "length (cg_mesg st) = MAX_MESSAGE_SIZE" "coe_same_stream (cg_headers st) h" "coe_headers_ok (cg_headers st)"
      "cg_psn st = of_nat i" "cg_clocks st = i + 1"
    using at by (simp_all add: coe_at_def)
  define md where "md = metadata_of fs (clk (i + 1)) (of_nat (cg_n_bytes_sent st)) (fn AND 0xFFFF) (ucast (of_nat i :: u8)) arg"
  define h' where "h' = coe_packet_headers (cg_headers st) (clk (i + 1)) (coe_address pfn (cg_offset st)) (of_nat i)
      (COE_FLAG_FRAME_END OR (if 128 \<le> threshold then COE_FLAG_LINE_END else 0))"
  have h': "coe_headers_ok h'" "coe_same_stream h' h"
    using at'(3) coe_same_stream_trans [OF coe_same_stream_packet at'(2)] by (simp_all add: h'_def)
  have reserved: "length (tx_metadata_bytes md) = 128" using arg by (simp add: md_def)
  have m: "m = coe_header_bytes h' @ tx_metadata_bytes md"
    using at'(2) by (simp add: m_def coe_last_packet_def md_def h'_def coe_same_stream_def)
  have lm: "length m = 174" using h'(1) reserved by (simp add: m)
  let ?tail = "drop 128 (drop 46 (cg_mesg st))"
  have md: "coe_write_frame_metadata (drop 46 (cg_mesg st)) (MAX_MESSAGE_SIZE - 46) fs (clk (i + 1))
      (of_nat (cg_n_bytes_sent st)) fn (ucast (of_nat i :: u8)) arg = (128, tx_metadata_bytes md @ ?tail)"
    unfolding md_def using at'(1) arg by (intro coe_write_frame_metadata_bytes) (simp_all add: MAX_MESSAGE_SIZE_def)
  let ?mesg = "take 46 (cg_mesg st) @ tx_metadata_bytes md @ ?tail"
  have len: "length ?mesg = MAX_MESSAGE_SIZE" using at'(1) reserved by (simp add: MAX_MESSAGE_SIZE_def)
  have "serialize_coe_packet h' ?mesg MAX_MESSAGE_SIZE None 128 =
      (46 + 128, coe_header_bytes h' @ tx_metadata_bytes md @ drop (46 + 128) ?mesg)"
    by (rule serialize_coe_packet_bytes [OF len _ _ h'(1)])
      (use reserved at'(1) in \<open>simp_all add: MAX_MESSAGE_SIZE_def\<close>)
  then have ser: "serialize_coe_packet h' ?mesg MAX_MESSAGE_SIZE None 128 = (174, m @ drop 174 ?mesg)" by (simp add: m)
  have "send_coe_metadata clk sendto fs threshold pfn fn arg st =
    st\<lparr>cg_headers := h', cg_mesg := m @ drop 174 ?mesg, cg_psn := (of_nat i + 1) AND 0xFF, cg_clocks := i + 2,
       cg_n_bytes_sent := cg_n_bytes_sent st + coe_payload_total (accepted sendto (cg_calls st) [m]),
       cg_calls := cg_calls st + 1, cg_out := cg_out st @ accepted sendto (cg_calls st) [m]\<rparr>"
    unfolding send_coe_metadata_def Let_def at'(4,5) md split_conv h'_def [symmetric] ser
    using lm by (simp add: coe_hand_out_def at'(4))
  then show ?thesis using h' by simp
qed

lemma coe_send_frame:
  assumes mesg: "length mesg = MAX_MESSAGE_SIZE" and ready: "coe_ready cm t"
    and p: "0 < unat (cm_payload_size cm)" "unat (cm_payload_size cm) \<le> 2044" and arg: "argument_ok arg"
  shows "\<exists>t'. coe_send clk sendto mesg cm content (Some arg) t =
      Some (Inr (coe_payload_total (accepted sendto 0 (coe_transmission clk sendto cm content arg t)),
                 accepted sendto 0 (coe_transmission clk sendto cm content arg t)), t') \<and>
    ct_frame_number t' = ct_frame_number t + 1 \<and> coe_ready cm t' \<and>
    coe_same_stream (coe_frame_headers cm (ct_headers t')) (coe_frame_headers cm (ct_headers t))"
proof -
  let ?h = "coe_frame_headers cm (ct_headers t)" and ?thr = "coe_line_threshold cm" and ?pfn = "coe_packet_frame_number t"
  let ?p = "unat (cm_payload_size cm)"
  let ?st = "\<lparr>cg_headers = ?h, cg_mesg = mesg, cg_psn = 0, cg_offset = 0, cg_line_offset = 0, cg_n_bytes_sent = 0,
      cg_clocks = 1, cg_calls = 0, cg_out = []\<rparr>"
  define data where "data = coe_data_packets clk cm content t"
  have "coe_at ?h ?p content 0 ?st" using mesg coe_ready_headers [OF ready] by (simp add: coe_at_def)
  from send_coe_packets_frame [OF p this, of clk sendto ?thr ?pfn] obtain st1 where st1:
      "send_coe_packets clk sendto content ?p ?thr ?pfn ?st = Some st1" "coe_at ?h ?p content (length data) st1"
      "cg_offset st1 = length content" "cg_calls st1 = length data" "cg_out st1 = accepted sendto 0 data"
      "cg_n_bytes_sent st1 = coe_payload_total (accepted sendto 0 data)"
    by (auto simp: data_def coe_data_packets_def)
  define md where "md = coe_sent_metadata clk sendto cm content arg t"
  have md: "md = metadata_of (clk 0) (clk (length data + 1)) (of_nat (cg_n_bytes_sent st1)) (ct_frame_number t AND 0xFFFF)
      (ucast (of_nat (length data) :: u8)) arg"
    by (simp add: md_def coe_sent_metadata_def data_def [symmetric] st1(6) Let_def)
  have tr: "coe_transmission clk sendto cm content arg t =
      data @ [coe_last_packet ?h ?thr ?pfn (length data) (length content) (clk (length data + 1)) md]"
    by (simp add: coe_transmission_def data_def md_def Let_def)
  obtain st2 where st2: "send_coe_metadata clk sendto (clk 0) ?thr ?pfn (ct_frame_number t) arg st1 = st2"
      "cg_n_bytes_sent st2 = coe_payload_total (accepted sendto 0 (coe_transmission clk sendto cm content arg t))"
      "cg_out st2 = accepted sendto 0 (coe_transmission clk sendto cm content arg t)"
      "coe_same_stream (cg_headers st2) ?h" "coe_headers_ok (cg_headers st2)"
    using send_coe_metadata_step [OF st1(2) arg, of clk sendto "clk 0" ?thr ?pfn "ct_frame_number t"]
    unfolding md [symmetric] st1(3) tr by (auto simp: accepted_append st1)
  have "coe_same_stream (coe_frame_headers cm (cg_headers st2)) ?h"
    using st2(4) by (rule coe_same_stream_frame)
  moreover have "cm_payload_size cm \<noteq> 0" using p(1) by auto
  ultimately show ?thesis using ready st1(1) st2 by (simp add: coe_send_def coe_ready_def Let_def)
qed

text \<open>Pieces of more than 2044 bytes do not fit the packet buffer: nothing but the metadata is sent.\<close>

lemma send_coe_packet_large:
  assumes "46 + min (length content - cg_offset st) p > MAX_MESSAGE_SIZE"
  shows "\<exists>h l. send_coe_packet clk sendto content p threshold pfn st =
    st\<lparr>cg_headers := h, cg_psn := (cg_psn st + 1) AND 0xFF, cg_clocks := cg_clocks st + 1,
       cg_offset := cg_offset st + min (length content - cg_offset st) p, cg_line_offset := l\<rparr> \<and>
    (coe_headers_ok (cg_headers st) \<longrightarrow> coe_headers_ok h) \<and> coe_same_stream h (cg_headers st)"
proof -
  let ?n = "min (length content - cg_offset st) p"
  let ?flags = "(if cg_offset st = 0 then COE_FLAG_FRAME_START else 0) OR
      (if threshold \<le> cg_line_offset st + ?n then COE_FLAG_LINE_END else 0)"
  let ?h = "coe_packet_headers (cg_headers st) (clk (cg_clocks st)) (coe_address pfn (cg_offset st)) (cg_psn st) ?flags"
  let ?l = "if threshold \<le> cg_line_offset st + ?n then 0 else cg_line_offset st + ?n"
  have ser: "serialize_coe_packet h (cg_mesg st) MAX_MESSAGE_SIZE c ?n = (0, cg_mesg st)" for h c
    using assms by (intro serialize_coe_packet_large) simp
  have "send_coe_packet clk sendto content p threshold pfn st =
      st\<lparr>cg_headers := ?h, cg_psn := (cg_psn st + 1) AND 0xFF, cg_clocks := cg_clocks st + 1,
         cg_offset := cg_offset st + ?n, cg_line_offset := ?l\<rparr>"
    by (cases "threshold \<le> cg_line_offset st + ?n") (simp_all add: send_coe_packet_def Let_def ser coe_hand_out_def)
  then show ?thesis by (intro exI [of _ ?h] exI [of _ ?l]) simp
qed

lemma send_coe_packets_large:
  fixes clk :: "nat \<Rightarrow> timespec"
  assumes p: "2044 < p"
  shows "coe_at h p content i st \<Longrightarrow> p dvd length content - cg_offset st \<Longrightarrow> cg_offset st = i * p \<Longrightarrow>
    \<exists>st' j. send_coe_packets clk sendto content p threshold pfn st = Some st' \<and> coe_at h p content j st' \<and>
      cg_offset st' = length content \<and> cg_calls st' = cg_calls st \<and> cg_out st' = cg_out st \<and>
      cg_n_bytes_sent st' = cg_n_bytes_sent st \<and> j * p = length content"
proof (induction "length content - cg_offset st" arbitrary: st i rule: less_induct)
  case less
  have le: "cg_offset st \<le> length content" using less.prems(1) by (simp add: coe_at_def)
  show ?case
  proof (cases "cg_offset st < length content")
    case False
    then show ?thesis using less.prems le
      by (intro exI [of _ st] exI [of _ i]) (simp add: send_coe_packets_def while_option_unfold)
  next
    case True
    then have big: "p \<le> length content - cg_offset st" using less.prems(2) by (intro dvd_imp_le) simp_all
    define st1 where "st1 = send_coe_packet clk sendto content p threshold pfn st"
    have n: "min (length content - cg_offset st) p = p" using big by simp
    have "MAX_MESSAGE_SIZE < 46 + min (length content - cg_offset st) p" using p by (simp add: n MAX_MESSAGE_SIZE_def)
    from send_coe_packet_large [OF this, of clk sendto threshold pfn, folded st1_def, unfolded n] obtain h' l where st1':
        "st1 = st\<lparr>cg_headers := h', cg_psn := (cg_psn st + 1) AND 0xFF, cg_clocks := cg_clocks st + 1,
           cg_offset := cg_offset st + p, cg_line_offset := l\<rparr>"
      and st1: "coe_headers_ok (cg_headers st) \<longrightarrow> coe_headers_ok h'" "coe_same_stream h' (cg_headers st)"
      by blast
    have at: "length (cg_mesg st) = MAX_MESSAGE_SIZE" "coe_same_stream (cg_headers st) h" "coe_headers_ok (cg_headers st)"
        "cg_psn st = of_nat i" "cg_clocks st = i + 1"
      using less.prems(1) by (simp_all add: coe_at_def)
    have h': "coe_same_stream h' h" "coe_headers_ok h'"
      using coe_same_stream_trans [OF st1(2) at(2)] st1(1) at(3) by simp_all
    have "cg_offset st + p = min ((i + 1) * p) (length content)" using big True less.prems(3) by simp
    then have at1: "coe_at h p content (i + 1) st1"
      using h' at(1,4,5) unfolding coe_at_def by (simp add: st1' psn_mask)
    have off: "cg_offset st1 = cg_offset st + p" by (simp add: st1')
    have "length content - cg_offset st1 < length content - cg_offset st" using True p by (simp add: off)
    moreover have "p dvd length content - cg_offset st1" "cg_offset st1 = (i + 1) * p"
      using less.prems(2,3) big by (simp_all add: off dvd_minus_self flip: diff_diff_left)
    ultimately obtain st' j where "send_coe_packets clk sendto content p threshold pfn st1 = Some st'" "coe_at h p content j st'"
      "cg_offset st' = length content" "cg_calls st' = cg_calls st1" "cg_out st' = cg_out st1"
      "cg_n_bytes_sent st' = cg_n_bytes_sent st1" "j * p = length content"
      using less.hyps [of st1 "i + 1"] at1 by blast
    moreover have "send_coe_packets clk sendto content p threshold pfn st = send_coe_packets clk sendto content p threshold pfn st1"
      using True by (simp add: send_coe_packets_def while_option_unfold [of _ _ st] st1_def)
    moreover have "cg_calls st1 = cg_calls st" "cg_out st1 = cg_out st" "cg_n_bytes_sent st1 = cg_n_bytes_sent st"
      by (simp_all add: st1')
    ultimately show ?thesis by auto
  qed
qed

lemma coe_send_large:
  assumes mesg: "length mesg = MAX_MESSAGE_SIZE" and ready: "coe_ready cm t"
    and p: "2044 < unat (cm_payload_size cm)" "unat (cm_payload_size cm) dvd length content" and arg: "argument_ok arg"
    and sendto: "\<And>i. sendto i"
  shows "\<exists>packet t'. coe_send clk sendto mesg cm content (Some arg) t = Some (Inr (128, [packet]), t')"
proof -
  let ?h = "coe_frame_headers cm (ct_headers t)" and ?thr = "coe_line_threshold cm" and ?pfn = "coe_packet_frame_number t"
  let ?p = "unat (cm_payload_size cm)"
  let ?st = "\<lparr>cg_headers = ?h, cg_mesg = mesg, cg_psn = 0, cg_offset = 0, cg_line_offset = 0, cg_n_bytes_sent = 0,
      cg_clocks = 1, cg_calls = 0, cg_out = []\<rparr>"
  have "coe_at ?h ?p content 0 ?st" using mesg coe_ready_headers [OF ready] by (simp add: coe_at_def)
  from send_coe_packets_large [OF p(1) this, of clk sendto ?thr ?pfn] p(2) obtain st1 j where st1:
      "send_coe_packets clk sendto content ?p ?thr ?pfn ?st = Some st1" "coe_at ?h ?p content j st1"
      "cg_calls st1 = 0" "cg_out st1 = []" "cg_n_bytes_sent st1 = 0"
    by auto
  have sent: "\<exists>packet. length packet = 174 \<and> cg_n_bytes_sent st2 = 128 \<and> cg_out st2 = [packet]"
    if "st2 = send_coe_metadata clk sendto (clk 0) ?thr ?pfn (ct_frame_number t) arg st1" for st2
    using send_coe_metadata_step [OF st1(2) arg, of clk sendto "clk 0" ?thr ?pfn "ct_frame_number t"]
      coe_ready_headers [OF ready] sendto arg that
    by (auto simp: st1 coe_last_packet_def)
  have "cm_payload_size cm \<noteq> 0" using p(1) by auto
  then show ?thesis using ready st1(1) sent by (auto simp: coe_send_def coe_ready_def Let_def)
qed

end
