(* ===== verification/Coe_Data_Plane.thy ===== *)
theory Coe_Data_Plane
  imports Coe_Transmitter Roce_Data_Plane
begin

text \<open>
  \<open>COEDataPlane\<close> (src/src/hololink/emulation/src/linux/coe_data_plane.cpp): the data plane of the
  board for Camera over Ethernet, which reads before each frame where the host wants it.
\<close>

subsection \<open>State\<close>

record coe_data_plane =
  cd_hif_address :: u32
  cd_sif_address :: u32
  cd_vp_address :: u32
  cd_vp_mask :: u32
  cd_frame_end_event :: hsb_event
  cd_metadata :: coe_metadata
  cd_transmitter :: coe_transmitter

definition zero_coe_metadata :: "u8 \<Rightarrow> coe_metadata" where
  "zero_coe_metadata sensor_id =
     \<lparr>cm_dest_mac_low = 0, cm_dest_mac_high = 0, cm_dest_ip_address = 0, cm_frame_size = 0, cm_payload_size = 0,
      cm_dest_port = 0, cm_src_port = 0, cm_mac_dest = replicate 6 0, cm_sensor_info = sensor_id, cm_channel = 0,
      cm_line_threshold_log2 = 0, cm_enable_1722b = False\<rparr>"

text \<open>
  The constructor, with the MAC address of the interface. What it has of \<open>DataPlane\<close> is as for
  \<open>Roce_Data_Plane.new_roce_data_plane\<close>.
\<close>

definition new_coe_data_plane :: "u8 \<Rightarrow> bytes \<Rightarrow> u8 \<Rightarrow> u8 \<Rightarrow> coe_data_plane" where
  "new_coe_data_plane sifs_per_sensor mac data_plane_id sensor_id =
     (let sif0_index = sensor_id * sifs_per_sensor in
      \<lparr>cd_hif_address = 0x02000300 + 0x10000 * ucast data_plane_id,
       cd_sif_address = 0x01000000 + 0x10000 * ucast sensor_id,
       cd_vp_address = 0x1000 + 0x40 * ucast sif0_index,
       cd_vp_mask = push_bit (unat sif0_index) 1,
       cd_frame_end_event = (if sif0_index = 1 then SIF_1_FRAME_END else SIF_0_FRAME_END),
       cd_metadata = zero_coe_metadata sensor_id, cd_transmitter = new_coe_transmitter mac\<rparr>)"

subsection \<open>Before a frame\<close>

text \<open>\<open>update_metadata\<close>. What it assigns before an exception stays assigned.\<close>

definition coe_metadata_registers :: "coe_data_plane \<Rightarrow> (u32 \<times> u32) list" where
  "coe_metadata_registers dp =
     [(cd_vp_address dp + DP_HOST_MAC_LOW, 0), (cd_vp_address dp + DP_HOST_MAC_HIGH, 0),
      (cd_vp_address dp + DP_HOST_IP, 0), (cd_vp_address dp + DP_BUFFER_LENGTH, 0),
      (cd_hif_address dp + DP_PACKET_SIZE, 0), (cd_vp_address dp + DP_HOST_UDP_PORT, 0),
      (cd_hif_address dp + DP_PACKET_UDP_PORT, 0), (cd_vp_address dp + DP_QP, 0)]"

definition mac_of_words :: "u32 \<Rightarrow> u32 \<Rightarrow> bytes" where
  "mac_of_words high low =
     [ucast (drop_bit 8 high AND 0xFF), ucast (drop_bit 0 high AND 0xFF), ucast (drop_bit 24 low AND 0xFF),
      ucast (drop_bit 16 low AND 0xFF), ucast (drop_bit 8 low AND 0xFF), ucast (drop_bit 0 low AND 0xFF)]"

definition coe_update_metadata :: "registers \<Rightarrow> (coe_data_plane, unit) hm" where
  "coe_update_metadata regs = hbind (hgets coe_metadata_registers) (\<lambda>pairs.
     let v = (\<lambda>i. case snd (rm_read_many regs (Some pairs) (int (length pairs))) of
           None \<Rightarrow> 0 | Some avs \<Rightarrow> snd (avs ! i));
         meta = (\<lambda>f. hmodify (\<lambda>dp. dp\<lparr>cd_metadata := f (cd_metadata dp)\<rparr>))
     in hseq
       [meta (\<lambda>m. m\<lparr>cm_dest_mac_low := v 0, cm_dest_mac_high := v 1, cm_dest_ip_address := v 2, cm_frame_size := v 3\<rparr>),
        hthrow_if (0xFFFF div HSB_PAGE_SIZE < v 4) (Runtime_error ''payload_size * HSB_PAGE_SIZE must fit in uint16_t''),
        meta (\<lambda>m. m\<lparr>cm_payload_size := v 4 * HSB_PAGE_SIZE\<rparr>),
        hthrow_if (0xFFFF < v 5) (Runtime_error ''dest_port must be 16-bit unsigned integer''),
        meta (\<lambda>m. m\<lparr>cm_dest_port := ucast (v 5)\<rparr>),
        hthrow_if (0xFFFF < v 6) (Runtime_error ''src_port must be 16-bit unsigned integer''),
        meta (\<lambda>m. m\<lparr>cm_src_port := ucast (v 6), cm_line_threshold_log2 := ucast (drop_bit 25 (v 7)),
          cm_enable_1722b := drop_bit 24 (v 7) AND 0x1 \<noteq> 0, cm_channel := ucast (v 7 AND 0x3F),
          cm_mac_dest := mac_of_words (cm_dest_mac_high m) (cm_dest_mac_low m)\<rparr>)])"

text \<open>
  \<open>DataPlane::send\<close> of a buffer: the number of bytes sent and the packets; \<open>None\<close> when the transmitter
  does not return (see \<open>coe_send\<close>).
\<close>

definition coe_dp_send ::
  "(nat \<Rightarrow> timespec) \<Rightarrow> (nat \<Rightarrow> bool) \<Rightarrow> bytes \<Rightarrow> registers \<Rightarrow> bytes \<Rightarrow> metadata_argument option \<Rightarrow>
   (coe_data_plane, (nat \<times> bytes list) option) hm" where
  "coe_dp_send clock_gettime sendto mesg regs buffer arg =
     hthen (coe_update_metadata regs) (\<lambda>dp.
       case coe_send clock_gettime sendto mesg (cd_metadata dp) buffer arg (cd_transmitter dp) of
         None \<Rightarrow> (Inr None, dp)
       | Some (Inl e, t) \<Rightarrow> (Inl e, dp\<lparr>cd_transmitter := t\<rparr>)
       | Some (Inr sent, t) \<Rightarrow> (Inr (Some sent), dp\<lparr>cd_transmitter := t\<rparr>))"

subsection \<open>What a frame is sent with\<close>

definition coe_board_metadata :: "(u32 \<Rightarrow> u32) \<Rightarrow> coe_data_plane \<Rightarrow> coe_metadata" where
  "coe_board_metadata R dp =
     (let vp = cd_vp_address dp; hif = cd_hif_address dp in
      (cd_metadata dp)
      \<lparr>cm_dest_mac_low := R (vp + DP_HOST_MAC_LOW), cm_dest_mac_high := R (vp + DP_HOST_MAC_HIGH),
       cm_dest_ip_address := R (vp + DP_HOST_IP), cm_frame_size := R (vp + DP_BUFFER_LENGTH),
       cm_payload_size := R (hif + DP_PACKET_SIZE) * 128, cm_dest_port := ucast (R (vp + DP_HOST_UDP_PORT)),
       cm_src_port := ucast (R (hif + DP_PACKET_UDP_PORT)), cm_line_threshold_log2 := ucast (drop_bit 25 (R vp)),
       cm_enable_1722b := drop_bit 24 (R vp) AND 0x1 \<noteq> 0, cm_channel := ucast (R vp AND 0x3F),
       cm_mac_dest := mac_of_words (R (vp + DP_HOST_MAC_HIGH)) (R (vp + DP_HOST_MAC_LOW))\<rparr>)"

lemma coe_update_metadata_run:
  assumes "R (cd_hif_address dp + DP_PACKET_SIZE) \<le> 511" and "R (cd_vp_address dp + DP_HOST_UDP_PORT) \<le> 0xFFFF"
    and "R (cd_hif_address dp + DP_PACKET_UDP_PORT) \<le> 0xFFFF" and "rm_read regs = R"
  shows "coe_update_metadata regs dp = (Inr (), dp\<lparr>cd_metadata := coe_board_metadata R dp\<rparr>)"
  using assms
  by (cases "cd_metadata dp")
    (simp add: coe_update_metadata_def coe_metadata_registers_def rm_read_many_def hbind_def hthen_def Let_def
      coe_board_metadata_def HSB_PAGE_SIZE_def not_less)

text \<open>A size of more than 511 pages is refused; what was sent before stays so.\<close>

lemma coe_update_metadata_size:
  assumes "511 < R (cd_hif_address dp + DP_PACKET_SIZE)" and "rm_read regs = R"
  shows "\<exists>dp'. coe_update_metadata regs dp =
      (Inl (Runtime_error ''payload_size * HSB_PAGE_SIZE must fit in uint16_t''), dp') \<and>
    cd_transmitter dp' = cd_transmitter dp"
  using assms
  by (simp add: coe_update_metadata_def coe_metadata_registers_def rm_read_many_def hbind_def hthen_def Let_def
      HSB_PAGE_SIZE_def)

end
