(* ===== verification/Coe_Data_Path.thy ===== *)
theory Coe_Data_Path
  imports Data_Path Coe_Data_Plane
begin

text \<open>
  From \<open>DataChannel::configure_coe\<close> to the packets: what the host writes to the board is what
  \<open>COEDataPlane\<close> reads before it sends a frame.
\<close>

subsection \<open>What the board reads back\<close>

lemma coe_registers_values:
  fixes R and channel frame_size k payload_size and dest
  assumes at: "plane_addresses dc i p n"
  defines "R' \<equiv> coe_registers R dc channel frame_size k payload_size dest"
  shows "R' (dc_vp_address dc) = cfg_1722B k channel"
    "R' (dc_vp_address dc + DP_BUFFER_LENGTH) = ucast frame_size"
    "R' (dc_vp_address dc + DP_HOST_MAC_LOW) = snd (mac_words (to_mac dest))"
    "R' (dc_vp_address dc + DP_HOST_MAC_HIGH) = fst (mac_words (to_mac dest))"
    "R' (dc_vp_address dc + DP_HOST_IP) = to_ip dest"
    "R' (dc_vp_address dc + DP_HOST_UDP_PORT) = to_port dest"
    "R' (dc_hif_address dc + DP_PACKET_SIZE) = drop_bit 7 payload_size"
    "R' (dc_hif_address dc + DP_PACKET_UDP_PORT) = DATA_SOURCE_UDP_PORT"
proof -
  note apart = plane_blocks_apart [OF at] blocks_apart_simps
  note defs = R'_def coe_registers_def masked_on_def common_registers_def common_writes_def masked_off_def
  note vp = upds_enable_other [OF packetizer_apart(1) [OF at]]
    and hif = upds_enable_other [OF packetizer_apart(2) [OF at]]
  show "R' (dc_vp_address dc) = cfg_1722B k channel"
    unfolding defs by (simp add: apart)
  show "R' (dc_vp_address dc + DP_BUFFER_LENGTH) = ucast frame_size"
    "R' (dc_vp_address dc + DP_HOST_MAC_LOW) = snd (mac_words (to_mac dest))"
    "R' (dc_vp_address dc + DP_HOST_MAC_HIGH) = fst (mac_words (to_mac dest))"
    "R' (dc_vp_address dc + DP_HOST_IP) = to_ip dest"
    "R' (dc_vp_address dc + DP_HOST_UDP_PORT) = to_port dest"
    unfolding defs by (simp_all add: apart vp)
  show "R' (dc_hif_address dc + DP_PACKET_SIZE) = drop_bit 7 payload_size"
    "R' (dc_hif_address dc + DP_PACKET_UDP_PORT) = DATA_SOURCE_UDP_PORT"
    unfolding defs by (simp_all add: apart hif)
qed

text \<open>The board reads the MAC address that the host has written.\<close>

lemma mac_of_words_host:
  assumes "length mac = 6"
  shows "mac_of_words (fst (mac_words mac)) (snd (mac_words mac)) = mac"
proof -
  obtain a b c d e f where mac: "mac = [a, b, c, d, e, f]"
    using assms by (auto simp: eval_nat_numeral length_Suc_conv)
  have ff: "(x :: u32) AND 0xFF = take_bit 8 x" for x by (simp add: take_bit_eq_mask mask_eq_exp_minus_1)
  have small: "bit x j \<Longrightarrow> j < 8" for x :: u8 and j using bit_imp_le_length [of x j] by simp
  have hi: "(ucast (take_bit 8 (drop_bit 8 (push_bit 8 (ucast x) OR ucast y :: u32))) :: u8) = x"
      "(ucast (take_bit 8 (push_bit 8 (ucast x) OR ucast y :: u32)) :: u8) = y" for x y :: u8
    by (intro bit_word_eqI; simp add: bit_simps; use small in force)+
  have lo: "(ucast (take_bit 8 (drop_bit 24 (push_bit 24 (ucast w) OR push_bit 16 (ucast x) OR push_bit 8 (ucast y) OR ucast z :: u32))) :: u8) = w"
      "(ucast (take_bit 8 (drop_bit 16 (push_bit 24 (ucast w) OR push_bit 16 (ucast x) OR push_bit 8 (ucast y) OR ucast z :: u32))) :: u8) = x"
      "(ucast (take_bit 8 (drop_bit 8 (push_bit 24 (ucast w) OR push_bit 16 (ucast x) OR push_bit 8 (ucast y) OR ucast z :: u32))) :: u8) = y"
      "(ucast (take_bit 8 (push_bit 24 (ucast w) OR push_bit 16 (ucast x) OR push_bit 8 (ucast y) OR ucast z :: u32)) :: u8) = z"
    for w x y z :: u8
    by (intro bit_word_eqI; simp add: bit_simps; use small in force)+
  have words: "mac_words [a, b, c, d, e, f] = (push_bit 8 (ucast a) OR ucast b,
      push_bit 24 (ucast c) OR push_bit 16 (ucast d) OR push_bit 8 (ucast e) OR ucast f)"
    by (simp add: mac_words_def)
  show ?thesis unfolding words mac_of_words_def ff drop_bit_0 id_apply fst_conv snd_conv hi lo mac by (rule refl)
qed

text \<open>The fields of the register of a channel.\<close>

lemma cfg_1722B_fields:
  assumes "k < 128" and "unat channel < 64"
  shows "(ucast (drop_bit 25 (cfg_1722B k channel)) :: u8) = of_nat k" "drop_bit 24 (cfg_1722B k channel) AND 1 \<noteq> 0"
    "(ucast (cfg_1722B k channel AND 0x3F) :: u8) = channel"
proof -
  have k: "bit (of_nat k :: 'a :: len word) j \<longleftrightarrow> j < LENGTH('a) \<and> bit k j" for j by (simp add: bit_of_nat_iff)
  have "(of_nat k :: u32) < 2 ^ 7" using assms(1) unat_of_nat_u32 [of k] by (simp add: word_less_nat_alt)
  then have kb: "j < 32 \<Longrightarrow> bit k j \<Longrightarrow> j < 7" for j using bit_small [of "of_nat k :: u32" 7 j] by (simp add: k)
  have c: "bit channel j \<Longrightarrow> j < 6" for j using bit_small [of channel 6 j] assms(2) by (simp add: word_less_nat_alt)
  have m: "(x :: u32) AND 0x3F = take_bit 6 x" for x by (simp add: take_bit_eq_mask mask_eq_exp_minus_1)
  show "(ucast (drop_bit 25 (cfg_1722B k channel)) :: u8) = of_nat k"
    unfolding cfg_1722B_def using kb c
    by (intro bit_word_eqI) (fastforce simp: bit_simps k)
  show "drop_bit 24 (cfg_1722B k channel) AND 1 \<noteq> 0"
    unfolding cfg_1722B_def by (simp add: bit_simps flip: bit_iff_and_drop_bit_eq_1)
  show "(ucast (cfg_1722B k channel AND 0x3F) :: u8) = channel"
    unfolding cfg_1722B_def m using c
    by (intro bit_word_eqI) (auto simp: bit_simps)
qed

definition coe_configured_metadata ::
  "u8 \<Rightarrow> u8 \<Rightarrow> u64 \<Rightarrow> nat \<Rightarrow> u32 \<Rightarrow> destination \<Rightarrow> coe_metadata" where
  "coe_configured_metadata sensor_info channel frame_size k payload_size dest =
     \<lparr>cm_dest_mac_low = snd (mac_words (to_mac dest)), cm_dest_mac_high = fst (mac_words (to_mac dest)),
      cm_dest_ip_address = to_ip dest, cm_frame_size = ucast frame_size, cm_payload_size = payload_size,
      cm_dest_port = ucast (to_port dest), cm_src_port = ucast DATA_SOURCE_UDP_PORT, cm_mac_dest = to_mac dest,
      cm_sensor_info = sensor_info, cm_channel = channel, cm_line_threshold_log2 = of_nat k, cm_enable_1722b = True\<rparr>"

lemma coe_board_metadata_configured:
  assumes at: "plane_addresses dc i p n" and payload: "take_bit 7 payload_size = 0" and mac: "length (to_mac dest) = 6"
    and k: "k < 128" and channel: "unat channel < 64"
    and dp: "cd_vp_address dp = dc_vp_address dc" "cd_hif_address dp = dc_hif_address dc"
  shows "coe_board_metadata (coe_registers R dc channel frame_size k payload_size dest) dp =
    coe_configured_metadata (cm_sensor_info (cd_metadata dp)) channel frame_size k payload_size dest"
  using cfg_1722B_fields [OF k channel]
  by (simp add: coe_board_metadata_def dp coe_registers_values [OF at] Let_def coe_configured_metadata_def
      mac_of_words_host [OF mac] pages_round_trip_left pages_round_trip payload)

subsection \<open>A frame of a configured channel\<close>

lemma coe_payload_pages:
  assumes "compute_payload_size 46 mtu = Inr payload_size"
  shows "128 \<le> unat payload_size" "take_bit 7 payload_size = 0" "unat payload_size = (unat mtu - 46) div 128 * 128"
proof -
  have le: "unat (46 :: u32) + 128 < unat mtu"
    using assms by (simp add: compute_payload_size_def CORE_PAGE_SIZE_def not_le word_less_nat_alt split: if_splits)
  obtain p where p: "compute_payload_size 46 mtu = Inr p" "unat p = (unat mtu - unat (46 :: u32)) div 128 * 128"
    using compute_payload_size_ok [OF le] by blast
  show size: "unat payload_size = (unat mtu - 46) div 128 * 128" using assms p by simp
  have "(1 :: nat) \<le> (unat mtu - 46) div 128" using le by (simp add: le_div_geq)
  then show "128 \<le> unat payload_size" using size by simp
  have "unat (take_bit 7 payload_size) = 0" using size by (simp add: take_bit_eq_mod unat_mod)
  then show "take_bit 7 payload_size = 0" by (simp add: unat_eq_zero)
qed

text \<open>A channel that is set up, and the data plane of the board it is set up on.\<close>

definition coe_configured ::
  "data_channel \<Rightarrow> u8 \<Rightarrow> u64 \<Rightarrow> nat \<Rightarrow> u32 \<Rightarrow> destination \<Rightarrow> (u32 \<Rightarrow> u32) \<Rightarrow> coe_data_plane \<Rightarrow> bool" where
  "coe_configured dc channel frame_size k payload_size dest regs dp \<longleftrightarrow>
     compute_payload_size 46 (channel_mtu dc) = Inr payload_size \<and> unat payload_size \<le> 0xFFFF \<and>
     length (to_mac dest) = 6 \<and> to_port dest \<le> 0xFFFF \<and> k < 128 \<and> unat channel < 64 \<and>
     cd_vp_address dp = dc_vp_address dc \<and> cd_hif_address dp = dc_hif_address dc \<and>
     coe_headers_ok (ct_headers (cd_transmitter dp)) \<and>
     (\<exists>R i p n. plane_addresses dc i p n \<and> regs = coe_registers R dc channel frame_size k payload_size dest)"

definition coe_channel_metadata :: "u8 \<Rightarrow> u64 \<Rightarrow> nat \<Rightarrow> u32 \<Rightarrow> destination \<Rightarrow> coe_data_plane \<Rightarrow> coe_metadata" where
  "coe_channel_metadata channel frame_size k payload_size dest dp =
     coe_configured_metadata (cm_sensor_info (cd_metadata dp)) channel frame_size k payload_size dest"

lemma coe_update_metadata_configured:
  assumes conf: "coe_configured dc channel frame_size k payload_size dest (rm_read regs) dp"
  defines "cm \<equiv> coe_channel_metadata channel frame_size k payload_size dest dp"
  shows "coe_update_metadata regs dp = (Inr (), dp\<lparr>cd_metadata := cm\<rparr>)" "coe_ready cm (cd_transmitter dp)"
    "cm_payload_size cm = payload_size" "cm_channel cm = channel"
proof -
  from conf obtain R i p n where at: "plane_addresses dc i p n"
    and regs: "rm_read regs = coe_registers R dc channel frame_size k payload_size dest"
    unfolding coe_configured_def by blast
  from conf have c: "compute_payload_size 46 (channel_mtu dc) = Inr payload_size" "unat payload_size \<le> 0xFFFF"
      "length (to_mac dest) = 6" "to_port dest \<le> 0xFFFF" "k < 128" "unat channel < 64"
      "cd_vp_address dp = dc_vp_address dc" "cd_hif_address dp = dc_hif_address dc"
      "coe_headers_ok (ct_headers (cd_transmitter dp))"
    unfolding coe_configured_def by blast+
  note v = coe_registers_values [OF at, where R = R and channel = channel and frame_size = frame_size and k = k
      and payload_size = payload_size and dest = dest]
  have "unat (drop_bit 7 payload_size) \<le> 511" using c(2) by (simp add: drop_bit_eq_div unat_div)
  then have pages: "drop_bit 7 payload_size \<le> 511" by (simp add: word_le_nat_alt)
  have cm: "coe_board_metadata (coe_registers R dc channel frame_size k payload_size dest) dp = cm"
    unfolding cm_def coe_channel_metadata_def
    by (rule coe_board_metadata_configured [OF at coe_payload_pages(2) [OF c(1)] c(3,5,6,7,8)])
  show "coe_update_metadata regs dp = (Inr (), dp\<lparr>cd_metadata := cm\<rparr>)"
    using coe_update_metadata_run [OF _ _ _ regs, of dp] v(6,7,8) pages c(4)
    by (simp add: c(7,8) cm DATA_SOURCE_UDP_PORT_def)
  show "coe_ready cm (cd_transmitter dp)" "cm_payload_size cm = payload_size" "cm_channel cm = channel"
    using c(3,9) by (simp_all add: cm_def coe_channel_metadata_def coe_configured_metadata_def coe_ready_def)
qed

lemma coe_dp_send_configured:
  assumes conf: "coe_configured dc channel frame_size k payload_size dest (rm_read regs) dp"
    and payload: "unat payload_size \<le> 2044" and mesg: "length mesg = MAX_MESSAGE_SIZE" and arg: "argument_ok arg"
  defines "cm \<equiv> coe_channel_metadata channel frame_size k payload_size dest dp"
  shows "\<exists>dp'. coe_dp_send clk sendto mesg regs content (Some arg) dp =
      (Inr (Some (coe_payload_total (accepted sendto 0 (coe_transmission clk sendto cm content arg (cd_transmitter dp))),
                  accepted sendto 0 (coe_transmission clk sendto cm content arg (cd_transmitter dp)))), dp') \<and>
    ct_frame_number (cd_transmitter dp') = ct_frame_number (cd_transmitter dp) + 1 \<and>
    coe_configured dc channel frame_size k payload_size dest (rm_read regs) dp'"
proof -
  note up = coe_update_metadata_configured [OF conf, folded cm_def]
  have pos: "0 < unat payload_size"
    using conf coe_payload_pages(1) [of "channel_mtu dc" payload_size] by (simp add: coe_configured_def)
  from coe_send_frame [OF mesg up(2) _ _ arg, of clk sendto content] pos payload obtain t' where
      "coe_send clk sendto mesg cm content (Some arg) (cd_transmitter dp) =
        Some (Inr (coe_payload_total (accepted sendto 0 (coe_transmission clk sendto cm content arg (cd_transmitter dp))),
                 accepted sendto 0 (coe_transmission clk sendto cm content arg (cd_transmitter dp))), t')"
      "ct_frame_number t' = ct_frame_number (cd_transmitter dp) + 1" "coe_ready cm t'"
    by (auto simp: up(3))
  then show ?thesis using up(1) conf by (simp add: coe_dp_send_def coe_configured_def coe_ready_def)
qed

text \<open>With a payload of 2048 bytes or more, as the MTU of jumbo frames gives, no piece of the frame goes out.\<close>

lemma coe_dp_send_large:
  assumes conf: "coe_configured dc channel frame_size k payload_size dest (rm_read regs) dp"
    and payload: "2044 < unat payload_size" "unat payload_size dvd length content"
    and mesg: "length mesg = MAX_MESSAGE_SIZE" and arg: "argument_ok arg" and sendto: "\<And>i. sendto i"
  shows "\<exists>packet dp'. coe_dp_send clk sendto mesg regs content (Some arg) dp = (Inr (Some (128, [packet])), dp')"
proof -
  note up = coe_update_metadata_configured [OF conf]
  from coe_send_large [OF mesg up(2), of content arg sendto clk] payload arg sendto obtain packet t' where
    "coe_send clk sendto mesg (coe_channel_metadata channel frame_size k payload_size dest dp) content (Some arg)
      (cd_transmitter dp) = Some (Inr (128, [packet]), t')"
    by (auto simp: up(3))
  then show ?thesis using up(1) by (simp add: coe_dp_send_def)
qed

end
