(* ===== verification/Coe_Receiver.thy ===== *)
theory Coe_Receiver
  imports Data_Path
begin

text \<open>
  The receiving side of Camera over Ethernet: \<open>LinuxCoeReceiver\<close>
  (src/src/hololink/operators/linux_coe_receiver/linux_coe_receiver.cpp and .hpp). A thread receives
  Ethernet frames into one of three buffers; at the end of a video frame it exchanges that buffer with
  the available one, and the application exchanges the available one with the one it is busy with.
  The exchanges, the flag that wakes the application and the packets are steps of their own, so that
  the two threads can come between each other as they do in the program. The calls of CUDA that copy
  a frame and wait for the copy are not modelled, nor is the callback.
\<close>

subsection \<open>State\<close>

record coe_rx_config =
  crx_buffer_size :: u64
  crx_channel :: u16

record coe_rx_metadata =
  cl_frame_packets_received :: u32
  cl_frame_bytes_received :: u32
  cl_received_frame_number :: u32
  cl_frame_start :: timespec
  cl_frame_end :: timespec
  cl_received :: timespec
  cl_frame_metadata :: frame_metadata
  cl_frame_number :: u32

record coe_descriptor =
  cdesc_memory :: bytes
  cdesc_metadata :: coe_rx_metadata

text \<open>Where the receiving thread is, and whether the application is between its wait and its exchange.\<close>

datatype coe_phase = Looping | Signalling | Stopped

text \<open>
  The members of the object and the variables of \<open>run\<close>. A descriptor is known by its number, a null
  pointer is \<open>None\<close>.
\<close>

record coe_receiver =
  cr_descriptors :: "coe_descriptor list"
  cr_receiving :: nat
  cr_busy :: "nat option"
  cr_available :: "nat option"
  cr_ready :: bool
  cr_exit :: bool
  cr_frame_number :: extended_counter
  cr_frame_count :: u32
  cr_packet_count :: u32
  cr_frame_packets_received :: u32
  cr_frame_bytes_received :: u32
  cr_frame_start :: timespec
  cr_phase :: coe_phase
  cr_taking :: bool

definition zero_coe_rx_metadata :: coe_rx_metadata where
  "zero_coe_rx_metadata =
     \<lparr>cl_frame_packets_received = 0, cl_frame_bytes_received = 0, cl_received_frame_number = 0,
      cl_frame_start = zero_time, cl_frame_end = zero_time, cl_received = zero_time,
      cl_frame_metadata = lm_frame_metadata zero_receiver_metadata, cl_frame_number = 0\<rparr>"

text \<open>The size of a buffer, rounded up to 128 bytes.\<close>

definition coe_buffer_size :: "coe_rx_config \<Rightarrow> nat" where
  "coe_buffer_size cfg = (case core_round_up (crx_buffer_size cfg) 128 of Inl e \<Rightarrow> 0 | Inr n \<Rightarrow> unat n)"

text \<open>The state at the start of the loop of \<open>run\<close>; \<open>memory\<close> is what the allocation holds.\<close>

definition start_coe_receiver :: "(nat \<Rightarrow> bytes) \<Rightarrow> coe_receiver" where
  "start_coe_receiver memory =
     \<lparr>cr_descriptors = map (\<lambda>i. \<lparr>cdesc_memory = memory i, cdesc_metadata = zero_coe_rx_metadata\<rparr>) [0..<3],
      cr_receiving = 0, cr_busy = Some 1, cr_available = Some 2, cr_ready = False, cr_exit = False,
      cr_frame_number = new_extended_counter, cr_frame_count = 0, cr_packet_count = 0,
      cr_frame_packets_received = 0, cr_frame_bytes_received = 0, cr_frame_start = zero_time,
      cr_phase = Looping, cr_taking = False\<rparr>"

definition coe_on_receiving :: "(coe_descriptor \<Rightarrow> coe_descriptor) \<Rightarrow> coe_receiver \<Rightarrow> coe_receiver" where
  "coe_on_receiving f st = st\<lparr>cr_descriptors := (cr_descriptors st)
     [cr_receiving st := f (cr_descriptors st ! cr_receiving st)]\<rparr>"

subsection \<open>Receiving a packet\<close>

datatype coe_outcome =
    Coe_running coe_receiver
  | Coe_left coe_receiver
  | Coe_thrown hsb_error coe_receiver
  | Coe_undefined

definition AVTP_ETHERTYPE :: u16 where "AVTP_ETHERTYPE = 0x22F0"
definition NTSCF :: u8 where "NTSCF = 0x82"
definition ACF_MESSAGE_TYPE :: u8 where "ACF_MESSAGE_TYPE = 0x0C"
definition COE_FRAME_END :: u8 where "COE_FRAME_END = 0x02"

text \<open>
  The channel field, the flags, the address field and the payload of a packet of the stack. The limit
  of the deserializer is the number of bytes received.
\<close>

definition parse_acf :: "deserializer \<Rightarrow> (u16 \<times> u8 \<times> u32 \<times> bytes) option" where
  "parse_acf d =
     Option.bind (next_uint8 d) (\<lambda>(acf_message_type, d). if acf_message_type \<noteq> ACF_MESSAGE_TYPE then None else
     Option.bind (next_uint8 d) (\<lambda>(acf_message_length, d).
     Option.bind (next_uint8 d) (\<lambda>(reserved_1, d).
     Option.bind (next_uint8 d) (\<lambda>(reserved_2, d).
     Option.bind (next_uint32_be d) (\<lambda>(timestamp_sec, d).
     Option.bind (next_uint32_be d) (\<lambda>(timestamp_ns, d).
     Option.bind (next_uint8 d) (\<lambda>(sequence_number_c, d).
     Option.bind (next_uint16_be d) (\<lambda>(channel, d).
     Option.bind (next_uint8 d) (\<lambda>(flags, d).
     Option.bind (next_uint32_be d) (\<lambda>(address, d).
     Option.bind (next_pointer d 0) (\<lambda>(payload, d).
     if d_limit d < d_position d then None else Some (channel, flags, address, unread d))))))))))))"

definition parse_coe :: "bytes \<Rightarrow> (u16 \<times> u8 \<times> u32 \<times> bytes) option" where
  "parse_coe received =
     Option.bind (next_buffer (new_deserializer received (length received)) (replicate 6 0)) (\<lambda>(destination_mac, d).
     Option.bind (next_buffer d (replicate 6 0)) (\<lambda>(source_mac, d).
     Option.bind (next_uint16_be d) (\<lambda>(ethertype, d). if ethertype \<noteq> AVTP_ETHERTYPE then None else
     Option.bind (next_uint8 d) (\<lambda>(subtype, d). if subtype \<noteq> NTSCF then None else
     Option.bind (next_uint16_be d) (\<lambda>(ntscf_data_length, d).
     Option.bind (next_uint8 d) (\<lambda>(sequence, d).
     Option.bind (next_buffer d (replicate 8 0)) (\<lambda>(stream_id, d).
     parse_acf d)))))))"

definition coe_store :: "nat \<Rightarrow> bytes \<Rightarrow> coe_receiver \<Rightarrow> coe_receiver" where
  "coe_store p bs = coe_on_receiving (\<lambda>d. d\<lparr>cdesc_memory := put_bytes p bs (cdesc_memory d)\<rparr>)"

text \<open>The payload goes where the packet says, when it fits.\<close>

definition coe_cache :: "coe_rx_config \<Rightarrow> u32 \<Rightarrow> bytes \<Rightarrow> coe_receiver \<Rightarrow> coe_receiver" where
  "coe_cache cfg address payload st =
     (let payload_bytes = of_nat (length payload) :: u32 in
      if ucast (address + payload_bytes) \<le> crx_buffer_size cfg
      then (coe_store (unat address) payload st)
             \<lparr>cr_frame_bytes_received := cr_frame_bytes_received st + payload_bytes\<rparr>
      else st)"

text \<open>The end of a frame, up to the exchange of the buffers.\<close>

definition coe_record_frame :: "timespec \<Rightarrow> frame_metadata \<Rightarrow> coe_receiver \<Rightarrow> coe_receiver" where
  "coe_record_frame now md st =
     (let (number, counter) = xc_update (md_frame_number md) (cr_frame_number st) in
      coe_on_receiving (\<lambda>d. d\<lparr>cdesc_metadata :=
         \<lparr>cl_frame_packets_received = cr_frame_packets_received st, cl_frame_bytes_received = cr_frame_bytes_received st,
          cl_received_frame_number = cr_frame_count st, cl_frame_start = cr_frame_start st, cl_frame_end = now,
          cl_received = now, cl_frame_metadata = md, cl_frame_number = number\<rparr>\<rparr>)
        (st\<lparr>cr_frame_number := counter\<rparr>))"

definition coe_frame_end :: "timespec \<Rightarrow> bytes \<Rightarrow> coe_receiver \<Rightarrow> coe_outcome" where
  "coe_frame_end now payload st0 =
     (let st = st0\<lparr>cr_frame_count := cr_frame_count st0 + 1\<rparr> in
      case deserialize_metadata payload of
        Inl e \<Rightarrow> Coe_thrown e st
      | Inr md \<Rightarrow>
          let st = coe_record_frame now md st in
          (case cr_available st of
             None \<Rightarrow> Coe_undefined
           | Some a \<Rightarrow> Coe_running (st\<lparr>cr_receiving := a, cr_available := Some (cr_receiving st), cr_phase := Signalling\<rparr>)))"

definition coe_packet_arrived :: "timespec \<Rightarrow> coe_receiver \<Rightarrow> coe_receiver" where
  "coe_packet_arrived now st =
     st\<lparr>cr_packet_count := cr_packet_count st + 1,
        cr_frame_packets_received := cr_frame_packets_received st + 1,
        cr_frame_start := (if cr_frame_bytes_received st = 0 then now else cr_frame_start st)\<rparr>"

definition coe_receive_packet :: "coe_rx_config \<Rightarrow> timespec \<Rightarrow> bytes \<Rightarrow> coe_receiver \<Rightarrow> coe_outcome" where
  "coe_receive_packet cfg now received st0 =
     (let st = coe_packet_arrived now st0 in
      case parse_coe received of
        None \<Rightarrow> Coe_running st
      | Some (channel, flags, address, payload) \<Rightarrow>
          if channel AND 0x3F \<noteq> crx_channel cfg then Coe_running st
          else
            let st = coe_cache cfg (address AND 0xFFFFFFF) payload st
            in if flags AND COE_FRAME_END \<noteq> 0 then coe_frame_end now payload st else Coe_running st)"

text \<open>A round of the loop, with what \<open>recv\<close> and the clock give.\<close>

definition coe_receive_step :: "coe_rx_config \<Rightarrow> recv_call \<Rightarrow> coe_receiver \<Rightarrow> coe_outcome" where
  "coe_receive_step cfg rc st =
     (case rc_now rc of
        None \<Rightarrow> Coe_left st
      | Some now \<Rightarrow>
          if rc_bytes rc = [] then
            if rc_try_again rc then if cr_exit st then Coe_left st else Coe_running st
            else Coe_left st
          else coe_receive_packet cfg now (take RX_PACKET_SIZE (rc_bytes rc)) st)"

text \<open>After the exchange: the application is woken, and the new buffer is filled with \<open>0xFF\<close>.\<close>

definition coe_signal :: "coe_rx_config \<Rightarrow> coe_receiver \<Rightarrow> coe_receiver" where
  "coe_signal cfg st =
     (coe_on_receiving (\<lambda>d. d\<lparr>cdesc_memory := put_bytes 0 (replicate (coe_buffer_size cfg) 0xFF) (cdesc_memory d)\<rparr>)
        (st\<lparr>cr_ready := True\<rparr>))
       \<lparr>cr_frame_packets_received := 0, cr_frame_bytes_received := 0, cr_phase := Looping\<rparr>"

text \<open>After the loop.\<close>

definition coe_stop :: "coe_receiver \<Rightarrow> coe_receiver" where
  "coe_stop st = st\<lparr>cr_busy := None, cr_available := None, cr_phase := Stopped\<rparr>"

subsection \<open>The application\<close>

text \<open>\<open>wait\<close>, at the end of its critical section: whether a frame was signalled in time.\<close>

definition coe_wait :: "coe_receiver \<Rightarrow> bool \<times> coe_receiver" where
  "coe_wait st = (cr_ready st, st\<lparr>cr_ready := False, cr_taking := cr_ready st\<rparr>)"

text \<open>
  The rest of \<open>get_next_frame\<close>: the metadata and the bytes copied to the application; \<open>None\<close> when \<open>run\<close>
  has returned. The copy reads as many bytes as the application's buffer has.
\<close>

definition coe_take :: "coe_rx_config \<Rightarrow> coe_receiver \<Rightarrow> (coe_rx_metadata \<times> bytes) option \<times> coe_receiver" where
  "coe_take cfg st =
     (case cr_available st of
        None \<Rightarrow> None
      | Some a \<Rightarrow>
          let d = cr_descriptors st ! a in Some (cdesc_metadata d, take (unat (crx_buffer_size cfg)) (cdesc_memory d)),
      st\<lparr>cr_busy := cr_available st, cr_available := cr_busy st, cr_taking := False\<rparr>)"

definition coe_get_next_frame :: "coe_rx_config \<Rightarrow> coe_receiver \<Rightarrow> (coe_rx_metadata \<times> bytes) option \<times> coe_receiver" where
  "coe_get_next_frame cfg st = (let (r, st) = coe_wait st in if r then coe_take cfg st else (None, st))"

definition coe_frames_ready :: "coe_receiver \<Rightarrow> bool" where
  "coe_frames_ready st = cr_ready st"

definition coe_close :: "coe_receiver \<Rightarrow> coe_receiver" where
  "coe_close st = st\<lparr>cr_exit := True\<rparr>"

text \<open>The deadline of the wait.\<close>

definition add_ms :: "timespec \<Rightarrow> u64 \<Rightarrow> timespec" where
  "add_ms ts ms =
     (let us = ms * 1000; ns = us * 1000 + tv_nsec ts
      in \<lparr>tv_sec = tv_sec ts + ns div 1000000000, tv_nsec = ns mod 1000000000\<rparr>)"

subsection \<open>The two threads\<close>

inductive coe_step :: "coe_rx_config \<Rightarrow> coe_receiver \<Rightarrow> coe_receiver \<Rightarrow> bool" for cfg where
  coe_round: "cr_phase st = Looping \<Longrightarrow> coe_receive_step cfg rc st = Coe_running st' \<Longrightarrow> coe_step cfg st st'"
| coe_leave: "cr_phase st = Looping \<Longrightarrow> coe_receive_step cfg rc st = Coe_left st' \<Longrightarrow> coe_step cfg st (coe_stop st')"
| coe_wake: "cr_phase st = Signalling \<Longrightarrow> coe_step cfg st (coe_signal cfg st)"
| coe_waited: "\<not> cr_taking st \<Longrightarrow> coe_step cfg st (snd (coe_wait st))"
| coe_taken: "cr_taking st \<Longrightarrow> coe_step cfg st (snd (coe_take cfg st))"
| coe_closing: "coe_step cfg st (coe_close st)"

inductive coe_reachable :: "coe_rx_config \<Rightarrow> coe_receiver \<Rightarrow> bool" for cfg where
  coe_start: "(\<And>i. i < 3 \<Longrightarrow> length (memory i) = coe_buffer_size cfg) \<Longrightarrow> coe_reachable cfg (start_coe_receiver memory)"
| coe_next: "coe_reachable cfg st \<Longrightarrow> coe_step cfg st st' \<Longrightarrow> coe_reachable cfg st'"

inductive_cases coe_stepE: "coe_step cfg st st'"

subsection \<open>The buffers\<close>

text \<open>While the receiver runs, each of the three buffers is in one hand.\<close>

definition coe_buffers_apart :: "coe_receiver \<Rightarrow> bool" where
  "coe_buffers_apart st \<longleftrightarrow>
     (\<exists>b a. cr_busy st = Some b \<and> cr_available st = Some a \<and> distinct [cr_receiving st, b, a] \<and>
        {cr_receiving st, b, a} = {..<3})"

definition coe_ok :: "coe_rx_config \<Rightarrow> coe_receiver \<Rightarrow> bool" where
  "coe_ok cfg st \<longleftrightarrow>
     length (cr_descriptors st) = 3 \<and> (\<forall>d \<in> set (cr_descriptors st). length (cdesc_memory d) = coe_buffer_size cfg) \<and>
     (cr_phase st \<noteq> Stopped \<longrightarrow> coe_buffers_apart st) \<and> (cr_phase st = Stopped \<longrightarrow> cr_busy st = None \<and> cr_available st = None)"

lemma coe_ok_receiving: "coe_ok cfg st \<Longrightarrow> cr_phase st \<noteq> Stopped \<Longrightarrow> cr_receiving st < length (cr_descriptors st)"
  by (auto simp: coe_ok_def coe_buffers_apart_def)

lemma start_coe_receiver_ok:
  "(\<And>i. i < 3 \<Longrightarrow> length (memory i) = coe_buffer_size cfg) \<Longrightarrow> coe_ok cfg (start_coe_receiver memory)"
  by (auto simp: coe_ok_def start_coe_receiver_def coe_buffers_apart_def)

lemma coe_on_receiving_fields [simp]:
  "cr_receiving (coe_on_receiving f st) = cr_receiving st" "cr_busy (coe_on_receiving f st) = cr_busy st"
  "cr_available (coe_on_receiving f st) = cr_available st" "cr_ready (coe_on_receiving f st) = cr_ready st"
  "cr_exit (coe_on_receiving f st) = cr_exit st" "cr_frame_number (coe_on_receiving f st) = cr_frame_number st"
  "cr_frame_count (coe_on_receiving f st) = cr_frame_count st"
  "cr_frame_packets_received (coe_on_receiving f st) = cr_frame_packets_received st"
  "cr_frame_bytes_received (coe_on_receiving f st) = cr_frame_bytes_received st"
  "cr_frame_start (coe_on_receiving f st) = cr_frame_start st"
  "cr_phase (coe_on_receiving f st) = cr_phase st" "cr_taking (coe_on_receiving f st) = cr_taking st"
  "length (cr_descriptors (coe_on_receiving f st)) = length (cr_descriptors st)"
  by (simp_all add: coe_on_receiving_def)

lemma coe_descriptors_on_receiving:
  "cr_receiving st < length (cr_descriptors st) \<Longrightarrow>
   cr_descriptors (coe_on_receiving f st) ! cr_receiving st = f (cr_descriptors st ! cr_receiving st)"
  "i \<noteq> cr_receiving st \<Longrightarrow> cr_descriptors (coe_on_receiving f st) ! i = cr_descriptors st ! i"
  by (simp_all add: coe_on_receiving_def)

lemma coe_memory_on_receiving:
  assumes "\<And>d. length (cdesc_memory (f d)) = length (cdesc_memory d)"
    and "\<forall>d \<in> set (cr_descriptors st). length (cdesc_memory d) = n" and "d \<in> set (cr_descriptors (coe_on_receiving f st))"
  shows "length (cdesc_memory d) = n"
proof (cases "cr_receiving st < length (cr_descriptors st)")
  case True
  then have "d \<in> insert (f (cr_descriptors st ! cr_receiving st)) (set (cr_descriptors st))"
    using assms(3) set_update_subset_insert by (fastforce simp: coe_on_receiving_def)
  then show ?thesis using assms(1,2) True by auto
next
  case False
  then show ?thesis using assms(2,3) by (simp add: coe_on_receiving_def list_update_beyond)
qed

lemma coe_ok_on_receiving:
  assumes "coe_ok cfg st" and "\<And>d. length (cdesc_memory (f d)) = length (cdesc_memory d)"
  shows "coe_ok cfg (coe_on_receiving f st)"
  using assms(1) coe_memory_on_receiving [OF assms(2), of st]
  unfolding coe_ok_def coe_buffers_apart_def coe_on_receiving_fields by blast

lemma coe_ok_update [simp]:
  "coe_ok cfg (st\<lparr>cr_ready := x0\<rparr>) = coe_ok cfg st" "coe_ok cfg (st\<lparr>cr_exit := x1\<rparr>) = coe_ok cfg st"
  "coe_ok cfg (st\<lparr>cr_frame_number := x2\<rparr>) = coe_ok cfg st" "coe_ok cfg (st\<lparr>cr_frame_count := x3\<rparr>) = coe_ok cfg st"
  "coe_ok cfg (st\<lparr>cr_packet_count := x4\<rparr>) = coe_ok cfg st"
  "coe_ok cfg (st\<lparr>cr_frame_packets_received := x5\<rparr>) = coe_ok cfg st"
  "coe_ok cfg (st\<lparr>cr_frame_bytes_received := x6\<rparr>) = coe_ok cfg st"
  "coe_ok cfg (st\<lparr>cr_frame_start := x7\<rparr>) = coe_ok cfg st" "coe_ok cfg (st\<lparr>cr_taking := x8\<rparr>) = coe_ok cfg st"
  by (simp_all add: coe_ok_def coe_buffers_apart_def)

lemma coe_ok_cache:
  assumes "coe_ok cfg st" shows "coe_ok cfg (coe_cache cfg' address payload st)"
proof -
  have "coe_ok cfg (coe_store p payload st)" for p
    unfolding coe_store_def by (rule coe_ok_on_receiving [OF assms]) simp
  then show ?thesis using assms by (simp add: coe_cache_def Let_def)
qed

lemma coe_cache_fields [simp]:
  "cr_phase (coe_cache cfg address payload st) = cr_phase st"
  "cr_receiving (coe_cache cfg address payload st) = cr_receiving st"
  "cr_busy (coe_cache cfg address payload st) = cr_busy st"
  "cr_available (coe_cache cfg address payload st) = cr_available st"
  "cr_ready (coe_cache cfg address payload st) = cr_ready st"
  "cr_taking (coe_cache cfg address payload st) = cr_taking st"
  "cr_frame_number (coe_cache cfg address payload st) = cr_frame_number st"
  "cr_frame_packets_received (coe_cache cfg address payload st) = cr_frame_packets_received st"
  by (simp_all add: coe_cache_def coe_store_def Let_def)

lemma coe_arrived_fields [simp]:
  "cr_phase (coe_packet_arrived now st) = cr_phase st" "cr_receiving (coe_packet_arrived now st) = cr_receiving st"
  "cr_busy (coe_packet_arrived now st) = cr_busy st" "cr_available (coe_packet_arrived now st) = cr_available st"
  "cr_ready (coe_packet_arrived now st) = cr_ready st" "cr_taking (coe_packet_arrived now st) = cr_taking st"
  "cr_frame_number (coe_packet_arrived now st) = cr_frame_number st"
  "cr_descriptors (coe_packet_arrived now st) = cr_descriptors st"
  "cr_frame_bytes_received (coe_packet_arrived now st) = cr_frame_bytes_received st"
  "cr_frame_packets_received (coe_packet_arrived now st) = cr_frame_packets_received st + 1"
  "coe_ok cfg (coe_packet_arrived now st) = coe_ok cfg st"
  by (simp_all add: coe_packet_arrived_def)

lemma coe_ok_record_frame: "coe_ok cfg st \<Longrightarrow> coe_ok cfg (coe_record_frame now md st)"
  by (auto simp: coe_record_frame_def split: prod.split intro: coe_ok_on_receiving)

lemma coe_record_frame_fields [simp]:
  "cr_phase (coe_record_frame now md st) = cr_phase st" "cr_receiving (coe_record_frame now md st) = cr_receiving st"
  "cr_busy (coe_record_frame now md st) = cr_busy st" "cr_available (coe_record_frame now md st) = cr_available st"
  "cr_ready (coe_record_frame now md st) = cr_ready st" "cr_taking (coe_record_frame now md st) = cr_taking st"
  by (simp_all add: coe_record_frame_def split: prod.split)

text \<open>The exchange of the receiving thread.\<close>

lemma coe_frame_end_ok:
  assumes "coe_ok cfg st" and "cr_phase st = Looping"
  shows "case coe_frame_end now payload st of Coe_running st' \<Rightarrow> coe_ok cfg st' | Coe_left st' \<Rightarrow> False
    | Coe_thrown e st' \<Rightarrow> coe_ok cfg st' | Coe_undefined \<Rightarrow> False"
proof (cases "deserialize_metadata payload")
  case (Inl e)
  then show ?thesis using assms by (simp add: coe_frame_end_def)
next
  case (Inr md)
  let ?st = "coe_record_frame now md (st\<lparr>cr_frame_count := cr_frame_count st + 1\<rparr>)"
  have ok: "coe_ok cfg ?st" by (rule coe_ok_record_frame) (simp add: assms(1))
  moreover from assms obtain b a where "cr_busy st = Some b" "cr_available st = Some a" "distinct [cr_receiving st, b, a]"
      "{cr_receiving st, b, a} = {..<3}"
    by (auto simp: coe_ok_def coe_buffers_apart_def)
  moreover from this have "{a, b, cr_receiving st} = {..<3}" by blast
  ultimately show ?thesis using Inr assms(2)
    by (auto simp: coe_frame_end_def Let_def coe_ok_def coe_buffers_apart_def)
qed

lemma coe_receive_step_ok:
  assumes "coe_ok cfg st" and "cr_phase st = Looping"
  shows "case coe_receive_step cfg rc st of Coe_running st' \<Rightarrow> coe_ok cfg st' | Coe_left st' \<Rightarrow> coe_ok cfg st'
    | Coe_thrown e st' \<Rightarrow> coe_ok cfg st' | Coe_undefined \<Rightarrow> False"
proof -
  have "case coe_frame_end now payload (coe_cache cfg address bs (coe_packet_arrived now st)) of
      Coe_running st' \<Rightarrow> coe_ok cfg st' | Coe_left st' \<Rightarrow> False | Coe_thrown e st' \<Rightarrow> coe_ok cfg st' | Coe_undefined \<Rightarrow> False"
    for now payload address bs
    using assms by (intro coe_frame_end_ok coe_ok_cache) simp_all
  note fe = this
  have cache: "coe_ok cfg (coe_cache cfg address bs (coe_packet_arrived now st))" for now address bs
    using assms by (intro coe_ok_cache) simp
  show ?thesis
  proof (cases "rc_now rc")
    case None
    then show ?thesis using assms by (simp add: coe_receive_step_def)
  next
    case (Some now)
    show ?thesis
    proof (cases "parse_coe (take RX_PACKET_SIZE (rc_bytes rc))")
      case None
      with Some show ?thesis using assms by (simp add: coe_receive_step_def coe_receive_packet_def)
    next
      case parsed: (Some x)
      then show ?thesis using Some assms fe [of now "snd (snd (snd x))" "fst (snd (snd x)) AND 0xFFFFFFF" "snd (snd (snd x))"] cache
        by (cases x) (simp add: coe_receive_step_def coe_receive_packet_def Let_def split: coe_outcome.splits)
    qed
  qed
qed

lemma coe_ok_signal: "coe_ok cfg st \<Longrightarrow> cr_phase st = Signalling \<Longrightarrow> coe_ok cfg (coe_signal cfg st)"
proof -
  assume ok: "coe_ok cfg st" and phase: "cr_phase st = Signalling"
  let ?st = "coe_on_receiving (\<lambda>d. d\<lparr>cdesc_memory := put_bytes 0 (replicate (coe_buffer_size cfg) 0xFF) (cdesc_memory d)\<rparr>)
      (st\<lparr>cr_ready := True\<rparr>)"
  have "coe_ok cfg ?st" by (rule coe_ok_on_receiving) (simp_all add: ok)
  then show ?thesis using phase by (simp add: coe_signal_def coe_ok_def coe_buffers_apart_def)
qed

lemma coe_ok_take: "coe_ok cfg st \<Longrightarrow> coe_ok cfg (snd (coe_take cfg st))"
  by (auto simp: coe_take_def coe_ok_def coe_buffers_apart_def)

lemma coe_step_ok: "coe_step cfg st st' \<Longrightarrow> coe_ok cfg st \<Longrightarrow> coe_ok cfg st'"
proof (erule coe_stepE)
  fix rc assume "coe_receive_step cfg rc st = Coe_running st'" "coe_ok cfg st" "cr_phase st = Looping"
  then show ?thesis using coe_receive_step_ok [of cfg st rc] by simp
next
  fix rc st1 assume "coe_receive_step cfg rc st = Coe_left st1" "st' = coe_stop st1" "coe_ok cfg st" "cr_phase st = Looping"
  then show ?thesis using coe_receive_step_ok [of cfg st rc] by (simp add: coe_stop_def coe_ok_def)
qed (auto simp: coe_ok_signal coe_ok_take coe_wait_def coe_close_def)

lemma coe_reachable_ok: "coe_reachable cfg st \<Longrightarrow> coe_ok cfg st"
  by (induction rule: coe_reachable.induct) (use start_coe_receiver_ok coe_step_ok in blast)+

text \<open>The end of a frame leaves the other two buffers as they are, and exchanges the available one.\<close>

lemma coe_other_descriptors:
  assumes "i \<noteq> cr_receiving st"
  shows "cr_descriptors (coe_cache cfg address payload st) ! i = cr_descriptors st ! i"
    "cr_descriptors (coe_record_frame now md st) ! i = cr_descriptors st ! i"
  using assms
  by (simp_all add: coe_cache_def coe_store_def coe_record_frame_def coe_on_receiving_def Let_def split: prod.split)

lemma coe_frame_end_exchange:
  assumes "coe_frame_end now payload st = Coe_running st1"
  shows "cr_available st = Some (cr_receiving st1)" "cr_available st1 = Some (cr_receiving st)" "cr_busy st1 = cr_busy st"
    "cr_taking st1 = cr_taking st" "i \<noteq> cr_receiving st \<Longrightarrow> cr_descriptors st1 ! i = cr_descriptors st ! i"
  using assms
  by (auto simp: coe_frame_end_def Let_def coe_other_descriptors split: sum.splits option.splits)

lemma coe_receive_step_exchange:
  assumes "coe_receive_step cfg rc st = Coe_running st1" and "cr_phase st = Looping" and "cr_phase st1 = Signalling"
  shows "cr_available st = Some (cr_receiving st1)" "cr_available st1 = Some (cr_receiving st)" "cr_busy st1 = cr_busy st"
    "cr_taking st1 = cr_taking st" "i \<noteq> cr_receiving st \<Longrightarrow> cr_descriptors st1 ! i = cr_descriptors st ! i"
proof -
  obtain now address bs where run: "coe_frame_end now bs (coe_cache cfg address bs (coe_packet_arrived now st)) = Coe_running st1"
    using assms
    by (auto simp: coe_receive_step_def coe_receive_packet_def Let_def split: option.splits if_splits prod.splits)
  show "cr_available st = Some (cr_receiving st1)" "cr_available st1 = Some (cr_receiving st)" "cr_busy st1 = cr_busy st"
    "cr_taking st1 = cr_taking st" "i \<noteq> cr_receiving st \<Longrightarrow> cr_descriptors st1 ! i = cr_descriptors st ! i"
    using coe_frame_end_exchange [OF run] by (simp_all add: coe_other_descriptors)
qed

lemma coe_signal_fields [simp]:
  "cr_available (coe_signal cfg st) = cr_available st" "cr_busy (coe_signal cfg st) = cr_busy st"
  "cr_taking (coe_signal cfg st) = cr_taking st" "cr_ready (coe_signal cfg st)"
  "cr_receiving (coe_signal cfg st) = cr_receiving st" "cr_phase (coe_signal cfg st) = Looping"
  "i \<noteq> cr_receiving st \<Longrightarrow> cr_descriptors (coe_signal cfg st) ! i = cr_descriptors st ! i"
  by (simp_all add: coe_signal_def coe_on_receiving_def)

end
