(* ===== verification/Coe_Delivery.thy ===== *)
theory Coe_Delivery
  imports Coe_Data_Path Coe_Receiver
begin

text \<open>
  From \<open>COETransmitter\<close> to \<open>LinuxCoeReceiver\<close>: what the receiver makes of the packets of a frame,
  which reach it as they were sent.
\<close>

subsection \<open>Reading the headers\<close>

lemma bind_buffer:
  assumes "d_ok d" and "unread d = bs @ rest" and "length bs = n" and "n < 2 ^ 32"
    and "\<And>d'. d_ok d' \<Longrightarrow> unread d' = rest \<Longrightarrow> f (bs, d') = r"
  shows "Option.bind (next_buffer d (replicate n 0)) f = r"
proof -
  obtain d' where "next_bytes d n = Some (bs, d')" "d_ok d'" "unread d' = rest"
    by (rule next_bytes_unread [OF assms(1-3)])
  then show ?thesis using assms(4,5) by (simp add: next_buffer_def next_pointer_def)
qed

lemma bind_pointer_0:
  assumes "d_ok d" and "\<And>d'. d_ok d' \<Longrightarrow> unread d' = unread d \<Longrightarrow> f ([], d') = r"
  shows "Option.bind (next_pointer d 0) f = r"
proof -
  obtain d' where "next_bytes d 0 = Some ([], d')" "d_ok d'" "unread d' = unread d"
    using next_bytes_unread [OF assms(1), of "[]" "unread d" 0] by auto
  then show ?thesis using assms(2) by (simp add: next_pointer_def)
qed

lemma be_bytes_pair: "be_bytes 1 (a :: u8) @ be_bytes 1 (b :: u8) = be_bytes 2 (push_bit 8 (ucast a) OR ucast b :: u16)"
  by (simp add: enc_be) (intro conjI bit_word_eqI; auto simp: bit_byte_at bit_simps dest: bit_imp_le_length)

definition acf_channel_field :: "acf_user0c_header \<Rightarrow> u16" where
  "acf_channel_field h = push_bit 8 (ucast (acf_flags h)) OR ucast (acf_channel h)"

lemma parse_acf_bytes:
  assumes "d_ok d" and "unread d = acf_header_bytes h @ payload"
    and type: "acf_metadata (acf_common h) = 0x0C00"
  shows "parse_acf d = Some (acf_channel_field h, acf_frame_flags h, acf_address h, payload)"
proof -
  have meta: "be_bytes 2 (0x0C00 :: u16) = be_bytes 1 ACF_MESSAGE_TYPE @ be_bytes 1 (0 :: u8)"
    by (simp add: enc_be ACF_MESSAGE_TYPE_def byte_at_def)
  have u: "unread d = be_bytes 1 ACF_MESSAGE_TYPE @ be_bytes 1 (0 :: u8) @ be_bytes 1 (acf_reserved h) @
      be_bytes 1 (acf_sensor_info h) @ be_bytes 4 (acf_timestamp_sec h) @ be_bytes 4 (acf_timestamp_nsec h) @
      be_bytes 1 (acf_psn h) @ be_bytes 2 (acf_channel_field h) @ be_bytes 1 (acf_frame_flags h) @
      be_bytes 4 (acf_address h) @ payload"
    using be_bytes_pair [of "acf_flags h" "acf_channel h"] unfolding assms(2) acf_header_bytes_def type meta acf_channel_field_def
    by simp
  show ?thesis
    unfolding parse_acf_def
    apply (rule w8.bind_get [OF assms(1) u])
    apply (unfold split_conv if_False simp_thms)
    apply (rule w8.bind_get w16be.bind_get w32be.bind_get bind_pointer_0, assumption, assumption?, unfold split_conv)+
    apply (simp add: d_ok_def)
    done
qed

lemma parse_coe_bytes:
  assumes ok: "coe_headers_ok h" and type: "ethertype (mac_h h) = ETHERTYPE_AVTP"
      "avtpdu_subtype (ntscf_avtpdu (ntscf_h h)) = SUBTYPE_AVTP_NTSCF" "acf_metadata (acf_common (acf_h h)) = 0x0C00"
    and len: "length payload < 2 ^ 31"
  shows "parse_coe (coe_header_bytes h @ payload) =
    Some (acf_channel_field (acf_h h), acf_frame_flags (acf_h h), acf_address (acf_h h), payload)"
proof -
  let ?bs = "coe_header_bytes h @ payload" and ?n = "ntscf_h h"
  have d: "d_ok (new_deserializer ?bs (length ?bs))" using len ok by simp
  have l: "length (mac_dest (mac_h h)) = 6" "length (mac_src (mac_h h)) = 6" "length (stream_id ?n) = 8"
    using ok by (simp_all add: coe_headers_ok_def)
  have u: "unread (new_deserializer ?bs (length ?bs)) = mac_dest (mac_h h) @ mac_src (mac_h h) @ be_bytes 2 AVTP_ETHERTYPE @
      be_bytes 1 NTSCF @ be_bytes 2 (push_bit 8 (ucast (version_ntscf_len_high ?n)) OR ucast (ntscf_len_low ?n) :: u16) @
      be_bytes 1 (ntscf_sequence_num ?n) @ stream_id ?n @ acf_header_bytes (acf_h h) @ payload"
    using be_bytes_pair [of "version_ntscf_len_high ?n" "ntscf_len_low ?n"]
    by (simp add: coe_header_bytes_def mac_header_bytes_def ntscf_header_bytes_def type ETHERTYPE_AVTP_def
        AVTP_ETHERTYPE_def SUBTYPE_AVTP_NTSCF_def NTSCF_def)
  show ?thesis
    unfolding parse_coe_def
    apply (rule bind_buffer [OF d u l(1)], simp, unfold split_conv)
    apply (rule bind_buffer, assumption, assumption, rule l(2), simp, unfold split_conv)
    apply (rule w16be.bind_get, assumption, assumption, unfold split_conv if_False simp_thms)
    apply (rule w8.bind_get, assumption, assumption, unfold split_conv if_False simp_thms)
    apply (rule w16be.bind_get, assumption, assumption, unfold split_conv)
    apply (rule w8.bind_get, assumption, assumption, unfold split_conv)
    apply (rule bind_buffer, assumption, assumption, rule l(3), simp, unfold split_conv)
    apply (rule parse_acf_bytes, assumption, assumption, rule type(3))
    done
qed

subsection \<open>A packet of data\<close>

text \<open>Headers of the stack.\<close>

definition coe_stream_headers :: "coe_headers \<Rightarrow> bool" where
  "coe_stream_headers h \<longleftrightarrow>
     coe_headers_ok h \<and> ethertype (mac_h h) = ETHERTYPE_AVTP \<and>
     avtpdu_subtype (ntscf_avtpdu (ntscf_h h)) = SUBTYPE_AVTP_NTSCF \<and> acf_metadata (acf_common (acf_h h)) = 0x0C00"

lemma coe_stream_headers_packet [simp]:
  "coe_stream_headers (coe_packet_headers h now a psn fl) = coe_stream_headers h"
  "acf_channel_field (acf_h (coe_packet_headers h now a psn fl)) = acf_channel_field (acf_h h)"
  "acf_frame_flags (acf_h (coe_packet_headers h now a psn fl)) = fl"
  "acf_address (acf_h (coe_packet_headers h now a psn fl)) = a"
  by (simp_all add: coe_stream_headers_def coe_packet_headers_def coe_headers_ok_def acf_channel_field_def)

lemma acf_channel_field_low:
  assumes "unat (acf_channel h) < 64"
  shows "acf_channel_field h AND 0x3F = ucast (acf_channel h)"
proof -
  have m: "(x :: u16) AND 0x3F = take_bit 6 x" for x by (simp add: take_bit_eq_mask mask_eq_exp_minus_1)
  have "bit (acf_channel h) j \<Longrightarrow> j < 6" for j
    using bit_small [of "acf_channel h" 6 j] assms by (simp add: word_less_nat_alt)
  then show ?thesis unfolding m acf_channel_field_def by (intro bit_word_eqI) (auto simp: bit_simps)
qed

lemma coe_receive_stack_packet:
  assumes "coe_stream_headers h" and "acf_channel_field (acf_h h) AND 0x3F = crx_channel cfg" and "length payload < 2 ^ 31"
  shows "coe_receive_packet cfg now (coe_header_bytes (coe_packet_headers h t a psn fl) @ payload) st =
    (let st' = coe_cache cfg (a AND 0xFFFFFFF) payload (coe_packet_arrived now st)
     in if fl AND COE_FRAME_END \<noteq> 0 then coe_frame_end now payload st' else Coe_running st')"
proof -
  have "coe_stream_headers (coe_packet_headers h t a psn fl)" using assms(1) by simp
  then have "parse_coe (coe_header_bytes (coe_packet_headers h t a psn fl) @ payload) =
      Some (acf_channel_field (acf_h h), fl, a, payload)"
    using parse_coe_bytes [of "coe_packet_headers h t a psn fl" payload] assms(3) by (simp add: coe_stream_headers_def)
  then show ?thesis using assms(2) by (simp add: coe_receive_packet_def Let_def)
qed

lemma coe_cache_window:
  assumes "unat address = p" and "p + length payload < 2 ^ 32" and "p + length payload \<le> unat (crx_buffer_size cfg)"
  shows "coe_cache cfg address payload st =
    (coe_store p payload st)\<lparr>cr_frame_bytes_received := cr_frame_bytes_received st + of_nat (length payload)\<rparr>"
proof -
  have "unat (of_nat (length payload) :: u32) = length payload" using assms(2) by (intro unat_of_nat_u32) simp
  then have "unat (address + of_nat (length payload)) = p + length payload"
    using assms(1,2) by (simp add: unat_word_ariths)
  then have "unat (ucast (address + of_nat (length payload)) :: u64) = p + length payload"
    using assms(2) by (simp add: unsigned_ucast_eq take_bit_nat_eq_self)
  then show ?thesis using assms(1,3) by (simp add: coe_cache_def Let_def word_le_nat_alt)
qed

text \<open>The address of a packet, without the number of its frame.\<close>

lemma coe_address_offset:
  assumes "offset < 2 ^ 28"
  shows "unat (coe_address (coe_packet_frame_number t) offset AND 0xFFFFFFF) = offset"
proof -
  have m: "(x :: u32) AND 0xFFFFFFF = take_bit 28 x" for x by (simp add: take_bit_eq_mask mask_eq_exp_minus_1)
  have "take_bit 28 (coe_address (coe_packet_frame_number t) offset) = take_bit 28 (of_nat offset)"
    unfolding coe_address_def m coe_packet_frame_number_def by (intro bit_word_eqI) (auto simp: bit_simps)
  moreover have "unat (take_bit 28 (of_nat offset :: u32)) = offset"
    using assms by (simp add: unsigned_take_bit_eq unat_of_nat_u32 take_bit_nat_eq_self)
  ultimately show ?thesis by (simp add: m)
qed

subsection \<open>The data of a frame\<close>

text \<open>The receiving thread on its own; it signals after each end of a frame.\<close>

fun coe_receive_all :: "coe_rx_config \<Rightarrow> (timespec \<times> bytes) list \<Rightarrow> coe_receiver \<Rightarrow> coe_outcome" where
  "coe_receive_all cfg [] st = Coe_running st"
| "coe_receive_all cfg (a # as) st =
     (case coe_receive_packet cfg (fst a) (snd a) st of
        Coe_running st' \<Rightarrow> coe_receive_all cfg as (if cr_phase st' = Signalling then coe_signal cfg st' else st')
      | r \<Rightarrow> r)"

lemma coe_receive_all_append:
  "coe_receive_all cfg as st = Coe_running st' \<Longrightarrow> coe_receive_all cfg (as @ bs) st = coe_receive_all cfg bs st'"
  by (induction as arbitrary: st) (auto split: coe_outcome.splits)

definition coe_data_received :: "nat \<Rightarrow> bytes \<Rightarrow> nat \<Rightarrow> coe_receiver \<Rightarrow> coe_receiver \<Rightarrow> bool" where
  "coe_data_received p content k st st' \<longleftrightarrow>
     cr_descriptors st' = cr_descriptors (coe_store p content st) \<and> cr_receiving st' = cr_receiving st \<and>
     cr_busy st' = cr_busy st \<and> cr_available st' = cr_available st \<and> cr_phase st' = cr_phase st \<and>
     cr_frame_packets_received st' = cr_frame_packets_received st + of_nat k \<and>
     cr_frame_bytes_received st' = cr_frame_bytes_received st + of_nat (length content)"

lemma coe_data_received_refl: "coe_data_received p [] 0 st st"
  by (simp add: coe_data_received_def coe_store_def coe_on_receiving_def)

lemma coe_data_received_trans:
  assumes "coe_data_received p a i st st1" and "coe_data_received (p + length a) b j st1 st2"
    and "cr_receiving st < length (cr_descriptors st)"
  shows "coe_data_received p (a @ b) (i + j) st st2"
  using assms by (simp add: coe_data_received_def coe_store_def coe_on_receiving_def put_bytes_append)

lemma coe_data_received_one:
  "coe_data_received p bs 1 st ((coe_store p bs (coe_packet_arrived now st))
      \<lparr>cr_frame_bytes_received := cr_frame_bytes_received (coe_packet_arrived now st) + of_nat (length bs)\<rparr>)"
  by (simp add: coe_data_received_def coe_store_def coe_on_receiving_def)

lemma data_flags: "((if b then COE_FLAG_FRAME_START else 0) OR (if c then COE_FLAG_LINE_END else 0)) AND COE_FRAME_END = 0"
  by (simp add: COE_FLAG_FRAME_START_def COE_FLAG_LINE_END_def COE_FRAME_END_def)

lemma receive_coe_packet:
  assumes h: "coe_stream_headers h" "acf_channel_field (acf_h h) AND 0x3F = crx_channel cfg"
    and q: "i * p + length payload \<le> unat (crx_buffer_size cfg)" "i * p + length payload \<le> 2 ^ 28" "payload \<noteq> []"
  shows "\<exists>st'. coe_receive_packet cfg now (coe_packet clk h threshold (coe_packet_frame_number t) p i line payload) st =
      Coe_running st' \<and> coe_data_received (i * p) payload 1 st st'"
proof -
  have lt: "i * p < 2 ^ 28" using q(2,3) by (cases payload) simp_all
  show ?thesis
    unfolding coe_packet_def
    using coe_receive_stack_packet [OF h] q coe_cache_window [OF coe_address_offset [OF lt]] coe_data_received_one
    by (simp add: data_flags)
qed

text \<open>The socket gives every packet of the kind; what is not for the channel only counts.\<close>

definition coe_ours :: "coe_rx_config \<Rightarrow> bytes \<Rightarrow> bool" where
  "coe_ours cfg received \<longleftrightarrow>
     (case parse_coe received of None \<Rightarrow> False | Some (channel, flags, address, payload) \<Rightarrow> channel AND 0x3F = crx_channel cfg)"

lemma receive_foreign_packet:
  "\<not> coe_ours cfg received \<Longrightarrow> coe_receive_packet cfg now received st = Coe_running (coe_packet_arrived now st)"
  by (auto simp: coe_ours_def coe_receive_packet_def Let_def split: option.splits)

lemma coe_data_received_foreign: "coe_data_received p [] 1 st (coe_packet_arrived now st)"
  by (simp add: coe_data_received_def coe_store_def coe_on_receiving_def)

lemma receive_coe_frame_packets:
  assumes h: "coe_stream_headers h" "acf_channel_field (acf_h h) AND 0x3F = crx_channel cfg" and p: "0 < p"
  shows "i * p + length content \<le> unat (crx_buffer_size cfg) \<Longrightarrow> i * p + length content \<le> 2 ^ 28 \<Longrightarrow>
    cr_receiving st < length (cr_descriptors st) \<Longrightarrow> cr_phase st = Looping \<Longrightarrow>
    filter (coe_ours cfg) (map snd arrivals) =
      coe_frame_packets clk h threshold (coe_packet_frame_number t) p i line content \<Longrightarrow>
    \<exists>st'. coe_receive_all cfg arrivals st = Coe_running st' \<and>
      coe_data_received (i * p) content (length arrivals) st st'"
proof (induction arrivals arbitrary: i line content st)
  case Nil
  then have "content = []" using p by (cases "content = []") (simp_all add: coe_frame_packets.simps)
  then show ?case by (simp add: coe_data_received_refl)
next
  case (Cons a as)
  obtain now bs where a: "a = (now, bs)" by (cases a)
  show ?case
  proof (cases "coe_ours cfg bs")
    case False
    let ?st = "coe_packet_arrived now st"
    obtain st' where "coe_receive_all cfg as ?st = Coe_running st'" "coe_data_received (i * p) content (length as) ?st st'"
      using Cons.IH [of i content ?st line] Cons.prems False by (auto simp: a)
    then show ?thesis
      using coe_data_received_trans [OF coe_data_received_foreign [of "i * p" st now] _ Cons.prems(3), of content "length as" st']
        receive_foreign_packet [OF False] Cons.prems(4)
      by (simp add: a)
  next
    case True
    let ?a = "take p content"
    have ne: "content \<noteq> []" using Cons.prems(5) True by (auto simp: a coe_frame_packets.simps)
    then obtain line' where as: "bs = coe_packet clk h threshold (coe_packet_frame_number t) p i line ?a"
        "filter (coe_ours cfg) (map snd as) =
          coe_frame_packets clk h threshold (coe_packet_frame_number t) p (i + 1) line' (drop p content)"
      using Cons.prems(5) True p by (auto simp: a coe_frame_packets.simps [of clk h threshold _ p i line content])
    have q: "i * p + length ?a \<le> unat (crx_buffer_size cfg)" "i * p + length ?a \<le> 2 ^ 28" "?a \<noteq> []"
      using Cons.prems(1,2) ne p by auto
    obtain st1 where st1: "coe_receive_packet cfg now bs st = Coe_running st1" "coe_data_received (i * p) ?a 1 st st1"
      unfolding as(1) using receive_coe_packet [OF h q] by blast
    have fields: "cr_receiving st1 < length (cr_descriptors st1)" "cr_phase st1 = Looping"
      using st1(2) Cons.prems(3,4) by (simp_all add: coe_data_received_def coe_store_def)
    have "\<exists>st'. coe_receive_all cfg as st1 = Coe_running st' \<and>
        coe_data_received (i * p + length ?a) (drop p content) (length as) st1 st'"
    proof (cases "length content \<le> p")
      case True
      have foreign: "coe_receive_all cfg as st2 = Coe_running st' \<Longrightarrow> coe_data_received 0 [] (length as) st2 st' \<Longrightarrow>
          coe_data_received q [] (length as) st2 st'" for q st2 st'
        by (simp add: coe_data_received_def coe_store_def coe_on_receiving_def)
      have "\<exists>st'. coe_receive_all cfg as st1 = Coe_running st' \<and> coe_data_received (0 * p) [] (length as) st1 st'"
        using as(2) True fields by (intro Cons.IH [of 0 "[]" st1 line']) (simp_all add: coe_frame_packets.simps)
      then show ?thesis using foreign True by auto
    next
      case not_le: False
      then have len: "length ?a = p" "(i + 1) * p = i * p + p" by simp_all
      from Cons.IH [OF _ _ fields as(2)] Cons.prems(1,2) not_le show ?thesis unfolding len by auto
    qed
    then show ?thesis
      using st1 fields(2) coe_data_received_trans [OF st1(2) _ Cons.prems(3), of "drop p content" "length as"]
      by (auto simp: a)
  qed
qed

subsection \<open>The last packet\<close>

lemma coe_buffers_next:
  assumes "coe_ok cfg st" and "cr_phase st = Looping"
  obtains b a where "cr_busy st = Some b" "cr_available st = Some a" "distinct [cr_receiving st, b, a]"
    "cr_receiving st < 3" "b < 3" "a < 3" "length (cr_descriptors st) = 3"
proof -
  obtain b a where ba: "cr_busy st = Some b" "cr_available st = Some a" "distinct [cr_receiving st, b, a]"
      "{cr_receiving st, b, a} = {..<3}" and len: "length (cr_descriptors st) = 3"
    using assms by (auto simp: coe_ok_def coe_buffers_apart_def)
  have "cr_receiving st \<in> {..<3}" "b \<in> {..<3}" "a \<in> {..<3}" using ba(4) by blast+
  then show thesis using ba(1-3) len by (intro that [of b a]) simp_all
qed

text \<open>The end of a frame, with the signal that follows: the buffer received into is now the available one.\<close>

lemma coe_frame_end_signal:
  assumes ok: "coe_ok cfg st" and loop: "cr_phase st = Looping" and md: "deserialize_metadata payload = Inr md"
  obtains st1 where "coe_frame_end now payload st = Coe_running st1" "cr_phase st1 = Signalling"
    "coe_ok cfg (coe_signal cfg st1)" "cr_phase (coe_signal cfg st1) = Looping" "cr_ready (coe_signal cfg st1)"
    "cr_busy (coe_signal cfg st1) = cr_busy st" "cr_available (coe_signal cfg st1) = Some (cr_receiving st)"
    "Some (cr_receiving (coe_signal cfg st1)) = cr_available st"
    "cr_frame_packets_received (coe_signal cfg st1) = 0" "cr_frame_bytes_received (coe_signal cfg st1) = 0"
    "cdesc_memory (cr_descriptors (coe_signal cfg st1) ! cr_receiving st) = cdesc_memory (cr_descriptors st ! cr_receiving st)"
    "cl_frame_metadata (cdesc_metadata (cr_descriptors (coe_signal cfg st1) ! cr_receiving st)) = md"
    "cl_frame_packets_received (cdesc_metadata (cr_descriptors (coe_signal cfg st1) ! cr_receiving st)) = cr_frame_packets_received st"
    "cl_frame_bytes_received (cdesc_metadata (cr_descriptors (coe_signal cfg st1) ! cr_receiving st)) = cr_frame_bytes_received st"
    "\<And>i. Some i = cr_busy st \<Longrightarrow> cr_descriptors (coe_signal cfg st1) ! i = cr_descriptors st ! i"
proof -
  obtain b a where ba: "cr_busy st = Some b" "cr_available st = Some a" "distinct [cr_receiving st, b, a]"
      "cr_receiving st < 3" "a < 3" "length (cr_descriptors st) = 3"
    using coe_buffers_next [OF ok loop] by metis
  let ?st0 = "coe_record_frame now md (st\<lparr>cr_frame_count := cr_frame_count st + 1\<rparr>)"
  let ?st1 = "?st0\<lparr>cr_receiving := a, cr_available := Some (cr_receiving st), cr_phase := Signalling\<rparr>"
  have run: "coe_frame_end now payload st = Coe_running ?st1" using md ba(2) by (simp add: coe_frame_end_def Let_def)
  have "coe_ok cfg ?st1" using coe_frame_end_ok [OF ok loop, of now payload] by (simp add: run)
  then have ok1: "coe_ok cfg (coe_signal cfg ?st1)" by (rule coe_ok_signal) simp
  have r: "cr_descriptors (coe_signal cfg ?st1) ! i = cr_descriptors ?st0 ! i" if "i \<noteq> a" for i
    using that by (simp add: coe_signal_def coe_on_receiving_def)
  have d0: "cdesc_memory (cr_descriptors ?st0 ! cr_receiving st) = cdesc_memory (cr_descriptors st ! cr_receiving st)"
      "cl_frame_metadata (cdesc_metadata (cr_descriptors ?st0 ! cr_receiving st)) = md"
      "cl_frame_packets_received (cdesc_metadata (cr_descriptors ?st0 ! cr_receiving st)) = cr_frame_packets_received st"
      "cl_frame_bytes_received (cdesc_metadata (cr_descriptors ?st0 ! cr_receiving st)) = cr_frame_bytes_received st"
    using ba(4,6) by (simp_all add: coe_record_frame_def coe_on_receiving_def split: prod.split)
  have other: "cr_descriptors ?st0 ! b = cr_descriptors st ! b"
    using ba(3) by (simp add: coe_record_frame_def coe_on_receiving_def split: prod.split)
  show thesis
    by (rule that [OF run _ ok1]) (use ba(1,2,3) d0 other in \<open>simp_all add: r\<close>, (simp_all add: coe_signal_def)?)
qed

lemma last_flags: "(COE_FLAG_FRAME_END OR (if b then COE_FLAG_LINE_END else 0)) AND COE_FRAME_END \<noteq> 0"
  by (simp add: COE_FLAG_FRAME_END_def COE_FLAG_LINE_END_def COE_FRAME_END_def)

text \<open>The receiver stores the metadata behind the frame, where there is room for it.\<close>

lemma coe_cache_memory:
  fixes cfg :: coe_rx_config and address :: u32 and payload :: bytes and st :: coe_receiver
  assumes "cr_receiving st < length (cr_descriptors st)" and "unat address = p" and "p + length payload < 2 ^ 32"
    and "p \<le> length (cdesc_memory (cr_descriptors st ! cr_receiving st))"
  defines "st' \<equiv> coe_cache cfg address payload st"
  shows "take p (cdesc_memory (cr_descriptors st' ! cr_receiving st)) = take p (cdesc_memory (cr_descriptors st ! cr_receiving st))"
    "cr_frame_bytes_received st' = cr_frame_bytes_received st +
       (if p + length payload \<le> unat (crx_buffer_size cfg) then of_nat (length payload) else 0)"
    "length (cr_descriptors st') = length (cr_descriptors st)"
    "i \<noteq> cr_receiving st \<Longrightarrow> cr_descriptors st' ! i = cr_descriptors st ! i"
proof -
  have "unat (of_nat (length payload) :: u32) = length payload" using assms(3) by (intro unat_of_nat_u32) simp
  then have "unat (address + of_nat (length payload)) = p + length payload"
    using assms(2,3) by (simp add: unat_word_ariths)
  then have u: "unat (ucast (address + of_nat (length payload)) :: u64) = p + length payload"
    using assms(3) by (simp add: unsigned_ucast_eq take_bit_nat_eq_self)
  show "take p (cdesc_memory (cr_descriptors st' ! cr_receiving st)) = take p (cdesc_memory (cr_descriptors st ! cr_receiving st))"
    "cr_frame_bytes_received st' = cr_frame_bytes_received st +
       (if p + length payload \<le> unat (crx_buffer_size cfg) then of_nat (length payload) else 0)"
    "length (cr_descriptors st') = length (cr_descriptors st)"
    "i \<noteq> cr_receiving st \<Longrightarrow> cr_descriptors st' ! i = cr_descriptors st ! i"
    using assms(1,2) u take_put_bytes_before [of p p payload]
    by (auto simp: st'_def coe_cache_def coe_store_def coe_on_receiving_def Let_def word_le_nat_alt)
qed

lemma receive_coe_last_packet:
  assumes ok: "coe_ok cfg st" and loop: "cr_phase st = Looping"
    and h: "coe_stream_headers h" "acf_channel_field (acf_h h) AND 0x3F = crx_channel cfg"
    and offset: "offset < 2 ^ 28" "offset \<le> coe_buffer_size cfg" and m: "length (tx_reserved m) = 80"
  obtains st1 where "coe_receive_packet cfg now (coe_last_packet h threshold (coe_packet_frame_number t) i offset mt m) st = Coe_running st1"
    "cr_phase st1 = Signalling" "coe_ok cfg (coe_signal cfg st1)" "cr_phase (coe_signal cfg st1) = Looping"
    "cr_ready (coe_signal cfg st1)" "cr_busy (coe_signal cfg st1) = cr_busy st"
    "cr_available (coe_signal cfg st1) = Some (cr_receiving st)"
    "cr_frame_packets_received (coe_signal cfg st1) = 0" "cr_frame_bytes_received (coe_signal cfg st1) = 0"
    "take offset (cdesc_memory (cr_descriptors (coe_signal cfg st1) ! cr_receiving st)) =
       take offset (cdesc_memory (cr_descriptors st ! cr_receiving st))"
    "cl_frame_metadata (cdesc_metadata (cr_descriptors (coe_signal cfg st1) ! cr_receiving st)) = host_metadata m"
    "cl_frame_packets_received (cdesc_metadata (cr_descriptors (coe_signal cfg st1) ! cr_receiving st)) = cr_frame_packets_received st + 1"
    "cl_frame_bytes_received (cdesc_metadata (cr_descriptors (coe_signal cfg st1) ! cr_receiving st)) =
       cr_frame_bytes_received st + (if offset + 128 \<le> unat (crx_buffer_size cfg) then 128 else 0)"
    "\<And>b. cr_busy st = Some b \<Longrightarrow> cr_descriptors (coe_signal cfg st1) ! b = cr_descriptors st ! b"
proof -
  let ?address = "coe_address (coe_packet_frame_number t) offset AND 0xFFFFFFF"
  let ?st = "coe_cache cfg ?address (tx_metadata_bytes m) (coe_packet_arrived now st)"
  have len: "length (tx_metadata_bytes m) = 128" using m by simp
  have ok1: "coe_ok cfg ?st" using ok by (intro coe_ok_cache) simp
  have lt: "cr_receiving st < length (cr_descriptors st)" using ok loop by (intro coe_ok_receiving) simp_all
  then have mem: "offset \<le> length (cdesc_memory (cr_descriptors st ! cr_receiving st))"
    using ok offset(2) by (simp add: coe_ok_def)
  have md: "deserialize_metadata (tx_metadata_bytes m) = Inr (host_metadata m)"
    unfolding tx_metadata_bytes_host using m by (intro deserialize_metadata_bytes) simp
  have run: "coe_receive_packet cfg now (coe_last_packet h threshold (coe_packet_frame_number t) i offset mt m) st =
      coe_frame_end now (tx_metadata_bytes m) ?st"
    unfolding coe_last_packet_def using coe_receive_stack_packet [OF h] len last_flags by simp
  have fits: "offset + length (tx_metadata_bytes m) < 2 ^ 32" using offset(1) len by simp
  note c = coe_cache_memory [where st = "coe_packet_arrived now st" and address = ?address and p = offset
      and payload = "tx_metadata_bytes m" and cfg = cfg, unfolded coe_arrived_fields, OF lt coe_address_offset [OF offset(1)] fits mem, unfolded len coe_arrived_fields]
  have bytes: "cr_frame_bytes_received ?st = cr_frame_bytes_received st + (if offset + 128 \<le> unat (crx_buffer_size cfg) then 128 else 0)"
    using c(2) by (simp split: if_splits)
  have busy: "cr_busy st = Some b \<Longrightarrow> cr_descriptors ?st ! b = cr_descriptors st ! b" for b
    using c(4) [of b] coe_buffers_next [OF ok loop] by (metis distinct_length_2_or_more option.inject)
  have loop1: "cr_phase ?st = Looping" using loop by simp
  show thesis
    by (rule coe_frame_end_signal [OF ok1 loop1 md, of now], rule that)
      (simp_all add: run c(1) bytes busy split del: if_split)
qed

subsection \<open>A whole frame\<close>

definition coe_awaiting :: "coe_rx_config \<Rightarrow> coe_receiver \<Rightarrow> bool" where
  "coe_awaiting cfg st \<longleftrightarrow>
     coe_ok cfg st \<and> cr_phase st = Looping \<and> cr_frame_packets_received st = 0 \<and> cr_frame_bytes_received st = 0"

definition coe_frame_available :: "bytes \<Rightarrow> nat \<Rightarrow> frame_metadata \<Rightarrow> coe_receiver \<Rightarrow> bool" where
  "coe_frame_available content k md st \<longleftrightarrow>
     (\<exists>a. cr_available st = Some a \<and>
        (let d = cr_descriptors st ! a; m = cdesc_metadata d in
         take (length content) (cdesc_memory d) = content \<and> cl_frame_metadata m = md \<and>
         cl_frame_packets_received m = of_nat k))"

lemma coe_buffer_size_room:
  assumes "unat (crx_buffer_size cfg) + 127 < 2 ^ 64"
  shows "unat (crx_buffer_size cfg) \<le> coe_buffer_size cfg"
proof -
  obtain r where "core_round_up (crx_buffer_size cfg) 128 = Inr r" "unat r = (unat (crx_buffer_size cfg) + 127) div 128 * 128"
    using round_up_128 [OF assms] by blast
  then show ?thesis by (simp add: coe_buffer_size_def)
qed

lemma coe_frame_received:
  assumes st: "coe_awaiting cfg st"
    and h: "coe_stream_headers (coe_frame_headers cm (ct_headers t))"
      "acf_channel_field (acf_h (coe_frame_headers cm (ct_headers t))) AND 0x3F = crx_channel cfg"
    and p: "0 < unat (cm_payload_size cm)" and arg: "argument_ok arg"
    and size: "length content \<le> unat (crx_buffer_size cfg)" "length content < 2 ^ 28" "unat (crx_buffer_size cfg) + 127 < 2 ^ 64"
    and arrivals: "filter (coe_ours cfg) (map snd arrivals) = coe_transmission clk sendto cm content arg t"
      "coe_ours cfg (snd (last arrivals))"
  shows "\<exists>st'. coe_receive_all cfg arrivals st = Coe_running st' \<and> coe_awaiting cfg st' \<and> cr_ready st' \<and>
    coe_frame_available content (length arrivals) (host_metadata (coe_sent_metadata clk sendto cm content arg t)) st'"
proof -
  let ?h = "coe_frame_headers cm (ct_headers t)" and ?r = "cr_receiving st"
  let ?md = "coe_sent_metadata clk sendto cm content arg t"
  have st': "coe_ok cfg st" "cr_phase st = Looping" "cr_frame_packets_received st = 0"
    using st by (simp_all add: coe_awaiting_def)
  have room: "length content \<le> coe_buffer_size cfg" using size(1) coe_buffer_size_room [OF size(3)] by simp
  have lt: "?r < length (cr_descriptors st)" using st' by (intro coe_ok_receiving) simp_all
  obtain as now bs where as: "arrivals = as @ [(now, bs)]" "filter (coe_ours cfg) (map snd as) = coe_data_packets clk cm content t"
      "bs = coe_last_packet ?h (coe_line_threshold cm) (coe_packet_frame_number t) (length (coe_data_packets clk cm content t))
        (length content) (clk (length (coe_data_packets clk cm content t) + 1)) ?md"
    using arrivals by (cases arrivals rule: rev_cases) (auto simp: coe_transmission_def Let_def split: if_splits)
  from receive_coe_frame_packets [OF h p, of 0 content st as clk "coe_line_threshold cm" t 0] size(1,2) lt st'(2) as(2)
  obtain st1 where st1: "coe_receive_all cfg as st = Coe_running st1" "coe_data_received 0 content (length as) st st1"
    by (auto simp: coe_data_packets_def)
  have d1: "cr_receiving st1 = ?r" "cr_phase st1 = Looping" "cr_frame_packets_received st1 = of_nat (length as)"
      "cr_descriptors st1 = cr_descriptors (coe_store 0 content st)" "cr_busy st1 = cr_busy st" "cr_available st1 = cr_available st"
    using st1(2) st'(2,3) by (simp_all add: coe_data_received_def)
  have "coe_ok cfg (coe_store 0 content st)"
    unfolding coe_store_def by (rule coe_ok_on_receiving [OF st'(1)]) simp
  then have ok1: "coe_ok cfg st1"
    using d1 st'(2) by (simp add: coe_ok_def coe_buffers_apart_def coe_store_def)
  have mem: "take (length content) (cdesc_memory (cr_descriptors st1 ! ?r)) = content"
  proof -
    have "length (cdesc_memory (cr_descriptors st ! ?r)) = coe_buffer_size cfg" using st'(1) lt by (simp add: coe_ok_def)
    then have "0 + length content \<le> length (cdesc_memory (cr_descriptors st ! ?r))" using room by simp
    from take_put_bytes [OF this] show ?thesis using lt by (simp add: d1(4) coe_store_def coe_on_receiving_def)
  qed
  have m: "length (tx_reserved ?md) = 80"
    using arg by (simp add: coe_sent_metadata_def Let_def)
  obtain st2 where st2: "coe_receive_packet cfg now bs st1 = Coe_running st2" "cr_phase st2 = Signalling"
      "coe_awaiting cfg (coe_signal cfg st2)" "cr_ready (coe_signal cfg st2)"
      "cr_available (coe_signal cfg st2) = Some ?r"
      "take (length content) (cdesc_memory (cr_descriptors (coe_signal cfg st2) ! ?r)) = content"
      "cl_frame_metadata (cdesc_metadata (cr_descriptors (coe_signal cfg st2) ! ?r)) = host_metadata ?md"
      "cl_frame_packets_received (cdesc_metadata (cr_descriptors (coe_signal cfg st2) ! ?r)) = of_nat (length as) + 1"
    unfolding as(3)
    by (rule receive_coe_last_packet [OF ok1 d1(2) h size(2) room m, of now "coe_line_threshold cm" t
          "length (coe_data_packets clk cm content t)" "clk (length (coe_data_packets clk cm content t) + 1)"])
      (use mem d1(1,3) in \<open>simp add: coe_awaiting_def\<close>)
  have "coe_receive_all cfg arrivals st = Coe_running (coe_signal cfg st2)"
    using st2(1,2) by (simp add: as(1) coe_receive_all_append [OF st1(1)])
  then show ?thesis using st2 by (auto simp: coe_frame_available_def Let_def as(1))
qed

text \<open>The application takes it, if no other frame comes in between.\<close>

lemma coe_take_available:
  assumes "coe_frame_available content k md st" and "cr_ready st" and "length content \<le> unat (crx_buffer_size cfg)"
  shows "\<exists>m bs st'. coe_get_next_frame cfg st = (Some (m, bs), st') \<and> take (length content) bs = content \<and>
    cl_frame_metadata m = md \<and> cl_frame_packets_received m = of_nat k"
  using assms by (auto simp: coe_frame_available_def coe_get_next_frame_def coe_wait_def coe_take_def Let_def min_def)

end
