(* ===== verification/Coe_Streaming.thy ===== *)
theory Coe_Streaming
  imports Streaming Coe_Delivery
begin

text \<open>
  Camera over Ethernet from one end to the other: from the registers that the host writes to the
  frames that the application takes.
\<close>

subsection \<open>A channel that is configured\<close>

lemma line_threshold_log2_bound:
  assumes "line_threshold_log2 pixel_width 0 = Inr k"
  shows "k < 128"
proof -
  have "pixel_width \<le> push_bit 31 1"
    using assms line_threshold_log2_none [of pixel_width 0] by (cases "push_bit 31 1 < pixel_width") simp_all
  from line_threshold_log2_width [OF this] show ?thesis using assms by auto
qed

lemma coe_channel_configured:
  assumes board: "board_connected R (Suc (Suc n)) h s" and at: "plane_addresses dc i p m"
    and dp: "cd_vp_address dp = dc_vp_address dc" "cd_hif_address dp = dc_hif_address dc"
      "coe_headers_ok (ct_headers (cd_transmitter dp))"
    and payload: "compute_payload_size 46 (channel_mtu dc) = Inr payload_size" "unat payload_size \<le> 0xFFFF"
    and dest: "data_destination net dc 0 = Inr dest" "length (to_mac dest) = 6" "to_port dest \<le> 0xFFFF"
    and k: "line_threshold_log2 pixel_width 0 = Inr k" and channel: "channel < 64"
  obtains s' where "configure_coe net dc channel frame_size pixel_width False s = (Inr (), s')"
    "coe_configured dc channel frame_size k payload_size dest (rm_read (e_regs (device (link s')))) dp"
proof -
  obtain s' where s': "configure_coe net dc channel frame_size pixel_width False s = (Inr (), s')"
      "board_connected (coe_registers R dc channel frame_size k payload_size dest) n h s'"
    using runsD [OF emu.configure_coe_rule [OF emu_data_plane_memory [OF at] channel payload(1) dest(1) k]
        board [unfolded board_connected_iff]]
    unfolding board_connected_iff by (metis old.unit.exhaust)
  have "unat channel < 64" using channel by (simp add: word_less_nat_alt)
  with s' line_threshold_log2_bound [OF k] show thesis
    using at dp payload dest(2,3)
    by (intro that [OF s'(1)]) (auto simp: coe_configured_def connected_registers [OF s'(2)])
qed

lemma coe_channel_stream:
  fixes sensor_info :: u8 and frame_size :: u64 and k :: nat and payload_size :: u32
  assumes "coe_stream_headers (ct_headers t)" and "length (to_mac dest) = 6" and "unat channel < 64"
  defines "h \<equiv> coe_frame_headers (coe_configured_metadata sensor_info channel frame_size k payload_size dest) (ct_headers t)"
  shows "coe_stream_headers h" "acf_channel_field (acf_h h) AND 0x3F = ucast channel"
proof -
  have "acf_channel (acf_h h) = channel" by (simp add: h_def coe_frame_headers_def coe_configured_metadata_def)
  then show "acf_channel_field (acf_h h) AND 0x3F = ucast channel"
    using acf_channel_field_low [of "acf_h h"] assms(3) by simp
  show "coe_stream_headers h" using assms(1,2)
    by (simp add: h_def coe_frame_headers_def coe_configured_metadata_def coe_stream_headers_def coe_headers_ok_def)
qed

text \<open>What the board answers with for the default metadata when every packet is taken.\<close>

lemma coe_sent_metadata_all:
  fixes clk :: "nat \<Rightarrow> timespec"
  assumes "0 < unat (cm_payload_size cm)" and "coe_ready cm t" and "length content < 2 ^ 64"
  defines "md \<equiv> host_metadata (coe_sent_metadata clk (\<lambda>_. True) cm content Default_metadata t)"
  shows "unat (md_bytes_written md) = length content" "md_frame_number md = ucast (ct_frame_number t)"
proof -
  have total: "coe_payload_total (coe_data_packets clk cm content t) = length content"
    unfolding coe_data_packets_def by (rule coe_payload_total_frame [OF assms(1) coe_ready_headers [OF assms(2)]])
  have m: "(x :: u32) AND 0xFFFF = take_bit 16 x" for x by (simp add: take_bit_eq_mask mask_eq_exp_minus_1)
  have low: "(ucast (x AND 0xFFFF) :: u16) = ucast (x :: u32)" for x
    unfolding m by (intro bit_word_eqI) (auto simp: bit_simps)
  have number: "md_frame_number (host_metadata (default_metadata fs mt nb fn psn)) = ucast fn" for fs mt nb fn psn
    by (simp add: host_metadata_def default_metadata_def)
  show "unat (md_bytes_written md) = length content" "md_frame_number md = ucast (ct_frame_number t)"
    using assms(3)
    by (simp_all add: md_def coe_sent_metadata_def Let_def accepted_all total metadata_of_def default_bytes_written
        unat_of_nat number low)
qed

lemma coe_transmission_total:
  assumes "0 < unat (cm_payload_size cm)" and "coe_ready cm t" and "argument_ok arg"
  shows "coe_payload_total (coe_transmission clk sendto cm content arg t) = length content + 128"
proof -
  have "coe_payload_total (coe_data_packets clk cm content t) = length content"
    unfolding coe_data_packets_def by (rule coe_payload_total_frame [OF assms(1) coe_ready_headers [OF assms(2)]])
  moreover have "length (tx_metadata_bytes (coe_sent_metadata clk sendto cm content arg t)) = 128"
    using assms(3) by (simp add: coe_sent_metadata_def Let_def)
  ultimately show ?thesis using coe_ready_headers [OF assms(2)]
    by (simp add: coe_transmission_def Let_def coe_last_packet_def)
qed

text \<open>
  C6: When the host configures a channel of the connected board for Camera over Ethernet, a frame that the data plane of
  this channel then sends is received whole, also among packets that are not for the channel: the application gets the
  bytes sent, with the board's frame number and the number of bytes that it has sent.
\<close>

theorem coe_frame_delivered:
  assumes board: "board_connected R (Suc (Suc n)) h s" and at: "plane_addresses dc i p m"
    and dp: "cd_vp_address dp = dc_vp_address dc" "cd_hif_address dp = dc_hif_address dc"
      "coe_stream_headers (ct_headers (cd_transmitter dp))"
    and payload: "compute_payload_size 46 (channel_mtu dc) = Inr payload_size" "unat payload_size \<le> 2044"
    and dest: "data_destination net dc 0 = Inr dest" "length (to_mac dest) = 6" "to_port dest \<le> 0xFFFF"
    and k: "line_threshold_log2 pixel_width 0 = Inr k" and channel: "channel < 64"
    and rx: "crx_channel cfg = ucast channel" "coe_awaiting cfg st" "unat (crx_buffer_size cfg) + 127 < 2 ^ 64"
    and content: "length content \<le> unat (crx_buffer_size cfg)" "length content < 2 ^ 28"
    and mesg: "length mesg = MAX_MESSAGE_SIZE"
  shows "\<exists>s' packets dp'.
    configure_coe net dc channel frame_size pixel_width False s = (Inr (), s') \<and>
    coe_dp_send clk (\<lambda>_. True) mesg (e_regs (device (link s'))) content (Some Default_metadata) dp =
      (Inr (Some (length content + 128, packets)), dp') \<and>
    (\<forall>arrivals. filter (coe_ours cfg) (map snd arrivals) = packets \<and> coe_ours cfg (snd (last arrivals)) \<longrightarrow>
       (\<exists>st' md bytes st''. coe_receive_all cfg arrivals st = Coe_running st' \<and>
          coe_get_next_frame cfg st' = (Some (md, bytes), st'') \<and> take (length content) bytes = content \<and>
          unat (md_bytes_written (cl_frame_metadata md)) = length content \<and>
          md_frame_number (cl_frame_metadata md) = ucast (ct_frame_number (cd_transmitter dp)) \<and>
          cl_frame_packets_received md = of_nat (length arrivals)))"
proof -
  let ?t = "cd_transmitter dp"
  have ok: "coe_headers_ok (ct_headers ?t)" using dp(3) by (simp add: coe_stream_headers_def)
  have small: "unat payload_size \<le> 0xFFFF" using payload(2) by simp
  obtain s' where s': "configure_coe net dc channel frame_size pixel_width False s = (Inr (), s')"
      "coe_configured dc channel frame_size k payload_size dest (rm_read (e_regs (device (link s')))) dp"
    by (rule coe_channel_configured [OF board at dp(1,2) ok payload(1) small dest k channel])
  define cm where "cm = coe_channel_metadata channel frame_size k payload_size dest dp"
  note up = coe_update_metadata_configured [OF s'(2), folded cm_def]
  have arg: "argument_ok Default_metadata" by (simp add: argument_ok_def)
  have p: "0 < unat (cm_payload_size cm)" using coe_payload_pages(1) [OF payload(1)] by (simp add: up(3))
  let ?packets = "coe_transmission clk (\<lambda>_. True) cm content Default_metadata ?t"
  obtain dp' where send: "coe_dp_send clk (\<lambda>_. True) mesg (e_regs (device (link s'))) content (Some Default_metadata) dp =
      (Inr (Some (length content + 128, ?packets)), dp')"
    using coe_dp_send_configured [OF s'(2) payload(2) mesg arg, of clk "\<lambda>_. True" content, folded cm_def]
      coe_transmission_total [OF p up(2) arg] by (auto simp: accepted_all)
  have "unat channel < 64" using channel by (simp add: word_less_nat_alt)
  note stream = coe_channel_stream [OF dp(3) dest(2) this, of "cm_sensor_info (cd_metadata dp)" frame_size k payload_size,
      folded coe_channel_metadata_def cm_def, folded rx(1)]
  have "length content < 2 ^ 64" using content(2) by simp
  note md = coe_sent_metadata_all [OF p up(2) this, of clk]
  have "\<exists>st' md bytes st''. coe_receive_all cfg arrivals st = Coe_running st' \<and>
      coe_get_next_frame cfg st' = (Some (md, bytes), st'') \<and> take (length content) bytes = content \<and>
      unat (md_bytes_written (cl_frame_metadata md)) = length content \<and>
      md_frame_number (cl_frame_metadata md) = ucast (ct_frame_number ?t) \<and>
      cl_frame_packets_received md = of_nat (length arrivals)"
    if "filter (coe_ours cfg) (map snd arrivals) = ?packets" "coe_ours cfg (snd (last arrivals))" for arrivals
    using coe_frame_received [OF rx(2) stream p arg content rx(3) that] coe_take_available [OF _ _ content(1)] md
    by metis
  then show ?thesis using s'(1) send by blast
qed

definition sample_coe_config :: coe_rx_config where
  "sample_coe_config = \<lparr>crx_buffer_size = 256, crx_channel = 5\<rparr>"

definition sample_coe_receiver :: coe_receiver where
  "sample_coe_receiver = start_coe_receiver (\<lambda>_. replicate 256 0)"

definition sample_coe_plane :: coe_data_plane where
  "sample_coe_plane = new_coe_data_plane 1 [2, 0, 0, 0, 0, 1] 0 0"

lemma sample_coe_size: "coe_buffer_size sample_coe_config = 256"
  by (simp add: coe_buffer_size_def sample_coe_config_def core_round_up_def)

lemma sample_coe_reachable: "coe_reachable sample_coe_config sample_coe_receiver"
  unfolding sample_coe_receiver_def by (rule coe_start) (simp add: sample_coe_size)

lemma sample_coe_awaiting: "coe_awaiting sample_coe_config sample_coe_receiver"
  using coe_reachable_ok [OF sample_coe_reachable]
  by (simp add: coe_awaiting_def sample_coe_receiver_def start_coe_receiver_def)

lemma new_coe_stream: "length mac = 6 \<Longrightarrow> coe_stream_headers (ct_headers (new_coe_transmitter mac))"
  by (simp add: coe_stream_headers_def new_coe_transmitter_def coe_headers_ok_def DEFAULT_COE_HEADERS_def
      STREAM_ID_def ACF_MSG_TYPE_SHIFT_def COE_ACF_MSG_TYPE_def push_bit_eq_mult)

lemma sample_coe_plane_at: "cd_vp_address sample_coe_plane = dc_vp_address sample_channel"
    "cd_hif_address sample_coe_plane = dc_hif_address sample_channel"
    "coe_stream_headers (ct_headers (cd_transmitter sample_coe_plane))"
    "ct_frame_number (cd_transmitter sample_coe_plane) = 0"
  using new_coe_stream [of "[2, 0, 0, 0, 0, 1]"]
  by (simp_all add: sample_coe_plane_def new_coe_data_plane_def sample_channel_def new_coe_transmitter_def)

lemma sample_coe_payload: "compute_payload_size 46 (channel_mtu sample_channel) = Inr 1408"
  by (simp add: compute_payload_size_def channel_mtu_def sample_channel_def get_int_def DEFAULT_MTU_def CORE_PAGE_SIZE_def)

lemma sample_coe_to: "data_destination sample_network sample_channel 0 = Inr (sample_destination\<lparr>to_port := 0\<rparr>)"
  by (simp add: data_destination_def sample_network_def sample_channel_def sample_destination_def)

lemma sample_threshold: "line_threshold_log2 640 0 = Inr 10"
  by (simp add: line_threshold_log2.simps push_bit_eq_mult word_le_nat_alt)

theorem coe_frame_delivered_witness:
  "\<exists>s' packets dp'.
    configure_coe sample_network sample_channel 5 100 640 False (fresh_board initial_host) = (Inr (), s') \<and>
    coe_dp_send (\<lambda>_. zero_time) (\<lambda>_. True) (replicate MAX_MESSAGE_SIZE 0) (e_regs (device (link s'))) [1, 2, 3]
      (Some Default_metadata) sample_coe_plane = (Inr (Some (131, packets)), dp') \<and>
    (\<forall>arrivals. filter (coe_ours sample_coe_config) (map snd arrivals) = packets \<and>
       coe_ours sample_coe_config (snd (last arrivals)) \<longrightarrow>
       (\<exists>st' md bytes st''. coe_receive_all sample_coe_config arrivals sample_coe_receiver = Coe_running st' \<and>
          coe_get_next_frame sample_coe_config st' = (Some (md, bytes), st'') \<and> take 3 bytes = [1, 2, 3] \<and>
          unat (md_bytes_written (cl_frame_metadata md)) = 3 \<and> md_frame_number (cl_frame_metadata md) = 0 \<and>
          cl_frame_packets_received md = of_nat (length arrivals)))"
proof -
  have board: "board_connected initial_registers (Suc (Suc 0)) initial_host (fresh_board initial_host)"
    by (rule initial_connected) simp
  have "crx_channel sample_coe_config = ucast (5 :: u8)" "unat (crx_buffer_size sample_coe_config) = 256"
    by (simp_all add: sample_coe_config_def)
  then show ?thesis
    using coe_frame_delivered [OF board sample_addresses(1) sample_coe_plane_at(1-3) sample_coe_payload _ sample_coe_to _ _
      sample_threshold _ _ sample_coe_awaiting, of 5 "[1, 2, 3]" "replicate MAX_MESSAGE_SIZE 0" 100 "\<lambda>_. zero_time"]
    by (simp add: sample_destination_def sample_coe_plane_at(4) numeral_3_eq_3)
qed

subsection \<open>Jumbo frames\<close>

text \<open>
  C25: When the MTU of a channel allows a payload of 2048 bytes or more, as that of jumbo frames does, the packets do not
  fit the message buffer of the board's transmitter: of a frame of whole packets, nothing but the packet with the
  metadata is sent.
\<close>

theorem coe_jumbo_frame_lost:
  assumes board: "board_connected R (Suc (Suc n)) h s" and at: "plane_addresses dc i p m"
    and dp: "cd_vp_address dp = dc_vp_address dc" "cd_hif_address dp = dc_hif_address dc"
      "coe_headers_ok (ct_headers (cd_transmitter dp))"
    and payload: "compute_payload_size 46 (channel_mtu dc) = Inr payload_size" "unat payload_size \<le> 0xFFFF"
      "2044 < unat payload_size"
    and dest: "data_destination net dc 0 = Inr dest" "length (to_mac dest) = 6" "to_port dest \<le> 0xFFFF"
    and k: "line_threshold_log2 pixel_width 0 = Inr k" and channel: "channel < 64"
    and content: "unat payload_size dvd length content" and mesg: "length mesg = MAX_MESSAGE_SIZE"
  shows "\<exists>s' packet dp'.
    configure_coe net dc channel frame_size pixel_width False s = (Inr (), s') \<and>
    coe_dp_send clk (\<lambda>_. True) mesg (e_regs (device (link s'))) content (Some Default_metadata) dp =
      (Inr (Some (128, [packet])), dp')"
proof -
  obtain s' where s': "configure_coe net dc channel frame_size pixel_width False s = (Inr (), s')"
      "coe_configured dc channel frame_size k payload_size dest (rm_read (e_regs (device (link s')))) dp"
    by (rule coe_channel_configured [OF board at dp payload(1,2) dest k channel])
  have "argument_ok Default_metadata" by (simp add: argument_ok_def)
  with coe_dp_send_large [OF s'(2) payload(3) content mesg, of Default_metadata "\<lambda>_. True" clk] s'(1)
  show ?thesis by blast
qed

definition jumbo_channel :: data_channel where
  "jumbo_channel = sample_channel\<lparr>dc_metadata := [''mtu'' \<mapsto> Meta_int 9000]\<rparr>"

theorem coe_jumbo_frame_lost_witness:
  "\<exists>s' packet dp'.
    configure_coe sample_network jumbo_channel 5 17664 640 False (fresh_board initial_host) = (Inr (), s') \<and>
    coe_dp_send (\<lambda>_. zero_time) (\<lambda>_. True) (replicate MAX_MESSAGE_SIZE 0) (e_regs (device (link s')))
      (replicate 17664 7) (Some Default_metadata) sample_coe_plane = (Inr (Some (128, [packet])), dp')"
proof -
  have board: "board_connected initial_registers (Suc (Suc 0)) initial_host (fresh_board initial_host)"
    by (rule initial_connected) simp
  have payload: "compute_payload_size 46 (channel_mtu jumbo_channel) = Inr 8832"
    by (simp add: compute_payload_size_def channel_mtu_def jumbo_channel_def get_int_def CORE_PAGE_SIZE_def cast_u32_def)
  have at: "plane_addresses jumbo_channel 0 0 0" "cd_vp_address sample_coe_plane = dc_vp_address jumbo_channel"
      "cd_hif_address sample_coe_plane = dc_hif_address jumbo_channel"
    using sample_addresses(1) sample_coe_plane_at by (simp_all add: jumbo_channel_def plane_addresses_def)
  have "data_destination sample_network jumbo_channel 0 = Inr (sample_destination\<lparr>to_port := 0\<rparr>)"
    by (simp add: jumbo_channel_def data_destination_def sample_channel_def sample_network_def sample_destination_def)
  moreover have "coe_headers_ok (ct_headers (cd_transmitter sample_coe_plane))"
    using sample_coe_plane_at(3) by (simp add: coe_stream_headers_def)
  ultimately show ?thesis
    using coe_jumbo_frame_lost [OF board at _ payload, of sample_network "sample_destination\<lparr>to_port := 0\<rparr>" 640 10 5
        "replicate 17664 7" "replicate MAX_MESSAGE_SIZE 0" 17664 "\<lambda>_. zero_time"] sample_threshold
    by (simp add: sample_destination_def)
qed

subsection \<open>The buffers of the receiver\<close>

text \<open>
  C20: In every state that the two threads reach while the receiver runs, the buffer that is received into, the available one
  and the one the application is busy with are three different ones, and no round of the loop dereferences a null
  pointer.
\<close>

theorem coe_buffers_distinct:
  assumes "coe_reachable cfg st" and "cr_phase st \<noteq> Stopped"
  shows "(\<exists>b a. cr_busy st = Some b \<and> cr_available st = Some a \<and> distinct [cr_receiving st, b, a] \<and>
      {cr_receiving st, b, a} = {..<3}) \<and>
    (cr_phase st = Looping \<longrightarrow> coe_receive_step cfg call st \<noteq> Coe_undefined)"
proof -
  have ok: "coe_ok cfg st" by (rule coe_reachable_ok [OF assms(1)])
  then have "coe_buffers_apart st" using assms(2) by (simp add: coe_ok_def)
  moreover have "cr_phase st = Looping \<Longrightarrow> coe_receive_step cfg call st \<noteq> Coe_undefined"
    using coe_receive_step_ok [OF ok, of call] by auto
  ultimately show ?thesis unfolding coe_buffers_apart_def by blast
qed

theorem coe_buffers_distinct_witness:
  "coe_receive_step sample_coe_config \<lparr>rc_bytes = [1, 2], rc_try_again = False, rc_now = Some zero_time\<rparr> sample_coe_receiver
    \<noteq> Coe_undefined"
  using coe_buffers_distinct [OF sample_coe_reachable, of "\<lparr>rc_bytes = [1, 2], rc_try_again = False, rc_now = Some zero_time\<rparr>"]
  by (simp add: sample_coe_receiver_def start_coe_receiver_def)

subsection \<open>Two frames before the application takes one\<close>

text \<open>
  C21: When the end of another frame falls between the wait of the application and its exchange of the buffers, the
  application gets the newer frame, but the flag stays set: its next call does not wait for a frame and gives back the
  buffer that it has had before, as it was.
\<close>

theorem coe_old_frame_again:
  assumes "coe_reachable cfg st" and "cr_phase st = Looping" and taking: "cr_taking st"
    and frame: "coe_receive_step cfg call st = Coe_running st1" "cr_phase st1 = Signalling"
    and busy: "cr_busy st = Some b"
  shows "\<exists>newer st2 st3. coe_take cfg (coe_signal cfg st1) = (Some newer, st2) \<and>
    coe_get_next_frame cfg st2 =
      (Some (cdesc_metadata (cr_descriptors st ! b), take (unat (crx_buffer_size cfg)) (cdesc_memory (cr_descriptors st ! b))), st3) \<and>
    coe_reachable cfg st3"
proof -
  have apart: "cr_receiving st \<noteq> b" "b \<noteq> cr_receiving st1"
    using coe_reachable_ok [OF assms(1)] assms(2) busy coe_receive_step_exchange(1) [OF frame(1) assms(2) frame(2)]
    by (auto simp: coe_ok_def coe_buffers_apart_def)
  note x = coe_receive_step_exchange [OF frame(1) assms(2) frame(2)]
  let ?s2 = "coe_signal cfg st1"
  let ?s3 = "snd (coe_take cfg ?s2)"
  let ?s4 = "snd (coe_wait ?s3)"
  have "coe_reachable cfg ?s2"
    using coe_reachable.coe_next [OF assms(1) coe_round [OF assms(2) frame(1)]] coe_wake [OF frame(2)]
    by (rule coe_reachable.coe_next)
  then have "coe_reachable cfg ?s3" by (rule coe_reachable.coe_next) (rule coe_taken, simp add: x(4) taking)
  then have "coe_reachable cfg ?s4" by (rule coe_reachable.coe_next) (rule coe_waited, simp add: coe_take_def)
  then have r: "coe_reachable cfg (snd (coe_take cfg ?s4))"
    by (rule coe_reachable.coe_next) (rule coe_taken, simp add: coe_take_def coe_wait_def)
  have "cr_descriptors ?s2 ! b = cr_descriptors st ! b" using apart x(5) [of b] by simp
  then show ?thesis using r x(2,3) busy
    by (simp add: coe_take_def coe_get_next_frame_def coe_wait_def Let_def)
qed

definition sample_end_packet :: recv_call where
  "sample_end_packet =
     \<lparr>rc_bytes = coe_last_packet
        (coe_frame_headers (coe_configured_metadata 0 5 100 10 1408 sample_destination) (ct_headers (cd_transmitter sample_coe_plane)))
        0 (coe_packet_frame_number (cd_transmitter sample_coe_plane)) 0 0 zero_time (default_metadata zero_time zero_time 0 0 0),
      rc_try_again = False, rc_now = Some zero_time\<rparr>"

lemma sample_end_received:
  assumes "coe_reachable sample_coe_config st" and "cr_phase st = Looping"
  shows "\<exists>st1. coe_receive_step sample_coe_config sample_end_packet st = Coe_running st1 \<and> cr_phase st1 = Signalling \<and>
    coe_reachable sample_coe_config (coe_signal sample_coe_config st1)"
proof -
  let ?cm = "coe_configured_metadata 0 5 100 10 1408 sample_destination" and ?t = "cd_transmitter sample_coe_plane"
  let ?h = "coe_frame_headers ?cm (ct_headers ?t)" and ?md = "default_metadata zero_time zero_time 0 0 0"
  have h: "coe_stream_headers ?h" "acf_channel_field (acf_h ?h) AND 0x3F = crx_channel sample_coe_config"
    using coe_channel_stream [OF sample_coe_plane_at(3), of sample_destination 5]
    by (simp_all add: sample_destination_def sample_coe_config_def)
  have md: "length (tx_reserved ?md) = 80" by (simp add: default_metadata_def)
  obtain st1 where st1: "coe_receive_packet sample_coe_config zero_time
        (coe_last_packet ?h 0 (coe_packet_frame_number ?t) 0 0 zero_time ?md) st = Coe_running st1" "cr_phase st1 = Signalling"
    by (rule receive_coe_last_packet [OF coe_reachable_ok [OF assms(1)] assms(2) h _ _ md, of 0 zero_time 0 ?t 0 zero_time]) simp_all
  have "length (rc_bytes sample_end_packet) = 174"
    using h(1) md by (simp add: sample_end_packet_def coe_last_packet_def coe_stream_headers_def)
  then have "rc_bytes sample_end_packet \<noteq> []" "take RX_PACKET_SIZE (rc_bytes sample_end_packet) = rc_bytes sample_end_packet"
    by (auto simp: RX_PACKET_SIZE_def)
  then have run: "coe_receive_step sample_coe_config sample_end_packet st = Coe_running st1"
    using st1(1) by (simp add: coe_receive_step_def) (simp add: sample_end_packet_def)
  have "coe_reachable sample_coe_config (coe_signal sample_coe_config st1)"
    using coe_reachable.coe_next [OF assms(1) coe_round [OF assms(2) run]] coe_wake [OF st1(2)]
    by (rule coe_reachable.coe_next)
  then show ?thesis using run st1(2) by blast
qed

theorem coe_old_frame_again_witness:
  "\<exists>st newer st2 st3. coe_reachable sample_coe_config st \<and> coe_take sample_coe_config st = (Some newer, st2) \<and>
    coe_get_next_frame sample_coe_config st2 = (Some (zero_coe_rx_metadata, replicate 256 0), st3)"
proof -
  let ?st = sample_coe_receiver
  have st: "cr_phase ?st = Looping" "cr_busy ?st = Some 1" "cr_receiving ?st = 0" "cr_available ?st = Some 2"
      "cr_descriptors ?st ! 1 = \<lparr>cdesc_memory = replicate 256 0, cdesc_metadata = zero_coe_rx_metadata\<rparr>"
    by (simp_all add: sample_coe_receiver_def start_coe_receiver_def)
  obtain st1 where st1: "coe_receive_step sample_coe_config sample_end_packet ?st = Coe_running st1" "cr_phase st1 = Signalling"
      "coe_reachable sample_coe_config (coe_signal sample_coe_config st1)"
    using sample_end_received [OF sample_coe_reachable st(1)] by blast
  note x = coe_receive_step_exchange [OF st1(1) st(1) st1(2)]
  let ?a = "coe_signal sample_coe_config st1"
  let ?b = "snd (coe_wait ?a)"
  have "\<not> cr_taking ?a" using x(4) by (simp add: sample_coe_receiver_def start_coe_receiver_def)
  then have b: "coe_reachable sample_coe_config ?b" "cr_phase ?b = Looping" "cr_taking ?b" "cr_busy ?b = Some 1"
    using coe_reachable.coe_next [OF st1(3) coe_waited] x(3) st(2) by (simp_all add: coe_wait_def)
  obtain st2 where st2: "coe_receive_step sample_coe_config sample_end_packet ?b = Coe_running st2" "cr_phase st2 = Signalling"
      "coe_reachable sample_coe_config (coe_signal sample_coe_config st2)"
    using sample_end_received [OF b(1,2)] by blast
  have "cr_descriptors ?b ! 1 = cr_descriptors ?st ! 1"
    using x(1) x(5) [of 1] st by (simp add: coe_wait_def)
  then show ?thesis
    using coe_old_frame_again [OF b(1-3) st2(1,2) b(4)] st2(3) st(5) by (auto simp: sample_coe_config_def)
qed

subsection \<open>Packets that end a frame without its metadata\<close>

text \<open>
  C38: A packet of the channel that is marked as the end of a frame but has less than the 48 bytes of the metadata makes the
  receiving loop throw, whoever sent it; nothing catches the exception before the loop ends, and the application is
  never woken for it.
\<close>

theorem coe_short_end_throws:
  assumes "coe_stream_headers h" and "acf_channel_field (acf_h h) AND 0x3F = crx_channel cfg"
    and "flags AND COE_FRAME_END \<noteq> 0" and "length payload < 48"
  shows "\<exists>st'. coe_receive_packet cfg now (coe_header_bytes (coe_packet_headers h sent address psn flags) @ payload) st =
      Coe_thrown (Runtime_error ''Buffer underflow in metadata'') st' \<and>
    cr_ready st' = cr_ready st \<and> cr_available st' = cr_available st"
proof -
  have "length payload < 2 ^ 31" using assms(4) by simp
  from coe_receive_stack_packet [OF assms(1,2) this, of now sent address psn flags st] assms(3)
  show ?thesis by (simp add: coe_frame_end_def deserialize_metadata_short [OF assms(4)] Let_def)
qed

theorem coe_short_end_throws_witness:
  "\<exists>st'. coe_receive_packet \<lparr>crx_buffer_size = 256, crx_channel = 0\<rparr> zero_time
      (coe_header_bytes (coe_packet_headers (ct_headers (new_coe_transmitter [2, 0, 0, 0, 0, 1])) zero_time 0 0 2) @ [1, 2, 3])
      sample_coe_receiver = Coe_thrown (Runtime_error ''Buffer underflow in metadata'') st' \<and> \<not> cr_ready st'"
proof -
  have "acf_channel_field (acf_h (ct_headers (new_coe_transmitter [2, 0, 0, 0, 0, 1]))) AND 0x3F = 0"
    by (simp add: acf_channel_field_def new_coe_transmitter_def DEFAULT_COE_HEADERS_def)
  from coe_short_end_throws [OF new_coe_stream, of "[2, 0, 0, 0, 0, 1]" "\<lparr>crx_buffer_size = 256, crx_channel = 0\<rparr>" 2 "[1, 2, 3]"
      zero_time zero_time 0 0 sample_coe_receiver] this
  moreover have "\<not> cr_ready sample_coe_receiver" by (simp add: sample_coe_receiver_def start_coe_receiver_def)
  ultimately show ?thesis by (auto simp: COE_FRAME_END_def)
qed

end
