(* ===== verification/Board_Steps.thy ===== *)
theory Board_Steps
  imports Apb_Exec Emulator_Link
begin

text \<open>
  The emulated board as a whole: its three threads (control messages, APB sequences, I2C
  transactions) take steps in any order on the shared registers. A step is one control
  message, one command of a sequence or one look at a polled register, or one transaction:
  each of them is what the thread does between two points at which the others can see it do
  so through the queue, the registers or the socket. What holds in every reachable state is
  proved by induction on the steps.
\<close>

subsection \<open>Steps\<close>

type_synonym 'p board = "'p emulator \<times> apb_exec option"

inductive board_step :: "'p board \<Rightarrow> 'p board \<Rightarrow> bool" where
  control: "e_running e \<Longrightarrow> board_step (e, x) (fst (control_listen datagram e), x)"
| apb_begin: "apb_running e \<Longrightarrow> apb_queue e = (event, a) # q \<Longrightarrow>
    board_step (e, None) (e\<lparr>apb_queue := q\<rparr>, Some (apb_begin a e))"
| apb_command: "apb_running e \<Longrightarrow> apb_step (e, x) = (Inr False, (e', x')) \<Longrightarrow>
    board_step (e, Some x) (e', Some x')"
| apb_done: "apb_running e \<Longrightarrow> apb_step (e, x) = (Inr True, (e', x')) \<Longrightarrow>
    board_step (e, Some x) (e', None)"
| apb_throw: "apb_running e \<Longrightarrow> apb_step (e, x) = (Inl err, (e', x')) \<Longrightarrow>
    board_step (e, Some x) (terminate e', Some x')"
| i2c: "i2c_enabled e \<Longrightarrow> board_step (e, x) (i2c_execute e, x)"

inductive_cases board_stepE [elim]: "board_step (e, x) s'"

inductive board_reachable :: "'p emulator \<Rightarrow> 'p board \<Rightarrow> bool" for e0 where
  start: "board_reachable e0 (e0, None)"
| step: "board_reachable e0 s \<Longrightarrow> board_step s s' \<Longrightarrow> board_reachable e0 s'"

subsection \<open>What a register write leaves alone\<close>

definition same_frame :: "'p emulator \<Rightarrow> 'p emulator \<Rightarrow> bool" where
  "same_frame e e' \<longleftrightarrow>
     e_running e' = e_running e \<and> apb_running e' = apb_running e \<and> i2c_running e' = i2c_running e \<and>
     e_next_sequence e' = e_next_sequence e \<and> i2c_attached e' = i2c_attached e \<and>
     i2c_peripheral e' = i2c_peripheral e \<and>
     (\<exists>q. apb_queue e' = apb_queue e @ q \<and> set q \<subseteq> {(SW_EVENT, APB_RAM + 0x800)})"

lemma same_frame_refl [simp]: "same_frame e e"
  by (simp add: same_frame_def)

lemma unat_suc_count: "unat (n :: u16) \<le> 299 \<Longrightarrow> unat (n + 1) = Suc (unat n)"
  using unat_word_ariths(1) [of n 1] by simp

lemma same_frame_order: "reflp same_frame" "transp same_frame"
  unfolding same_frame_def by (auto intro!: reflpI transpI)

text \<open>Writes keep the poll detection, the flags and the peripherals, and can only queue the software event.\<close>

definition written_from :: "'p emulator \<Rightarrow> 'p emulator \<Rightarrow> bool" where
  "written_from e e' \<longleftrightarrow> same_frame e e' \<and> e_poll_count e' = e_poll_count e"

lemma written_from_order [hrel_intro]: "reflp written_from" "transp written_from"
  using same_frame_order unfolding written_from_def
  by (auto intro!: reflpI transpI dest: reflpD transpD)

lemma hrel_set_reg [hrel_intro]: "hrel written_from (hmodify (set_reg a v))"
  by (simp add: hrel_def written_from_def same_frame_def set_reg_def)

lemma hrel_queue_event [hrel_intro]: "hrel written_from (queue_event SW_EVENT)"
  by (simp add: hrel_def written_from_def same_frame_def queue_event_def event_start_address_def)

lemma hrel_i2c_control [hrel_intro]: "hrel written_from (i2c_control v)"
  by (simp add: hrel_def written_from_def same_frame_def i2c_control_def Let_def set_reg_def)

lemma hrel_emu_write [hrel_intro]: "hrel written_from (emu_write a v)"
proof (induction a v rule: emu_write.induct)
  case (1 a v)
  then show ?case
    unfolding emu_write.simps [of a v] by (intro hrel_intro) (auto intro!: hrel_intro)
qed

lemma hrel_emu_read [hrel_intro]: "hrel written_from (emu_read a)"
  unfolding emu_read_def by (intro hrel_intro)

lemma hrel_handle_writes [hrel_intro]: "hrel written_from (handle_writes avs)"
  by (induction avs rule: handle_writes.induct) (simp_all only: handle_writes.simps hrel_intro)

lemma hrel_handle_poll [hrel_intro]: "hrel written_from handle_poll"
  unfolding handle_poll_def by (intro hrel_intro) (auto intro!: hrel_intro split: prod.splits)

subsection \<open>The poll detection is bounded\<close>

text \<open>
  Between messages the count of repeated reads is below the limit; a read that reaches it throws.
\<close>

definition polls_ok :: "hsb_error + 'a \<Rightarrow> 'p emulator \<Rightarrow> bool" where
  "polls_ok r e \<longleftrightarrow> unat (e_poll_count e) \<le> (case r of Inl _ \<Rightarrow> 300 | Inr _ \<Rightarrow> 299)"

lemma handle_reads_polls:
  "unat (e_poll_count e) \<le> 299 \<Longrightarrow> handle_reads avs e = (r, e') \<Longrightarrow> same_frame e e' \<and> polls_ok r e'"
proof (induction avs arbitrary: e r)
  case Nil
  then show ?case by (auto simp: polls_ok_def)
next
  case (Cons av avs)
  obtain a v where av: "av = (a, v)" by force
  obtain polled e1 where d: "detect_poll a e = (Inr polled, e1)"
    by (cases "a = e_last_read_address e") (simp_all add: detect_poll_def Let_def)
  have e1: "same_frame e e1" "unat (e_poll_count e1) \<le> 300"
      "\<not> polled \<Longrightarrow> unat (e_poll_count e1) \<le> 299"
    using d Cons.prems(1) unat_suc_count [OF Cons.prems(1)]
    by (auto simp: detect_poll_def Let_def same_frame_def POLL_COUNT_TRIGGER_def word_le_nat_alt split: if_splits)
  obtain p e2 where h: "hwhen polled handle_poll e1 = (p, e2)" by force
  have e2: "same_frame e1 e2" "polls_ok p e2"
  proof -
    have w: "written_from e1 e2"
      using hrelD [OF hrel_hwhen [OF written_from_order(1) hrel_handle_poll] h] .
    then show "same_frame e1 e2" by (simp add: written_from_def)
    have "unat (e_poll_count e1) \<le> 299" if "p = Inr ()"
      using that h e1(3) e1(2)
      by (cases polled) (auto simp: handle_poll_def hthen_def hbind_def POLL_COUNT_EXIT_def word_le_nat_alt
          split: if_splits)
    with w e1(2) show "polls_ok p e2" by (cases p) (auto simp: polls_ok_def written_from_def)
  qed
  have 12: "same_frame e e2" using e1(1) e2(1) same_frame_order(2) by (metis transpD)
  show ?case
  proof (cases p)
    case (Inl err)
    then have "r = Inl err" "e' = e2" using Cons.prems(2) d h by (auto simp: av hthen_def hbind_def)
    with 12 e2(2) Inl show ?thesis by (simp add: polls_ok_def)
  next
    case (Inr u)
    then have le: "unat (e_poll_count e2) \<le> 299" using e2(2) by (simp add: polls_ok_def)
    obtain r2 where r2: "handle_reads avs e2 = (r2, e')" "polls_ok r e' = polls_ok r2 e'"
      using Cons.prems(2) d h Inr
      by (auto simp: av hthen_def hbind_def emu_read_def polls_ok_def split: prod.splits sum.splits)
    from Cons.IH [OF le r2(1)] 12 r2(2) show ?thesis using same_frame_order(2) by (metis transpD)
  qed
qed

lemma control_message_polls:
  assumes "unat (e_poll_count e) \<le> 299" and "control_message_step datagram e = (r, e')"
  shows "e_running e' = e_running e \<and> apb_running e' = apb_running e \<and> i2c_running e' = i2c_running e \<and>
    (\<exists>q. apb_queue e' = apb_queue e @ q \<and> set q \<subseteq> {(SW_EVENT, APB_RAM + 0x800)}) \<and> polls_ok r e'"
proof -
  have disp: "same_frame e1 e2 \<and> polls_ok p e2"
    if d: "dispatch_message m e1 = (p, e2)" and "unat (e_poll_count e1) \<le> 299" for m p and e1 e2 :: "'a emulator"
  proof -
    consider (rd) "m_cmd m \<in> set read_commands" | (wr) "m_cmd m \<notin> set read_commands" "m_cmd m \<in> set write_commands"
      | (other) "m_cmd m \<notin> set read_commands" "m_cmd m \<notin> set write_commands" by blast
    then show ?thesis
    proof cases
      case rd
      then obtain p' where "handle_reads (m_pairs m) e1 = (p', e2)" "polls_ok p e2 = polls_ok p' e2"
        using d by (auto simp: dispatch_message_def handle_read_message_def hbind_def polls_ok_def
            split: prod.splits sum.splits)
      then show ?thesis using handle_reads_polls [OF that(2)] by metis
    next
      case wr
      obtain w e3 where w: "handle_writes (m_pairs m) e1 = (w, e3)" by force
      have "written_from e1 e3" using hrelD [OF hrel_handle_writes w] .
      then show ?thesis using wr d w that(2)
        by (auto simp: dispatch_message_def handle_write_message_def hthen_def hbind_def polls_ok_def
            written_from_def same_frame_def split: sum.splits)
    next
      case other
      then show ?thesis using d that(2)
        by (auto simp: dispatch_message_def polls_ok_def)
    qed
  qed
  show ?thesis
  proof (cases "e' = e")
    case True
    then show ?thesis using assms by (auto simp: polls_ok_def split: sum.splits)
  next
    case False
    then obtain m where m: "hbind (dispatch_message m) (\<lambda>m'. hret (handle_reply_message m'))
        (e\<lparr>e_next_sequence := m_sequence m + 1\<rparr>) = (r, e')"
      using assms(2) unfolding control_message_step_def Let_def by (auto split: if_splits option.splits)
    obtain p e2 where p: "dispatch_message m (e\<lparr>e_next_sequence := m_sequence m + 1\<rparr>) = (p, e2)" by force
    have "e2 = e'" "polls_ok r e' = polls_ok p e'"
      using m by (auto simp: p hbind_def polls_ok_def split: sum.splits)
    with disp [OF p] assms(1) show ?thesis
      by (auto simp: same_frame_def)
  qed
qed

subsection \<open>The interpreter of sequences\<close>

text \<open>It fetches whole words at aligned addresses, and commands of two bits within a word.\<close>

definition exec_ok :: "apb_exec \<Rightarrow> bool" where
  "exec_ok x \<longleftrightarrow> x_bit x \<le> 32 \<and> even (x_bit x) \<and> \<not> misaligned (x_address x)"

definition exec_from :: "'p emulator \<times> apb_exec \<Rightarrow> 'p emulator \<times> apb_exec \<Rightarrow> bool" where
  "exec_from s s' \<longleftrightarrow> written_from (fst s) (fst s') \<and> (exec_ok (snd s) \<longrightarrow> exec_ok (snd s'))"

lemma exec_from_order [hrel_intro]: "reflp exec_from" "transp exec_from"
  using written_from_order unfolding exec_from_def
  by (auto intro!: reflpI transpI dest: reflpD transpD)

lemma written_from_refl [simp]: "written_from e e"
  by (simp add: written_from_def)

lemma hrel_on_emu [hrel_intro]: "hrel written_from m \<Longrightarrow> hrel exec_from (on_emu m)"
  by (auto simp: hrel_def on_emu_def exec_from_def split: prod.splits) (metis snd_conv)

lemma hrel_next_value [hrel_intro]: "hrel exec_from next_value"
  by (simp add: hrel_def next_value_def exec_from_def exec_ok_def misaligned_add_4)

lemma hrel_next_cmd [hrel_intro]: "hrel exec_from next_cmd"
  by (auto simp: hrel_def next_cmd_def next_value_def on_exec_def exec_from_def exec_ok_def misaligned_add_4
      hthen_def hbind_def not_le)

lemma hrel_set_poll [hrel_intro]: "hrel exec_from (on_exec (\<lambda>x. x\<lparr>x_poll := p\<rparr>))"
  by (auto simp: hrel_def on_exec_def exec_from_def exec_ok_def)

lemma hrel_apb_step [hrel_intro]: "hrel exec_from apb_step"
  unfolding apb_step_def sequence_poll_def sequence_write_def sequence_read_def sequence_error_def
  by (intro hrel_intro) (auto intro!: hrel_intro split: option.splits)

subsection \<open>Invariants of the whole board\<close>

definition queue_ok :: "(hsb_event \<times> u32) list \<Rightarrow> bool" where
  "queue_ok q \<longleftrightarrow> (\<forall>p \<in> set q. event_start_address (fst p) = Some (snd p))"

lemma queue_ok_more:
  assumes "queue_ok q0" and "set q \<subseteq> {(SW_EVENT, APB_RAM + 0x800)}"
  shows "queue_ok (q0 @ q)"
proof -
  have "event_start_address SW_EVENT = Some (APB_RAM + 0x800)" by (simp add: event_start_address_def)
  then have "queue_ok q" using assms(2) unfolding queue_ok_def by fastforce
  with assms(1) show ?thesis by (auto simp: queue_ok_def)
qed

lemma same_frame_queue: "same_frame e e' \<Longrightarrow> queue_ok (apb_queue e) \<Longrightarrow> queue_ok (apb_queue e')"
  using queue_ok_more by (fastforce simp: same_frame_def)

text \<open>
  The three threads live and die together; while they live the poll count is below the limit,
  every queued event has the start address of its kind, and the interpreter is well aligned.
\<close>

definition board_ok :: "'p board \<Rightarrow> bool" where
  "board_ok s \<longleftrightarrow>
     (let (e, x) = s in
      (e_running e \<longleftrightarrow> apb_running e) \<and> (e_running e \<longleftrightarrow> i2c_running e) \<and>
      (e_running e \<longrightarrow> unat (e_poll_count e) \<le> 299) \<and>
      queue_ok (apb_queue e) \<and>
      (case x of None \<Rightarrow> True | Some x \<Rightarrow> exec_ok x))"

lemma board_ok_new: "board_ok (new_emulator version env peripheral, None)"
  by (simp add: board_ok_def new_emulator_def queue_ok_def)

lemma event_start_aligned: "event_start_address event = Some a \<Longrightarrow> \<not> misaligned a"
  by (cases event) (auto simp: event_start_address_def misaligned_def)

lemma i2c_execute_frame: "same_frame e (i2c_execute e)" "e_poll_count (i2c_execute e) = e_poll_count e"
  by (auto simp: i2c_execute_def Let_def same_frame_def set_reg_def split: prod.splits)

lemma board_ok_apb:
  assumes "apb_step (e, x) = (r, (e', x'))" and "board_ok (e, Some x)"
  shows "board_ok (e', Some x') \<and> board_ok (e', None)"
  using hrelD [OF hrel_apb_step assms(1)] assms(2)
  by (auto simp: board_ok_def exec_from_def written_from_def same_frame_queue) (auto simp: same_frame_def)

lemma board_ok_step:
  assumes "board_step s s'" and "board_ok s"
  shows "board_ok s' \<and> e_running (fst s)"
  using assms
proof (induction rule: board_step.induct)
  case (control e x datagram)
  obtain r e' where c: "control_message_step datagram e = (r, e')" by force
  have "unat (e_poll_count e) \<le> 299" using control by (simp add: board_ok_def)
  note polls = control_message_polls [OF this c]
  then have "queue_ok (apb_queue e')" using control queue_ok_more by (force simp: board_ok_def)
  with polls control c show ?case
    by (auto simp: board_ok_def control_listen_def terminate_def polls_ok_def split: sum.splits)
next
  case (apb_begin e event a q)
  then have "event_start_address event = Some a" by (auto simp: board_ok_def queue_ok_def)
  then have "\<not> misaligned (a + 4)" using event_start_aligned by (simp add: misaligned_add_4)
  with apb_begin show ?case by (auto simp: board_ok_def exec_ok_def apb_begin_def queue_ok_def)
next
  case (apb_command e x e' x')
  with board_ok_apb [OF apb_command(2)] show ?case by (auto simp: board_ok_def)
next
  case (apb_done e x e' x')
  with board_ok_apb [OF apb_done(2)] show ?case by (auto simp: board_ok_def)
next
  case (apb_throw e x err e' x')
  with board_ok_apb [OF apb_throw(2)] show ?case by (auto simp: board_ok_def terminate_def)
next
  case (i2c e x)
  have "queue_ok (apb_queue (i2c_execute e))"
    using same_frame_queue [OF i2c_execute_frame(1)] i2c by (auto simp: board_ok_def)
  with i2c i2c_execute_frame [of e] show ?case
    by (auto simp: board_ok_def same_frame_def i2c_enabled_def)
qed

lemma board_reachable_ok: "board_reachable e0 s \<Longrightarrow> board_ok (e0, None) \<Longrightarrow> board_ok s"
  by (induction rule: board_reachable.induct) (auto dest: board_ok_step)

subsection \<open>A transaction that a peripheral refuses\<close>

text \<open>The command is not cleared, so that the I2C thread executes it again, for ever.\<close>

definition i2c_refusing :: "'p emulator \<Rightarrow> bool" where
  "i2c_refusing e \<longleftrightarrow>
     (get_reg e (I2C_CTRL + I2C_REG_BUS_EN), i2c_address e) \<in> set (i2c_attached e) \<and>
     (\<forall>env key w r. \<not> fst (fst (i2c_peripheral e env key w r)))"

lemma i2c_execute_refused:
  assumes "i2c_refusing e"
  shows "\<exists>env. i2c_execute e = set_reg (I2C_CTRL + I2C_REG_STATUS) I2C_I2C_ERR
      (set_reg (I2C_CTRL + I2C_REG_STATUS) I2C_BUSY e\<lparr>i2c_env := env\<rparr>)"
proof -
  have [simp]: "i2c_peripheral (set_reg a v e) = i2c_peripheral e" "i2c_attached (set_reg a v e) = i2c_attached e"
    "i2c_address (set_reg a v e) = i2c_address e" "i2c_env (set_reg a v e) = i2c_env e" for a v
    by (simp_all add: set_reg_def)
  have key: "get_reg (set_reg (I2C_CTRL + I2C_REG_STATUS) v e) (I2C_CTRL + I2C_REG_BUS_EN) =
      get_reg e (I2C_CTRL + I2C_REG_BUS_EN)" for v
    by (simp add: get_set_reg)
  show ?thesis
    using assms unfolding i2c_refusing_def i2c_execute_def Let_def case_prod_beta key by auto
qed

lemma i2c_refused_repeats:
  assumes "i2c_refusing e"
  shows "i2c_refusing (i2c_execute e)" "i2c_cmd (i2c_execute e) = i2c_cmd e" "i2c_running (i2c_execute e) = i2c_running e"
    "get_reg (i2c_execute e) (I2C_CTRL + I2C_REG_STATUS) = I2C_I2C_ERR"
proof -
  obtain env where *: "i2c_execute e = set_reg (I2C_CTRL + I2C_REG_STATUS) I2C_I2C_ERR
      (set_reg (I2C_CTRL + I2C_REG_STATUS) I2C_BUSY e\<lparr>i2c_env := env\<rparr>)"
    using i2c_execute_refused [OF assms] by blast
  have "get_reg (i2c_execute e) (I2C_CTRL + I2C_REG_BUS_EN) = get_reg e (I2C_CTRL + I2C_REG_BUS_EN)"
    unfolding * by (simp add: get_reg_def set_reg_def rm_write_upd)
  moreover have "i2c_address (i2c_execute e) = i2c_address e" "i2c_attached (i2c_execute e) = i2c_attached e"
    "i2c_peripheral (i2c_execute e) = i2c_peripheral e"
    unfolding * by (simp_all add: set_reg_def)
  ultimately show "i2c_refusing (i2c_execute e)" using assms unfolding i2c_refusing_def by simp
  show "i2c_cmd (i2c_execute e) = i2c_cmd e" "i2c_running (i2c_execute e) = i2c_running e"
    unfolding * by (simp_all add: set_reg_def)
  show "get_reg (i2c_execute e) (I2C_CTRL + I2C_REG_STATUS) = I2C_I2C_ERR"
    unfolding * by (simp add: get_set_reg)
qed

end
