(* ===== verification/Board_Turns.thy ===== *)
theory Board_Turns
  imports Board_Steps
begin

text \<open>
  The threads of the emulated board taking turns. \<open>Board_Steps\<close> lets them take steps in any order;
  here a fixed schedule is followed, the I2C thread first, then the APB thread, until both wait:
  each turn is a step of the board. A program of the host's sequencer that starts I2C
  transactions is executed to its end, each command as the emulator's handlers define it.
\<close>

subsection \<open>Turns\<close>

definition board_turn :: "'p board \<Rightarrow> 'p board" where
  "board_turn s =
     (case s of (e, x) \<Rightarrow>
        if i2c_enabled e then (i2c_execute e, x)
        else if \<not> apb_running e then (e, x)
        else case x of
            None \<Rightarrow> (case apb_queue e of
                [] \<Rightarrow> (e, None)
              | (event, a) # q \<Rightarrow> (e\<lparr>apb_queue := q\<rparr>, Some (apb_begin a e)))
          | Some x \<Rightarrow> (case apb_step (e, x) of
                (Inr over, (e', x')) \<Rightarrow> (e', if over then None else Some x')
              | (Inl err, (e', x')) \<Rightarrow> (terminate e', Some x')))"

text \<open>A turn is a step of the board, or nothing when both threads wait.\<close>

lemma board_turn_step: "board_turn s = s \<or> board_step s (board_turn s)"
proof -
  obtain e x where s: "s = (e, x)" by force
  show ?thesis
  proof (cases "i2c_enabled e \<or> \<not> apb_running e")
    case True
    then show ?thesis by (auto simp: s board_turn_def intro: board_step.i2c)
  next
    case False
    show ?thesis
    proof (cases x)
      case None
      with False show ?thesis
        by (auto simp: s board_turn_def intro: board_step.apb_begin split: list.splits)
    next
      case (Some y)
      obtain r e' x' where st: "apb_step (e, y) = (r, (e', x'))" by (metis surj_pair)
      show ?thesis
      proof (cases r)
        case (Inl err)
        with st have "board_step (e, Some y) (terminate e', Some x')"
          using False by (intro board_step.apb_throw) simp_all
        with False Some st Inl show ?thesis by (simp add: s board_turn_def)
      next
        case (Inr over)
        with st False Some show ?thesis
          by (cases over) (auto simp: s board_turn_def intro: board_step.apb_command board_step.apb_done)
      qed
    qed
  qed
qed

lemma board_turns_reachable: "board_reachable e0 s \<Longrightarrow> board_reachable e0 ((board_turn ^^ n) s)"
proof (induction n)
  case 0
  then show ?case by simp
next
  case (Suc n)
  have "board_reachable e0 ((board_turn ^^ n) s)" by (rule Suc.IH [OF Suc.prems])
  from board_turn_step [of "(board_turn ^^ n) s"] show ?case
  proof
    assume "board_turn ((board_turn ^^ n) s) = (board_turn ^^ n) s"
    with \<open>board_reachable e0 ((board_turn ^^ n) s)\<close> show ?thesis by simp
  next
    assume "board_step ((board_turn ^^ n) s) (board_turn ((board_turn ^^ n) s))"
    from board_reachable.step [OF \<open>board_reachable e0 ((board_turn ^^ n) s)\<close> this] show ?thesis by simp
  qed
qed

text \<open>Both threads wait for work.\<close>

definition threads_wait :: "'p board \<Rightarrow> bool" where
  "threads_wait s \<longleftrightarrow> snd s = None \<and> apb_queue (fst s) = [] \<and> i2c_cmd (fst s) = 0"

lemma board_turn_wait: "threads_wait s \<Longrightarrow> board_turn s = s"
  by (cases s) (simp add: threads_wait_def board_turn_def i2c_enabled_def)

lemma board_turns_wait: "threads_wait s \<Longrightarrow> (board_turn ^^ n) s = s"
  by (induction n) (simp_all add: board_turn_wait)

text \<open>Turns add up; once both threads wait, further turns change nothing.\<close>

lemma board_turns_settled:
  assumes "(board_turn ^^ m) s = s'" and "threads_wait s'" and "m \<le> n"
  shows "(board_turn ^^ n) s = s'"
proof -
  have "n = (n - m) + m" using assms(3) by simp
  then have "(board_turn ^^ n) s = (board_turn ^^ (n - m)) ((board_turn ^^ m) s)"
    using funpow_add [of "n - m" m board_turn] by (metis comp_apply)
  with assms(1,2) show ?thesis by (simp add: board_turns_wait)
qed

subsection \<open>One command\<close>

text \<open>
  What a command does to the board: a write with its side effect, and the transaction that it
  starts if it starts one; a read stores into its slot.
\<close>

definition write_run :: "u32 \<Rightarrow> u32 \<Rightarrow> 'p emulator \<Rightarrow> 'p emulator" where
  "write_run a v e =
     (let e1 = snd (emu_write a v e) in if i2c_enabled e1 then i2c_execute e1 else e1)"

fun command_run :: "u32 \<Rightarrow> apb_command \<Rightarrow> 'p emulator \<Rightarrow> 'p emulator" where
  "command_run slot (Apb_write a v) e = write_run a v e"
| "command_run slot (Apb_read a v) e = set_reg slot (get_reg e a) e"
| "command_run slot (Apb_poll a bits match) e = e"

text \<open>
  When it does so: a write is handled, leaves the I2C thread waiting and the program \<open>P\<close> alone; a
  poll finds what it waits for.
\<close>

fun command_ready :: "u32 set \<Rightarrow> apb_command \<Rightarrow> 'p emulator \<Rightarrow> bool" where
  "command_ready P (Apb_write a v) e \<longleftrightarrow>
     a \<noteq> DONE_COMMAND_ADDRESS \<and> fst (emu_write a v e) = Inr () \<and> \<not> i2c_enabled (write_run a v e) \<and>
     apb_running (write_run a v e) \<and> apb_running (snd (emu_write a v e)) \<and>
     (\<forall>b \<in> P. get_reg (write_run a v e) b = get_reg e b)"
| "command_ready P (Apb_read a v) e \<longleftrightarrow> a \<noteq> DONE_COMMAND_ADDRESS"
| "command_ready P (Apb_poll a bits match) e \<longleftrightarrow> a \<noteq> DONE_COMMAND_ADDRESS \<and> get_reg e a AND bits = match"

lemma apb_turn:
  assumes "\<not> i2c_enabled e" and "apb_running e" and "apb_step (e, x) = (Inr False, (e', x'))"
  shows "board_turn (e, Some x) = (e', Some x')"
  using assms by (simp add: board_turn_def)

text \<open>The interpreter before the program \<open>ops\<close>, at word \<open>p\<close> of the memory at \<open>loc\<close>.\<close>

definition decode_from ::
  "u32 \<Rightarrow> nat \<Rightarrow> nat \<Rightarrow> (seq_op \<times> u32 list) list \<Rightarrow> 'p emulator \<Rightarrow> apb_exec \<Rightarrow> bool"
where
  "decode_from loc k p ops e x \<longleftrightarrow> decode_at k ops e x \<and> x_address x = loc + of_nat p * 4"

lemma next_cmd_from:
  assumes "decode_from loc k p ((op, args) # ops) e x"
  defines "k' \<equiv> if k < 16 then Suc k else 1" and "q \<equiv> if k < 16 then p else Suc p"
  obtains x' where "next_cmd (e, x) = (Inr (op_code op), (e, x'))" "x_poll x' = None" "x_bit x' = 2 * k'"
    "drop_bit (2 * k') (x_word x') = drop_bit (2 * k') (fst (layout k' ops))"
    "words_at (get_reg e) (x_address x') (args @ snd (layout k' ops))" "x_address x' = loc + of_nat q * 4"
proof (cases "k < 16")
  case True
  let ?w = "fst (layout (Suc k) ops)"
  have d: "drop_bit (2 * k) (x_word x) = drop_bit (2 * k) (push_bit (2 * k) (op_code op) OR ?w)"
      "x_bit x = 2 * k" "x_poll x = None" "words_at (get_reg e) (x_address x) (args @ snd (layout (Suc k) ops))"
      "x_address x = loc + of_nat p * 4"
    using assms(1) True by (auto simp: decode_from_def decode_at_def split: prod.splits)
  have "drop_bit (2 * k) (x_word x) AND 3 = op_code op"
    using code_of_layout [OF True, of op ops] d(1) by simp
  with True d have "next_cmd (e, x) = (Inr (op_code op), (e, x\<lparr>x_bit := 2 * Suc k\<rparr>))"
    by (simp add: next_cmd_def on_exec_def hthen_def hbind_def)
  with True d rest_of_layout [OF d(1)] show ?thesis
    by (intro that [of "x\<lparr>x_bit := 2 * Suc k\<rparr>"]) (auto simp: k'_def q_def)
next
  case False
  then have k: "k = 16" using assms(1) by (simp add: decode_from_def decode_at_def)
  let ?w = "op_code op OR fst (layout 1 ops)"
  have d: "x_bit x = 32" "x_poll x = None" "get_reg e (x_address x) = ?w" "x_address x = loc + of_nat p * 4"
      "words_at (get_reg e) (x_address x + 4) (args @ snd (layout 1 ops))"
    using assms(1) k by (auto simp: decode_from_def decode_at_def split: prod.splits)
  have code: "?w AND 3 = op_code op" using code_of_layout [of 0 op ops] by simp
  let ?x = "x\<lparr>x_address := x_address x + 4, x_word := ?w, x_bit := 2\<rparr>"
  have "next_cmd (e, x) = (Inr (op_code op), (e, ?x))"
    using d code by (simp add: next_cmd_def on_exec_def hthen_def hbind_def next_value_def)
  moreover have "drop_bit 2 ?w = drop_bit 2 (fst (layout 1 ops))"
    using rest_of_layout [of 0 ?w op "fst (layout 1 ops)"] by simp
  ultimately show ?thesis using k d
    by (intro that [of ?x]) (auto simp: k'_def q_def algebra_simps numeral_2_eq_2 [symmetric])
qed

text \<open>The command after its code and its address have been fetched.\<close>

lemma apb_step_from:
  assumes "decode_from loc k p ((op, a # args) # ops) e x"
  defines "k' \<equiv> if k < 16 then Suc k else 1" and "q \<equiv> if k < 16 then p else Suc p"
  obtains x' where "decode_from loc k' (q + length (a # args)) ops e
        (x'\<lparr>x_address := x_address x' + of_nat (length args) * 4\<rparr>)"
    "words_at (get_reg e) (x_address x') (args @ snd (layout k' ops))" "x_address x' = loc + of_nat (Suc q) * 4"
    "apb_step (e, x) =
      (if a = DONE_COMMAND_ADDRESS then (Inr True, (e, x'))
       else hthen (if op_code op = 0 then sequence_poll a
                   else if op_code op = 1 then sequence_write a
                   else if op_code op = 2 then sequence_read a
                   else sequence_error) (hret False) (e, x'))"
proof -
  obtain x1 where n: "next_cmd (e, x) = (Inr (op_code op), (e, x1))" "x_poll x1 = None" "x_bit x1 = 2 * k'"
      "drop_bit (2 * k') (x_word x1) = drop_bit (2 * k') (fst (layout k' ops))"
      "words_at (get_reg e) (x_address x1) ((a # args) @ snd (layout k' ops))" "x_address x1 = loc + of_nat q * 4"
    using next_cmd_from [OF assms(1)] by (auto simp: k'_def q_def)
  let ?x' = "x1\<lparr>x_address := x_address x1 + 4\<rparr>"
  have poll: "x_poll x = None" using assms(1) by (simp add: decode_from_def decode_at_def)
  have at: "get_reg e (x_address x1) = a" "words_at (get_reg e) (x_address ?x') (args @ snd (layout k' ops))"
    using n(5) by simp_all
  have "apb_step (e, x) =
      (if a = DONE_COMMAND_ADDRESS then (Inr True, (e, ?x'))
       else hthen (if op_code op = 0 then sequence_poll a
                   else if op_code op = 1 then sequence_write a
                   else if op_code op = 2 then sequence_read a
                   else sequence_error) (hret False) (e, ?x'))"
    by (simp add: apb_step_def poll hbind_def n(1) next_value_run at(1))
  moreover have "k' \<le> 16" by (simp add: k'_def)
  then have "decode_from loc k' (q + length (a # args)) ops e (?x'\<lparr>x_address := x_address ?x' + of_nat (length args) * 4\<rparr>)"
    using n(2-4,6) at(2) by (simp add: decode_from_def decode_at_def words_at_append algebra_simps)
  moreover have "x_address ?x' = loc + of_nat (Suc q) * 4" by (simp add: n(6) algebra_simps)
  ultimately show thesis using at(2) that [of ?x'] by blast
qed

lemma decode_from_cong:
  assumes "decode_from loc k p ops e x"
    and "\<And>b. b \<in> region (loc + of_nat p * 4) (length (snd (layout k ops))) \<Longrightarrow> get_reg e' b = get_reg e b"
  shows "decode_from loc k p ops e' x"
  using assms words_at_cong [of "loc + of_nat p * 4" "snd (layout k ops)" "get_reg e'" "get_reg e"]
  by (auto simp: decode_from_def decode_at_def)

text \<open>
  A command takes one turn, two when it starts a transaction or polls.
\<close>

lemma turns_command:
  assumes dec: "decode_from loc k p ((command_op c, operands c) # ops) e x"
    and w: "\<not> i2c_enabled e" "apb_running e"
  defines "k' \<equiv> if k < 16 then Suc k else 1" and "q \<equiv> if k < 16 then p else Suc p"
  defines "slot \<equiv> loc + of_nat (Suc q) * 4"
  assumes slot: "emu_plain slot" and ready: "command_ready P c e"
    and rest: "region (loc + of_nat (q + length (operands c)) * 4) (length (snd (layout k' ops))) \<subseteq> P"
    and later: "slot \<notin> region (loc + of_nat (q + length (operands c)) * 4) (length (snd (layout k' ops)))"
  shows "\<exists>m x'. m \<le> 2 \<and> (board_turn ^^ m) (e, Some x) = (command_run slot c e, Some x') \<and>
    decode_from loc k' (q + length (operands c)) ops (command_run slot c e) x' \<and>
    \<not> i2c_enabled (command_run slot c e) \<and> apb_running (command_run slot c e)"
proof (cases c)
  case (Apb_write a v)
  then have dec': "decode_from loc k p ((WR, a # [v]) # ops) e x" using dec by simp
  obtain x1 where at: "decode_from loc k' (q + length (a # [v])) ops e
        (x1\<lparr>x_address := x_address x1 + of_nat (length [v]) * 4\<rparr>)"
      "words_at (get_reg e) (x_address x1) ([v] @ snd (layout k' ops))" "x_address x1 = slot"
      "apb_step (e, x) = (if a = DONE_COMMAND_ADDRESS then (Inr True, (e, x1))
         else hthen (if op_code WR = 0 then sequence_poll a else if op_code WR = 1 then sequence_write a
                     else if op_code WR = 2 then sequence_read a else sequence_error) (hret False) (e, x1))"
    by (rule apb_step_from [OF dec', folded k'_def q_def slot_def])
  from at have st: "decode_from loc k' (q + 2) ops e (x1\<lparr>x_address := x_address x1 + 4\<rparr>)"
      "get_reg e (x_address x1) = v"
      "apb_step (e, x) = (if a = DONE_COMMAND_ADDRESS then (Inr True, (e, x1))
         else hthen (sequence_write a) (hret False) (e, x1))"
    by (simp_all add: numeral_3_eq_3)
  let ?x = "x1\<lparr>x_address := x_address x1 + 4\<rparr>" and ?e1 = "snd (emu_write a v e)"
  have r: "fst (emu_write a v e) = Inr ()" "a \<noteq> DONE_COMMAND_ADDRESS" "\<not> i2c_enabled (write_run a v e)"
      "apb_running (write_run a v e)" "apb_running ?e1" "\<And>b. b \<in> P \<Longrightarrow> get_reg (write_run a v e) b = get_reg e b"
    using ready by (auto simp: Apb_write)
  have "apb_step (e, x) = (Inr False, (?e1, ?x))"
    using st(2,3) r(1,2) by (cases "emu_write a v e")
      (simp add: sequence_write_def next_value_run on_emu_def hthen_def hbind_def)
  then have one: "board_turn (e, Some x) = (?e1, Some ?x)" by (rule apb_turn [OF w])
  have "(board_turn ^^ (if i2c_enabled ?e1 then 2 else 1)) (e, Some x) = (write_run a v e, Some ?x)"
    using one by (simp add: numeral_2_eq_2 write_run_def Let_def) (simp add: board_turn_def)
  moreover have "decode_from loc k' (q + 2) ops (write_run a v e) ?x"
    by (rule decode_from_cong [OF st(1)]) (use r(6) rest Apb_write in auto)
  ultimately show ?thesis using r(3,4) Apb_write
    by (intro exI [of _ "if i2c_enabled ?e1 then 2 else 1"] exI [of _ ?x]) simp
next
  case (Apb_read a v)
  then have dec': "decode_from loc k p ((RD, a # [v]) # ops) e x" using dec by simp
  obtain x1 where at: "decode_from loc k' (q + length (a # [v])) ops e
        (x1\<lparr>x_address := x_address x1 + of_nat (length [v]) * 4\<rparr>)"
      "words_at (get_reg e) (x_address x1) ([v] @ snd (layout k' ops))" "x_address x1 = slot"
      "apb_step (e, x) = (if a = DONE_COMMAND_ADDRESS then (Inr True, (e, x1))
         else hthen (if op_code RD = 0 then sequence_poll a else if op_code RD = 1 then sequence_write a
                     else if op_code RD = 2 then sequence_read a else sequence_error) (hret False) (e, x1))"
    by (rule apb_step_from [OF dec', folded k'_def q_def slot_def])
  from at have st: "decode_from loc k' (q + 2) ops e (x1\<lparr>x_address := x_address x1 + 4\<rparr>)"
      "x_address x1 = slot"
      "apb_step (e, x) = (if a = DONE_COMMAND_ADDRESS then (Inr True, (e, x1))
         else hthen (sequence_read a) (hret False) (e, x1))"
    by (simp_all add: numeral_3_eq_3)
  let ?x = "x1\<lparr>x_address := x_address x1 + 4\<rparr>" and ?e = "set_reg slot (get_reg e a) e"
  have "a \<noteq> DONE_COMMAND_ADDRESS" using ready by (simp add: Apb_read)
  then have "apb_step (e, x) = (Inr False, (?e, ?x))"
    using st(2,3) slot
    by (simp add: sequence_read_def next_value_run on_emu_def emu_read_def emu_write_plain hthen_def hbind_def)
  then have one: "board_turn (e, Some x) = (?e, Some ?x)" by (rule apb_turn [OF w])
  have "decode_from loc k' (q + 2) ops ?e ?x"
    by (rule decode_from_cong [OF st(1)]) (use later Apb_read in \<open>auto simp: get_set_reg\<close>)
  moreover have "\<not> i2c_enabled ?e" "apb_running ?e" using w by (simp_all add: set_reg_def i2c_enabled_def)
  ultimately show ?thesis using one Apb_read by (intro exI [of _ 1] exI [of _ ?x]) simp
next
  case (Apb_poll a bits match)
  then have dec': "decode_from loc k p ((POLL, a # [match, bits]) # ops) e x" using dec by simp
  obtain x1 where at: "decode_from loc k' (q + length (a # [match, bits])) ops e
        (x1\<lparr>x_address := x_address x1 + of_nat (length [match, bits]) * 4\<rparr>)"
      "words_at (get_reg e) (x_address x1) ([match, bits] @ snd (layout k' ops))" "x_address x1 = slot"
      "apb_step (e, x) = (if a = DONE_COMMAND_ADDRESS then (Inr True, (e, x1))
         else hthen (if op_code POLL = 0 then sequence_poll a else if op_code POLL = 1 then sequence_write a
                     else if op_code POLL = 2 then sequence_read a else sequence_error) (hret False) (e, x1))"
    by (rule apb_step_from [OF dec', folded k'_def q_def slot_def])
  from at have st: "decode_from loc k' (q + 3) ops e (x1\<lparr>x_address := x_address x1 + 8\<rparr>)"
      "get_reg e (x_address x1) = match" "get_reg e (x_address x1 + 4) = bits"
      "apb_step (e, x) = (if a = DONE_COMMAND_ADDRESS then (Inr True, (e, x1))
         else hthen (sequence_poll a) (hret False) (e, x1))"
    by (simp_all add: numeral_3_eq_3)
  let ?x = "x1\<lparr>x_address := x_address x1 + 8\<rparr>"
  have r: "a \<noteq> DONE_COMMAND_ADDRESS" "get_reg e a AND bits = match" using ready by (simp_all add: Apb_poll)
  have "apb_step (e, x) = (Inr False, (e, ?x\<lparr>x_poll := Some (a, match, bits)\<rparr>))"
    using st(2-4) r(1)
    by (simp add: sequence_poll_def next_value_run on_exec_def hthen_def hbind_def add.assoc)
  then have one: "board_turn (e, Some x) = (e, Some (?x\<lparr>x_poll := Some (a, match, bits)\<rparr>))" by (rule apb_turn [OF w])
  have "x_poll ?x = None" using st(1) by (simp add: decode_from_def decode_at_def)
  then have "apb_step (e, ?x\<lparr>x_poll := Some (a, match, bits)\<rparr>) = (Inr False, (e, ?x))"
    using r(2) by (simp add: apb_step_def on_emu_def emu_read_def on_exec_def hthen_def hbind_def)
  then have two: "board_turn (e, Some (?x\<lparr>x_poll := Some (a, match, bits)\<rparr>)) = (e, Some ?x)" by (rule apb_turn [OF w])
  show ?thesis using one two st(1) w Apb_poll
    by (intro exI [of _ 2] exI [of _ ?x]) (simp add: numeral_2_eq_2 numeral_3_eq_3)
qed

subsection \<open>A program\<close>

text \<open>The commands with their slots, one after the other.\<close>

fun commands_run :: "u32 \<Rightarrow> nat list \<Rightarrow> apb_command list \<Rightarrow> 'p emulator \<Rightarrow> 'p emulator" where
  "commands_run loc (i # is) (c # cs) e = commands_run loc is cs (command_run (loc + of_nat i * 4) c e)"
| "commands_run loc _ _ e = e"

fun commands_ready :: "u32 set \<Rightarrow> u32 \<Rightarrow> nat list \<Rightarrow> apb_command list \<Rightarrow> 'p emulator \<Rightarrow> bool" where
  "commands_ready P loc (i # is) (c # cs) e \<longleftrightarrow>
     command_ready P c e \<and> commands_ready P loc is cs (command_run (loc + of_nat i * 4) c e)"
| "commands_ready P loc _ _ e \<longleftrightarrow> True"

lemma commands_run_append:
  "length is = length cs \<Longrightarrow>
   commands_run loc (is @ js) (cs @ ds) e = commands_run loc js ds (commands_run loc is cs e)"
  by (induction "is" cs arbitrary: e rule: list_induct2) auto

lemma commands_ready_append:
  "length is = length cs \<Longrightarrow>
   commands_ready P loc (is @ js) (cs @ ds) e \<longleftrightarrow>
     commands_ready P loc is cs e \<and> commands_ready P loc js ds (commands_run loc is cs e)"
  by (induction "is" cs arbitrary: e rule: list_induct2) auto

lemma layout_command:
  defines "k' \<equiv> \<lambda>k :: nat. if k < 16 then Suc k else 1"
  shows "\<exists>extra. snd (layout k (ops_of (c # cs))) = extra @ operands c @ snd (layout (k' k) (ops_of cs)) \<and>
    length extra = (if k < 16 then 0 else 1)"
  by (auto simp: k'_def ops_of_def Let_def case_prod_beta)

lemma region_nth: "i < n \<Longrightarrow> a + of_nat i * 4 \<in> region a n"
  by (auto simp: region_def)

lemma region_sub: "i + m \<le> n \<Longrightarrow> region (a + of_nat i * 4) m \<subseteq> region a n"
proof
  fix b
  assume le: "i + m \<le> n" and "b \<in> region (a + of_nat i * 4) m"
  then obtain j where "j < m" "b = a + of_nat i * 4 + of_nat j * 4" by (auto simp: region_def)
  then show "b \<in> region a n" using le region_nth [of "i + j" n a] by (simp add: algebra_simps)
qed

lemma turns_program:
  "decode_from loc k p (ops_of cs) e x \<Longrightarrow> k \<le> 16 \<Longrightarrow> \<not> i2c_enabled e \<Longrightarrow> apb_running e \<Longrightarrow>
   region (loc + of_nat p * 4) (length (snd (layout k (ops_of cs)))) \<subseteq> P \<Longrightarrow>
   length (snd (layout k (ops_of cs))) < 2 ^ 30 - 1 \<Longrightarrow> \<forall>a \<in> P. emu_plain a \<Longrightarrow>
   commands_ready P loc (slots k p cs) cs e \<Longrightarrow>
   \<exists>m. m \<le> Suc (2 * length cs) \<and>
     (board_turn ^^ m) (e, Some x) = (commands_run loc (slots k p cs) cs e, None)"
proof (induction cs arbitrary: k p e x)
  case Nil
  have dec: "decode_from loc k p ((RD, 0xFFFFFFFF # []) # []) e x" using Nil.prems(1) by (simp add: ops_of_def)
  obtain x' where "apb_step (e, x) = (if (0xFFFFFFFF :: u32) = DONE_COMMAND_ADDRESS then (Inr True, (e, x'))
       else hthen (if op_code RD = 0 then sequence_poll 0xFFFFFFFF else if op_code RD = 1 then sequence_write 0xFFFFFFFF
                   else if op_code RD = 2 then sequence_read 0xFFFFFFFF else sequence_error) (hret False) (e, x'))"
    by (rule apb_step_from [OF dec])
  then have "apb_step (e, x) = (Inr True, (e, x'))" by (simp add: DONE_COMMAND_ADDRESS_def)
  then have "board_turn (e, Some x) = (e, None)" using Nil.prems(3,4) by (simp add: board_turn_def)
  then show ?case by (intro exI [of _ 1]) simp
next
  case (Cons c cs)
  let ?k = "if k < 16 then Suc k else 1" and ?q = "if k < 16 then p else Suc p"
  let ?p = "?q + length (operands c)" and ?slot = "loc + of_nat (Suc (if k < 16 then p else Suc p)) * 4"
  let ?rest = "snd (layout ?k (ops_of cs))" and ?all = "snd (layout k (ops_of (c # cs)))"
  obtain extra where lay: "?all = extra @ operands c @ ?rest" "length extra = (if k < 16 then 0 else 1)"
    using layout_command [of k c cs] by blast
  have two: "2 \<le> length (operands c)" by (cases c) simp_all
  have eq: "loc + of_nat ?p * 4 = loc + of_nat p * 4 + of_nat (length extra + length (operands c)) * 4"
      "?slot = loc + of_nat p * 4 + of_nat (length extra + 1) * 4"
    by (simp_all add: lay(2) algebra_simps)
  have "region (loc + of_nat ?p * 4) (length ?rest) \<subseteq> region (loc + of_nat p * 4) (length ?all)"
    unfolding eq(1) by (rule region_sub) (simp add: lay(1))
  with Cons.prems(5) have rest: "region (loc + of_nat ?p * 4) (length ?rest) \<subseteq> P" by blast
  have "?slot \<in> region (loc + of_nat p * 4) (length ?all)"
    unfolding eq(2) using two by (intro region_nth) (simp add: lay(1))
  then have slot: "emu_plain ?slot" using Cons.prems(5,7) by blast
  have later: "?slot \<notin> region (loc + of_nat ?p * 4) (length ?rest)"
  proof
    assume "?slot \<in> region (loc + of_nat ?p * 4) (length ?rest)"
    then obtain j where j: "j < length ?rest" "?slot = loc + of_nat ?p * 4 + of_nat j * 4" by (auto simp: region_def)
    let ?i = "length extra + 1" and ?j = "length extra + length (operands c) + j"
    have "of_nat ?i * 4 = (of_nat ?j * 4 :: u32)" using j(2) unfolding eq by (simp add: algebra_simps)
    moreover have "?i < 2 ^ 30" "?j < 2 ^ 30" using j(1) Cons.prems(6) lay by (simp_all split: if_splits)
    ultimately have "?i = ?j" using word_add_4_mult [of ?i ?j] by simp
    with two show False by simp
  qed
  have dec: "decode_from loc k p ((command_op c, operands c) # ops_of cs) e x"
    using Cons.prems(1) by (simp add: ops_of_def)
  have sl: "slots k p (c # cs) = Suc ?q # slots ?k ?p cs" by (simp add: Let_def)
  let ?e = "command_run ?slot c e"
  have ready: "command_ready P c e" "commands_ready P loc (slots ?k ?p cs) cs ?e"
    using Cons.prems(8) by (simp_all only: sl commands_ready.simps)
  obtain m x' where m: "m \<le> 2" "(board_turn ^^ m) (e, Some x) = (?e, Some x')"
      "decode_from loc ?k ?p (ops_of cs) ?e x'" "\<not> i2c_enabled ?e" "apb_running ?e"
    using turns_command [OF dec Cons.prems(3,4) slot ready(1) rest later] by blast
  have small: "length ?rest < 2 ^ 30 - 1" using Cons.prems(6) by (simp add: lay(1))
  have "?k \<le> 16" by simp
  from Cons.IH [OF m(3) this m(4,5) rest small Cons.prems(7) ready(2)] obtain n where
    n: "n \<le> Suc (2 * length cs)" "(board_turn ^^ n) (?e, Some x') = (commands_run loc (slots ?k ?p cs) cs ?e, None)"
    by blast
  have "(board_turn ^^ (n + m)) (e, Some x) = (commands_run loc (slots k p (c # cs)) (c # cs) e, None)"
    unfolding funpow_add o_apply m(2) n(2) by (simp only: sl commands_run.simps)
  with m(1) n(1) show ?case by (intro exI [of _ "n + m"]) simp
qed

text \<open>From the event in the queue to the end of the program.\<close>

lemma turns_event:
  assumes "words_at (get_reg e) loc (program cs)" and "length (program cs) < 2 ^ 30 - 1"
    and "apb_queue e = [(event, loc)]" and "\<not> i2c_enabled e" and "apb_running e"
    and P: "P = region loc (length (program cs))" "\<forall>a \<in> P. emu_plain a"
    and ready: "commands_ready P loc (slots 0 1 cs) cs (e\<lparr>apb_queue := []\<rparr>)"
  shows "\<exists>m. m \<le> 2 + 2 * length cs \<and>
    (board_turn ^^ m) (e, None) = (commands_run loc (slots 0 1 cs) cs (e\<lparr>apb_queue := []\<rparr>), None)"
proof -
  let ?e = "e\<lparr>apb_queue := []\<rparr>" and ?x = "apb_begin loc e"
  obtain w ws where l: "layout 0 (ops_of cs) = (w, ws)" by force
  then have prog: "program cs = w # ws" by (simp add: program_def)
  have one: "board_turn (e, None) = (?e, Some ?x)" using assms(3-5) by (simp add: board_turn_def)
  have reg: "get_reg ?e = get_reg e" by (simp add: get_reg_def fun_eq_iff)
  have "decode_from loc 0 1 (ops_of cs) ?e ?x"
    using assms(1) by (simp add: decode_from_def decode_at_def apb_begin_def l prog reg)
  moreover have "\<not> i2c_enabled ?e" "apb_running ?e" using assms(4,5) by (simp_all add: i2c_enabled_def)
  moreover have "region (loc + of_nat 1 * 4) (length (snd (layout 0 (ops_of cs)))) \<subseteq> P"
    unfolding P(1) by (rule region_sub) (simp add: prog l)
  moreover have "length (snd (layout 0 (ops_of cs))) < 2 ^ 30 - 1" using assms(2) by (simp add: prog l)
  ultimately obtain m where "m \<le> Suc (2 * length cs)"
      "(board_turn ^^ m) (?e, Some ?x) = (commands_run loc (slots 0 1 cs) cs ?e, None)"
    using turns_program [of loc 0 1 cs ?e ?x P] P(2) ready by auto
  then show ?thesis using one
    by (intro exI [of _ "Suc m"]) (simp add: funpow_Suc_right del: funpow.simps)
qed


end
