(* ===== verification/Board_I2c.thy ===== *)
theory Board_I2c
  imports Board_Turns Board_Drivers
begin

text \<open>
  An I2C transaction on the emulated board: the program that the host's driver assembles
  (\<open>I2c\<close>) is executed by the board's APB thread, the transaction it starts by the I2C thread, and
  the words it reads end up in the program's memory, where the host reads them.
\<close>

subsection \<open>Writes to the controller\<close>

lemma write_run_plain:
  assumes "emu_plain a" and "\<not> i2c_enabled e"
  shows "write_run a v e = set_reg a v e" "emu_write a v e = (Inr (), set_reg a v e)"
proof -
  show "emu_write a v e = (Inr (), set_reg a v e)" by (rule emu_write_plain [OF assms(1)])
  moreover have "\<not> i2c_enabled (set_reg a v e)" using assms(2) by (simp add: set_reg_def i2c_enabled_def)
  ultimately show "write_run a v e = set_reg a v e" by (simp add: write_run_def)
qed

lemma emu_write_control:
  assumes "i2c_running e" and "get_reg e 0x3000280 \<noteq> I2C_BUSY"
  shows "emu_write I2C_CTRL v e = (Inr (),
    (let e1 = set_reg I2C_CTRL v (e\<lparr>i2c_cmd := ucast (v AND 0xFFFF), i2c_address := ucast (drop_bit 16 v)\<rparr>) in
     if ucast (v AND 0xFFFF) = (0 :: u16) then set_reg 0x3000280 I2C_IDLE e1 else e1))"
proof -
  have "get_reg (set_reg I2C_CTRL v e) 0x3000280 \<noteq> I2C_BUSY" using assms(2) by (simp add: get_set_reg)
  then show ?thesis using assms(1)
    by (simp add: emu_write.simps [of I2C_CTRL] i2c_control_def hthen_def hbind_def Let_def set_reg_def)
qed

text \<open>A zero makes the controller idle.\<close>

lemma write_run_idle:
  assumes "i2c_running e" and "get_reg e 0x3000280 \<noteq> I2C_BUSY"
  shows "write_run I2C_CTRL 0 e = set_regs [(I2C_CTRL, 0), (0x3000280, I2C_IDLE)] (e\<lparr>i2c_cmd := 0, i2c_address := 0\<rparr>)"
    "fst (emu_write I2C_CTRL 0 e) = Inr ()"
    "snd (emu_write I2C_CTRL 0 e) = set_regs [(I2C_CTRL, 0), (0x3000280, I2C_IDLE)] (e\<lparr>i2c_cmd := 0, i2c_address := 0\<rparr>)"
proof -
  note w = emu_write_control [OF assms, of 0]
  show 3: "snd (emu_write I2C_CTRL 0 e) = set_regs [(I2C_CTRL, 0), (0x3000280, I2C_IDLE)] (e\<lparr>i2c_cmd := 0, i2c_address := 0\<rparr>)"
    by (simp add: w Let_def)
  show "fst (emu_write I2C_CTRL 0 e) = Inr ()" by (simp add: w)
  show "write_run I2C_CTRL 0 e = set_regs [(I2C_CTRL, 0), (0x3000280, I2C_IDLE)] (e\<lparr>i2c_cmd := 0, i2c_address := 0\<rparr>)"
    unfolding write_run_def 3 by (simp add: Let_def i2c_enabled_def set_reg_def)
qed

lemma small_word_bit:
  fixes w :: u32
  assumes "unat w < 2 ^ k" and "bit w j"
  shows "j < k"
proof (rule ccontr)
  assume "\<not> j < k"
  then have "(2 :: nat) ^ k \<le> 2 ^ j" by simp
  with assms(1) have "unat w < 2 ^ j" by (rule less_le_trans)
  then have "unat w div 2 ^ j = 0" by simp
  moreover have "bit (unat w) j" using assms(2) by (simp add: bit_unsigned_iff)
  ultimately show False by (simp add: bit_iff_odd)
qed

text \<open>The start bit with a seven-bit address starts a transaction.\<close>

lemma start_fields:
  fixes a :: u32
  assumes "a \<le> 0x7F"
  shows "(push_bit 16 a OR I2C_START) AND 0xFFFF = 1" "drop_bit 16 (push_bit 16 a OR I2C_START) = a"
proof -
  have bits: "j < 7" if "bit a j" for j
    by (rule small_word_bit [OF _ that]) (use assms in \<open>simp add: word_le_nat_alt word_less_nat_alt\<close>)
  have m: "(0xFFFF :: u32) = mask 16" by (simp add: mask_eq_exp_minus_1)
  show "(push_bit 16 a OR I2C_START) AND 0xFFFF = 1"
    unfolding m by (rule bit_word_eqI) (auto simp: bit_simps bit_1_iff)
  show "drop_bit 16 (push_bit 16 a OR I2C_START) = a"
    by (rule bit_word_eqI) (use bits in \<open>force simp: bit_simps bit_1_iff\<close>)
qed

lemma write_run_start:
  assumes "i2c_running e" and "get_reg e 0x3000280 \<noteq> I2C_BUSY" and "a \<le> 0x7F"
  defines "v \<equiv> push_bit 16 a OR I2C_START"
  shows "write_run I2C_CTRL v e = i2c_execute (set_reg I2C_CTRL v (e\<lparr>i2c_cmd := 1, i2c_address := ucast a\<rparr>))"
    "fst (emu_write I2C_CTRL v e) = Inr ()"
    "snd (emu_write I2C_CTRL v e) = set_reg I2C_CTRL v (e\<lparr>i2c_cmd := 1, i2c_address := ucast a\<rparr>)"
proof -
  note w = emu_write_control [OF assms(1,2), of v, unfolded v_def start_fields [OF assms(3)], folded v_def]
  show 3: "snd (emu_write I2C_CTRL v e) = set_reg I2C_CTRL v (e\<lparr>i2c_cmd := 1, i2c_address := ucast a\<rparr>)"
    by (simp add: w Let_def)
  show "fst (emu_write I2C_CTRL v e) = Inr ()" by (simp add: w)
  show "write_run I2C_CTRL v e = i2c_execute (set_reg I2C_CTRL v (e\<lparr>i2c_cmd := 1, i2c_address := ucast a\<rparr>))"
    unfolding write_run_def 3 using assms(1) by (simp add: Let_def i2c_enabled_def set_reg_def)
qed

subsection \<open>A transaction\<close>

text \<open>What the bus answers at a bus and an address.\<close>

definition i2c_bus_transaction ::
  "'p emulator \<Rightarrow> u32 \<times> u16 \<Rightarrow> bytes \<Rightarrow> nat \<Rightarrow> (bool \<times> bytes) \<times> 'p"
where
  "i2c_bus_transaction e key wb n =
     (if key \<in> set (i2c_attached e) then i2c_peripheral e (i2c_env e) key wb (replicate n 0)
      else ((True, replicate n 0), i2c_env e))"

lemma bus_transaction_cong:
  assumes "i2c_attached e' = i2c_attached e" and "i2c_peripheral e' = i2c_peripheral e" and "i2c_env e' = i2c_env e"
  shows "i2c_bus_transaction e' = i2c_bus_transaction e"
  by (intro ext) (simp only: i2c_bus_transaction_def assms)

text \<open>Everything but the registers, the command and the peripherals' state stays.\<close>

definition i2c_frame :: "'p emulator \<Rightarrow> 'p emulator \<Rightarrow> bool" where
  "i2c_frame e e' \<longleftrightarrow>
     e_next_sequence e' = e_next_sequence e \<and> e_last_read_address e' = e_last_read_address e \<and>
     e_poll_count e' = e_poll_count e \<and> e_running e' = e_running e \<and> apb_running e' = apb_running e \<and>
     apb_queue e' = apb_queue e \<and> i2c_running e' = i2c_running e \<and> i2c_attached e' = i2c_attached e \<and>
     i2c_peripheral e' = i2c_peripheral e"

lemma i2c_frame_refl: "i2c_frame e e"
  by (simp add: i2c_frame_def)

lemma i2c_frame_trans: "i2c_frame a b \<Longrightarrow> i2c_frame b c \<Longrightarrow> i2c_frame a c"
  by (simp add: i2c_frame_def)

lemma i2c_frame_set_reg: "i2c_frame e (set_reg a v e)"
  by (simp add: i2c_frame_def set_reg_def)

lemma set_regs_frame: "i2c_frame e (set_regs avs e)" "i2c_cmd (set_regs avs e) = i2c_cmd e"
  "i2c_address (set_regs avs e) = i2c_address e" "i2c_env (set_regs avs e) = i2c_env e"
proof -
  have "i2c_frame e (set_regs avs e) \<and> i2c_cmd (set_regs avs e) = i2c_cmd e \<and>
    i2c_address (set_regs avs e) = i2c_address e \<and> i2c_env (set_regs avs e) = i2c_env e"
  proof (induction avs arbitrary: e)
    case Nil
    then show ?case by (simp add: i2c_frame_refl)
  next
    case (Cons av avs)
    obtain a v where av: "av = (a, v)" by force
    have "i2c_frame e (set_regs avs (set_reg a v e))"
      using Cons.IH [of "set_reg a v e"] i2c_frame_trans [OF i2c_frame_set_reg] by blast
    with Cons.IH [of "set_reg a v e"] show ?case by (simp add: av) (simp add: set_reg_def)
  qed
  then show "i2c_frame e (set_regs avs e)" "i2c_cmd (set_regs avs e) = i2c_cmd e"
    "i2c_address (set_regs avs e) = i2c_address e" "i2c_env (set_regs avs e) = i2c_env e" by simp_all
qed

text \<open>Writing a range of words.\<close>

lemma rm_write_range_upds:
  assumes "length ws < 2 ^ 30"
  shows "rm_read (snd (rm_write_range regs a (Some ws) (int (length ws)) 1)) = upds (rm_read regs) (program_data a ws)"
proof
  fix b
  show "rm_read (snd (rm_write_range regs a (Some ws) (int (length ws)) 1)) b = upds (rm_read regs) (program_data a ws) b"
  proof (cases "b \<in> region a (length ws)")
    case True
    then obtain i where i: "i < length ws" "b = a + of_nat i * 4" by (auto simp: region_def)
    have "upds (rm_read regs) (program_data a ws) b = ws ! i"
      using words_at_program_data [OF assms, of "rm_read regs" a] i by (simp add: words_at_def)
    moreover have "rm_read (snd (rm_write_range regs a (Some ws) (int (length ws)) 1)) b = ws ! i"
      using rm_write_range_loop_read [OF assms i(1), of regs a ws 0] i(2) by (simp add: rm_write_range_def)
    ultimately show ?thesis by simp
  next
    case False
    then have "upds (rm_read regs) (program_data a ws) b = rm_read regs b"
      by (intro upds_other) (simp add: fst_program_data)
    moreover have "\<forall>k < length ws. b \<noteq> a + of_nat k * 4" using False by (auto simp: region_def)
    then have "rm_read (snd (rm_write_range regs a (Some ws) (int (length ws)) 1)) b = rm_read regs b"
      using rm_write_range_loop_other [of "length ws" b a regs ws 0 1] by (simp add: rm_write_range_def)
    ultimately show ?thesis by simp
  qed
qed

text \<open>The transaction of \<open>wb\<close> with a peripheral that answers \<open>rb\<close>.\<close>

lemma num_bytes_fields:
  fixes n :: u32
  assumes "w \<le> 0x100" and "n \<le> 0x100"
  shows "unat ((of_nat w OR push_bit 16 n) AND 0xFFFF :: u32) = w"
    "unat (drop_bit 16 (of_nat w OR push_bit 16 n) AND 0xFFFF :: u32) = unat n"
proof -
  have bit_w: "j < 9" if "bit (of_nat w :: u32) j" for j
    by (rule small_word_bit [OF _ that]) (use assms(1) in \<open>simp add: word_less_nat_alt unat_of_nat_u32\<close>)
  have bit_n: "j < 9" if "bit n j" for j
    by (rule small_word_bit [OF _ that]) (use assms(2) in \<open>simp add: word_le_nat_alt word_less_nat_alt\<close>)
  have m: "(0xFFFF :: u32) = mask 16" by (simp add: mask_eq_exp_minus_1)
  have "(of_nat w OR push_bit 16 n) AND 0xFFFF = (of_nat w :: u32)"
    unfolding m by (rule bit_word_eqI) (use bit_w in \<open>force simp: bit_simps\<close>)
  then show "unat ((of_nat w OR push_bit 16 n) AND 0xFFFF :: u32) = w"
    using assms(1) by (simp add: unat_of_nat_u32)
  have "drop_bit 16 (of_nat w OR push_bit 16 n) AND 0xFFFF = n"
    unfolding m by (rule bit_word_eqI) (use bit_w bit_n in \<open>force simp: bit_simps\<close>)
  then show "unat (drop_bit 16 (of_nat w OR push_bit 16 n) AND 0xFFFF :: u32) = unat n" by simp
qed

lemma i2c_execute_run:
  assumes size: "length wb \<le> 0x100" "n \<le> 0x100"
    and regs: "get_reg e 0x3000208 = of_nat (length wb) OR push_bit 16 n" "get_reg e 0x3000204 = bus"
      "words_at (get_reg e) 0x3000300 (words_of_bytes wb)"
    and bus: "i2c_bus_transaction e (bus, i2c_address e) wb (unat n) = ((True, rb), env')" "length rb = unat n"
  obtains e' where "i2c_execute e = e'" "i2c_frame e e'" "i2c_cmd e' = 0" "i2c_env e' = env'"
    "get_reg e' = (upds ((get_reg e)(0x3000280 := I2C_BUSY)) (program_data 0x3000300 (words_of_bytes rb)))(0x3000280 := I2C_DONE)"
proof -
  let ?e1 = "set_reg 0x3000280 I2C_BUSY e"
  have g: "get_reg ?e1 = (get_reg e)(0x3000280 := I2C_BUSY)" by (rule get_set_reg)
  have nb: "get_reg ?e1 0x3000208 = of_nat (length wb) OR push_bit 16 n" "get_reg ?e1 0x3000204 = bus"
    using regs by (simp_all add: g)
  have num: "unat (get_reg ?e1 0x3000208 AND 0xFFFF) = length wb"
      "unat (drop_bit 16 (get_reg ?e1 0x3000208) AND 0xFFFF) = unat n"
    unfolding nb(1) by (rule num_bytes_fields [OF size])+
  have nr: "unat n \<le> 0x100" using size(2) by (simp add: word_le_nat_alt)
  have out: "0x3000280 \<notin> region 0x3000300 k" if "k \<le> 64" for k
  proof
    assume "0x3000280 \<in> region 0x3000300 k"
    then obtain i where i: "i < k" "0x3000300 + of_nat i * 4 = (0x3000280 :: u32)" by (auto simp: region_def)
    have "unat (0x3000300 + of_nat i * 4 :: u32) = 0x3000300 + 4 * i"
      using i(1) that by (simp add: unat_word_ariths unat_of_nat_u32)
    then show False unfolding i(2) by simp
  qed
  have wl: "length (words_of_bytes wb) \<le> 64" "length (words_of_bytes rb) \<le> 64" using size(1) nr bus(2) by simp_all
  have "words_at (get_reg ?e1) 0x3000300 (words_of_bytes wb)"
    unfolding g using regs(3) out [OF wl(1)] by (simp add: words_at_upd)
  then have ws: "map (\<lambda>i. get_reg ?e1 (0x3000300 + of_nat i * 4)) [0..<words_of (length wb)] = words_of_bytes wb"
    by (intro nth_equalityI) (simp_all add: words_at_def words_of_def)
  have wb: "take (length wb) (bytes_of_words (words_of_bytes wb)) = wb" by (simp add: bytes_of_words_of_bytes)
  have fields: "i2c_attached ?e1 = i2c_attached e" "i2c_peripheral ?e1 = i2c_peripheral e"
      "i2c_env ?e1 = i2c_env e" "i2c_address ?e1 = i2c_address e"
    by (simp_all add: set_reg_def)
  have bus': "(if (bus, i2c_address e) \<in> set (i2c_attached e)
      then i2c_peripheral e (i2c_env e) (bus, i2c_address e) wb (replicate (unat n) 0)
      else ((True, replicate (unat n) 0), i2c_env e)) = ((True, rb), env')"
    using bus(1) by (simp add: i2c_bus_transaction_def)
  let ?e2 = "?e1\<lparr>i2c_env := env'\<rparr>"
  let ?r3 = "if unat n = 0 then e_regs ?e2 else snd (rm_write_range (e_regs ?e2) 0x3000300
      (Some (words_of_bytes rb)) (int (words_of (unat n))) 1)"
  let ?e4 = "(set_reg 0x3000280 I2C_DONE (?e2\<lparr>e_regs := ?r3\<rparr>))\<lparr>i2c_cmd := 0, i2c_address := 0\<rparr>"
  have addr: "(I2C_CTRL + I2C_REG_STATUS :: u32) = 0x3000280" "(I2C_CTRL + I2C_REG_NUM_BYTES :: u32) = 0x3000208"
      "(I2C_CTRL + I2C_REG_BUS_EN :: u32) = 0x3000204" "(I2C_CTRL + I2C_REG_DATA_BUFFER :: u32) = 0x3000300"
    by simp_all
  have ex: "i2c_execute e = ?e4"
    unfolding i2c_execute_def Let_def addr num ws wb nb(2) fields bus' by simp
  have lr: "length (words_of_bytes rb) = words_of (unat n)" using bus(2) by (simp add: words_of_def)
  have r3: "rm_read ?r3 = upds (get_reg ?e1) (program_data 0x3000300 (words_of_bytes rb))"
  proof (cases "unat n = 0")
    case True
    then have "rb = []" using bus(2) by simp
    then have "program_data 0x3000300 (words_of_bytes rb) = []" by (simp add: program_data_def)
    with True show ?thesis by (simp add: get_reg_def [abs_def] fun_eq_iff)
  next
    case False
    have "length (words_of_bytes rb) < 2 ^ 30" using wl(2) by simp
    from rm_write_range_upds [OF this, of "e_regs ?e2" "0x3000300", unfolded lr] False show ?thesis
      by (simp add: get_reg_def [abs_def])
  qed
  show thesis
  proof (rule that [OF ex])
    show "i2c_frame e ?e4" by (simp add: i2c_frame_def set_reg_def)
    show "i2c_cmd ?e4 = 0" "i2c_env ?e4 = env'" by (simp_all add: set_reg_def)
    have "get_reg ?e4 = (rm_read ?r3)(0x3000280 := I2C_DONE)"
      by (simp add: get_reg_def [abs_def] set_reg_def rm_write_upd)
    then show "get_reg ?e4 = (upds ((get_reg e)(0x3000280 := I2C_BUSY)) (program_data 0x3000300 (words_of_bytes rb)))(0x3000280 := I2C_DONE)"
      by (simp only: r3 g)
  qed
qed


subsection \<open>The program of a transaction\<close>

lemma software_region_low:
  assumes "b \<in> region (APB_RAM + 0x800) n" and "n \<le> 183"
  shows "unat b < 0x3000"
proof -
  obtain i where "i < n" "b = APB_RAM + 0x800 + of_nat i * 4" using assms(1) by (auto simp: region_def)
  with assms(2) show ?thesis by (simp add: unat_word_ariths unat_of_nat_u32)
qed

lemma buffer_region:
  assumes "b \<in> region 0x3000300 n" and "n \<le> 64"
  shows "0x3000300 \<le> unat b" "unat b < 0x3000400" "emu_plain b"
proof -
  obtain i where i: "i < n" "b = 0x3000300 + of_nat i * 4" using assms(1) by (auto simp: region_def)
  then have u: "unat b = 0x3000300 + 4 * i" using assms(2) by (simp add: unat_word_ariths unat_of_nat_u32)
  with i(1) assms(2) show "0x3000300 \<le> unat b" "unat b < 0x3000400" by simp_all
  show "emu_plain b" using i(1) assms(2) by (intro emu_plainI [OF u]) auto
qed

text \<open>Stretches of plain writes, and of reads.\<close>

lemma commands_run_writes:
  "length is = length avs \<Longrightarrow> \<forall>av \<in> set avs. emu_plain (fst av) \<and> fst av \<notin> P \<and> fst av \<noteq> DONE_COMMAND_ADDRESS \<Longrightarrow>
   \<not> i2c_enabled e \<Longrightarrow> apb_running e \<Longrightarrow>
   commands_run loc is (map (\<lambda>(a, w). Apb_write a w) avs) e = set_regs avs e \<and>
   commands_ready P loc is (map (\<lambda>(a, w). Apb_write a w) avs) e"
proof (induction "is" avs arbitrary: e rule: list_induct2)
  case Nil
  then show ?case by simp
next
  case (Cons i "is" av avs)
  obtain a w where av: "av = (a, w)" by force
  have a: "emu_plain a" "a \<notin> P" "a \<noteq> DONE_COMMAND_ADDRESS" using Cons.prems(1) by (simp_all add: av)
  note run = write_run_plain [OF a(1) Cons.prems(2), of w]
  have e: "\<not> i2c_enabled (set_reg a w e)" "apb_running (set_reg a w e)"
    using Cons.prems(2,3) by (simp_all add: set_reg_def i2c_enabled_def)
  have "\<forall>b \<in> P. get_reg (set_reg a w e) b = get_reg e b" using a(2) by (auto simp: get_set_reg)
  with Cons.IH [OF _ e] Cons.prems(1) run a(3) e show ?case by (simp add: av)
qed

lemma commands_run_reads:
  "length is = length as \<Longrightarrow> \<forall>a \<in> set as. a \<notin> P \<and> a \<noteq> DONE_COMMAND_ADDRESS \<Longrightarrow>
   \<forall>i \<in> set is. loc + of_nat i * 4 \<in> P \<Longrightarrow>
   commands_run loc is (map (\<lambda>a. Apb_read a v) as) e =
     set_regs (zip (map (\<lambda>i. loc + of_nat i * 4) is) (map (get_reg e) as)) e \<and>
   commands_ready P loc is (map (\<lambda>a. Apb_read a v) as) e"
proof (induction "is" as arbitrary: e rule: list_induct2)
  case Nil
  then show ?case by simp
next
  case (Cons i "is" a as)
  let ?e = "set_reg (loc + of_nat i * 4) (get_reg e a) e"
  have "map (get_reg ?e) as = map (get_reg e) as" using Cons.prems by (auto simp: get_set_reg)
  with Cons.IH [of ?e] Cons.prems show ?case by simp
qed

text \<open>Each slot is used once.\<close>

lemma slots_increasing: "sorted_wrt (<) (slots k p cs) \<and> (\<forall>i \<in> set (slots k p cs). p < i)"
proof (induction cs arbitrary: k p)
  case Nil
  then show ?case by simp
next
  case (Cons c cs)
  have two: "2 \<le> length (operands c)" by (cases c) simp_all
  let ?q = "if k < 16 then p else Suc p"
  note ih = Cons.IH [of "if k < 16 then Suc k else 1" "?q + length (operands c)"]
  show ?case
  proof
    show "sorted_wrt (<) (slots k p (c # cs))"
      using ih two by (auto simp: Let_def) (drule (1) bspec, simp)+
    show "\<forall>i \<in> set (slots k p (c # cs)). p < i"
      using ih two by (auto simp: Let_def split: if_splits)
  qed
qed


lemma distinct_slots: "distinct (slots 0 1 cs)"
  using slots_increasing [of 0 1 cs] by (simp add: strict_sorted_iff)

definition i2c_registers :: "u32 set" where
  "i2c_registers = {I2C_CTRL, 0x3000204, 0x3000208, 0x3000280} \<union> region 0x3000300 64"

text \<open>The registers after a transaction, in the order in which the program changes them.\<close>

lemma split_lengths:
  assumes "length xs = Suc (k + (5 + (m + 1)))"
  obtains i0 is1 j0 j1 j2 j3 j4 is2 i9 where
    "xs = [i0] @ is1 @ [j0, j1, j2, j3, j4] @ is2 @ [i9]" "length is1 = k" "length is2 = m"
proof -
  obtain i0 xs1 where 0: "xs = i0 # xs1" "length xs1 = k + (5 + (m + 1))"
    using assms by (cases xs) auto
  obtain is1 js where 1: "xs1 = is1 @ js" "length is1 = k" "length js = 5 + (m + 1)"
    using that [of "[]"] 0(2) by (metis append_take_drop_id add_diff_cancel_left' length_drop length_take min.absorb2 le_add1)
  obtain j0 j1 j2 j3 j4 ks where 5: "js = [j0, j1, j2, j3, j4] @ ks" "length ks = m + 1"
    using 1(3) by (auto simp: numeral_eq_Suc length_Suc_conv)
  obtain is2 i9 where "ks = is2 @ [i9]" "length is2 = m"
    using 5(2) by (cases ks rule: rev_cases) auto
  with 0 1 5 show thesis by (intro that) simp_all
qed

lemma i2c_commands_split:
  obtains i0 is1 j0 j1 j2 j3 j4 is2 i9 where
    "slots 0 1 (i2c_commands i a wb n) = [i0] @ is1 @ [j0, j1, j2, j3, j4] @ is2 @ [i9]"
    "length is1 = length (words_of_bytes wb)" "length is2 = unat ((n + 3) div 4)"
proof (rule split_lengths)
  show "length (slots 0 1 (i2c_commands i a wb n)) =
      Suc (length (words_of_bytes wb) + (5 + (unat ((n + 3) div 4) + 1)))"
    by (simp add: i2c_commands_def program_data_def block_addresses_def)
qed (rule that)

subsection \<open>Phases of the program\<close>

text \<open>
  The controller waits for a command. A stretch of commands that starts and ends so, outside the
  program \<open>P\<close>, is a phase; phases follow each other.
\<close>

definition controller_ready :: "'p emulator \<Rightarrow> bool" where
  "controller_ready e \<longleftrightarrow>
     i2c_running e \<and> apb_running e \<and> i2c_cmd e = 0 \<and> get_reg e 0x3000280 \<noteq> I2C_BUSY"

definition phase ::
  "u32 set \<Rightarrow> u32 \<Rightarrow> nat list \<Rightarrow> apb_command list \<Rightarrow> 'p emulator \<Rightarrow> 'p emulator \<Rightarrow> bool"
where
  "phase P loc ix cs e e' \<longleftrightarrow>
     length ix = length cs \<and> commands_run loc ix cs e = e' \<and> commands_ready P loc ix cs e \<and>
     controller_ready e' \<and> i2c_frame e e'"

lemma phase_append:
  "phase P loc ix cs e e1 \<Longrightarrow> phase P loc jx ds e1 e2 \<Longrightarrow> phase P loc (ix @ jx) (cs @ ds) e e2"
  using i2c_frame_trans by (auto simp: phase_def commands_run_append commands_ready_append)

lemma controller_readyD: "controller_ready e \<Longrightarrow> \<not> i2c_enabled e" "controller_ready e \<Longrightarrow> apb_running e"
  by (simp_all add: controller_ready_def i2c_enabled_def)

lemma not_done_command: "b \<in> i2c_registers \<Longrightarrow> b \<noteq> DONE_COMMAND_ADDRESS"
  using buffer_region(2) [of b 64] by (auto simp: i2c_registers_def DONE_COMMAND_ADDRESS_def)

lemma four_registers [simp]:
  "I2C_CTRL \<in> i2c_registers" "0x3000204 \<in> i2c_registers" "0x3000208 \<in> i2c_registers" "0x3000280 \<in> i2c_registers"
  by (simp_all add: i2c_registers_def)

lemma phase_idle:
  assumes "controller_ready e" and "P \<inter> i2c_registers = {}"
  defines "e' \<equiv> set_regs [(I2C_CTRL, 0), (0x3000280, I2C_IDLE)] (e\<lparr>i2c_cmd := 0, i2c_address := 0\<rparr>)"
  shows "phase P loc [i] [Apb_write I2C_CTRL 0] e e'"
    and "get_reg e' = (get_reg e)(I2C_CTRL := 0, 0x3000280 := I2C_IDLE)" and "i2c_env e' = i2c_env e"
proof -
  have e: "i2c_running e" "apb_running e" "get_reg e 0x3000280 \<noteq> I2C_BUSY"
    using assms(1) by (simp_all add: controller_ready_def)
  show g: "get_reg e' = (get_reg e)(I2C_CTRL := 0, 0x3000280 := I2C_IDLE)"
    by (simp add: e'_def get_set_reg) (simp add: get_reg_def fun_eq_iff)
  have f: "i2c_frame e e'" "\<not> i2c_enabled e'" "controller_ready e'"
  proof -
    show "i2c_frame e e'" "\<not> i2c_enabled e'" by (simp_all add: e'_def set_reg_def i2c_frame_def i2c_enabled_def)
    have "i2c_running e'" "apb_running e'" "i2c_cmd e' = 0" using e by (simp_all add: e'_def set_reg_def)
    then show "controller_ready e'" by (simp add: controller_ready_def g)
  qed
  show "i2c_env e' = i2c_env e" by (simp add: e'_def set_reg_def)
  have "I2C_CTRL \<notin> P" "0x3000280 \<notin> P" using assms(2) four_registers by blast+
  then have "\<forall>b \<in> P. get_reg e' b = get_reg e b" by (auto simp: g)
  with f e controller_readyD(2) [OF f(3)] not_done_command [of I2C_CTRL] show "phase P loc [i] [Apb_write I2C_CTRL 0] e e'"
    by (simp add: phase_def write_run_idle [OF e(1,3)] e'_def [symmetric] del: set_regs_simps)
qed

text \<open>Plain writes to the controller.\<close>

lemma phase_writes:
  assumes "controller_ready e" and "length ix = length avs" and "P \<inter> i2c_registers = {}"
    and avs: "\<forall>a \<in> fst ` set avs. emu_plain a \<and> a \<in> i2c_registers \<and> a \<noteq> 0x3000280"
  shows "phase P loc ix (map (\<lambda>(a, w). Apb_write a w) avs) e (set_regs avs e)"
    and "get_reg (set_regs avs e) = upds (get_reg e) avs" and "i2c_env (set_regs avs e) = i2c_env e"
proof -
  show g: "get_reg (set_regs avs e) = upds (get_reg e) avs" by (rule set_regs_fields)
  show "i2c_env (set_regs avs e) = i2c_env e" by (rule set_regs_frame)
  have "0x3000280 \<notin> fst ` set avs" using avs by blast
  then have "get_reg (set_regs avs e) 0x3000280 = get_reg e 0x3000280" by (simp add: g upds_other)
  then have "controller_ready (set_regs avs e)"
    using assms(1) set_regs_frame [where avs = avs and e = e] by (auto simp: controller_ready_def i2c_frame_def)
  moreover have "\<forall>av \<in> set avs. emu_plain (fst av) \<and> fst av \<notin> P \<and> fst av \<noteq> DONE_COMMAND_ADDRESS"
    using avs assms(3) not_done_command by blast
  ultimately show "phase P loc ix (map (\<lambda>(a, w). Apb_write a w) avs) e (set_regs avs e)"
    using commands_run_writes [OF assms(2), of P e loc] controller_readyD [OF assms(1)] assms(2) set_regs_frame(1)
    by (auto simp: phase_def)
qed

text \<open>The start of the transaction.\<close>

lemma phase_start:
  fixes a n :: u32
  assumes e: "controller_ready e" and P: "P \<inter> i2c_registers = {}"
    and size: "a \<le> 0x7F" "length wb \<le> 0x100" "n \<le> 0x100"
    and regs: "get_reg e 0x3000208 = of_nat (length wb) OR push_bit 16 n" "get_reg e 0x3000204 = bus"
      "words_at (get_reg e) 0x3000300 (words_of_bytes wb)"
    and bus: "i2c_bus_transaction e (bus, ucast a) wb (unat n) = ((True, rb), env')" "length rb = unat n"
  obtains e' where "phase P loc [i] [Apb_write I2C_CTRL (push_bit 16 a OR I2C_START)] e e'" "i2c_env e' = env'"
    "get_reg e' 0x3000280 = I2C_DONE" "words_at (get_reg e') 0x3000300 (words_of_bytes rb)"
    "\<forall>b. b \<notin> i2c_registers \<longrightarrow> get_reg e' b = get_reg e b"
proof -
  let ?v = "push_bit 16 a OR I2C_START" and ?rs = "program_data 0x3000300 (words_of_bytes rb)"
  have r: "i2c_running e" "get_reg e 0x3000280 \<noteq> I2C_BUSY" "apb_running e" using e by (simp_all add: controller_ready_def)
  define d where "d = set_reg I2C_CTRL ?v (e\<lparr>i2c_cmd := 1, i2c_address := ucast a\<rparr>)"
  have gd: "get_reg d = (get_reg e)(I2C_CTRL := ?v)"
    by (simp add: d_def get_set_reg) (simp add: get_reg_def fun_eq_iff)
  have fd: "i2c_frame e d" "apb_running d" "i2c_env d = i2c_env e" "i2c_address d = ucast a"
    using r by (simp_all add: d_def set_reg_def i2c_frame_def)
  have k: "length (words_of_bytes wb) \<le> 64" "length (words_of_bytes rb) \<le> 64"
    using size(2,3) bus(2) by (simp_all add: word_le_nat_alt)
  have "I2C_CTRL \<notin> region 0x3000300 (length (words_of_bytes wb))" using buffer_region(1) [OF _ k(1)] by force
  then have wd: "words_at (get_reg d) 0x3000300 (words_of_bytes wb)" using regs(3) by (simp add: gd words_at_upd)
  have bd: "i2c_bus_transaction d (bus, i2c_address d) wb (unat n) = ((True, rb), env')"
    using bus(1) bus_transaction_cong [of d e] fd by (simp add: i2c_frame_def)
  have rd: "get_reg d 0x3000208 = of_nat (length wb) OR push_bit 16 n" "get_reg d 0x3000204 = bus"
    using regs by (simp_all add: gd)
  obtain e' where e': "i2c_execute d = e'" "i2c_frame d e'" "i2c_cmd e' = 0" "i2c_env e' = env'"
      "get_reg e' = (upds ((get_reg d)(0x3000280 := I2C_BUSY)) ?rs)(0x3000280 := I2C_DONE)"
    by (rule i2c_execute_run [OF size(2,3) rd wd bd bus(2)])
  have f: "i2c_frame e e'" by (rule i2c_frame_trans [OF fd(1) e'(2)])
  have rs: "b \<in> i2c_registers" if "b \<in> region 0x3000300 (length (words_of_bytes rb))" for b
    using that region_sub [of 0 _ 64 "0x3000300"] k(2) by (auto simp: i2c_registers_def)
  have other: "get_reg e' b = get_reg e b" if b: "b \<notin> i2c_registers" for b
  proof -
    have "b \<notin> fst ` set ?rs" using rs b by (auto simp: fst_program_data)
    with b show ?thesis by (auto simp: e'(5) gd upds_other i2c_registers_def)
  qed
  have out: "0x3000280 \<notin> region 0x3000300 (length (words_of_bytes rb))" using buffer_region(1) [OF _ k(2)] by force
  have "words_at (upds ((get_reg d)(0x3000280 := I2C_BUSY)) ?rs) 0x3000300 (words_of_bytes rb)"
    by (rule words_at_program_data) (use k(2) in simp)
  then have w: "words_at (get_reg e') 0x3000300 (words_of_bytes rb)" using out by (simp add: e'(5) words_at_upd)
  have fin: "get_reg e' 0x3000280 = I2C_DONE" by (simp add: e'(5))
  have ready: "controller_ready e'" using f e'(3) r fin by (simp add: controller_ready_def i2c_frame_def)
  note wr = write_run_start [OF r(1,2) size(1), folded d_def, unfolded e'(1)]
  have "\<forall>b \<in> P. get_reg e' b = get_reg e b" using other P by blast
  then have "phase P loc [i] [Apb_write I2C_CTRL ?v] e e'"
    using wr fd(2) f ready controller_readyD [OF ready] not_done_command [of I2C_CTRL] by (simp add: phase_def)
  then show thesis using e'(4) fin w other by (intro that) blast+
qed


lemma fst_zip_subset: "fst ` set (zip as vs) \<subseteq> set as"
  by (auto dest: set_zip_leftD)

text \<open>The poll and the reads, whose slots are in the program.\<close>

lemma phase_reads:
  assumes e: "controller_ready e" and P: "P \<inter> i2c_registers = {}"
    and slots: "\<forall>i \<in> set ix. loc + of_nat i * 4 \<in> P" and as: "length ix = length as" "set as \<subseteq> i2c_registers"
  defines "e' \<equiv> set_regs (zip (map (\<lambda>i. loc + of_nat i * 4) ix) (map (get_reg e) as)) e"
  shows "phase P loc ix (map (\<lambda>a. Apb_read a v) as) e e'" and "i2c_env e' = i2c_env e"
    and "get_reg e' = upds (get_reg e) (zip (map (\<lambda>i. loc + of_nat i * 4) ix) (map (get_reg e) as))"
    and "\<And>b. b \<notin> P \<Longrightarrow> get_reg e' b = get_reg e b"
proof -
  let ?us = "zip (map (\<lambda>i. loc + of_nat i * 4) ix) (map (get_reg e) as)"
  show g: "get_reg e' = upds (get_reg e) ?us" unfolding e'_def by (rule set_regs_fields)
  show "i2c_env e' = i2c_env e" unfolding e'_def by (rule set_regs_frame)
  have "set (map (\<lambda>i. loc + of_nat i * 4) ix) \<subseteq> P" using slots by auto
  with fst_zip_subset have "fst ` set ?us \<subseteq> P" by (rule order_trans)
  then show other: "get_reg e' b = get_reg e b" if "b \<notin> P" for b
    using that by (auto simp: g intro!: upds_other)
  have "0x3000280 \<notin> P" using P four_registers(4) by blast
  then have "controller_ready e'"
    using e other set_regs_frame [where avs = ?us and e = e] by (auto simp: controller_ready_def i2c_frame_def e'_def)
  moreover have "\<forall>a \<in> set as. a \<notin> P \<and> a \<noteq> DONE_COMMAND_ADDRESS" using as(2) P not_done_command by blast
  ultimately show "phase P loc ix (map (\<lambda>a. Apb_read a v) as) e e'"
    using commands_run_reads [OF as(1) _ slots, of v e] as(1) set_regs_frame(1)
    by (auto simp: phase_def e'_def)
qed

lemma phase_poll:
  assumes "controller_ready e" and "get_reg e 0x3000280 = I2C_DONE"
  shows "phase P loc [i] [Apb_poll 0x3000280 I2C_DONE I2C_DONE] e e"
  using assms not_done_command [of "0x3000280"] by (simp add: phase_def i2c_frame_refl)

lemma upds_zip_nth:
  assumes "distinct as" and "length as = length vs" and "i < length as"
  shows "upds R (zip as vs) (as ! i) = vs ! i"
  using assms
proof (induction as vs arbitrary: R i rule: list_induct2')
  case (4 a as v vs)
  show ?case
  proof (cases i)
    case 0
    have "a \<notin> fst ` set (zip as vs)" using 4 by (auto dest: set_zip_leftD)
    with 0 show ?thesis by (simp add: upds_other)
  next
    case (Suc j)
    with 4 show ?thesis by simp
  qed
qed auto

lemma distinct_slot_addresses:
  assumes "distinct ix" and "\<forall>i \<in> set ix. i < 2 ^ 30"
  shows "distinct (map (\<lambda>i. loc + of_nat i * 4 :: u32) ix)"
proof -
  have "inj_on (\<lambda>i. loc + of_nat i * 4 :: u32) (set ix)"
    using assms(2) word_add_4_mult by (auto intro!: inj_onI)
  with assms(1) show ?thesis by (simp add: distinct_map)
qed


subsection \<open>The whole program\<close>

text \<open>The commands of a transaction, with the controller's addresses.\<close>

lemma i2c_commands_board:
  "i2c_commands (get_i2c bus I2C_CTRL) a wb n =
     [Apb_write I2C_CTRL 0] @
     map (\<lambda>(a, w). Apb_write a w) (program_data 0x3000300 (words_of_bytes wb) @
       [(0x3000208, of_nat (length wb) OR push_bit 16 n), (0x3000204, bus)]) @
     [Apb_write I2C_CTRL (push_bit 16 a OR I2C_START)] @ [Apb_poll 0x3000280 I2C_DONE I2C_DONE] @
     map (\<lambda>a. Apb_read a 0) [0x3000280] @
     map (\<lambda>a. Apb_read a 0xFFFFFFFF) (block_addresses 0x3000300 (unat ((n + 3) div 4))) @ [Apb_write I2C_CTRL 0]"
  by (simp add: i2c_commands_def get_i2c_def i2c_reg_control_def i2c_reg_data_buffer_def i2c_reg_num_bytes_def
      i2c_reg_bus_en_def i2c_reg_status_def)

lemma buffer_registers: "b \<in> region 0x3000300 j \<Longrightarrow> j \<le> 64 \<Longrightarrow> b \<in> i2c_registers"
  using region_sub [of 0 j 64 "0x3000300"] by (auto simp: i2c_registers_def)

text \<open>
  The state before the start bit: the data, the sizes and the bus are in the controller.
\<close>

lemma i2c_setup_phase:
  fixes n bus :: u32
  assumes e: "controller_ready e" and P: "P \<inter> i2c_registers = {}" and size: "length wb \<le> 0x100"
    and ix: "length ix = length (words_of_bytes wb) + 2"
  defines "avs \<equiv> program_data 0x3000300 (words_of_bytes wb) @ [(0x3000208, of_nat (length wb) OR push_bit 16 n), (0x3000204, bus)]"
  obtains e' where "phase P loc ([i0] @ ix) ([Apb_write I2C_CTRL 0] @ map (\<lambda>(a, w). Apb_write a w) avs) e e'"
    "i2c_env e' = i2c_env e" "get_reg e' 0x3000208 = of_nat (length wb) OR push_bit 16 n" "get_reg e' 0x3000204 = bus"
    "words_at (get_reg e') 0x3000300 (words_of_bytes wb)" "\<And>b. b \<notin> i2c_registers \<Longrightarrow> get_reg e' b = get_reg e b"
proof -
  let ?dw = "program_data 0x3000300 (words_of_bytes wb)"
  define e1 where "e1 = set_regs [(I2C_CTRL, 0), (0x3000280, I2C_IDLE)] (e\<lparr>i2c_cmd := 0, i2c_address := 0\<rparr>)"
  note 1 = phase_idle [OF e P, folded e1_def]
  have r1: "controller_ready e1" using 1(1) by (simp add: phase_def)
  have k: "length (words_of_bytes wb) \<le> 64" using size by simp
  have dw: "fst ` set ?dw = region 0x3000300 (length (words_of_bytes wb))" by (rule fst_program_data)
  have "emu_plain b \<and> b \<in> i2c_registers \<and> b \<noteq> 0x3000280" if "b \<in> region 0x3000300 (length (words_of_bytes wb))" for b
    using buffer_region [OF that k] buffer_registers [OF that k] by force
  moreover have "emu_plain 0x3000208" "emu_plain 0x3000204" by (auto intro!: emu_plainI)
  ultimately have plain: "\<forall>b \<in> fst ` set avs. emu_plain b \<and> b \<in> i2c_registers \<and> b \<noteq> 0x3000280"
    by (simp add: avs_def image_Un dw)
  have "length ix = length avs" using ix by (simp add: avs_def program_data_def)
  note 2 = phase_writes [OF r1 this P plain]
  have g: "get_reg (set_regs avs e1) =
      (upds (get_reg e1) ?dw)(0x3000208 := of_nat (length wb) OR push_bit 16 n, 0x3000204 := bus)"
    unfolding 2(2) by (simp add: avs_def)
  have "0x3000208 \<notin> region 0x3000300 (length (words_of_bytes wb))" "0x3000204 \<notin> region 0x3000300 (length (words_of_bytes wb))"
    using buffer_region(1) [OF _ k] by force+
  moreover have "words_at (upds (get_reg e1) ?dw) 0x3000300 (words_of_bytes wb)"
    by (rule words_at_program_data) (use k in simp)
  ultimately have w: "words_at (get_reg (set_regs avs e1)) 0x3000300 (words_of_bytes wb)" by (simp add: g words_at_upd)
  have "get_reg (set_regs avs e1) b = get_reg e b" if b: "b \<notin> i2c_registers" for b
  proof -
    have "b \<notin> fst ` set ?dw" using b buffer_registers [OF _ k] by (auto simp: dw)
    with b show ?thesis by (auto simp: g 1(2) upds_other i2c_registers_def)
  qed
  moreover have "phase P loc ([i0] @ ix) ([Apb_write I2C_CTRL 0] @ map (\<lambda>(a, w). Apb_write a w) avs) e (set_regs avs e1)"
    by (rule phase_append [OF 1(1) 2(1)])
  ultimately show thesis using 1(3) 2(3) w by (intro that [of "set_regs avs e1"]) (simp_all add: g)
qed


lemma i2c_registers_high: "b \<in> i2c_registers \<Longrightarrow> 0x3000200 \<le> unat b"
  using buffer_region(1) [of b 64] by (auto simp: i2c_registers_def)

lemma program_apart:
  assumes "n \<le> 183"
  shows "region (APB_RAM + 0x800) n \<inter> i2c_registers = {}"
proof -
  have "False" if "b \<in> region (APB_RAM + 0x800) n" "b \<in> i2c_registers" for b
    using software_region_low [OF that(1) assms] i2c_registers_high [OF that(2)] by simp
  then show ?thesis by blast
qed

lemma controller_buffer: "k \<le> 64 \<Longrightarrow> set (block_addresses 0x3000300 k) \<subseteq> i2c_registers"
  using buffer_registers [of _ k] by (auto simp: block_addresses_def region_def)

text \<open>
  If the peripheral answers \<open>rb\<close> to \<open>wb\<close>, the slot of the status holds \<open>I2C_DONE\<close> after the
  program, the slots of the data hold the words of \<open>rb\<close>, and the peripheral is in its next state;
  registers other than those of the controller and the program keep their values.
\<close>

lemma i2c_commands_run:
  fixes n :: u32
  assumes size: "i2c_sizes_ok a wb n" and len: "length (program cs) \<le> 183"
    and cs: "cs = i2c_commands (get_i2c bus I2C_CTRL) a wb n"
    and P: "P = region (APB_RAM + 0x800) (length (program cs))"
    and e: "controller_ready e"
    and answer: "i2c_bus_transaction e (bus, ucast a) wb (unat n) = ((True, rb), env')" "length rb = unat n"
  defines "ix \<equiv> slots 0 1 cs" and "loc \<equiv> APB_RAM + 0x800" and "k \<equiv> length (words_of_bytes wb)"
  obtains e' where "phase P loc ix cs e e'" "i2c_env e' = env'"
    "get_reg e' (loc + of_nat (ix ! (k + 5)) * 4) = I2C_DONE"
    "map (\<lambda>i. get_reg e' (loc + of_nat i * 4)) (take (unat ((n + 3) div 4)) (drop (k + 6) ix)) = words_of_bytes rb"
    "\<And>b. b \<notin> P \<Longrightarrow> b \<notin> i2c_registers \<Longrightarrow> get_reg e' b = get_reg e b"
proof -
  let ?m = "unat ((n + 3) div 4)" and ?addr = "\<lambda>i. loc + of_nat i * 4"
  let ?as = "block_addresses 0x3000300 ?m"
  have sz: "a \<le> 0x7F" "length wb \<le> 0x100" "n \<le> 0x100" using size by (simp_all add: i2c_sizes_ok_def)
  then have m: "?m = length (words_of_bytes rb)" "?m \<le> 64"
    using answer(2) by (simp_all add: unat_div unat_word_ariths word_le_nat_alt)
  obtain i0 is1 j0 j1 j2 j3 j4 is2 i9 where ix: "ix = [i0] @ is1 @ [j0, j1, j2, j3, j4] @ is2 @ [i9]"
      "length is1 = k" "length is2 = ?m"
    unfolding ix_def cs k_def by (rule i2c_commands_split)
  have j4: "ix ! (k + 5) = j4" and is2: "take ?m (drop (k + 6) ix) = is2"
    using ix by (simp_all add: nth_append numeral_eq_Suc)
  have slot: "i < 183 \<and> ?addr i \<in> P" if i: "i \<in> set ix" for i
  proof -
    obtain j where "j < length ix" "i = ix ! j" using i unfolding in_set_conv_nth by blast
    then have "i < length (program cs)" using slots_program(2) [of j cs] by (simp add: ix_def)
    then show ?thesis using len by (auto simp: P loc_def region_def)
  qed
  have sub: "set (j4 # is2) \<subseteq> set ix" unfolding ix(1) by auto
  have "distinct ix" unfolding ix_def by (rule distinct_slots)
  then have "distinct (j4 # is2)" unfolding ix(1) by simp
  moreover have "\<forall>i \<in> set (j4 # is2). i < 2 ^ 30"
  proof
    fix i
    assume "i \<in> set (j4 # is2)"
    then have "i < 183" using slot sub by blast
    then show "i < 2 ^ 30" by simp
  qed
  ultimately have dist: "distinct (map ?addr (j4 # is2))" by (rule distinct_slot_addresses)
  have apart: "P \<inter> i2c_registers = {}" unfolding P by (rule program_apart [OF len])
  have as: "set ?as \<subseteq> i2c_registers" by (rule controller_buffer [OF m(2)])
  obtain e1 where 1: "phase P loc ([i0] @ is1 @ [j0, j1]) ([Apb_write I2C_CTRL 0] @
        map (\<lambda>(a, w). Apb_write a w) (program_data 0x3000300 (words_of_bytes wb) @
          [(0x3000208, of_nat (length wb) OR push_bit 16 n), (0x3000204, bus)])) e e1" "i2c_env e1 = i2c_env e"
      "get_reg e1 0x3000208 = of_nat (length wb) OR push_bit 16 n" "get_reg e1 0x3000204 = bus"
      "words_at (get_reg e1) 0x3000300 (words_of_bytes wb)" "\<And>b. b \<notin> i2c_registers \<Longrightarrow> get_reg e1 b = get_reg e b"
    using i2c_setup_phase [OF e apart sz(2), of "is1 @ [j0, j1]" loc i0 n bus] ix(2) unfolding k_def by auto
  have r1: "controller_ready e1" "i2c_frame e e1" using 1(1) by (simp_all add: phase_def)
  have answer1: "i2c_bus_transaction e1 (bus, ucast a) wb (unat n) = ((True, rb), env')"
    using answer(1) bus_transaction_cong [of e1 e] r1(2) 1(2) by (simp add: i2c_frame_def)
  obtain e2 where 2: "phase P loc [j2] [Apb_write I2C_CTRL (push_bit 16 a OR I2C_START)] e1 e2" "i2c_env e2 = env'"
      "get_reg e2 0x3000280 = I2C_DONE" "words_at (get_reg e2) 0x3000300 (words_of_bytes rb)"
      "\<forall>b. b \<notin> i2c_registers \<longrightarrow> get_reg e2 b = get_reg e1 b"
    by (rule phase_start [OF r1(1) apart sz 1(3-5) answer1 answer(2)])
  have r2: "controller_ready e2" using 2(1) by (simp add: phase_def)
  note 3 = phase_poll [OF r2 2(3), of P loc j3]
  have "\<forall>i \<in> set [j4]. ?addr i \<in> P" using slot sub by auto
  note 4 = phase_reads(1) [OF r2 apart this, of "[0x3000280]" 0] phase_reads(2-4) [OF r2 apart this, of "[0x3000280]"]
  define e4 where "e4 = set_regs (zip (map ?addr [j4]) (map (get_reg e2) [0x3000280])) e2"
  have 4: "phase P loc [j4] (map (\<lambda>a. Apb_read a 0) [0x3000280]) e2 e4" "i2c_env e4 = env'"
      "get_reg e4 = (get_reg e2)(?addr j4 := I2C_DONE)" "\<And>b. b \<notin> P \<Longrightarrow> get_reg e4 b = get_reg e2 b"
    using 4 2(2,3) by (simp_all add: e4_def)
  have r4: "controller_ready e4" using 4(1) by (simp add: phase_def)
  have sl: "\<forall>i \<in> set is2. ?addr i \<in> P" using slot sub by auto
  have ln: "length is2 = length ?as" using ix(3) by (simp add: block_addresses_def)
  define e5 where "e5 = set_regs (zip (map ?addr is2) (map (get_reg e4) ?as)) e4"
  note 5 = phase_reads(1) [OF r4 apart sl ln as, of "0xFFFFFFFF", folded e5_def]
    phase_reads(2-4) [OF r4 apart sl ln as, folded e5_def, unfolded 4(2)]
  have r5: "controller_ready e5" using 5(1) by (simp add: phase_def)
  define e6 where "e6 = set_regs [(I2C_CTRL, 0), (0x3000280, I2C_IDLE)] (e5\<lparr>i2c_cmd := 0, i2c_address := 0\<rparr>)"
  note 6 = phase_idle(1) [OF r5 apart, of loc i9, folded e6_def] phase_idle(3,2) [OF r5 apart, folded e6_def, unfolded 5(2)]
  have "phase P loc ix cs e e6"
    unfolding ix(1) cs i2c_commands_board
    using phase_append [OF 1(1) phase_append [OF 2(1) phase_append [OF 3 phase_append [OF 4(1) phase_append [OF 5(1) 6(1)]]]]]
    by (simp only: append_assoc append_Cons append_Nil)
  moreover have at: "get_reg e6 (?addr i) = get_reg e5 (?addr i)" if "i \<in> set ix" for i
  proof -
    have "?addr i \<in> P" using slot [OF that] by (rule conjunct2)
    then have "?addr i \<notin> i2c_registers" using apart by blast
    then have "?addr i \<noteq> I2C_CTRL" "?addr i \<noteq> 0x3000280" using four_registers(1,4) by metis+
    then show ?thesis unfolding 6(3) fun_upd_apply by (simp only: if_False)
  qed
  have "?addr j4 \<notin> set (map ?addr is2)" using dist unfolding list.map distinct.simps by (rule conjunct1)
  then have "?addr j4 \<notin> fst ` set (zip (map ?addr is2) (map (get_reg e4) ?as))"
    using fst_zip_subset by (rule contra_subsetD [rotated])
  then have "get_reg e6 (?addr j4) = I2C_DONE"
    using at [of j4] sub upds_other [of "?addr j4" _ "get_reg e4"] by (simp only: 5(3) 4(3) list.set fun_upd_same) simp
  moreover have "map (\<lambda>i. get_reg e6 (?addr i)) is2 = words_of_bytes rb"
  proof -
    have "map (get_reg e4) ?as = map (get_reg e2) ?as" using 4(4) as apart by (intro map_cong) auto
    also have "\<dots> = words_of_bytes rb" using emu_spi.words_at_block [OF 2(4), of ?m] m(1) by simp
    finally have vals: "map (get_reg e4) ?as = words_of_bytes rb" .
    show ?thesis
    proof (rule nth_equalityI)
      show "length (map (\<lambda>i. get_reg e6 (?addr i)) is2) = length (words_of_bytes rb)" using ix(3) m(1) by simp
      fix j
      assume "j < length (map (\<lambda>i. get_reg e6 (?addr i)) is2)"
      then have j: "j < length is2" by simp
      then have "upds (get_reg e4) (zip (map ?addr is2) (words_of_bytes rb)) (map ?addr is2 ! j) = words_of_bytes rb ! j"
        using dist ix(3) m(1) by (intro upds_zip_nth) simp_all
      with at [of "is2 ! j"] sub j show "map (\<lambda>i. get_reg e6 (?addr i)) is2 ! j = words_of_bytes rb ! j"
        by (simp add: 5(3) vals subset_iff)
    qed
  qed
  moreover have "get_reg e6 b = get_reg e b" if "b \<notin> P" "b \<notin> i2c_registers" for b
  proof -
    have "get_reg e6 b = get_reg e5 b" using that(2) by (auto simp: 6(3) i2c_registers_def)
    then show ?thesis using 5(4) [OF that(1)] 4(4) [OF that(1)] 2(5) that(2) 1(6) [OF that(2)] by simp
  qed
  ultimately show thesis using 6(2) that unfolding j4 is2 by blast
qed

end
