(* ===== verification/I2c_Link.thy ===== *)
theory I2c_Link
  imports Board_I2c Board_Connection
begin

text \<open>
  I2C transactions of the host on the emulated board, over the control socket: the board with its
  threads is a device that keeps the contract \<open>register_device\<close>, and \<open>i2c_transaction\<close> of the
  driver hands the bytes to the peripheral and returns its answer.
\<close>

subsection \<open>The board with its threads, on the link\<close>

text \<open>Between two control messages the other threads of the board take \<open>turns\<close> turns.\<close>

definition board_respond :: "nat \<Rightarrow> nat \<Rightarrow> 'p board \<Rightarrow> bytes \<Rightarrow> 'p board \<times> (nat \<times> net_event) list" where
  "board_respond latency turns s datagram =
     (let (e, events) = emulator_respond latency (fst s) datagram in
      ((board_turn ^^ turns) (e, snd s), events))"

text \<open>Turns for the longest program of a transaction that a control packet can carry.\<close>

definition BOARD_TURNS :: nat where "BOARD_TURNS = 200"

text \<open>
  The board is well and waits for work; the peripherals attached, their behaviour and their state
  are given.
\<close>

definition i2c_board ::
  "(u32 \<times> u16) list \<Rightarrow> ('p \<Rightarrow> u32 \<times> u16 \<Rightarrow> bytes \<Rightarrow> bytes \<Rightarrow> (bool \<times> bytes) \<times> 'p) \<Rightarrow> 'p \<Rightarrow> 'p board \<Rightarrow> bool"
where
  "i2c_board attached peripheral env s \<longleftrightarrow>
     emu_ok (fst s) \<and> controller_ready (fst s) \<and> threads_wait s \<and> i2c_attached (fst s) = attached \<and>
     i2c_peripheral (fst s) = peripheral \<and> i2c_env (fst s) = env"

definition board_effect :: "u32 \<times> u32 \<Rightarrow> (u32 \<times> u32) list option" where
  "board_effect av = (if fst av = 0x3000280 then None else emu_effect av)"

lemma emu_effect_targets:
  assumes "emu_effect (a, v) = Some us" and "a \<noteq> 0x3000280"
  shows "0x3000280 \<notin> fst ` set us"
  using assms by (auto simp: emu_effect_def split: if_splits)

lemma board_effect_emu: "board_effect av \<noteq> None \<Longrightarrow> emu_effect av = board_effect av"
  by (auto simp: board_effect_def split: if_splits)

lemma effects_board:
  assumes "\<forall>av \<in> set avs. board_effect av \<noteq> None"
  shows "effects emu_effect avs = effects board_effect avs" "0x3000280 \<notin> fst ` set (effects emu_effect avs)"
proof -
  have "effects emu_effect avs = effects board_effect avs \<and> 0x3000280 \<notin> fst ` set (effects emu_effect avs)"
    using assms
  proof (induction avs)
    case Nil
    then show ?case by simp
  next
    case (Cons av avs)
    have "board_effect av \<noteq> None" using Cons.prems by simp
    then obtain us where us: "board_effect av = Some us" "emu_effect av = Some us" "fst av \<noteq> 0x3000280"
      by (auto simp: board_effect_def split: if_splits)
    then have "0x3000280 \<notin> fst ` set us" using emu_effect_targets [of "fst av" "snd av" us] by simp
    moreover have "effects emu_effect avs = effects board_effect avs" "0x3000280 \<notin> fst ` set (effects emu_effect avs)"
      using Cons by auto
    ultimately show ?case using us(1,2) by (simp add: image_Un)
  qed
  then show "effects emu_effect avs = effects board_effect avs" "0x3000280 \<notin> fst ` set (effects emu_effect avs)"
    by argo+
qed

text \<open>The board keeps well when the emulator keeps its frame.\<close>

lemma i2c_board_frame:
  assumes "i2c_board att per env (e, x)" and "emu_ok e'" and "get_reg e' 0x3000280 \<noteq> I2C_BUSY"
    and "i2c_running e' = i2c_running e" "apb_running e' = apb_running e" "i2c_cmd e' = i2c_cmd e"
      "apb_queue e' = apb_queue e" "i2c_attached e' = i2c_attached e" "i2c_peripheral e' = i2c_peripheral e"
      "i2c_env e' = i2c_env e"
  shows "i2c_board att per env (e', x)"
  using assms by (simp add: i2c_board_def controller_ready_def threads_wait_def)

lemma board_waits:
  assumes "i2c_board att per env (e, x)"
  shows "x = None" "(board_turn ^^ n) (e, x) = (e, x)"
  using assms board_turns_wait [of "(e, x)" n] by (simp_all add: i2c_board_def threads_wait_def)

text \<open>A device whose reaction leaves the board well does not move on by itself.\<close>

lemma board_respond_settled:
  assumes "emulator_respond latency (fst s) datagram = (e', events)" and "i2c_board att per env (e', snd s)"
  shows "board_respond latency n s datagram = ((e', snd s), events)"
  using assms(1) board_waits(2) [OF assms(2)] by (simp add: board_respond_def)

text \<open>Reads only change the poll detection.\<close>

lemma board_read_respond:
  assumes d: "i2c_board att per env d"
    and r: "\<exists>e' reply. emulator_respond latency (fst d) request = (e', [(latency, Datagram reply)]) \<and>
      same_but_polls ((fst d)\<lparr>e_next_sequence := seq + 1\<rparr>) e' \<and> unat (e_poll_count e') \<le> 299 \<and>
      emu_budget (fst d) \<le> emu_budget e' + k \<and> reply_to reply seq code rest"
  shows "\<exists>d' reply. board_respond latency n d request = (d', [(latency, Datagram reply)]) \<and>
    i2c_board att per env d' \<and> get_reg (fst d') = get_reg (fst d) \<and> e_next_sequence (fst d') = seq + 1 \<and>
    emu_budget (fst d) \<le> emu_budget (fst d') + k \<and> reply_to reply seq code rest"
proof -
  obtain e' reply where e': "emulator_respond latency (fst d) request = (e', [(latency, Datagram reply)])"
      "same_but_polls ((fst d)\<lparr>e_next_sequence := seq + 1\<rparr>) e'" "unat (e_poll_count e') \<le> 299"
      "emu_budget (fst d) \<le> emu_budget e' + k" "reply_to reply seq code rest"
    using r by blast
  have ok: "emu_ok (fst d)" "get_reg (fst d) 0x3000280 \<noteq> I2C_BUSY" using d by (simp_all add: i2c_board_def controller_ready_def)
  note regs = same_but_polls_ok [OF ok(1) e'(2,3)]
  have "i2c_board att per env (e', snd d)"
    by (rule i2c_board_frame [of att per env "fst d" "snd d"]) (use d regs ok e'(2) in \<open>simp_all add: same_but_polls_def\<close>)
  from board_respond_settled [OF e'(1) this, of n] this regs e'(4,5) show ?thesis by auto
qed

lemma board_device:
  assumes "latency \<le> 90000000"
  shows "register_device (board_respond latency n) (i2c_board att per env) (get_reg \<circ> fst) emu_readable board_effect
    (e_next_sequence \<circ> fst) (emu_budget \<circ> fst) latency"
proof (unfold_locales, goal_cases)
  case 1
  show ?case by (rule assms)
next
  case (2 a)
  then show ?case by (simp add: emu_readable_def)
next
  case (3 a v)
  then show ?case by (auto simp: board_effect_def emu_effect_def split: if_splits)
next
  case (4 d cmd avs check seq)
  let ?us = "effects emu_effect avs" and ?e1 = "(fst d)\<lparr>e_next_sequence := seq + 1\<rparr>"
  let ?e = "(set_regs ?us ?e1)\<lparr>e_last_read_address := fst (last avs)\<rparr>"
  have ok: "emu_ok (fst d)" using 4(1) by (simp add: i2c_board_def)
  have all: "\<forall>av \<in> set avs. emu_effect av \<noteq> None" using 4(5) board_effect_emu by metis
  obtain reply where r: "emulator_respond latency (fst d) (header_bytes cmd (request_flags check) seq @ pairs_bytes avs) =
      (?e, [(latency, Datagram reply)])" "\<exists>rest. reply_head reply seq RESPONSE_SUCCESS rest"
    using emulator_write_run [OF ok 4(2-4) all, of check seq latency] 4(6) by auto
  have regs: "get_reg ?e = upds (get_reg (fst d)) (effects board_effect avs)"
    using set_regs_fields(1) [of ?us ?e1] effects_board(1) [OF 4(5)] by (simp add: get_reg_def [abs_def])
  have fields: "i2c_running ?e = i2c_running (fst d)" "apb_running ?e = apb_running (fst d)" "i2c_cmd ?e = i2c_cmd (fst d)"
      "apb_queue ?e = apb_queue (fst d)" "i2c_attached ?e = i2c_attached (fst d)" "i2c_peripheral ?e = i2c_peripheral (fst d)"
      "i2c_env ?e = i2c_env (fst d)"
    using set_regs_frame [where avs = ?us and e = ?e1] by (simp_all add: i2c_frame_def)
  have "get_reg ?e 0x3000280 = get_reg (fst d) 0x3000280"
    unfolding regs by (rule upds_other) (use effects_board [OF 4(5)] in simp)
  then have busy: "get_reg ?e 0x3000280 \<noteq> I2C_BUSY" using 4(1) by (simp add: i2c_board_def controller_ready_def)
  have e: "emu_ok ?e" "e_next_sequence ?e = seq + 1" "emu_budget ?e = emu_budget (fst d)"
    using ok set_regs_fields [of ?us ?e1] by (simp_all add: emu_ok_def emu_budget_def)
  have bok: "i2c_board att per env (?e, snd d)"
    by (rule i2c_board_frame [OF _ e(1) busy fields]) (use 4(1) in simp)
  show ?case
    by (rule exI [of _ "(?e, snd d)"], rule exI [of _ reply])
      (use board_respond_settled [OF r(1) bok, of n] bok regs e r(2) in simp)
next
  case (5 d a check seq)
  have ok: "emu_ok (fst d)" "1 \<le> emu_budget (fst d)" using 5(1,3) by (simp_all add: i2c_board_def)
  have one: "deserialize_pairs 368 d' = map (\<lambda>a. (a, 0)) [a]" if "d_ok d'" "unread d' = be_bytes 4 a" for d'
    using deserialize_pairs_address [OF that, of 366] by (simp add: eval_nat_numeral)
  have seq: "check \<Longrightarrow> seq = e_next_sequence (fst d)" using 5(4) by simp
  have "\<exists>e' reply. emulator_respond latency (fst d) (header_bytes RD_DWORD (request_flags check) seq @ be_bytes 4 a) =
        (e', [(latency, Datagram reply)]) \<and> same_but_polls ((fst d)\<lparr>e_next_sequence := seq + 1\<rparr>) e' \<and>
      unat (e_poll_count e') \<le> 299 \<and> emu_budget (fst d) \<le> emu_budget e' + length [a] \<and>
      reply_to reply seq RESPONSE_SUCCESS (pairs_bytes (map (\<lambda>a. (a, get_reg (fst d) a)) [a]))"
    by (rule emulator_reads [OF ok(1) _ _ _ one _ _ _ seq]) (use ok(2) 5(2) in simp_all)
  from board_read_respond [OF 5(1) this, of n] show ?case by simp
next
  case (6 d as check seq)
  have ok: "emu_ok (fst d)" using 6(1) by (simp add: i2c_board_def)
  have all: "deserialize_pairs 368 d' = map (\<lambda>a. (a, 0)) as"
    if "d_ok d'" "unread d' = pairs_bytes (map (\<lambda>a. (a, 0)) as)" for d'
    using deserialize_pairs_ok [OF that] 6(3) by simp
  have "\<exists>e' reply. emulator_respond latency (fst d) (header_bytes RD_BLOCK (request_flags check) seq @
        pairs_bytes (map (\<lambda>a. (a, 0)) as)) = (e', [(latency, Datagram reply)]) \<and>
      same_but_polls ((fst d)\<lparr>e_next_sequence := seq + 1\<rparr>) e' \<and> unat (e_poll_count e') \<le> 299 \<and>
      emu_budget (fst d) \<le> emu_budget e' + length as \<and>
      reply_to reply seq RESPONSE_SUCCESS (pairs_bytes (map (\<lambda>a. (a, get_reg (fst d) a)) as))"
    by (rule emulator_reads [OF ok _ _ _ all]) (use 6(2-6) in \<open>auto simp: Suc_le_eq\<close>)
  from board_read_respond [OF 6(1) this, of n] show ?case by simp
next
  case (7 d seq request cmd rest)
  have ok: "emu_ok (fst d)" using 7(1) by (simp add: i2c_board_def)
  obtain reply code where r: "emulator_respond latency (fst d) request = (fst d, [(latency, Datagram reply)])"
      "code \<noteq> RESPONSE_SUCCESS" "\<exists>rest. reply_head reply seq code rest"
    using emulator_refuses [OF ok _ 7(3-5)] 7(2) by (metis comp_apply)
  have "i2c_board att per env (fst d, snd d)" using 7(1) by simp
  from board_respond_settled [OF r(1) this, of n] r(2,3) show ?case by auto
qed

end
