(* ===== verification/I2c_Transaction.thy ===== *)
theory I2c_Transaction
  imports I2c_Link
begin

text \<open>
  \<open>i2c_transaction\<close> of the driver against the emulated board with its threads: the request becomes
  a program, the software event starts it, the threads of the board run it while the host waits,
  the host polls the copy of the status and collects the answer.
\<close>

subsection \<open>The message that raises the event\<close>

lemma handle_writes_append: "handle_writes (avs @ bvs) = hthen (handle_writes avs) (handle_writes bvs)"
proof (induction avs)
  case (Cons av avs)
  obtain a v where "av = (a, v)" by force
  with Cons show ?case by (auto simp: hthen_def hbind_def fun_eq_iff split: sum.splits prod.splits)
qed (simp add: hthen_def hbind_def fun_eq_iff)

lemma set_regs_queue: "set_regs avs (e\<lparr>apb_queue := q\<rparr>) = (set_regs avs e)\<lparr>apb_queue := q\<rparr>"
proof (induction avs arbitrary: e)
  case (Cons av avs)
  obtain a v where "av = (a, v)" by force
  moreover have "set_reg a v (e\<lparr>apb_queue := q\<rparr>) = (set_reg a v e)\<lparr>apb_queue := q\<rparr>" by (simp add: set_reg_def)
  ultimately show ?case by (simp add: Cons)
qed simp

abbreviation "event_data data t \<equiv> data @ [(CTRL_EVT_SW_EVENT, 1), (CTRL_EVT_SW_EVENT, 0), (CTRL_EVT_APB_TIMEOUT, t)]"

lemma handle_writes_event:
  assumes "\<forall>av \<in> set data. emu_effect av = Some [av]" and "apb_running e" and "apb_queue e = []"
  shows "handle_writes (event_data data t) e =
    (Inr (), (set_regs (event_data data t) e)\<lparr>apb_queue := [(SW_EVENT, APB_RAM + 0x800)]\<rparr>)"
proof -
  let ?e = "set_regs data e" and ?q = "[(SW_EVENT, APB_RAM + 0x800)] :: (hsb_event \<times> u32) list"
  have 1: "handle_writes data e = (Inr (), ?e)"
    using handle_writes_effects [of data e] assms(1) effects_plain [OF assms(1)] by simp
  have r: "apb_running ?e" "apb_queue ?e = []"
    using assms(2,3) set_regs_frame [where avs = data and e = e] by (simp_all add: i2c_frame_def)
  have 2: "emu_write CTRL_EVT_SW_EVENT 1 ?e = (Inr (), (set_reg CTRL_EVT_SW_EVENT 1 ?e)\<lparr>apb_queue := ?q\<rparr>)"
    using r by (simp add: emu_write.simps [of CTRL_EVT_SW_EVENT 1] queue_event_def event_start_address_def set_reg_def
        hthen_def hbind_def)
  have 3: "emu_write CTRL_EVT_SW_EVENT 0 d = (Inr (), set_reg CTRL_EVT_SW_EVENT 0 d)"
    and 4: "emu_write CTRL_EVT_APB_TIMEOUT t d = (Inr (), set_reg CTRL_EVT_APB_TIMEOUT t d)" for d :: "'a emulator"
    by (simp_all add: emu_write.simps [of CTRL_EVT_SW_EVENT 0] emu_write_plain emu_plain_def special_addresses_def misaligned_def)
  show ?thesis
    using 1 2 3 4 by (simp add: handle_writes_append hthen_def hbind_def) (simp add: set_reg_def)
qed

text \<open>Where the slots of a transaction's results are.\<close>

definition status_slot :: "bytes \<Rightarrow> nat list \<Rightarrow> u32" where
  "status_slot wb ix = APB_RAM + 0x800 + of_nat (ix ! (length (words_of_bytes wb) + 5)) * 4"

definition data_indexes :: "bytes \<Rightarrow> u32 \<Rightarrow> nat list \<Rightarrow> nat list" where
  "data_indexes wb n ix = take (unat ((n + 3) div 4)) (drop (length (words_of_bytes wb) + 6) ix)"

lemma i2c_turns_enough:
  assumes "length (program (i2c_commands i a wb n)) \<le> 183"
  shows "2 + 2 * length (i2c_commands i a wb n) \<le> BOARD_TURNS"
proof -
  have "k \<le> 87" if "3 + 2 * k + k div 16 \<le> 183" for k :: nat using that by linarith
  then have "7 + (length wb + 3) div 4 + unat ((n + 3) div 4) \<le> 87"
    using assms unfolding length_i2c_program Let_def by blast
  then show ?thesis
    by (simp add: i2c_commands_def program_data_def block_addresses_def BOARD_TURNS_def)
qed

lemma event_registers_low:
  assumes "b \<in> event_registers"
  shows "unat b < 0x2100"
proof -
  have "unat (event_vector e) < 0x2100" for e by (cases e) (simp_all add: event_vector_def)
  then show ?thesis using assms by (auto simp: event_registers_def)
qed

lemma software_region_high:
  assumes "b \<in> region (APB_RAM + 0x800) n" and "n \<le> 183"
  shows "0x2800 \<le> unat b"
proof -
  obtain i where "i < n" "b = APB_RAM + 0x800 + of_nat i * 4" using assms(1) by (auto simp: region_def)
  then show ?thesis using assms(2) by (simp add: unat_word_ariths unat_of_nat_u32)
qed

text \<open>
  The peripherals answer \<open>rb\<close> to \<open>wb\<close> and go from the state \<open>env\<close> to \<open>env'\<close>; the program of the
  transaction is in the board's memory.
\<close>

lemma event_message:
  fixes n :: u32
  assumes e: "i2c_board att per env (e, x)"
    and size: "i2c_sizes_ok a wb n" "length (program cs) \<le> 183" "cs = i2c_commands (get_i2c bus I2C_CTRL) a wb n"
    and P: "P = region (APB_RAM + 0x800) (length (program cs))" "words_at (get_reg e) (APB_RAM + 0x800) (program cs)"
    and data: "\<forall>av \<in> set data. fst av \<in> event_registers" "length data \<le> 180"
    and answer: "i2c_bus_transaction e (bus, ucast a) wb (unat n) = ((True, rb), env')" "length rb = unat n"
    and seq: "check \<Longrightarrow> seq = e_next_sequence e"
  obtains s' reply where
    "board_respond latency BOARD_TURNS (e, x) (header_bytes WR_BLOCK (request_flags check) seq @ pairs_bytes (event_data data t)) =
       (s', [(latency, Datagram reply)])" "\<exists>rest. reply_head reply seq RESPONSE_SUCCESS rest"
    "i2c_board att per env' s'" "e_next_sequence (fst s') = seq + 1" "e_last_read_address (fst s') = CTRL_EVT_APB_TIMEOUT"
    "get_reg (fst s') (status_slot wb (slots 0 1 cs)) = I2C_DONE"
    "map (\<lambda>i. get_reg (fst s') (APB_RAM + 0x800 + of_nat i * 4)) (data_indexes wb n (slots 0 1 cs)) = words_of_bytes rb"
    "\<And>b. b \<notin> P \<Longrightarrow> b \<notin> i2c_registers \<Longrightarrow> get_reg (fst s') b = upds (get_reg e) (event_data data t) b"
proof -
  let ?avs = "event_data data t" and ?e1 = "e\<lparr>e_next_sequence := seq + 1\<rparr>" and ?loc = "APB_RAM + 0x800"
  define e2 where "e2 = (set_regs ?avs ?e1)\<lparr>e_last_read_address := CTRL_EVT_APB_TIMEOUT\<rparr>"
  let ?q = "e2\<lparr>apb_queue := [(SW_EVENT, ?loc)]\<rparr>"
  have ok: "emu_ok e" "apb_running e" "apb_queue e = []" "x = None" "i2c_running e" "i2c_cmd e = 0"
      "get_reg e 0x3000280 \<noteq> I2C_BUSY"
    using e by (simp_all add: i2c_board_def controller_ready_def threads_wait_def)
  have plain: "\<forall>av \<in> set data. emu_effect av = Some [av]"
    using data(1) emu_event_memory by (auto simp: event_memory_def)
  have handled: "handle_writes ?avs ?e1 = (Inr (), (set_regs ?avs ?e1)\<lparr>apb_queue := [(SW_EVENT, ?loc)]\<rparr>)"
    by (rule handle_writes_event [OF plain]) (use ok in simp_all)
  have q: "(set_regs ?avs ?e1)\<lparr>apb_queue := [(SW_EVENT, ?loc)], e_last_read_address := fst (last ?avs)\<rparr> = ?q"
    by (simp add: e2_def)
  have "\<exists>reply. emulator_respond latency e (header_bytes WR_BLOCK (request_flags check) seq @ pairs_bytes ?avs) =
      ((set_regs ?avs ?e1)\<lparr>apb_queue := [(SW_EVENT, ?loc)], e_last_read_address := fst (last ?avs)\<rparr>,
       [(latency, Datagram reply)]) \<and> (\<exists>rest. reply_head reply seq RESPONSE_SUCCESS rest)"
    by (rule emulator_handled_write [OF ok(1) _ _ _ seq handled]) (use data(2) in simp_all)
  then obtain reply where reply: "emulator_respond latency e (header_bytes WR_BLOCK (request_flags check) seq @ pairs_bytes ?avs) =
      (?q, [(latency, Datagram reply)])" "\<exists>rest. reply_head reply seq RESPONSE_SUCCESS rest"
    unfolding q by blast
  have g: "get_reg e2 = upds (get_reg e) ?avs"
    using set_regs_fields(1) [of ?avs ?e1] by (simp add: e2_def get_reg_def [abs_def])
  have f: "e_next_sequence e2 = seq + 1" "e_poll_count e2 = e_poll_count e" "e_running e2 = e_running e"
      "apb_running e2" "apb_queue e2 = []" "i2c_running e2" "i2c_cmd e2 = 0" "i2c_attached e2 = i2c_attached e"
      "i2c_peripheral e2 = i2c_peripheral e" "i2c_env e2 = i2c_env e" "e_last_read_address e2 = CTRL_EVT_APB_TIMEOUT"
    using set_regs_frame [where avs = ?avs and e = ?e1] ok by (simp_all add: e2_def i2c_frame_def)
  have avs: "unat b < 0x2100" if "b \<in> fst ` set ?avs" for b
    using that data(1) by (auto simp: event_registers_low)
  have apart: "b \<notin> fst ` set ?avs" if "b \<in> P \<or> b \<in> i2c_registers" for b
    using that avs [of b] software_region_high [OF _ size(2), of b] i2c_registers_high [of b] by (force simp: P(1))
  have "0x3000280 \<in> i2c_registers" by (simp add: i2c_registers_def)
  then have "get_reg e2 0x3000280 = get_reg e 0x3000280" using apart by (simp add: g upds_other)
  then have ready: "controller_ready e2" using f ok by (simp add: controller_ready_def)
  have words: "words_at (get_reg e2) ?loc (program cs)"
    using P(2) words_at_cong [of ?loc "program cs" "get_reg e2" "get_reg e"] apart by (auto simp: g upds_other P(1))
  have answer2: "i2c_bus_transaction e2 (bus, ucast a) wb (unat n) = ((True, rb), env')"
    using answer(1) bus_transaction_cong [of e2 e] f by simp
  have "\<exists>e'. phase P ?loc (slots 0 1 cs) cs e2 e' \<and> i2c_env e' = env' \<and>
      get_reg e' (?loc + of_nat (slots 0 1 cs ! (length (words_of_bytes wb) + 5)) * 4) = I2C_DONE \<and>
      map (\<lambda>i. get_reg e' (?loc + of_nat i * 4))
         (take (unat ((n + 3) div 4)) (drop (length (words_of_bytes wb) + 6) (slots 0 1 cs))) = words_of_bytes rb \<and>
      (\<forall>b. b \<notin> P \<longrightarrow> b \<notin> i2c_registers \<longrightarrow> get_reg e' b = get_reg e2 b)"
    by (rule i2c_commands_run [OF size(1,2,3) P(1) ready answer2 answer(2)]) blast
  then obtain e' where e': "phase P ?loc (slots 0 1 cs) cs e2 e'" "i2c_env e' = env'"
      "get_reg e' (status_slot wb (slots 0 1 cs)) = I2C_DONE"
      "map (\<lambda>i. get_reg e' (?loc + of_nat i * 4)) (data_indexes wb n (slots 0 1 cs)) = words_of_bytes rb"
      "\<And>b. b \<notin> P \<Longrightarrow> b \<notin> i2c_registers \<Longrightarrow> get_reg e' b = get_reg e2 b"
    unfolding status_slot_def data_indexes_def by blast
  have run: "commands_run ?loc (slots 0 1 cs) cs e2 = e'" "commands_ready P ?loc (slots 0 1 cs) cs e2"
      "controller_ready e'" "i2c_frame e2 e'"
    using e'(1) by (simp_all add: phase_def)
  have e2: "e2\<lparr>apb_queue := []\<rparr> = e2" and qe: "?q\<lparr>apb_queue := []\<rparr> = e2" using f(5) by simp_all
  have turns: "2 + 2 * length cs \<le> BOARD_TURNS" using i2c_turns_enough size(2) unfolding size(3) .
  have "\<exists>m. m \<le> 2 + 2 * length cs \<and> (board_turn ^^ m) (?q, None) =
      (commands_run ?loc (slots 0 1 cs) cs (?q\<lparr>apb_queue := []\<rparr>), None)"
    by (rule turns_event [OF _ _ _ _ _ P(1)])
      (use words size(2) f software_region(1) [OF _ size(2)] run(2) in \<open>simp_all add: e2 P(1) get_reg_def [abs_def] i2c_enabled_def\<close>)
  then obtain m where m: "m \<le> BOARD_TURNS" "(board_turn ^^ m) (?q, None) = (e', None)"
    unfolding qe run(1) using turns by (meson order_trans)
  have board: "i2c_board att per env' (e', None)"
    using run(3,4) f ok e e'(2) by (simp add: i2c_board_def i2c_frame_def threads_wait_def controller_ready_def emu_ok_def)
  then have "(board_turn ^^ BOARD_TURNS) (?q, None) = (e', None)"
    by (intro board_turns_settled [OF m(2) _ m(1)]) (simp add: i2c_board_def)
  then have "board_respond latency BOARD_TURNS (e, x) (header_bytes WR_BLOCK (request_flags check) seq @ pairs_bytes ?avs) =
      ((e', None), [(latency, Datagram reply)])"
    using reply(1) ok(4) by (simp add: board_respond_def)
  moreover have "e_next_sequence e' = seq + 1" "e_last_read_address e' = CTRL_EVT_APB_TIMEOUT"
    using run(4) f by (simp_all add: i2c_frame_def)
  ultimately show thesis using e'(3-5) reply(2) board by (intro that [of "(e', None)" reply]) (simp_all add: g)
qed

subsection \<open>Steps of the driver\<close>

context register_device
begin

lemma write_data_timed:
  assumes "block_enable h" and "avs \<noteq> []" and "length avs \<le> 183" and "\<forall>av \<in> set avs. effect av \<noteq> None"
  shows "runs (timed R n h t (Suc k)) (hbind (write_data_default avs None True) (\<lambda>_. hret ()))
    (\<lambda>_. timed (upds R (effects effect avs)) n h t k)"
proof (rule runsI)
  fix s
  assume s: "timed R n h t (Suc k) s"
  let ?check = "sequence_number_checking (host s)"
  have st: "st R n h s" using s by (simp add: timed_def)
  have ok: "dev_ok (device (link s))" "regs (device (link s)) = R" "n \<le> budget (device (link s))"
    using st by (simp_all add: connected_def)
  have al: "\<forall>a \<in> fst ` set avs. \<not> misaligned a" using assms(4) effect_aligned by fastforce
  obtain d' reply rest where d: "step (device (link s))
        (header_bytes WR_BLOCK (request_flags ?check) (expected (device (link s))) @ pairs_bytes avs) =
        (d', [(latency, Datagram reply)])"
      "dev_ok d'" "regs d' = upds R (effects effect avs)" "expected d' = expected (device (link s)) + 1" "n \<le> budget d'"
      "reply_head reply (expected (device (link s))) RESPONSE_SUCCESS rest"
    using write_law [OF ok(1) _ assms(2-4), of WR_BLOCK ?check "expected (device (link s))"] ok by auto
  from write_data_step [OF s assms(1-3) al d(1), of dev_ok, OF d(2-6)]
  show "\<exists>x s'. hbind (write_data_default avs None True) (\<lambda>_. hret ()) s = (Inr x, s') \<and>
      timed (upds R (effects effect avs)) n h t k s'"
    by (auto simp: hbind_def timed_def)
qed

lemma timed_mono: "timed R n h t k s \<Longrightarrow> m \<le> n \<Longrightarrow> j \<le> k \<Longrightarrow> timed R m h t j s"
proof -
  assume t: "timed R n h t k s" "m \<le> n" "j \<le> k"
  then have "clock (link s) + int k * (int latency + 10) + 3000 \<le> deadline t"
    by (simp add: timed_def in_time_def)
  moreover have "int j * (int latency + 10) \<le> int k * (int latency + 10)" using t(3) by (intro mult_right_mono) simp_all
  ultimately have "in_time (Some t) j (clock (link s))" unfolding in_time_def option.case by linarith
  with t(1,2) show ?thesis by (simp add: timed_def connected_def)
qed

lemma clear_apb_event_timed:
  assumes "event_memory effect" "block_enable h" "caches_agree R h"
  shows "runs (timed R n h t (Suc k)) (clear_apb_event e)
    (\<lambda>_ s. \<exists>R'. timed R' n (cleared e h) t k s \<and> caches_agree R' (cleared e h) \<and>
       (\<forall>a. a \<notin> event_registers \<longrightarrow> R' a = R a))"
proof (rule runsI)
  fix s
  assume s: "timed R n h t (Suc k) s"
  let ?data = "snd (clear_apb_event_data e (h, []))"
  have "effect av = Some [av]" if "av \<in> set ?data" for av
    using clear_apb_event_addresses [OF that] assms(1) by (cases av) (auto simp: event_memory_def)
  then have plain: "\<forall>av \<in> set ?data. effect av = Some [av]" by blast
  have st: "st R n h s" using s by (simp add: timed_def)
  obtain h1 where h1: "h1 = fst (clear_apb_event_data e (host s, []))" by simp
  have f: "clear_apb_event_data e (host s, []) = (h1, ?data)"
    unfolding h1 by (rule st_host [OF st]) (simp add: clear_apb_event_data_writes cleared_def prod_eq_iff)
  have "st R n (cleared e h) (s\<lparr>host := h1\<rparr>)"
    unfolding h1 by (rule st_set_host [OF st]) (simp add: clear_apb_event_data_host)
  then have t: "timed R n (cleared e h) t (Suc k) (s\<lparr>host := h1\<rparr>)"
    using s by (simp add: timed_def)
  have "?data \<noteq> []" "length ?data \<le> 183" "block_enable (cleared e h)" "\<forall>av \<in> set ?data. effect av \<noteq> None"
    using assms(2) plain by (auto simp: clear_apb_event_data_writes cleared_def)
  from runsD [OF write_data_timed [OF this(3,1,2,4)] t] f
  obtain s' where s': "clear_apb_event e s = (Inr (), s')" "timed (upds R ?data) n (cleared e h) t k s'"
    using effects_plain [OF plain] by (auto simp: clear_apb_event_def send_event_writes_def hthen_def hbind_def split: prod.splits)
  have "upds R ?data a = R a" if "a \<notin> event_registers" for a
    using that clear_apb_event_addresses by (intro upds_other) blast
  with s' caches_agree_cleared [OF assms(3), of e]
  show "\<exists>x s'. clear_apb_event e s = (Inr x, s') \<and> (\<exists>R'. timed R' n (cleared e h) t k s' \<and>
      caches_agree R' (cleared e h) \<and> (\<forall>a. a \<notin> event_registers \<longrightarrow> R' a = R a))"
    by blast
qed

lemma read_back_rule:
  assumes "\<forall>i \<in> set items. readable (loc + of_nat i * 4)"
  shows "runs (timed R (length items + n) h t (length items + k)) (read_back loc items t)
    (\<lambda>bs s. bs = bytes_of_words (map (\<lambda>i. R (loc + of_nat i * 4)) items) \<and> timed R n h t k s)"
  using assms
proof (induction items)
  case Nil
  show ?case by (simp add: runs_def)
next
  case (Cons i items)
  let ?a = "loc + of_nat i * 4"
  have "runs (timed R (length items + n) h t (length items + k))
      (hbind (read_back loc items t) (\<lambda>bs. hret (le_bytes 4 (R ?a) @ bs)))
      (\<lambda>bs s. bs = bytes_of_words (map (\<lambda>i. R (loc + of_nat i * 4)) (i # items)) \<and> timed R n h t k s)"
    by (rule runs_hbind [OF Cons.IH]) (use Cons.prems in \<open>auto simp: runs_def\<close>)
  then have rest: "runs (\<lambda>s. r = (R ?a, t) \<and> timed R (length items + n) h t (length items + k) s)
      (case r of (value, to) \<Rightarrow> hbind (read_back loc items to) (\<lambda>bs. hret (le_bytes 4 value @ bs)))
      (\<lambda>bs s. bs = bytes_of_words (map (\<lambda>i. R (loc + of_nat i * 4)) (i # items)) \<and> timed R n h t k s)" for r
    by (auto simp: runs_def)
  have len: "length (i # items) + m = Suc (length items + m)" for m by simp
  show ?case
    unfolding read_back.simps len
    by (rule runs_hbind [OF read_uint32_to_rule rest]) (use Cons.prems in simp)
qed

text \<open>The ticks of the board's timeout are computed from a clock that goes on.\<close>

lemma queue_apb_timeout_rule:
  "runs (timed R n h t (Suc (Suc k))) (queue_apb_timeout t) (\<lambda>_. timed R n h t k)"
proof (rule runsI)
  fix s
  assume "timed R n h t (Suc (Suc k)) s"
  from runsD [OF read_clock_timed this] obtain now s1 where
    1: "on_link read_clock s = (Inr now, s1)" "timed R n h t (Suc k) s1" by auto
  from runsD [OF read_clock_timed 1(2)] obtain later s2 where
    2: "on_link read_clock s1 = (Inr later, s2)" "timed R n h t k s2" by auto
  have "timed R n h t k s1" using 1(2) in_time_step [of t k "clock (link s1)" "clock (link s1)"] by (simp add: timed_def)
  with 1(1) 2 show "\<exists>x s'. queue_apb_timeout t s = (Inr x, s') \<and> timed R n h t k s'"
    by (auto simp: queue_apb_timeout_def hbind_def)
qed

end

subsection \<open>The board as the driver's device\<close>

interpretation board: register_device "board_respond EMULATOR_LATENCY BOARD_TURNS" "i2c_board att per env" "get_reg \<circ> fst"
    emu_readable board_effect "e_next_sequence \<circ> fst" "emu_budget \<circ> fst" EMULATOR_LATENCY for att per env
  by (rule board_device) (simp add: EMULATOR_LATENCY_def)

lemma plain_board_effect: "emu_plain a \<Longrightarrow> a \<noteq> 0x3000280 \<Longrightarrow> board_effect (a, v) = Some [(a, v)]"
  by (simp add: board_effect_def emu_plain_effect)

lemma board_event_memory: "event_memory board_effect"
  using emu_event_memory event_registers_low [of "0x3000280"] by (auto simp: event_memory_def board_effect_def)

text \<open>What the peripherals answer, of which some are attached: a bus without the peripheral reads as zeros.\<close>

definition bus_answer ::
  "(u32 \<times> u16) list \<Rightarrow> ('p \<Rightarrow> u32 \<times> u16 \<Rightarrow> bytes \<Rightarrow> bytes \<Rightarrow> (bool \<times> bytes) \<times> 'p) \<Rightarrow> 'p \<Rightarrow> u32 \<times> u16 \<Rightarrow> bytes \<Rightarrow> nat \<Rightarrow>
   (bool \<times> bytes) \<times> 'p"
where
  "bus_answer att per env key wb n =
     (if key \<in> set att then per env key wb (replicate n 0) else ((True, replicate n 0), env))"

lemma bus_answer_board:
  "i2c_bus_transaction e = bus_answer (i2c_attached e) (i2c_peripheral e) (i2c_env e)"
  by (intro ext) (simp add: i2c_bus_transaction_def bus_answer_def)

lemma i2c_write_data_message:
  fixes n :: u32
  assumes s: "board.timed att per env R m h t (Suc k) s" and h: "block_enable h"
    and size: "i2c_sizes_ok a wb n" "length (program cs) \<le> 183" "cs = i2c_commands (get_i2c bus I2C_CTRL) a wb n"
    and P: "P = region (APB_RAM + 0x800) (length (program cs))" "words_at R (APB_RAM + 0x800) (program cs)"
    and data: "\<forall>av \<in> set data. fst av \<in> event_registers" "length data \<le> 180"
    and answer: "bus_answer att per env (bus, ucast a) wb (unat n) = ((True, rb), env')" "length rb = unat n"
  shows "\<exists>s' R'. i2c_write_data (event_data data ticks) s = (Inr (), s') \<and> board.timed att per env' R' 0 h t k s' \<and>
    e_last_read_address (fst (device (link s'))) = CTRL_EVT_APB_TIMEOUT \<and>
    R' (status_slot wb (slots 0 1 cs)) = I2C_DONE \<and>
    map (\<lambda>i. R' (APB_RAM + 0x800 + of_nat i * 4)) (data_indexes wb n (slots 0 1 cs)) = words_of_bytes rb \<and>
    (\<forall>b. b \<notin> P \<longrightarrow> b \<notin> i2c_registers \<longrightarrow> R' b = upds R (event_data data ticks) b)"
proof -
  obtain e x where ex: "device (link s) = (e, x)" by force
  let ?seq = "e_next_sequence e" and ?check = "sequence_number_checking (host s)"
  have e: "i2c_board att per env (e, x)" "R = get_reg e" using s ex by (auto simp: board.timed_def connected_def)
  then have ans: "i2c_bus_transaction e (bus, ucast a) wb (unat n) = ((True, rb), env')"
    using answer(1) by (simp add: bus_answer_board i2c_board_def)
  have words: "words_at (get_reg e) (APB_RAM + 0x800) (program cs)" using P(2) e(2) by simp
  obtain s1 reply rest where d: "board_respond EMULATOR_LATENCY BOARD_TURNS (e, x)
        (header_bytes WR_BLOCK (request_flags ?check) ?seq @ pairs_bytes (event_data data ticks)) =
        (s1, [(EMULATOR_LATENCY, Datagram reply)])" "reply_head reply ?seq RESPONSE_SUCCESS rest"
      "i2c_board att per env' s1" "e_next_sequence (fst s1) = ?seq + 1" "e_last_read_address (fst s1) = CTRL_EVT_APB_TIMEOUT"
      "get_reg (fst s1) (status_slot wb (slots 0 1 cs)) = I2C_DONE"
      "map (\<lambda>i. get_reg (fst s1) (APB_RAM + 0x800 + of_nat i * 4)) (data_indexes wb n (slots 0 1 cs)) = words_of_bytes rb"
      "\<forall>b. b \<notin> P \<longrightarrow> b \<notin> i2c_registers \<longrightarrow> get_reg (fst s1) b = upds (get_reg e) (event_data data ticks) b"
    by (rule event_message [OF e(1) size P(1) words data ans answer(2), of ?check ?seq EMULATOR_LATENCY ticks]) auto
  have al: "\<forall>b \<in> fst ` set (event_data data ticks). \<not> misaligned b"
    using data(1) board_event_memory board.effect_aligned by (fastforce simp: event_memory_def misaligned_def)
  have "\<exists>y s'. write_data_default (event_data data ticks) None True s = (Inr (True, y), s') \<and>
      connected (board_respond EMULATOR_LATENCY BOARD_TURNS) (i2c_board att per env') (get_reg \<circ> fst)
        (e_next_sequence \<circ> fst) (emu_budget \<circ> fst) (get_reg (fst s1)) 0 h s' \<and>
      device (link s') = s1 \<and> board.in_time (Some t) k (clock (link s'))"
    by (rule board.write_data_step [OF s h _ _ al]) (use data(2) d(1-4) in \<open>simp_all add: ex\<close>)
  then obtain y s' where s': "write_data_default (event_data data ticks) None True s = (Inr (True, y), s')"
      "board.st att per env' (get_reg (fst s1)) 0 h s'" "device (link s') = s1" "board.in_time (Some t) k (clock (link s'))"
    by blast
  then have "i2c_write_data (event_data data ticks) s = (Inr (), s')" by (simp add: i2c_write_data_def hbind_def)
  with s' d(5-8) show ?thesis unfolding board.timed_def e(2) by blast
qed

text \<open>
  The status is polled: its slot is not the register read last, so that the poll detection of the
  board starts afresh.
\<close>

lemma poll_status:
  assumes s: "board.timed att per env R m h t (Suc k) s"
    and a: "e_last_read_address (fst (device (link s))) \<noteq> a" "emu_readable a" and v: "R a AND bits \<noteq> 0"
  shows "\<exists>s'. poll_register a bits t s = (Inr (R a, t), s') \<and> board.timed att per env R 299 h t k s'"
proof -
  obtain e x where ex: "device (link s) = (e, x)" by force
  let ?seq = "e_next_sequence e" and ?check = "sequence_number_checking (host s)"
  let ?e = "e\<lparr>e_next_sequence := ?seq + 1, e_last_read_address := a, e_poll_count := 0\<rparr>"
  have e: "i2c_board att per env (e, x)" "R = get_reg e" using s ex by (auto simp: board.timed_def connected_def)
  then have ok: "emu_ok e" "get_reg e 0x3000280 \<noteq> I2C_BUSY" by (simp_all add: i2c_board_def controller_ready_def)
  have regs: "get_reg ?e = get_reg e" by (simp add: get_reg_def fun_eq_iff)
  have one: "deserialize_pairs 368 d = map (\<lambda>a. (a, 0)) [a]" if "d_ok d" "unread d = be_bytes 4 a" for d
    using deserialize_pairs_address [OF that, of 366] by (simp add: eval_nat_numeral)
  have handled: "handle_reads (map (\<lambda>a. (a, 0)) [a]) (e\<lparr>e_next_sequence := ?seq + 1\<rparr>) = (Inr [(a, get_reg e a)], ?e)"
    using a(1) regs ex by (simp add: detect_poll_def emu_read_def hbind_def hthen_def) (simp add: get_reg_def)
  have "\<exists>reply. emulator_respond EMULATOR_LATENCY e (header_bytes RD_DWORD (request_flags ?check) ?seq @ be_bytes 4 a) =
      (?e, [(EMULATOR_LATENCY, Datagram reply)]) \<and> reply_to reply ?seq RESPONSE_SUCCESS (pairs_bytes [(a, get_reg e a)])"
    by (rule emulator_handled_reads [OF ok(1) _ _ _ one _ _ handled]) simp_all
  then obtain reply where r: "emulator_respond EMULATOR_LATENCY e
        (header_bytes RD_DWORD (request_flags ?check) ?seq @ be_bytes 4 a) = (?e, [(EMULATOR_LATENCY, Datagram reply)])"
      "reply_to reply ?seq RESPONSE_SUCCESS (pair_bytes (a, get_reg e a))"
    by auto
  have ok': "i2c_board att per env (?e, x)"
    by (rule i2c_board_frame [OF e(1)]) (use ok regs in \<open>simp_all add: emu_ok_def\<close>)
  have d: "board_respond EMULATOR_LATENCY BOARD_TURNS (device (link s))
      (header_bytes RD_DWORD (request_flags ?check) ((e_next_sequence \<circ> fst) (device (link s))) @ be_bytes 4 a) =
      ((?e, x), [(EMULATOR_LATENCY, Datagram reply)])"
    using board_respond_settled [where s = "(e, x)" and att = att and per = per and env = env] r(1) ok' by (simp add: ex)
  have "\<exists>s'. read_uint32_to a (Some t) s = (Inr (R a, t), s') \<and>
    board.st att per env R 299 h s' \<and> board.in_time (Some t) k (clock (link s'))"
    by (rule board.read_step [where ok' = "i2c_board att per env", OF s _ d ok'])
      (use a(2) r(2) regs ex e(2) in \<open>simp_all add: emu_readable_def emu_budget_def\<close>)
  then show ?thesis using v by (auto simp: poll_register.simps [of a] board.timed_def)
qed


subsection \<open>The transaction\<close>

text \<open>The host's members afterwards, and the addresses that a transaction touches.\<close>

definition i2c_host :: "hololink \<Rightarrow> hololink" where
  "i2c_host h = cleared I2C_BUSY_EVENT (configured I2C_BUSY_EVENT True (configured SW_EVENT True h))"

definition i2c_touched :: "u32 set" where
  "i2c_touched = event_registers \<union> region (APB_RAM + 0x800) 183 \<union> i2c_registers \<union> {CTRL_EVT_SW_EVENT, CTRL_EVT_APB_TIMEOUT}"

lemma slot_plain:
  assumes "i \<in> set (slots 0 1 cs)" and "length (program cs) \<le> 183"
  shows "APB_RAM + 0x800 + of_nat i * 4 \<in> region (APB_RAM + 0x800) (length (program cs))"
    "emu_readable (APB_RAM + 0x800 + of_nat i * 4)"
    "APB_RAM + 0x800 + of_nat i * 4 \<noteq> CTRL_EVT_APB_TIMEOUT"
proof -
  obtain j where "j < length (slots 0 1 cs)" "i = slots 0 1 cs ! j" using assms(1) unfolding in_set_conv_nth by blast
  then have "i < length (program cs)" using slots_program(2) [of j cs] by simp
  then show r: "APB_RAM + 0x800 + of_nat i * 4 \<in> region (APB_RAM + 0x800) (length (program cs))"
    by (auto simp: region_def)
  show "emu_readable (APB_RAM + 0x800 + of_nat i * 4)"
    by (rule emu_plain_readable [OF software_region(1) [OF r assms(2)]])
  show "APB_RAM + 0x800 + of_nat i * 4 \<noteq> CTRL_EVT_APB_TIMEOUT"
  proof
    assume eq: "APB_RAM + 0x800 + of_nat i * 4 = CTRL_EVT_APB_TIMEOUT"
    have "0x2800 \<le> unat CTRL_EVT_APB_TIMEOUT" using software_region_high [OF r assms(2)] unfolding eq .
    then show False by simp
  qed
qed


lemma program_enabled:
  assumes s: "board.st att per env R n h s" and h: "block_enable h" "caches_agree R h"
    and q: "seq_done q = (Inr (), q')" "q_buffer q' = program cs" "q_done q'" "\<not> q_address_set q'"
    and len: "length (program cs) \<le> 183"
  obtains s1 q1 R1 where "software_sequencer_enable (s, q) = (Inr (), (s1, q1))"
    "seq_location q1 = (Inr (APB_RAM + 0x800), q1)"
    "board.st att per env R1 n (configured SW_EVENT True h) s1" "caches_agree R1 (configured SW_EVENT True h)"
    "words_at R1 (APB_RAM + 0x800) (program cs)" "\<forall>b. b \<notin> i2c_touched \<longrightarrow> R1 b = R b"
proof -
  let ?P = "region (APB_RAM + 0x800) (length (program cs))"
  have ne: "program cs \<noteq> []" by (simp add: program_def split: prod.splits)
  have plain: "board_effect (b, v) = Some [(b, v)]" if "b \<in> ?P" for b v
    by (rule plain_board_effect [OF software_region(1) [OF that len]])
      (use software_region_low [OF that len] in auto)
  have apart: "?P \<inter> event_registers = {}" using software_region(2) [OF _ len] by blast
  have "runs (\<lambda>s. board.st att per env R n h (fst s) \<and> snd s = q) (event_sequencer_enable SW_EVENT)
    (\<lambda>_ s. seq_location (snd s) = (Inr (APB_RAM + 0x800), snd s) \<and>
       (\<exists>R'. board.st att per env R' n (configured SW_EVENT True h) (fst s) \<and> caches_agree R' (configured SW_EVENT True h) \<and>
       R' (event_vector SW_EVENT) = APB_RAM + 0x800 \<and> words_at R' (APB_RAM + 0x800) (program cs) \<and>
       (\<forall>b. b \<notin> ?P \<union> event_registers \<longrightarrow> R' b = R b)))"
    by (rule board.event_sequencer_enable_rule [OF q(1,3,4,2) ne len _ board_event_memory plain apart h]) simp_all
  from runsD [OF this, of "(s, q)"] s
  obtain s1 q1 R1 where 1: "event_sequencer_enable SW_EVENT (s, q) = (Inr (), (s1, q1))"
      "seq_location q1 = (Inr (APB_RAM + 0x800), q1)" "board.st att per env R1 n (configured SW_EVENT True h) s1"
      "caches_agree R1 (configured SW_EVENT True h)" "words_at R1 (APB_RAM + 0x800) (program cs)"
      "\<forall>b. b \<notin> ?P \<union> event_registers \<longrightarrow> R1 b = R b"
    by auto
  have "?P \<subseteq> region (APB_RAM + 0x800) 183" using region_sub [of 0 "length (program cs)" 183] len by simp
  with 1(6) have "\<forall>b. b \<notin> i2c_touched \<longrightarrow> R1 b = R b" by (auto simp: i2c_touched_def)
  with 1 show thesis by (intro that [of s1 q1 R1]) (simp_all add: software_sequencer_enable_def)
qed

lemma st_budget: "board.st att per env R n h s \<Longrightarrow> m \<le> n \<Longrightarrow> board.st att per env R m h s"
  by (simp add: connected_def)

text \<open>The busy event is configured on the way: its writes travel with the one that starts the program.\<close>

lemma busy_event_data:
  assumes s: "board.st att per env R n h s"
  defines "data \<equiv> snd (configure_apb_event_data I2C_BUSY_EVENT 0 True (h, []))"
  obtains h1 where "configure_apb_event_data I2C_BUSY_EVENT 0 True (host s, []) = (h1, data)"
    "board.st att per env R n (configured I2C_BUSY_EVENT True h) (s\<lparr>host := h1\<rparr>)"
proof -
  obtain q where q: "host s = h\<lparr>hl_sequence := q\<rparr>" by (rule board.st_host [OF s])
  let ?h1 = "(configured I2C_BUSY_EVENT True h)\<lparr>hl_sequence := q\<rparr>"
  have "configure_apb_event_data I2C_BUSY_EVENT 0 True (host s, []) = (?h1, data)"
    by (rule prod_eqI) (simp_all add: q data_def configure_apb_event_data_host configure_apb_event_data_writes
        clear_apb_event_data_writes handler_of_def)
  moreover have "board.st att per env R n (configured I2C_BUSY_EVENT True h) (s\<lparr>host := ?h1\<rparr>)"
    using s q by (simp add: connected_def)
  ultimately show thesis by (rule that)
qed


text \<open>After the message: the poll, the clearing of the event, the data.\<close>

lemma i2c_collect:
  fixes n :: u32
  assumes s: "board.timed att per env R 0 h t (68 + k) s" and h: "block_enable h" "caches_agree R h"
    and last: "e_last_read_address (fst (device (link s))) = CTRL_EVT_APB_TIMEOUT"
    and len: "length (program cs) \<le> 183" and cs: "cs = i2c_commands (get_i2c bus I2C_CTRL) a wb n"
    and status: "R (status_slot wb (slots 0 1 cs)) = I2C_DONE"
    and words: "map (\<lambda>i. R (APB_RAM + 0x800 + of_nat i * 4)) (data_indexes wb n (slots 0 1 cs)) = words_of_bytes rb"
    and rb: "length rb = unat n" "unat n \<le> 0x100"
  obtains s2 s3 s1 R1 where
    "poll_register (status_slot wb (slots 0 1 cs)) I2C_DONE t s = (Inr (I2C_DONE, t), s2)"
    "clear_apb_event I2C_BUSY_EVENT s2 = (Inr (), s3)"
    "i2c_result I2C_DONE nak (APB_RAM + 0x800) (data_indexes wb n (slots 0 1 cs)) n t s3 = (Inr rb, s1)"
    "board.st att per env R1 235 (cleared I2C_BUSY_EVENT h) s1" "caches_agree R1 (cleared I2C_BUSY_EVENT h)"
    "\<forall>b. b \<notin> event_registers \<longrightarrow> R1 b = R b"
proof -
  let ?ix = "slots 0 1 cs" and ?items = "data_indexes wb n (slots 0 1 cs)"
  let ?h = "cleared I2C_BUSY_EVENT h"
  have items: "length ?items \<le> 64" "set ?items \<subseteq> set ?ix"
    using rb by (auto simp: data_indexes_def dest!: in_set_takeD in_set_dropD) (simp add: unat_div unat_word_ariths)
  have k: "length (words_of_bytes wb) + 5 < length ?ix"
    by (simp add: cs i2c_commands_def program_data_def)
  have st: "status_slot wb ?ix = APB_RAM + 0x800 + of_nat (?ix ! (length (words_of_bytes wb) + 5)) * 4"
    by (simp add: status_slot_def)
  note slot = slot_plain [OF nth_mem [OF k] len, folded st]
  have "board.timed att per env R 0 h t (Suc (67 + k)) s" using s by simp
  from poll_status [OF this, of "status_slot wb ?ix" I2C_DONE] obtain s2 where
    2: "poll_register (status_slot wb ?ix) I2C_DONE t s = (Inr (I2C_DONE, t), s2)" "board.timed att per env R 299 h t (67 + k) s2"
    using last slot(2,3) status by auto
  have "board.timed att per env R 299 h t (Suc (66 + k)) s2" using 2(2) by simp
  from runsD [OF board.clear_apb_event_timed [where e = I2C_BUSY_EVENT, OF board_event_memory h] this]
  obtain s3 R1 where 3: "clear_apb_event I2C_BUSY_EVENT s2 = (Inr (), s3)" "board.timed att per env R1 299 ?h t (66 + k) s3"
      "caches_agree R1 ?h" "\<forall>b. b \<notin> event_registers \<longrightarrow> R1 b = R b" by auto
  have tm: "board.timed att per env R1 (length ?items + 235) ?h t (length ?items + 0) s3"
    using board.timed_mono [OF 3(2)] items(1) by simp
  have "\<forall>i \<in> set ?items. emu_readable (APB_RAM + 0x800 + of_nat i * 4)"
    using slot_plain(2) [OF _ len] items(2) by blast
  from runsD [OF board.read_back_rule [OF this] tm] obtain s4 where 4: "read_back (APB_RAM + 0x800) ?items t s3 =
      (Inr (bytes_of_words (map (\<lambda>i. R1 (APB_RAM + 0x800 + of_nat i * 4)) ?items)), s4)" "board.st att per env R1 235 ?h s4"
    unfolding board.timed_def by blast
  have "map (\<lambda>i. R1 (APB_RAM + 0x800 + of_nat i * 4)) ?items = map (\<lambda>i. R (APB_RAM + 0x800 + of_nat i * 4)) ?items"
  proof (rule map_cong [OF refl])
    fix i
    assume "i \<in> set ?items"
    then have "APB_RAM + 0x800 + of_nat i * 4 \<notin> event_registers"
      using slot_plain(1) [OF _ len] items(2) software_region(2) [OF _ len] by blast
    then show "R1 (APB_RAM + 0x800 + of_nat i * 4) = R (APB_RAM + 0x800 + of_nat i * 4)" using 3(4) by blast
  qed
  then have "resize_bytes (unat n) (bytes_of_words (map (\<lambda>i. R1 (APB_RAM + 0x800 + of_nat i * 4)) ?items)) = rb"
    unfolding words using rb(1) by (simp add: resize_bytes_def bytes_of_words_of_bytes)
  then show thesis using 2(1) 3(1,3,4) 4
    by (intro that [of s2 s3 s4 R1]) (simp_all add: hbind_def i2c_result_def)
qed


text \<open>
  A transaction whose program fits a control packet, whatever the peripheral has been through: the
  driver returns what the peripheral answers, the peripheral is in its next state, and the board is
  ready for the next transaction.
\<close>

lemma i2c_transaction_board:
  fixes n :: u32
  assumes s: "board.st att per env R m h s" and h: "block_enable h" "caches_agree R h"
    and size: "i2c_sizes_ok a wb n" "length (program (i2c_commands (get_i2c bus I2C_CTRL) a wb n)) \<le> 183"
    and answer: "bus_answer att per env (bus, ucast a) wb (unat n) = ((True, rb), env')" "length rb = unat n"
  obtains s' R' where "i2c_transaction (get_i2c bus I2C_CTRL) a wb n None nak s = (Inr rb, s')"
    "board.st att per env' R' 235 (i2c_host h) s'" "caches_agree R' (i2c_host h)"
    "\<forall>b. b \<notin> i2c_touched \<longrightarrow> R' b = R b"
proof -
  define cs where "cs = i2c_commands (get_i2c bus I2C_CTRL) a wb n"
  let ?ix = "slots 0 1 cs" and ?P = "region (APB_RAM + 0x800) (length (program cs))"
  let ?h1 = "configured SW_EVENT True h" and ?h2 = "configured I2C_BUSY_EVENT True (configured SW_EVENT True h)"
  have len: "length (program cs) \<le> 183" using size(2) by (simp add: cs_def)
  obtain q q' where q: "emit_list cs new_sequencer = (Inr ?ix, q)"
      "seq_done q = (Inr (), q')" "q_buffer q' = program cs" "q_done q'" "\<not> q_address_set q'"
    by (rule assemble_list [of cs]) blast
  have enc: "encode_i2c_request (get_i2c bus I2C_CTRL) a wb n new_sequencer =
      (Inr (take (length (words_of_bytes wb)) (drop 1 ?ix), data_indexes wb n ?ix, ?ix ! (length (words_of_bytes wb) + 5)), q)"
    using encode_i2c_request_run [OF size(1) q(1) [unfolded cs_def]] by (simp add: data_indexes_def cs_def)
  obtain s1 q1 R1 where 1: "software_sequencer_enable (s, q) = (Inr (), (s1, q1))"
      "seq_location q1 = (Inr (APB_RAM + 0x800), q1)" "board.st att per env R1 m ?h1 s1" "caches_agree R1 ?h1"
      "words_at R1 (APB_RAM + 0x800) (program cs)" "\<forall>b. b \<notin> i2c_touched \<longrightarrow> R1 b = R b"
    by (rule program_enabled [OF s h q(2-5) len])
  define data where "data = snd (configure_apb_event_data I2C_BUSY_EVENT 0 True (?h1, []))"
  obtain h2 where 2: "configure_apb_event_data I2C_BUSY_EVENT 0 True (host s1, []) = (h2, data)"
      "board.st att per env R1 m ?h2 (s1\<lparr>host := h2\<rparr>)"
    unfolding data_def by (rule busy_event_data [OF 1(3)])
  have "board.in_time None 71 c" for c
    unfolding board.in_time_def by (simp add: EMULATOR_LATENCY_def DEFAULT_RETRY_NS_def)
  with 2(2) have "board.st att per env R1 m ?h2 (s1\<lparr>host := h2\<rparr>) \<and> board.in_time None 71 (clock (link (s1\<lparr>host := h2\<rparr>)))"
    by blast
  from runsD [OF board.default_timeout_rule this] obtain t s3 where
    3: "default_timeout None (s1\<lparr>host := h2\<rparr>) = (Inr t, s3)" "board.timed att per env R1 m ?h2 t (Suc (Suc 69)) s3"
    by auto
  from runsD [OF board.queue_apb_timeout_rule 3(2)] obtain ticks s4 where
    4: "queue_apb_timeout t s3 = (Inr ticks, s4)" "board.timed att per env R1 m ?h2 t (Suc 68) s4" by auto
  have data: "\<forall>av \<in> set data. fst av \<in> event_registers" "length data \<le> 180"
    using configure_apb_event_addresses length_configure_writes [of I2C_BUSY_EVENT 0 True ?h1]
    by (auto simp: data_def)
  have h2: "block_enable ?h2" using h(1) by (simp add: configured_def cleared_def Let_def)
  from i2c_write_data_message [OF 4(2) h2 size(1) len cs_def refl 1(5) data answer, of ticks]
  obtain s5 R5 where 5: "i2c_write_data (event_data data ticks) s4 = (Inr (), s5)" "board.timed att per env' R5 0 ?h2 t 68 s5"
      "e_last_read_address (fst (device (link s5))) = CTRL_EVT_APB_TIMEOUT" "R5 (status_slot wb ?ix) = I2C_DONE"
      "map (\<lambda>i. R5 (APB_RAM + 0x800 + of_nat i * 4)) (data_indexes wb n ?ix) = words_of_bytes rb"
      "\<forall>b. b \<notin> ?P \<longrightarrow> b \<notin> i2c_registers \<longrightarrow> R5 b = upds R1 (event_data data ticks) b"
    by blast
  have control: "b \<notin> ?P" "b \<notin> i2c_registers"
    if "b \<in> {CTRL_EVT_APB_INTERRUPT_EN, CTRL_EVT_RISING, CTRL_EVT_FALLING}" for b
    using that software_region(2) [OF _ len, of b] i2c_registers_high [of b] by (auto simp: event_registers_def)
  have "caches_agree (upds R1 (event_data data ticks)) ?h2"
    using caches_agree_configured [OF 1(4), of I2C_BUSY_EVENT 0 True] by (simp add: caches_agree_def data_def)
  then have agree: "caches_agree R5 ?h2" using 5(6) control by (simp add: caches_agree_def)
  have "board.timed att per env' R5 0 ?h2 t (68 + 0) s5" using 5(2) by simp
  note timed = this
  have n: "unat n \<le> 0x100" using size(1) by (simp add: i2c_sizes_ok_def word_le_nat_alt)
  obtain s6 s7 s8 R6 where
    6: "poll_register (status_slot wb ?ix) I2C_DONE t s5 = (Inr (I2C_DONE, t), s6)"
    "clear_apb_event I2C_BUSY_EVENT s6 = (Inr (), s7)"
    "i2c_result I2C_DONE nak (APB_RAM + 0x800) (data_indexes wb n ?ix) n t s7 = (Inr rb, s8)"
    "board.st att per env' R6 235 (cleared I2C_BUSY_EVENT ?h2) s8" "caches_agree R6 (cleared I2C_BUSY_EVENT ?h2)"
    "\<forall>b. b \<notin> event_registers \<longrightarrow> R6 b = R5 b"
    by (rule i2c_collect [OF timed h2 agree 5(3) len cs_def 5(4,5) answer(2) n])
  have "i2c_transaction (get_i2c bus I2C_CTRL) a wb n None nak s = (Inr rb, s8)"
    using 1(1,2) 2(1) 3(1) 4(1) 5(1) 6(1-3)
    by (simp add: i2c_transaction_def with_object_def i2c_request_def enc on_obj_def on_hsb_def hthen_def hbind_def
        set_host_def status_slot_def)
  moreover have "R6 b = R b" if "b \<notin> i2c_touched" for b
  proof -
    have "b \<notin> ?P" using that region_sub [of 0 "length (program cs)" 183] len by (auto simp: i2c_touched_def)
    moreover have "b \<notin> fst ` set (event_data data ticks)" using that data(1) by (auto simp: i2c_touched_def)
    ultimately show ?thesis using that 1(6) 5(6) 6(6) upds_other [of b "event_data data ticks" R1]
      by (simp add: i2c_touched_def)
  qed
  ultimately show thesis using 6(4,5) by (intro that [of s8 R6]) (auto simp: i2c_host_def)
qed

end
