(* ===== verification/Csi_Converter.thy ===== *)
theory Csi_Converter
  imports Packetizer Data_Channel
begin

text \<open>
  The interface \<open>CsiConverter\<close> (src/src/hololink/core/csi_controller.hpp) between a camera driver
  and the operator that interprets the received frames, with the frame geometry of the two
  operators \<open>CsiToBayerOp\<close> and \<open>PackedFormatConverterOp\<close>
  (src/src/hololink/operators). Their GPU kernels are not modelled.
\<close>

subsection \<open>The interface\<close>

text \<open>\<open>BayerFormat\<close>\<close>

datatype bayer_format = BGGR | RGGB | GBRG | GRBG

text \<open>The three questions that a camera driver asks, and what it tells the operator in return.\<close>

record csi_converter =
  receiver_start_byte :: u32
  received_line_bytes :: "u32 \<Rightarrow> hsb_error + u32"
  transmitted_line_bytes :: "pixel_format \<Rightarrow> u32 \<Rightarrow> u32"

record csi_geometry =
  start_byte :: u32
  bytes_per_line :: u32
  pixel_width :: u32
  pixel_height :: u32
  csi_pixel_format :: pixel_format
  trailing_bytes :: u32

subsection \<open>\<open>CsiToBayerOp\<close>\<close>

text \<open>\<open>hololink::core::round_up\<close> works on \<open>size_t\<close>; the result is cut to 32 bits.\<close>

definition csi_to_bayer_received_line_bytes :: "u32 \<Rightarrow> hsb_error + u32" where
  "csi_to_bayer_received_line_bytes n = ebind (core_round_up (ucast n) 8) (\<lambda>r. Inr (ucast r))"

definition csi_to_bayer_transmitted_line_bytes :: "pixel_format \<Rightarrow> u32 \<Rightarrow> u32" where
  "csi_to_bayer_transmitted_line_bytes f w =
     (case f of RAW_8 \<Rightarrow> w | RAW_10 \<Rightarrow> w * 5 div 4 | RAW_12 \<Rightarrow> w * 3 div 2)"

definition csi_to_bayer :: csi_converter where
  "csi_to_bayer =
     \<lparr>receiver_start_byte = 0, received_line_bytes = csi_to_bayer_received_line_bytes,
      transmitted_line_bytes = csi_to_bayer_transmitted_line_bytes\<rparr>"

text \<open>
  The members that \<open>configure\<close> computes: the sums and products are of \<open>uint32_t\<close>. The value of the
  argument \<open>sub_frame_rows\<close> is looked up in the operator's arguments.
\<close>

definition csi_to_bayer_csi_length :: "csi_geometry \<Rightarrow> u64" where
  "csi_to_bayer_csi_length g = ucast (start_byte g + bytes_per_line g * pixel_height g + trailing_bytes g)"

definition csi_to_bayer_frame_size :: "u32 \<Rightarrow> csi_geometry \<Rightarrow> u64" where
  "csi_to_bayer_frame_size sub_frame_rows g =
     (if sub_frame_rows \<noteq> 0 then ucast (bytes_per_line g * sub_frame_rows) else csi_to_bayer_csi_length g)"

text \<open>\<open>get_csi_length\<close> and \<open>get_sub_frame_size\<close> ask that \<open>configure\<close> has been called.\<close>

definition csi_to_bayer_get_csi_length :: "csi_geometry option \<Rightarrow> hsb_error + u64" where
  "csi_to_bayer_get_csi_length geometry =
     (case geometry of
        None \<Rightarrow> Inl (Runtime_error ''CsiToBayerOp is not configured.'')
      | Some g \<Rightarrow> Inr (csi_to_bayer_csi_length g))"

definition csi_to_bayer_get_sub_frame_size :: "u32 \<Rightarrow> csi_geometry option \<Rightarrow> hsb_error + u64" where
  "csi_to_bayer_get_sub_frame_size sub_frame_rows geometry =
     (case geometry of
        None \<Rightarrow> Inl (Runtime_error ''CsiToBayerOp is not configured.'')
      | Some g \<Rightarrow> Inr (csi_to_bayer_frame_size sub_frame_rows g))"

subsection \<open>\<open>PackedFormatConverterOp\<close>\<close>

definition packed_received_line_bytes :: "u32 \<Rightarrow> hsb_error + u32" where
  "packed_received_line_bytes n = ebind (core_round_up (ucast n) 64) (\<lambda>r. Inr (ucast r))"

definition packed_transmitted_line_bytes :: "pixel_format \<Rightarrow> u32 \<Rightarrow> u32" where
  "packed_transmitted_line_bytes f w =
     (case f of RAW_8 \<Rightarrow> w | RAW_10 \<Rightarrow> ((w + 2) div 3) * 4 | RAW_12 \<Rightarrow> ((w + 1) div 2) * 3)"

definition packed_format_converter :: csi_converter where
  "packed_format_converter =
     \<lparr>receiver_start_byte = 0, received_line_bytes = packed_received_line_bytes,
      transmitted_line_bytes = packed_transmitted_line_bytes\<rparr>"

definition packed_frame_size :: "csi_geometry \<Rightarrow> u64" where
  "packed_frame_size g = ucast (start_byte g + bytes_per_line g * pixel_height g + trailing_bytes g)"

subsection \<open>Line sizes\<close>

lemma round_up_line:
  fixes n :: u32 and k :: u64
  assumes k: "k = 8 \<or> k = 64"
  obtains r where "core_round_up (ucast n) k = Inr r" "unat r = (unat n + (unat k - 1)) div unat k * unat k"
proof -
  let ?v = "ucast n :: u64"
  have l: "unat n < 2 ^ 32" by (rule unat_u32)
  then have n: "unat ?v = unat n" by (simp add: unsigned_ucast_eq take_bit_nat_eq_self)
  have s: "unat (?v + k - 1) = unat n + (unat k - 1)"
  proof -
    have one: "unat (k - 1) = unat k - 1" using k by auto
    have "unat (?v + (k - 1)) = unat n + (unat k - 1)"
      using k l unfolding unat_word_ariths n one by auto
    then show ?thesis by (simp add: add_diff_eq)
  qed
  have "(unat n + (unat k - 1)) div unat k * unat k < 2 ^ 64"
    by (rule le_less_trans [OF div_times_less_eq_dividend]) (use k l in auto)
  then have "unat ((?v + k - 1) div k * k) = (unat n + (unat k - 1)) div unat k * unat k"
    by (simp only: unat_word_ariths(2) unat_div s) simp
  moreover have "core_round_up ?v k = Inr ((?v + k - 1) div k * k)"
    using k by (auto simp: core_round_up_def)
  ultimately show thesis by (rule that [rotated])
qed

end
