(* ===== verification/Vb1940_Emulator.thy ===== *)
theory Vb1940_Emulator
  imports HSB_Prelude
begin

text \<open>
  The emulated camera, the class \<open>Vb1940Emulator\<close>
  (src/src/hololink/emulation/sensors/vb1940_emulator.cpp): a memory of 64 KiB behind an I2C
  peripheral, four registers whose writes drive the system and boot state machines, and the
  frame geometry that the configured registers mean.
\<close>

subsection \<open>State\<close>

datatype i2c_status =
    I2C_STATUS_SUCCESS
  | I2C_STATUS_BUSY
  | I2C_STATUS_WRITE_FAILED
  | I2C_STATUS_READ_FAILED
  | I2C_STATUS_MESSAGE_NOT_UNDERSTOOD
  | I2C_STATUS_TIMEOUT
  | I2C_STATUS_NACK
  | I2C_STATUS_BUFFER_SIZE_SMALL
  | I2C_STATUS_BUFFER_SIZE_LARGE
  | I2C_STATUS_INVALID_PERIPHERAL_ADDRESS
  | I2C_STATUS_INVALID_REGISTER_ADDRESS
  | I2C_STATUS_FATAL_ERROR

record vb1940 =
  vb_memory :: "u16 \<Rightarrow> u8"

abbreviation "VB1940_MEMORY_SIZE \<equiv> 65536 :: nat"
abbreviation (input) "CAM_I2C_ADDRESS \<equiv> 0x10 :: u16"

definition VB1940_I2C_ADDRESSES :: "u16 list" where
  "VB1940_I2C_ADDRESSES = [CAM_I2C_ADDRESS, 0x21, 0x51, 0x70, 0x71]"

abbreviation (input) "SYSTEM_FSM_STATE_REG \<equiv> 0x0044 :: u16"
abbreviation (input) "BOOT_FSM_REG \<equiv> 0x0200 :: u16"
abbreviation (input) "SYSTEM_UP_REG \<equiv> 0x0514 :: u16"
abbreviation (input) "BOOT_REG \<equiv> 0x0515 :: u16"
abbreviation (input) "SW_STBY_REG \<equiv> 0x0516 :: u16"
abbreviation (input) "STREAMING_REG \<equiv> 0x0517 :: u16"

text \<open>The values of \<open>SystemFsmState\<close> and \<open>BootFsmState\<close> that the code uses.\<close>

abbreviation (input) "FSM_SYSTEM_UP \<equiv> 0x1 :: u8"
abbreviation (input) "FSM_BOOT \<equiv> 0x2 :: u8"
abbreviation (input) "FSM_SW_STBY \<equiv> 0x3 :: u8"
abbreviation (input) "FSM_STREAMING \<equiv> 0x4 :: u8"
abbreviation (input) "BOOT_COLD_BOOT \<equiv> 0x01 :: u8"
abbreviation (input) "BOOT_WAIT_CERTIFICATE \<equiv> 0x22 :: u8"
abbreviation (input) "BOOT_FWP_SETUP \<equiv> 0x60 :: u8"
abbreviation (input) "BOOT_WAITING_CMD \<equiv> 0x80 :: u8"
abbreviation (input) "BOOT_COMPLETED \<equiv> 0xBC :: u8"

definition vb_set :: "u16 \<Rightarrow> u8 \<Rightarrow> vb1940 \<Rightarrow> vb1940" where
  "vb_set a v c = c\<lparr>vb_memory := (vb_memory c)(a := v)\<rparr>"

definition vb_reset :: "vb1940 \<Rightarrow> vb1940" where
  "vb_reset c =
     vb_set BOOT_REG 0 (vb_set SYSTEM_UP_REG 0 (vb_set STREAMING_REG 0 (vb_set SW_STBY_REG 0
       (vb_set BOOT_FSM_REG BOOT_COLD_BOOT (vb_set SYSTEM_FSM_STATE_REG FSM_SYSTEM_UP c)))))"

text \<open>The constructor: the device id is in the first four bytes.\<close>

definition new_vb1940 :: vb1940 where
  "new_vb1940 =
     vb_set 3 0x53 (vb_set 2 0x39 (vb_set 1 0x34 (vb_set 0 0x30 (vb_reset \<lparr>vb_memory = (\<lambda>_. 0)\<rparr>))))"

subsection \<open>Transactions\<close>

text \<open>\<open>is_write\<close>: more bytes than the register address.\<close>

definition is_write :: "bytes \<Rightarrow> bool" where
  "is_write write_bytes \<longleftrightarrow> 2 < length write_bytes"

datatype vb_callback = System_up_reg | Boot_reg | Sw_stby_reg | Streaming_reg

definition VB1940_CALLBACK_REGISTERS :: "u16 list" where
  "VB1940_CALLBACK_REGISTERS = [SYSTEM_UP_REG, BOOT_REG, SW_STBY_REG, STREAMING_REG]"

definition VB1940_CALLBACK_MAP :: "vb_callback option list" where
  "VB1940_CALLBACK_MAP = [Some System_up_reg, Some Boot_reg, Some Sw_stby_reg, Some Streaming_reg, None]"

fun callback_index :: "u16 list \<Rightarrow> u16 \<Rightarrow> nat" where
  "callback_index [] reg_addr = 0"
| "callback_index (r # rs) reg_addr = (if r \<noteq> reg_addr then Suc (callback_index rs reg_addr) else 0)"

definition get_callback :: "u16 \<Rightarrow> vb_callback option" where
  "get_callback reg_addr = VB1940_CALLBACK_MAP ! callback_index VB1940_CALLBACK_REGISTERS reg_addr"

text \<open>Each callback gives the bytes read and the new state; all of them succeed.\<close>

definition system_up_reg :: "bytes \<Rightarrow> bytes \<Rightarrow> vb1940 \<Rightarrow> bytes \<times> vb1940" where
  "system_up_reg write_bytes read_bytes c =
     (read_bytes,
      if is_write write_bytes \<and> write_bytes ! 2 = 0x01
      then vb_set BOOT_FSM_REG BOOT_WAIT_CERTIFICATE (vb_set SYSTEM_FSM_STATE_REG FSM_BOOT (vb_reset c))
      else c)"

definition boot_reg :: "bytes \<Rightarrow> bytes \<Rightarrow> vb1940 \<Rightarrow> bytes \<times> vb1940" where
  "boot_reg write_bytes read_bytes c =
     (read_bytes,
      if is_write write_bytes then
        (if write_bytes ! 2 = 0x01 then vb_set BOOT_FSM_REG BOOT_WAITING_CMD c
         else if write_bytes ! 2 = 0x02 then vb_set BOOT_FSM_REG BOOT_FWP_SETUP c
         else if write_bytes ! 2 = 0x10 then
           vb_set SYSTEM_FSM_STATE_REG FSM_SW_STBY (vb_set BOOT_FSM_REG BOOT_COMPLETED c)
         else c)
      else c)"

definition sw_stby_reg :: "bytes \<Rightarrow> bytes \<Rightarrow> vb1940 \<Rightarrow> bytes \<times> vb1940" where
  "sw_stby_reg write_bytes read_bytes c =
     (if is_write write_bytes then
        (read_bytes, if write_bytes ! 2 = 0x01 then vb_set SYSTEM_FSM_STATE_REG FSM_STREAMING c else c)
      else (if 0 < length read_bytes then read_bytes[0 := vb_memory c SW_STBY_REG] else read_bytes, c))"

definition streaming_reg :: "bytes \<Rightarrow> bytes \<Rightarrow> vb1940 \<Rightarrow> bytes \<times> vb1940" where
  "streaming_reg write_bytes read_bytes c =
     (if is_write write_bytes then
        (read_bytes, if write_bytes ! 2 = 0x01 then vb_set SYSTEM_FSM_STATE_REG FSM_SW_STBY c else c)
      else (if 0 < length read_bytes then read_bytes[0 := vb_memory c STREAMING_REG] else read_bytes, c))"

definition run_callback :: "vb_callback \<Rightarrow> bytes \<Rightarrow> bytes \<Rightarrow> vb1940 \<Rightarrow> bytes \<times> vb1940" where
  "run_callback cb =
     (case cb of System_up_reg \<Rightarrow> system_up_reg | Boot_reg \<Rightarrow> boot_reg
      | Sw_stby_reg \<Rightarrow> sw_stby_reg | Streaming_reg \<Rightarrow> streaming_reg)"

text \<open>\<open>memcpy\<close> into and out of the memory; the bounds are those of the code's tests.\<close>

definition vb_store :: "u16 \<Rightarrow> bytes \<Rightarrow> vb1940 \<Rightarrow> vb1940" where
  "vb_store reg_addr bs c =
     c\<lparr>vb_memory := (\<lambda>a. if unat reg_addr \<le> unat a \<and> unat a < unat reg_addr + length bs
                      then bs ! (unat a - unat reg_addr) else vb_memory c a)\<rparr>"

definition vb_load :: "u16 \<Rightarrow> nat \<Rightarrow> vb1940 \<Rightarrow> bytes" where
  "vb_load reg_addr n c = map (\<lambda>i. vb_memory c (reg_addr + of_nat i)) [0..<n]"

definition vb1940_i2c_transaction ::
  "u16 \<Rightarrow> bytes \<Rightarrow> bytes \<Rightarrow> vb1940 \<Rightarrow> (i2c_status \<times> bytes) \<times> vb1940"
where
  "vb1940_i2c_transaction peripheral_address write_bytes read_bytes c =
     (if length write_bytes < 2 then ((I2C_STATUS_INVALID_REGISTER_ADDRESS, read_bytes), c)
      else
        (let reg_addr = ucast (write_bytes ! 1) OR push_bit 8 (ucast (write_bytes ! 0)) in
         if peripheral_address \<noteq> CAM_I2C_ADDRESS then ((I2C_STATUS_SUCCESS, read_bytes), c)
         else
           (case get_callback reg_addr of
              Some cb \<Rightarrow> (let (rb, c') = run_callback cb write_bytes read_bytes c in ((I2C_STATUS_SUCCESS, rb), c'))
            | None \<Rightarrow>
                if is_write write_bytes then
                  (if VB1940_MEMORY_SIZE + 2 < unat reg_addr + length write_bytes
                   then ((I2C_STATUS_WRITE_FAILED, read_bytes), c)
                   else ((I2C_STATUS_SUCCESS, read_bytes), vb_store reg_addr (drop 2 write_bytes) c))
                else
                  (if VB1940_MEMORY_SIZE - unat reg_addr < length read_bytes
                   then ((I2C_STATUS_READ_FAILED, read_bytes), c)
                   else ((I2C_STATUS_SUCCESS, vb_load reg_addr (length read_bytes) c), c)))))"

subsection \<open>What the registers mean\<close>

definition is_streaming :: "vb1940 \<Rightarrow> bool" where
  "is_streaming c \<longleftrightarrow> vb_memory c SYSTEM_FSM_STATE_REG = FSM_STREAMING"

definition get_pixel_width :: "vb1940 \<Rightarrow> u16" where
  "get_pixel_width c = ucast (vb_memory c 0x91A) OR push_bit 8 (ucast (vb_memory c 0x91B))"

definition get_pixel_height :: "vb1940 \<Rightarrow> u16" where
  "get_pixel_height c = ucast (vb_memory c 0x91C) OR push_bit 8 (ucast (vb_memory c 0x91D))"

definition get_pixel_bits :: "vb1940 \<Rightarrow> u8" where
  "get_pixel_bits c =
     (if vb_memory c 0x91E = 0x2B then 10 else if vb_memory c 0x91E = 0x2A then 8 else 0)"

text \<open>
  Whole lines of pixels, padded to 8 bytes; the result is cut to 16 bits, which the assertion
  before it excludes.
\<close>

definition line_width_bits :: "vb1940 \<Rightarrow> u32" where
  "line_width_bits c = ucast (get_pixel_width c) * ucast (get_pixel_bits c)"

definition line_width_assertion :: "vb1940 \<Rightarrow> bool" where
  "line_width_assertion c \<longleftrightarrow> line_width_bits c \<le> 8 * 65535 - 56"

definition get_bytes_per_line :: "vb1940 \<Rightarrow> u16" where
  "get_bytes_per_line c = ucast ((line_width_bits c + 63) div 64 * 8)"

definition get_image_start_byte :: "vb1940 \<Rightarrow> u16" where
  "get_image_start_byte c = get_bytes_per_line c"

definition get_csi_length :: "vb1940 \<Rightarrow> u32" where
  "get_csi_length c =
     (let line_width_bytes = get_bytes_per_line c;
          trailing = ucast line_width_bytes * 2;
          leading = ucast (get_image_start_byte c)
      in leading + ucast (get_pixel_height c) * ucast line_width_bytes + trailing)"

subsection \<open>Accesses one by one\<close>

lemma vb_memory_set [simp]: "vb_memory (vb_set a v c) = (vb_memory c)(a := v)"
  by (simp add: vb_set_def)

lemma get_callback_simps:
  "get_callback SYSTEM_UP_REG = Some System_up_reg" "get_callback BOOT_REG = Some Boot_reg"
  "get_callback SW_STBY_REG = Some Sw_stby_reg" "get_callback STREAMING_REG = Some Streaming_reg"
  by (simp_all add: get_callback_def VB1940_CALLBACK_MAP_def VB1940_CALLBACK_REGISTERS_def)

lemma get_callback_None: "a \<notin> set VB1940_CALLBACK_REGISTERS \<Longrightarrow> get_callback a = None"
  by (simp add: get_callback_def VB1940_CALLBACK_MAP_def VB1940_CALLBACK_REGISTERS_def)

lemma register_address:
  fixes a :: u16
  shows "ucast (byte_at 0 a) OR push_bit 8 (ucast (byte_at 8 a)) = a"
proof (rule bit_word_eqI)
  fix n
  assume "n < LENGTH(16)"
  then show "bit (ucast (byte_at 0 a) OR push_bit 8 (ucast (byte_at 8 a)) :: u16) n = bit a n"
    by (cases "n < 8") (auto simp: byte_at_def and_ff_take_bit bit_simps)
qed

lemma be_bytes_2: "be_bytes 2 a = [byte_at 8 a, byte_at 0 a]"
  by (simp add: numeral_2_eq_2)

text \<open>Plain memory.\<close>

lemma vb_read:
  assumes "a \<notin> set VB1940_CALLBACK_REGISTERS" and "unat a + n \<le> VB1940_MEMORY_SIZE"
  shows "vb1940_i2c_transaction CAM_I2C_ADDRESS (be_bytes 2 a) (replicate n 0) c =
    ((I2C_STATUS_SUCCESS, vb_load a n c), c)"
  using assms by (simp add: vb1940_i2c_transaction_def be_bytes_2 Let_def register_address get_callback_None is_write_def)

lemma vb_write:
  assumes "a \<notin> set VB1940_CALLBACK_REGISTERS" and "bs \<noteq> []" and "unat a + length bs \<le> VB1940_MEMORY_SIZE"
  shows "vb1940_i2c_transaction CAM_I2C_ADDRESS (be_bytes 2 a @ bs) rb c = ((I2C_STATUS_SUCCESS, rb), vb_store a bs c)"
  using assms by (simp add: vb1940_i2c_transaction_def be_bytes_2 Let_def register_address get_callback_None is_write_def)

text \<open>The four registers of the state machines.\<close>

lemma vb_callback:
  assumes "get_callback a = Some cb"
  shows "vb1940_i2c_transaction CAM_I2C_ADDRESS (be_bytes 2 a @ bs) rb c =
    (let (rb', c') = run_callback cb (be_bytes 2 a @ bs) rb c in ((I2C_STATUS_SUCCESS, rb'), c'))"
  using assms by (simp add: vb1940_i2c_transaction_def be_bytes_2 Let_def register_address)

lemmas vb_control = vb_callback get_callback_simps run_callback_def system_up_reg_def boot_reg_def sw_stby_reg_def
  streaming_reg_def is_write_def nth_append

lemma vb_store_one: "vb_store a [v] c = vb_set a v c"
  by (auto simp: vb_store_def vb_set_def fun_eq_iff word_unat_eq_iff)

lemma vb_store_other:
  "unat b < unat a \<or> unat a + length bs \<le> unat b \<Longrightarrow> vb_memory (vb_store a bs c) b = vb_memory c b"
  by (auto simp: vb_store_def)

lemma vb_store_at:
  "unat a \<le> unat b \<Longrightarrow> unat b < unat a + length bs \<Longrightarrow> vb_memory (vb_store a bs c) b = bs ! (unat b - unat a)"
  by (simp add: vb_store_def)

text \<open>Other addresses of the camera module accept everything.\<close>

lemma vb_module:
  "a \<noteq> CAM_I2C_ADDRESS \<Longrightarrow> 2 \<le> length wb \<Longrightarrow> vb1940_i2c_transaction a wb rb c = ((I2C_STATUS_SUCCESS, rb), c)"
  by (simp add: vb1940_i2c_transaction_def Let_def)

end
