(* ===== verification/Camera_Host.thy ===== *)
theory Camera_Host
  imports I2c_Transaction Synchronizer Csi_Converter Vb1940_Emulator
begin

text \<open>
  What a camera driver stands on: the class \<open>CameraSensor\<close>
  (src/src/hololink/sensors/camera/camera_sensor.cpp, camera_mode.hpp), and the contract of the
  host with an I2C bus, a clock and a synchronizer, as the locale \<open>camera_host\<close>, which the
  library on the emulated board keeps.
\<close>

subsection \<open>Programs that may not return\<close>

text \<open>A method with a loop that only the device can end: \<open>None\<close> is that it never returns.\<close>

type_synonym ('s, 'a) pm = "'s \<Rightarrow> ((hsb_error + 'a) \<times> 's) option"

definition plift :: "('s, 'a) hm \<Rightarrow> ('s, 'a) pm" where
  "plift m s = Some (m s)"

definition pbind :: "('s, 'a) pm \<Rightarrow> ('a \<Rightarrow> ('s, 'b) pm) \<Rightarrow> ('s, 'b) pm" where
  "pbind m f s =
     (case m s of
        None \<Rightarrow> None
      | Some (Inl e, s') \<Rightarrow> Some (Inl e, s')
      | Some (Inr x, s') \<Rightarrow> f x s')"

definition pthen :: "('s, 'a) pm \<Rightarrow> ('s, 'b) pm \<Rightarrow> ('s, 'b) pm" where
  "pthen m k = pbind m (\<lambda>_. k)"

definition pon_hsb :: "('b, 'a) pm \<Rightarrow> ('b \<times> 'q, 'a) pm" where
  "pon_hsb m s = (case m (fst s) of None \<Rightarrow> None | Some (r, b) \<Rightarrow> Some (r, (b, snd s)))"

text \<open>From the states \<open>P\<close> the method returns a value, in a state of \<open>Q\<close>.\<close>

definition returns :: "('s \<Rightarrow> bool) \<Rightarrow> ('s, 'a) pm \<Rightarrow> ('a \<Rightarrow> 's \<Rightarrow> bool) \<Rightarrow> bool" where
  "returns P m Q \<longleftrightarrow> (\<forall>s. P s \<longrightarrow> (\<exists>x s'. m s = Some (Inr x, s') \<and> Q x s'))"

lemma returnsD: "returns P m Q \<Longrightarrow> P s \<Longrightarrow> \<exists>x s'. m s = Some (Inr x, s') \<and> Q x s'"
  by (simp add: returns_def)

lemma returns_plift: "runs P m Q \<Longrightarrow> returns P (plift m) Q"
  by (simp add: returns_def runs_def plift_def)

lemma returns_pbind: "returns P m R \<Longrightarrow> (\<And>x. returns (R x) (f x) Q) \<Longrightarrow> returns P (pbind m f) Q"
  by (fastforce simp: returns_def pbind_def)

lemma returns_pthen: "returns P m (\<lambda>_. R) \<Longrightarrow> returns R k Q \<Longrightarrow> returns P (pthen m k) Q"
  unfolding pthen_def by (rule returns_pbind)

lemma returns_pbind_val: "returns P m (\<lambda>v s. v = x \<and> P' s) \<Longrightarrow> returns P' (f x) Q \<Longrightarrow> returns P (pbind m f) Q"
  by (fastforce simp: returns_def pbind_def)

lemma returns_conseq:
  "returns P' m Q' \<Longrightarrow> (\<And>s. P s \<Longrightarrow> P' s) \<Longrightarrow> (\<And>x s. Q' x s \<Longrightarrow> Q x s) \<Longrightarrow> returns P m Q"
  unfolding returns_def by blast

lemma returns_pon_hsb:
  "returns P m Q \<Longrightarrow> returns (\<lambda>s. P (fst s) \<and> snd s = u) (pon_hsb m) (\<lambda>r s. Q r (fst s) \<and> snd s = u)"
  by (fastforce simp: returns_def pon_hsb_def)

lemma runs_on_fst:
  "runs P m Q \<Longrightarrow> runs (\<lambda>s. P (fst s) \<and> snd s = u) (on_hsb m) (\<lambda>r s. Q r (fst s) \<and> snd s = u)"
  by (fastforce simp: runs_def on_hsb_def split: prod.splits)

subsection \<open>\<open>CameraSensor\<close>\<close>

text \<open>The frame rates of the drivers are whole numbers.\<close>

record camera_frame_format =
  ff_mode_id :: int
  ff_mode_name :: string
  ff_width :: int
  ff_height :: int
  ff_frame_rate :: int
  ff_pixel_format :: pixel_format

record camera_sensor =
  cs_supported_modes :: "int list"
  cs_frame_formats :: "int \<rightharpoonup> camera_frame_format"
  cs_mode :: "int option"
  cs_width :: int
  cs_height :: int
  cs_pixel_format :: pixel_format
  cs_bayer_format :: bayer_format

text \<open>The members that the constructor leaves unset are arguments.\<close>

definition new_camera_sensor :: "pixel_format \<Rightarrow> bayer_format \<Rightarrow> camera_sensor" where
  "new_camera_sensor pf bf =
     \<lparr>cs_supported_modes = [], cs_frame_formats = Map.empty, cs_mode = None, cs_width = 0, cs_height = 0,
      cs_pixel_format = pf, cs_bayer_format = bf\<rparr>"

definition get_mode :: "camera_sensor \<Rightarrow> int" where
  "get_mode c = (case cs_mode c of None \<Rightarrow> -1 | Some mode \<Rightarrow> mode)"

definition set_base_mode :: "int \<Rightarrow> (camera_sensor, unit) hm" where
  "set_base_mode mode = hmodify (\<lambda>c. c\<lparr>cs_mode := Some mode\<rparr>)"

definition configure_base_converter :: "csi_converter \<Rightarrow> (camera_sensor, csi_geometry) hm" where
  "configure_base_converter converter =
     hthrow (Runtime_error ''configure_converter is not implemented for CameraSensor'')"

text \<open>What the two drivers do with a mode: its format gives the members.\<close>

definition use_frame_format :: "int \<Rightarrow> bayer_format \<Rightarrow> camera_frame_format \<Rightarrow> camera_sensor \<Rightarrow> camera_sensor" where
  "use_frame_format mode bayer ff c =
     c\<lparr>cs_mode := Some mode, cs_width := ff_width ff, cs_height := ff_height ff,
       cs_pixel_format := ff_pixel_format ff, cs_bayer_format := bayer\<rparr>"


subsection \<open>The clock of the board\<close>

text \<open>The clock of the board and its camera power (\<open>Hololink::setup_clock\<close>).\<close>

definition BL_I2C_BUS :: u32 where "BL_I2C_BUS = 0"

definition write_renesas :: "i2c \<Rightarrow> bytes \<Rightarrow> ('d hsb, unit) hm" where
  "write_renesas i data = hthen (i2c_transaction i 0x09 data 0 None False) (hret ())"

definition setup_clock :: "bytes list \<Rightarrow> ('d hsb, unit) hm" where
  "setup_clock clock_profile =
     (let i = get_i2c BL_I2C_BUS I2C_CTRL in
      hseq ([hthen (set_i2c_clock i) (hret ()), sleep_ms 100] @
        map (write_renesas i) clock_profile @
        [sleep_ms 100, hthen (write_uint32 0x8 0x30) (hret ()), sleep_ms 100,
         hthen (write_uint32 0x8 0x03) (hret ()), sleep_ms 100, hthen (set_i2c_clock i) (hret ())]))"

text \<open>How the drivers keep exposure and gain in their range.\<close>

definition clamp :: "int \<Rightarrow> int \<Rightarrow> int \<Rightarrow> int" where
  "clamp low high v = (if v < low then low else if high < v then high else v)"

lemma byte_8: "byte_at 0 (v :: u8) = v" "be_bytes 1 v = [v]"
  by (simp_all add: byte_at_def and_ff_take_bit take_bit_word_eq_self)

subsection \<open>The host of a driver\<close>

text \<open>
  What a driver relies on. In a session the peripheral is in state \<open>c\<close> and the synchronizer is \<open>y\<close>;
  \<open>answer\<close> is what the peripheral makes of a transaction, \<open>None\<close> when it refuses. A transaction
  whose program fits a control packet returns the answer; waiting changes nothing; the synchronizer
  keeps its pulses in step with its peers.
\<close>

definition transaction_fits :: "u32 \<Rightarrow> bytes \<Rightarrow> u32 \<Rightarrow> bool" where
  "transaction_fits a wb n \<longleftrightarrow>
     a \<le> 0x7F \<and> length wb \<le> 0x100 \<and> n \<le> 0x100 \<and> (length wb + 3) div 4 + unat ((n + 3) div 4) \<le> 80"

locale camera_host =
  fixes session :: "'c \<Rightarrow> synchronizer \<Rightarrow> 'd hsb \<Rightarrow> bool"
    and controller :: i2c
    and answer :: "'c \<Rightarrow> u32 \<Rightarrow> bytes \<Rightarrow> nat \<Rightarrow> (bytes \<times> 'c) option"
  assumes transaction: "\<lbrakk>session c y s; transaction_fits a wb n; answer c a wb (unat n) = Some (rb, c')\<rbrakk> \<Longrightarrow>
      \<exists>s'. i2c_transaction controller a wb n None nak s = (Inr rb, s') \<and> session c' y s'"
    and waiting: "session c y s \<Longrightarrow> session c y (snd (sleep_ms ms s))"
    and attaching: "\<lbrakk>session c y s; peer \<notin> set (sy_peers y)\<rbrakk> \<Longrightarrow>
      \<exists>s' y'. sync_attach peer (s, y) = (Inr (), (s', y')) \<and> session c y' s' \<and>
        sy_peers y' = sy_peers y @ [peer] \<and> sync_is_enabled y' = sync_is_enabled y"
    and detaching: "session c y s \<Longrightarrow>
      \<exists>s' y'. sync_detach peer (s, y) = (Inr (), (s', y')) \<and> session c y' s' \<and>
        sy_peers y' = remove1 peer (sy_peers y) \<and> sync_is_enabled y' = sync_is_enabled y"
begin

lemma transaction_rule:
  "transaction_fits a wb n \<Longrightarrow> answer c a wb (unat n) = Some (rb, c') \<Longrightarrow>
   runs (session c y) (i2c_transaction controller a wb n None nak) (\<lambda>v s. v = rb \<and> session c' y s)"
  by (rule runsI) (auto dest: transaction [of c y _ a wb n rb c' nak])

lemma sleep_rule: "runs (session c y) (sleep_ms ms) (\<lambda>_. session c y)"
  by (rule runsI) (use waiting in \<open>auto simp: sleep_ms_run\<close>)

end

subsection \<open>The library on the emulated board\<close>

text \<open>
  The registers on the board are unspecified, but the host's caches agree with them and the pulses
  follow the peers; the board is at rest, its threads wait for work.
\<close>

definition board_connected_i2c ::
  "(u32 \<times> u16) list \<Rightarrow> ('p \<Rightarrow> u32 \<times> u16 \<Rightarrow> bytes \<Rightarrow> bytes \<Rightarrow> (bool \<times> bytes) \<times> 'p) \<Rightarrow> 'p \<Rightarrow>
   (u32 \<Rightarrow> u32) \<Rightarrow> nat \<Rightarrow> hololink \<Rightarrow> 'p board hsb \<Rightarrow> bool"
where
  "board_connected_i2c att per env R n h s \<longleftrightarrow>
     connected (board_respond EMULATOR_LATENCY BOARD_TURNS) (i2c_board att per env) (get_reg \<circ> fst)
       (e_next_sequence \<circ> fst) (emu_budget \<circ> fst) R n h s \<and> block_enable h \<and> caches_agree R h"

definition board_session ::
  "(u32 \<times> u16) list \<Rightarrow> ('p \<Rightarrow> u32 \<times> u16 \<Rightarrow> bytes \<Rightarrow> bytes \<Rightarrow> (bool \<times> bytes) \<times> 'p) \<Rightarrow> 'p \<Rightarrow> synchronizer \<Rightarrow>
   'p board hsb \<Rightarrow> bool"
where
  "board_session att per env y s \<longleftrightarrow> (\<exists>R h. board_connected_i2c att per env R 0 h s \<and> pulses_follow R y)"

definition board_answer ::
  "(u32 \<times> u16) list \<Rightarrow> ('p \<Rightarrow> u32 \<times> u16 \<Rightarrow> bytes \<Rightarrow> bytes \<Rightarrow> (bool \<times> bytes) \<times> 'p) \<Rightarrow> u32 \<Rightarrow> 'p \<Rightarrow> u32 \<Rightarrow> bytes \<Rightarrow> nat \<Rightarrow>
   (bytes \<times> 'p) option"
where
  "board_answer att per bus env a wb n =
     (case bus_answer att per env (bus, ucast a) wb n of
        ((ok, rb), env') \<Rightarrow> if ok \<and> length rb = n then Some (rb, env') else None)"

lemma fits_program:
  assumes "transaction_fits a wb n"
  shows "i2c_sizes_ok a wb n" "length (program (i2c_commands i a wb n)) \<le> 183"
proof -
  have "3 + 2 * (7 + x + y) + (7 + x + y) div 16 \<le> 183" if "x + y \<le> 80" for x y :: nat
  proof -
    have "(7 + x + y) div 16 \<le> 87 div 16" by (rule div_le_mono) (use that in simp)
    with that show ?thesis by simp
  qed
  then show "length (program (i2c_commands i a wb n)) \<le> 183"
    using assms by (simp add: transaction_fits_def length_i2c_program Let_def)
qed (use assms in \<open>simp add: transaction_fits_def i2c_sizes_ok_def\<close>)

lemma touched_low:
  assumes "b \<in> i2c_touched"
  shows "unat b < 0x70000000"
proof -
  have "unat b < 0x70000000" if "b \<in> event_registers" using event_registers_low [OF that] by simp
  moreover have "unat b < 0x70000000" if "b \<in> region (APB_RAM + 0x800) 183" using software_region_low [OF that] by simp
  moreover have "unat b < 0x70000000" if "b \<in> i2c_registers"
    using that buffer_region(1) [of b 64] by (auto simp: i2c_registers_def region_def unat_word_ariths unat_of_nat_u32)
  ultimately show ?thesis using assms by (auto simp: i2c_touched_def)
qed

lemma vsync_registers_board:
  assumes "a \<in> vsync_registers"
  shows "a \<notin> i2c_touched" "board_effect (a, v) = Some [(a, v)]" "a \<notin> event_registers"
proof -
  have "0x70000000 \<le> unat a" "emu_plain a"
    using assms by (auto simp: vsync_registers_def intro: emu_plainI)
  then show "a \<notin> i2c_touched" "board_effect (a, v) = Some [(a, v)]" "a \<notin> event_registers"
    using touched_low [of a] event_registers_low [of a] by (force intro: plain_board_effect)+
qed

lemma transaction_connected:
  assumes "board_connected_i2c att per env R m h s" and "transaction_fits a wb n"
    and "bus_answer att per env (bus, ucast a) wb (unat n) = ((True, rb), env')" "length rb = unat n"
  shows "\<exists>s' R'. i2c_transaction (get_i2c bus I2C_CTRL) a wb n None nak s = (Inr rb, s') \<and>
    board_connected_i2c att per env' R' 235 (i2c_host h) s' \<and> (\<forall>b. b \<notin> i2c_touched \<longrightarrow> R' b = R b)"
proof -
  have c: "board.st att per env R m h s" "block_enable h" "caches_agree R h"
    using assms(1) by (simp_all add: board_connected_i2c_def)
  obtain s' R' where r: "i2c_transaction (get_i2c bus I2C_CTRL) a wb n None nak s = (Inr rb, s')"
      "board.st att per env' R' 235 (i2c_host h) s'" "caches_agree R' (i2c_host h)" "\<forall>b. b \<notin> i2c_touched \<longrightarrow> R' b = R b"
    by (rule i2c_transaction_board [OF c fits_program [OF assms(2)] assms(3,4)])
  moreover have "block_enable (i2c_host h)"
    using c(2) by (simp add: i2c_host_def configured_def cleared_def Let_def)
  ultimately show ?thesis by (auto simp: board_connected_i2c_def)
qed


lemma pulses_follow_cong:
  "pulses_follow R y \<Longrightarrow> (\<And>a. a \<in> vsync_registers \<Longrightarrow> R' a = R a) \<Longrightarrow> pulses_follow R' y"
  by (simp add: pulses_follow_def vsync_registers_def)

lemma caches_agree_cong:
  "caches_agree R h \<Longrightarrow> (\<And>a. a \<in> event_registers \<Longrightarrow> R' a = R a) \<Longrightarrow> caches_agree R' h"
  by (simp add: caches_agree_def event_registers_def)

lemma session_sync_step:
  assumes "board_session att per env y s" and "attach \<longrightarrow> peer \<notin> set (sy_peers y)"
  shows "\<exists>s' y'. sync_step attach peer (s, y) = (Inr (), (s', y')) \<and> board_session att per env y' s' \<and>
    sy_peers y' = (if attach then sy_peers y @ [peer] else remove1 peer (sy_peers y)) \<and>
    sync_is_enabled y' = sync_is_enabled y"
proof -
  obtain R h where c: "board.st att per env R 0 h s" "block_enable h" "caches_agree R h" "pulses_follow R y"
    using assms(1) by (auto simp: board_session_def board_connected_i2c_def)
  have latency: "EMULATOR_LATENCY \<le> 90000000" by (simp add: EMULATOR_LATENCY_def)
  have "\<forall>a \<in> vsync_registers. \<forall>v. board_effect (a, v) = Some [(a, v)]"
    using vsync_registers_board(2) by blast
  from register_device.sync_step_run [OF board_device [OF latency] this c(1,4) assms(2)]
  obtain s' y' R' where r: "sync_step attach peer (s, y) = (Inr (), (s', y'))" "board.st att per env R' 0 h s'"
      "pulses_follow R' y'" "sy_peers y' = (if attach then sy_peers y @ [peer] else remove1 peer (sy_peers y))"
      "\<forall>a. a \<notin> vsync_registers \<longrightarrow> R' a = R a" "sy_pps y' = None \<longleftrightarrow> sy_pps y = None"
    by (elim exE conjE) (rule that)
  have "caches_agree R' h"
    by (rule caches_agree_cong [OF c(3)]) (use r(5) vsync_registers_board(3) in blast)
  with r c(2) show ?thesis by (auto simp: board_session_def board_connected_i2c_def sync_is_enabled_def)
qed

text \<open>The library keeps the contract, whatever peripherals are on the board.\<close>

interpretation board_camera: camera_host "board_session att per" "get_i2c bus I2C_CTRL" "board_answer att per bus"
  for att per bus
proof (unfold_locales, goal_cases)
  case (1 c y s a wb n rb c' nak)
  then obtain R h where c: "board_connected_i2c att per c R 0 h s" "pulses_follow R y" by (auto simp: board_session_def)
  have "bus_answer att per c (bus, ucast a) wb (unat n) = ((True, rb), c')" "length rb = unat n"
    using 1(3) by (auto simp: board_answer_def split: prod.splits if_splits)
  from transaction_connected [OF c(1) 1(2) this, of nak] obtain s' R' where
    r: "i2c_transaction (get_i2c bus I2C_CTRL) a wb n None nak s = (Inr rb, s')"
      "board_connected_i2c att per c' R' 235 (i2c_host h) s'" "\<forall>b. b \<notin> i2c_touched \<longrightarrow> R' b = R b"
    by blast
  have "pulses_follow R' y"
    by (rule pulses_follow_cong [OF c(2)]) (use r(3) vsync_registers_board(1) in blast)
  moreover have "board_connected_i2c att per c' R' 0 (i2c_host h) s'"
    using r(2) by (simp add: board_connected_i2c_def connected_def)
  ultimately show ?case using r(1) by (auto simp: board_session_def)
next
  case (2 c y s ms)
  then show ?case by (auto simp: board_session_def board_connected_i2c_def connected_def sleep_ms_run at_rest_def)
next
  case (3 c y s peer)
  then show ?case using session_sync_step [of att per c y s True peer] by (simp add: sync_step_def)
next
  case (4 c y s peer)
  then show ?case using session_sync_step [of att per c y s False peer] by (simp add: sync_step_def)
qed

subsection \<open>The initial state of the instances\<close>

text \<open>A board just switched on with peripherals on its I2C buses, and the host made by its constructor.\<close>

definition fresh_i2c_board ::
  "(u32 \<times> u16) list \<Rightarrow> ('p \<Rightarrow> u32 \<times> u16 \<Rightarrow> bytes \<Rightarrow> bytes \<Rightarrow> (bool \<times> bytes) \<times> 'p) \<Rightarrow> 'p \<Rightarrow> 'p board hsb"
where
  "fresh_i2c_board att per env =
     \<lparr>host = new_hololink True False True True,
      link = \<lparr>clock = 0, lags = [], inflight = [],
        device = ((new_emulator 0x2602 env per)\<lparr>i2c_attached := att\<rparr>, None),
        respond = board_respond EMULATOR_LATENCY BOARD_TURNS, peer_valid = True, send_faults = []\<rparr>\<rparr>"

lemma fresh_i2c_board_connected:
  assumes "n \<le> 299"
  shows "board_connected_i2c att per env initial_registers n initial_host (fresh_i2c_board att per env)"
proof -
  have "get_reg ((new_emulator 0x2602 env per)\<lparr>i2c_attached := att\<rparr>) = initial_registers"
    by (simp add: get_reg_def [abs_def] new_emulator_def rm_new_def rm_read_def fun_eq_iff)
  then show ?thesis using assms
    by (simp add: board_connected_i2c_def connected_def fresh_i2c_board_def at_rest_def i2c_board_def emu_ok_def
        controller_ready_def threads_wait_def emu_budget_def new_hololink_def caches_agree_def)
      (simp add: new_emulator_def)
qed

lemma fresh_session:
  assumes "sy_peers y = []" and "\<forall>p. sy_pps y = Some p \<longrightarrow> \<not> pps_active p"
  shows "board_session att per env y (fresh_i2c_board att per env)"
proof -
  have "pulses_follow initial_registers y" using assms by (auto simp: pulses_follow_def)
  then show ?thesis using fresh_i2c_board_connected [of 0 att per env] unfolding board_session_def by blast
qed

end
