(* ===== verification/Vb1940_Modes.thy ===== *)
theory Vb1940_Modes
  imports HSB_Prelude
begin

text \<open>
  The register tables of the VB1940 camera (src/src/hololink/sensors/camera/vb1940/vb1940_mode.cpp,
  vb1940_mode.hpp) and the profile of its clock (renesas_bajoran_lite_ts2.hpp). The certificate,
  the firmware and the patches are parameters of the driver's model: only their lengths matter to
  the code.
\<close>

text \<open>A pair with this register is not written: it says how many milliseconds to wait.\<close>

definition TABLE_WAIT_MS :: u16 where "TABLE_WAIT_MS = 0xFFFF"

definition VB1940_WAIT_MS :: u8 where "VB1940_WAIT_MS = 0x0A"

definition VB1940_WAIT_MS_START :: u8 where "VB1940_WAIT_MS_START = 0x64"

definition VB1940_START_SEQUENCE :: "(u16 \<times> u8) list" where
  "VB1940_START_SEQUENCE =
     [(0x516, 0x01), (TABLE_WAIT_MS, VB1940_WAIT_MS_START)]"

definition VB1940_STOP_SEQUENCE :: "(u16 \<times> u8) list" where
  "VB1940_STOP_SEQUENCE =
     [(0x517, 0x01), (TABLE_WAIT_MS, VB1940_WAIT_MS)]"

definition VB1940_MODE_2560X1984_30FPS_SEQUENCE :: "(u16 \<times> u8) list" where
  "VB1940_MODE_2560X1984_30FPS_SEQUENCE =
     [(0x738, 0x80), (0x739, 0x82), (0x73A, 0xF9), (0x73B, 0x21), (0x916, 0x00),
      (0x917, 0x00), (0x918, 0x00), (0x919, 0x00), (0x91A, 0x00), (0x91B, 0x0A),
      (0x91C, 0xC0), (0x91D, 0x07), (0x91E, 0x2B), (0xAC6, 0x00), (0xAD4, 0x05),
      (0xAD6, 0x00), (0xAD7, 0x00), (0xADC, 0x01), (0xADD, 0x00), (0xADE, 0x00),
      (0xADF, 0x00), (0xAE0, 0x00), (0xAE1, 0x00), (0xAE2, 0x00), (0xAE3, 0x00),
      (0xAE4, 0x00), (0x934, 0x48), (0x935, 0x2B), (0x937, 0x00), (0xB88, 0x06),
      (0xB8E, 0x68), (0xB8F, 0x04), (0xB8C, 0x00), (0xB90, 0x02), (0xB91, 0x30),
      (0xCA1, 0x00), (0xCA2, 0xF4), (0xCA3, 0x01)]"

definition VB1940_MODE_1920X1080_30FPS_SEQUENCE :: "(u16 \<times> u8) list" where
  "VB1940_MODE_1920X1080_30FPS_SEQUENCE =
     [(0x738, 0x80), (0x739, 0x82), (0x73A, 0xF9), (0x73B, 0x21), (0x916, 0x40),
      (0x917, 0x01), (0x918, 0xC4), (0x919, 0x01), (0x91A, 0x80), (0x91B, 0x07),
      (0x91C, 0x38), (0x91D, 0x04), (0x91E, 0x2B), (0xAC6, 0x00), (0xAD4, 0x05),
      (0xAD6, 0x00), (0xAD7, 0x00), (0xADC, 0x01), (0xADD, 0x00), (0xADE, 0x00),
      (0xADF, 0x00), (0xAE0, 0x00), (0xAE1, 0x00), (0xAE2, 0x00), (0xAE3, 0x00),
      (0xAE4, 0x00), (0x934, 0x48), (0x935, 0x2B), (0x937, 0x00), (0xB88, 0x06),
      (0xB8E, 0x68), (0xB8F, 0x04), (0xB8C, 0x00), (0xB90, 0x02), (0xB91, 0x30),
      (0xCA1, 0x00), (0xCA2, 0xF4), (0xCA3, 0x01)]"

definition VB1940_MODE_2560X1984_30FPS_8BIT_SEQUENCE :: "(u16 \<times> u8) list" where
  "VB1940_MODE_2560X1984_30FPS_8BIT_SEQUENCE =
     [(0x738, 0x80), (0x739, 0x82), (0x73A, 0xF9), (0x73B, 0x21), (0x916, 0x00),
      (0x917, 0x00), (0x918, 0x00), (0x919, 0x00), (0x91A, 0x00), (0x91B, 0x0A),
      (0x91C, 0xC0), (0x91D, 0x07), (0x91E, 0x2A), (0xAC6, 0x00), (0xAD4, 0x05),
      (0xAD6, 0x00), (0xAD7, 0x00), (0xADC, 0x01), (0xADD, 0x00), (0xADE, 0x00),
      (0xADF, 0x00), (0xAE0, 0x00), (0xAE1, 0x00), (0xAE2, 0x00), (0xAE3, 0x00),
      (0xAE4, 0x00), (0x934, 0x48), (0x935, 0x2B), (0x937, 0x00), (0xB88, 0x05),
      (0xB8E, 0x68), (0xB8F, 0x04), (0xB8C, 0x00), (0xB90, 0x02), (0xB91, 0x30),
      (0xCA1, 0x00), (0xCA2, 0xF4), (0xCA3, 0x01)]"

definition VB1940_MODE_2560X1984_60FPS_SEQUENCE :: "(u16 \<times> u8) list" where
  "VB1940_MODE_2560X1984_60FPS_SEQUENCE =
     [(0x738, 0x00), (0x739, 0x05), (0x73A, 0xF3), (0x73B, 0x43), (0x916, 0x00),
      (0x917, 0x00), (0x918, 0x00), (0x919, 0x00), (0x91A, 0x00), (0x91B, 0x0A),
      (0x91C, 0xC0), (0x91D, 0x07), (0x91E, 0x2B), (0xAC6, 0x00), (0xAD4, 0x05),
      (0xAD6, 0x00), (0xAD7, 0x00), (0xADC, 0x01), (0xADD, 0x00), (0xADE, 0x00),
      (0xADF, 0x00), (0xAE0, 0x00), (0xAE1, 0x00), (0xAE2, 0x00), (0xAE3, 0x00),
      (0xAE4, 0x00), (0x934, 0x50), (0x935, 0x10), (0x937, 0x00), (0xB88, 0x06),
      (0xB8E, 0xCC), (0xB8F, 0x05), (0xB8C, 0x00), (0xB90, 0x02), (0xB91, 0x30),
      (0xCA1, 0x00), (0xCA2, 0xF4), (0xCA3, 0x01)]"

definition RENESAS_TS2_CONFIGURATION :: "bytes list" where
  "RENESAS_TS2_CONFIGURATION =
     [[0xFC, 0x00, 0x00, 0x00, 0x00],
      [0x00, 0x33, 0x10, 0x4A, 0x20, 0x32, 0x02, 0x00, 0x00, 0x04, 0x00, 0x30, 0x00, 0x00, 0x00, 0x00, 0x00],
      [0x10, 0x00, 0x00, 0x19, 0x9A, 0x00, 0x00, 0x00, 0x00, 0x00, 0x00, 0x00, 0xF0, 0x00, 0x00, 0x00, 0x00],
      [0x20, 0x00, 0x00, 0x00, 0x00, 0x00, 0x00, 0x00, 0x00, 0x00, 0x00, 0x00, 0x00, 0x00, 0x00, 0x00, 0x00],
      [0x30, 0x03, 0x01, 0x00, 0x00, 0x01, 0x00, 0x00, 0x00, 0x00, 0x00, 0x00, 0x00, 0x00, 0x00, 0x00, 0x00],
      [0x40, 0x03, 0x01, 0x00, 0x00, 0x01, 0x00, 0x00, 0x00, 0x00, 0x00, 0x00, 0x00, 0x00, 0x00, 0x00, 0x00],
      [0x50, 0x03, 0x01, 0x00, 0x00, 0x01, 0x00, 0x00, 0x00, 0x00, 0x00, 0x00, 0x00, 0x00, 0x00, 0x00, 0x00],
      [0x60, 0x01, 0x01, 0x00, 0x00, 0x00, 0x00, 0x10, 0x00, 0x00, 0x00, 0x00, 0x00, 0x00, 0x00, 0x00, 0x00],
      [0x70, 0x00, 0x00, 0x00, 0x00, 0x00, 0x00, 0x00, 0x00, 0x00, 0x00, 0x00, 0x00, 0x00, 0x00, 0x00, 0x00],
      [0x80, 0x01, 0x01, 0x00, 0x00, 0x00, 0x00, 0x10, 0x00, 0x00, 0x00, 0x00, 0x00, 0x00, 0x00, 0x00, 0x00],
      [0x90, 0x00, 0x00, 0x00, 0x00, 0x00, 0x00, 0x00, 0x00, 0x00, 0x00, 0x00, 0x00, 0x00, 0x00, 0x00, 0x00],
      [0xA0, 0x82, 0x80, 0x36],
      [0xA4, 0x00, 0x38, 0x42, 0x5B, 0x10, 0x11, 0x00, 0x00, 0xFF, 0xFF, 0xFF, 0x1F, 0x00, 0x00, 0x00, 0x00],
      [0xB4, 0x00, 0x00, 0x00, 0x00, 0x00, 0x00, 0x80, 0x00, 0x00, 0x00, 0x00, 0x00, 0x90, 0x01, 0x00, 0x00],
      [0xC4, 0x00, 0x00, 0x00, 0x00, 0x00, 0x00, 0x00, 0x00, 0x55, 0x01, 0xFF, 0x00, 0x1F, 0x00, 0x00, 0x00],
      [0xD4, 0x00, 0x00, 0x00, 0x00, 0x00, 0x00, 0x00, 0x00, 0x01, 0x00, 0x00, 0x00, 0x4A, 0x1E, 0x01, 0x81],
      [0xE4, 0x22, 0x00, 0x5C, 0x8F, 0x00, 0x00, 0x04, 0x00, 0x00, 0x00, 0x00, 0x00, 0x0B, 0x01, 0x00, 0x00],
      [0xF6, 0x00, 0x00, 0x0D, 0x4D, 0x01, 0x00, 0x00, 0x00, 0x00, 0x00],
      [0xFC, 0x00, 0x01, 0x00, 0x00],
      [0x00, 0x69, 0x00, 0x0B, 0x6C, 0xB4, 0x03, 0x00, 0x00, 0x84, 0x81, 0x08, 0x66, 0xB4, 0x03, 0x00, 0x00],
      [0x10, 0x69, 0x00, 0x0B, 0x6C, 0xB4, 0x03, 0x00, 0x00, 0x69, 0x00, 0x0B, 0x6C, 0xB4, 0x03, 0x00, 0x00],
      [0x20, 0x00, 0x00, 0x70, 0x00, 0x00, 0x00, 0x70, 0x00, 0x00, 0x00, 0x00, 0x00, 0x00, 0x00, 0x00, 0x00],
      [0x30, 0x10, 0x2F, 0x00, 0x02, 0x00, 0x02, 0x00, 0x00, 0x00, 0x00, 0x00, 0x00, 0x00, 0x00, 0x00, 0x00],
      [0x40, 0x21, 0x06, 0x44, 0x09],
      [0x45, 0x00, 0x00, 0x00, 0x00, 0x00, 0x00, 0x00, 0x00, 0x00, 0x00, 0x00, 0x00, 0x00, 0x00, 0x00, 0x61],
      [0x55, 0x00, 0x00, 0x05, 0x77, 0x00, 0x04, 0xB7, 0x06, 0x1F, 0x45, 0x0F, 0x04, 0x00, 0x00, 0x7A, 0x80],
      [0x65, 0x01, 0x88, 0x00, 0x00, 0x00, 0x00, 0x25, 0x01, 0x00, 0x01, 0x09, 0x00, 0x00, 0x00, 0x00, 0x00],
      [0x75, 0x00, 0x00, 0x00, 0x00, 0x00, 0x00, 0x00, 0x00, 0x00, 0x00, 0x00, 0x00, 0x00, 0x00, 0x00, 0x00],
      [0x85, 0x00, 0x00, 0x00, 0x00, 0x00, 0x00, 0x00, 0x00, 0x00, 0x00, 0x00, 0x00, 0x00, 0x00, 0x00, 0x00],
      [0x95, 0x00, 0x00, 0x00, 0x00, 0x00, 0x00, 0x00, 0x00, 0x00, 0x00, 0x00, 0x2C, 0x3B, 0x00, 0x77, 0x70],
      [0xA5, 0x80, 0x01, 0x00, 0x00, 0x08, 0x00, 0x00, 0x00, 0x00, 0x00, 0x00, 0x00, 0x00, 0x00, 0x00, 0xF0],
      [0xB5, 0x00, 0xD0, 0x03, 0x00, 0x00, 0x00, 0x00, 0xBA, 0x00, 0x00, 0x00, 0x1A, 0xA6, 0x0F, 0x47, 0x24],
      [0xC5, 0x00, 0x24, 0x00, 0x00, 0x11, 0x20, 0x12, 0x0B, 0x10, 0x02, 0x30, 0x00, 0x00, 0x00, 0x00, 0x00],
      [0xD5, 0x00, 0x00, 0x00, 0x00, 0x00, 0x00, 0x00, 0x00, 0x00, 0x00, 0x00],
      [0x62, 0x00, 0x7A],
      [0x62, 0x00, 0x7A],
      [0x62, 0x00, 0x7A],
      [0x62, 0x00, 0x7A],
      [0x62, 0x80, 0x7A],
      [0x62, 0x00, 0x7A],
      [0xFC, 0x00, 0x00, 0x00, 0x00],
      [0x0A, 0x30],
      [0x0A, 0x32],
      [0x0A, 0x30],
      [0xFC, 0x00, 0x01, 0x00, 0x00],
      [0x44, 0x01],
      [0xFC, 0x00, 0x00, 0x00, 0x00]]"

end
