(* ===== verification/Vb1940_Sensor.thy ===== *)
theory Vb1940_Sensor
  imports Camera_Host Vb1940_Modes
begin

text \<open>
  The driver \<open>NativeVb1940Sensor\<close>
  (src/src/hololink/sensors/camera/vb1940/native_vb1940_sensor.cpp): registers over I2C, the boot
  sequence, modes, start and stop, exposure and gain, the geometry told to the converter, and the
  EEPROM of the camera module. The loops that wait for a state without a limit are partial
  functions. The log is left out; the messages of the exceptions are kept without their numbers.
\<close>

subsection \<open>State\<close>

text \<open>The driver's state is the host, the synchronizer and the members of \<open>CameraSensor\<close>.\<close>

type_synonym 'd driver = "('d hsb \<times> synchronizer) \<times> camera_sensor"

text \<open>The blobs of \<open>vb1940_mode.cpp\<close>; each is written from its start address on.\<close>

record vb1940_blobs =
  vb1940_certificate :: bytes
  vb1940_fw :: bytes
  ldec_ram_content :: bytes
  rd_ram_seq_1_content :: bytes
  gt_ram_pat_content :: bytes
  gt_ram_seq_1_content :: bytes
  gt_ram_seq_2_content :: bytes
  gt_ram_seq_3_content :: bytes
  gt_ram_seq_4_content :: bytes
  rd_ram_pat_content :: bytes

definition VB1940_VERSION :: u32 where "VB1940_VERSION = 1"

definition VB1940_I2C_ADDRESS :: u32 where "VB1940_I2C_ADDRESS = 0x10"

definition EEPROM_I2C_ADDRESS :: u32 where "EEPROM_I2C_ADDRESS = 0x51"

definition EEPROM_MAX_PAGE_NUM :: u32 where "EEPROM_MAX_PAGE_NUM = 256"

definition EEPROM_PAGE_SIZE :: u32 where "EEPROM_PAGE_SIZE = 64"

definition CALIB_SIZE :: u32 where "CALIB_SIZE = 256"

definition VB1940_PAGE_SIZE :: u32 where "VB1940_PAGE_SIZE = 128"

definition REG_AG :: u16 where "REG_AG = 0x0CA1"

definition REG_EXP :: u16 where "REG_EXP = 0x0CA2"

subsection \<open>Registers\<close>

text \<open>
  A serializer over a buffer of the size of what is appended gives just the bytes appended
  (\<open>Wire_Codec\<close>). The write of a register reads no byte back.
\<close>

definition get_register :: "i2c \<Rightarrow> u16 \<Rightarrow> ('d hsb, u8) hm" where
  "get_register i reg =
     hbind (i2c_transaction i VB1940_I2C_ADDRESS (be_bytes 2 reg) 1 None False) (\<lambda>reply.
       case next_uint8 (new_deserializer reply (length reply)) of
         None \<Rightarrow> hthrow (Runtime_error ''Failed to read register value'')
       | Some (v, _) \<Rightarrow> hret v)"

definition get_register_32 :: "i2c \<Rightarrow> u16 \<Rightarrow> ('d hsb, u32) hm" where
  "get_register_32 i reg =
     hbind (i2c_transaction i VB1940_I2C_ADDRESS (be_bytes 2 reg) 4 None False) (\<lambda>reply.
       case next_uint32_be (new_deserializer reply (length reply)) of
         None \<Rightarrow> hthrow (Runtime_error ''Failed to read register value'')
       | Some (v, _) \<Rightarrow> hret v)"

definition set_register_8 :: "i2c \<Rightarrow> u16 \<Rightarrow> u8 \<Rightarrow> timeout option \<Rightarrow> ('d hsb, unit) hm" where
  "set_register_8 i reg v timeout =
     hthen (i2c_transaction i VB1940_I2C_ADDRESS (be_bytes 2 reg @ be_bytes 1 v) 0 timeout False) (hret ())"

definition set_register_16 :: "i2c \<Rightarrow> u16 \<Rightarrow> u16 \<Rightarrow> timeout option \<Rightarrow> ('d hsb, unit) hm" where
  "set_register_16 i reg v timeout =
     hthen (i2c_transaction i VB1940_I2C_ADDRESS (be_bytes 2 reg @ be_bytes 2 v) 0 timeout False) (hret ())"

definition set_register_32 :: "i2c \<Rightarrow> u16 \<Rightarrow> u32 \<Rightarrow> timeout option \<Rightarrow> ('d hsb, unit) hm" where
  "set_register_32 i reg v timeout =
     hthen (i2c_transaction i VB1940_I2C_ADDRESS (be_bytes 2 reg @ be_bytes 4 v) 0 timeout False) (hret ())"

definition set_register_buffer :: "i2c \<Rightarrow> u16 \<Rightarrow> bytes \<Rightarrow> timeout option \<Rightarrow> ('d hsb, unit) hm" where
  "set_register_buffer i reg data_buffer timeout =
     hthen (i2c_transaction i VB1940_I2C_ADDRESS (be_bytes 2 reg @ data_buffer) 0 timeout False) (hret ())"

definition get_device_id :: "i2c \<Rightarrow> ('d hsb, u32) hm" where
  "get_device_id i = get_register_32 i 0x0004"

text \<open>
  Pages of 128 bytes: the loop over \<open>id\<close> from 0 to \<open>page_count\<close>. Sizes are cut to 32 bits, register
  addresses to 16.
\<close>

definition page_register :: "u32 \<Rightarrow> nat \<Rightarrow> u16" where
  "page_register start_addr page = ucast (start_addr + of_nat page * VB1940_PAGE_SIZE)"

definition page_bytes :: "bytes \<Rightarrow> nat \<Rightarrow> bytes" where
  "page_bytes data page =
     (let data_size = of_nat (length data) :: u32; offset = of_nat page * VB1940_PAGE_SIZE
      in take (unat (min (data_size - offset) VB1940_PAGE_SIZE)) (drop (unat offset) data))"

definition page_count :: "bytes \<Rightarrow> nat" where
  "page_count data = unat ((of_nat (length data) + VB1940_PAGE_SIZE - 1) div VB1940_PAGE_SIZE)"

definition write_page :: "i2c \<Rightarrow> u32 \<Rightarrow> bytes \<Rightarrow> nat \<Rightarrow> ('d hsb, unit) hm" where
  "write_page i start_addr data page =
     hwhen (page_bytes data page \<noteq> [])
       (set_register_buffer i (page_register start_addr page) (page_bytes data page) None)"

definition write_data_in_pages :: "i2c \<Rightarrow> u32 \<Rightarrow> bytes \<Rightarrow> ('d hsb, unit) hm" where
  "write_data_in_pages i start_addr data =
     (if data = [] then hret ()
      else hseq (map (write_page i start_addr data) [0..<page_count data]))"

definition write_certificate :: "i2c \<Rightarrow> vb1940_blobs \<Rightarrow> ('d hsb, unit) hm" where
  "write_certificate i b = write_data_in_pages i 0x1AA8 (vb1940_certificate b)"

definition write_fw :: "i2c \<Rightarrow> vb1940_blobs \<Rightarrow> ('d hsb, unit) hm" where
  "write_fw i b = write_data_in_pages i 0x2000 (vb1940_fw b)"

definition vt_patch :: "vb1940_blobs \<Rightarrow> (u32 \<times> bytes) list" where
  "vt_patch b =
     [(0x2000, ldec_ram_content b), (0x5000, rd_ram_seq_1_content b), (0x5BC0, gt_ram_pat_content b),
      (0x5E40, gt_ram_seq_1_content b), (0x5F80, gt_ram_seq_2_content b), (0x60C0, gt_ram_seq_3_content b),
      (0x6160, gt_ram_seq_4_content b), (0x6AC0, rd_ram_pat_content b)]"

definition write_vt_patch :: "i2c \<Rightarrow> vb1940_blobs \<Rightarrow> ('d hsb, unit) hm" where
  "write_vt_patch i b = hseq (map (\<lambda>(a, data). write_data_in_pages i a data) (vt_patch b))"

subsection \<open>Waiting for a state\<close>

text \<open>\<open>while (true)\<close>: sleep for 10 ms, read, until the value is there.\<close>

partial_function (option) wait_register :: "i2c \<Rightarrow> u16 \<Rightarrow> u8 \<Rightarrow> 'd hsb \<Rightarrow> ((hsb_error + unit) \<times> 'd hsb) option" where
  [code]: "wait_register i reg v s =
     (case hthen (sleep_ms 10) (get_register i reg) s of
        (Inl e, s') \<Rightarrow> Some (Inl e, s')
      | (Inr ret, s') \<Rightarrow> if ret = v then Some (Inr (), s') else wait_register i reg v s')"

text \<open>The loops of \<open>start\<close> and \<open>stop\<close> give up silently after 30 readings.\<close>

fun wait_at_most :: "nat \<Rightarrow> i2c \<Rightarrow> u16 \<Rightarrow> (u8 \<Rightarrow> bool) \<Rightarrow> ('d hsb, unit) hm" where
  "wait_at_most 0 i reg stop = hret ()"
| "wait_at_most (Suc k) i reg stop =
     hthen (sleep_ms (unat VB1940_WAIT_MS_START)) (hbind (get_register i reg) (\<lambda>ret.
       if stop ret then hret () else wait_at_most k i reg stop))"

text \<open>The first loop of \<open>status_check\<close>: the 30th reading throws, whatever it is.\<close>

function await_system_up :: "i2c \<Rightarrow> nat \<Rightarrow> ('d hsb, unit) hm" where
  "await_system_up i count =
     hthen (sleep_ms 10) (hbind (get_register i SYSTEM_FSM_STATE_REG) (\<lambda>ret.
       if 30 \<le> count + 1 then hthrow (Runtime_error ''Incorrect system fsm state. Please reconnect camera'')
       else if ret = FSM_SYSTEM_UP then hret ()
       else await_system_up i (count + 1)))"
  by pat_completeness auto

termination
  by (relation "measure (\<lambda>(i, count). 30 - count)") auto

declare await_system_up.simps [simp del]

subsection \<open>Boot\<close>

definition status_check :: "i2c \<Rightarrow> ('d hsb, unit) pm" where
  "status_check i =
     pthen (plift (hseq [await_system_up i 0, sleep_ms 10, set_register_8 i SYSTEM_UP_REG 0x01 None, sleep_ms 10]))
    (pthen (wait_register i SYSTEM_FSM_STATE_REG FSM_BOOT)
    (pthen (plift (sleep_ms 10))
           (wait_register i BOOT_FSM_REG BOOT_WAIT_CERTIFICATE)))"

definition do_secure_boot :: "i2c \<Rightarrow> vb1940_blobs \<Rightarrow> ('d hsb, unit) pm" where
  "do_secure_boot i b =
     pthen (plift (hthen (write_certificate i b) (set_register_8 i BOOT_REG 0x01 None)))
    (pthen (wait_register i BOOT_FSM_REG BOOT_WAITING_CMD)
    (pthen (plift (hthen (write_fw i b) (set_register_8 i BOOT_REG 0x02 None)))
    (pthen (wait_register i BOOT_FSM_REG BOOT_FWP_SETUP)
           (plift (set_register_8 i BOOT_REG 0x10 None)))))"

text \<open>From the start of the sensor to its patches.\<close>

definition boot_sensor :: "i2c \<Rightarrow> vb1940_blobs \<Rightarrow> ('d hsb, unit) pm" where
  "boot_sensor i b =
     pthen (status_check i)
    (pthen (plift (hthen (sleep_ms 10) (set_register_8 i SYSTEM_UP_REG 0x01 None)))
    (pthen (wait_register i SYSTEM_FSM_STATE_REG FSM_BOOT)
    (pthen (wait_register i BOOT_FSM_REG BOOT_WAIT_CERTIFICATE)
    (pthen (do_secure_boot i b)
           (plift (hthen (sleep_ms 10)
                  (hbind (get_register i SYSTEM_FSM_STATE_REG) (\<lambda>_.
                   hthen (sleep_ms 10)
                  (hbind (get_register i SYSTEM_FSM_STATE_REG) (\<lambda>_.
                   write_vt_patch i b))))))))))"

subsection \<open>Modes\<close>

definition vb1940_frame_format :: "int \<Rightarrow> camera_frame_format option" where
  "vb1940_frame_format mode =
     (if mode = 0 then Some \<lparr>ff_mode_id = 0, ff_mode_name = ''VB1940_MODE_2560X1984_30FPS'',
         ff_width = 2560, ff_height = 1984, ff_frame_rate = 30, ff_pixel_format = RAW_10\<rparr>
      else if mode = 1 then Some \<lparr>ff_mode_id = 1, ff_mode_name = ''VB1940_MODE_1920X1080_30FPS'',
         ff_width = 1920, ff_height = 1080, ff_frame_rate = 30, ff_pixel_format = RAW_10\<rparr>
      else if mode = 2 then Some \<lparr>ff_mode_id = 2, ff_mode_name = ''VB1940_MODE_2560X1984_30FPS_8BIT'',
         ff_width = 2560, ff_height = 1984, ff_frame_rate = 30, ff_pixel_format = RAW_8\<rparr>
      else if mode = 3 then Some \<lparr>ff_mode_id = 3, ff_mode_name = ''VB1940_MODE_2560X1984_60FPS'',
         ff_width = 2560, ff_height = 1984, ff_frame_rate = 60, ff_pixel_format = RAW_10\<rparr>
      else None)"

definition vb1940_initialize_supported_modes :: "camera_sensor \<Rightarrow> camera_sensor" where
  "vb1940_initialize_supported_modes c =
     c\<lparr>cs_supported_modes := [0, 1, 2], cs_frame_formats := vb1940_frame_format\<rparr>"

definition new_vb1940_sensor :: "pixel_format \<Rightarrow> bayer_format \<Rightarrow> camera_sensor" where
  "new_vb1940_sensor pf bf = vb1940_initialize_supported_modes (new_camera_sensor pf bf)"

definition VB1940_MODE_COUNT :: int where "VB1940_MODE_COUNT = 4"

text \<open>
  A mode out of range is only logged. The lookup of the format cannot fail on a mode in range, as
  the constructor has set all of them; a null pointer would be used otherwise.
\<close>

definition vb1940_set_mode :: "int \<Rightarrow> (camera_sensor, unit) hm" where
  "vb1940_set_mode mode =
     hwhen (0 \<le> mode \<and> mode < VB1940_MODE_COUNT)
       (hbind (hgets cs_frame_formats) (\<lambda>formats.
          case formats mode of
            None \<Rightarrow> hthrow Bad_optional_access
          | Some ff \<Rightarrow> hmodify (use_frame_format mode GBRG ff)))"

definition apply_register_settings :: "i2c \<Rightarrow> (u16 \<times> u8) list \<Rightarrow> ('d hsb \<times> synchronizer, unit) hm" where
  "apply_register_settings i settings =
     hseq (map (\<lambda>(reg, v).
       if reg = TABLE_WAIT_MS then on_hsb (sleep_ms (unat v))
       else hbind (hgets (sync_is_enabled \<circ> snd)) (\<lambda>enabled.
              on_hsb (set_register_8 i reg (if reg = 0xAC6 \<and> enabled then 0x01 else v) None))) settings)"

definition vb1940_mode_sequence :: "int \<Rightarrow> (u16 \<times> u8) list option" where
  "vb1940_mode_sequence mode =
     (if mode = 0 then Some VB1940_MODE_2560X1984_30FPS_SEQUENCE
      else if mode = 1 then Some VB1940_MODE_1920X1080_30FPS_SEQUENCE
      else if mode = 2 then Some VB1940_MODE_2560X1984_30FPS_8BIT_SEQUENCE
      else if mode = 3 then Some VB1940_MODE_2560X1984_60FPS_SEQUENCE
      else None)"

definition vb1940_configure_camera :: "i2c \<Rightarrow> int \<Rightarrow> ('d driver, unit) hm" where
  "vb1940_configure_camera i mode =
     hthen (on_obj (vb1940_set_mode mode))
    (hbind (hgets (cs_mode \<circ> snd)) (\<lambda>m.
       case m of
         None \<Rightarrow> hthrow Bad_optional_access
       | Some m \<Rightarrow>
           (case vb1940_mode_sequence m of
              None \<Rightarrow> hret ()
            | Some settings \<Rightarrow> on_hsb (apply_register_settings i settings))))"

text \<open>The version is the constant that it is compared with.\<close>

definition vb1940_get_version :: u32 where "vb1940_get_version = VB1940_VERSION"

definition vb1940_configure :: "i2c \<Rightarrow> vb1940_blobs \<Rightarrow> int \<Rightarrow> ('d driver, unit) pm" where
  "vb1940_configure i b mode =
     pthen (plift (on_hsb (on_hsb (hbind (get_device_id i) (\<lambda>_. sleep_ms 10)))))
    (pbind (plift (on_hsb (on_hsb (get_register i SYSTEM_FSM_STATE_REG)))) (\<lambda>status.
       if status = FSM_SW_STBY then plift (vb1940_configure_camera i mode)
       else pthen (pon_hsb (pon_hsb (boot_sensor i b))) (plift (vb1940_configure_camera i mode))))"

subsection \<open>Start and stop\<close>

definition vb1940_start :: "i2c \<Rightarrow> nat \<Rightarrow> ('d hsb \<times> synchronizer, unit) hm" where
  "vb1940_start i peer =
     hseq [sync_attach peer,
       apply_register_settings i VB1940_START_SEQUENCE,
       on_hsb (wait_at_most 30 i SW_STBY_REG (\<lambda>ret. ret = 0x00 \<or> ret = 0x01)),
       on_hsb (sleep_ms 10),
       on_hsb (wait_at_most 30 i SYSTEM_FSM_STATE_REG (\<lambda>ret. ret = FSM_STREAMING))]"

definition vb1940_stop :: "i2c \<Rightarrow> nat \<Rightarrow> ('d hsb \<times> synchronizer, unit) hm" where
  "vb1940_stop i peer =
     hseq [apply_register_settings i VB1940_STOP_SEQUENCE,
       on_hsb (wait_at_most 30 i STREAMING_REG (\<lambda>ret. ret = 0x00 \<or> ret = 0x01)),
       on_hsb (sleep_ms 10),
       on_hsb (wait_at_most 30 i SYSTEM_FSM_STATE_REG (\<lambda>ret. ret = FSM_SW_STBY)),
       sync_detach peer]"

definition vb1940_setup_clock :: "('d hsb, unit) hm" where
  "vb1940_setup_clock = setup_clock RENESAS_TS2_CONFIGURATION"

subsection \<open>Exposure and gain\<close>

text \<open>The arguments are of \<open>int32_t\<close>.\<close>

definition vb1940_set_exposure_reg :: "i2c \<Rightarrow> int \<Rightarrow> ('d hsb, unit) hm" where
  "vb1940_set_exposure_reg i v =
     (let v = clamp 0x0004 0xFFFF v in
      hseq [set_register_8 i REG_EXP (word_of_int (v mod 256)) None,
        set_register_8 i (REG_EXP + 1) (word_of_int (v div 256 mod 256)) None,
        sleep_ms (unat VB1940_WAIT_MS)])"

definition vb1940_set_analog_gain_reg :: "i2c \<Rightarrow> int \<Rightarrow> ('d hsb, unit) hm" where
  "vb1940_set_analog_gain_reg i v =
     (let v = clamp 0x00 0x18 v in
      hthen (set_register_8 i REG_AG (word_of_int v) None) (sleep_ms (unat VB1940_WAIT_MS)))"

subsection \<open>The geometry of a frame\<close>

text \<open>
  One line of status before the image and two after it, which are not converted. The members are
  cut to 32 bits where they are passed on.
\<close>

definition vb1940_status_line_bytes :: "camera_sensor \<Rightarrow> u32" where
  "vb1940_status_line_bytes c =
     (case cs_pixel_format c of
        RAW_8 \<Rightarrow> word_of_int (cs_width c)
      | RAW_10 \<Rightarrow> word_of_int (cs_width c * 10 div 8)
      | RAW_12 \<Rightarrow> word_of_int (cs_width c * 12 div 8))"

definition vb1940_configure_converter :: "csi_converter \<Rightarrow> camera_sensor \<Rightarrow> hsb_error + csi_geometry" where
  "vb1940_configure_converter converter c =
     (let transmitted = transmitted_line_bytes converter (cs_pixel_format c) (word_of_int (cs_width c)) in
      ebind (received_line_bytes converter transmitted) (\<lambda>received.
      ebind (received_line_bytes converter (vb1940_status_line_bytes c)) (\<lambda>status_line_bytes.
        Inr \<lparr>start_byte = receiver_start_byte converter + status_line_bytes, bytes_per_line = received,
             pixel_width = word_of_int (cs_width c), pixel_height = word_of_int (cs_height c),
             csi_pixel_format = cs_pixel_format c, trailing_bytes = status_line_bytes * 2\<rparr>)))"

subsection \<open>The EEPROM\<close>

definition get_eeprom_register :: "i2c \<Rightarrow> u16 \<Rightarrow> ('d hsb, u8) hm" where
  "get_eeprom_register i reg =
     hbind (i2c_transaction i EEPROM_I2C_ADDRESS (be_bytes 2 reg) 1 None False) (\<lambda>reply.
       case next_uint8 (new_deserializer reply (length reply)) of
         None \<Rightarrow> hthrow (Runtime_error ''Failed to read register value'')
       | Some (v, _) \<Rightarrow> hret v)"

text \<open>The shift and the sum are of 32 bits and cut to 16; the result of \<open>next_buffer\<close> is not looked at.\<close>

definition eeprom_address :: "u32 \<Rightarrow> u32 \<Rightarrow> u16" where
  "eeprom_address page_num page_offset = ucast (push_bit 6 page_num + page_offset)"

definition get_eeprom_page :: "i2c \<Rightarrow> u32 \<Rightarrow> u32 \<Rightarrow> u32 \<Rightarrow> ('d hsb, bytes) hm" where
  "get_eeprom_page i page_num page_offset data_len =
     hthen (hthrow_if (EEPROM_MAX_PAGE_NUM \<le> page_num) (Runtime_error ''Page number should be in range from 0 to 255''))
    (hthen (hthrow_if (EEPROM_PAGE_SIZE \<le> page_offset \<or> EEPROM_PAGE_SIZE - page_offset < data_len)
              (Out_of_range ''EEPROM read exceeds page boundary''))
    (hbind (i2c_transaction i EEPROM_I2C_ADDRESS (be_bytes 2 (eeprom_address page_num page_offset)) data_len None False)
      (\<lambda>reply.
         hret (case next_buffer (new_deserializer reply (length reply)) (replicate (unat data_len) 0) of
                 None \<Rightarrow> replicate (unat data_len) 0
               | Some (data, _) \<Rightarrow> data))))"

definition set_eeprom_register :: "i2c \<Rightarrow> u16 \<Rightarrow> u8 \<Rightarrow> timeout option \<Rightarrow> ('d hsb, unit) hm" where
  "set_eeprom_register i reg v timeout =
     hthen (i2c_transaction i EEPROM_I2C_ADDRESS (be_bytes 2 reg @ be_bytes 1 v) 0 timeout False) (hret ())"

definition set_eeprom_page :: "i2c \<Rightarrow> u32 \<Rightarrow> u32 \<Rightarrow> bytes \<Rightarrow> timeout option \<Rightarrow> ('d hsb, unit) hm" where
  "set_eeprom_page i page_num page_offset data_buffer timeout =
     hthen (hthrow_if (EEPROM_MAX_PAGE_NUM \<le> page_num) (Runtime_error ''Page number should be in range from 0 to 255''))
    (hthen (hthrow_if (unat EEPROM_PAGE_SIZE < unat page_offset + length data_buffer)
              (Runtime_error ''page_offset + data_len should not be greater than 64''))
    (hthen (i2c_transaction i EEPROM_I2C_ADDRESS (be_bytes 2 (eeprom_address page_num page_offset) @ data_buffer)
              0 timeout False)
      (hret ())))"

text \<open>Calibration: a number of \<open>double\<close> is kept as its 64 bits.\<close>

record calibration_data =
  intrinsic_parameters :: "u64 list list"
  distortion_parameters :: "u64 list list"
  calibration_R :: "u64 list"
  calibration_T :: "u64 list"

definition bytes_to_double :: "bytes \<Rightarrow> nat \<Rightarrow> hsb_error + u64" where
  "bytes_to_double bs offset =
     (if length bs < offset + 8 then Inl (Runtime_error ''Insufficient bytes for double conversion'')
      else Inr (be_word (take 8 (drop offset bs))))"

text \<open>The vector is read at the indexes 0 to 29.\<close>

definition parse_calibration_data :: "u64 list \<Rightarrow> calibration_data" where
  "parse_calibration_data data =
     \<lparr>intrinsic_parameters = [map ((!) data) [0..<4], map ((!) data) [12..<16]],
      distortion_parameters = [map ((!) data) [4..<12], map ((!) data) [16..<24]],
      calibration_R = map ((!) data) [24..<27], calibration_T = map ((!) data) [27..<30]\<rparr>"

fun collect_pages :: "i2c \<Rightarrow> nat list \<Rightarrow> ('d hsb, bytes) hm" where
  "collect_pages i [] = hret []"
| "collect_pages i (page # pages) =
     hbind (get_eeprom_page i (of_nat page) 0 64) (\<lambda>page_data.
     hbind (collect_pages i pages) (\<lambda>raw. hret (page_data @ raw)))"

fun parse_doubles :: "bytes \<Rightarrow> nat list \<Rightarrow> hsb_error + u64 list" where
  "parse_doubles raw [] = Inr []"
| "parse_doubles raw (k # ks) =
     ebind (bytes_to_double raw (k * 8)) (\<lambda>x. ebind (parse_doubles raw ks) (\<lambda>xs. Inr (x # xs)))"

definition read_calibration_from_eeprom :: "i2c \<Rightarrow> bool \<Rightarrow> ('d hsb, calibration_data) hm" where
  "read_calibration_from_eeprom i rgb =
     (let calib_pages = unat (CALIB_SIZE div EEPROM_PAGE_SIZE) in
      hbind (collect_pages i (if rgb then [0..<calib_pages] else [calib_pages..<calib_pages * 2])) (\<lambda>raw.
      hbind (hlift (parse_doubles raw [0..<30])) (\<lambda>data. hret (parse_calibration_data data))))"

end
