(* ===== verification/Vb1940_Camera.thy ===== *)
theory Vb1940_Camera
  imports Vb1940_Sensor
begin

text \<open>
  The VB1940 driver on the emulated camera: what each method does to the camera's memory and state
  machines, over the contract \<open>camera_host\<close> with the emulator's answers, and the whole of it on the
  emulated board.
\<close>

subsection \<open>The camera on a bus\<close>

text \<open>\<open>Vb1940Emulator::attach_to_i2c\<close>, of a board that has its Renesas clock generator attached already.\<close>

definition vb1940_attach_to_i2c :: "u32 \<Rightarrow> ('p emulator, unit) hm" where
  "vb1940_attach_to_i2c bus = hseq (map (attach_i2c bus) VB1940_I2C_ADDRESSES)"

definition vb1940_attached :: "u32 \<Rightarrow> (u32 \<times> u16) list" where
  "vb1940_attached bus = rev (map (\<lambda>a. (bus, a)) VB1940_I2C_ADDRESSES) @ [(0, 9)]"

lemma vb1940_attach_to_i2c_run:
  assumes "\<not> i2c_running e" and "i2c_attached e = [(0, 9)]"
  shows "vb1940_attach_to_i2c bus e = (Inr (), e\<lparr>i2c_attached := vb1940_attached bus\<rparr>)"
  using assms
  by (simp add: vb1940_attach_to_i2c_def VB1940_I2C_ADDRESSES_def vb1940_attached_def attach_i2c_def hthen_def hbind_def)

text \<open>
  What the controller hands a transaction to: the camera module, or the Renesas peripheral of the
  board, which accepts everything and reads nothing.
\<close>

definition vb1940_peripheral :: "vb1940 \<Rightarrow> u32 \<times> u16 \<Rightarrow> bytes \<Rightarrow> bytes \<Rightarrow> (bool \<times> bytes) \<times> vb1940" where
  "vb1940_peripheral c key wb rb =
     (if key = (0, 9) then ((True, rb), c)
      else
        (let ((status, bs), c') = vb1940_i2c_transaction (snd key) wb rb c in
         ((status = I2C_STATUS_SUCCESS, bs), c')))"

definition vb1940_answer :: "vb1940 \<Rightarrow> u32 \<Rightarrow> bytes \<Rightarrow> nat \<Rightarrow> (bytes \<times> vb1940) option" where
  "vb1940_answer c a wb n =
     (if ucast a \<in> set VB1940_I2C_ADDRESSES then
        (let ((status, rb), c') = vb1940_i2c_transaction (ucast a) wb (replicate n 0) c in
         if status = I2C_STATUS_SUCCESS \<and> length rb = n then Some (rb, c') else None)
      else Some (replicate n 0, c))"

lemma board_answer_vb1940: "board_answer (vb1940_attached bus) vb1940_peripheral bus = vb1940_answer"
  by (auto simp: fun_eq_iff board_answer_def bus_answer_def vb1940_attached_def vb1940_peripheral_def vb1940_answer_def
      VB1940_I2C_ADDRESSES_def split: prod.splits)

subsection \<open>What the methods do to the camera\<close>

definition vb_put :: "u16 \<Rightarrow> u8 \<Rightarrow> vb1940 \<Rightarrow> vb1940" where
  "vb_put reg v c =
     (case get_callback reg of
        None \<Rightarrow> vb_set reg v c
      | Some cb \<Rightarrow> snd (run_callback cb (be_bytes 2 reg @ [v]) [] c))"

lemma vb_put_plain: "reg \<notin> set VB1940_CALLBACK_REGISTERS \<Longrightarrow> vb_put reg v c = vb_set reg v c"
  by (simp add: vb_put_def get_callback_None)

lemma vb_put_control:
  "vb_put SYSTEM_UP_REG 1 c = vb_set BOOT_FSM_REG BOOT_WAIT_CERTIFICATE (vb_set SYSTEM_FSM_STATE_REG FSM_BOOT (vb_reset c))"
  "vb_put BOOT_REG 1 c = vb_set BOOT_FSM_REG BOOT_WAITING_CMD c"
  "vb_put BOOT_REG 2 c = vb_set BOOT_FSM_REG BOOT_FWP_SETUP c"
  "vb_put BOOT_REG 0x10 c = vb_set SYSTEM_FSM_STATE_REG FSM_SW_STBY (vb_set BOOT_FSM_REG BOOT_COMPLETED c)"
  "vb_put SW_STBY_REG 1 c = vb_set SYSTEM_FSM_STATE_REG FSM_STREAMING c"
  "vb_put STREAMING_REG 1 c = vb_set SYSTEM_FSM_STATE_REG FSM_SW_STBY c"
  by (simp_all add: vb_put_def vb_control be_bytes_2)

definition apply_settings :: "bool \<Rightarrow> (u16 \<times> u8) list \<Rightarrow> vb1940 \<Rightarrow> vb1940" where
  "apply_settings enabled =
     fold (\<lambda>(reg, v) c.
       if reg = TABLE_WAIT_MS then c else vb_put reg (if reg = 0xAC6 \<and> enabled then 1 else v) c)"

lemma camera_address: "ucast VB1940_I2C_ADDRESS = CAM_I2C_ADDRESS" "CAM_I2C_ADDRESS \<in> set VB1940_I2C_ADDRESSES"
  by (simp_all add: VB1940_I2C_ADDRESS_def VB1940_I2C_ADDRESSES_def)

lemma vb1940_answer_camera:
  "vb1940_answer c VB1940_I2C_ADDRESS wb n =
     (let ((status, rb), c') = vb1940_i2c_transaction CAM_I2C_ADDRESS wb (replicate n 0) c in
      if status = I2C_STATUS_SUCCESS \<and> length rb = n then Some (rb, c') else None)"
  by (simp add: vb1940_answer_def camera_address)

lemma camera_fits:
  assumes "length wb \<le> 0x100" and "n \<le> 4"
  shows "transaction_fits VB1940_I2C_ADDRESS wb n"
proof -
  have n: "unat n \<le> 4" using assms(2) by (simp add: word_le_nat_alt)
  then have "unat ((n + 3) div 4) \<le> 1" by (simp add: unat_div unat_word_ariths)
  moreover have "n \<le> 0x100" using n by (simp add: word_le_nat_alt)
  ultimately show ?thesis using assms by (simp add: transaction_fits_def VB1940_I2C_ADDRESS_def)
qed

lemma next_uint8_reply: "\<exists>d. next_uint8 (new_deserializer [v] (length [v])) = Some (v, d)"
  using w8.get_enc [of "new_deserializer [v] 1" v "[]"] by (auto simp: byte_8)

lemma next_uint32_reply:
  "length bs = 4 \<Longrightarrow> \<exists>d. next_uint32_be (new_deserializer bs (length bs)) = Some (be_word bs, d)"
  using w32be.get_enc [of "new_deserializer bs 4" "be_word bs" "[]"] by (auto simp: be_bytes_be_word)

lemma vb_store_Nil: "vb_store a [] c = c"
proof (rule vb1940.equality)
  show "vb_memory (vb_store a [] c) = vb_memory c" by (auto simp: vb_store_def fun_eq_iff)
qed simp

lemma vb_store_append:
  assumes "unat b = unat a + length xs"
  shows "vb_store b ys (vb_store a xs c) = vb_store a (xs @ ys) c"
proof (rule vb1940.equality)
  show "vb_memory (vb_store b ys (vb_store a xs c)) = vb_memory (vb_store a (xs @ ys) c)"
  proof
    fix z :: u16
    consider "unat z < unat a" | "unat a \<le> unat z" "unat z < unat b" | "unat b \<le> unat z" by linarith
    then show "vb_memory (vb_store b ys (vb_store a xs c)) z = vb_memory (vb_store a (xs @ ys) c) z"
    proof cases
      case 3
      then have "\<not> unat z - unat a < length xs" "unat z - unat a - length xs = unat z - unat b" using assms by linarith+
      then show ?thesis using 3 assms by (simp add: vb_store_def nth_append)
    next
      case 2
      then have "unat z - unat a < length xs" using assms by linarith
      then show ?thesis using 2 assms by (simp add: vb_store_def nth_append)
    qed (use assms in \<open>simp add: vb_store_def\<close>)
  qed
qed simp

text \<open>The state after the boot sequence, and the blobs for which it is defined.\<close>

definition blobs_fit :: "vb1940_blobs \<Rightarrow> bool" where
  "blobs_fit b \<longleftrightarrow>
     (\<forall>(a, data) \<in> set ((0x1AA8, vb1940_certificate b) # (0x2000, vb1940_fw b) # vt_patch b).
        unat a + length data \<le> 65536)"

definition boot_state :: "vb1940_blobs \<Rightarrow> vb1940 \<Rightarrow> vb1940" where
  "boot_state b c =
     vb_put BOOT_REG 0x10 (vb_put BOOT_REG 2 (vb_store 0x2000 (vb1940_fw b) (vb_put BOOT_REG 1
       (vb_store 0x1AA8 (vb1940_certificate b) (vb_put SYSTEM_UP_REG 1 (vb_put SYSTEM_UP_REG 1 c))))))"

definition patched :: "vb1940_blobs \<Rightarrow> vb1940 \<Rightarrow> vb1940" where
  "patched b = fold (\<lambda>(a, data). vb_store (ucast a) data) (vt_patch b)"

text \<open>The camera after a configuration: what it was when it waits in standby, else booted and patched.\<close>

definition ready_state :: "vb1940_blobs \<Rightarrow> vb1940 \<Rightarrow> vb1940" where
  "ready_state b c = (if vb_memory c SYSTEM_FSM_STATE_REG = FSM_SW_STBY then c else patched b (boot_state b c))"

text \<open>
  What \<open>status_check\<close> is compared with: \<open>k\<close> readings of the state of the camera, each after 10 ms, and
  nothing else.
\<close>

fun state_readings :: "nat \<Rightarrow> i2c \<Rightarrow> ('d hsb, u8 list) hm" where
  "state_readings 0 i = hret []"
| "state_readings (Suc k) i =
     hthen (sleep_ms 10) (hbind (get_register i SYSTEM_FSM_STATE_REG) (\<lambda>v.
       hbind (state_readings k i) (\<lambda>vs. hret (v # vs))))"

text \<open>All that \<open>configure\<close> does with a camera that it gives up.\<close>

definition given_up_readings :: "i2c \<Rightarrow> ('d hsb, u8 list) hm" where
  "given_up_readings i =
     hthen (hbind (get_device_id i) (\<lambda>_. sleep_ms 10))
       (hbind (get_register i SYSTEM_FSM_STATE_REG) (\<lambda>v. hbind (state_readings 30 i) (\<lambda>vs. hret (v # vs))))"

locale vb1940_host = camera_host session controller vb1940_answer
  for session :: "vb1940 \<Rightarrow> synchronizer \<Rightarrow> 'd hsb \<Rightarrow> bool" and controller
begin

lemma get_register_rule:
  assumes "reg \<notin> {SYSTEM_UP_REG, BOOT_REG}"
  shows "runs (session c y) (get_register controller reg) (\<lambda>v s. v = vb_memory c reg \<and> session c y s)"
proof -
  have "vb1940_answer c VB1940_I2C_ADDRESS (be_bytes 2 reg) (unat (1 :: u32)) = Some ([vb_memory c reg], c)"
  proof (cases "reg \<in> set VB1940_CALLBACK_REGISTERS")
    case True
    then have "reg = SW_STBY_REG \<or> reg = STREAMING_REG" using assms by (auto simp: VB1940_CALLBACK_REGISTERS_def)
    then show ?thesis
      using vb_callback [of SW_STBY_REG Sw_stby_reg "[]" "[0]" c] vb_callback [of STREAMING_REG Streaming_reg "[]" "[0]" c]
      by (auto simp: vb1940_answer_camera get_callback_simps run_callback_def sw_stby_reg_def streaming_reg_def is_write_def)
  next
    case False
    have "unat reg < 65536" using unsigned_less [of reg] by simp
    with vb_read [OF False, of 1 c] show ?thesis by (simp add: vb1940_answer_camera vb_load_def)
  qed
  from transaction_rule [OF camera_fits this, where y = y and nak = False]
  have "runs (session c y) (i2c_transaction controller VB1940_I2C_ADDRESS (be_bytes 2 reg) 1 None False)
      (\<lambda>rb s. rb = [vb_memory c reg] \<and> session c y s)" by simp
  then show ?thesis unfolding get_register_def
    by (rule runs_hbind_val) (use next_uint8_reply [of "vb_memory c reg"] in \<open>auto simp: runs_def\<close>)
qed

lemma set_rule:
  assumes "length bs \<le> 0xFE"
    and "vb1940_i2c_transaction CAM_I2C_ADDRESS (be_bytes 2 reg @ bs) [] c = ((I2C_STATUS_SUCCESS, []), c')"
  shows "runs (session c y) (hthen (i2c_transaction controller VB1940_I2C_ADDRESS (be_bytes 2 reg @ bs) 0 None False) (hret ()))
    (\<lambda>_. session c' y)"
proof -
  have "vb1940_answer c VB1940_I2C_ADDRESS (be_bytes 2 reg @ bs) (unat (0 :: u32)) = Some ([], c')"
    using assms(2) by (simp add: vb1940_answer_camera)
  from transaction_rule [OF camera_fits this, where y = y and nak = False] assms(1)
  have "runs (session c y) (i2c_transaction controller VB1940_I2C_ADDRESS (be_bytes 2 reg @ bs) 0 None False)
      (\<lambda>_. session c' y)" by (auto elim!: runs_post)
  then show ?thesis by (rule runs_hthen) (rule runs_hret)
qed

lemma set_register_8_rule:
  "runs (session c y) (set_register_8 controller reg v None) (\<lambda>_. session (vb_put reg v c) y)"
  unfolding set_register_8_def byte_8
proof (rule set_rule)
  show "vb1940_i2c_transaction CAM_I2C_ADDRESS (be_bytes 2 reg @ [v]) [] c = ((I2C_STATUS_SUCCESS, []), vb_put reg v c)"
  proof (cases "get_callback reg")
    case None
    then have plain: "reg \<notin> set VB1940_CALLBACK_REGISTERS" by (auto simp: VB1940_CALLBACK_REGISTERS_def get_callback_simps)
    have "unat reg < 65536" using unsigned_less [of reg] by simp
    with vb_write [OF plain, of "[v]"] show ?thesis by (simp add: vb_put_plain [OF plain] vb_store_one)
  next
    case (Some cb)
    then show ?thesis
      by (cases cb) (simp_all add: vb_callback vb_put_def run_callback_def system_up_reg_def boot_reg_def
          sw_stby_reg_def streaming_reg_def is_write_def split: if_splits)
  qed
qed simp

lemma set_register_buffer_rule:
  assumes "reg \<notin> set VB1940_CALLBACK_REGISTERS" and "bs \<noteq> []" "length bs \<le> 0xFE" "unat reg + length bs \<le> 65536"
  shows "runs (session c y) (set_register_buffer controller reg bs None) (\<lambda>_. session (vb_store reg bs c) y)"
  unfolding set_register_buffer_def using vb_write [OF assms(1,2), of "[]" c] assms by (intro set_rule) simp_all

lemma get_device_id_rule: "runs (session c y) (get_device_id controller) (\<lambda>_. session c y)"
proof -
  have "vb1940_answer c VB1940_I2C_ADDRESS (be_bytes 2 (4 :: u16)) (unat (4 :: u32)) = Some (vb_load 4 4 c, c)"
    using vb_read [of 4 4 c] by (simp add: vb1940_answer_camera vb_load_def VB1940_CALLBACK_REGISTERS_def)
  from transaction_rule [OF camera_fits this, where y = y and nak = False]
  have "runs (session c y) (i2c_transaction controller VB1940_I2C_ADDRESS (be_bytes 2 (4 :: u16)) 4 None False)
      (\<lambda>rb s. rb = vb_load 4 4 c \<and> session c y s)" by simp
  moreover have "length (vb_load 4 4 c) = 4" by (simp add: vb_load_def)
  ultimately show ?thesis unfolding get_device_id_def get_register_32_def
    by (intro runs_hbind_val) (use next_uint32_reply in \<open>fastforce simp: runs_def\<close>)+
qed

text \<open>Pages, one after the other, are the whole of the data.\<close>

lemma write_page_rule:
  assumes start: "0x518 \<le> unat addr" "unat addr + length data \<le> 65536" and page: "page < (length data + 127) div 128"
  shows "runs (session (vb_store (ucast addr) (take (128 * page) data) c) y) (write_page controller addr data page)
    (\<lambda>_. session (vb_store (ucast addr) (take (128 * Suc page) data) c) y)"
proof -
  let ?bs = "take 128 (drop (128 * page) data)"
  have lt: "128 * page < length data" using page by linarith
  have small: "unat addr + 128 * page < 65536" "length data < 65536" using start lt by simp_all
  have off: "unat (of_nat page * VB1940_PAGE_SIZE) = 128 * page"
    using small by (simp add: VB1940_PAGE_SIZE_def unat_word_ariths unat_of_nat_u32)
  have "unat (addr + of_nat page * VB1940_PAGE_SIZE) = unat addr + 128 * page"
    using small unfolding unat_word_ariths(1) off by simp
  then have reg: "unat (page_register addr page) = unat addr + 128 * page"
    using small by (simp add: page_register_def unsigned_ucast_eq take_bit_nat_eq_self)
  have size: "unat VB1940_PAGE_SIZE = 128" by (simp add: VB1940_PAGE_SIZE_def)
  have len: "unat (of_nat (length data) - of_nat page * VB1940_PAGE_SIZE) = length data - 128 * page"
    using small lt off by (subst unat_sub) (simp_all add: word_le_nat_alt unat_of_nat_u32)
  have bytes: "page_bytes data page = ?bs"
    by (simp add: page_bytes_def Let_def off min_def word_le_nat_alt len size)
  have plain: "page_register addr page \<notin> set VB1940_CALLBACK_REGISTERS"
    using reg start(1) by (auto simp: VB1940_CALLBACK_REGISTERS_def)
  have ne: "?bs \<noteq> []" using lt by simp
  have "runs (session (vb_store (ucast addr) (take (128 * page) data) c) y)
      (set_register_buffer controller (page_register addr page) ?bs None)
      (\<lambda>_. session (vb_store (page_register addr page) ?bs (vb_store (ucast addr) (take (128 * page) data) c)) y)"
    by (rule set_register_buffer_rule [OF plain ne]) (use reg start(2) lt in simp_all)
  moreover have "vb_store (page_register addr page) ?bs (vb_store (ucast addr) (take (128 * page) data) c) =
      vb_store (ucast addr) (take (128 * Suc page) data) c"
  proof -
    have "unat (page_register addr page) = unat (ucast addr :: u16) + length (take (128 * page) data)"
      using reg small lt by (simp add: unsigned_ucast_eq take_bit_nat_eq_self)
    then show ?thesis by (simp add: vb_store_append flip: take_add) (simp add: add.commute)
  qed
  ultimately show ?thesis using ne by (simp add: write_page_def bytes hwhen_def)
qed

lemma write_data_in_pages_rule:
  assumes start: "0x518 \<le> unat addr" "unat addr + length data \<le> 65536"
  shows "runs (session c y) (write_data_in_pages controller addr data) (\<lambda>_. session (vb_store (ucast addr) data c) y)"
proof -
  have "runs (session c y) (hseq (map (write_page controller addr data) [0..<n]))
      (\<lambda>_. session (vb_store (ucast addr) (take (128 * n) data) c) y)" if "n \<le> (length data + 127) div 128" for n
    using that
  proof (induction n)
    case 0
    show ?case by (simp only: upt_0 list.map hseq.simps mult_0_right take_0 vb_store_Nil) (rule runs_hret_conseq)
  next
    case (Suc n)
    then show ?case using write_page_rule [OF start, of n c y]
      by (auto simp: hseq_append intro!: runs_hthen [OF Suc.IH] runs_hthen [OF _ runs_hret])
  qed
  note pages = this
  have "unat (of_nat (length data) + VB1940_PAGE_SIZE - 1) = length data + 127"
    using start by (simp add: VB1940_PAGE_SIZE_def unat_word_ariths unat_of_nat_u32)
  then have count: "page_count data = (length data + 127) div 128"
    by (simp add: page_count_def unat_div VB1940_PAGE_SIZE_def)
  have "length data \<le> 128 * page_count data" unfolding count by linarith
  then show ?thesis using pages [of "page_count data"]
    by (cases "data = []") (simp_all add: count write_data_in_pages_def vb_store_Nil runs_def)
qed

subsection \<open>Waiting\<close>

lemma wait_register_rule:
  assumes "reg \<notin> {SYSTEM_UP_REG, BOOT_REG}" and "vb_memory c reg = v"
  shows "returns (session c y) (wait_register controller reg v) (\<lambda>_. session c y)"
proof -
  have "runs (session c y) (hthen (sleep_ms 10) (get_register controller reg)) (\<lambda>r s. r = vb_memory c reg \<and> session c y s)"
    by (rule runs_hthen [OF sleep_rule get_register_rule [OF assms(1)]])
  note read = this
  show ?thesis unfolding returns_def
  proof (intro allI impI)
    fix s
    assume "session c y s"
    from runsD [OF read this] obtain s' where
      "hthen (sleep_ms 10) (get_register controller reg) s = (Inr v, s')" "session c y s'"
      using assms(2) by auto
    then show "\<exists>x s'. wait_register controller reg v s = Some (Inr x, s') \<and> session c y s'"
      by (subst wait_register.simps) simp
  qed
qed

lemma wait_at_most_rule:
  assumes "reg \<notin> {SYSTEM_UP_REG, BOOT_REG}"
  shows "runs (session c y) (wait_at_most k controller reg stop) (\<lambda>_. session c y)"
proof (induction k)
  case 0
  show ?case by (simp add: runs_def)
next
  case (Suc k)
  have "runs (session c y) (if stop (vb_memory c reg) then hret () else wait_at_most k controller reg stop)
      (\<lambda>_. session c y)"
    using Suc.IH by (simp add: runs_def)
  then show ?case unfolding wait_at_most.simps
    by (intro runs_hthen [OF sleep_rule] runs_hbind_val [OF get_register_rule [OF assms]])
qed

lemma await_system_up_rule:
  assumes "vb_memory c SYSTEM_FSM_STATE_REG = FSM_SYSTEM_UP"
  shows "runs (session c y) (await_system_up controller 0) (\<lambda>_. session c y)"
  unfolding await_system_up.simps [of controller 0]
  by (rule runs_hthen [OF sleep_rule runs_hbind_val [OF get_register_rule]]) (use assms in \<open>simp_all add: runs_def\<close>)

lemma state_reading:
  assumes "session c y s"
  shows "\<exists>s1 s2. sleep_ms 10 s = (Inr (), s1) \<and>
    get_register controller SYSTEM_FSM_STATE_REG s1 = (Inr (vb_memory c SYSTEM_FSM_STATE_REG), s2) \<and> session c y s2"
proof -
  have "runs (session c y) (hthen (sleep_ms 10) (get_register controller SYSTEM_FSM_STATE_REG))
      (\<lambda>r s. r = vb_memory c SYSTEM_FSM_STATE_REG \<and> session c y s)"
    by (rule runs_hthen [OF sleep_rule get_register_rule]) simp
  from runsD [OF this assms] show ?thesis by (auto simp: hthen_def hbind_def sleep_ms_run)
qed

lemma await_system_up_again:
  assumes "count < 29" and "sleep_ms 10 s = (Inr (), s1)" and "get_register i SYSTEM_FSM_STATE_REG s1 = (Inr v, s2)"
    and "v \<noteq> FSM_SYSTEM_UP"
  shows "await_system_up i count s = await_system_up i (count + 1) s2"
  using assms by (simp add: await_system_up.simps [of i count] hthen_def hbind_def)

text \<open>The driver gives up at the 30th reading: from the count \<open>30 - k\<close> on it makes \<open>k\<close> readings and throws.\<close>

lemma await_system_up_fails:
  assumes "vb_memory c SYSTEM_FSM_STATE_REG \<noteq> FSM_SYSTEM_UP"
  shows "session c y s \<Longrightarrow> k < 30 \<Longrightarrow>
    \<exists>s'. state_readings (Suc k) controller s = (Inr (replicate (Suc k) (vb_memory c SYSTEM_FSM_STATE_REG)), s') \<and>
      await_system_up controller (29 - k) s =
        (Inl (Runtime_error ''Incorrect system fsm state. Please reconnect camera''), s') \<and> session c y s'"
proof (induction k arbitrary: s)
  case (0 s)
  from state_reading [OF 0(1)] obtain s1 s2 where "sleep_ms 10 s = (Inr (), s1)"
      "get_register controller SYSTEM_FSM_STATE_REG s1 = (Inr (vb_memory c SYSTEM_FSM_STATE_REG), s2)" "session c y s2"
    by blast
  then show ?case by (simp add: await_system_up.simps [of controller 29] hthen_def hbind_def)
next
  case (Suc k s)
  from state_reading [OF Suc.prems(1)] obtain s1 s2 where r: "sleep_ms 10 s = (Inr (), s1)"
      "get_register controller SYSTEM_FSM_STATE_REG s1 = (Inr (vb_memory c SYSTEM_FSM_STATE_REG), s2)" "session c y s2"
    by blast
  have count: "29 - Suc k + 1 = 29 - k" "29 - Suc k < 29" using Suc.prems(2) by simp_all
  from Suc.IH [OF r(3)] Suc.prems(2) obtain s' where
    "state_readings (Suc k) controller s2 = (Inr (replicate (Suc k) (vb_memory c SYSTEM_FSM_STATE_REG)), s')"
    "await_system_up controller (29 - k) s2 =
      (Inl (Runtime_error ''Incorrect system fsm state. Please reconnect camera''), s')" "session c y s'" by auto
  moreover have "await_system_up controller (29 - Suc k) s = await_system_up controller (29 - k) s2"
    using await_system_up_again [OF _ r(1,2) assms, of "29 - Suc k"] count by simp
  moreover have "state_readings (Suc (Suc k)) controller s =
      hbind (state_readings (Suc k) controller) (\<lambda>vs. hret (vb_memory c SYSTEM_FSM_STATE_REG # vs)) s2"
    using r by (simp only: state_readings.simps(2) [of "Suc k"]) (simp add: hthen_def hbind_def)
  ultimately show ?case by (simp only: hbind_def) simp
qed

subsection \<open>Boot\<close>

lemma status_check_rule:
  assumes "vb_memory c SYSTEM_FSM_STATE_REG = FSM_SYSTEM_UP"
  shows "returns (session c y) (status_check controller) (\<lambda>_. session (vb_put SYSTEM_UP_REG 1 c) y)"
  unfolding status_check_def hseq.simps
  by (rule returns_pthen, rule returns_plift, rule runs_hthen [OF await_system_up_rule [OF assms]],
      rule runs_hthen [OF sleep_rule], rule runs_hthen [OF set_register_8_rule], rule runs_hthen [OF sleep_rule],
      rule runs_hret,
      rule returns_pthen [OF wait_register_rule], simp, simp add: vb_put_control,
      rule returns_pthen [OF returns_plift [OF sleep_rule]],
      rule wait_register_rule, simp, simp add: vb_put_control)

lemma do_secure_boot_rule:
  assumes "blobs_fit b"
  shows "returns (session c y) (do_secure_boot controller b)
    (\<lambda>_. session (vb_put BOOT_REG 0x10 (vb_put BOOT_REG 2 (vb_store 0x2000 (vb1940_fw b) (vb_put BOOT_REG 1
       (vb_store 0x1AA8 (vb1940_certificate b) c))))) y)"
proof -
  have fit: "unat (0x1AA8 :: u32) + length (vb1940_certificate b) \<le> 65536" "unat (0x2000 :: u32) + length (vb1940_fw b) \<le> 65536"
    using assms by (simp_all add: blobs_fit_def)
  have pages: "runs (session c y) (write_certificate controller b) (\<lambda>_. session (vb_store 0x1AA8 (vb1940_certificate b) c) y)"
    "runs (session c y) (write_fw controller b) (\<lambda>_. session (vb_store 0x2000 (vb1940_fw b) c) y)" for c
    using write_data_in_pages_rule [OF _ fit(1)] write_data_in_pages_rule [OF _ fit(2)]
    by (simp_all add: write_certificate_def write_fw_def)
  show ?thesis unfolding do_secure_boot_def
    by (rule returns_pthen [OF returns_plift [OF runs_hthen [OF pages(1) set_register_8_rule]]],
        rule returns_pthen [OF wait_register_rule], simp, simp add: vb_put_control,
        rule returns_pthen [OF returns_plift [OF runs_hthen [OF pages(2) set_register_8_rule]]],
        rule returns_pthen [OF wait_register_rule], simp, simp add: vb_put_control,
        rule returns_plift [OF set_register_8_rule])
qed

lemma write_vt_patch_rule:
  assumes "blobs_fit b"
  shows "runs (session c y) (write_vt_patch controller b) (\<lambda>_. session (patched b c) y)"
proof -
  have "runs (session c y) (hseq (map (\<lambda>(a, data). write_data_in_pages controller a data) ps))
      (\<lambda>_. session (fold (\<lambda>(a, data). vb_store (ucast a) data) ps c) y)"
    if "\<forall>(a, data) \<in> set ps. 0x518 \<le> unat a \<and> unat a + length data \<le> 65536" for ps
    using that
  proof (induction ps arbitrary: c)
    case Nil
    then show ?case by (simp only: list.map hseq.simps fold_simps) (rule runs_hret)
  next
    case (Cons p ps)
    obtain a data where p: "p = (a, data)" by force
    have "runs (session c y) (write_data_in_pages controller a data) (\<lambda>_. session (vb_store (ucast a) data c) y)"
      by (rule write_data_in_pages_rule) (use Cons.prems p in auto)
    then show ?case using Cons.IH Cons.prems by (auto simp: p intro: runs_hthen)
  qed
  moreover have "\<forall>(a, data) \<in> set (vt_patch b). 0x518 \<le> unat a \<and> unat a + length data \<le> 65536"
    using assms by (auto simp: blobs_fit_def vt_patch_def)
  ultimately show ?thesis by (simp add: write_vt_patch_def patched_def)
qed

lemma boot_sensor_rule:
  assumes "blobs_fit b" and "vb_memory c SYSTEM_FSM_STATE_REG = FSM_SYSTEM_UP"
  shows "returns (session c y) (boot_sensor controller b) (\<lambda>_. session (patched b (boot_state b c)) y)"
  unfolding boot_sensor_def boot_state_def
  by (rule returns_pthen [OF status_check_rule [OF assms(2)]],
      rule returns_pthen [OF returns_plift [OF runs_hthen [OF sleep_rule set_register_8_rule]]],
      rule returns_pthen [OF wait_register_rule], simp, simp add: vb_put_control,
      rule returns_pthen [OF wait_register_rule], simp, simp add: vb_put_control,
      rule returns_pthen [OF do_secure_boot_rule [OF assms(1)]], rule returns_plift,
      (rule runs_hthen [OF sleep_rule] runs_hbind_val [OF get_register_rule] write_vt_patch_rule [OF assms(1)] | simp)+)

subsection \<open>Configuration, start and stop\<close>

abbreviation "paired c y s \<equiv> session c y (fst s) \<and> snd s = y"
abbreviation "driving c y cam s \<equiv> paired c y (fst s) \<and> snd s = cam"

lemma apply_register_settings_rule:
  "runs (paired c y) (apply_register_settings controller settings)
     (\<lambda>_. paired (apply_settings (sync_is_enabled y) settings c) y)"
proof (induction settings arbitrary: c)
  case Nil
  show ?case by (simp add: apply_register_settings_def apply_settings_def runs_def)
next
  case (Cons p settings)
  obtain reg v where p: "p = (reg, v)" by force
  let ?v = "if reg = 0xAC6 \<and> sync_is_enabled y then 1 else v"
  let ?m = "\<lambda>(reg, v). if reg = TABLE_WAIT_MS then on_hsb (sleep_ms (unat v))
       else hbind (hgets (sync_is_enabled \<circ> snd)) (\<lambda>enabled.
              on_hsb (set_register_8 controller reg (if reg = 0xAC6 \<and> enabled then 0x01 else v) None))"
  have "runs (paired c y) (?m p) (\<lambda>_. paired (if reg = TABLE_WAIT_MS then c else vb_put reg ?v c) y)"
  proof (cases "reg = TABLE_WAIT_MS")
    case True
    then show ?thesis using runs_on_fst [OF sleep_rule] by (simp add: p)
  next
    case False
    have "runs (paired c y) (hgets (sync_is_enabled \<circ> snd)) (\<lambda>e s. e = sync_is_enabled y \<and> paired c y s)"
      by (simp add: runs_def)
    then have "runs (paired c y) (hbind (hgets (sync_is_enabled \<circ> snd)) (\<lambda>enabled.
        on_hsb (set_register_8 controller reg (if reg = 0xAC6 \<and> enabled then 0x01 else v) None)))
        (\<lambda>_. paired (vb_put reg ?v c) y)"
      by (rule runs_hbind_val) (rule runs_on_fst [OF set_register_8_rule])
    with False show ?thesis by (simp only: p prod.case if_False)
  qed
  from runs_hthen [OF this Cons.IH] show ?case
    by (simp add: apply_register_settings_def apply_settings_def p)
qed

lemma configure_camera_rule:
  assumes "cs_frame_formats cam = vb1940_frame_format" and "vb1940_frame_format mode = Some ff"
    and "vb1940_mode_sequence mode = Some settings"
  shows "runs (driving c y cam) (vb1940_configure_camera controller mode)
    (\<lambda>_. driving (apply_settings (sync_is_enabled y) settings c) y (use_frame_format mode GBRG ff cam))"
proof -
  have range: "0 \<le> mode \<and> mode < VB1940_MODE_COUNT"
    using assms(2) by (auto simp: vb1940_frame_format_def VB1940_MODE_COUNT_def split: if_splits)
  have "runs (driving c y cam) (on_obj (vb1940_set_mode mode)) (\<lambda>_. driving c y (use_frame_format mode GBRG ff cam))"
    using range assms(1,2)
    by (auto simp: runs_def on_obj_def vb1940_set_mode_def hwhen_def hbind_def)
  moreover have "runs (driving c y (use_frame_format mode GBRG ff cam)) (hgets (cs_mode \<circ> snd))
      (\<lambda>m s. m = Some mode \<and> driving c y (use_frame_format mode GBRG ff cam) s)"
    by (auto simp: runs_def use_frame_format_def)
  ultimately show ?thesis unfolding vb1940_configure_camera_def
    by (rule runs_hthen [OF _ runs_hbind_val])
      (use runs_on_fst [OF apply_register_settings_rule, where u = "use_frame_format mode GBRG ff cam"] in
        \<open>simp add: assms(3)\<close>)
qed

lemma configure_rule:
  assumes "blobs_fit b" and "vb_memory c SYSTEM_FSM_STATE_REG \<in> {FSM_SYSTEM_UP, FSM_SW_STBY}"
    and "cs_frame_formats cam = vb1940_frame_format" and "vb1940_frame_format mode = Some ff"
    and "vb1940_mode_sequence mode = Some settings"
  shows "returns (driving c y cam) (vb1940_configure controller b mode)
    (\<lambda>_. driving (apply_settings (sync_is_enabled y) settings (ready_state b c)) y (use_frame_format mode GBRG ff cam))"
proof -
  note camera = returns_plift [OF configure_camera_rule [OF assms(3-5)]]
  have id: "returns (driving c y cam) (plift (on_hsb (on_hsb (hbind (get_device_id controller) (\<lambda>_. sleep_ms 10)))))
      (\<lambda>_. driving c y cam)"
    by (intro returns_plift runs_on_fst runs_hbind [OF get_device_id_rule sleep_rule])
  have status: "returns (driving c y cam) (plift (on_hsb (on_hsb (get_register controller SYSTEM_FSM_STATE_REG))))
      (\<lambda>v s. v = vb_memory c SYSTEM_FSM_STATE_REG \<and> driving c y cam s)"
  proof -
    have "runs (session c y) (get_register controller SYSTEM_FSM_STATE_REG)
        (\<lambda>v s. v = vb_memory c SYSTEM_FSM_STATE_REG \<and> session c y s)"
      by (rule get_register_rule) simp
    from returns_plift [OF runs_on_fst [OF runs_on_fst [OF this]]] show ?thesis by simp
  qed
  show ?thesis unfolding vb1940_configure_def
  proof (rule returns_pthen [OF id], rule returns_pbind_val [OF status])
    show "returns (driving c y cam)
        (if vb_memory c SYSTEM_FSM_STATE_REG = FSM_SW_STBY then plift (vb1940_configure_camera controller mode)
         else pthen (pon_hsb (pon_hsb (boot_sensor controller b))) (plift (vb1940_configure_camera controller mode)))
        (\<lambda>_. driving (apply_settings (sync_is_enabled y) settings (ready_state b c)) y (use_frame_format mode GBRG ff cam))"
    proof (cases "vb_memory c SYSTEM_FSM_STATE_REG = FSM_SW_STBY")
      case True
      then show ?thesis using camera by (simp add: ready_state_def)
    next
      case False
      with assms(2) have up: "vb_memory c SYSTEM_FSM_STATE_REG = FSM_SYSTEM_UP" by simp
      have "returns (driving c y cam) (pon_hsb (pon_hsb (boot_sensor controller b)))
          (\<lambda>_. driving (ready_state b c) y cam)"
        using returns_pon_hsb [OF returns_pon_hsb [OF boot_sensor_rule [OF assms(1) up]]] False
        by (simp add: ready_state_def)
      from returns_pthen [OF this camera] False show ?thesis by simp
    qed
  qed
qed

text \<open>
  In any other state than the two the driver gives up, after the 30th reading. What it does on the bus is then
  the reading of the device id and 31 readings of the state, one before the boot and 30 in it.
\<close>

lemma boot_sensor_fails:
  assumes "vb_memory c SYSTEM_FSM_STATE_REG \<noteq> FSM_SYSTEM_UP" and "session c y s"
  shows "\<exists>s'. state_readings 30 controller s = (Inr (replicate 30 (vb_memory c SYSTEM_FSM_STATE_REG)), s') \<and>
    boot_sensor controller b s =
      Some (Inl (Runtime_error ''Incorrect system fsm state. Please reconnect camera''), s') \<and> session c y s'"
proof -
  have k: "Suc 29 = 30" "29 - 29 = (0 :: nat)" by simp_all
  from await_system_up_fails [OF assms, of 29, unfolded k] obtain s' where
    s': "state_readings 30 controller s = (Inr (replicate 30 (vb_memory c SYSTEM_FSM_STATE_REG)), s')"
      "await_system_up controller 0 s =
        (Inl (Runtime_error ''Incorrect system fsm state. Please reconnect camera''), s')" "session c y s'"
    by auto
  then have "boot_sensor controller b s =
      Some (Inl (Runtime_error ''Incorrect system fsm state. Please reconnect camera''), s')"
    by (simp add: boot_sensor_def status_check_def pthen_def pbind_def plift_def)
  with s' show ?thesis by blast
qed

lemma configure_fails:
  assumes "vb_memory c SYSTEM_FSM_STATE_REG \<notin> {FSM_SYSTEM_UP, FSM_SW_STBY}" and "session c y s"
  shows "\<exists>s'. given_up_readings controller s = (Inr (replicate 31 (vb_memory c SYSTEM_FSM_STATE_REG)), s') \<and>
    vb1940_configure controller b mode ((s, z), cam) =
      Some (Inl (Runtime_error ''Incorrect system fsm state. Please reconnect camera''), ((s', z), cam)) \<and> session c y s'"
proof -
  have "runs (session c y) (hbind (get_device_id controller) (\<lambda>_. sleep_ms 10)) (\<lambda>_. session c y)"
    by (rule runs_hbind [OF get_device_id_rule sleep_rule])
  from runsD [OF this assms(2)] obtain s1 where 1: "hbind (get_device_id controller) (\<lambda>_. sleep_ms 10) s = (Inr (), s1)"
      "session c y s1" by auto
  have "runs (session c y) (get_register controller SYSTEM_FSM_STATE_REG)
      (\<lambda>v s. v = vb_memory c SYSTEM_FSM_STATE_REG \<and> session c y s)"
    by (rule get_register_rule) simp
  from runsD [OF this 1(2)] obtain s2 where 2: "get_register controller SYSTEM_FSM_STATE_REG s1 =
      (Inr (vb_memory c SYSTEM_FSM_STATE_REG), s2)" "session c y s2" by blast
  obtain s3 where 3: "state_readings 30 controller s2 = (Inr (replicate 30 (vb_memory c SYSTEM_FSM_STATE_REG)), s3)"
      "boot_sensor controller b s2 =
        Some (Inl (Runtime_error ''Incorrect system fsm state. Please reconnect camera''), s3)" "session c y s3"
    using boot_sensor_fails [of c y s2 b] assms(1) 2(2) by auto
  have "replicate 31 v = v # replicate 30 v" for v :: u8 by (simp add: numeral_eq_Suc)
  then have "given_up_readings controller s = (Inr (replicate 31 (vb_memory c SYSTEM_FSM_STATE_REG)), s3)"
    unfolding given_up_readings_def hthen_def hbind_def [of "hbind (get_device_id controller) (\<lambda>_. sleep_ms 10)"] 1(1)
    by (simp add: hbind_def 2(1) 3(1))
  moreover have "vb1940_configure controller b mode ((s, z), cam) =
      Some (Inl (Runtime_error ''Incorrect system fsm state. Please reconnect camera''), ((s3, z), cam))"
    using 1 2 3 assms(1) by (simp add: vb1940_configure_def pthen_def pbind_def plift_def pon_hsb_def on_hsb_def)
  ultimately show ?thesis using 3(3) by blast
qed

lemma start_settings:
  "apply_settings enabled VB1940_START_SEQUENCE c = vb_set SYSTEM_FSM_STATE_REG FSM_STREAMING c"
  "apply_settings enabled VB1940_STOP_SEQUENCE c = vb_set SYSTEM_FSM_STATE_REG FSM_SW_STBY c"
  by (simp_all add: apply_settings_def VB1940_START_SEQUENCE_def VB1940_STOP_SEQUENCE_def TABLE_WAIT_MS_def vb_put_control)

lemma settings_and_waits:
  assumes a: "a \<notin> {SYSTEM_UP_REG, BOOT_REG}"
    and rest: "runs (paired (apply_settings (sync_is_enabled y) settings c) y) (hseq ms) Q"
  shows "runs (paired c y) (hseq ([apply_register_settings controller settings, on_hsb (wait_at_most 30 controller a f),
      on_hsb (sleep_ms 10), on_hsb (wait_at_most 30 controller SYSTEM_FSM_STATE_REG g)] @ ms)) Q"
  unfolding append_Cons append_Nil hseq.simps
  by (rule runs_hthen [OF apply_register_settings_rule], rule runs_hthen [OF runs_on_fst [OF wait_at_most_rule [OF a]]],
      rule runs_hthen [OF runs_on_fst [OF sleep_rule]], rule runs_hthen [OF runs_on_fst [OF wait_at_most_rule]], simp)
    (rule rest)

lemma start_rule:
  assumes "peer \<notin> set (sy_peers y)" and s: "paired c y s"
  shows "\<exists>s' y'. vb1940_start controller peer s = (Inr (), s') \<and>
    paired (vb_set SYSTEM_FSM_STATE_REG FSM_STREAMING c) y' s' \<and>
    sy_peers y' = sy_peers y @ [peer] \<and> sync_is_enabled y' = sync_is_enabled y"
proof -
  obtain b' y' where 1: "sync_attach peer s = (Inr (), (b', y'))" "session c y' b'"
      "sy_peers y' = sy_peers y @ [peer]" "sync_is_enabled y' = sync_is_enabled y"
    using attaching [of c y "fst s" peer] assms by (cases s) auto
  have "runs (paired c y') (hseq ([apply_register_settings controller VB1940_START_SEQUENCE,
      on_hsb (wait_at_most 30 controller SW_STBY_REG (\<lambda>ret. ret = 0x00 \<or> ret = 0x01)), on_hsb (sleep_ms 10),
      on_hsb (wait_at_most 30 controller SYSTEM_FSM_STATE_REG (\<lambda>ret. ret = FSM_STREAMING))] @ []))
      (\<lambda>_. paired (vb_set SYSTEM_FSM_STATE_REG FSM_STREAMING c) y')"
    by (rule settings_and_waits) (simp_all add: start_settings runs_def)
  from runsD [OF this, of "(b', y')"] 1 show ?thesis
    by (auto simp: vb1940_start_def)
qed

lemma stop_rule:
  assumes "paired c y s"
  shows "\<exists>s' y'. vb1940_stop controller peer s = (Inr (), s') \<and>
    paired (vb_set SYSTEM_FSM_STATE_REG FSM_SW_STBY c) y' s' \<and>
    sy_peers y' = remove1 peer (sy_peers y) \<and> sync_is_enabled y' = sync_is_enabled y"
proof -
  let ?c = "vb_set SYSTEM_FSM_STATE_REG FSM_SW_STBY c"
  have "runs (paired ?c y) (hseq [sync_detach peer]) (\<lambda>_ s'. \<exists>y'. paired ?c y' s' \<and>
      sy_peers y' = remove1 peer (sy_peers y) \<and> sync_is_enabled y' = sync_is_enabled y)"
    using detaching [of ?c y _ peer] by (fastforce simp: runs_def)
  then have "runs (paired c y) (hseq ([apply_register_settings controller VB1940_STOP_SEQUENCE,
      on_hsb (wait_at_most 30 controller STREAMING_REG (\<lambda>ret. ret = 0x00 \<or> ret = 0x01)), on_hsb (sleep_ms 10),
      on_hsb (wait_at_most 30 controller SYSTEM_FSM_STATE_REG (\<lambda>ret. ret = FSM_SW_STBY))] @ [sync_detach peer]))
      (\<lambda>_ s'. \<exists>y'. paired ?c y' s' \<and> sy_peers y' = remove1 peer (sy_peers y) \<and> sync_is_enabled y' = sync_is_enabled y)"
    by (intro settings_and_waits) (simp_all add: start_settings)
  from runsD [OF this assms] show ?thesis by (auto simp: vb1940_stop_def)
qed

end

interpretation vb1940_board: vb1940_host "board_session (vb1940_attached bus) vb1940_peripheral" "get_i2c bus I2C_CTRL"
  for bus
  unfolding vb1940_host_def board_answer_vb1940 [symmetric, of bus] by unfold_locales

end
