(* ===== verification/Camera_Streaming.thy ===== *)
theory Camera_Streaming
  imports Vb1940_Camera
begin

text \<open>
  The properties of the VB1940 driver on the emulated board: what configuring, starting and stopping
  the camera through the host library does to the camera and to the board.
\<close>

subsection \<open>The initial state\<close>

text \<open>A board with the camera module on a bus.\<close>

abbreviation "fresh_camera_board bus \<equiv> fresh_i2c_board (vb1940_attached bus) vb1940_peripheral"

subsection \<open>Configuration\<close>

abbreviation "camera_session bus \<equiv> board_session (vb1940_attached bus) vb1940_peripheral"

text \<open>What the camera's registers mean, as the driver's members say it.\<close>

definition pixel_bits :: "pixel_format \<Rightarrow> u8" where
  "pixel_bits f = (case f of RAW_8 \<Rightarrow> 8 | RAW_10 \<Rightarrow> 10 | RAW_12 \<Rightarrow> 12)"

definition geometry_agrees :: "camera_sensor \<Rightarrow> vb1940 \<Rightarrow> bool" where
  "geometry_agrees cam c \<longleftrightarrow>
     int (unat (get_pixel_width c)) = cs_width cam \<and> int (unat (get_pixel_height c)) = cs_height cam \<and>
     get_pixel_bits c = pixel_bits (cs_pixel_format cam)"

text \<open>Settings that touch no register of the state machines: the last write to a register counts.\<close>

definition plain_settings :: "(u16 \<times> u8) list \<Rightarrow> bool" where
  "plain_settings settings \<longleftrightarrow> (\<forall>(r, v) \<in> set settings. r \<noteq> TABLE_WAIT_MS \<and> r \<notin> set VB1940_CALLBACK_REGISTERS)"

lemma apply_settings_memory:
  assumes "plain_settings settings"
  shows "vb_memory (apply_settings enabled settings c) a =
    (case map_of (rev settings) a of
       None \<Rightarrow> vb_memory c a | Some v \<Rightarrow> if a = 0xAC6 \<and> enabled then 1 else v)"
  using assms
proof (induction settings arbitrary: c)
  case Nil
  then show ?case by (simp add: apply_settings_def)
next
  case (Cons p settings)
  obtain r v where p: "p = (r, v)" by force
  have plain: "r \<noteq> TABLE_WAIT_MS" "r \<notin> set VB1940_CALLBACK_REGISTERS" "plain_settings settings"
    using Cons.prems by (auto simp: p plain_settings_def)
  have "apply_settings enabled (p # settings) c = apply_settings enabled settings (vb_set r (if r = 0xAC6 \<and> enabled then 1 else v) c)"
    using plain(1,2) by (simp add: p apply_settings_def vb_put_plain)
  then have ih: "vb_memory (apply_settings enabled (p # settings) c) a =
      (case map_of (rev settings) a of
         None \<Rightarrow> vb_memory (vb_set r (if r = 0xAC6 \<and> enabled then 1 else v) c) a
       | Some v \<Rightarrow> if a = 0xAC6 \<and> enabled then 1 else v)"
    using Cons.IH [OF plain(3)] by simp
  have m: "map_of (rev (p # settings)) a = (case map_of (rev settings) a of None \<Rightarrow> if a = r then Some v else None | Some v \<Rightarrow> Some v)"
    by (simp add: p map_of_append map_add_def split: option.split)
  show ?case unfolding ih m by (cases "map_of (rev settings) a") auto
qed

lemmas mode_sequences = VB1940_MODE_2560X1984_30FPS_SEQUENCE_def VB1940_MODE_1920X1080_30FPS_SEQUENCE_def
  VB1940_MODE_2560X1984_30FPS_8BIT_SEQUENCE_def VB1940_MODE_2560X1984_60FPS_SEQUENCE_def

lemma mode_cases:
  assumes "vb1940_frame_format mode = Some ff" and "vb1940_mode_sequence mode = Some settings"
  obtains "settings = VB1940_MODE_2560X1984_30FPS_SEQUENCE" "ff_width ff = 2560" "ff_height ff = 1984" "ff_pixel_format ff = RAW_10"
  | "settings = VB1940_MODE_1920X1080_30FPS_SEQUENCE" "ff_width ff = 1920" "ff_height ff = 1080" "ff_pixel_format ff = RAW_10"
  | "settings = VB1940_MODE_2560X1984_30FPS_8BIT_SEQUENCE" "ff_width ff = 2560" "ff_height ff = 1984" "ff_pixel_format ff = RAW_8"
  | "settings = VB1940_MODE_2560X1984_60FPS_SEQUENCE" "ff_width ff = 2560" "ff_height ff = 1984" "ff_pixel_format ff = RAW_10"
  using assms by (auto simp: vb1940_mode_sequence_def vb1940_frame_format_def split: if_splits)

lemma sequences_plain:
  "plain_settings VB1940_MODE_2560X1984_30FPS_SEQUENCE" "plain_settings VB1940_MODE_1920X1080_30FPS_SEQUENCE"
  "plain_settings VB1940_MODE_2560X1984_30FPS_8BIT_SEQUENCE" "plain_settings VB1940_MODE_2560X1984_60FPS_SEQUENCE"
  by (simp_all add: plain_settings_def TABLE_WAIT_MS_def VB1940_CALLBACK_REGISTERS_def mode_sequences)

text \<open>What the sequences say of the state, of the trigger mode and of the geometry.\<close>

definition geometry_settings :: "(u16 \<times> u8) list \<Rightarrow> u8 option list" where
  "geometry_settings settings =
     map (map_of (rev settings)) [SYSTEM_FSM_STATE_REG, 0xAC6, 0x91A, 0x91B, 0x91C, 0x91D, 0x91E]"

lemma sequences_geometry:
  "geometry_settings VB1940_MODE_2560X1984_30FPS_SEQUENCE = [None, Some 0, Some 0x00, Some 0x0A, Some 0xC0, Some 0x07, Some 0x2B]"
  "geometry_settings VB1940_MODE_1920X1080_30FPS_SEQUENCE = [None, Some 0, Some 0x80, Some 0x07, Some 0x38, Some 0x04, Some 0x2B]"
  "geometry_settings VB1940_MODE_2560X1984_30FPS_8BIT_SEQUENCE = [None, Some 0, Some 0x00, Some 0x0A, Some 0xC0, Some 0x07, Some 0x2A]"
  "geometry_settings VB1940_MODE_2560X1984_60FPS_SEQUENCE = [None, Some 0, Some 0x00, Some 0x0A, Some 0xC0, Some 0x07, Some 0x2B]"
  by (simp_all add: geometry_settings_def mode_sequences)

lemmas geometry_simps = geometry_agrees_def get_pixel_width_def get_pixel_height_def get_pixel_bits_def
  geometry_settings_def use_frame_format_def pixel_bits_def

lemma settings_geometry:
  assumes "vb1940_frame_format mode = Some ff" and "vb1940_mode_sequence mode = Some settings"
  shows "geometry_agrees (use_frame_format mode GBRG ff cam) (apply_settings enabled settings c)"
    "vb_memory (apply_settings enabled settings c) SYSTEM_FSM_STATE_REG = vb_memory c SYSTEM_FSM_STATE_REG"
    "vb_memory (apply_settings enabled settings c) 0xAC6 = (if enabled then 1 else 0)"
proof -
  have "geometry_agrees (use_frame_format mode GBRG ff cam) (apply_settings enabled settings c) \<and>
      vb_memory (apply_settings enabled settings c) SYSTEM_FSM_STATE_REG = vb_memory c SYSTEM_FSM_STATE_REG \<and>
      vb_memory (apply_settings enabled settings c) 0xAC6 = (if enabled then 1 else 0)"
    using mode_cases [OF assms]
  proof cases
    case 1
    with sequences_geometry(1) show ?thesis
      by (simp add: geometry_simps apply_settings_memory [OF sequences_plain(1)])
  next
    case 2
    with sequences_geometry(2) show ?thesis
      by (simp add: geometry_simps apply_settings_memory [OF sequences_plain(2)])
  next
    case 3
    with sequences_geometry(3) show ?thesis
      by (simp add: geometry_simps apply_settings_memory [OF sequences_plain(3)])
  next
    case 4
    with sequences_geometry(4) show ?thesis
      by (simp add: geometry_simps apply_settings_memory [OF sequences_plain(4)])
  qed
  then show "geometry_agrees (use_frame_format mode GBRG ff cam) (apply_settings enabled settings c)"
    "vb_memory (apply_settings enabled settings c) SYSTEM_FSM_STATE_REG = vb_memory c SYSTEM_FSM_STATE_REG"
    "vb_memory (apply_settings enabled settings c) 0xAC6 = (if enabled then 1 else 0)"
    by blast+
qed

lemma patched_low:
  assumes "unat a < 0x2000"
  shows "vb_memory (patched b c) a = vb_memory c a"
  using assms by (simp add: patched_def vt_patch_def vb_store_other)

lemma ready_standby: "vb_memory (ready_state b c) SYSTEM_FSM_STATE_REG = FSM_SW_STBY"
  by (simp add: ready_state_def patched_low boot_state_def vb_put_control)

text \<open>
  C5: Configuring the VB1940 camera through the library ends, whether the camera has just been
  switched on or waits in standby: every wait of the boot sequence is satisfied, the camera is in
  standby, its registers hold the geometry of the mode that the driver's members now say, and it is
  in trigger mode exactly when the synchronizer makes pulses.
\<close>

theorem camera_configured:
  assumes "camera_session bus c y (fst (fst s))" and "snd (fst s) = y"
    and "cs_frame_formats (snd s) = vb1940_frame_format" and "0 \<le> mode" "mode < VB1940_MODE_COUNT"
    and "vb_memory c SYSTEM_FSM_STATE_REG \<in> {FSM_SYSTEM_UP, FSM_SW_STBY}" and "blobs_fit b"
  shows "\<exists>s' c'. vb1940_configure (get_i2c bus I2C_CTRL) b mode s = Some (Inr (), s') \<and>
    camera_session bus c' y (fst (fst s')) \<and> snd (fst s') = y \<and> vb_memory c' SYSTEM_FSM_STATE_REG = FSM_SW_STBY \<and>
    cs_mode (snd s') = Some mode \<and> geometry_agrees (snd s') c' \<and>
    vb_memory c' 0xAC6 = (if sync_is_enabled y then 1 else 0)"
proof -
  have "mode = 0 \<or> mode = 1 \<or> mode = 2 \<or> mode = 3" using assms(4,5) by (auto simp: VB1940_MODE_COUNT_def)
  then obtain ff settings where m: "vb1940_frame_format mode = Some ff" "vb1940_mode_sequence mode = Some settings"
    by (auto simp: vb1940_frame_format_def vb1940_mode_sequence_def)
  note g = settings_geometry [OF m]
  let ?c = "apply_settings (sync_is_enabled y) settings (ready_state b c)"
  have "(camera_session bus c y (fst (fst s)) \<and> snd (fst s) = y) \<and> snd s = snd s" using assms(1,2) by simp
  from returnsD [OF vb1940_board.configure_rule [OF assms(7,6,3) m] this]
  obtain s' where s': "vb1940_configure (get_i2c bus I2C_CTRL) b mode s = Some (Inr (), s')"
      "camera_session bus ?c y (fst (fst s'))" "snd (fst s') = y" "snd s' = use_frame_format mode GBRG ff (snd s)"
    by auto
  moreover have "cs_mode (snd s') = Some mode" by (simp add: s'(4) use_frame_format_def)
  ultimately show ?thesis using g(1) [where cam = "snd s"] g(2,3) ready_standby [of b c]
    by (intro exI [of _ s'] exI [of _ ?c]) simp
qed

text \<open>The instances: a camera that has just been switched on, small blobs, the driver just made.\<close>

definition sample_blobs :: vb1940_blobs where
  "sample_blobs =
     \<lparr>vb1940_certificate = [0x30, 0x81], vb1940_fw = [0xEC], ldec_ram_content = [1, 2], rd_ram_seq_1_content = [],
      gt_ram_pat_content = [3], gt_ram_seq_1_content = [4], gt_ram_seq_2_content = [5], gt_ram_seq_3_content = [6],
      gt_ram_seq_4_content = [7], rd_ram_pat_content = [8]\<rparr>"

definition sample_driver :: "vb1940 \<Rightarrow> synchronizer \<Rightarrow> (vb1940 board hsb \<times> synchronizer) \<times> camera_sensor" where
  "sample_driver c y = ((fresh_camera_board 1 c, y), new_vb1940_sensor RAW_10 GBRG)"

definition pps_synchronizer :: synchronizer where
  "pps_synchronizer = \<lparr>sy_peers = [], sy_pps = Some (new_ptp_synchronizer\<lparr>pps_frequency_control := 1, pps_frequency := 30\<rparr>)\<rparr>"

lemma sample_session:
  "camera_session 1 c pps_synchronizer (fst (fst (sample_driver c pps_synchronizer)))"
  unfolding sample_driver_def fst_conv
  by (rule fresh_session) (simp_all add: pps_synchronizer_def new_ptp_synchronizer_def)

theorem camera_configured_witness:
  "\<exists>s' c'. vb1940_configure (get_i2c 1 I2C_CTRL) sample_blobs 1 (sample_driver new_vb1940 pps_synchronizer) = Some (Inr (), s') \<and>
    vb_memory c' SYSTEM_FSM_STATE_REG = FSM_SW_STBY \<and> geometry_agrees (snd s') c' \<and> vb_memory c' 0xAC6 = 1"
proof -
  have "snd (fst (sample_driver new_vb1940 pps_synchronizer)) = pps_synchronizer"
    "cs_frame_formats (snd (sample_driver new_vb1940 pps_synchronizer)) = vb1940_frame_format"
    by (simp_all add: sample_driver_def new_vb1940_sensor_def vb1940_initialize_supported_modes_def)
  moreover have "vb_memory new_vb1940 SYSTEM_FSM_STATE_REG \<in> {FSM_SYSTEM_UP, FSM_SW_STBY}"
    by (simp add: new_vb1940_def vb_reset_def)
  moreover have "blobs_fit sample_blobs" by (simp add: blobs_fit_def sample_blobs_def vt_patch_def)
  moreover have "sync_is_enabled pps_synchronizer" by (simp add: sync_is_enabled_def pps_synchronizer_def)
  ultimately show ?thesis
    using camera_configured [OF sample_session, of new_vb1940 1 sample_blobs] by (auto simp: VB1940_MODE_COUNT_def)
qed

subsection \<open>The geometry that the operator is told\<close>

lemma line_bytes:
  assumes "n < 2 ^ 16"
  shows "csi_to_bayer_received_line_bytes (of_nat n) = Inr (of_nat ((n + 7) div 8 * 8))"
proof -
  obtain r where r: "core_round_up (ucast (of_nat n :: u32)) 8 = Inr r" "unat r = (unat (of_nat n :: u32) + 7) div 8 * 8"
    using round_up_line [of 8 "of_nat n"] by auto
  have n: "unat (of_nat n :: u32) = n" using assms by (simp add: unat_of_nat_u32)
  have "(ucast r :: u32) = of_nat (unat r)" by simp
  with r n show ?thesis by (simp add: csi_to_bayer_received_line_bytes_def)
qed

text \<open>The bytes of a line, as the camera has them and as the driver and its converter compute them.\<close>

lemma camera_line_bytes:
  assumes bits: "unat (get_pixel_bits c) = 8 \<or> unat (get_pixel_bits c) = 10"
    and eight: "unat (get_pixel_width c) * unat (get_pixel_bits c) = 8 * n" and fits: "line_width_assertion c"
  shows "n \<le> 65528" "ucast (get_bytes_per_line c) = (of_nat ((n + 7) div 8 * 8) :: u32)"
proof -
  have w: "unat (get_pixel_width c) < 65536" using unsigned_less [of "get_pixel_width c", where 'a = nat] by simp
  have lwb: "unat (line_width_bits c) = 8 * n"
    using bits w eight by (auto simp: line_width_bits_def unat_word_ariths unsigned_ucast_eq take_bit_nat_eq_self)
  then show n: "n \<le> 65528" using fits by (simp add: line_width_assertion_def word_le_nat_alt)
  then have "(n + 7) div 8 \<le> 65535 div 8" by (intro div_le_mono) simp
  then have "(n + 7) div 8 * 8 \<le> 65528" by simp
  moreover define L where "L = (n + 7) div 8 * 8"
  ultimately have L: "L \<le> 65528" by simp
  have "unat ((line_width_bits c + 63) div 64 * 8) = L"
    using n L by (simp add: unat_word_ariths unat_div lwb L_def)
  then show "ucast (get_bytes_per_line c) = (of_nat ((n + 7) div 8 * 8) :: u32)"
    unfolding L_def [symmetric] using L by (simp add: get_bytes_per_line_def word_unat_eq_iff unsigned_ucast_eq unsigned_take_bit_eq take_bit_nat_eq_self
        unat_of_nat_u32)
qed

lemma driver_line_bytes:
  assumes f: "f = RAW_8 \<and> n = 4 * k \<or> f = RAW_10 \<and> n = 5 * k" and "4 * k < 65536"
    and cam: "cs_width cam = int (4 * k)" "cs_pixel_format cam = f"
  shows "csi_to_bayer_transmitted_line_bytes f (of_nat (4 * k)) = of_nat n" "vb1940_status_line_bytes cam = of_nat n"
proof -
  have "(of_nat (4 * k) * 5) div 4 = (of_nat (5 * k) :: u32)"
    using assms(2) by (simp add: word_unat_eq_iff unat_div unat_word_ariths unat_of_nat_u32)
  then show "csi_to_bayer_transmitted_line_bytes f (of_nat (4 * k)) = of_nat n"
    using f by (auto simp: csi_to_bayer_transmitted_line_bytes_def simp del: of_nat_mult)
  have "int (4 * k) * 10 div 8 = int (5 * k)" by simp
  then show "vb1940_status_line_bytes cam = of_nat n"
    using f by (auto simp: vb1940_status_line_bytes_def cam simp del: of_nat_mult)
qed

text \<open>
  C10: The operator that receives the frames expects frames of the size that the camera sends: with
  \<open>CsiToBayerOp\<close> as its converter the driver computes the camera's own length of a frame, start of
  the image and bytes per line, whenever driver and camera agree on the geometry and the width is a
  multiple of four.
\<close>

theorem converter_agrees:
  assumes "geometry_agrees cam c" and "4 dvd cs_width cam" and "line_width_assertion c"
  shows "\<exists>g. vb1940_configure_converter csi_to_bayer cam = Inr g \<and>
    csi_to_bayer_csi_length g = ucast (get_csi_length c) \<and> start_byte g = ucast (get_image_start_byte c) \<and>
    bytes_per_line g = ucast (get_bytes_per_line c)"
proof -
  define f w h where fwh: "f = cs_pixel_format cam" "w = unat (get_pixel_width c)" "h = get_pixel_height c"
  have cam: "cs_width cam = int w" "cs_height cam = int (unat h)" "cs_pixel_format cam = f" "get_pixel_bits c = pixel_bits f"
    using assms(1) by (simp_all add: geometry_agrees_def fwh)
  have "4 dvd w" using assms(2) cam(1) by (metis int_dvd_int_iff of_nat_numeral)
  then obtain k where k: "w = 4 * k" by blast
  have w: "4 * k < 65536" using unsigned_less [of "get_pixel_width c", where 'a = nat] k by (simp add: fwh(2))
  have "get_pixel_bits c \<noteq> 12" by (simp add: get_pixel_bits_def)
  then obtain n where f: "f = RAW_8 \<and> n = 4 * k \<or> f = RAW_10 \<and> n = 5 * k" using cam(4) by (cases f) (simp_all add: pixel_bits_def)
  define L where "L = (n + 7) div 8 * 8"
  have bits: "unat (get_pixel_bits c) = 8 \<or> unat (get_pixel_bits c) = 10" "w * unat (get_pixel_bits c) = 8 * n"
    using f by (auto simp: cam(4) pixel_bits_def k)
  note line = camera_line_bytes [OF bits(1) bits(2) [unfolded fwh(2)] assms(3), folded L_def]
  note driver = driver_line_bytes [OF f w cam(1) [unfolded k] cam(3), folded k]
  have received: "csi_to_bayer_received_line_bytes (of_nat n) = Inr (of_nat L)"
    using line_bytes [of n] line(1) by (simp add: L_def)
  have height: "word_of_int (int (unat h)) = (ucast h :: u32)" by simp
  have "vb1940_configure_converter csi_to_bayer cam = Inr \<lparr>start_byte = of_nat L, bytes_per_line = of_nat L,
      pixel_width = word_of_int (int w), pixel_height = ucast h, csi_pixel_format = f, trailing_bytes = of_nat L * 2\<rparr>"
    by (simp add: vb1940_configure_converter_def csi_to_bayer_def cam driver received height)
  then show ?thesis
    by (simp add: csi_to_bayer_csi_length_def get_csi_length_def get_image_start_byte_def Let_def line(2) mult.commute flip: fwh(3))
qed

text \<open>A camera set to 1920 by 1080 pixels of 10 bits.\<close>

definition sample_camera :: vb1940 where
  "sample_camera = apply_settings False VB1940_MODE_1920X1080_30FPS_SEQUENCE new_vb1940"

lemma sample_camera_geometry:
  "get_pixel_width sample_camera = 1920" "get_pixel_height sample_camera = 1080" "get_pixel_bits sample_camera = 10"
  using sequences_geometry(2)
  by (simp_all add: sample_camera_def geometry_simps apply_settings_memory [OF sequences_plain(2)])

theorem converter_agrees_witness:
  "\<exists>g. vb1940_configure_converter csi_to_bayer
       (use_frame_format 1 GBRG (the (vb1940_frame_format 1)) (new_vb1940_sensor RAW_10 GBRG)) = Inr g \<and>
     csi_to_bayer_csi_length g = 2599200 \<and> start_byte g = 2400"
proof -
  let ?cam = "use_frame_format 1 GBRG (the (vb1940_frame_format 1)) (new_vb1940_sensor RAW_10 GBRG)"
  have "geometry_agrees ?cam sample_camera" "4 dvd cs_width ?cam" "line_width_assertion sample_camera"
    by (simp_all add: geometry_agrees_def sample_camera_geometry use_frame_format_def vb1940_frame_format_def pixel_bits_def
        line_width_assertion_def line_width_bits_def)
  from converter_agrees [OF this] obtain g where "vb1940_configure_converter csi_to_bayer ?cam = Inr g"
      "csi_to_bayer_csi_length g = ucast (get_csi_length sample_camera)" "start_byte g = ucast (get_image_start_byte sample_camera)"
    by blast
  then show ?thesis
    by (simp add: get_csi_length_def get_image_start_byte_def get_bytes_per_line_def line_width_bits_def sample_camera_geometry Let_def)
qed

subsection \<open>Streaming\<close>

text \<open>The camera on the board and a register of the board, as they are in a state of the host.\<close>

definition board_camera_state :: "'p board hsb \<Rightarrow> 'p" where
  "board_camera_state s = i2c_env (fst (device (link s)))"

definition board_register :: "'p board hsb \<Rightarrow> u32 \<Rightarrow> u32" where
  "board_register s = get_reg (fst (device (link s)))"

lemma session_board:
  assumes "board_session att per c y s"
  shows "board_camera_state s = c"
    "sync_is_enabled y \<Longrightarrow> board_register s VSYNC_CONTROL = (if sy_peers y = [] then 0 else 1)"
  using assms
  by (auto simp: board_session_def board_connected_i2c_def connected_def i2c_board_def board_camera_state_def
      board_register_def pulses_follow_def sync_is_enabled_def)

text \<open>
  C4: \<open>start\<close> makes the camera stream and the board send pulses, when the synchronizer is one that
  makes them; \<open>stop\<close> after it brings the camera back to standby, with the peers as they were before,
  and stops the pulses when no other camera needs them.
\<close>

theorem camera_streams:
  assumes "camera_session bus c y (fst s)" and "snd s = y" and "peer \<notin> set (sy_peers y)"
  shows "\<exists>s1 s2. vb1940_start (get_i2c bus I2C_CTRL) peer s = (Inr (), s1) \<and>
    is_streaming (board_camera_state (fst s1)) \<and> sy_peers (snd s1) = sy_peers y @ [peer] \<and>
    (sync_is_enabled y \<longrightarrow> board_register (fst s1) VSYNC_CONTROL = 1) \<and>
    vb1940_stop (get_i2c bus I2C_CTRL) peer s1 = (Inr (), s2) \<and>
    vb_memory (board_camera_state (fst s2)) SYSTEM_FSM_STATE_REG = FSM_SW_STBY \<and> sy_peers (snd s2) = sy_peers y \<and>
    (sync_is_enabled y \<longrightarrow> board_register (fst s2) VSYNC_CONTROL = (if sy_peers y = [] then 0 else 1))"
proof -
  let ?c1 = "vb_set SYSTEM_FSM_STATE_REG FSM_STREAMING c"
  have p: "camera_session bus c y (fst s) \<and> snd s = y" using assms(1,2) by simp
  obtain s1 y1 where 1: "vb1940_start (get_i2c bus I2C_CTRL) peer s = (Inr (), s1)"
      "camera_session bus ?c1 y1 (fst s1) \<and> snd s1 = y1"
      "sy_peers y1 = sy_peers y @ [peer]" "sync_is_enabled y1 = sync_is_enabled y"
    using vb1940_board.start_rule [OF assms(3) p] by blast
  obtain s2 y2 where 2: "vb1940_stop (get_i2c bus I2C_CTRL) peer s1 = (Inr (), s2)"
      "camera_session bus (vb_set SYSTEM_FSM_STATE_REG FSM_SW_STBY ?c1) y2 (fst s2) \<and> snd s2 = y2"
      "sy_peers y2 = remove1 peer (sy_peers y1)" "sync_is_enabled y2 = sync_is_enabled y1"
    using vb1940_board.stop_rule [OF 1(2), of peer] by blast
  have "sy_peers y2 = sy_peers y" using 1(3) 2(3) assms(3) by (simp add: remove1_append)
  moreover note session_board [OF conjunct1 [OF 1(2)]] session_board [OF conjunct1 [OF 2(2)]]
  ultimately show ?thesis using 1 2 by (intro exI [of _ s1] exI [of _ s2]) (simp add: is_streaming_def)
qed

theorem camera_streams_witness:
  "\<exists>s1 s2. vb1940_start (get_i2c 1 I2C_CTRL) 7 (fst (sample_driver new_vb1940 pps_synchronizer)) = (Inr (), s1) \<and>
    is_streaming (board_camera_state (fst s1)) \<and> board_register (fst s1) VSYNC_CONTROL = 1 \<and>
    vb1940_stop (get_i2c 1 I2C_CTRL) 7 s1 = (Inr (), s2) \<and> board_register (fst s2) VSYNC_CONTROL = 0"
proof -
  have "snd (fst (sample_driver new_vb1940 pps_synchronizer)) = pps_synchronizer" by (simp add: sample_driver_def)
  moreover have "7 \<notin> set (sy_peers pps_synchronizer)" "sy_peers pps_synchronizer = []" "sync_is_enabled pps_synchronizer"
    by (simp_all add: pps_synchronizer_def sync_is_enabled_def)
  ultimately show ?thesis using camera_streams [OF sample_session] by fastforce
qed

subsection \<open>When the camera is not ready\<close>

text \<open>
  C16: A camera that is neither just switched on nor in standby, one that streams in particular, is refused: what the
  driver does is exactly to read the device id, to read the state once, to read it 30 times more, each time after 10 ms and
  each time the same, and to throw, in the very state of the host and the board that these readings lead to. Neither the
  camera nor the driver's members have changed.
\<close>

theorem busy_camera_refused:
  assumes "camera_session bus c y (fst (fst s))" and "snd (fst s) = y"
    and "vb_memory c SYSTEM_FSM_STATE_REG \<notin> {FSM_SYSTEM_UP, FSM_SW_STBY}"
  shows "\<exists>h'. given_up_readings (get_i2c bus I2C_CTRL) (fst (fst s)) =
      (Inr (replicate 31 (vb_memory c SYSTEM_FSM_STATE_REG)), h') \<and>
    vb1940_configure (get_i2c bus I2C_CTRL) b mode s =
      Some (Inl (Runtime_error ''Incorrect system fsm state. Please reconnect camera''), ((h', y), snd s)) \<and>
    board_camera_state h' = c"
proof -
  obtain h cam where s: "s = ((h, y), cam)" using assms(2) by (cases s) auto
  from vb1940_board.configure_fails [OF assms(3), of bus y h b mode y cam] assms(1) obtain h' where
    h': "given_up_readings (get_i2c bus I2C_CTRL) h = (Inr (replicate 31 (vb_memory c SYSTEM_FSM_STATE_REG)), h')"
    "vb1940_configure (get_i2c bus I2C_CTRL) b mode ((h, y), cam) =
      Some (Inl (Runtime_error ''Incorrect system fsm state. Please reconnect camera''), ((h', y), cam))"
    "camera_session bus c y h'" unfolding s fst_conv by blast
  from session_board(1) [OF h'(3)] h'(1,2) show ?thesis unfolding s by (intro exI [of _ h']) simp
qed

theorem busy_camera_refused_witness:
  "\<exists>h'. given_up_readings (get_i2c 1 I2C_CTRL)
      (fst (fst (sample_driver (vb_set SYSTEM_FSM_STATE_REG FSM_STREAMING new_vb1940) pps_synchronizer))) =
      (Inr (replicate 31 FSM_STREAMING), h') \<and>
    (\<exists>s'. vb1940_configure (get_i2c 1 I2C_CTRL) sample_blobs 0
      (sample_driver (vb_set SYSTEM_FSM_STATE_REG FSM_STREAMING new_vb1940) pps_synchronizer) =
      Some (Inl (Runtime_error ''Incorrect system fsm state. Please reconnect camera''), s') \<and> fst (fst s') = h') \<and>
    is_streaming (board_camera_state h')"
proof -
  let ?c = "vb_set SYSTEM_FSM_STATE_REG FSM_STREAMING new_vb1940"
  have sync: "snd (fst (sample_driver ?c pps_synchronizer)) = pps_synchronizer" by (simp add: sample_driver_def)
  have c: "vb_memory ?c SYSTEM_FSM_STATE_REG = FSM_STREAMING" by simp
  then have busy: "vb_memory ?c SYSTEM_FSM_STATE_REG \<notin> {FSM_SYSTEM_UP, FSM_SW_STBY}" by simp
  obtain h' where h': "given_up_readings (get_i2c 1 I2C_CTRL) (fst (fst (sample_driver ?c pps_synchronizer))) =
        (Inr (replicate 31 (vb_memory ?c SYSTEM_FSM_STATE_REG)), h')"
      "vb1940_configure (get_i2c 1 I2C_CTRL) sample_blobs 0 (sample_driver ?c pps_synchronizer) =
        Some (Inl (Runtime_error ''Incorrect system fsm state. Please reconnect camera''),
          ((h', pps_synchronizer), snd (sample_driver ?c pps_synchronizer)))"
      "board_camera_state h' = ?c"
    using busy_camera_refused [OF sample_session sync busy, of sample_blobs 0] by blast
  then show ?thesis using c by (intro exI [of _ h']) (simp add: is_streaming_def)
qed

context vb1940_host
begin

text \<open>A wait for a value that the camera does not reach by itself never returns.\<close>

lemma wait_register_never:
  assumes reg: "reg \<notin> {SYSTEM_UP_REG, BOOT_REG}" and other: "vb_memory c reg \<noteq> v" and s: "session c y s"
  shows "wait_register controller reg v s = None"
proof (rule ccontr)
  have "runs (session c y) (hthen (sleep_ms 10) (get_register controller reg)) (\<lambda>r s. r = vb_memory c reg \<and> session c y s)"
    by (rule runs_hthen [OF sleep_rule get_register_rule [OF reg]])
  note read = runsD [OF this]
  assume "wait_register controller reg v s \<noteq> None"
  then obtain x where "wait_register controller reg v s = Some x" by blast
  then have "controller = controller \<and> reg = reg \<and> v = v \<longrightarrow> \<not> session c y s"
  proof (rule wait_register.raw_induct [where P = "\<lambda>i r u s x. i = controller \<and> r = reg \<and> u = v \<longrightarrow> \<not> session c y s", rotated],
      intro impI notI, elim conjE)
    fix wait i r u s x
    assume ih: "\<And>i r u s x. wait i r u s = Some x \<Longrightarrow> i = controller \<and> r = reg \<and> u = v \<longrightarrow> \<not> session c y s"
      and step: "(case hthen (sleep_ms 10) (get_register i r) s of
        (Inl e, s') \<Rightarrow> Some (Inl e, s') | (Inr ret, s') \<Rightarrow> if ret = u then Some (Inr (), s') else wait i r u s') = Some x"
      and eq: "session c y s" "i = controller" "r = reg" "u = v"
    from read [OF eq(1)] obtain s' where "hthen (sleep_ms 10) (get_register controller reg) s = (Inr (vb_memory c reg), s')"
        "session c y s'" by blast
    with step eq other ih [of controller reg v s' x] show False by simp
  qed
  with s show False by simp
qed

end

text \<open>
  C17: The driver's waits have no limit: while the camera stays in another state than the one waited
  for, the driver never returns.
\<close>

theorem wait_never_returns:
  assumes "camera_session bus c y s" and "reg \<notin> {SYSTEM_UP_REG, BOOT_REG}" and "vb_memory c reg \<noteq> v"
  shows "wait_register (get_i2c bus I2C_CTRL) reg v s = None"
  by (rule vb1940_board.wait_register_never [OF assms(2,3,1)])

theorem wait_never_returns_witness:
  "wait_register (get_i2c 1 I2C_CTRL) SYSTEM_FSM_STATE_REG FSM_BOOT (fresh_camera_board 1 new_vb1940) = None"
proof -
  have "camera_session 1 new_vb1940 null_synchronizer (fresh_camera_board 1 new_vb1940)"
    by (rule fresh_session) (simp_all add: null_synchronizer_def)
  moreover have "vb_memory new_vb1940 SYSTEM_FSM_STATE_REG \<noteq> FSM_BOOT" by (simp add: new_vb1940_def vb_reset_def)
  ultimately show ?thesis by (intro wait_never_returns) simp_all
qed

subsection \<open>Registers and memories of the camera\<close>

text \<open>
  Setting the exposure leaves the value, brought into the range of the camera, in the two exposure
  registers, low byte first, and changes no other register.
\<close>

theorem exposure_set:
  assumes "camera_session bus c y s"
  shows "\<exists>s'. vb1940_set_exposure_reg (get_i2c bus I2C_CTRL) v s = (Inr (), s') \<and>
    int (unat (vb_memory (board_camera_state s') REG_EXP)) + 256 * int (unat (vb_memory (board_camera_state s') (REG_EXP + 1))) =
      clamp 0x0004 0xFFFF v \<and>
    (\<forall>a. a \<noteq> REG_EXP \<longrightarrow> a \<noteq> REG_EXP + 1 \<longrightarrow> vb_memory (board_camera_state s') a = vb_memory c a)"
proof -
  define e where "e = clamp 0x0004 0xFFFF v"
  define lo hi :: u8 where lohi: "lo = word_of_int (e mod 256)" "hi = word_of_int (e div 256 mod 256)"
  let ?c = "vb_put (REG_EXP + 1) hi (vb_put REG_EXP lo c)"
  have "runs (camera_session bus c y) (vb1940_set_exposure_reg (get_i2c bus I2C_CTRL) v) (\<lambda>_. camera_session bus ?c y)"
    unfolding vb1940_set_exposure_reg_def Let_def hseq.simps lohi e_def
    by (rule runs_hthen [OF vb1940_board.set_register_8_rule], rule runs_hthen [OF vb1940_board.set_register_8_rule],
        rule runs_hthen [OF vb1940_board.sleep_rule], rule runs_hret)
  from runsD [OF this assms] obtain s' where s': "vb1940_set_exposure_reg (get_i2c bus I2C_CTRL) v s = (Inr (), s')"
      "camera_session bus ?c y s'" by auto
  have mem: "vb_memory ?c = (vb_memory c)(REG_EXP := lo, REG_EXP + 1 := hi)"
    by (simp add: vb_put_plain REG_EXP_def VB1940_CALLBACK_REGISTERS_def)
  have range: "0 \<le> e" "e < 65536" by (auto simp: e_def clamp_def)
  have "e div 256 < 256" using range(2) by linarith
  then have bytes: "int (unat lo) + 256 * int (unat hi) = e"
    using range(1) by (simp add: lohi uint_word_of_int)
  have "REG_EXP + 1 \<noteq> REG_EXP" by simp
  then show ?thesis using s'(1) bytes
    by (intro exI [of _ s']) (simp add: session_board(1) [OF s'(2)] mem flip: e_def)
qed

theorem exposure_set_witness:
  "\<exists>s'. vb1940_set_exposure_reg (get_i2c 1 I2C_CTRL) 500 (fresh_camera_board 1 new_vb1940) = (Inr (), s') \<and>
    int (unat (vb_memory (board_camera_state s') REG_EXP)) + 256 * int (unat (vb_memory (board_camera_state s') (REG_EXP + 1))) = 500"
proof -
  have "camera_session 1 new_vb1940 null_synchronizer (fresh_camera_board 1 new_vb1940)"
    by (rule fresh_session) (simp_all add: null_synchronizer_def)
  from exposure_set [OF this, of 500] show ?thesis by (auto simp: clamp_def)
qed

text \<open>
  C11: A blob is written to the camera page by page without gap or overlap: afterwards the camera's
  memory holds the blob from its start address on, and nothing else has changed.
\<close>

theorem pages_written:
  assumes "camera_session bus c y s" and "0x518 \<le> unat addr" "unat addr + length data \<le> 65536"
  shows "\<exists>s'. write_data_in_pages (get_i2c bus I2C_CTRL) addr data s = (Inr (), s') \<and>
    (\<forall>a. vb_memory (board_camera_state s') a =
       (if unat addr \<le> unat a \<and> unat a < unat addr + length data then data ! (unat a - unat addr) else vb_memory c a))"
proof -
  obtain s' where s': "write_data_in_pages (get_i2c bus I2C_CTRL) addr data s = (Inr (), s')"
      "camera_session bus (vb_store (ucast addr) data c) y s'"
    using runsD [OF vb1940_board.write_data_in_pages_rule [OF assms(2,3)] assms(1)] by auto
  show ?thesis
  proof (cases "unat addr = 65536")
    case True
    then have "data = []" using assms(3) by simp
    then show ?thesis using s' session_board(1) [OF s'(2)] True
      by (intro exI [of _ s']) (auto simp: vb_store_Nil)
  next
    case False
    then have "unat addr < 65536" using assms(3) by simp
    then have "unat (ucast addr :: u16) = unat addr" by (simp add: unsigned_ucast_eq take_bit_nat_eq_self)
    then show ?thesis using s' session_board(1) [OF s'(2)]
      by (intro exI [of _ s']) (simp add: vb_store_def)
  qed
qed

theorem pages_written_witness:
  "\<exists>s'. write_data_in_pages (get_i2c 1 I2C_CTRL) 0x2000 (replicate 200 7) (fresh_camera_board 1 new_vb1940) = (Inr (), s') \<and>
    vb_memory (board_camera_state s') 0x20C7 = 7 \<and> vb_memory (board_camera_state s') 0x20C8 = 0"
proof -
  have "camera_session 1 new_vb1940 null_synchronizer (fresh_camera_board 1 new_vb1940)"
    by (rule fresh_session) (simp_all add: null_synchronizer_def)
  from pages_written [OF this, where addr = "0x2000" and data = "replicate 200 7"] show ?thesis
    by (auto simp: new_vb1940_def vb_reset_def)
qed

subsection \<open>Several cameras\<close>

text \<open>
  C15: Whatever cameras attach to a synchronizer and detach from it, in any order, the board sends
  pulses exactly while some camera is attached, and the other users of the board are not disturbed.
\<close>

theorem synchronizer_pulses:
  assumes "board_session att per env y s" and "peers_after (sy_peers y) ops = Some ps"
  shows "\<exists>s' y'. sync_run ops (s, y) = (Inr (), (s', y')) \<and> board_session att per env y' s' \<and> sy_peers y' = ps \<and>
    (sync_is_enabled y \<longrightarrow> board_register s' VSYNC_CONTROL = (if ps = [] then 0 else 1))"
proof -
  obtain R h where c: "board.st att per env R 0 h s" "block_enable h" "caches_agree R h" "pulses_follow R y"
    using assms(1) by (auto simp: board_session_def board_connected_i2c_def)
  have latency: "EMULATOR_LATENCY \<le> 90000000" by (simp add: EMULATOR_LATENCY_def)
  have "\<forall>a \<in> vsync_registers. \<forall>v. board_effect (a, v) = Some [(a, v)]"
    using vsync_registers_board(2) by blast
  from register_device.sync_run_rule [OF board_device [OF latency] this c(1,4) assms(2)]
  obtain s' y' R' where r: "sync_run ops (s, y) = (Inr (), (s', y'))" "board.st att per env R' 0 h s'"
      "pulses_follow R' y'" "sy_peers y' = ps" "\<forall>a. a \<notin> vsync_registers \<longrightarrow> R' a = R a" "sy_pps y' = None \<longleftrightarrow> sy_pps y = None"
    by (elim exE conjE) (rule that)
  have "caches_agree R' h"
    by (rule caches_agree_cong [OF c(3)]) (use r(5) vsync_registers_board(3) in blast)
  with r(2,3) c(2) have "board_session att per env y' s'" by (auto simp: board_session_def board_connected_i2c_def)
  with session_board(2) [OF this] r(1,4,6) show ?thesis
    by (intro exI [of _ s'] exI [of _ y']) (auto simp: sync_is_enabled_def)
qed

theorem synchronizer_pulses_witness:
  "\<exists>s' y'. sync_run [(True, 1), (True, 2), (False, 1)] (fresh_camera_board 1 new_vb1940, pps_synchronizer) = (Inr (), (s', y')) \<and>
    sy_peers y' = [2] \<and> board_register s' VSYNC_CONTROL = 1"
proof -
  have "camera_session 1 new_vb1940 pps_synchronizer (fresh_camera_board 1 new_vb1940)"
    by (rule fresh_session) (simp_all add: pps_synchronizer_def new_ptp_synchronizer_def)
  moreover have "peers_after (sy_peers pps_synchronizer) [(True, 1), (True, 2), (False, 1)] = Some [2]"
    "sync_is_enabled pps_synchronizer"
    by (simp_all add: pps_synchronizer_def sync_is_enabled_def)
  ultimately show ?thesis using synchronizer_pulses by fastforce
qed

end
