(* ===== verification/Camera_Eeprom.thy ===== *)
theory Camera_Eeprom
  imports Vb1940_Sensor
begin

text \<open>
  Reading the calibration data of the VB1940 module from its EEPROM. The emulated camera has no
  EEPROM, so the peripheral is a parameter: an EEPROM answers an address of two bytes with its
  contents from there on.
\<close>

definition eeprom_contents :: "(u16 \<Rightarrow> u8) \<Rightarrow> u16 \<Rightarrow> nat \<Rightarrow> bytes" where
  "eeprom_contents mem a n = map (\<lambda>k. mem (a + of_nat k)) [0..<n]"

definition double_at :: "(u16 \<Rightarrow> u8) \<Rightarrow> u16 \<Rightarrow> u64" where
  "double_at mem a = be_word (eeprom_contents mem a 8)"

lemma length_eeprom_contents [simp]: "length (eeprom_contents mem a n) = n"
  by (simp add: eeprom_contents_def)

lemma eeprom_contents_append:
  "eeprom_contents mem a n @ eeprom_contents mem (a + of_nat n) m = eeprom_contents mem a (n + m)"
proof (rule nth_equalityI)
  fix i
  assume "i < length (eeprom_contents mem a n @ eeprom_contents mem (a + of_nat n) m)"
  then have i: "i < n + m" by simp
  show "(eeprom_contents mem a n @ eeprom_contents mem (a + of_nat n) m) ! i = eeprom_contents mem a (n + m) ! i"
  proof (cases "i < n")
    case True
    with i show ?thesis by (simp add: nth_append eeprom_contents_def)
  next
    case False
    then have "a + of_nat n + of_nat (i - n) = a + of_nat i" by (simp add: add.assoc flip: of_nat_add)
    moreover have "i - n < m" using i False by simp
    ultimately show ?thesis using i False by (simp add: nth_append eeprom_contents_def)
  qed
qed simp

lemma eeprom_contents_slice:
  "k + m \<le> n \<Longrightarrow> take m (drop k (eeprom_contents mem a n)) = eeprom_contents mem (a + of_nat k) m"
  by (auto simp: eeprom_contents_def list_eq_iff_nth_eq add.assoc)

lemma next_buffer_reply:
  assumes "length reply = n" and "n < 2 ^ 32"
  shows "\<exists>d. next_buffer (new_deserializer reply (length reply)) (replicate n 0) = Some (reply, d)"
proof -
  have "d_ok (new_deserializer reply n)" "unread (new_deserializer reply n) = reply @ []"
    using assms by (simp_all add: new_deserializer_ok)
  from next_bytes_unread [OF this assms(1)] assms show ?thesis
    by (auto simp: next_buffer_def next_pointer_def)
qed

context camera_host
begin

lemma get_eeprom_page_rule:
  assumes eeprom: "\<And>a n. answer c EEPROM_I2C_ADDRESS (be_bytes 2 (a :: u16)) n = Some (eeprom_contents mem a n, c)"
    and page: "page < EEPROM_MAX_PAGE_NUM" "off < EEPROM_PAGE_SIZE" "len \<le> EEPROM_PAGE_SIZE - off"
  shows "runs (session c y) (get_eeprom_page controller page off len)
    (\<lambda>v s. v = eeprom_contents mem (eeprom_address page off) (unat len) \<and> session c y s)"
proof -
  have "unat off < 64" using page(2) by (simp add: EEPROM_PAGE_SIZE_def word_less_nat_alt)
  then have "unat (EEPROM_PAGE_SIZE - off) = 64 - unat off"
    by (subst unat_sub) (simp_all add: EEPROM_PAGE_SIZE_def word_le_nat_alt)
  then have len: "unat len \<le> 64" using page(3) by (simp add: word_le_nat_alt)
  then have "unat ((len + 3) div 4) \<le> 16" by (simp add: unat_div unat_word_ariths)
  then have fits: "transaction_fits EEPROM_I2C_ADDRESS (be_bytes 2 (eeprom_address page off)) len"
    using len by (simp add: transaction_fits_def EEPROM_I2C_ADDRESS_def word_le_nat_alt)
  have reply: "\<exists>d. next_buffer (new_deserializer r (length r)) (replicate (unat len) 0) = Some (r, d)"
    if "r = eeprom_contents mem (eeprom_address page off) (unat len)" for r
    using next_buffer_reply [of r "unat len"] that len by simp
  have guards: "\<not> EEPROM_MAX_PAGE_NUM \<le> page" "\<not> (EEPROM_PAGE_SIZE \<le> off \<or> EEPROM_PAGE_SIZE - off < len)"
    using page by (simp_all add: not_le not_less)
  have pass: "hthen (hthrow_if False e) m = m" for e and m :: "('d hsb, bytes) hm"
    by (simp add: hthen_def hbind_def fun_eq_iff)
  show ?thesis
    unfolding get_eeprom_page_def eq_False [THEN iffD2, OF guards(1)] eq_False [THEN iffD2, OF guards(2)] pass
    by (rule runs_hbind_val [OF transaction_rule [OF fits eeprom]], rule runs_hret_conseq) (use reply [OF refl] in auto)
qed

lemma collect_pages_rule:
  assumes eeprom: "\<And>a n. answer c EEPROM_I2C_ADDRESS (be_bytes 2 (a :: u16)) n = Some (eeprom_contents mem a n, c)"
    and "p + n \<le> 256"
  shows "runs (session c y) (collect_pages controller [p..<p + n])
    (\<lambda>v s. v = eeprom_contents mem (of_nat (64 * p)) (64 * n) \<and> session c y s)"
  using assms(2)
proof (induction n arbitrary: p)
  case 0
  show ?case by (simp add: runs_def eeprom_contents_def)
next
  case (Suc n)
  have p: "unat (of_nat p :: u32) = p" using Suc.prems by (simp add: unat_of_nat_u32)
  have address: "eeprom_address (of_nat p) 0 = of_nat (64 * p)"
  proof -
    have "unat (push_bit 6 (of_nat p :: u32) + 0) = 64 * p"
      using Suc.prems by (simp add: push_bit_eq_mult unat_word_ariths p)
    then have "ucast (push_bit 6 (of_nat p :: u32) + 0) = (of_nat (64 * p) :: u16)"
      by (metis of_nat_unat)
    then show ?thesis by (simp only: eeprom_address_def)
  qed
  have "runs (session c y) (get_eeprom_page controller (of_nat p) 0 64)
      (\<lambda>v s. v = eeprom_contents mem (eeprom_address (of_nat p) 0) (unat (64 :: u32)) \<and> session c y s)"
    by (rule get_eeprom_page_rule [OF eeprom])
      (use Suc.prems in \<open>simp_all add: EEPROM_MAX_PAGE_NUM_def EEPROM_PAGE_SIZE_def word_less_nat_alt p\<close>)
  then have page: "runs (session c y) (get_eeprom_page controller (of_nat p) 0 64)
      (\<lambda>v s. v = eeprom_contents mem (of_nat (64 * p)) 64 \<and> session c y s)"
    by (simp add: address)
  have rest: "runs (session c y) (collect_pages controller [Suc p..<Suc p + n])
      (\<lambda>v s. v = eeprom_contents mem (of_nat (64 * Suc p)) (64 * n) \<and> session c y s)"
    by (rule Suc.IH) (use Suc.prems in simp)
  have upt: "[p..<p + Suc n] = p # [Suc p..<Suc p + n]" by (simp add: upt_rec [of p])
  have append: "eeprom_contents mem (of_nat (64 * p)) 64 @ eeprom_contents mem (of_nat (64 * Suc p)) (64 * n) =
      eeprom_contents mem (of_nat (64 * p)) (64 * Suc n)"
    using eeprom_contents_append [of mem "of_nat (64 * p)" 64 "64 * n"] by (simp add: add.commute)
  show ?case unfolding upt collect_pages.simps
    by (rule runs_hbind_val [OF page], rule runs_hbind_val [OF rest], rule runs_hret_conseq) (simp only: append simp_thms)
qed

lemma read_calibration_rule:
  assumes eeprom: "\<And>a n. answer c EEPROM_I2C_ADDRESS (be_bytes 2 (a :: u16)) n = Some (eeprom_contents mem a n, c)"
  shows "runs (session c y) (read_calibration_from_eeprom controller rgb)
    (\<lambda>v s. v = parse_calibration_data (map (\<lambda>k. double_at mem ((if rgb then 0 else 256) + of_nat (8 * k))) [0..<30]) \<and>
       session c y s)"
proof -
  let ?base = "if rgb then 0 else 256 :: u16"
  let ?raw = "eeprom_contents mem ?base 256"
  have "runs (session c y) (collect_pages controller (if rgb then [0..<4] else [4..<8])) (\<lambda>v s. v = ?raw \<and> session c y s)"
    using collect_pages_rule [OF eeprom, where p = 0 and n = 4 and y = y]
      collect_pages_rule [OF eeprom, where p = 4 and n = 4 and y = y] by simp
  note pages = this
  have "parse_doubles ?raw ks = Inr (map (\<lambda>k. double_at mem (?base + of_nat (8 * k))) ks)" if "\<forall>k \<in> set ks. k < 30" for ks
    using that
  proof (induction ks)
    case (Cons k ks)
    then have "bytes_to_double ?raw (k * 8) = Inr (double_at mem (?base + of_nat (8 * k)))"
      by (simp add: bytes_to_double_def double_at_def eeprom_contents_slice mult.commute)
    with Cons show ?case by simp
  qed simp
  then have doubles: "parse_doubles ?raw [0..<30] = Inr (map (\<lambda>k. double_at mem (?base + of_nat (8 * k))) [0..<30])"
    by simp
  have four: "unat (CALIB_SIZE div EEPROM_PAGE_SIZE) = 4" "(4 :: nat) * 2 = 8"
    by (simp_all add: CALIB_SIZE_def EEPROM_PAGE_SIZE_def)
  have lift: "hbind (hlift (Inr x)) f = f x" for x :: "u64 list" and f :: "u64 list \<Rightarrow> ('d hsb, calibration_data) hm"
    by (simp add: hbind_def fun_eq_iff)
  show ?thesis
    unfolding read_calibration_from_eeprom_def Let_def four
    by (rule runs_hbind_val [OF pages]) (simp only: doubles lift, rule runs_hret_conseq, simp)
qed

end

lemma parse_calibration_map:
  "parse_calibration_data (map D [0..<30]) =
     \<lparr>intrinsic_parameters = [map D [0..<4], map D [12..<16]],
      distortion_parameters = [map D [4..<12], map D [16..<24]],
      calibration_R = map D [24..<27], calibration_T = map D [27..<30]\<rparr>"
  by (simp add: parse_calibration_data_def)

text \<open>The number \<open>k\<close> of the calibration data, of the colour or of the infrared cameras.\<close>

definition calibration_double :: "(u16 \<Rightarrow> u8) \<Rightarrow> bool \<Rightarrow> nat \<Rightarrow> u64" where
  "calibration_double mem rgb k = double_at mem ((if rgb then 0 else 256) + of_nat (8 * k))"

text \<open>
  C18: The calibration data that the driver reads are the numbers at their places in the EEPROM of
  the module: 32 bytes of intrinsic parameters and 64 of distortion for each camera, then rotation and
  translation, of the colour cameras from address 0 on and of the infrared cameras from address 256.
\<close>

theorem calibration_read:
  assumes "board_session att per env y s"
    and "\<And>a n. bus_answer att per env (bus, ucast EEPROM_I2C_ADDRESS) (be_bytes 2 (a :: u16)) n = ((True, eeprom_contents mem a n), env)"
  shows "\<exists>s'. read_calibration_from_eeprom (get_i2c bus I2C_CTRL) rgb s =
      (Inr \<lparr>intrinsic_parameters = [map (calibration_double mem rgb) [0..<4], map (calibration_double mem rgb) [12..<16]],
            distortion_parameters = [map (calibration_double mem rgb) [4..<12], map (calibration_double mem rgb) [16..<24]],
            calibration_R = map (calibration_double mem rgb) [24..<27],
            calibration_T = map (calibration_double mem rgb) [27..<30]\<rparr>, s') \<and>
    board_session att per env y s'"
proof -
  have "board_answer att per bus env EEPROM_I2C_ADDRESS (be_bytes 2 (a :: u16)) n = Some (eeprom_contents mem a n, env)" for a n
    by (simp add: board_answer_def assms(2))
  from runsD [OF board_camera.read_calibration_rule [OF this, where rgb = rgb] assms(1)] show ?thesis
    unfolding calibration_double_def [symmetric] parse_calibration_map by blast
qed

text \<open>An EEPROM at its address whose byte at each address is the low half of the address.\<close>

definition sample_eeprom :: "unit \<Rightarrow> u32 \<times> u16 \<Rightarrow> bytes \<Rightarrow> bytes \<Rightarrow> (bool \<times> bytes) \<times> unit" where
  "sample_eeprom env key wb rb = ((True, eeprom_contents ucast (be_word wb) (length rb)), env)"

lemma sample_eeprom_answer:
  "bus_answer [(1, 0x51)] sample_eeprom () (1, ucast EEPROM_I2C_ADDRESS) (be_bytes 2 (a :: u16)) n =
    ((True, eeprom_contents ucast a n), ())"
  by (simp add: bus_answer_def sample_eeprom_def EEPROM_I2C_ADDRESS_def be_word_be_bytes)

theorem calibration_read_witness:
  "\<exists>s' d. read_calibration_from_eeprom (get_i2c 1 I2C_CTRL) True (fresh_i2c_board [(1, 0x51)] sample_eeprom ()) = (Inr d, s') \<and>
     calibration_R d ! 0 = 0xC0C1C2C3C4C5C6C7"
proof -
  have s: "board_session [(1, 0x51)] sample_eeprom () null_synchronizer (fresh_i2c_board [(1, 0x51)] sample_eeprom ())"
    by (rule fresh_session) (simp_all add: null_synchronizer_def)
  have "calibration_double ucast True 24 = 0xC0C1C2C3C4C5C6C7"
    by (simp add: calibration_double_def double_at_def eeprom_contents_def be_word_def upt_rec)
  then show ?thesis
    using calibration_read [OF s sample_eeprom_answer, of True] by (auto simp: upt_rec)
qed

end
