(* ===== verification/Imx274_Modes.thy ===== *)
theory Imx274_Modes
  imports HSB_Prelude
begin

text \<open>
  The register tables of the IMX274 camera (src/src/hololink/sensors/camera/imx274/imx274_mode.hpp)
  and the profile of its clock (renesas_bajoran_lite_ts1.hpp).
\<close>

definition IMX274_TABLE_WAIT_MS :: u16 where "IMX274_TABLE_WAIT_MS = 0xFFFF"

definition IMX274_WAIT_MS :: u8 where "IMX274_WAIT_MS = 0x01"

definition IMX274_WAIT_MS_START :: u8 where "IMX274_WAIT_MS_START = 0x0F"

definition IMX274_START_SEQUENCE :: "(u16 \<times> u8) list" where
  "IMX274_START_SEQUENCE =
     [(0x3000, 0x00), (0x303E, 0x02), (IMX274_TABLE_WAIT_MS, IMX274_WAIT_MS_START), (0x30F4, 0x00), (0x3018, 0xA2),
      (IMX274_TABLE_WAIT_MS, IMX274_WAIT_MS_START)]"

definition IMX274_STOP_SEQUENCE :: "(u16 \<times> u8) list" where
  "IMX274_STOP_SEQUENCE =
     [(IMX274_TABLE_WAIT_MS, IMX274_WAIT_MS), (0x3000, 0x01)]"

definition IMX274_MODE_3840X2160_60FPS_SEQUENCE :: "(u16 \<times> u8) list" where
  "IMX274_MODE_3840X2160_60FPS_SEQUENCE =
     [(IMX274_TABLE_WAIT_MS, IMX274_WAIT_MS), (0x3000, 0x12), (0x3120, 0xF0), (0x3122, 0x02), (0x3129, 0x9C),
      (0x312A, 0x02), (0x312D, 0x02), (0x310B, 0x00), (0x304C, 0x00), (0x304D, 0x03),
      (0x331C, 0x1A), (0x3502, 0x02), (0x3529, 0x0E), (0x352A, 0x0E), (0x352B, 0x0E),
      (0x3538, 0x0E), (0x3539, 0x0E), (0x3553, 0x00), (0x357D, 0x05), (0x357F, 0x05),
      (0x3581, 0x04), (0x3583, 0x76), (0x3587, 0x01), (0x35BB, 0x0E), (0x35BC, 0x0E),
      (0x35BD, 0x0E), (0x35BE, 0x0E), (0x35BF, 0x0E), (0x366E, 0x00), (0x366F, 0x00),
      (0x3670, 0x00), (0x3671, 0x00), (0x30EE, 0x01), (0x3304, 0x32), (0x3306, 0x32),
      (0x3590, 0x32), (0x3686, 0x32), (0x30E2, 0x01), (0x30F6, 0x07), (0x30F7, 0x01),
      (0x30F8, 0xC6), (0x30F9, 0x11), (0x3130, 0x78), (0x3131, 0x08), (0x3132, 0x70),
      (0x3133, 0x08), (0x30DD, 0x01), (0x30DE, 0x04), (0x30E0, 0x03), (0x3037, 0x01),
      (0x3038, 0x0C), (0x3039, 0x00), (0x303A, 0x0C), (0x303B, 0x0F), (0x3004, 0x01),
      (0x3005, 0x01), (0x3006, 0x00), (0x3007, 0x02), (0x300C, 0x0C), (0x300D, 0x00),
      (0x300E, 0x00), (0x3019, 0x00), (0x3A41, 0x08), (0x3342, 0x0A), (0x3343, 0x00),
      (0x3344, 0x16), (0x3345, 0x00), (0x3528, 0x0E), (0x3554, 0x1F), (0x3555, 0x01),
      (0x3556, 0x01), (0x3557, 0x01), (0x3558, 0x01), (0x3559, 0x00), (0x355A, 0x00),
      (0x35BA, 0x0E), (0x366A, 0x1B), (0x366B, 0x1A), (0x366C, 0x19), (0x366D, 0x17),
      (0x33A6, 0x01), (0x306B, 0x05), (IMX274_TABLE_WAIT_MS, IMX274_WAIT_MS)]"

text \<open>
  The array is declared with 87 elements and initialized with 84: the others are pairs of zeros, which
  the driver writes like the rest.
\<close>

definition IMX274_MODE_1920X1080_60FPS_SEQUENCE :: "(u16 \<times> u8) list" where
  "IMX274_MODE_1920X1080_60FPS_SEQUENCE =
     [(IMX274_TABLE_WAIT_MS, IMX274_WAIT_MS), (0x3000, 0x12), (0x3120, 0xF0), (0x3122, 0x02), (0x3129, 0x9C),
      (0x312A, 0x02), (0x312D, 0x02), (0x310B, 0x00), (0x304C, 0x00), (0x304D, 0x03),
      (0x331C, 0x1A), (0x3502, 0x02), (0x3529, 0x0E), (0x352A, 0x0E), (0x352B, 0x0E),
      (0x3538, 0x0E), (0x3539, 0x0E), (0x3553, 0x00), (0x357D, 0x05), (0x357F, 0x05),
      (0x3581, 0x04), (0x3583, 0x76), (0x3587, 0x01), (0x35BB, 0x0E), (0x35BC, 0x0E),
      (0x35BD, 0x0E), (0x35BE, 0x0E), (0x35BF, 0x0E), (0x366E, 0x00), (0x366F, 0x00),
      (0x3670, 0x00), (0x3671, 0x00), (0x30EE, 0x01), (0x3304, 0x32), (0x3306, 0x32),
      (0x3590, 0x32), (0x3686, 0x32), (0x30E2, 0x02), (0x30F6, 0x04), (0x30F7, 0x01),
      (0x30F8, 0x0C), (0x30F9, 0x12), (0x3130, 0x40), (0x3131, 0x04), (0x3132, 0x38),
      (0x3133, 0x04), (0x30DD, 0x01), (0x30DE, 0x07), (0x30DF, 0x00), (0x30E0, 0x04),
      (0x30E1, 0x00), (0x3037, 0x01), (0x3038, 0x0C), (0x3039, 0x00), (0x303A, 0x0C),
      (0x303B, 0x0F), (0x3004, 0x02), (0x3005, 0x21), (0x3006, 0x00), (0x3007, 0xB1),
      (0x300C, 0x08), (0x300D, 0x00), (0x3019, 0x00), (0x3A41, 0x08), (0x3342, 0x0A),
      (0x3343, 0x00), (0x3344, 0x1A), (0x3345, 0x00), (0x3528, 0x0E), (0x3554, 0x00),
      (0x3555, 0x01), (0x3556, 0x01), (0x3557, 0x01), (0x3558, 0x01), (0x3559, 0x00),
      (0x355A, 0x00), (0x35BA, 0x0E), (0x366A, 0x1B), (0x366B, 0x1A), (0x366C, 0x19),
      (0x366D, 0x17), (0x33A6, 0x01), (0x306B, 0x05), (IMX274_TABLE_WAIT_MS, IMX274_WAIT_MS)] @
     replicate 3 (0, 0)"

definition IMX274_MODE_3840X2160_60FPS_12BITS_SEQUENCE :: "(u16 \<times> u8) list" where
  "IMX274_MODE_3840X2160_60FPS_12BITS_SEQUENCE =
     [(IMX274_TABLE_WAIT_MS, IMX274_WAIT_MS), (0x3000, 0x12), (0x3120, 0xF0), (0x3122, 0x02), (0x3129, 0x9C),
      (0x312A, 0x02), (0x312D, 0x02), (0x310B, 0x00), (0x304C, 0x00), (0x304D, 0x03),
      (0x331C, 0x1A), (0x3502, 0x02), (0x3529, 0x0E), (0x352A, 0x0E), (0x352B, 0x0E),
      (0x3538, 0x0E), (0x3539, 0x0E), (0x3553, 0x00), (0x357D, 0x05), (0x357F, 0x05),
      (0x3581, 0x04), (0x3583, 0x76), (0x3587, 0x01), (0x35BB, 0x0E), (0x35BC, 0x0E),
      (0x35BD, 0x0E), (0x35BE, 0x0E), (0x35BF, 0x0E), (0x366E, 0x00), (0x366F, 0x00),
      (0x3670, 0x00), (0x3671, 0x00), (0x30EE, 0x01), (0x3304, 0x32), (0x3306, 0x32),
      (0x3590, 0x32), (0x3686, 0x32), (0x30E2, 0x00), (0x30F6, 0xED), (0x30F7, 0x01),
      (0x30F8, 0x08), (0x30F9, 0x13), (0x3130, 0x94), (0x3131, 0x08), (0x3132, 0x70),
      (0x3133, 0x08), (0x30DD, 0x01), (0x30DE, 0x04), (0x30E0, 0x03), (0x3037, 0x01),
      (0x3038, 0x0C), (0x3039, 0x00), (0x303A, 0x0C), (0x303B, 0x0F), (0x3004, 0x00),
      (0x3005, 0x07), (0x3006, 0x00), (0x3007, 0x02), (0x300C, 0x0C), (0x300D, 0x00),
      (0x300E, 0x00), (0x3019, 0x00), (0x3A41, 0x10), (0x3342, 0xFF), (0x3343, 0x01),
      (0x3344, 0xFF), (0x3345, 0x01), (0x3528, 0x0F), (0x3554, 0x00), (0x3555, 0x00),
      (0x3556, 0x00), (0x3557, 0x00), (0x3558, 0x00), (0x3559, 0x1F), (0x355A, 0x1F),
      (0x35BA, 0x0F), (0x366A, 0x00), (0x366B, 0x00), (0x366C, 0x00), (0x366D, 0x00),
      (0x33A6, 0x01), (0x306B, 0x07), (IMX274_TABLE_WAIT_MS, IMX274_WAIT_MS)]"

definition RENESAS_TS1_CONFIGURATION :: "bytes list" where
  "RENESAS_TS1_CONFIGURATION =
     [[0xFC, 0x00, 0x00, 0x00, 0x00],
      [0x00, 0x33, 0x10, 0x4A, 0x30, 0x32, 0x02, 0x00, 0x00, 0x04, 0x00, 0x30, 0x00, 0x00, 0x00, 0x00, 0x00],
      [0x10, 0x00, 0x00, 0x19, 0x9A, 0x00, 0x00, 0x00, 0x00, 0x00, 0x00, 0x00, 0xF0, 0x00, 0x00, 0x00, 0x00],
      [0x20, 0x00, 0x00, 0x00, 0x00, 0x00, 0x00, 0x00, 0x00, 0x00, 0x00, 0x00, 0x00, 0x00, 0x00, 0x00, 0x00],
      [0x30, 0x03, 0x01, 0x00, 0x00, 0x01, 0x00, 0x00, 0x00, 0x00, 0x00, 0x00, 0x00, 0x00, 0x00, 0x00, 0x00],
      [0x40, 0x03, 0x01, 0x00, 0x00, 0x01, 0x00, 0x00, 0x00, 0x00, 0x00, 0x00, 0x00, 0x00, 0x00, 0x00, 0x00],
      [0x50, 0x03, 0x01, 0x00, 0x00, 0x01, 0x00, 0x00, 0x00, 0x00, 0x00, 0x00, 0x00, 0x00, 0x00, 0x00, 0x00],
      [0x60, 0x01, 0x01, 0x00, 0x00, 0x00, 0x00, 0x10, 0x00, 0x00, 0x00, 0x00, 0x00, 0x00, 0x00, 0x00, 0x00],
      [0x70, 0x00, 0x00, 0x00, 0x00, 0x00, 0x00, 0x00, 0x00, 0x00, 0x00, 0x00, 0x00, 0x00, 0x00, 0x00, 0x00],
      [0x80, 0x01, 0x01, 0x00, 0x00, 0x00, 0x00, 0x10, 0x00, 0x00, 0x00, 0x00, 0x00, 0x00, 0x00, 0x00, 0x00],
      [0x90, 0x00, 0x00, 0x00, 0x00, 0x00, 0x00, 0x00, 0x00, 0x00, 0x00, 0x00, 0x00, 0x00, 0x00, 0x00, 0x00],
      [0xA0, 0x82, 0x80, 0x36, 0x00, 0x00, 0x38, 0x42, 0x5B, 0x10, 0x11, 0x00, 0x00, 0xFF, 0xFF, 0xFF, 0x1F],
      [0xB0, 0x00, 0x00, 0x00, 0x00, 0x00, 0x00, 0x00, 0x00, 0x00, 0x00, 0x80, 0x00, 0x00, 0x00, 0x00, 0x00],
      [0xC0, 0x90, 0x01, 0x00, 0x00, 0x00, 0x00, 0x00, 0x00, 0x00, 0x00, 0x00, 0x00, 0x55, 0x01, 0xFF, 0x00],
      [0xD0, 0x1F, 0x00, 0x00, 0x00, 0x00, 0x00, 0x00, 0x00, 0x00, 0x00, 0x00, 0x00, 0x01, 0x00, 0x00, 0x00],
      [0xE0, 0x4A, 0x1E, 0x01, 0x81, 0x22, 0x00, 0x5C, 0x8F, 0x00, 0x00, 0x04, 0x00, 0x00, 0x00, 0x00, 0x00],
      [0xF0, 0x0B, 0x01, 0x00, 0x00, 0x44, 0x00, 0x00, 0x00, 0x0D, 0x4D, 0x01, 0x00, 0x00, 0x00, 0x00, 0x00],
      [0xFC, 0x00, 0x01, 0x00, 0x00],
      [0x00, 0x69, 0x00, 0x0B, 0x6C, 0xB4, 0x03, 0x00, 0x00, 0x9B, 0x81, 0x08, 0x6C, 0xB4, 0x03, 0x00, 0x00],
      [0x10, 0x69, 0x00, 0x0B, 0x6C, 0xB4, 0x03, 0x00, 0x00, 0x69, 0x00, 0x0B, 0x6C, 0xB4, 0x03, 0x00, 0x00],
      [0x20, 0x00, 0x00, 0x70, 0x00, 0x00, 0x00, 0x70, 0x00, 0x00, 0x00, 0x00, 0x00, 0x00, 0x00, 0x00, 0x00],
      [0x30, 0x10, 0x2F, 0x00, 0x02, 0x00, 0x02, 0x00, 0x00, 0x00, 0x00, 0x00, 0x00, 0x00, 0x00, 0x00, 0x00],
      [0x40, 0x21, 0x06, 0x44, 0x09],
      [0x45, 0x00, 0x00, 0x00, 0x00, 0x00, 0x00, 0x00, 0x00, 0x00, 0x00, 0x00, 0x52, 0xB8, 0x1E, 0x05, 0x62],
      [0x55, 0x00, 0x23, 0x0D, 0x44, 0x3E, 0x64, 0x27, 0x06, 0x1F, 0x45, 0x0F, 0x04, 0x00, 0x00, 0x7A, 0x80],
      [0x65, 0x01, 0x88, 0x00, 0x00, 0x00, 0x00, 0x25, 0x01, 0x00, 0x01, 0x09, 0x00, 0x00, 0x00, 0x00, 0x00],
      [0x75, 0x00, 0x00, 0x00, 0x00, 0x00, 0x00, 0x00, 0x00, 0x00, 0x00, 0x00, 0x00, 0x00, 0x00, 0x00, 0x00],
      [0x85, 0x00, 0x00, 0x00, 0x00, 0x00, 0x00, 0x00, 0x00, 0x00, 0x00, 0x00, 0x00, 0x00, 0x00, 0x00, 0x00],
      [0x95, 0x00, 0x00, 0x00, 0x00, 0x00, 0x00, 0x00, 0x00, 0x00, 0x00, 0x00, 0x2C, 0x3B, 0x00, 0x77, 0x70],
      [0xA5, 0x80, 0x01, 0x00, 0x00, 0x08, 0x00, 0x00, 0x00, 0x00, 0x00, 0x00, 0x00, 0x00, 0x00, 0x00, 0xF0],
      [0xB5, 0x00, 0xD0, 0x03, 0x00, 0x00, 0x00, 0x00, 0xBA, 0x00, 0x00, 0x00, 0x1A, 0xA6, 0x0F, 0x47, 0x24],
      [0xC5, 0x00, 0x24, 0x00, 0x00, 0x11, 0x20, 0x12, 0x0B, 0x10, 0x02, 0x30, 0x00, 0x00, 0x00, 0x00, 0x00],
      [0xD5, 0x00, 0x00, 0x00, 0x00, 0x00, 0x00, 0x00, 0x00, 0x00, 0x00, 0x00],
      [0x62, 0x00, 0x7A],
      [0x62, 0x00, 0x7A],
      [0x62, 0x00, 0x7A],
      [0x62, 0x00, 0x7A],
      [0x62, 0x80, 0x7A],
      [0x62, 0x00, 0x7A],
      [0xFC, 0x00, 0x00, 0x00, 0x00],
      [0x0A, 0x30],
      [0x0A, 0x32],
      [0x0A, 0x30],
      [0xFC, 0x00, 0x01, 0x00, 0x00],
      [0x44, 0x01],
      [0xFC, 0x00, 0x00, 0x00, 0x00]]"

end
