(* ===== verification/Imx274_Sensor.thy ===== *)
theory Imx274_Sensor
  imports Camera_Host Imx274_Modes
begin

text \<open>
  The driver \<open>NativeImx274Sensor\<close>
  (src/src/hololink/sensors/camera/imx274/native_imx274_sensor.cpp) and the I2C expander in front of
  the camera (src/src/hololink/sensors/li_i2c_expander.cpp). The lock that keeps the selection of the
  expander and the transaction together is left out: a method is one step. No emulator of this camera
  is in the repository, so the properties are about the transactions that reach the bus.
\<close>

subsection \<open>The expander\<close>

datatype i2c_expander_output = OUTPUT_1 | OUTPUT_2 | OUTPUT_3 | OUTPUT_4 | OUTPUT_DEFAULT

definition expander_code :: "i2c_expander_output \<Rightarrow> u8" where
  "expander_code output_en =
     (case output_en of OUTPUT_1 \<Rightarrow> 1 | OUTPUT_2 \<Rightarrow> 2 | OUTPUT_3 \<Rightarrow> 4 | OUTPUT_4 \<Rightarrow> 8 | OUTPUT_DEFAULT \<Rightarrow> 0)"

definition I2C_EXPANDER_ADDRESS :: u32 where "I2C_EXPANDER_ADDRESS = 0x70"

definition expander_configure :: "i2c \<Rightarrow> i2c_expander_output \<Rightarrow> ('d hsb, unit) hm" where
  "expander_configure i output_en =
     hthen (i2c_transaction i I2C_EXPANDER_ADDRESS (be_bytes 1 (expander_code output_en)) 0 None False) (hret ())"

subsection \<open>The driver\<close>

text \<open>The bus and the output of the expander are fixed by the constructor.\<close>

record imx274 =
  imx_i2c :: i2c
  imx_output :: i2c_expander_output

definition new_imx274 :: "i2c \<Rightarrow> int \<Rightarrow> imx274" where
  "new_imx274 i expander_configuration =
     \<lparr>imx_i2c = i, imx_output = (if expander_configuration = 1 then OUTPUT_2 else OUTPUT_1)\<rparr>"

definition IMX274_I2C_ADDRESS :: u32 where "IMX274_I2C_ADDRESS = 0x1A"

definition imx274_get_register :: "imx274 \<Rightarrow> u16 \<Rightarrow> ('d hsb, u8) hm" where
  "imx274_get_register m reg =
     hthen (expander_configure (imx_i2c m) (imx_output m))
    (hbind (i2c_transaction (imx_i2c m) IMX274_I2C_ADDRESS (be_bytes 2 reg) 1 None False) (\<lambda>reply.
       case next_uint8 (new_deserializer reply (length reply)) of
         None \<Rightarrow> hthrow (Runtime_error ''Failed to read register value'')
       | Some (v, _) \<Rightarrow> hret v))"

definition imx274_set_register :: "imx274 \<Rightarrow> u16 \<Rightarrow> u8 \<Rightarrow> timeout option \<Rightarrow> ('d hsb, unit) hm" where
  "imx274_set_register m reg v timeout =
     hthen (expander_configure (imx_i2c m) (imx_output m))
    (hthen (i2c_transaction (imx_i2c m) IMX274_I2C_ADDRESS (be_bytes 2 reg @ be_bytes 1 v) 0 timeout False) (hret ()))"

definition imx274_apply_register_settings :: "imx274 \<Rightarrow> (u16 \<times> u8) list \<Rightarrow> ('d hsb, unit) hm" where
  "imx274_apply_register_settings m settings =
     hseq (map (\<lambda>(reg, v).
       if reg = IMX274_TABLE_WAIT_MS then sleep_ms (unat v) else imx274_set_register m reg v None) settings)"

definition imx274_frame_format :: "int \<Rightarrow> camera_frame_format option" where
  "imx274_frame_format mode =
     (if mode = 0 then Some \<lparr>ff_mode_id = 0, ff_mode_name = ''IMX274_MODE_3840X2160_60FPS'',
         ff_width = 3840, ff_height = 2160, ff_frame_rate = 60, ff_pixel_format = RAW_10\<rparr>
      else if mode = 1 then Some \<lparr>ff_mode_id = 1, ff_mode_name = ''IMX274_MODE_1920X1080_60FPS'',
         ff_width = 1920, ff_height = 1080, ff_frame_rate = 60, ff_pixel_format = RAW_10\<rparr>
      else if mode = 2 then Some \<lparr>ff_mode_id = 2, ff_mode_name = ''IMX274_MODE_3840X2160_60FPS_12BITS'',
         ff_width = 3840, ff_height = 2160, ff_frame_rate = 60, ff_pixel_format = RAW_12\<rparr>
      else None)"

definition imx274_initialize_supported_modes :: "camera_sensor \<Rightarrow> camera_sensor" where
  "imx274_initialize_supported_modes c =
     c\<lparr>cs_supported_modes := [0, 1, 2], cs_frame_formats := imx274_frame_format\<rparr>"

definition new_imx274_sensor :: "pixel_format \<Rightarrow> bayer_format \<Rightarrow> camera_sensor" where
  "new_imx274_sensor pf bf = imx274_initialize_supported_modes (new_camera_sensor pf bf)"

definition IMX274_MODE_COUNT :: int where "IMX274_MODE_COUNT = 3"

text \<open>As for the VB1940, the formats of all modes in range are there.\<close>

definition imx274_set_mode :: "int \<Rightarrow> (camera_sensor, unit) hm" where
  "imx274_set_mode mode =
     hwhen (0 \<le> mode \<and> mode < IMX274_MODE_COUNT)
       (hbind (hgets cs_frame_formats) (\<lambda>formats.
          case formats mode of
            None \<Rightarrow> hthrow Bad_optional_access
          | Some ff \<Rightarrow> hmodify (use_frame_format mode RGGB ff)))"

definition imx274_mode_sequence :: "int \<Rightarrow> (u16 \<times> u8) list option" where
  "imx274_mode_sequence mode =
     (if mode = 0 then Some IMX274_MODE_3840X2160_60FPS_SEQUENCE
      else if mode = 1 then Some IMX274_MODE_1920X1080_60FPS_SEQUENCE
      else if mode = 2 then Some IMX274_MODE_3840X2160_60FPS_12BITS_SEQUENCE
      else None)"

definition imx274_configure_camera :: "imx274 \<Rightarrow> int \<Rightarrow> ('d hsb \<times> camera_sensor, unit) hm" where
  "imx274_configure_camera m mode =
     hthen (on_obj (imx274_set_mode mode))
    (hbind (hgets (cs_mode \<circ> snd)) (\<lambda>current.
       case current of
         None \<Rightarrow> hthrow Bad_optional_access
       | Some current \<Rightarrow>
           (case imx274_mode_sequence current of
              None \<Rightarrow> hret ()
            | Some settings \<Rightarrow> on_hsb (imx274_apply_register_settings m settings))))"

text \<open>The version is the constant that it is compared with.\<close>

definition imx274_configure :: "imx274 \<Rightarrow> int \<Rightarrow> ('d hsb \<times> camera_sensor, unit) hm" where
  "imx274_configure m mode = imx274_configure_camera m mode"

definition imx274_start :: "imx274 \<Rightarrow> ('d hsb, unit) hm" where
  "imx274_start m = imx274_apply_register_settings m IMX274_START_SEQUENCE"

definition imx274_stop :: "imx274 \<Rightarrow> ('d hsb, unit) hm" where
  "imx274_stop m = imx274_apply_register_settings m IMX274_STOP_SEQUENCE"

definition imx274_setup_clock :: "('d hsb, unit) hm" where
  "imx274_setup_clock = setup_clock RENESAS_TS1_CONFIGURATION"

definition imx274_configure_converter :: "csi_converter \<Rightarrow> camera_sensor \<Rightarrow> hsb_error + csi_geometry" where
  "imx274_configure_converter converter c =
     (let transmitted = transmitted_line_bytes converter (cs_pixel_format c) (word_of_int (cs_width c)) in
      ebind (received_line_bytes converter transmitted) (\<lambda>received.
        case (case cs_pixel_format c of RAW_10 \<Rightarrow> Some (175, 8) | RAW_12 \<Rightarrow> Some (175 + 35, 16) | RAW_8 \<Rightarrow> None) of
          None \<Rightarrow> Inl (Runtime_error ''Incorrect pixel format for IMX274'')
        | Some (embedded_data_bytes, optical_black_lines) \<Rightarrow>
            ebind (received_line_bytes converter embedded_data_bytes) (\<lambda>embedded.
              Inr \<lparr>start_byte = receiver_start_byte converter + embedded + received * optical_black_lines,
                   bytes_per_line = received, pixel_width = word_of_int (cs_width c),
                   pixel_height = word_of_int (cs_height c), csi_pixel_format = cs_pixel_format c,
                   trailing_bytes = 0\<rparr>)))"

subsection \<open>Exposure, gain and test pattern\<close>

text \<open>
  The arguments are of \<open>int32_t\<close>. The names of the registers are the code's: the high byte goes to
  the one called LSB.
\<close>

definition high_byte :: "int \<Rightarrow> u8" where "high_byte v = word_of_int (v div 256 mod 256)"

definition low_byte :: "int \<Rightarrow> u8" where "low_byte v = word_of_int (v mod 256)"

definition imx274_set_exposure_reg :: "imx274 \<Rightarrow> int \<Rightarrow> ('d hsb, unit) hm" where
  "imx274_set_exposure_reg m v =
     (let v = clamp 0x0C 0xFFFF v in
      hseq [imx274_set_register m 0x300D (low_byte v) None, imx274_set_register m 0x300C (high_byte v) None,
        sleep_ms (unat IMX274_WAIT_MS)])"

definition imx274_set_analog_gain_reg :: "imx274 \<Rightarrow> int \<Rightarrow> ('d hsb, unit) hm" where
  "imx274_set_analog_gain_reg m v =
     (let v = clamp 0x00 0xFFFF v in
      hseq [imx274_set_register m 0x300A (high_byte v) None, imx274_set_register m 0x300B (low_byte v) None,
        sleep_ms (unat IMX274_WAIT_MS)])"

definition digital_gain :: "int \<Rightarrow> u8" where
  "digital_gain v =
     (if 0x40 \<le> v then 6 else if 0x20 \<le> v then 5 else if 0x10 \<le> v then 4 else if 0x08 \<le> v then 3
      else if 0x04 \<le> v then 2 else if 0x02 \<le> v then 1 else 0)"

definition imx274_set_digital_gain_reg :: "imx274 \<Rightarrow> int \<Rightarrow> ('d hsb, unit) hm" where
  "imx274_set_digital_gain_reg m v =
     hthen (imx274_set_register m 0x3012 (digital_gain v) None) (sleep_ms (unat IMX274_WAIT_MS))"

definition test_pattern_settings :: "u8 \<Rightarrow> (u16 \<times> u8) list" where
  "test_pattern_settings pattern =
     (if pattern = 0 then [(0x303C, 0x00), (0x377F, 0x00), (0x3781, 0x00), (0x370B, 0x00)]
      else [(0x303C, 0x11), (0x370E, 0x01), (0x377F, 0x01), (0x3781, 0x01), (0x370B, 0x11), (0x303D, pattern)])"

definition imx274_test_pattern :: "imx274 \<Rightarrow> u8 \<Rightarrow> ('d hsb, unit) hm" where
  "imx274_test_pattern m pattern =
     hseq (map (\<lambda>(reg, v). imx274_set_register m reg v None) (test_pattern_settings pattern))"

end
