(* ===== verification/Imx274_Camera.thy ===== *)
theory Imx274_Camera
  imports Imx274_Sensor
begin

text \<open>
  The IMX274 driver on the emulated board: the transactions that each method puts on the bus, for any
  peripherals that acknowledge them.
\<close>

subsection \<open>Transactions on the bus\<close>

text \<open>A list of writes, as address and bytes, and the peripheral after it, \<open>None\<close> when one is refused.\<close>

fun written_to :: "('c \<Rightarrow> u32 \<Rightarrow> bytes \<Rightarrow> nat \<Rightarrow> (bytes \<times> 'c) option) \<Rightarrow> (u32 \<times> bytes) list \<Rightarrow> 'c \<Rightarrow> 'c option" where
  "written_to answer [] c = Some c"
| "written_to answer ((a, wb) # ts) c =
     (case answer c a wb 0 of None \<Rightarrow> None | Some (_, c') \<Rightarrow> written_to answer ts c')"

lemma written_to_append:
  "written_to answer (ts @ us) c = Option.bind (written_to answer ts c) (written_to answer us)"
  by (induction answer ts c rule: written_to.induct) (auto split: option.splits)

text \<open>The selection of the output comes before every write to the camera.\<close>

definition register_writes :: "imx274 \<Rightarrow> u16 \<Rightarrow> u8 \<Rightarrow> (u32 \<times> bytes) list" where
  "register_writes m reg v =
     [(I2C_EXPANDER_ADDRESS, [expander_code (imx_output m)]), (IMX274_I2C_ADDRESS, be_bytes 2 reg @ [v])]"

definition settings_writes :: "imx274 \<Rightarrow> (u16 \<times> u8) list \<Rightarrow> (u32 \<times> bytes) list" where
  "settings_writes m settings =
     concat (map (\<lambda>(reg, v). if reg = IMX274_TABLE_WAIT_MS then [] else register_writes m reg v) settings)"

lemma short_fits:
  assumes "a \<le> 0x7F" and "length wb \<le> 0x100"
  shows "transaction_fits a wb 0"
  using assms by (simp add: transaction_fits_def)

context camera_host
begin

lemma write_rule:
  assumes "a \<le> 0x7F" and "length wb \<le> 0x100" and "answer c a wb 0 = Some (rb, c')"
  shows "runs (session c y) (hthen (i2c_transaction controller a wb 0 None False) (hret ())) (\<lambda>_. session c' y)"
proof -
  have "answer c a wb (unat (0 :: u32)) = Some (rb, c')" using assms(3) by simp
  from transaction_rule [OF short_fits [OF assms(1,2)] this, where y = y and nak = False]
  have "runs (session c y) (i2c_transaction controller a wb 0 None False) (\<lambda>_. session c' y)" by (auto elim!: runs_post)
  then show ?thesis by (rule runs_hthen) (rule runs_hret)
qed

lemma imx274_set_register_rule:
  assumes "imx_i2c m = controller" and "written_to answer (register_writes m reg v) c = Some c'"
  shows "runs (session c y) (imx274_set_register m reg v None) (\<lambda>_. session c' y)"
proof -
  obtain rb1 c1 rb2 where a: "answer c I2C_EXPANDER_ADDRESS [expander_code (imx_output m)] 0 = Some (rb1, c1)"
      "answer c1 IMX274_I2C_ADDRESS (be_bytes 2 reg @ [v]) 0 = Some (rb2, c')"
    using assms(2) by (auto simp: register_writes_def split: option.splits)
  show ?thesis unfolding imx274_set_register_def expander_configure_def assms(1) byte_8
    by (rule runs_hthen [OF write_rule [OF _ _ a(1)] write_rule [OF _ _ a(2)]])
      (simp_all add: I2C_EXPANDER_ADDRESS_def IMX274_I2C_ADDRESS_def)
qed

lemma imx274_settings_rule:
  assumes "imx_i2c m = controller"
  shows "written_to answer (settings_writes m settings) c = Some c' \<Longrightarrow>
    runs (session c y) (imx274_apply_register_settings m settings) (\<lambda>_. session c' y)"
proof (induction settings arbitrary: c)
  case Nil
  then show ?case by (simp add: imx274_apply_register_settings_def settings_writes_def runs_def)
next
  case (Cons p settings)
  obtain reg v where p: "p = (reg, v)" by force
  show ?case
  proof (cases "reg = IMX274_TABLE_WAIT_MS")
    case True
    with Cons have "runs (session c y) (imx274_apply_register_settings m settings) (\<lambda>_. session c' y)"
      by (simp add: settings_writes_def p)
    from runs_hthen [OF sleep_rule this] True show ?thesis by (simp add: imx274_apply_register_settings_def p)
  next
    case False
    with Cons.prems obtain c1 where c1: "written_to answer (register_writes m reg v) c = Some c1"
        "written_to answer (settings_writes m settings) c1 = Some c'"
      by (auto simp: settings_writes_def p written_to_append elim!: bind_eq_Some_conv [THEN iffD1, elim_format])
    from runs_hthen [OF imx274_set_register_rule [OF assms c1(1)] Cons.IH [OF c1(2)]] False show ?thesis
      by (simp add: imx274_apply_register_settings_def p)
  qed
qed

abbreviation "with_sensor c y cam s \<equiv> session c y (fst s) \<and> snd s = cam"

lemma imx274_configure_rule:
  assumes "imx_i2c m = controller" and "cs_frame_formats cam = imx274_frame_format" and "imx274_frame_format mode = Some ff"
    and "imx274_mode_sequence mode = Some settings" and "written_to answer (settings_writes m settings) c = Some c'"
  shows "runs (with_sensor c y cam) (imx274_configure m mode) (\<lambda>_. with_sensor c' y (use_frame_format mode RGGB ff cam))"
proof -
  have range: "0 \<le> mode \<and> mode < IMX274_MODE_COUNT"
    using assms(3) by (auto simp: imx274_frame_format_def IMX274_MODE_COUNT_def split: if_splits)
  have "runs (with_sensor c y cam) (on_obj (imx274_set_mode mode)) (\<lambda>_. with_sensor c y (use_frame_format mode RGGB ff cam))"
    using range assms(2,3) by (auto simp: runs_def on_obj_def imx274_set_mode_def hwhen_def hbind_def)
  moreover have "runs (with_sensor c y (use_frame_format mode RGGB ff cam)) (hgets (cs_mode \<circ> snd))
      (\<lambda>m s. m = Some mode \<and> with_sensor c y (use_frame_format mode RGGB ff cam) s)"
    by (auto simp: runs_def use_frame_format_def)
  ultimately show ?thesis unfolding imx274_configure_def imx274_configure_camera_def
    by (rule runs_hthen [OF _ runs_hbind_val])
      (use runs_on_fst [OF imx274_settings_rule [OF assms(1,5)], where u = "use_frame_format mode RGGB ff cam"] in
        \<open>simp add: assms(4)\<close>)
qed

end

subsection \<open>The properties\<close>

text \<open>
  C31: Configuring the IMX274 puts the register table of the mode on the bus, each write to the camera
  right after the selection of its output of the expander, and nothing else: whatever peripherals
  acknowledge these transactions are afterwards in the state to which the transactions bring them, and
  the members of the driver are those of the mode.
\<close>

theorem imx274_configured:
  assumes "board_session att per env y (fst s)" and "cs_frame_formats (snd s) = imx274_frame_format"
    and "imx274_mode_sequence mode = Some settings" and "imx_i2c m = get_i2c bus I2C_CTRL"
    and "written_to (board_answer att per bus) (settings_writes m settings) env = Some env'"
  shows "\<exists>s' ff. imx274_configure m mode s = (Inr (), s') \<and> board_session att per env' y (fst s') \<and>
    imx274_frame_format mode = Some ff \<and> snd s' = use_frame_format mode RGGB ff (snd s)"
proof -
  obtain ff where ff: "imx274_frame_format mode = Some ff"
    using assms(3) by (auto simp: imx274_mode_sequence_def imx274_frame_format_def split: if_splits)
  have "board_session att per env y (fst s) \<and> snd s = snd s" using assms(1) by simp
  from runsD [OF board_camera.imx274_configure_rule [OF assms(4,2) ff assms(3,5)] this] obtain s' where
    "imx274_configure m mode s = (Inr (), s')" "board_session att per env' y (fst s')"
    "snd s' = use_frame_format mode RGGB ff (snd s)" by auto
  with ff show ?thesis by (intro exI [of _ s'] exI [of _ ff]) simp
qed

text \<open>Peripherals that acknowledge everything and keep a record of it.\<close>

definition recorder :: "(u32 \<times> bytes) list \<Rightarrow> u32 \<times> u16 \<Rightarrow> bytes \<Rightarrow> bytes \<Rightarrow> (bool \<times> bytes) \<times> (u32 \<times> bytes) list" where
  "recorder env key wb rb = ((True, rb), env @ [(ucast (snd key), wb)])"

abbreviation "recorder_attached \<equiv> [(1, 0x70), (1, 0x1A)]"

lemma recorder_answer:
  "a \<in> {I2C_EXPANDER_ADDRESS, IMX274_I2C_ADDRESS} \<Longrightarrow>
   board_answer recorder_attached recorder 1 env a wb 0 = Some ([], env @ [(a, wb)])"
  by (auto simp: board_answer_def bus_answer_def recorder_def I2C_EXPANDER_ADDRESS_def IMX274_I2C_ADDRESS_def)

lemma recorder_settings:
  "written_to (board_answer recorder_attached recorder 1) (settings_writes m settings) env = Some (env @ settings_writes m settings)"
proof -
  have "written_to (board_answer recorder_attached recorder 1) ts env = Some (env @ ts)"
    if "fst ` set ts \<subseteq> {I2C_EXPANDER_ADDRESS, IMX274_I2C_ADDRESS}" for ts env
    using that
  proof (induction ts arbitrary: env)
    case (Cons t ts)
    then show ?case using recorder_answer [of "fst t" env "snd t"] by (cases t) auto
  qed simp
  moreover have "fst ` set (settings_writes m settings) \<subseteq> {I2C_EXPANDER_ADDRESS, IMX274_I2C_ADDRESS}"
    by (auto simp: settings_writes_def register_writes_def split: if_splits)
  ultimately show ?thesis by blast
qed

definition sample_imx274 :: imx274 where "sample_imx274 = new_imx274 (get_i2c 1 I2C_CTRL) 1"

theorem imx274_configured_witness:
  "\<exists>s' env'. imx274_configure sample_imx274 0 (fresh_i2c_board recorder_attached recorder [], new_imx274_sensor RAW_10 RGGB) = (Inr (), s') \<and>
    board_session recorder_attached recorder env' null_synchronizer (fst s') \<and> length env' = 2 * 81 \<and>
    take 2 env' = [(0x70, [2]), (0x1A, [0x30, 0x00, 0x12])] \<and> cs_width (snd s') = 3840"
proof -
  let ?b = "(fresh_i2c_board recorder_attached recorder [], new_imx274_sensor RAW_10 RGGB)"
  have session: "board_session recorder_attached recorder [] null_synchronizer (fst ?b)"
    unfolding fst_conv by (rule fresh_session) (simp_all add: null_synchronizer_def)
  have formats: "cs_frame_formats (snd ?b) = imx274_frame_format"
    by (simp add: new_imx274_sensor_def imx274_initialize_supported_modes_def)
  have m: "imx274_mode_sequence 0 = Some IMX274_MODE_3840X2160_60FPS_SEQUENCE"
    "imx_i2c sample_imx274 = get_i2c 1 I2C_CTRL"
    by (simp_all add: imx274_mode_sequence_def sample_imx274_def new_imx274_def)
  from imx274_configured [OF session formats m recorder_settings] obtain s' ff where
    s': "imx274_configure sample_imx274 0 ?b = (Inr (), s')"
      "board_session recorder_attached recorder ([] @ settings_writes sample_imx274 IMX274_MODE_3840X2160_60FPS_SEQUENCE) null_synchronizer (fst s')"
      "imx274_frame_format 0 = Some ff" "snd s' = use_frame_format 0 RGGB ff (snd ?b)"
    by blast
  have "length (settings_writes sample_imx274 IMX274_MODE_3840X2160_60FPS_SEQUENCE) = 2 * 81"
    "take 2 (settings_writes sample_imx274 IMX274_MODE_3840X2160_60FPS_SEQUENCE) = [(0x70, [2]), (0x1A, [0x30, 0x00, 0x12])]"
    by (simp_all add: settings_writes_def register_writes_def IMX274_MODE_3840X2160_60FPS_SEQUENCE_def IMX274_TABLE_WAIT_MS_def
        sample_imx274_def new_imx274_def expander_code_def I2C_EXPANDER_ADDRESS_def IMX274_I2C_ADDRESS_def be_bytes_2 byte_at_def)
  moreover have "cs_width (snd s') = 3840" using s'(3,4) by (auto simp: imx274_frame_format_def use_frame_format_def)
  ultimately show ?thesis using s'(1,2) by (intro exI [of _ s'] exI) auto
qed

text \<open>
  The table of the mode of 1920 by 1080 pixels is longer than its contents, so configuring this
  mode ends with three writes of zero to register 0 of the camera.
\<close>

theorem imx274_1080p_zero_writes:
  "\<exists>ts. settings_writes m (the (imx274_mode_sequence 1)) = ts @ concat (replicate 3 (register_writes m 0 0)) \<and>
     (IMX274_I2C_ADDRESS, [0, 0, 0]) \<notin> set ts"
proof -
  obtain xs where xs: "IMX274_MODE_1920X1080_60FPS_SEQUENCE = xs @ replicate 3 (0, 0)" "0 \<notin> fst ` set xs"
  proof -
    let ?xs = "take 84 IMX274_MODE_1920X1080_60FPS_SEQUENCE"
    have "IMX274_MODE_1920X1080_60FPS_SEQUENCE = ?xs @ replicate 3 (0, 0)" "0 \<notin> fst ` set ?xs"
      by (simp_all add: IMX274_MODE_1920X1080_60FPS_SEQUENCE_def IMX274_TABLE_WAIT_MS_def)
    then show thesis by (rule that)
  qed
  have split: "settings_writes m (xs @ ys) = settings_writes m xs @ settings_writes m ys" for ys
    by (simp add: settings_writes_def)
  have "settings_writes m (replicate 3 (0, 0)) = concat (replicate 3 (register_writes m 0 0))"
    by (simp add: settings_writes_def IMX274_TABLE_WAIT_MS_def)
  moreover have "reg = 0" if "be_bytes 2 reg @ [v] = [0, 0, 0]" for reg :: u16 and v
    using that register_address [of reg] by (simp add: be_bytes_2)
  then have "(IMX274_I2C_ADDRESS, [0, 0, 0]) \<notin> set (settings_writes m xs)"
    using xs(2) by (force simp: settings_writes_def register_writes_def I2C_EXPANDER_ADDRESS_def IMX274_I2C_ADDRESS_def
        split: if_splits)
  ultimately show ?thesis by (intro exI [of _ "settings_writes m xs"]) (simp add: imx274_mode_sequence_def xs(1) split)
qed

end
