(* ===== verification/Spec2Isabelle.thy ===== *)
theory Spec2Isabelle
  imports Link_Failures Streaming Coe_Streaming Camera_Streaming Camera_Eeprom Imx274_Camera
begin

text \<open>
  A model of the Holoscan Sensor Bridge: of the host library (src/src/hololink/core and the camera
  drivers of src/src/hololink/sensors) and of the board emulator that comes with it
  (src/src/hololink/emulation), and what makes the two work together.

  \<^bold>\<open>The program.\<close> A board announces itself with BOOTP packets. The host's \<open>Enumerator\<close> makes
  metadata of them, a \<open>DataChannel\<close> is made of the metadata, and a \<open>Hololink\<close> object stands for the
  board. Everything the host does to the board is a read or write of a 32-bit register, sent as a
  UDP request over a control socket and answered by the board: GPIO pins, the SPI, I2C and UART
  controllers, events and their sequences, the pulses for synchronized cameras and the data plane
  are all registers. A camera driver uses I2C transactions, each of which is a small program that
  the board's sequencer runs. The data plane sends frames in RoCEv2 packets, or in
  Ethernet frames of IEEE 1722B (Camera over Ethernet), which a receiver puts together in buffers.

  \<^bold>\<open>How the code is modelled.\<close> A method is a function from a state to an error or a value, and the
  new state (\<open>HSB_Prelude\<close>: \<open>hm\<close>, \<open>hbind\<close>, \<open>hthen\<close>, \<open>hthrow\<close>); the error type has a constructor for
  each class of exception, and the messages are kept without their numbers. The members of a class
  are a record. The host's state is \<open>hsb\<close>: the members of \<open>Hololink\<close> and a \<open>link\<close>, which is the
  control socket, the clock in nanoseconds, the datagrams in flight, and the device at the other end
  with the function by which it answers. Machine integers are words of their width. Loops are
  recursions; those that only the device can end are \<open>partial_function\<close>s (\<open>Vb1940_Sensor\<close>), and
  the ones over clocks and retries are \<open>function\<close>s with a measure. Mutexes and the log are left
  out: a method is one step. What is not in the repository is a parameter: what a peripheral on the
  bus answers, the CRC function, the clock, the results of socket calls, the host's interfaces.

  \<^bold>\<open>The host library\<close> (src/src/hololink/core).
  \<^item> \<open>Wire_Codec\<close>: serializer.hpp, deserializer.hpp. \<open>Timeout\<close>: timeout.cpp.
  \<^item> \<open>Control_Link\<close>: \<open>send_control\<close>, \<open>receive_control\<close>, \<open>execute\<close> and the retries of hololink.cpp;
    \<open>Hololink_Control\<close> and \<open>Control_Requests\<close>: the reads and writes of registers, singly and in
    blocks, and their exact bytes.
  \<^item> \<open>Device_Contract\<close>: the locale \<open>register_device\<close>, what the host relies on in a board, and what its
    methods then do. \<open>Link_Failures\<close>: boards that never answer or are out of step.
  \<^item> \<open>Sequencer\<close>, \<open>Events\<close>, \<open>Gpio\<close>, \<open>Spi\<close>, \<open>Uart\<close>, \<open>I2c\<close>, \<open>Synchronizer\<close>, \<open>Frame_Metadata\<close>: the classes
    of hololink.cpp of these names, with \<open>PtpSynchronizer\<close>, the event thread and the metadata block
    of a frame.
  \<^item> \<open>Hsb_Metadata\<close>, \<open>Packetizer\<close>, \<open>Data_Channel\<close>, \<open>Enumeration\<close>: metadata.hpp, packetizer_program.cpp,
    data_channel.cpp and enumerator.cpp; \<open>Linux_Receiver\<close>: operators/linux_receiver; \<open>Coe_Receiver\<close>:
    operators/linux_coe_receiver, whose two threads are steps between which the other can come.
  \<^item> \<open>Csi_Converter\<close>, \<open>Camera_Host\<close>, \<open>Vb1940_Modes\<close>, \<open>Vb1940_Sensor\<close>, \<open>Imx274_Modes\<close>, \<open>Imx274_Sensor\<close>: the
    frame geometry of the operators, and the camera drivers of sensors/camera with their tables.

  \<^bold>\<open>The board emulator\<close> (src/src/hololink/emulation).
  \<^item> \<open>Register_Memory\<close>, \<open>Emulator\<close>: register_memory.cpp and the control thread of hsb_emulator.cpp;
    \<open>Emulator_Link\<close> interprets \<open>register_device\<close> on it.
  \<^item> \<open>Apb_Exec\<close>: the sequences and the I2C controller of hsb_emulator.cpp; \<open>Board_Steps\<close>: its three threads
    as a step relation, in any order; \<open>Board_Turns\<close>, \<open>Board_I2c\<close>: the threads taking turns until both
    wait, and a whole transaction on them.
  \<^item> \<open>Roce_Packets\<close>, \<open>Roce_Transmitter\<close>, \<open>Roce_Data_Plane\<close>, \<open>Bootp\<close>: rocev2_transmitter.cpp,
    rocev2_data_plane.cpp, data_plane.cpp and hsb_config.cpp. \<open>Coe_Packets\<close>, \<open>Coe_Transmitter\<close>,
    \<open>Coe_Data_Plane\<close>: coe_transmitter.cpp and coe_data_plane.cpp. \<open>Vb1940_Emulator\<close>: the emulated camera.

  \<^bold>\<open>Both together.\<close> \<open>Board_Connection\<close> and \<open>Board_Drivers\<close> have the states and the drivers on the
  emulated board; \<open>I2c_Link\<close> and \<open>I2c_Transaction\<close> the I2C driver, where \<open>register_device\<close> is interpreted
  a second time, on the board with its threads; \<open>Frame_Delivery\<close>, \<open>Data_Path\<close>, \<open>Discovery\<close> and
  \<open>Streaming\<close> the way from the announcement to the frames in the application; \<open>Coe_Data_Path\<close>,
  \<open>Coe_Delivery\<close> and \<open>Coe_Streaming\<close> the same for Camera over Ethernet; \<open>Vb1940_Camera\<close>,
  \<open>Camera_Streaming\<close>, \<open>Camera_Eeprom\<close> and \<open>Imx274_Camera\<close> the camera drivers. Theories that hold
  properties: this one, \<open>Streaming\<close>, \<open>Coe_Streaming\<close>, \<open>Camera_Streaming\<close>, \<open>Camera_Eeprom\<close>, \<open>Imx274_Camera\<close>.

  \<^bold>\<open>Interfaces.\<close> \<open>register_device\<close> (\<open>Device_Contract\<close>) is what a board promises the host;
  \<open>spi_controller\<close> extends it by what the SPI driver needs of the controller; \<open>address_memory\<close>
  (\<open>Register_Memory\<close>) is the emulator's abstract class of that name; \<open>wire_field\<close> and \<open>wire_pair\<close>
  (\<open>Wire_Codec\<close>) are what serializer and deserializer promise each other; \<open>camera_host\<close>
  (\<open>Camera_Host\<close>) is what a camera driver needs of the library, and \<open>vb1940_host\<close> extends it by the
  camera's own behaviour. Each is interpreted on the model's own definitions.

  \<^bold>\<open>What the lemmas show.\<close> Round trips of the codec and of the registers over the link; functional
  behaviour of every driver on the emulated board, up to configuring, starting and stopping a camera;
  refinement of the assembled sequences by the board that runs them; invariants of the board's
  threads, of the buffers of both receivers, of the cached event registers and of the synchronizer; what
  errors do and that they leave the board alone; termination of the retries and of the transmitter,
  and the loops that do not end; the bounds of the packets.

  \<^bold>\<open>Bounds.\<close> A control packet holds 183 pairs to write and 182 words to read back
  (\<open>write_request_exact\<close>, \<open>block_reply_understood\<close>). The emulated board answers after
  \<open>EMULATOR_LATENCY\<close>, one millisecond; the contract needs at most 90 ms, so that an answer is there before
  the 100 ms after which the host sends a request again. \<open>BOARD_TURNS\<close>, 200 turns, is what the threads take
  between two requests: a transaction with \<open>transaction_fits\<close> needs fewer (\<open>i2c_turns_enough\<close>), at most two for
  each command of its program of at most 80 words of data and the commands around them. The number \<open>n\<close> in
  \<open>board_connected\<close> counts the reads of one register in a row that are still allowed: the emulator
  gives up on a poll after 300 of them, and 299 are left on a fresh board. A packet of Camera over
  Ethernet carries at most 2044 bytes (\<open>MAX_MESSAGE_SIZE\<close>), a frame less than 2^28, the addresses it has.

  \<^bold>\<open>Not modelled.\<close> The receivers and transmitters on verbs and DOCA, the capture through SIPL, FuSa
  CoE and Argus, and the operators with CUDA kernels: they are sequences of calls of libraries that
  are not in the repository. The firmware of the STM32 emulator: a second implementation of the same
  protocol around vendor libraries. The set-up of sockets and threads, mutexes, logging, tracing, the
  command lines and the Python bindings. The certificate, firmware and patches of the VB1940, which
  the driver only copies, are arguments of its model.
\<close>

subsection \<open>Control requests\<close>

text \<open>
  C1: On a link where nothing is lost or late, writing a plain register of the board and reading
  it back gives the value written, through the serializer, the control socket, the emulator's
  deserializer, its sequence check, its register memory and its reply; every other register keeps
  its value and both ends agree on the next sequence number.
\<close>

theorem write_read_board:
  assumes "board_connected R (Suc n) h s" and "emu_plain a"
  shows "\<exists>s1 s2. write_uint32 a v s = (Inr True, s1) \<and> read_uint32 a s1 = (Inr v, s2) \<and>
    board_connected (R(a := v)) n h s2"
proof -
  obtain s1 where w: "write_uint32 a v s = (Inr True, s1)" "board_connected (R(a := v)) (Suc n) h s1"
    using runsD [OF emu.write_uint32_rule [OF emu_plain_effect [OF assms(2)]], of R "Suc n" h s v] assms(1)
    by (auto simp: board_connected_def)
  then show ?thesis
    using runsD [OF emu.read_uint32_rule [OF emu_plain_readable [OF assms(2)]], of "R(a := v)" n h s1]
    by (fastforce simp: board_connected_def)
qed

theorem write_read_board_witness:
  "\<exists>s1 s2. write_uint32 0x1000 7 (fresh_board (new_hololink True False True True)) = (Inr True, s1) \<and>
     read_uint32 0x1000 s1 = (Inr 7, s2)"
proof -
  have "emu_plain 0x1000" by (simp add: emu_plain_def misaligned_def special_addresses_def)
  moreover have "board_connected ((\<lambda>_. 0)(HSB_IP_VERSION := 0x2602, FPGA_DATE := HSB_EMULATOR_DATE)) (Suc 298)
      (new_hololink True False True True) (fresh_board (new_hololink True False True True))"
    using fresh_board_connected [of "new_hololink True False True True"] by (simp add: new_hololink_def)
  ultimately show ?thesis using write_read_board by blast
qed

lemma block_region: "set (block_addresses address n) = region address n"
  by (auto simp: block_addresses_def region_def)

lemma block_read_board:
  assumes "board_connected R (unat n_words + n) h s" and "block_enable h" and "0 < unat n_words" "unat n_words \<le> 182"
    and "\<forall>a \<in> region address (unat n_words). emu_plain a"
  shows "\<exists>s'. read_uint32_count address n_words None check s =
      (Inr (True, map R (block_addresses address (unat n_words))), s') \<and> board_connected R n h s'"
proof -
  have "address \<in> region address (unat n_words)" using assms(3) by (cases "unat n_words") (simp_all add: region_Suc)
  then have ok: "\<not> misaligned address" "\<forall>a \<in> set (block_addresses address (unat n_words)). emu_readable a"
    using assms(5) emu_plain_readable by (auto simp: emu_plain_def block_region)
  obtain t s1 where t: "default_timeout None s = (Inr t, s1)" "emu.st R (unat n_words + n) h s1"
      "emu.in_time (Some t) (Suc 0) (clock (link s1))"
    using emu.default_timeout_run [of R "unat n_words + n" h s None "Suc 0"] emu.in_time_1 assms(1)
    by (metis One_nat_def board_connected_iff)
  have block: "block_enable (host s1)" using emu.st_members(1) [OF t(2)] assms(2) by simp
  show ?thesis
    using emu.read_block_run [OF t(2,3) ok(2) assms(3,4) ok(1), of check] t(1) block
    by (auto simp: read_uint32_count_def read_uint32_count_to_def hbind_def board_connected_iff)
qed

text \<open>
  C8: With block access, up to 182 values written to consecutive plain registers in one request are
  what a block read of these registers returns, in order; every other register keeps its value.
\<close>

theorem block_write_read_board:
  assumes "board_connected R (unat n_words + n) h s" and "block_enable h" and "0 < unat n_words" "unat n_words \<le> 182"
    and "length vs = unat n_words" and "\<forall>a \<in> region address (unat n_words). emu_plain a"
  shows "\<exists>s1 s2 t. write_data_default (program_data address vs) None True s = (Inr (True, t), s1) \<and>
    read_uint32_count address n_words None check s1 = (Inr (True, vs), s2) \<and>
    board_connected (upds R (program_data address vs)) n h s2"
proof -
  let ?R = "upds R (program_data address vs)"
  have ne: "program_data address vs \<noteq> []" using assms(3,5) length_program_data [of address vs] by (metis less_numeral_extra(3) list.size(3))
  have plain: "\<forall>av \<in> set (program_data address vs). emu_effect av = Some [av]"
    using assms(5,6) emu_plain_effect fst_program_data [of address vs] by fastforce
  obtain t s1 where w: "write_data_default (program_data address vs) None True s = (Inr (True, t), s1)"
      "board_connected ?R (unat n_words + n) h s1"
    using runsD [OF emu.write_data_default_rule [of h "program_data address vs" R "unat n_words + n" True], of s]
      ne plain effects_plain [OF plain] assms by (fastforce simp: board_connected_iff)
  have "map ?R (block_addresses address (unat n_words)) = vs"
    using emu_spi.words_at_block [OF words_at_program_data, of vs "unat n_words" R address] assms(4,5) by simp
  with block_read_board [OF w(2) assms(2-4,6), of check] w(1) show ?thesis by fastforce
qed

theorem block_write_read_board_witness:
  "\<exists>s1 s2 t. write_data_default (program_data 0x1000 [7, 8, 9]) None True (fresh_board initial_host) = (Inr (True, t), s1) \<and>
     read_uint32_count 0x1000 3 None True s1 = (Inr (True, [7, 8, 9]), s2)"
proof -
  have "{..<3} = {0, 1, 2 :: nat}" by auto
  then have "\<forall>a \<in> region 0x1000 3. emu_plain a"
    by (simp add: region_def emu_plain_def misaligned_def special_addresses_def)
  then show ?thesis
    using block_write_read_board [where n_words = 3 and n = 0 and h = initial_host and s = "fresh_board initial_host" and
      vs = "[7, 8, 9]" and address = "0x1000" and check = True, OF initial_connected]
    by (fastforce simp: new_hololink_def)
qed

subsection \<open>Requests and replies\<close>

text \<open>
  C13: A board that expects another sequence number refuses a checked write: the method raises the
  transaction error at once and the board, its registers included, is as it was.
\<close>

theorem out_of_step_write_refused:
  assumes "at_rest (link s)" and "respond (link s) = emulator_respond EMULATOR_LATENCY" and "emu_ok (device (link s))"
    and "hl_sequence (host s) \<noteq> e_next_sequence (device (link s))" and "sequence_number_checking (host s)"
    and "\<not> misaligned address"
  shows "\<exists>s'. write_uint32 address value s = (Inl (Transaction_error ''bad write response''), s') \<and>
    device (link s') = device (link s)"
  by (rule emu.write_refused) (use assms in \<open>simp_all add: emu.out_of_step_def\<close>)

theorem out_of_step_write_refused_witness:
  "\<exists>s'. write_uint32 0x1000 7 (fresh_board (initial_host\<lparr>hl_sequence := 0x105\<rparr>)) =
      (Inl (Transaction_error ''bad write response''), s') \<and>
    device (link s') = device (link (fresh_board (initial_host\<lparr>hl_sequence := 0x105\<rparr>)))"
  by (rule out_of_step_write_refused)
    (simp_all add: fresh_board_def at_rest_def emu_ok_def new_emulator_def new_hololink_def misaligned_def)

text \<open>
  C14: Against a board that never answers, a write ends: it raises the timeout error, after more than
  the timeout of half a second and at most one retry interval (and six readings of the clock) later.
\<close>

theorem silent_board_write:
  assumes "silent (link s)" and "\<not> misaligned address"
  shows "\<exists>s'. write_uint32 address value s = (Inl (Timeout_error ''write_uint32''), s') \<and>
    clock (link s) + DEFAULT_TIMEOUT_NS < clock (link s') \<and>
    clock (link s') \<le> clock (link s) + DEFAULT_TIMEOUT_NS + DEFAULT_RETRY_NS + 6"
  using assms by (rule silent_write)

definition silent_board :: "hololink \<Rightarrow> unit hsb" where
  "silent_board h = \<lparr>host = h, link = \<lparr>clock = 0, lags = [], inflight = [], device = (),
     respond = (\<lambda>d _. (d, [])), peer_valid = True, send_faults = []\<rparr>\<rparr>"

theorem silent_board_write_witness:
  "\<exists>s'. write_uint32 0x1000 7 (silent_board initial_host) = (Inl (Timeout_error ''write_uint32''), s') \<and>
    DEFAULT_TIMEOUT_NS < clock (link s') \<and> clock (link s') \<le> DEFAULT_TIMEOUT_NS + DEFAULT_RETRY_NS + 6"
  using silent_board_write [of "silent_board initial_host" "0x1000" 7]
  by (simp add: silent_board_def silent_def misaligned_def)

text \<open>
  C12: Whatever is in flight on the link, late replies and stray datagrams included, a reply that
  \<open>execute\<close> accepts is one of the datagrams received after the request was sent, and it carries the
  sequence number of that request.
\<close>

theorem reply_matches_request:
  assumes "execute sequence request to l = (Inr (Some (code, d)), l')"
  shows "\<exists>l1. send_control request (clock_tick l) = (Inr (), l1) \<and>
    (\<exists>datagram \<in> datagrams (inflight l1). parse_reply_header (take UDP_PACKET_SIZE datagram) = Some (sequence, code, d))"
  using assms await_reply_sound unfolding execute_def
  by (fastforce elim!: hthen_cases)

definition echo_link :: "bytes \<Rightarrow> unit link" where
  "echo_link reply = \<lparr>clock = 0, lags = [], inflight = [], device = (),
     respond = (\<lambda>d _. (d, [(0, Datagram reply)])), peer_valid = True, send_faults = []\<rparr>"

theorem reply_matches_request_witness:
  "\<exists>code d l1. send_control [1, 2] (clock_tick (echo_link [0x84, 1, 0, 5, 0, 0])) = (Inr (), l1) \<and>
    (\<exists>datagram \<in> datagrams (inflight l1). parse_reply_header (take UDP_PACKET_SIZE datagram) = Some (5, code, d))"
proof -
  have "length [0x84, 1, 0, 5, 0, 0 :: u8] < 2 ^ 32" by simp
  then obtain d where "parse_reply_header [0x84, 1, 0, 5, 0, 0] = Some (5, 0, d)"
    by (rule parse_header_bytes [where seq = 5 and code = 0 and rest = "[0]", rotated]) (simp_all add: enc_be byte_at_def)
  moreover have "at_rest (echo_link r)" "respond (echo_link r) (device (echo_link r)) q = ((), [(0, Datagram r)])"
    "clock (echo_link r) = 0" for r q
    by (simp_all add: echo_link_def at_rest_def)
  moreover have "0 + int 0 + 2000 \<le> deadline (make_timeout 0 DEFAULT_TIMEOUT_NS DEFAULT_RETRY_NS)"
    by (simp add: make_timeout_def DEFAULT_RETRY_NS_def)
  moreover have "length [0x84, 1, 0, 5, 0, 0 :: u8] \<le> CONTROL_PACKET_SIZE" by (simp add: CONTROL_PACKET_SIZE_def)
  ultimately obtain l' where "execute 5 [1, 2] (Some (make_timeout 0 DEFAULT_TIMEOUT_NS DEFAULT_RETRY_NS))
      (echo_link [0x84, 1, 0, 5, 0, 0]) = (Inr (Some (0, d)), l')"
    using execute_answered by metis
  from reply_matches_request [OF this] show ?thesis by blast
qed

text \<open>
  C36: A block write is serialized exactly when it has at most 183 pairs, all at aligned addresses; the
  datagram is then the six bytes of the header, with the sequence number, and eight bytes for every
  pair, and it fits the control packet.
\<close>

theorem write_request_exact:
  "write_block_request avs sequence check = Inr bytes \<longleftrightarrow>
     length avs \<le> 183 \<and> list_all (\<lambda>av. \<not> misaligned (fst av)) avs \<and>
     bytes = header_bytes WR_BLOCK (request_flags check) sequence @ pairs_bytes avs \<and>
     length bytes = 6 + 8 * length avs \<and> length bytes \<le> CONTROL_PACKET_SIZE"
proof (cases "length avs \<le> 183 \<and> list_all (\<lambda>av. \<not> misaligned (fst av)) avs")
  case True
  then show ?thesis using write_block_request_ok [of avs sequence check]
    by (auto simp: list_all_iff CONTROL_PACKET_SIZE_def)
next
  case False
  then obtain e where "write_block_request avs sequence check = Inl e"
    using write_block_request_bad [of avs sequence check] by (auto simp: list_all_iff not_le)
  with False show ?thesis by auto
qed

text \<open>
  A write to an address that is not a multiple of four raises the alignment error before anything
  is sent: only the clock is read and a sequence number is taken.
\<close>

theorem misaligned_write_not_sent:
  assumes "misaligned address"
  shows "write_uint32 address value s =
    (Inl alignment_error, s\<lparr>host := (host s)\<lparr>hl_sequence := hl_sequence (host s) + 1\<rparr>, link := clock_tick (link s)\<rparr>)"
proof -
  have block: "write_block_request [(address, value)] q check = Inl alignment_error" for q check
    by (rule serialize_header_written [of WR_BLOCK "request_flags check" q])
      (simp add: write_block_request_def assms)
  have single: "write_dword_request address value q check = Inl alignment_error" for q check
    by (simp add: write_dword_request_def assms)
  have "retry_loop (write_block_request [(address, value)] q) interpret_write True q to check s' = (Inl alignment_error, s')"
      "retry_loop (write_dword_request address value q) interpret_write True q to check s' = (Inl alignment_error, s')"
    for q to check and s' :: "'a hsb"
    by (subst retry_loop.simps, simp add: attempt_def block single)+
  then show ?thesis
    by (simp add: write_uint32_def write_uint32_to_def write_uint32_full_def write_data_def write_block_def
        default_timeout_def on_link_def read_clock_def next_sequence_def hbind_def hgets_def)
qed

theorem misaligned_write_not_sent_witness:
  "write_uint32 0x1002 7 (fresh_board initial_host) =
    (Inl alignment_error, (fresh_board initial_host)\<lparr>host := initial_host\<lparr>hl_sequence := 0x101\<rparr>,
       link := clock_tick (link (fresh_board initial_host))\<rparr>)"
  using misaligned_write_not_sent [of "0x1002" 7 "fresh_board initial_host"]
  by (simp add: misaligned_def fresh_board_def new_hololink_def)

subsection \<open>Sequences\<close>

text \<open>
  C9: A sequence assembled on the host (up to 183 words, with targets that are plain registers outside the
  program's own memory) and enabled for the software event is what the board's interpreter runs: from
  the vector of the event it reaches the end within twice the number of the commands and one steps,
  and leaves every register outside the program as the commands, one after the other, mean.
\<close>

theorem assembled_sequence_runs:
  assumes "board_connected R n h s" and "block_enable h" and "caches_agree R h"
    and "length (program cs) \<le> 183" and "P = region (APB_RAM + 0x800) (length (program cs))"
    and "\<forall>c \<in> set cs. command_ok P c"
  shows "\<exists>is q s' q' R'. emit_list cs new_sequencer = (Inr is, q) \<and>
    software_sequencer_enable (s, q) = (Inr (), (s', q')) \<and> board_connected R' n (configured SW_EVENT True h) s' \<and>
    (\<forall>a. a \<notin> P \<longrightarrow> a \<notin> event_registers \<longrightarrow> R' a = R a) \<and>
    (\<forall>R''. apb_means cs R' = Some R'' \<longrightarrow>
       (\<exists>m e'. m \<le> Suc (2 * length cs) \<and>
         execute_sequence m (R' (event_vector SW_EVENT)) (device (link s')) = (Inr True, e') \<and>
         (\<forall>a. a \<notin> P \<longrightarrow> get_reg e' a = R'' a)))"
proof -
  obtain q where q: "emit_list cs new_sequencer = (Inr (slots 0 1 cs), q)" by (rule assemble_list [of cs])
  show ?thesis
    by (rule software_sequence_runs [OF assms(1) [unfolded board_connected_iff] assms(2,3) q assms(4-6)])
      (unfold board_connected_iff, rule exI, rule exI, rule exI, rule exI, rule exI, intro conjI, rule q, assumption, assumption, blast, blast)
qed

theorem assembled_sequence_runs_witness:
  "\<exists>is q s' q' R'. emit_list [Apb_write 0x1000 7, Apb_poll 0x1000 0xF 7] new_sequencer = (Inr is, q) \<and>
    software_sequencer_enable (fresh_board initial_host, q) = (Inr (), (s', q')) \<and>
    (\<exists>m e'. m \<le> 5 \<and>
       execute_sequence m (R' (event_vector SW_EVENT)) (device (link s')) = (Inr True, e') \<and> get_reg e' 0x1000 = 7)"
proof -
  let ?cs = "[Apb_write 0x1000 7, Apb_poll 0x1000 0xF 7]"
  have len: "length (program ?cs) = 7" by (simp add: length_program)
  have out: "0x1000 \<notin> region (APB_RAM + 0x800) 7"
    by (auto simp: region_def lessThan_nat_numeral lessThan_Suc)
  then have "\<forall>c \<in> set ?cs. command_ok (region (APB_RAM + 0x800) 7) c"
    by (simp add: command_ok_def DONE_COMMAND_ADDRESS_def emu_plain_def misaligned_def special_addresses_def)
  moreover have "caches_agree initial_registers initial_host"
    by (simp add: caches_agree_def new_hololink_def)
  moreover have "apb_means ?cs R' = Some (R'(0x1000 := 7))" for R' :: "u32 \<Rightarrow> u32" by simp
  ultimately show ?thesis
    using assembled_sequence_runs [OF initial_connected [of 0], of ?cs "region (APB_RAM + 0x800) 7"] len out
    by (fastforce simp: new_hololink_def)
qed

text \<open>
  The index that the assembler returns for a command is the position of the command's data word in
  the finished program, right behind the word with its address; it is what the drivers use to read
  results back from the board's memory.
\<close>

theorem assembler_index:
  assumes "j < length cs"
  shows "\<exists>is q q'. emit_list cs new_sequencer = (Inr is, q) \<and> seq_done q = (Inr (), q') \<and>
    length is = length cs \<and> 0 < is ! j \<and> is ! j < length (q_buffer q') \<and>
    q_buffer q' ! (is ! j - 1) = target (cs ! j) \<and> q_buffer q' ! (is ! j) = operands (cs ! j) ! 1 \<and>
    length (q_buffer q') = 2 + (\<Sum>c \<leftarrow> cs. length (operands c)) + length cs div 16"
proof -
  obtain q q' where q: "emit_list cs new_sequencer = (Inr (slots 0 1 cs), q)" "seq_done q = (Inr (), q')"
      "q_buffer q' = program cs"
    by (rule assemble_list [of cs]) blast
  show ?thesis
    by (rule exI, rule exI, rule exI, intro conjI, rule q(1), rule q(2))
      (use slots_program [OF assms] in \<open>simp_all add: q(3) length_program\<close>)
qed

theorem assembler_index_witness:
  "\<exists>is q q'. emit_list [Apb_write 0x1000 7, Apb_read 0x1004 9] new_sequencer = (Inr is, q) \<and>
    seq_done q = (Inr (), q') \<and> q_buffer q' ! (is ! 1) = 9 \<and> length (q_buffer q') = 6"
  using assembler_index [of 1 "[Apb_write 0x1000 7, Apb_read 0x1004 9]"] by fastforce

subsection \<open>Events\<close>

text \<open>
  C22: Configuring an event leaves its edge and interrupt bits set and the vector at the handler (the null
  sequence when the handler is 0), every other event as it was, and the host's cached copies of the
  three event registers equal to the board's registers, which the next change starts from.
\<close>

theorem configure_event_agrees:
  assumes "board_connected R n h s" and "block_enable h" and "caches_agree R h"
  shows "\<exists>R' s'. configure_apb_event event handler rising s = (Inr (), s') \<and>
    board_connected R' n (configured event rising h) s' \<and> caches_agree R' (configured event rising h) \<and>
    R' (event_vector event) = (if handler = 0 then null_sequence_location h else handler) \<and>
    bit (R' CTRL_EVT_APB_INTERRUPT_EN) (event_code event) \<and>
    (bit (R' CTRL_EVT_RISING) (event_code event) \<longleftrightarrow> rising) \<and>
    (bit (R' CTRL_EVT_FALLING) (event_code event) \<longleftrightarrow> \<not> rising) \<and>
    (\<forall>k. k \<noteq> event_code event \<longrightarrow>
       bit (R' CTRL_EVT_APB_INTERRUPT_EN) k = bit (R CTRL_EVT_APB_INTERRUPT_EN) k \<and>
       bit (R' CTRL_EVT_RISING) k = bit (R CTRL_EVT_RISING) k \<and>
       bit (R' CTRL_EVT_FALLING) k = bit (R CTRL_EVT_FALLING) k) \<and>
    (\<forall>a. a \<notin> event_registers \<longrightarrow> R' a = R a)"
proof -
  from runsD [OF emu.configure_apb_event_rule [OF emu_event_memory assms(2,3)] assms(1) [unfolded board_connected_iff]]
  obtain R' s' where *: "configure_apb_event event handler rising s = (Inr (), s')"
      "board_connected R' n (configured event rising h) s'" "caches_agree R' (configured event rising h)"
      "R' (event_vector event) = handler_of handler h" "\<forall>a. a \<notin> event_registers \<longrightarrow> R' a = R a"
    unfolding board_connected_iff by (metis old.unit.exhaust)
  show ?thesis
    by (rule exI [of _ R'], rule exI [of _ s'])
      (use * assms(3) configured_this [of event rising h] configured_others [of _ event rising h]
        in \<open>simp add: caches_agree_def handler_of_def\<close>)
qed

theorem configure_event_agrees_witness:
  "\<exists>R' s'. configure_apb_event GPIO0 0x2900 True (fresh_board initial_host) = (Inr (), s') \<and>
    caches_agree R' (configured GPIO0 True initial_host) \<and> R' (event_vector GPIO0) = 0x2900 \<and>
    bit (R' CTRL_EVT_APB_INTERRUPT_EN) 18"
  using configure_event_agrees [OF initial_connected [of 0], of GPIO0 "0x2900" True]
  by (auto simp: caches_agree_def new_hololink_def)

lemma interrupt_stays_off:
  "\<not> bit (R CTRL_EVT_APB_INTERRUPT_EN) k \<Longrightarrow>
   \<forall>av \<in> set ws. fst av = CTRL_EVT_APB_INTERRUPT_EN \<longrightarrow> \<not> bit (snd av) k \<Longrightarrow>
   \<not> bit (upds R ws CTRL_EVT_APB_INTERRUPT_EN) k"
  by (induction ws arbitrary: R) auto

text \<open>
  C23: While the registers of an event are rewritten, its interrupt is off: after the first and before the
  last of the writes, however far the board has got, the event's bit in the interrupt enable
  register is clear, so that no event runs a half configured vector.
\<close>

theorem interrupt_off_while_configuring:
  assumes "caches_agree R h" and "ws = snd (configure_apb_event_data event handler rising (h, []))"
    and "0 < k" and "k < length ws"
  shows "\<not> bit (upds R (take k ws) CTRL_EVT_APB_INTERRUPT_EN) (event_code event)"
proof -
  let ?c = "event_code event"
  let ?en = "if bit (apb_interrupt_enable_cache h) ?c
             then [(CTRL_EVT_APB_INTERRUPT_EN, apb_interrupt_enable_cache (cleared event h))] else []"
  let ?edges = "(if bit (rising_cache h) ?c then [(CTRL_EVT_RISING, rising_cache (cleared event h))] else []) @
    (if bit (falling_cache h) ?c then [(CTRL_EVT_FALLING, falling_cache (cleared event h))] else [])"
  define mid where "mid = ?edges @ [(CTRL_EVT_CLEAR, event_bit event), (CTRL_EVT_CLEAR, 0),
    (event_vector event, handler_of handler h),
    if rising then (CTRL_EVT_RISING, rising_cache (configured event rising h))
    else (CTRL_EVT_FALLING, falling_cache (configured event rising h))]"
  have ws: "ws = ?en @ mid @ [(CTRL_EVT_APB_INTERRUPT_EN, apb_interrupt_enable_cache (configured event rising h))]"
    by (simp add: mid_def assms(2) configure_apb_event_data_writes clear_apb_event_data_writes)
  have mid: "CTRL_EVT_APB_INTERRUPT_EN \<notin> fst ` set mid"
    using event_vector_not_control [of event] by (auto simp: mid_def)
  have off: "\<not> bit (apb_interrupt_enable_cache (cleared event h)) ?c"
    by (simp add: cleared_def bit_simps bit_event_bit)
  have pre: "take k ws = ?en @ take (k - length ?en) mid"
    using assms(3,4) by (auto simp: ws)
  have "\<not> bit (upds R ?en CTRL_EVT_APB_INTERRUPT_EN) ?c"
    using assms(1) off by (simp add: caches_agree_def)
  then have "\<not> bit (upds (upds R ?en) (take (k - length ?en) mid) CTRL_EVT_APB_INTERRUPT_EN) ?c"
    by (rule interrupt_stays_off) (use mid in \<open>force dest: in_set_takeD\<close>)
  then show ?thesis unfolding pre by simp
qed

theorem interrupt_off_while_configuring_witness:
  "\<not> bit (upds ((\<lambda>_. 0)(CTRL_EVT_APB_INTERRUPT_EN := 4))
      (take 3 (snd (configure_apb_event_data SW_EVENT 0x2900 True (initial_host\<lparr>apb_interrupt_enable_cache := 4\<rparr>, []))))
      CTRL_EVT_APB_INTERRUPT_EN) 2"
proof -
  have "caches_agree ((\<lambda>_. 0)(CTRL_EVT_APB_INTERRUPT_EN := 4)) (initial_host\<lparr>apb_interrupt_enable_cache := 4\<rparr>)"
    by (simp add: caches_agree_def new_hololink_def)
  from interrupt_off_while_configuring [OF this refl, of 3 SW_EVENT "0x2900" True] show ?thesis
    by (simp add: configure_apb_event_data_writes clear_apb_event_data_writes)
qed

subsection \<open>GPIO, UART, SPI and I2C\<close>

lemma gpio_set_direction_board:
  assumes "board_connected R (Suc n) h s" and "gpio_wf g" and "pin < gpio_pin_number g"
    and "direction = GPIO_IN \<or> direction = GPIO_OUT"
  obtains s1 R1 where "gpio_set_direction g pin direction s = (Inr (), s1)" "board_connected R1 n h s1"
    "\<And>q. q < 0x100 \<Longrightarrow> pin_of R1 GPIO_DIRECTION_BASE_REGISTER q =
       (if q = pin then direction = GPIO_IN else pin_of R GPIO_DIRECTION_BASE_REGISTER q)"
    "\<And>a. a \<noteq> gpio_register GPIO_DIRECTION_BASE_REGISTER pin \<Longrightarrow> R1 a = R a"
proof -
  let ?a = "gpio_register GPIO_DIRECTION_BASE_REGISTER pin"
  define R1 where "R1 = R(?a := put_pin (direction = GPIO_IN) (R ?a) pin)"
  have pin: "pin < 0x100" using emu.gpio_range [OF assms(2,3)] .
  obtain s1 where s1: "gpio_set_direction g pin direction s = (Inr (), s1)" "emu.st R1 n h s1"
    using runsD [OF emu.gpio_set_direction_rule [OF emu_gpio_memory assms(2,3,4)] assms(1) [unfolded board_connected_iff]]
    by (auto simp: R1_def)
  have "pin_of R1 GPIO_DIRECTION_BASE_REGISTER q =
      (if q = pin then direction = GPIO_IN else pin_of R GPIO_DIRECTION_BASE_REGISTER q)" if "q < 0x100" for q
    unfolding R1_def by (subst pin_of_put [OF pin that]) simp
  moreover have "R1 a = R a" if "a \<noteq> ?a" for a using that by (simp add: R1_def)
  ultimately show thesis using s1 that board_connected_iff by blast
qed

text \<open>
  C34: Setting the direction of a pin makes the board report that direction for it, and leaves the direction of
  every other pin, those in the same register included, and every other register unchanged.
\<close>

theorem gpio_direction_set:
  assumes "board_connected R (Suc (Suc n)) h s" and "gpio_wf g" and "pin < gpio_pin_number g"
    and "direction = GPIO_IN \<or> direction = GPIO_OUT"
  shows "\<exists>s1 s2 R'. gpio_set_direction g pin direction s = (Inr (), s1) \<and>
    gpio_get_direction g pin s1 = (Inr direction, s2) \<and> board_connected R' n h s2 \<and>
    (\<forall>q. q < 0x100 \<longrightarrow> q \<noteq> pin \<longrightarrow> pin_of R' GPIO_DIRECTION_BASE_REGISTER q = pin_of R GPIO_DIRECTION_BASE_REGISTER q) \<and>
    (\<forall>a. a \<noteq> gpio_register GPIO_DIRECTION_BASE_REGISTER pin \<longrightarrow> R' a = R a)"
proof -
  obtain s1 R1 where s1: "gpio_set_direction g pin direction s = (Inr (), s1)" "board_connected R1 (Suc n) h s1"
    and others: "\<And>q. q < 0x100 \<Longrightarrow> pin_of R1 GPIO_DIRECTION_BASE_REGISTER q =
       (if q = pin then direction = GPIO_IN else pin_of R GPIO_DIRECTION_BASE_REGISTER q)"
      "\<And>a. a \<noteq> gpio_register GPIO_DIRECTION_BASE_REGISTER pin \<Longrightarrow> R1 a = R a"
    by (rule gpio_set_direction_board [OF assms]) blast
  have "(if pin_of R1 GPIO_DIRECTION_BASE_REGISTER pin then GPIO_IN else GPIO_OUT) = direction"
    using others(1) [OF emu.gpio_range [OF assms(2,3)]] assms(4) by (auto simp: GPIO_IN_def GPIO_OUT_def)
  then obtain s2 where "gpio_get_direction g pin s1 = (Inr direction, s2)" "emu.st R1 n h s2"
    using runsD [OF emu.gpio_get_direction_rule [OF emu_gpio_memory assms(2,3)] s1(2) [unfolded board_connected_iff]]
    by auto
  with s1(1) others show ?thesis unfolding board_connected_iff by metis
qed

theorem gpio_direction_set_witness:
  "\<exists>g s1 s2. get_gpio (Some 16) = Inr g \<and> gpio_set_direction g 5 GPIO_IN (fresh_board initial_host) = (Inr (), s1) \<and>
    gpio_get_direction g 5 s1 = (Inr GPIO_IN, s2)"
proof -
  obtain g where g: "get_gpio (Some 16) = Inr g" "gpio_pin_number g = 16"
    by (rule that [of "\<lparr>gpio_pin_number = 16\<rparr>"]) (simp_all add: get_gpio_def new_gpio_def GPIO_PIN_RANGE_def)
  show ?thesis
    using gpio_direction_set [OF initial_connected [of "Suc (Suc 0)"], of g 5 GPIO_IN] get_gpio_wf [OF g(1)] g
    by fastforce
qed

text \<open>
  Writing the value of a pin that the board has as an input is refused with an error after the direction was
  read, and no register is written.
\<close>

theorem gpio_input_not_written:
  assumes "board_connected R (Suc n) h s" and "gpio_wf g" and "pin < gpio_pin_number g"
    and "pin_of R GPIO_DIRECTION_BASE_REGISTER pin"
  shows "\<exists>s'. gpio_set_value g pin value s = (Inl (Runtime_error ''GPIO: trying to write to an input register!''), s') \<and>
    board_connected R n h s'"
  using emu.gpio_set_value_input [OF emu_gpio_memory assms(2-4)] assms(1) unfolding board_connected_iff by blast

theorem gpio_input_not_written_witness:
  "\<exists>g s1 s3. get_gpio (Some 16) = Inr g \<and> gpio_set_direction g 5 GPIO_IN (fresh_board initial_host) = (Inr (), s1) \<and>
    gpio_set_value g 5 GPIO_HIGH s1 = (Inl (Runtime_error ''GPIO: trying to write to an input register!''), s3)"
proof -
  obtain g where g: "get_gpio (Some 16) = Inr g" "gpio_pin_number g = 16" "gpio_wf g"
    by (rule that [of "\<lparr>gpio_pin_number = 16\<rparr>"]) (simp_all add: get_gpio_def new_gpio_def GPIO_PIN_RANGE_def gpio_wf_def)
  obtain s1 R1 where s1: "gpio_set_direction g 5 GPIO_IN (fresh_board initial_host) = (Inr (), s1)"
      "board_connected R1 (Suc 0) initial_host s1"
    and others: "\<And>q. q < 0x100 \<Longrightarrow> pin_of R1 GPIO_DIRECTION_BASE_REGISTER q =
       (if q = 5 then GPIO_IN = GPIO_IN else pin_of initial_registers GPIO_DIRECTION_BASE_REGISTER q)"
    by (rule gpio_set_direction_board [OF initial_connected [of "Suc (Suc 0)"] g(3), of 5 GPIO_IN])
      (use g(2) in auto)
  from gpio_input_not_written [OF s1(2) g(3), of 5 GPIO_HIGH] others [of 5] g(1,2) s1(1) show ?thesis by auto
qed

text \<open>
  C33: Configuring the UART with valid arguments leaves the fields of the board's two control registers exactly
  as asked (divisor, data and stop bits, parity, flow control, FIFO thresholds), all three enables on and the
  FIFO resets off, the sticky bits cleared and the pins of the flow control set up. Of the object of port 0, the baud rate,
  the flow control, the data bits and the parity are the arguments; the stop bits are their encoding in the register, not
  the argument, and the four thresholds are those of the constructor still, whatever the board was given.
\<close>

theorem uart_configured:
  assumes "board_connected R (n + 6) h s" and "u = uart_object 0 rate0 bits0 par0 stop0 flow0"
    and "baud_rate_to_divisor rate = Inr divisor" and "valid_data_bits bits" and "par = 0 \<or> par = 1 \<or> par = 2"
    and "stop_bits_to_encoding stop = Inr stop_code" and "flow = 0 \<or> flow = 1"
    and "te \<le> tf" "tf \<le> 255" and "re \<le> rf" "rf \<le> 255"
  shows "\<exists>s' u' R'. uart_configure rate bits par stop flow te tf re rf (s, u) = (Inr (), (s', u')) \<and>
    u' = u\<lparr>baud_rate := rate, flow_control := flow, data_bits := bits, parity := par, stop_bits := stop_code\<rparr> \<and>
    (tx_almost_empty_threshold u', tx_almost_full_threshold u') = (4, 252) \<and>
    (rx_almost_empty_threshold u', rx_almost_full_threshold u') = (4, 252) \<and>
    board_connected R' n h s' \<and>
    line_of (R' (uart_ctrl0 u)) (R' (uart_ctrl1 u)) =
      \<lparr>l_enabled = 7, l_data = data_bits_encoding bits, l_parity = par, l_reset = 0, l_stop = stop_code, l_flow = flow,
       l_rx_full = rf, l_rx_empty = re, l_baud = divisor, l_tx_full = tf, l_tx_empty = te\<rparr> \<and>
    R' (uart_ctrl2 u) = 0xF \<and>
    R' GPIO_DIRECTION_BASE_REGISTER = flow_control_gpio flow (R GPIO_DIRECTION_BASE_REGISTER) \<and>
    R' VSYNC_GPIO = R VSYNC_GPIO OR push_bit 9 1"
proof -
  have "n + 6 = Suc (Suc (Suc (Suc (Suc (Suc n)))))" by simp
  with assms(1) have "emu.ust R (Suc (Suc (Suc (Suc (Suc (Suc n)))))) h u (s, u)"
    by (simp only: emu.ust_def board_connected_iff fst_conv snd_conv simp_thms)
  from runsD [OF emu.uart_configure_rule [OF emu_uart_memory uart_object_apart assms(3-11)] this [unfolded assms(2)]]
  obtain p R' where p: "uart_configure rate bits par stop flow te tf re rf (s, u) = (Inr (), p)"
      "emu.ust R' n h (u\<lparr>baud_rate := rate, flow_control := flow, data_bits := bits, parity := par, stop_bits := stop_code\<rparr>) p"
      "line_of (R' (uart_ctrl0 u)) (R' (uart_ctrl1 u)) =
        \<lparr>l_enabled = 7, l_data = data_bits_encoding bits, l_parity = par, l_reset = 0, l_stop = stop_code, l_flow = flow,
         l_rx_full = rf, l_rx_empty = re, l_baud = divisor, l_tx_full = tf, l_tx_empty = te\<rparr> \<and>
       R' (uart_ctrl2 u) = 0xF \<and>
       R' GPIO_DIRECTION_BASE_REGISTER = flow_control_gpio flow (R GPIO_DIRECTION_BASE_REGISTER) \<and>
       R' VSYNC_GPIO = R VSYNC_GPIO OR push_bit 9 1"
    unfolding assms(2) by auto
  show ?thesis
    by (rule exI [of _ "fst p"], rule exI [of _ "snd p"], rule exI [of _ R'])
      (use p assms(2) in \<open>simp add: emu.ust_def board_connected_iff prod_eq_iff uart_object_def\<close>)
qed

theorem uart_configured_witness:
  "\<exists>s' u' R'. uart_configure 115200 8 1 1 0 8 200 16 100 (fresh_board initial_host, uart_object 0 9600 8 0 1 0) = (Inr (), (s', u')) \<and>
    line_of (R' (uart_ctrl0 u')) (R' (uart_ctrl1 u')) =
      \<lparr>l_enabled = 7, l_data = 0, l_parity = 1, l_reset = 0, l_stop = 0, l_flow = 0,
       l_rx_full = 100, l_rx_empty = 16, l_baud = 20, l_tx_full = 200, l_tx_empty = 8\<rparr> \<and>
    baud_rate u' = 115200 \<and> stop_bits u' = 0 \<and> tx_almost_empty_threshold u' = 4"
proof -
  have "baud_rate_to_divisor 115200 = Inr 20" "stop_bits_to_encoding 1 = Inr 0" "valid_data_bits 8"
    "data_bits_encoding 8 = 0"
    by (simp_all add: baud_rate_to_divisor_def stop_bits_to_encoding_def valid_data_bits_def data_bits_encoding_def)
  with uart_configured [where n = 0 and R = initial_registers and h = initial_host and s = "fresh_board initial_host" and
      par = 1 and flow = 0 and te = 8 and tf = 200 and re = 16 and rf = 100, OF _ refl, of 115200 20 8 1 0 9600 8 0 1 0]
    initial_connected [of 6]
  show ?thesis by fastforce
qed

text \<open>
  C32: A transaction of the SPI driver on the board (whose controller loops its buffer back) returns the first
  bytes of what was written, as many as the command and the answer have together: the words go through the
  serializer, the board's registers and the block read unharmed, and the controller is idle again.
\<close>

theorem spi_loopback:
  assumes "board_connected R (3 + ((m + 3) div 4 + n)) h s" and "block_enable h"
    and "spi_address spi = SPI_CTRL" and "spi_check spi command data r = None"
    and "length (command @ data) < 2 ^ 32" and "m = unat (of_nat (length command) + r)"
    and "0 < m" and "m \<le> length (command @ data)" and "R (SPI_CTRL + SPI_REG_STATUS) AND SPI_BUSY = 0"
  shows "\<exists>s' R'. spi_transaction spi command data r None s = (Inr (take m (command @ data)), s') \<and>
    board_connected R' n h s' \<and> R' SPI_CTRL = 0 \<and> R' (SPI_CTRL + SPI_REG_STATUS) = SPI_IDLE"
proof -
  have "emu.in_time None 10 c" for c unfolding emu.in_time_def by (simp add: DEFAULT_RETRY_NS_def EMULATOR_LATENCY_def)
  moreover have "3 + ((m + 3) div 4 + n) = Suc (Suc (Suc ((m + 3) div 4 + n)))" by simp
  ultimately have "emu.st R (Suc (Suc (Suc ((m + 3) div 4 + n)))) h s \<and> emu.in_time None 10 (clock (link s))"
    using assms(1) by (simp only: board_connected_iff simp_thms)
  from runsD [OF emu_spi.spi_transaction_rule [where R = R, OF assms(3,4,5,2,6,7,8,9)] this]
  show ?thesis unfolding board_connected_iff by fastforce
qed

theorem spi_loopback_witness:
  "\<exists>spi s'. get_spi 0 0 1 0 0 1 SPI_CTRL = Inr spi \<and>
    spi_transaction spi [1, 2] [3, 4, 5] 3 None (fresh_board initial_host) = (Inr [1, 2, 3, 4, 5], s')"
proof -
  obtain spi where spi: "get_spi 0 0 1 0 0 1 SPI_CTRL = Inr spi" "spi_address spi = SPI_CTRL" "turnaround_cycles spi = 0"
    using that by (simp add: get_spi_def spi_mode_def word_le_nat_alt)
  then have "spi_check spi [1, 2] [3, 4, 5] 3 = None" by (simp add: spi_check_def)
  then show ?thesis
    using spi_loopback [OF initial_connected [of "3 + ((5 + 3) div 4 + 0)"], of spi "[1, 2]" "[3, 4, 5]" 3] spi
    by (fastforce simp: new_hololink_def)
qed

text \<open>
  A transaction whose command has 16 bytes or more, whose write has more than 256 bytes, whose answer would
  not fit in 256 bytes, or whose turnaround has more than 255 cycles is refused before anything is sent. (The
  size of the answer is a 32-bit sum, which the last hypothesis keeps from wrapping.)
\<close>

theorem spi_sizes_refused:
  assumes "16 \<le> length command \<or> 256 < length (command @ data) \<or> 256 < length command + unat r \<or>
      256 \<le> unat (turnaround_cycles spi)"
    and "length (command @ data) < 2 ^ 32" and "length command + unat r < 2 ^ 32"
  shows "\<exists>e. spi_transaction spi command data r to s = (Inl e, s)"
proof -
  have "unat (of_nat (length command) :: u32) = length command"
    "unat (of_nat (length (command @ data)) :: u32) = length (command @ data)"
    "unat (of_nat (length command) + r) = length command + unat r"
    using assms(2,3) by (simp_all add: unat_of_nat_u32 unat_word_ariths(1))
  then have "spi_check spi command data r \<noteq> None"
    using assms(1) by (auto simp: spi_check_def Let_def word_le_nat_alt word_less_nat_alt)
  then show ?thesis by (auto dest: spi_check_throws)
qed

theorem spi_sizes_refused_witness:
  "\<exists>e. spi_transaction \<lparr>spi_address = SPI_CTRL, spi_mode_value = 0, spi_bus_number = 0, turnaround_cycles = 0\<rparr>
     (replicate 16 0) [] 3 None (fresh_board initial_host) = (Inl e, fresh_board initial_host)"
  using spi_sizes_refused [of "replicate 16 0" "[]" 3] by simp

text \<open>
  The indexes that the I2C driver keeps for a transaction point, in the program it sends to the board, at the
  word where the controller's status will be stored, at the words where the bytes read will be stored, in
  order, and at the words with the bytes to write.
\<close>

theorem i2c_program_indexes:
  assumes "i2c_sizes_ok address write_bytes n_words"
  shows "\<exists>ws rs status q q'. encode_i2c_request i address write_bytes n_words new_sequencer = (Inr (ws, rs, status), q) \<and>
    seq_done q = (Inr (), q') \<and>
    q_buffer q' ! (status - 1) = i2c_reg_status i \<and> q_buffer q' ! status = 0 \<and>
    length ws = length (words_of_bytes write_bytes) \<and> length rs = unat ((n_words + 3) div 4) \<and>
    (\<forall>k < length ws. q_buffer q' ! (ws ! k - 1) = i2c_reg_data_buffer i + of_nat k * 4 \<and>
       q_buffer q' ! (ws ! k) = words_of_bytes write_bytes ! k) \<and>
    (\<forall>k < length rs. q_buffer q' ! (rs ! k - 1) = i2c_reg_data_buffer i + of_nat k * 4 \<and>
       q_buffer q' ! (rs ! k) = 0xFFFFFFFF)"
proof -
  let ?cs = "i2c_commands i address write_bytes n_words"
  let ?n = "length (words_of_bytes write_bytes)" and ?m = "unat ((n_words + 3) div 4)"
  obtain q q' where q: "emit_list ?cs new_sequencer = (Inr (slots 0 1 ?cs), q)" "seq_done q = (Inr (), q')"
      "q_buffer q' = program ?cs"
    by (rule assemble_list [of ?cs]) blast
  have len: "length ?cs = ?n + 7 + ?m"
    by (simp add: i2c_commands_def program_data_def)
  have "?cs ! (1 + k) = Apb_write (i2c_reg_data_buffer i + of_nat k * 4) (words_of_bytes write_bytes ! k)" if "k < ?n" for k
    using that by (simp add: i2c_commands_def nth_append program_data_def)
  moreover have "?cs ! (?n + 5) = Apb_read (i2c_reg_status i) 0"
    by (simp add: i2c_commands_def nth_append program_data_def)
  moreover have "?cs ! (?n + 6 + k) = Apb_read (i2c_reg_data_buffer i + of_nat k * 4) 0xFFFFFFFF" if "k < ?m" for k
    using that by (simp add: i2c_commands_def nth_append program_data_def block_addresses_def)
  ultimately show ?thesis
    using encode_i2c_request_run [OF assms q(1)] slots_program [of _ ?cs] len q(2)
    by (intro exI conjI allI impI) (auto simp: q(3) nth_append)
qed

theorem i2c_program_indexes_witness:
  "\<exists>ws rs status q q'. encode_i2c_request \<lparr>i2c_base = I2C_CTRL, i2c_bus_en = 1\<rparr> 0x50 [1, 2] 4 new_sequencer =
      (Inr (ws, rs, status), q) \<and>
    seq_done q = (Inr (), q') \<and> q_buffer q' ! (rs ! 0) = 0xFFFFFFFF"
proof -
  have "i2c_sizes_ok 0x50 [1, 2] 4" by (simp add: i2c_sizes_ok_def word_le_nat_alt)
  from i2c_program_indexes [OF this, of "\<lparr>i2c_base = I2C_CTRL, i2c_bus_en = 1\<rparr>"]
  obtain ws rs status q q' where *:
      "encode_i2c_request \<lparr>i2c_base = I2C_CTRL, i2c_bus_en = 1\<rparr> 0x50 [1, 2] 4 new_sequencer = (Inr (ws, rs, status), q)"
      "seq_done q = (Inr (), q')" "length rs = unat ((4 + 3) div (4 :: u32))" "\<forall>k < length rs. q_buffer q' ! (rs ! k) = 0xFFFFFFFF"
    by blast
  have "0 < length rs" unfolding *(3) by simp
  with * show ?thesis by blast
qed

text \<open>
  C2: A transaction of the I2C driver, with any peripheral attached to the board's bus, returns the
  bytes that the peripheral answers: the program that the driver assembles goes over the control
  socket, the board's threads run it, the poll of the program sees the controller done, and the driver
  reads the bytes back. The peripheral is in the state that the transaction leaves it in, and no
  register but those of the transaction has changed.
\<close>

theorem i2c_transaction_on_board:
  assumes "board_connected_i2c att per env R m h s" and "transaction_fits a wb n"
    and "bus_answer att per env (bus, ucast a) wb (unat n) = ((True, rb), env')" "length rb = unat n"
  shows "\<exists>s' R'. i2c_transaction (get_i2c bus I2C_CTRL) a wb n None nak s = (Inr rb, s') \<and>
    board_connected_i2c att per env' R' 235 (i2c_host h) s' \<and> (\<forall>b. b \<notin> i2c_touched \<longrightarrow> R' b = R b)"
  using assms by (rule transaction_connected)

theorem i2c_transaction_on_board_witness:
  "\<exists>s'. i2c_transaction (get_i2c 1 I2C_CTRL) 0x51 [0, 5] 4 None False (fresh_i2c_board [(1, 0x51)] sample_eeprom ()) =
     (Inr [5, 6, 7, 8], s')"
proof -
  have "transaction_fits 0x51 [0, 5] 4" by (simp add: transaction_fits_def)
  moreover have "bus_answer [(1, 0x51)] sample_eeprom () (1, ucast (0x51 :: u32)) [0, 5] (unat (4 :: u32)) =
      ((True, [5, 6, 7, 8]), ())"
    by code_simp
  ultimately show ?thesis
    using i2c_transaction_on_board [OF fresh_i2c_board_connected [of 299 "[(1, 0x51)]" sample_eeprom "()"]] by fastforce
qed

text \<open>
  C37: A transaction that the size checks let through but whose program does not fit one control packet (81 data words
  to write and read, or more) raises an error with block access, and the board is not touched.
\<close>

theorem i2c_long_transaction_fails:
  assumes "i2c_sizes_ok address write_bytes n_words"
    and "81 \<le> (length write_bytes + 3) div 4 + unat ((n_words + 3) div 4)" and "block_enable (host s)"
  shows "\<exists>e s'. i2c_transaction i address write_bytes n_words to ignore_nak s = (Inl e, s') \<and>
    device (link s') = device (link s)"
  using assms by (rule i2c_transaction_too_long)

theorem i2c_long_transaction_fails_witness:
  "\<exists>e s'. i2c_transaction \<lparr>i2c_base = I2C_CTRL, i2c_bus_en = 1\<rparr> 0x50 (replicate 256 0) 0x100 None False
     (fresh_board initial_host) = (Inl e, s') \<and> device (link s') = device (link (fresh_board initial_host))"
  by (rule i2c_long_transaction_fails) (simp_all add: i2c_sizes_ok_def word_le_nat_alt fresh_board_def new_hololink_def)

subsection \<open>The board by itself\<close>

text \<open>
  C29: In every state that the board reaches, by control messages, steps of sequences and I2C transactions in any
  order, its three threads live or die together, the count of repeated reads is below the limit while they
  live, every queued event has the start address of its kind, and the interpreter of sequences fetches
  at aligned addresses with a whole number of commands left in its word.
\<close>

theorem board_invariant:
  assumes "board_reachable (new_emulator version env peripheral) (e, x)"
  shows "(e_running e \<longleftrightarrow> apb_running e) \<and> (e_running e \<longleftrightarrow> i2c_running e) \<and>
    (e_running e \<longrightarrow> unat (e_poll_count e) \<le> 299) \<and>
    (\<forall>(event, a) \<in> set (apb_queue e). event_start_address event = Some a) \<and>
    (case x of None \<Rightarrow> True | Some x \<Rightarrow> x_bit x \<le> 32 \<and> even (x_bit x) \<and> \<not> misaligned (x_address x))"
  using board_reachable_ok [OF assms board_ok_new]
  by (auto simp: board_ok_def queue_ok_def exec_ok_def split: option.splits)

theorem board_invariant_witness:
  "\<exists>e x. board_reachable (new_emulator 0x2602 () (\<lambda>env _ _ buffer. ((True, buffer), env))) (e, x) \<and>
     unat (e_poll_count e) \<le> 299"
proof -
  let ?e = "new_emulator 0x2602 () (\<lambda>env _ _ buffer. ((True, buffer), env))"
  have "board_step (?e, None) (fst (control_listen [1, 2] ?e), None)"
    by (rule board_step.control) (simp add: new_emulator_def)
  then have r: "board_reachable ?e (fst (control_listen [1, 2] ?e), None)"
    by (rule board_reachable.step [OF board_reachable.start])
  have "e_running (fst (control_listen [1, 2] ?e))"
    by (simp add: control_listen_def control_message_step_def MIN_VALID_CONTROL_LENGTH_def EMU_PACKET_SIZE_def new_emulator_def Let_def)
  with board_invariant [OF r] r show ?thesis by blast
qed

text \<open>
  C30: When a peripheral refuses an I2C transaction, the command is not cleared: the I2C thread is enabled again at once
  with the same command, however often it has run, and the host sees the error in the status register.
\<close>

theorem i2c_refused_for_ever:
  assumes "i2c_enabled e" and "i2c_refusing e"
  shows "i2c_enabled ((i2c_execute ^^ n) e) \<and> i2c_cmd ((i2c_execute ^^ n) e) = i2c_cmd e \<and>
    get_reg ((i2c_execute ^^ Suc n) e) (I2C_CTRL + I2C_REG_STATUS) = I2C_I2C_ERR"
proof -
  have "i2c_refusing ((i2c_execute ^^ n) e) \<and> i2c_cmd ((i2c_execute ^^ n) e) = i2c_cmd e \<and>
      i2c_running ((i2c_execute ^^ n) e) = i2c_running e"
    by (induction n) (simp_all add: assms(2) i2c_refused_repeats)
  then show ?thesis using assms(1) i2c_refused_repeats(4) [of "(i2c_execute ^^ n) e"]
    by (simp add: i2c_enabled_def)
qed

definition refusing_board :: "unit emulator" where
  "refusing_board = (new_emulator 0x2602 () (\<lambda>env _ _ buffer. ((False, buffer), env)))
     \<lparr>i2c_cmd := 1, i2c_address := 9\<rparr>"

theorem i2c_refused_for_ever_witness:
  "i2c_enabled ((i2c_execute ^^ 1000) refusing_board) \<and>
   get_reg ((i2c_execute ^^ Suc 1000) refusing_board) (I2C_CTRL + I2C_REG_STATUS) = I2C_I2C_ERR"
proof -
  have "i2c_enabled refusing_board" by (simp add: i2c_enabled_def refusing_board_def new_emulator_def)
  moreover have "i2c_refusing refusing_board"
    by (simp add: i2c_refusing_def refusing_board_def new_emulator_def get_reg_def rm_new_def rm_read_def)
  ultimately show ?thesis using i2c_refused_for_ever by blast
qed

subsection \<open>Encodings\<close>

text \<open>
  What the serializer appends, the deserializer returns, for fields of either byte order: the bytes written are
  exactly the width of the field, and reading them back gives the value and leaves nothing.
\<close>

theorem field_round_trip:
  assumes "8 \<le> sz" and "sz \<le> length buffer" and "sz < 2 ^ 32"
  shows "(\<exists>s d. append_uint32_be (new_serializer buffer sz) v = Some s \<and>
      next_uint32_be (new_deserializer (take (s_position s) (s_buffer s)) 4) = Some (v, d) \<and> unread d = []) \<and>
    (\<exists>s d. append_uint64_be (new_serializer buffer sz) w = Some s \<and>
      next_uint64_be (new_deserializer (take (s_position s) (s_buffer s)) 8) = Some (w, d) \<and> unread d = []) \<and>
    (\<exists>s d. append_uint16_le (new_serializer buffer sz) x = Some s \<and>
      next_uint16_le (new_deserializer (take (s_position s) (s_buffer s)) 2) = Some (x, d) \<and> unread d = [])"
proof -
  have ok: "s_ok (new_serializer buffer sz)" "room (new_serializer buffer sz) = sz" using assms(2,3) by simp_all
  obtain s1 s2 s3 where "append_uint32_be (new_serializer buffer sz) v = Some s1"
      "append_uint64_be (new_serializer buffer sz) w = Some s2" "append_uint16_le (new_serializer buffer sz) x = Some s3"
    using w32be.put_iff_room [OF ok(1), of v] w64be.put_iff_room [OF ok(1), of w] w16le.put_iff_room [OF ok(1), of x]
      ok(2) assms(1) by auto
  with w32be.put_get [OF _ assms(2,3)] w64be.put_get [OF _ assms(2,3)] w16le.put_get [OF _ assms(2,3)]
  show ?thesis by blast
qed

theorem field_round_trip_witness:
  "\<exists>s d. append_uint32_be (new_serializer (replicate 8 0) 8) 0xDEADBEEF = Some s \<and>
     next_uint32_be (new_deserializer (take (s_position s) (s_buffer s)) 4) = Some (0xDEADBEEF, d) \<and> unread d = []"
  using field_round_trip [of 8 "replicate 8 0" "0xDEADBEEF" 0 0] by simp

text \<open>
  No read of the deserializer leaves its buffer: the bytes returned are the next ones within the limit, and a
  read that would pass the limit returns nothing.
\<close>

theorem deserializer_in_bounds:
  assumes "d_ok d" and "n < 2 ^ 32"
  shows "case next_bytes d n of
      None \<Rightarrow> d_limit d < d_position d + n
    | Some (bs, d') \<Rightarrow> d_position d + n \<le> length (d_buffer d) \<and> length bs = n \<and> d_ok d' \<and> unread d = bs @ unread d'"
proof (cases "d_limit d < d_position d + n")
  case True
  then have "length (unread d) < n" using assms(1) length_unread [OF assms(1)] by (auto simp: d_ok_def)
  with next_bytes_short [OF assms(1) _ assms(2)] True show ?thesis by simp
next
  case False
  then have "length (take n (unread d)) = n" using assms(1) by (simp add: length_unread d_ok_def)
  then obtain d' where d': "next_bytes d n = Some (take n (unread d), d')"
    using next_bytes_unread [OF assms(1), of "take n (unread d)" "drop n (unread d)" n] by auto
  with next_bytes_in_bounds [OF assms(1) d' assms(2)] \<open>length (take n (unread d)) = n\<close> show ?thesis by simp
qed

theorem deserializer_in_bounds_witness:
  "case next_bytes (new_deserializer [1, 2, 3] 3) 2 of
      None \<Rightarrow> False
    | Some (bs, d') \<Rightarrow> length bs = 2 \<and> [1, 2, 3] = bs @ unread d'"
proof -
  have "d_ok (new_deserializer [1, 2, 3] 3)" "unread (new_deserializer [1, 2, 3] 3) = [1, 2, 3]"
    "d_limit (new_deserializer [1, 2, 3] 3) = 3" "d_position (new_deserializer [1, 2, 3] 3) = 0"
    by (simp_all add: new_deserializer_def d_ok_def unread_def)
  with deserializer_in_bounds [of "new_deserializer [1, 2, 3] 3" 2] show ?thesis
    by (auto split: option.splits)
qed

text \<open>
  C35: A reply of the board to a block read is understood by the host exactly when it has at most 182 words: with
  183, which the host is willing to ask for, the board leaves out the latched sequence for which there is no
  room, and the host takes the reply for malformed.
\<close>

theorem block_reply_understood:
  assumes "length (m_pairs m) \<le> 183"
  shows "\<exists>d. parse_reply_header (serialize_reply_message m) = Some (m_sequence m, m_status m, d) \<and>
    interpret_block (map fst (m_pairs m)) RESPONSE_SUCCESS d =
      (if length (m_pairs m) \<le> 182 then Inr (map snd (m_pairs m)) else Inl (Transaction_error ''malformed response''))"
proof -
  let ?tail = "if length (m_pairs m) \<le> 182 then [0, 0, 0, 0] else [] :: bytes"
  have reply: "serialize_reply_message m = [m_cmd m, m_flags m] @ be_bytes 2 (m_sequence m) @ [m_status m] @
      ([m_reserved m] @ pairs_bytes (m_pairs m) @ ?tail)"
    using serialize_reply_bytes [OF assms] by simp
  have "length (serialize_reply_message m) < 2 ^ 32" using assms unfolding reply by simp
  then obtain d where d: "parse_reply_header (serialize_reply_message m) = Some (m_sequence m, m_status m, d)"
      "d_ok d" "unread d = [m_reserved m] @ pairs_bytes (m_pairs m) @ ?tail"
    by (rule parse_header_bytes [OF reply])
  show ?thesis
  proof (cases "length (m_pairs m) \<le> 182")
    case True
    then show ?thesis using d interpret_block_ok [OF d(2), of "m_reserved m" "m_pairs m" "[0, 0, 0, 0]"] by simp
  next
    case False
    then show ?thesis using d interpret_block_short [OF d(2), of "m_reserved m" "m_pairs m" "[]"] by simp
  qed
qed

theorem block_reply_understood_witness:
  "\<exists>d. parse_reply_header (serialize_reply_message \<lparr>m_cmd = 0x99, m_flags = 1, m_sequence = 7, m_status = 0,
      m_reserved = 0, m_pairs = replicate 183 (0x1000, 5)\<rparr>) = Some (7, 0, d) \<and>
    interpret_block (replicate 183 0x1000) RESPONSE_SUCCESS d = Inl (Transaction_error ''malformed response'')"
  using block_reply_understood [of "\<lparr>m_cmd = 0x99, m_flags = 1, m_sequence = 7, m_status = 0,
      m_reserved = 0, m_pairs = replicate 183 (0x1000, 5)\<rparr>"] by (simp add: map_replicate)

text \<open>
  The metadata block behind a frame: every buffer is either shorter than 48 bytes, and refused, or it is
  decoded to the one record whose fields, big endian and in order, are its first 48 bytes.
\<close>

theorem metadata_decoded:
  assumes "length buffer < 2 ^ 31"
  shows "if length buffer < 48 then deserialize_metadata buffer = Inl (Runtime_error ''Buffer underflow in metadata'')
    else \<exists>md pad rest. deserialize_metadata buffer = Inr md \<and> buffer = metadata_bytes md pad @ rest"
proof (cases "length buffer < 48")
  case True
  then show ?thesis by (simp add: deserialize_metadata_short)
next
  case False
  then have "length (take 48 buffer) = 48" by simp
  then obtain md pad where "take 48 buffer = metadata_bytes md pad" by (rule metadata_bytes_surj)
  then have b: "buffer = metadata_bytes md pad @ drop 48 buffer" by (metis append_take_drop_id)
  with deserialize_metadata_bytes [of "drop 48 buffer" md pad] assms have "deserialize_metadata buffer = Inr md"
    by (metis length_drop diff_le_self le_less_trans)
  with b False show ?thesis by (simp only: if_False) blast
qed

theorem metadata_decoded_witness:
  "\<exists>md pad rest. deserialize_metadata (replicate 50 1) = Inr md \<and> replicate 50 1 = metadata_bytes md pad @ rest"
  using metadata_decoded [of "replicate 50 1"] by simp

text \<open>
  The 32-bit extension of a 16-bit counter gives the true count, through any number of wraps of the counter, as
  long as two readings in a row are fewer than 65536 counts apart.
\<close>

theorem counter_follows:
  assumes "successively (\<lambda>a b. a \<le> b \<and> b - a < 2 ^ 16) (0 # counts)"
  shows "xc_updates (map of_nat counts) new_extended_counter = map of_nat counts"
  using xc_updates_at [OF new_extended_counter_at assms] .

theorem counter_follows_witness:
  "xc_updates (map of_nat [65000, 100000, 129000]) new_extended_counter = [65000, 100000, 129000]"
  using counter_follows [of "[65000, 100000, 129000]"] by simp

text \<open>
  C40: A complete event message reaches every listener once, in the order of their registration, each with the
  interrupt state and the time of the message and only for the active events; a message of fewer than 18 bytes ends
  the thread with an exception before any listener is called.
\<close>

theorem event_message_delivered:
  assumes "ev_timestamp_s m < 2 ^ 48" and "length rest \<le> 10000" and "0 < length short" and "length short < 18"
  shows "async_event_thread ls (Received (event_bytes m @ rest) # rs) s =
      async_event_thread ls rs (fold (notify_guarded m) ls s) \<and>
    async_event_thread ls (Received short # rs) s =
      (Inl (Runtime_error ''Buffer underflow in async event message''), s)"
proof -
  have len: "length (event_bytes m) = 18" by (simp add: event_bytes_def)
  have "take ASYNC_PACKET_SIZE (event_bytes m @ rest) = event_bytes m @ rest"
    using assms(2) len by (simp add: ASYNC_PACKET_SIZE_def)
  moreover have "parse_async_event (event_bytes m @ rest) = Inr m"
    by (rule parse_async_event_bytes) (use assms in simp_all)
  moreover have "event_bytes m @ rest \<noteq> []" using len by auto
  ultimately have "async_event_thread ls (Received (event_bytes m @ rest) # rs) s =
      async_event_thread ls rs (notify_all m ls s)"
    by (simp only: async_event_thread.simps Let_def if_False) (simp add: hthen_def hbind_def)
  then show ?thesis unfolding notify_all_def
    by (rule conjI [OF _ async_event_thread_short [OF assms(3,4)]])
qed

theorem event_message_delivered_witness:
  "async_event_thread [Some (\<lambda>event state ts tn log. (Inr (), log @ [event]))]
      [Received (event_bytes \<lparr>interrupt_active = 0x40000, interrupt_state = 4, ev_timestamp_s = 1, ev_timestamp_ns = 2\<rparr>)] [] =
    (Inr True, [GPIO0])"
proof -
  let ?l = "\<lambda>event state ts tn log. (Inr (), log @ [event])"
  let ?m = "\<lparr>interrupt_active = 0x40000, interrupt_state = 4, ev_timestamp_s = 1, ev_timestamp_ns = 2\<rparr>"
  have "notify_guarded ?m (Some ?l) [] = [GPIO0]"
    by (simp add: notify_guarded_def notify_listener_def notified_events_def event_active_def event_bit_def)
  then show ?thesis
    using event_message_delivered [of ?m "[]" "[1]" "[Some ?l]" "[]" "[]"] by simp
qed

text \<open>
  What is written to the emulator's register memory in one call, at distinct addresses, is what one call that asks
  for these addresses reads back.
\<close>

theorem registers_read_back:
  assumes "distinct (map fst avs)" and "map fst queries = map fst avs"
  shows "\<exists>m'. rm_write_many m (Some avs) (int (length avs)) = (0, m') \<and>
    rm_read_many m' (Some queries) (int (length queries)) = (0, Some avs)"
proof -
  obtain c m' where w: "rm_write_many m (Some avs) (int (length avs)) = (c, m')" by force
  with rm.write_then_read [OF assms(1) w assms(2)] show ?thesis by auto
qed

theorem registers_read_back_witness:
  "\<exists>m'. rm_write_many Map.empty (Some [(4, 7), (8, 9)]) 2 = (0, m') \<and> rm_read_many m' (Some [(4, 0), (8, 0)]) 2 = (0, Some [(4, 7), (8, 9)])"
  using registers_read_back [of "[(4, 7), (8, 9)]" "[(4, 0), (8, 0)]" Map.empty] by simp

text \<open>
  However often a timeout is asked for a retry, its total time stays what it was; it grants one exactly when there
  is a retry interval and the time is not over, and the new deadline is never later than the end of the total
  time and one interval.
\<close>

theorem retry_within_total:
  assumes "timeout_wf t" and "timeout_retry now t = (granted, t')"
  shows "timeout_wf t' \<and> expiry t' = expiry t \<and> (granted \<longleftrightarrow> retry_ns t \<noteq> 0 \<and> now < expiry t) \<and>
    deadline t' \<le> max (start t) (expiry t) + retry_ns t"
proof -
  have "timeout_wf t'" using timeout_retry_wf [OF assms] .
  moreover note timeout_retry_fields [OF assms(2)]
  moreover have "granted \<longleftrightarrow> retry_ns t \<noteq> 0 \<and> now < expiry t"
    using assms(2) by (auto simp: timeout_retry_def split: if_splits)
  ultimately show ?thesis by (auto simp: timeout_wf_def le_max_iff_disj)
qed

theorem retry_within_total_witness:
  "\<exists>t'. timeout_retry 250 (make_timeout 0 1000 200) = (True, t') \<and> deadline t' \<le> 1200"
proof -
  have wf: "timeout_wf (make_timeout 0 1000 200)" by (simp add: make_timeout_wf)
  obtain g t' where t': "timeout_retry 250 (make_timeout 0 1000 200) = (g, t')" by force
  from retry_within_total [OF wf t'] t' show ?thesis by (auto simp: make_timeout_def)
qed

end
